(* ===== verification/Prelude.thy ===== *)
theory Prelude
  imports Complex_Main "HOL-Library.While_Combinator"
begin

section \<open>Shared vocabulary of the development\<close>

text \<open>
  This theory holds what every component uses: Python exceptions as values of a sum
  type, the sequencing of fallible steps, the rounding modes of Python's
  \<^verbatim>\<open>decimal\<close> and \<^verbatim>\<open>round\<close>, the handling of sequences by a step function, the
  association tables that stand for the SQLite tables, and two interface locales
  (an invariant kept by steps, a keyed table) that the components interpret on their
  own operations.

  Numbers. Python's \<^verbatim>\<open>float\<close> and \<^verbatim>\<open>Decimal\<close> quantities are exact rationals
  (\<open>rat\<close>): comparisons, guards and branches are those of the source, and the rounding
  that the source asks for explicitly (\<^verbatim>\<open>round(x, 12)\<close>,
  \<^verbatim>\<open>to_integral_value(rounding=...)\<close>) is written out. The rounding of the 28-digit decimal
  context is the subject of the theory DecimalContext; the implicit rounding of a 53-bit float is not
  modelled.
\<close>

subsection \<open>Collections of facts\<close>

named_theorems result_simps \<open>decomposition of fallible computations\<close>
named_theorems table_simps \<open>lookup and update of keyed tables\<close>
named_theorems round_simps \<open>bounds on the rounding functions\<close>

subsection \<open>Exceptions as values\<close>

datatype py_exc =
    ValueError string
  | TypeError
  | KeyError string
  | IndexError
  | AttributeError
  | IntegrityError
  | OverflowError
  | InvalidOperation
  | LookupError string
  | RuntimeError string
  | PermissionError string
  | ZeroDivisionError
  | AllocationConflictError string
  | ProtectionVerificationError string
  | PositionProtectionError string
  | PositionImportConflict string
  | RuntimeLeaseConflictError string
  | LivePreflightError string
  | RiskRejected string
  | RemoteError string
  | NameError

type_synonym 'a result = "py_exc + 'a"

definition bindE :: "'e + 'a \<Rightarrow> ('a \<Rightarrow> 'e + 'b) \<Rightarrow> 'e + 'b" where
  "bindE m f = (case m of Inl e \<Rightarrow> Inl e | Inr x \<Rightarrow> f x)"

lemma bindE_simps [simp]:
  "bindE (Inl e) f = Inl e"
  "bindE (Inr x) f = f x"
  by (simp_all add: bindE_def)

lemma bindE_eq_Inr [result_simps]:
  "bindE m f = Inr y \<longleftrightarrow> (\<exists>x. m = Inr x \<and> f x = Inr y)"
  by (cases m) auto

lemma bindE_eq_Inl [result_simps]:
  "bindE m f = Inl e \<longleftrightarrow> m = Inl e \<or> (\<exists>x. m = Inr x \<and> f x = Inl e)"
  by (cases m) auto

lemma bindE_cong [fundef_cong]:
  "m = m' \<Longrightarrow> (\<And>x. m' = Inr x \<Longrightarrow> f x = g x) \<Longrightarrow> bindE m f = bindE m' g"
  by (cases m') auto

definition is_ok :: "'e + 'a \<Rightarrow> bool" where
  "is_ok r = (case r of Inl _ \<Rightarrow> False | Inr _ \<Rightarrow> True)"

lemma is_ok_simps [simp]: "is_ok (Inr x)" "\<not> is_ok (Inl e)"
  by (simp_all add: is_ok_def)

lemma is_ok_iff: "is_ok r \<longleftrightarrow> (\<exists>x. r = Inr x)"
  by (cases r) auto

text \<open>A Python \<^verbatim>\<open>for\<close> loop whose body may raise, over a list, collecting results.\<close>

fun mapE :: "('a \<Rightarrow> 'e + 'b) \<Rightarrow> 'a list \<Rightarrow> 'e + 'b list" where
  "mapE f [] = Inr []"
| "mapE f (x # xs) = bindE (f x) (\<lambda>y. bindE (mapE f xs) (\<lambda>ys. Inr (y # ys)))"

lemma mapE_Inr: "mapE f xs = Inr ys \<longleftrightarrow> list_all2 (\<lambda>x y. f x = Inr y) xs ys"
  by (induction xs arbitrary: ys) (auto simp: result_simps list_all2_Cons1)

lemma mapE_cong [fundef_cong]:
  "xs = ys \<Longrightarrow> (\<And>x. x \<in> set ys \<Longrightarrow> f x = g x) \<Longrightarrow> mapE f xs = mapE g ys"
  by (induction ys arbitrary: xs) auto

fun foldE :: "('a \<Rightarrow> 's \<Rightarrow> 'e + 's) \<Rightarrow> 'a list \<Rightarrow> 's \<Rightarrow> 'e + 's" where
  "foldE f [] s = Inr s"
| "foldE f (x # xs) s = bindE (f x s) (foldE f xs)"

lemma foldE_cong [fundef_cong]:
  "xs = ys \<Longrightarrow> s = t \<Longrightarrow> (\<And>x u. x \<in> set ys \<Longrightarrow> f x u = g x u) \<Longrightarrow> foldE f xs s = foldE g ys t"
proof (induction ys arbitrary: xs s t)
  case (Cons y ys)
  have "foldE f ys = foldE g ys" by (rule ext) (rule Cons.IH, use Cons.prems in auto)
  with Cons.prems show ?case by (auto intro: bindE_cong)
qed simp

lemma foldE_invariant:
  assumes "foldE f xs s = Inr t" and "P s"
    and "\<And>x u v. x \<in> set xs \<Longrightarrow> P u \<Longrightarrow> f x u = Inr v \<Longrightarrow> P v"
  shows "P t"
  using assms by (induction xs arbitrary: s) (auto simp: result_simps)

subsection \<open>Computations on a state\<close>

text \<open>A computation that may raise maps a state to a result and a state; an exception keeps the state
  that the steps before it have made.\<close>

type_synonym ('s, 'a) action = "'s \<Rightarrow> 'a result \<times> 's"

definition bindS :: "('s, 'a) action \<Rightarrow> ('a \<Rightarrow> ('s, 'b) action) \<Rightarrow> ('s, 'b) action" where
  "bindS m f s = (case m s of (Inl e, s') \<Rightarrow> (Inl e, s') | (Inr x, s') \<Rightarrow> f x s')"

definition returnS :: "'a \<Rightarrow> ('s, 'a) action" where
  "returnS x s = (Inr x, s)"

definition liftS :: "'a result \<Rightarrow> ('s, 'a) action" where
  "liftS r s = (r, s)"

primrec foldS :: "('x \<Rightarrow> 'a \<Rightarrow> ('s, 'a) action) \<Rightarrow> 'x list \<Rightarrow> 'a \<Rightarrow> ('s, 'a) action" where
  "foldS f [] a = returnS a"
| "foldS f (x # xs) a = bindS (f x a) (foldS f xs)"

text \<open>\<^verbatim>\<open>try: m except Exception as e: h\<close>\<close>

definition catchS :: "('s, 'a) action \<Rightarrow> (py_exc \<Rightarrow> ('s, 'a) action) \<Rightarrow> ('s, 'a) action" where
  "catchS m h s = (case m s of (Inl e, s') \<Rightarrow> h e s' | (Inr x, s') \<Rightarrow> (Inr x, s'))"

definition whenS :: "bool \<Rightarrow> ('s, unit) action \<Rightarrow> ('s, unit) action" where
  "whenS b m = (if b then m else returnS ())"

lemma bindS_Inr [result_simps]:
  "bindS m f s = (Inr y, t) \<longleftrightarrow> (\<exists>x u. m s = (Inr x, u) \<and> f x u = (Inr y, t))"
  by (auto simp: bindS_def split: prod.split sum.split)

lemma returnS_Inr [result_simps]: "returnS x s = (Inr y, t) \<longleftrightarrow> y = x \<and> t = s"
  by (auto simp: returnS_def)

lemma liftS_Inr [result_simps]: "liftS r s = (Inr y, t) \<longleftrightarrow> r = Inr y \<and> t = s"
  by (auto simp: liftS_def)

subsection \<open>Interface: computations that follow a relation\<close>

definition behaves ::
  "('s \<Rightarrow> 's \<Rightarrow> bool) \<Rightarrow> ('s \<Rightarrow> bool) \<Rightarrow> ('a \<Rightarrow> bool) \<Rightarrow> ('s, 'a) action \<Rightarrow> bool" where
  "behaves le safe Q m \<longleftrightarrow> (\<forall>s. safe s \<longrightarrow> safe (snd (m s)) \<and> le s (snd (m s)) \<and> (\<forall>x. fst (m s) = Inr x \<longrightarrow> Q x))"

locale action_relation =
  fixes le :: "'s \<Rightarrow> 's \<Rightarrow> bool"
  assumes le_refl: "le s s"
    and le_trans: "le s t \<Longrightarrow> le t u \<Longrightarrow> le s u"
begin

lemma bind:
  assumes m: "behaves le safe Q m" and f: "\<And>x. Q x \<Longrightarrow> behaves le safe R (f x)"
  shows "behaves le safe R (bindS m f)"
  unfolding behaves_def
proof (intro allI impI)
  fix s assume s: "safe s"
  obtain r s' where r: "m s = (r, s')" by (cases "m s")
  with m s have k: "safe s'" "le s s'" "\<And>x. r = Inr x \<Longrightarrow> Q x" by (auto simp: behaves_def)
  show "safe (snd (bindS m f s)) \<and> le s (snd (bindS m f s)) \<and> (\<forall>y. fst (bindS m f s) = Inr y \<longrightarrow> R y)"
  proof (cases r)
    case (Inl e)
    then show ?thesis using r k by (simp add: bindS_def)
  next
    case (Inr x)
    have "behaves le safe R (f x)" using f k(3) Inr by blast
    with k(1) have "safe (snd (f x s')) \<and> le s' (snd (f x s')) \<and> (\<forall>y. fst (f x s') = Inr y \<longrightarrow> R y)"
      by (simp add: behaves_def)
    then show ?thesis using r Inr le_trans [OF k(2)] by (simp add: bindS_def)
  qed
qed

lemma return: "Q x \<Longrightarrow> behaves le safe Q (returnS x)"
  by (simp add: behaves_def returnS_def le_refl)

lemma lift: "(\<And>x. r = Inr x \<Longrightarrow> Q x) \<Longrightarrow> behaves le safe Q (liftS r)"
  by (simp add: behaves_def liftS_def le_refl)

lemma inspect: "(\<And>s x. safe s \<Longrightarrow> r s = Inr x \<Longrightarrow> Q x) \<Longrightarrow> behaves le safe Q (\<lambda>s. (r s, s))"
  by (simp add: behaves_def le_refl)

lemma weaken: "behaves le safe Q m \<Longrightarrow> (\<And>x. Q x \<Longrightarrow> R x) \<Longrightarrow> behaves le safe R m"
  by (simp add: behaves_def)

lemma fold:
  assumes "\<And>x a. x \<in> set xs \<Longrightarrow> Q a \<Longrightarrow> behaves le safe Q (f x a)" and "Q a"
  shows "behaves le safe Q (foldS f xs a)"
  using assms
proof (induction xs arbitrary: a)
  case (Cons x xs)
  have "behaves le safe Q (f x a)" using Cons.prems by simp
  moreover have "behaves le safe Q (foldS f xs b)" if "Q b" for b using Cons.IH [OF _ that] Cons.prems(1) by simp
  ultimately show ?case by (simp add: bind)
qed (simp add: return)

lemma guarded: "behaves le safe Q m \<Longrightarrow> Q () \<Longrightarrow> behaves le safe Q (whenS b m)"
  by (simp add: whenS_def return)

lemma catch:
  assumes m: "behaves le safe Q m" and h: "\<And>e. behaves le safe Q (h e)"
  shows "behaves le safe Q (catchS m h)"
  unfolding behaves_def
proof (intro allI impI)
  fix s assume s: "safe s"
  obtain r t where r: "m s = (r, t)" by (cases "m s")
  with m s have t: "safe t" "le s t" "\<And>x. r = Inr x \<Longrightarrow> Q x" by (auto simp: behaves_def)
  show "safe (snd (catchS m h s)) \<and> le s (snd (catchS m h s)) \<and> (\<forall>x. fst (catchS m h s) = Inr x \<longrightarrow> Q x)"
  proof (cases r)
    case (Inl e)
    from h [of e] t(1) have "safe (snd (h e t)) \<and> le t (snd (h e t)) \<and> (\<forall>x. fst (h e t) = Inr x \<longrightarrow> Q x)"
      by (simp add: behaves_def)
    then show ?thesis using r Inl le_trans [OF t(2)] by (simp add: catchS_def)
  next
    case (Inr x)
    then show ?thesis using r t by (simp add: catchS_def)
  qed
qed

text \<open>Result-free steps, the frequent end of a branch.\<close>

lemma then_unit: "behaves le safe Q m \<Longrightarrow> behaves le safe (\<lambda>_. True) (bindS m (\<lambda>_. returnS ()))"
  by (rule bind) (simp_all add: return)

end

subsection \<open>Optional values as Python uses them\<close>

definition or_default :: "'a option \<Rightarrow> 'a \<Rightarrow> 'a" where
  "or_default x d = (case x of None \<Rightarrow> d | Some v \<Rightarrow> v)"

lemma or_default_simps [simp]: "or_default None d = d" "or_default (Some v) d = v"
  by (simp_all add: or_default_def)

subsection \<open>Rounding\<close>

text \<open>
  \<^verbatim>\<open>ROUND_FLOOR\<close>, \<^verbatim>\<open>ROUND_CEILING\<close> and \<^verbatim>\<open>ROUND_HALF_UP\<close> of the \<^verbatim>\<open>decimal\<close>
  module (half-up rounds ties away from zero) and the banker's rounding of Python's
  built-in \<^verbatim>\<open>round\<close>.
\<close>

definition round_half_up :: "rat \<Rightarrow> int" where
  "round_half_up x = (if 0 \<le> x then \<lfloor>x + 1/2\<rfloor> else - \<lfloor>- x + 1/2\<rfloor>)"

definition round_half_even :: "rat \<Rightarrow> int" where
  "round_half_even x =
     (let f = \<lfloor>x\<rfloor>; d = x - of_int f in
      if d < 1/2 then f else if 1/2 < d then f + 1 else if even f then f else f + 1)"

definition round12 :: "rat \<Rightarrow> rat" where
  "round12 x = of_int (round_half_even (x * 10 ^ 12)) / 10 ^ 12"

lemma round_half_up_bounds [round_simps]:
  assumes "0 \<le> x"
  shows "x - 1/2 < of_int (round_half_up x)" and "of_int (round_half_up x) \<le> x + 1/2"
  using assms unfolding round_half_up_def by (simp_all) linarith+

lemma round_half_even_bounds [round_simps]:
  "of_int (round_half_even x) - x \<le> 1/2" "x - of_int (round_half_even x) \<le> 1/2"
  unfolding round_half_even_def Let_def by (auto) linarith+

lemma round_half_even_of_int [simp]: "round_half_even (of_int n) = n"
  by (simp add: round_half_even_def)

lemma round_half_even_mono:
  assumes "x \<le> y" shows "round_half_even x \<le> round_half_even y"
proof (cases "\<lfloor>x\<rfloor> = \<lfloor>y\<rfloor>")
  case True
  with assms show ?thesis by (auto simp: round_half_even_def Let_def)
next
  case False
  with assms have lt: "\<lfloor>x\<rfloor> + 1 \<le> \<lfloor>y\<rfloor>"
    using floor_mono [OF assms] by linarith
  have "round_half_even x \<le> \<lfloor>x\<rfloor> + 1" and "\<lfloor>y\<rfloor> \<le> round_half_even y"
    by (auto simp: round_half_even_def Let_def)
  with lt show ?thesis by linarith
qed

lemma round12_mono: "x \<le> y \<Longrightarrow> round12 x \<le> round12 y"
  unfolding round12_def
  by (simp add: divide_right_mono round_half_even_mono)

lemma round12_0 [simp]: "round12 0 = 0"
  using round_half_even_of_int [of 0] by (simp add: round12_def)

lemma round12_nonneg: "0 \<le> x \<Longrightarrow> 0 \<le> round12 x"
  using round12_mono [of 0 x] by simp

lemma round12_error: "\<bar>round12 x - x\<bar> \<le> 1 / (2 * 10 ^ 12)"
proof -
  let ?y = "x * 10 ^ 12"
  have "\<bar>of_int (round_half_even ?y) - ?y\<bar> \<le> 1/2"
    using round_half_even_bounds [of ?y] by linarith
  moreover have "round12 x - x = (of_int (round_half_even ?y) - ?y) / 10 ^ 12"
    by (simp add: round12_def field_simps)
  ultimately show ?thesis by (simp only: abs_divide) simp
qed

text \<open>On a fraction the banker's rounding is integer arithmetic; this is how it is evaluated.\<close>

definition rhe_div :: "int \<Rightarrow> int \<Rightarrow> int" where
  "rhe_div a b = (let q = a div b; r = a mod b in
     if 2 * r < b then q else if b < 2 * r then q + 1 else if even q then q else q + 1)"

lemma rhe_div_correct:
  assumes b: "0 < b"
  shows "round_half_even (of_int a / of_int b) = rhe_div a b"
proof -
  define x :: rat where x: "x = of_int a / of_int b"
  have f: "\<lfloor>x\<rfloor> = a div b" unfolding x by (rule floor_divide_of_int_eq)
  have "of_int a = (of_int (a div b * b + a mod b) :: rat)" by (simp only: div_mult_mod_eq)
  then have "of_int a = (of_int (a div b) * of_int b + of_int (a mod b) :: rat)"
    by (simp only: of_int_add of_int_mult)
  then have "x - of_int (a div b) = of_int (a mod b) / of_int b"
    unfolding x using b by (simp add: field_simps)
  moreover have "of_int (a mod b) / of_int b < (1/2 :: rat) \<longleftrightarrow> 2 * (a mod b) < b"
    and "(1/2 :: rat) < of_int (a mod b) / of_int b \<longleftrightarrow> b < 2 * (a mod b)"
  proof -
    have "of_int (a mod b) / of_int b < (1/2 :: rat) \<longleftrightarrow> (of_int (2 * (a mod b)) :: rat) < of_int b"
      using b by (simp add: field_simps)
    then show "of_int (a mod b) / of_int b < (1/2 :: rat) \<longleftrightarrow> 2 * (a mod b) < b"
      by (simp only: of_int_less_iff)
    have "(1/2 :: rat) < of_int (a mod b) / of_int b \<longleftrightarrow> (of_int b :: rat) < of_int (2 * (a mod b))"
      using b by (simp add: field_simps)
    then show "(1/2 :: rat) < of_int (a mod b) / of_int b \<longleftrightarrow> b < 2 * (a mod b)"
      by (simp only: of_int_less_iff)
  qed
  ultimately show ?thesis by (simp only: round_half_even_def rhe_div_def f Let_def x [symmetric])
qed

lemma round_half_even_code [code]:
  "round_half_even x = (let (a, b) = quotient_of x in rhe_div a b)"
proof -
  obtain a b where q: "quotient_of x = (a, b)" by (cases "quotient_of x")
  then have "round_half_even x = rhe_div a b"
    using rhe_div_correct [OF quotient_of_denom_pos [OF q], of a] quotient_of_div [OF q] by simp
  with q show ?thesis by simp
qed

text \<open>Values with at most twelve decimals, which \<open>round12\<close> leaves alone.\<close>

definition on_grid12 :: "rat \<Rightarrow> bool" where
  "on_grid12 x \<longleftrightarrow> x * 10 ^ 12 = of_int \<lfloor>x * 10 ^ 12\<rfloor>"

lemma on_grid12_iff: "on_grid12 x \<longleftrightarrow> (\<exists>n. x = of_int n / 10 ^ 12)"
proof
  assume "on_grid12 x"
  then have "x = of_int \<lfloor>x * 10 ^ 12\<rfloor> / 10 ^ 12"
    by (simp add: on_grid12_def field_simps)
  then show "\<exists>n. x = of_int n / 10 ^ 12" by blast
next
  assume "\<exists>n. x = of_int n / 10 ^ 12"
  then show "on_grid12 x" by (auto simp: on_grid12_def)
qed

lemma round12_on_grid [simp]: "on_grid12 (round12 x)"
  by (auto simp: on_grid12_iff round12_def)

lemma round12_id: "on_grid12 x \<Longrightarrow> round12 x = x"
  by (auto simp: on_grid12_iff round12_def)

lemma on_grid12_add: "on_grid12 x \<Longrightarrow> on_grid12 y \<Longrightarrow> on_grid12 (x + y)"
proof -
  assume "on_grid12 x" "on_grid12 y"
  then obtain m n where "x = of_int m / 10 ^ 12" "y = of_int n / 10 ^ 12"
    by (auto simp: on_grid12_iff)
  then have "x + y = of_int (m + n) / 10 ^ 12" by (simp add: add_divide_distrib)
  then show ?thesis by (auto simp only: on_grid12_iff)
qed

lemma on_grid12_diff: "on_grid12 x \<Longrightarrow> on_grid12 y \<Longrightarrow> on_grid12 (x - y)"
proof -
  assume "on_grid12 x" "on_grid12 y"
  then obtain m n where "x = of_int m / 10 ^ 12" "y = of_int n / 10 ^ 12"
    by (auto simp: on_grid12_iff)
  then have "x - y = of_int (m - n) / 10 ^ 12" by (simp add: diff_divide_distrib)
  then show ?thesis by (auto simp only: on_grid12_iff)
qed

lemma on_grid12_0 [simp]: "on_grid12 0"
  by (simp add: on_grid12_def)

subsection \<open>Keyed tables\<close>

text \<open>
  A table with a primary key, in insertion order: a list of pairs. \<open>tset\<close> is
  \<^verbatim>\<open>INSERT ... ON CONFLICT DO UPDATE\<close> and also Python's \<^verbatim>\<open>d[k] = v\<close>: an existing key
  keeps its place, a new one is appended.
\<close>

type_synonym ('k, 'v) table = "('k \<times> 'v) list"

fun tset :: "'k \<Rightarrow> 'v \<Rightarrow> ('k, 'v) table \<Rightarrow> ('k, 'v) table" where
  "tset k v [] = [(k, v)]"
| "tset k v ((k', v') # t) = (if k' = k then (k, v) # t else (k', v') # tset k v t)"

definition tdel :: "'k \<Rightarrow> ('k, 'v) table \<Rightarrow> ('k, 'v) table" where
  "tdel k t = filter (\<lambda>(k', _). k' \<noteq> k) t"

abbreviation tget :: "('k, 'v) table \<Rightarrow> 'k \<Rightarrow> 'v option" where
  "tget \<equiv> map_of"

definition tmerge :: "('k, 'v) table \<Rightarrow> ('k, 'v) table \<Rightarrow> ('k, 'v) table" where
  "tmerge t u = fold (\<lambda>(k, v). tset k v) u t"

lemma tget_tset [simp, table_simps]: "tget (tset k v t) = (tget t)(k \<mapsto> v)"
  by (induction t) auto

lemma tget_tdel [simp, table_simps]: "tget (tdel k t) = (tget t)(k := None)"
  by (induction t) (auto simp: tdel_def)

lemma keys_tset [table_simps]:
  "map fst (tset k v t) = (if k \<in> set (map fst t) then map fst t else map fst t @ [k])"
  by (induction t) (force split: prod.splits)+

lemma distinct_tset [simp]: "distinct (map fst t) \<Longrightarrow> distinct (map fst (tset k v t))"
  by (auto simp: keys_tset simp del: set_map)

lemma set_tset:
  "distinct (map fst t) \<Longrightarrow> set (tset k v t) = insert (k, v) {x \<in> set t. fst x \<noteq> k}"
  by (induction t) (force simp: image_iff split: if_splits)+

lemma tset_same: "tget t k = Some v \<Longrightarrow> tset k v t = t"
  by (induction t) (auto split: if_splits)

lemma tset_twice [simp]: "tset k v (tset k w t) = tset k v t"
  by (induction t) auto

lemma tset_commute: "k \<noteq> k' \<Longrightarrow> tget t k \<noteq> None \<Longrightarrow> tset k v (tset k' w t) = tset k' w (tset k v t)"
  by (induction t) (auto split: if_splits)

lemma tget_tmerge [table_simps]:
  "distinct (map fst u) \<Longrightarrow> tget (tmerge t u) k = (case tget u k of None \<Rightarrow> tget t k | Some v \<Rightarrow> Some v)"
proof (induction u arbitrary: t)
  case Nil
  then show ?case by (simp add: tmerge_def)
next
  case (Cons p u)
  obtain a b where p: "p = (a, b)" by (cases p)
  from Cons have "tget (tmerge (tset a b t) u) k
      = (case tget u k of None \<Rightarrow> tget (tset a b t) k | Some v \<Rightarrow> Some v)" by simp
  moreover from Cons.prems p have "tget u a = None"
    by (simp add: map_of_eq_None_iff image_image)
  ultimately show ?case
    by (auto simp: p tmerge_def split: option.splits)
qed

lemma distinct_tmerge: "distinct (map fst t) \<Longrightarrow> distinct (map fst (tmerge t u))"
  unfolding tmerge_def by (induction u arbitrary: t) auto

subsection \<open>Interface: a keyed table\<close>

locale keyed_table =
  fixes lookup :: "'s \<Rightarrow> 'k \<Rightarrow> 'v option"
    and upsert :: "'k \<Rightarrow> 'v \<Rightarrow> 's \<Rightarrow> 's"
  assumes lookup_upsert: "lookup (upsert k v s) = (lookup s)(k \<mapsto> v)"
begin

lemma lookup_same: "lookup (upsert k v s) k = Some v"
  by (simp add: lookup_upsert)

lemma lookup_other: "k' \<noteq> k \<Longrightarrow> lookup (upsert k v s) k' = lookup s k'"
  by (simp add: lookup_upsert)

lemma upsert_twice: "lookup (upsert k v (upsert k w s)) = lookup (upsert k v s)"
  by (simp add: lookup_upsert)

lemma upsert_commute:
  "k \<noteq> k' \<Longrightarrow> lookup (upsert k v (upsert k' v' s)) = lookup (upsert k' v' (upsert k v s))"
  by (simp add: lookup_upsert fun_upd_twist)

lemma keys_grow: "dom (lookup (upsert k v s)) = insert k (dom (lookup s))"
  by (simp add: lookup_upsert)

end

interpretation tbl: keyed_table tget tset
  by unfold_locales (simp add: table_simps)

subsection \<open>Interface: steps that keep an invariant\<close>

text \<open>
  A component is a state and the steps its services take; a run is a sequence of steps, in the
  order in which a service loop issues them.
\<close>

definition run_steps :: "('op \<Rightarrow> 's \<Rightarrow> 's) \<Rightarrow> 'op list \<Rightarrow> 's \<Rightarrow> 's" where
  "run_steps step xs s = fold step xs s"

lemma run_steps_simps [simp]:
  "run_steps step [] s = s"
  "run_steps step (x # xs) s = run_steps step xs (step x s)"
  by (simp_all add: run_steps_def)

locale kept_by_steps =
  fixes step :: "'op \<Rightarrow> 's \<Rightarrow> 's"
    and allowed :: "'op \<Rightarrow> bool"
    and inv :: "'s \<Rightarrow> bool"
  assumes step_keeps: "inv s \<Longrightarrow> allowed x \<Longrightarrow> inv (step x s)"
begin

lemma run_keeps: "inv s \<Longrightarrow> list_all allowed xs \<Longrightarrow> inv (run_steps step xs s)"
  by (induction xs arbitrary: s) (auto intro: step_keeps)

end

text \<open>Steps that moreover only move a state forward along a reflexive and transitive relation.\<close>

locale forward_steps = kept_by_steps +
  fixes le :: "'s \<Rightarrow> 's \<Rightarrow> bool"
  assumes le_refl: "le s s"
    and le_trans: "le s t \<Longrightarrow> le t u \<Longrightarrow> le s u"
    and step_forward: "inv s \<Longrightarrow> allowed x \<Longrightarrow> le s (step x s)"
begin

lemma run_forward: "inv s \<Longrightarrow> list_all allowed xs \<Longrightarrow> le s (run_steps step xs s)"
proof (induction xs arbitrary: s)
  case (Cons x xs)
  then have "le s (step x s)" and "le (step x s) (run_steps step xs (step x s))"
    by (simp_all add: step_forward step_keeps)
  then show ?case by (simp add: le_trans)
qed (simp add: le_refl)

end

end
