(* ===== verification/PyValue.thy ===== *)
theory PyValue
  imports Prelude
begin

section \<open>Python values: strings, numbers, JSON\<close>

text \<open>
  The part of Python's standard library that the modelled code relies on: string
  predicates, the reading and printing of \<^verbatim>\<open>Decimal\<close> values, \<^verbatim>\<open>float(...)\<close> and
  \<^verbatim>\<open>int(...)\<close> of a dynamically typed value, and the JSON values that travel through
  expressions, rule definitions and metadata columns, with Python's notion of truth and
  of equality. A \<^verbatim>\<open>float\<close> is a finite rational, an infinity or not-a-number, so that the
  comparisons with \<^verbatim>\<open>nan\<close> and the conversions of \<^verbatim>\<open>inf\<close> come out as Python has them.
  Text is ASCII.
\<close>

subsection \<open>Strings\<close>

definition upper_letters :: string where
  "upper_letters = ''ABCDEFGHIJKLMNOPQRSTUVWXYZ''"

definition lower_letters :: string where
  "lower_letters = ''abcdefghijklmnopqrstuvwxyz''"

definition lower_char :: "char \<Rightarrow> char" where
  "lower_char c = (case map_of (zip upper_letters lower_letters) c of None \<Rightarrow> c | Some d \<Rightarrow> d)"

definition upper_char :: "char \<Rightarrow> char" where
  "upper_char c = (case map_of (zip lower_letters upper_letters) c of None \<Rightarrow> c | Some d \<Rightarrow> d)"

definition py_lower :: "string \<Rightarrow> string" where
  "py_lower s = map lower_char s"

definition py_upper :: "string \<Rightarrow> string" where
  "py_upper s = map upper_char s"

definition is_space :: "char \<Rightarrow> bool" where
  "is_space c = (c \<in> set [CHR '' '', CHR 0x09, CHR 0x0A, CHR 0x0B, CHR 0x0C, CHR 0x0D])"

definition py_strip :: "string \<Rightarrow> string" where
  "py_strip s = rev (dropWhile is_space (rev (dropWhile is_space s)))"

definition py_rstrip_char :: "char \<Rightarrow> string \<Rightarrow> string" where
  "py_rstrip_char c s = rev (dropWhile (\<lambda>d. d = c) (rev s))"

definition py_startswith :: "string \<Rightarrow> string \<Rightarrow> bool" where
  "py_startswith s p = (take (length p) s = p)"

text \<open>\<^verbatim>\<open>s.split("-")[0]\<close>\<close>

definition before_dash :: "string \<Rightarrow> string" where
  "before_dash s = takeWhile (\<lambda>c. c \<noteq> CHR ''-'') s"

subsection \<open>Decimal digits\<close>

definition digit_char :: "int \<Rightarrow> char" where
  "digit_char d = ''0123456789'' ! nat d"

definition digit_val :: "char \<Rightarrow> int option" where
  "digit_val c = map_of (zip ''0123456789'' [0, 1, 2, 3, 4, 5, 6, 7, 8, 9]) c"

definition is_digit :: "char \<Rightarrow> bool" where
  "is_digit c = (digit_val c \<noteq> None)"

text \<open>The digits of a nonnegative integer.\<close>

function show_digits :: "int \<Rightarrow> string" where
  "show_digits n = (if n < 10 then [digit_char n] else show_digits (n div 10) @ [digit_char (n mod 10)])"
  by pat_completeness auto
termination
  by (relation "measure nat") auto

declare show_digits.simps [simp del]

definition read_digits :: "string \<Rightarrow> int" where
  "read_digits s = foldl (\<lambda>acc c. 10 * acc + or_default (digit_val c) 0) 0 s"

definition show_int :: "int \<Rightarrow> string" where
  "show_int i = (if i < 0 then CHR ''-'' # show_digits (- i) else show_digits i)"

lemma less_10_cases: "0 \<le> (d::int) \<Longrightarrow> d < 10 \<Longrightarrow> d \<in> {0, 1, 2, 3, 4, 5, 6, 7, 8, 9}"
  by simp presburger

lemma digit_val_char [simp]: "0 \<le> d \<Longrightarrow> d < 10 \<Longrightarrow> digit_val (digit_char d) = Some d"
  by (drule (1) less_10_cases) (auto simp: digit_val_def digit_char_def)

lemma is_digit_char [simp]: "0 \<le> d \<Longrightarrow> d < 10 \<Longrightarrow> is_digit (digit_char d)"
  by (simp add: is_digit_def)

lemma show_digits_digits: "0 \<le> n \<Longrightarrow> list_all is_digit (show_digits n)"
proof (induction n rule: show_digits.induct)
  case (1 n)
  then show ?case by (subst show_digits.simps) auto
qed

lemma show_digits_nonempty [simp]: "show_digits n \<noteq> []"
  by (subst show_digits.simps) simp

lemma read_digits_snoc: "read_digits (s @ [c]) = 10 * read_digits s + or_default (digit_val c) 0"
  by (simp add: read_digits_def)

lemma read_show_digits [simp]: "0 \<le> n \<Longrightarrow> read_digits (show_digits n) = n"
proof (induction n rule: show_digits.induct)
  case (1 n)
  show ?case
  proof (cases "n < 10")
    case True
    with 1 show ?thesis by (subst show_digits.simps) (simp add: read_digits_def)
  next
    case False
    with 1 have "read_digits (show_digits (n div 10)) = n div 10" by simp
    with False show ?thesis by (subst show_digits.simps) (simp add: read_digits_snoc)
  qed
qed

lemma show_digits_hd: "0 \<le> n \<Longrightarrow> hd (show_digits n) \<noteq> CHR ''-''"
proof
  assume n: "0 \<le> n" and h: "hd (show_digits n) = CHR ''-''"
  have "is_digit (hd (show_digits n))"
    using show_digits_digits [OF n] by (cases "show_digits n") simp_all
  with h have "is_digit CHR ''-''" by simp
  moreover have "\<not> is_digit CHR ''-''" by code_simp
  ultimately show False by simp
qed

lemma show_int_inj: "show_int a = show_int b \<longleftrightarrow> a = b"
proof -
  define g where "g s = (if hd s = CHR ''-'' then - read_digits (tl s) else read_digits s)" for s
  have "g (show_int i) = i" for i
    using show_digits_hd [of i] by (simp add: g_def show_int_def)
  then show ?thesis by metis
qed

lemma read_digits_zeros: "read_digits (replicate k CHR ''0'' @ s) = read_digits s"
proof -
  have "foldl (\<lambda>acc c. 10 * acc + or_default (digit_val c) 0) 0 (replicate k CHR ''0'') = (0::int)"
    by (induction k) (simp_all add: digit_val_def)
  then show ?thesis by (simp add: read_digits_def)
qed

lemma read_digits_append_zeros: "read_digits (s @ replicate k CHR ''0'') = read_digits s * 10 ^ k"
proof (induction k)
  case (Suc k)
  have "s @ replicate (Suc k) CHR ''0'' = (s @ replicate k CHR ''0'') @ [CHR ''0'']"
    by (simp add: replicate_append_same)
  then show ?case by (simp add: read_digits_snoc Suc digit_val_def del: append_assoc)
qed simp

subsection \<open>Decimal values\<close>

text \<open>
  \<open>Dec c e\<close> is the decimal with coefficient \<open>c\<close> and exponent \<open>e\<close>; Python keeps both,
  and its printing depends on both.
\<close>

datatype decimal = Dec int int | DInf bool | DNaN

definition pow10 :: "int \<Rightarrow> rat" where
  "pow10 e = (if 0 \<le> e then 10 ^ nat e else 1 / 10 ^ nat (- e))"

fun dec_val :: "decimal \<Rightarrow> rat" where
  "dec_val (Dec c e) = of_int c * pow10 e"
| "dec_val (DInf _) = 0"
| "dec_val DNaN = 0"

text \<open>Evaluation keeps values as one fraction.\<close>

lemma dec_val_code [code]:
  "dec_val (Dec c e) = (if 0 \<le> e then of_int (c * 10 ^ nat e) else of_int c / of_int (10 ^ nat (- e)))"
  "dec_val (DInf b) = 0"
  "dec_val DNaN = 0"
  by (simp_all add: pow10_def)

fun dec_finite :: "decimal \<Rightarrow> bool" where
  "dec_finite (Dec c e) = True"
| "dec_finite _ = False"

lemma pow10_pos [simp]: "0 < pow10 e"
  by (simp add: pow10_def)

lemma pow10_facts [simp]: "pow10 e \<noteq> 0" "0 \<le> pow10 e" "\<bar>pow10 e\<bar> = pow10 e" "\<not> pow10 e < 0"
  using pow10_pos [of e] by linarith+

lemma pow10_0 [simp]: "pow10 0 = 1"
  by (simp add: pow10_def)

lemma pow10_add: "pow10 (a + b) = pow10 a * pow10 b"
proof -
  have e: "pow10 z = 10 powi z" for z
    by (simp add: pow10_def power_int_def field_simps)
  show ?thesis by (simp add: e power_int_add)
qed

lemma pow10_nat: "pow10 (int n) = 10 ^ n"
  by (simp add: pow10_def)

subsubsection \<open>Reading\<close>

definition read_sign :: "string \<Rightarrow> bool \<times> string" where
  "read_sign s = (case s of [] \<Rightarrow> (False, [])
     | c # r \<Rightarrow> if c = CHR ''-'' then (True, r) else if c = CHR ''+'' then (False, r) else (False, s))"

definition signed :: "bool \<Rightarrow> int \<Rightarrow> int" where
  "signed neg n = (if neg then - n else n)"

definition read_exponent :: "string \<Rightarrow> int option" where
  "read_exponent s = (case s of [] \<Rightarrow> Some 0
     | c # r \<Rightarrow> if c = CHR ''e'' \<or> c = CHR ''E'' then
         (let (neg, d) = read_sign r in
          if d \<noteq> [] \<and> list_all is_digit d then Some (signed neg (read_digits d)) else None)
       else None)"

definition read_number :: "string \<Rightarrow> (int \<times> int) option" where
  "read_number s =
     (let (neg, s1) = read_sign s;
          ip = takeWhile is_digit s1;
          s2 = dropWhile is_digit s1;
          dot = (s2 \<noteq> [] \<and> hd s2 = CHR ''.'');
          fp = (if dot then takeWhile is_digit (tl s2) else []);
          s3 = (if dot then dropWhile is_digit (tl s2) else s2)
      in if ip = [] \<and> fp = [] then None
         else map_option (\<lambda>e. (signed neg (read_digits (ip @ fp)), e - int (length fp)))
                (read_exponent s3))"

definition read_special :: "string \<Rightarrow> decimal option" where
  "read_special s =
     (let (neg, r) = read_sign s; t = py_lower r in
      if t = ''inf'' \<or> t = ''infinity'' then Some (DInf neg)
      else if py_startswith t ''nan'' \<and> list_all is_digit (drop 3 t) then Some DNaN
      else if py_startswith t ''snan'' \<and> list_all is_digit (drop 4 t) then Some DNaN
      else None)"

text \<open>\<^verbatim>\<open>Decimal(text)\<close>; \<open>None\<close> is \<^verbatim>\<open>InvalidOperation\<close>.\<close>

definition dec_of_str :: "string \<Rightarrow> decimal option" where
  "dec_of_str s =
     (let t = filter (\<lambda>c. c \<noteq> CHR ''_'') (py_strip s) in
      case read_number t of Some (c, e) \<Rightarrow> Some (Dec c e) | None \<Rightarrow> read_special t)"

subsubsection \<open>Printing\<close>

text \<open>\<^verbatim>\<open>format(value, "f")\<close>\<close>

definition fixed_digits :: "int \<Rightarrow> int \<Rightarrow> string" where
  "fixed_digits n e =
     (let ds = show_digits n; point = e + int (length ds) in
      if 0 \<le> e then ds @ replicate (nat e) CHR ''0''
      else if point \<le> 0 then ''0.'' @ replicate (nat (- point)) CHR ''0'' @ ds
      else take (nat point) ds @ ''.'' @ drop (nat point) ds)"

fun format_f :: "decimal \<Rightarrow> string" where
  "format_f (Dec c e) =
     (if c < 0 then CHR ''-'' # fixed_digits (- c) e
      else if c = 0 \<and> 0 < e then ''0'' else fixed_digits c e)"
| "format_f (DInf neg) = (if neg then ''-Infinity'' else ''Infinity'')"
| "format_f DNaN = ''NaN''"

text \<open>\<^verbatim>\<open>str(value)\<close>: the specification's to-scientific-string.\<close>

definition sci_digits :: "int \<Rightarrow> int \<Rightarrow> string" where
  "sci_digits n e =
     (let ds = show_digits n; left = e + int (length ds) in
      if e \<le> 0 \<and> - 6 < left then fixed_digits n e
      else take 1 ds @ (if length ds = 1 then [] else CHR ''.'' # drop 1 ds) @ ''E'' @
           (if 0 \<le> left - 1 then ''+'' else []) @ show_int (left - 1))"

fun dec_str :: "decimal \<Rightarrow> string" where
  "dec_str (Dec c e) =
     (if c < 0 then CHR ''-'' # sci_digits (- c) e else sci_digits c e)"
| "dec_str (DInf neg) = (if neg then ''-Infinity'' else ''Infinity'')"
| "dec_str DNaN = ''NaN''"


subsubsection \<open>Reading back what was printed\<close>

definition plain_text :: "string \<Rightarrow> string \<Rightarrow> string" where
  "plain_text ip fp = ip @ (if fp = [] then [] else CHR ''.'' # fp)"

lemma is_digit_not [simp]:
  "\<not> is_digit CHR ''.''" "\<not> is_digit CHR ''-''" "\<not> is_digit CHR ''+''" "\<not> is_digit CHR ''_''"
  "\<not> is_digit CHR ''e''" "\<not> is_digit CHR ''E''"
  by (simp_all add: is_digit_def digit_val_def)

lemma is_digit_0 [simp]: "is_digit CHR ''0''"
  by (simp add: is_digit_def digit_val_def)

lemma span_digits:
  "list_all is_digit ip \<Longrightarrow> \<not> is_digit c \<Longrightarrow>
     takeWhile is_digit (ip @ c # r) = ip \<and> dropWhile is_digit (ip @ c # r) = c # r"
  by (induction ip) auto

lemma span_all_digits:
  "list_all is_digit ip \<Longrightarrow> takeWhile is_digit ip = ip \<and> dropWhile is_digit ip = []"
  by (induction ip) auto

lemma read_sign_digits:
  "list_all is_digit ip \<Longrightarrow> ip \<noteq> [] \<Longrightarrow> read_sign (ip @ r) = (False, ip @ r)"
  by (cases ip) (auto simp: read_sign_def)

lemma read_number_plain:
  assumes "list_all is_digit ip" "list_all is_digit fp" "ip \<noteq> []"
  shows "read_number (plain_text ip fp) = Some (read_digits (ip @ fp), - int (length fp))"
    and "read_number (CHR ''-'' # plain_text ip fp)
           = Some (- read_digits (ip @ fp), - int (length fp))"
proof -
  have s: "read_sign (plain_text ip fp) = (False, plain_text ip fp)"
    using assms by (simp add: plain_text_def read_sign_digits)
  have m: "read_sign (CHR ''-'' # plain_text ip fp) = (True, plain_text ip fp)"
    by (simp add: read_sign_def)
  show "read_number (plain_text ip fp) = Some (read_digits (ip @ fp), - int (length fp))"
    using assms unfolding read_number_def s Let_def
    by (simp add: plain_text_def span_digits span_all_digits read_exponent_def signed_def)
  show "read_number (CHR ''-'' # plain_text ip fp)
           = Some (- read_digits (ip @ fp), - int (length fp))"
    using assms unfolding read_number_def m Let_def
    by (simp add: plain_text_def span_digits span_all_digits read_exponent_def signed_def)
qed

definition number_char :: "char \<Rightarrow> bool" where
  "number_char c = (is_digit c \<or> c = CHR ''.'' \<or> c = CHR ''-'')"

lemma number_char_strip:
  assumes "list_all number_char s"
  shows "filter (\<lambda>c. c \<noteq> CHR ''_'') (py_strip s) = s"
proof -
  have ns: "\<not> is_space c" if "number_char c" for c
    using that by (auto simp: number_char_def is_digit_def digit_val_def is_space_def)
  have "dropWhile is_space t = t" if "list_all number_char t" for t
    using that ns by (cases t) auto
  with assms have "py_strip s = s" by (simp add: py_strip_def)
  moreover have "filter (\<lambda>c. c \<noteq> CHR ''_'') s = s"
    using assms by (auto simp: filter_id_conv list_all_iff number_char_def)
  ultimately show ?thesis by simp
qed

lemma list_all_number_char: "list_all is_digit s \<Longrightarrow> list_all number_char s"
  by (auto simp: list_all_iff number_char_def)

lemma dec_of_str_plain:
  assumes "list_all is_digit ip" "list_all is_digit fp" "ip \<noteq> []"
  shows "dec_of_str (plain_text ip fp) = Some (Dec (read_digits (ip @ fp)) (- int (length fp)))"
    and "dec_of_str (CHR ''-'' # plain_text ip fp)
           = Some (Dec (- read_digits (ip @ fp)) (- int (length fp)))"
proof -
  have "list_all number_char (plain_text ip fp)"
    using assms by (auto simp: plain_text_def list_all_number_char number_char_def)
  then have "filter (\<lambda>c. c \<noteq> CHR ''_'') (py_strip (plain_text ip fp)) = plain_text ip fp"
    and "filter (\<lambda>c. c \<noteq> CHR ''_'') (py_strip (CHR ''-'' # plain_text ip fp))
      = CHR ''-'' # plain_text ip fp"
    using number_char_strip [of "plain_text ip fp"]
      number_char_strip [of "CHR ''-'' # plain_text ip fp"]
    by (auto simp: number_char_def)
  then show "dec_of_str (plain_text ip fp)
      = Some (Dec (read_digits (ip @ fp)) (- int (length fp)))"
    and "dec_of_str (CHR ''-'' # plain_text ip fp)
      = Some (Dec (- read_digits (ip @ fp)) (- int (length fp)))"
    using read_number_plain [OF assms] unfolding dec_of_str_def Let_def by simp_all
qed

text \<open>Every fixed-point rendering is a plain text whose digits are the coefficient's.\<close>

lemma fixed_digits_plain:
  assumes n: "0 \<le> n"
  obtains ip fp where "fixed_digits n e = plain_text ip fp" "list_all is_digit ip"
    "list_all is_digit fp" "ip \<noteq> []"
    "of_int (read_digits (ip @ fp)) / 10 ^ length fp = (of_int n * pow10 e :: rat)"
    "fp = [] \<longleftrightarrow> 0 \<le> e"
proof -
  let ?ds = "show_digits n" and ?p = "e + int (length (show_digits n))"
  have ds: "list_all is_digit ?ds" using n by (rule show_digits_digits)
  have cs: "fixed_digits n e = (if 0 \<le> e then ?ds @ replicate (nat e) CHR ''0''
      else if ?p \<le> 0 then ''0.'' @ replicate (nat (- ?p)) CHR ''0'' @ ?ds
      else take (nat ?p) ?ds @ ''.'' @ drop (nat ?p) ?ds)"
    by (simp add: fixed_digits_def Let_def)
  consider "0 \<le> e" | "e < 0" "?p \<le> 0" | "e < 0" "0 < ?p" by linarith
  then show thesis
  proof cases
    case 1
    show thesis
    proof (rule that [of "?ds @ replicate (nat e) CHR ''0''" "[]"])
      show "of_int (read_digits ((?ds @ replicate (nat e) CHR ''0'') @ [])) / 10 ^ length []
          = (of_int n * pow10 e :: rat)"
        using 1 n by (simp add: read_digits_append_zeros pow10_def)
    qed (use 1 ds cs in \<open>auto simp: plain_text_def list_all_iff\<close>)
  next
    case 2
    have l: "length (replicate (nat (- ?p)) CHR ''0'' @ ?ds) = nat (- e)"
      using 2 by simp
    have "''0'' @ replicate (nat (- ?p)) CHR ''0'' @ ?ds
        = replicate (Suc (nat (- ?p))) CHR ''0'' @ ?ds" by simp
    then have r: "read_digits (''0'' @ replicate (nat (- ?p)) CHR ''0'' @ ?ds) = n"
      using n by (simp only: read_digits_zeros read_show_digits)
    show thesis
    proof (rule that [of "''0''" "replicate (nat (- ?p)) CHR ''0'' @ ?ds"])
      show "of_int (read_digits (''0'' @ replicate (nat (- ?p)) CHR ''0'' @ ?ds))
          / 10 ^ length (replicate (nat (- ?p)) CHR ''0'' @ ?ds) = (of_int n * pow10 e :: rat)"
        unfolding r l using 2 by (simp add: pow10_def)
    qed (use 2 ds cs in \<open>auto simp: plain_text_def list_all_iff\<close>)
  next
    case 3
    have lt: "nat ?p < length ?ds" using 3 by linarith
    have l: "length (drop (nat ?p) ?ds) = nat (- e)" using 3 by simp
    have r: "read_digits (take (nat ?p) ?ds @ drop (nat ?p) ?ds) = n" using n by simp
    show thesis
    proof (rule that [of "take (nat ?p) ?ds" "drop (nat ?p) ?ds"])
      show "of_int (read_digits (take (nat ?p) ?ds @ drop (nat ?p) ?ds))
          / 10 ^ length (drop (nat ?p) ?ds) = (of_int n * pow10 e :: rat)"
        unfolding r l using 3 by (simp add: pow10_def)
    qed (use 3 lt ds cs in \<open>auto simp: plain_text_def list_all_iff dest: in_set_takeD in_set_dropD\<close>)
  qed
qed

text \<open>Removing trailing zeros of the fraction, then a dangling point, keeps the value.\<close>

lemma rstrip_zeros_value:
  "of_int (read_digits (ip @ py_rstrip_char CHR ''0'' fp)) / 10 ^ length (py_rstrip_char CHR ''0'' fp)
     = (of_int (read_digits (ip @ fp)) / 10 ^ length fp :: rat)"
proof (induction fp rule: rev_induct)
  case Nil
  then show ?case by (simp add: py_rstrip_char_def)
next
  case (snoc c fp)
  show ?case
  proof (cases "c = CHR ''0''")
    case True
    have "of_int (read_digits (ip @ fp @ [c])) / 10 ^ length (fp @ [c])
        = (of_int (read_digits (ip @ fp)) / 10 ^ length fp :: rat)"
      using True read_digits_snoc [of "ip @ fp" c] by (simp add: digit_val_def field_simps)
    with True snoc show ?thesis by (simp add: py_rstrip_char_def)
  next
    case False
    then show ?thesis by (simp add: py_rstrip_char_def)
  qed
qed

lemma rstrip_digits:
  "list_all is_digit fp \<Longrightarrow> list_all is_digit (py_rstrip_char c fp)"
  by (auto simp: list_all_iff py_rstrip_char_def dest: set_dropWhileD)

lemma rstrip_append:
  "py_rstrip_char c (a @ b) = (if py_rstrip_char c b = [] then py_rstrip_char c a
     else a @ py_rstrip_char c b)"
  unfolding py_rstrip_char_def by (simp add: dropWhile_append dropWhile_eq_Nil_conv)

lemma rstrip_Nil [simp]: "py_rstrip_char c [] = []"
  by (simp add: py_rstrip_char_def)

lemma rstrip_no_change: "s = [] \<or> last s \<noteq> c \<Longrightarrow> py_rstrip_char c s = s"
  unfolding py_rstrip_char_def by (cases s rule: rev_cases) auto

lemma strip_fraction:
  assumes "list_all is_digit ip" "list_all is_digit fp" "ip \<noteq> []" "fp \<noteq> []"
  shows "py_rstrip_char CHR ''.'' (py_rstrip_char CHR ''0'' (plain_text ip fp))
     = plain_text ip (py_rstrip_char CHR ''0'' fp)"
proof -
  have last_ip: "last ip \<noteq> CHR ''.''"
    using assms(1,3) by (metis is_digit_not(1) last_in_set list_all_iff)
  let ?fp = "py_rstrip_char CHR ''0'' fp"
  have dot0: "py_rstrip_char CHR ''0'' (CHR ''.'' # fp) = CHR ''.'' # ?fp"
    using rstrip_append [of "CHR ''0''" "''.''" fp] by (simp add: rstrip_no_change)
  have zeros: "py_rstrip_char CHR ''0'' (plain_text ip fp) = ip @ CHR ''.'' # ?fp"
    using assms(4) dot0 by (simp add: plain_text_def rstrip_append)
  show ?thesis
  proof (cases "?fp = []")
    case True
    have "py_rstrip_char CHR ''.'' (ip @ ''.'') = ip"
      using last_ip rstrip_append [of "CHR ''.''" ip "''.''"]
      by (simp add: rstrip_no_change) (simp add: py_rstrip_char_def)
    with True zeros show ?thesis by (simp add: plain_text_def)
  next
    case False
    have "last ?fp \<noteq> CHR ''.''"
      using rstrip_digits [OF assms(2)] False by (metis is_digit_not(1) last_in_set list_all_iff)
    with False zeros show ?thesis by (simp add: plain_text_def rstrip_no_change)
  qed
qed


subsection \<open>Floats\<close>

datatype pyfloat = PFin rat | PInf | NInf | PNaN

fun fl_le :: "pyfloat \<Rightarrow> pyfloat \<Rightarrow> bool" where
  "fl_le PNaN _ = False"
| "fl_le _ PNaN = False"
| "fl_le NInf _ = True"
| "fl_le _ PInf = True"
| "fl_le (PFin a) (PFin b) = (a \<le> b)"
| "fl_le _ _ = False"

fun fl_eq :: "pyfloat \<Rightarrow> pyfloat \<Rightarrow> bool" where
  "fl_eq PNaN _ = False"
| "fl_eq _ PNaN = False"
| "fl_eq a b = (a = b)"

definition fl_lt :: "pyfloat \<Rightarrow> pyfloat \<Rightarrow> bool" where
  "fl_lt a b = (fl_le a b \<and> \<not> fl_eq a b)"

definition fl_neg :: "pyfloat \<Rightarrow> pyfloat" where
  "fl_neg a = (case a of PFin r \<Rightarrow> PFin (- r) | PInf \<Rightarrow> NInf | NInf \<Rightarrow> PInf | PNaN \<Rightarrow> PNaN)"

definition fl_abs :: "pyfloat \<Rightarrow> pyfloat" where
  "fl_abs a = (case a of PFin r \<Rightarrow> PFin \<bar>r\<bar> | PInf \<Rightarrow> PInf | NInf \<Rightarrow> PInf | PNaN \<Rightarrow> PNaN)"

fun fl_add :: "pyfloat \<Rightarrow> pyfloat \<Rightarrow> pyfloat" where
  "fl_add PNaN _ = PNaN"
| "fl_add _ PNaN = PNaN"
| "fl_add PInf NInf = PNaN"
| "fl_add NInf PInf = PNaN"
| "fl_add PInf _ = PInf"
| "fl_add _ PInf = PInf"
| "fl_add NInf _ = NInf"
| "fl_add _ NInf = NInf"
| "fl_add (PFin a) (PFin b) = PFin (a + b)"

definition fl_sub :: "pyfloat \<Rightarrow> pyfloat \<Rightarrow> pyfloat" where
  "fl_sub a b = fl_add a (fl_neg b)"

definition signed_inf :: "bool \<Rightarrow> pyfloat" where
  "signed_inf neg = (if neg then NInf else PInf)"

fun fl_mul :: "pyfloat \<Rightarrow> pyfloat \<Rightarrow> pyfloat" where
  "fl_mul PNaN _ = PNaN"
| "fl_mul _ PNaN = PNaN"
| "fl_mul (PFin a) (PFin b) = PFin (a * b)"
| "fl_mul (PFin a) b = (if a = 0 then PNaN else signed_inf ((a < 0) \<noteq> (b = NInf)))"
| "fl_mul a (PFin b) = (if b = 0 then PNaN else signed_inf ((b < 0) \<noteq> (a = NInf)))"
| "fl_mul a b = signed_inf ((a = NInf) \<noteq> (b = NInf))"

text \<open>Division by a divisor that the caller knows to be nonzero.\<close>

fun fl_div :: "pyfloat \<Rightarrow> pyfloat \<Rightarrow> pyfloat" where
  "fl_div PNaN _ = PNaN"
| "fl_div _ PNaN = PNaN"
| "fl_div (PFin a) (PFin b) = PFin (a / b)"
| "fl_div (PFin a) _ = PFin 0"
| "fl_div a (PFin b) = signed_inf ((b < 0) \<noteq> (a = NInf))"
| "fl_div _ _ = PNaN"

lemma fl_fin_simps [simp]:
  "fl_lt (PFin a) (PFin b) \<longleftrightarrow> a < b"
  "fl_neg (PFin a) = PFin (- a)"
  "fl_abs (PFin a) = PFin \<bar>a\<bar>"
  "fl_sub (PFin a) (PFin b) = PFin (a - b)"
  by (auto simp: fl_lt_def fl_neg_def fl_abs_def fl_sub_def)

definition underscores_ok :: "string \<Rightarrow> bool" where
  "underscores_ok s = list_all (\<lambda>i. s ! i = CHR ''_'' \<longrightarrow>
     0 < i \<and> Suc i < length s \<and> is_digit (s ! (i - 1)) \<and> is_digit (s ! Suc i)) [0..<length s]"

text \<open>\<^verbatim>\<open>float(text)\<close>; \<open>None\<close> is \<^verbatim>\<open>ValueError\<close>.\<close>

definition float_of_str :: "string \<Rightarrow> pyfloat option" where
  "float_of_str s =
     (let u = py_strip s; t = filter (\<lambda>c. c \<noteq> CHR ''_'') u in
      if \<not> underscores_ok u then None
      else case read_number t of
        Some (c, e) \<Rightarrow> Some (PFin (of_int c * pow10 e))
      | None \<Rightarrow>
          (let (neg, r) = read_sign t; w = py_lower r in
           if w = ''inf'' \<or> w = ''infinity'' then Some (signed_inf neg)
           else if w = ''nan'' then Some PNaN else None))"

text \<open>The decimal that a finite float prints as: \<open>places\<close> digits after the point.\<close>

function den_places :: "int \<Rightarrow> nat" where
  "den_places d = (if d \<le> 1 then 0 else
     (let g = gcd d 10 in if g = 1 then 17 else Suc (den_places (d div g))))"
  by pat_completeness auto
termination
proof (relation "measure nat")
  fix d g :: int
  assume "\<not> d \<le> 1" "g = gcd d 10" "g \<noteq> 1"
  then have "1 < g" "0 < d"
    by (auto simp: less_le) (metis gcd_pos_int numeral_neq_zero zero_less_one_class.zero_le_one not_le int_one_le_iff_zero_less)
  then have "d div g < d" by (intro int_div_less_self)
  with \<open>0 < d\<close> show "(d div g, d) \<in> measure nat" by simp
qed simp

declare den_places.simps [simp del]

definition places :: "rat \<Rightarrow> nat" where
  "places r = den_places (snd (quotient_of r))"

definition dec_of_rat :: "rat \<Rightarrow> decimal" where
  "dec_of_rat r = (let k = max 1 (places r) in Dec (round_half_even (r * 10 ^ k)) (- int k))"

function strip_zeros :: "int \<Rightarrow> int \<Rightarrow> int \<times> int" where
  "strip_zeros c e = (if c \<noteq> 0 \<and> c mod 10 = 0 then strip_zeros (c div 10) (e + 1) else (c, e))"
  by pat_completeness auto
termination
proof (relation "measure (\<lambda>(c, e). nat \<bar>c\<bar>)")
  fix c e :: int
  assume "c \<noteq> 0 \<and> c mod 10 = 0"
  then obtain k where "c = 10 * k" "k \<noteq> 0" by (metis mod_0_imp_dvd dvdE mult_zero_right)
  then show "((c div 10, e + 1), c, e) \<in> measure (\<lambda>(c, e). nat \<bar>c\<bar>)" by (simp add: abs_mult)
qed simp

declare strip_zeros.simps [simp del]

definition float_repr :: "rat \<Rightarrow> string" where
  "float_repr r =
     (case dec_of_rat \<bar>r\<bar> of
        Dec c0 e0 \<Rightarrow>
          (let (c, e) = strip_zeros c0 e0; ds = show_digits c; ex = e + int (length ds) - 1;
               body = (if c = 0 then ''0.0''
                 else if - 4 \<le> ex \<and> ex < 16
                 then (if 0 \<le> e then ds @ replicate (nat e) CHR ''0'' @ ''.0''
                       else fixed_digits c e)
                 else take 1 ds @ (if length ds = 1 then [] else CHR ''.'' # drop 1 ds) @ ''e'' @
                   (if ex < 0 then ''-'' else ''+'') @
                   (if \<bar>ex\<bar> < 10 then ''0'' else []) @ show_digits \<bar>ex\<bar>)
           in (if r < 0 then CHR ''-'' # body else body))
      | _ \<Rightarrow> ''nan'')"

fun float_str :: "pyfloat \<Rightarrow> string" where
  "float_str (PFin r) = float_repr r"
| "float_str PInf = ''inf''"
| "float_str NInf = ''-inf''"
| "float_str PNaN = ''nan''"

subsection \<open>JSON values\<close>

datatype json =
    JNull
  | JBool bool
  | JInt int
  | JFloat pyfloat
  | JStr string
  | JList "json list"
  | JObj "(string \<times> json) list"

type_synonym jobj = "(string, json) table"

fun is_obj :: "json \<Rightarrow> bool" where
  "is_obj (JObj _) = True"
| "is_obj _ = False"

fun is_str :: "json \<Rightarrow> bool" where
  "is_str (JStr _) = True"
| "is_str _ = False"

fun is_float :: "json \<Rightarrow> bool" where
  "is_float (JFloat _) = True"
| "is_float _ = False"

text \<open>\<^verbatim>\<open>bool(x)\<close>\<close>

fun truthy :: "json \<Rightarrow> bool" where
  "truthy JNull = False"
| "truthy (JBool b) = b"
| "truthy (JInt i) = (i \<noteq> 0)"
| "truthy (JFloat f) = (f \<noteq> PFin 0)"
| "truthy (JStr s) = (s \<noteq> [])"
| "truthy (JList xs) = (xs \<noteq> [])"
| "truthy (JObj d) = (d \<noteq> [])"

definition py_or :: "json \<Rightarrow> json \<Rightarrow> json" where
  "py_or a b = (if truthy a then a else b)"

text \<open>\<^verbatim>\<open>d.get(k)\<close>, and the dictionary behind a value tested with \<^verbatim>\<open>isinstance(x, dict)\<close>.\<close>

definition jget :: "jobj \<Rightarrow> string \<Rightarrow> json" where
  "jget d k = or_default (tget d k) JNull"

definition as_obj :: "json \<Rightarrow> jobj" where
  "as_obj j = (case j of JObj d \<Rightarrow> d | _ \<Rightarrow> [])"

lemma jget_tset [simp]: "jget (tset k v d) k' = (if k' = k then v else jget d k')"
  by (simp add: jget_def)

text \<open>A value inside a dictionary is smaller than the dictionary; recursion over nested
  dictionaries rests on it.\<close>

lemma size_in_obj: "(k, v) \<in> set d \<Longrightarrow> size v < size (JObj d)"
  by (induction d) auto

lemma size_jget: "size (jget d k) < size (JObj d) \<or> jget d k = JNull"
  by (auto simp: jget_def or_default_def split: option.splits dest!: map_of_SomeD size_in_obj)

lemma size_jget_list: "jget d k = JList xs \<Longrightarrow> size_list size xs < size (JObj d)"
  using size_jget [of d k] by auto

lemma size_elem: "x \<in> set xs \<Longrightarrow> size x \<le> size_list size xs"
  by (induction xs) auto

lemma size_jget_elem: "jget d k = JList xs \<Longrightarrow> x \<in> set xs \<Longrightarrow> size x < size (JObj d)"
  using size_jget_list size_elem by (metis le_less_trans)

text \<open>\<^verbatim>\<open>repr\<close> and \<^verbatim>\<open>str\<close>\<close>

fun intersperse :: "string \<Rightarrow> string list \<Rightarrow> string" where
  "intersperse sep [] = []"
| "intersperse sep [x] = x"
| "intersperse sep (x # y # ys) = x @ sep @ intersperse sep (y # ys)"

fun py_repr :: "json \<Rightarrow> string" where
  "py_repr JNull = ''None''"
| "py_repr (JBool b) = (if b then ''True'' else ''False'')"
| "py_repr (JInt i) = show_int i"
| "py_repr (JFloat f) = float_str f"
| "py_repr (JStr s) = [CHR 0x27] @ s @ [CHR 0x27]"
| "py_repr (JList xs) = ''['' @ intersperse '', '' (map py_repr xs) @ '']''"
| "py_repr (JObj d) =
     ''{'' @ intersperse '', '' (map (\<lambda>(k, v). [CHR 0x27] @ k @ [CHR 0x27] @ '': '' @ py_repr v) d) @ ''}''"

definition py_str :: "json \<Rightarrow> string" where
  "py_str j = (case j of JStr s \<Rightarrow> s | _ \<Rightarrow> py_repr j)"

text \<open>\<^verbatim>\<open>str(x or "")\<close>\<close>

definition text_of :: "json \<Rightarrow> string" where
  "text_of j = py_str (py_or j (JStr []))"

lemma text_of_simps [simp]: "text_of JNull = []" "text_of (JStr s) = s"
  by (simp_all add: text_of_def py_or_def py_str_def)

text \<open>Python's \<^verbatim>\<open>==\<close>: numbers compare across types, dictionaries ignore order.\<close>

definition num_of :: "json \<Rightarrow> pyfloat option" where
  "num_of j = (case j of JBool b \<Rightarrow> Some (PFin (if b then 1 else 0)) | JInt i \<Rightarrow> Some (PFin (of_int i))
     | JFloat f \<Rightarrow> Some f | _ \<Rightarrow> None)"

fun py_eq :: "json \<Rightarrow> json \<Rightarrow> bool" where
  "py_eq JNull b = (b = JNull)"
| "py_eq (JStr s) b = (b = JStr s)"
| "py_eq (JList xs) b = (case b of JList ys \<Rightarrow> list_all2 py_eq xs ys | _ \<Rightarrow> False)"
| "py_eq (JObj d) b = (case b of
     JObj d' \<Rightarrow> length d = length d' \<and>
       list_all (\<lambda>(k, v). case tget d' k of None \<Rightarrow> False | Some w \<Rightarrow> py_eq v w) d
   | _ \<Rightarrow> False)"
| "py_eq a b = (case (num_of a, num_of b) of (Some x, Some y) \<Rightarrow> fl_eq x y | _ \<Rightarrow> False)"

text \<open>\<^verbatim>\<open>x in (None, "")\<close>\<close>

definition blank :: "json \<Rightarrow> bool" where
  "blank j = (j = JNull \<or> j = JStr [])"

subsubsection \<open>Numeric conversions\<close>

fun py_float :: "json \<Rightarrow> pyfloat result" where
  "py_float (JBool b) = Inr (PFin (if b then 1 else 0))"
| "py_float (JInt i) = Inr (PFin (of_int i))"
| "py_float (JFloat f) = Inr f"
| "py_float (JStr s) =
     (case float_of_str s of None \<Rightarrow> Inl (ValueError ''could not convert string to float'')
      | Some f \<Rightarrow> Inr f)"
| "py_float _ = Inl TypeError"

definition trunc_rat :: "rat \<Rightarrow> int" where
  "trunc_rat r = (if 0 \<le> r then \<lfloor>r\<rfloor> else - \<lfloor>- r\<rfloor>)"

definition int_of_float :: "pyfloat \<Rightarrow> int result" where
  "int_of_float f = (case f of PFin r \<Rightarrow> Inr (trunc_rat r)
     | PNaN \<Rightarrow> Inl (ValueError ''cannot convert float NaN to integer'') | _ \<Rightarrow> Inl OverflowError)"

definition int_of_str :: "string \<Rightarrow> int option" where
  "int_of_str s =
     (let u = py_strip s; (neg, t) = read_sign (filter (\<lambda>c. c \<noteq> CHR ''_'') u) in
      if underscores_ok u \<and> t \<noteq> [] \<and> list_all is_digit t
      then Some (signed neg (read_digits t)) else None)"

fun py_int :: "json \<Rightarrow> int result" where
  "py_int (JBool b) = Inr (if b then 1 else 0)"
| "py_int (JInt i) = Inr i"
| "py_int (JFloat f) = int_of_float f"
| "py_int (JStr s) =
     (case int_of_str s of None \<Rightarrow> Inl (ValueError ''invalid literal for int()'') | Some i \<Rightarrow> Inr i)"
| "py_int _ = Inl TypeError"

text \<open>\<^verbatim>\<open>Decimal(str(x))\<close>; \<open>None\<close> is \<^verbatim>\<open>InvalidOperation\<close>.\<close>

fun dec_of_json :: "json \<Rightarrow> decimal option" where
  "dec_of_json (JInt i) = Some (Dec i 0)"
| "dec_of_json (JFloat (PFin r)) = Some (dec_of_rat r)"
| "dec_of_json (JFloat PInf) = Some (DInf False)"
| "dec_of_json (JFloat NInf) = Some (DInf True)"
| "dec_of_json (JFloat PNaN) = Some DNaN"
| "dec_of_json (JStr s) = dec_of_str s"
| "dec_of_json _ = None"

subsection \<open>Text columns\<close>

text \<open>A JSON text column: \<open>JRaw\<close> is text that \<^verbatim>\<open>json.loads\<close> rejects.\<close>

datatype jcol = JText json | JRaw string

definition json_loads :: "jcol \<Rightarrow> json \<Rightarrow> json" where
  "json_loads c fallback = (case c of JText j \<Rightarrow> j | JRaw _ \<Rightarrow> fallback)"

definition col_obj :: "jcol \<Rightarrow> jobj" where
  "col_obj c = as_obj (json_loads c (JObj []))"

abbreviation dumps :: "jobj \<Rightarrow> jcol" where
  "dumps d \<equiv> JText (JObj d)"

end
