(* ===== verification/SignalEngine.thy ===== *)
theory SignalEngine
  imports PyValue
begin

section \<open>Signal expressions\<close>

text \<open>
  \<^verbatim>\<open>src/trading/signal_engine.py\<close> and the requirement collection of
  \<^verbatim>\<open>src/trading/signal_context.py\<close>: validation and evaluation of the JSON expressions that
  trigger entries and exits. The evaluator is related to an abstract semantics of signals
  (\<open>signal_sem\<close>) over a market with partial data.
\<close>

subsection \<open>Model: validation\<close>

definition bar_table :: "(string \<times> int) list" where
  "bar_table = [(''1s'', 1), (''1m'', 60), (''3m'', 180), (''5m'', 300), (''15m'', 900), (''30m'', 1800),
     (''1H'', 3600), (''2H'', 7200), (''4H'', 14400), (''6H'', 21600), (''12H'', 43200), (''1D'', 86400),
     (''1W'', 604800)]"

definition bar_seconds :: "string \<Rightarrow> int" where
  "bar_seconds bar = or_default (tget bar_table bar) 60"

definition supported_bars :: "string list" where
  "supported_bars = map fst bar_table"

definition signal_templates :: "(string \<times> string list) list" where
  "signal_templates =
     [(''price_above'', [''symbol'', ''value'']),
      (''price_below'', [''symbol'', ''value'']),
      (''rapid_drop'', [''symbol'', ''window_seconds'', ''change_pct'']),
      (''rapid_rise'', [''symbol'', ''window_seconds'', ''change_pct'']),
      (''volume_multiple'', [''symbol'', ''timeframe'', ''multiplier'']),
      (''boundary_approach'', [''symbol'', ''boundary'', ''side'', ''tolerance_pct''])]"

definition quoted :: "string \<Rightarrow> string" where
  "quoted s = CHR 0x27 # s @ [CHR 0x27]"

type_synonym checked = "jobj \<times> string list"

text \<open>Each check takes the dictionary and the errors so far, as the source threads them.\<close>

definition require_symbol :: "string \<Rightarrow> checked \<Rightarrow> checked" where
  "require_symbol path = (\<lambda>(d, errors).
     case jget d ''symbol'' of
       JStr s \<Rightarrow> if py_strip s = [] then (d, errors @ [path @ ''.symbol: must be a non-empty string'']) else (d, errors)
     | _ \<Rightarrow> (d, errors @ [path @ ''.symbol: must be a non-empty string'']))"

definition require_number :: "string \<Rightarrow> string \<Rightarrow> checked \<Rightarrow> checked" where
  "require_number key path = (\<lambda>(d, errors).
     case tget d key of
       None \<Rightarrow> (d, errors @ [path @ ''.'' @ key @ '': must be numeric''])
     | Some v \<Rightarrow> (case py_float v of
         Inl _ \<Rightarrow> (d, errors @ [path @ ''.'' @ key @ '': must be numeric''])
       | Inr f \<Rightarrow> (tset key (JFloat f) d, errors)))"

definition require_positive_number :: "string \<Rightarrow> string \<Rightarrow> checked \<Rightarrow> checked" where
  "require_positive_number key path c =
     (let (d, errors) = require_number key path c in
      case jget d key of
        JFloat f \<Rightarrow> if fl_le f (PFin 0) then (d, errors @ [path @ ''.'' @ key @ '': must be positive'']) else (d, errors)
      | _ \<Rightarrow> (d, errors))"

definition normalize_primitive :: "jobj \<Rightarrow> string \<Rightarrow> checked" where
  "normalize_primitive expression path =
     (let signal_type = text_of (jget expression ''type'') in
      case tget signal_templates signal_type of
        None \<Rightarrow> (expression, [path @ ''.type: unsupported signal type '' @ quoted signal_type])
      | Some required \<Rightarrow>
          (let e0 = concat (map (\<lambda>key. if tget expression key = None \<or> blank (jget expression key)
                      then [path @ ''.'' @ key @ '': required for '' @ signal_type] else []) required);
               c0 = (expression, e0) in
           if signal_type = ''price_above'' \<or> signal_type = ''price_below''
           then require_symbol path (require_number ''value'' path c0)
           else if signal_type = ''rapid_drop'' \<or> signal_type = ''rapid_rise''
           then require_positive_number ''change_pct'' path
                  (require_positive_number ''window_seconds'' path (require_symbol path c0))
           else if signal_type = ''volume_multiple''
           then (let (d, errors) = require_positive_number ''multiplier'' path (require_symbol path c0) in
                 case jget d ''timeframe'' of
                   JStr tf \<Rightarrow> if tf \<in> set supported_bars then (d, errors)
                     else (d, errors @ [path @ ''.timeframe: must be one of '' @ intersperse '', '' supported_bars])
                 | _ \<Rightarrow> (d, errors @ [path @ ''.timeframe: must be one of '' @ intersperse '', '' supported_bars]))
           else
             (let (d, errors) = require_positive_number ''tolerance_pct'' path
                     (require_number ''boundary'' path (require_symbol path c0));
                  errors = (case jget d ''tolerance_pct'' of
                      JFloat f \<Rightarrow> if fl_lt (PFin 5) f then errors @ [path @ ''.tolerance_pct: must be 5 or less'']
                        else errors
                    | _ \<Rightarrow> errors);
                  side = py_lower (text_of (jget d ''side''))
              in if side \<noteq> ''support'' \<and> side \<noteq> ''resistance''
                 then (d, errors @ [path @ ''.side: must be '' @ quoted ''support'' @ '' or '' @ quoted ''resistance''])
                 else (tset ''side'' (JStr side) d, errors))))"

definition composite_head :: "jobj \<Rightarrow> string \<Rightarrow> string \<times> json list \<times> string list" where
  "composite_head expression path =
     (let op = py_lower (text_of (jget expression ''op''));
          e1 = (if op \<noteq> ''and'' \<and> op \<noteq> ''or'' \<and> op \<noteq> ''not''
                then [path @ ''.op: must be '' @ quoted ''and'' @ '', '' @ quoted ''or'' @ '', or '' @ quoted ''not''] else []) in
      case jget expression ''conditions'' of
        JList (c # cs) \<Rightarrow> (op, c # cs,
          e1 @ (if op = ''not'' \<and> cs \<noteq> [] then [path @ ''.conditions: '' @ quoted ''not'' @ '' requires exactly one condition''] else []))
      | _ \<Rightarrow> (op, [], e1 @ [path @ ''.conditions: must be a non-empty list'']))"

lemma composite_head_smaller:
  "composite_head d path = (op, cs, es) \<Longrightarrow> size_list size cs < size (JObj d)"
  by (auto simp: composite_head_def Let_def split: json.splits list.splits dest: size_jget_list)

function (sequential) sig_normalize :: "json \<Rightarrow> string \<Rightarrow> checked"
  and normalize_composite :: "jobj \<Rightarrow> string \<Rightarrow> checked"
  and normalize_conditions :: "int \<Rightarrow> json list \<Rightarrow> string \<Rightarrow> checked list"
where
  "sig_normalize (JObj d) path =
     (if tget d ''op'' \<noteq> None then normalize_composite d path else normalize_primitive d path)"
| "sig_normalize _ path = ([], [path @ '': expression must be an object''])"
| "normalize_composite expression path =
     (case composite_head expression path of (op, raw_conditions, errors) \<Rightarrow>
        (let rs = normalize_conditions 0 raw_conditions path in
         ([(''op'', JStr op), (''conditions'', JList (map (\<lambda>r. JObj (fst r)) rs))],
          errors @ concat (map snd rs))))"
| "normalize_conditions i [] path = []"
| "normalize_conditions i (c # cs) path =
     sig_normalize c (path @ ''.conditions['' @ show_int i @ '']'') # normalize_conditions (i + 1) cs path"
  by pat_completeness auto
termination
  by (relation "measure (\<lambda>x. case x of
        Inl (j, p) \<Rightarrow> 2 * size j + 1
      | Inr (Inl (d, p)) \<Rightarrow> 2 * size (JObj d)
      | Inr (Inr (i, cs, p)) \<Rightarrow> 2 * size_list size cs + 1)")
    (auto dest!: composite_head_smaller [OF sym] simp del: json.size)


record signal_validation =
  sv_valid :: bool
  sv_errors :: "string list"
  sv_normalized :: jobj

definition sig_validate :: "json \<Rightarrow> signal_validation" where
  "sig_validate expression =
     (let (normalized, errors) = sig_normalize expression ''$'' in
      \<lparr>sv_valid = (errors = []), sv_errors = errors, sv_normalized = normalized\<rparr>)"

subsection \<open>Model: evaluation\<close>

text \<open>The context maps each of its sections to a dictionary.\<close>

definition lookup_nested_float :: "jobj \<Rightarrow> string \<Rightarrow> json \<Rightarrow> pyfloat option" where
  "lookup_nested_float context key nested_key =
     (case nested_key of
        JStr k \<Rightarrow>
          (let v = jget (as_obj (jget context key)) k in
           if blank v then None else (case py_float v of Inl _ \<Rightarrow> None | Inr f \<Rightarrow> Some f))
      | _ \<Rightarrow> None)"

text \<open>\<^verbatim>\<open>d[k]\<close> and \<^verbatim>\<open>float(d[k])\<close>\<close>

definition jitem :: "jobj \<Rightarrow> string \<Rightarrow> json result" where
  "jitem d k = (case tget d k of None \<Rightarrow> Inl (KeyError k) | Some v \<Rightarrow> Inr v)"

definition float_item :: "jobj \<Rightarrow> string \<Rightarrow> pyfloat result" where
  "float_item d k = bindE (jitem d k) py_float"

type_synonym verdict = "bool \<times> jobj"

definition evaluate_price :: "jobj \<Rightarrow> string \<Rightarrow> jobj \<Rightarrow> verdict result" where
  "evaluate_price expression signal_type context =
     (let symbol = jget expression ''symbol''; price = lookup_nested_float context ''prices'' symbol in
      bindE (float_item expression ''value'') (\<lambda>threshold.
      case price of
        None \<Rightarrow> Inr (False, [(''type'', JStr signal_type), (''symbol'', symbol), (''missing'', JStr ''price'')])
      | Some p \<Rightarrow>
          Inr ((if signal_type = ''price_above'' then fl_le threshold p else fl_le p threshold),
               [(''type'', JStr signal_type), (''symbol'', symbol), (''price'', JFloat p),
                (''threshold'', JFloat threshold)])))"

definition evaluate_rapid :: "jobj \<Rightarrow> string \<Rightarrow> jobj \<Rightarrow> verdict result" where
  "evaluate_rapid expression signal_type context =
     (let symbol = jget expression ''symbol'' in
      bindE (float_item expression ''window_seconds'') (\<lambda>w.
      bindE (int_of_float w) (\<lambda>window.
      let change = lookup_nested_float context ''changes_pct''
            (JStr (py_str symbol @ '':'' @ show_int window)) in
      bindE (float_item expression ''change_pct'') (\<lambda>threshold.
      case change of
        None \<Rightarrow> Inr (False, [(''type'', JStr signal_type), (''symbol'', symbol),
                   (''window_seconds'', JInt window), (''missing'', JStr ''change_pct'')])
      | Some c \<Rightarrow>
          Inr ((if signal_type = ''rapid_drop'' then fl_le c (fl_neg threshold) else fl_le threshold c),
               [(''type'', JStr signal_type), (''symbol'', symbol), (''window_seconds'', JInt window),
                (''change_pct'', JFloat c), (''threshold'', JFloat threshold)])))))"

definition evaluate_volume :: "jobj \<Rightarrow> string \<Rightarrow> jobj \<Rightarrow> verdict result" where
  "evaluate_volume expression signal_type context =
     (let symbol = jget expression ''symbol'' in
      bindE (jitem expression ''timeframe'') (\<lambda>tf.
      let ratio = lookup_nested_float context ''volume_ratios'' (JStr (py_str symbol @ '':'' @ py_str tf)) in
      bindE (float_item expression ''multiplier'') (\<lambda>threshold.
      case ratio of
        None \<Rightarrow> Inr (False, [(''type'', JStr signal_type), (''symbol'', symbol), (''missing'', JStr ''volume_ratio'')])
      | Some r \<Rightarrow>
          Inr (fl_le threshold r,
               [(''type'', JStr signal_type), (''symbol'', symbol), (''volume_ratio'', JFloat r),
                (''threshold'', JFloat threshold)]))))"

definition evaluate_boundary :: "jobj \<Rightarrow> string \<Rightarrow> jobj \<Rightarrow> verdict result" where
  "evaluate_boundary expression signal_type context =
     (let symbol = jget expression ''symbol''; price = lookup_nested_float context ''prices'' symbol in
      bindE (float_item expression ''boundary'') (\<lambda>boundary.
      bindE (float_item expression ''tolerance_pct'') (\<lambda>tolerance_pct.
      bindE (jitem expression ''side'') (\<lambda>side.
      case price of
        None \<Rightarrow> Inr (False, [(''type'', JStr signal_type), (''symbol'', symbol), (''missing'', JStr ''price'')])
      | Some p \<Rightarrow>
          (let tolerance_abs = fl_mul (fl_abs boundary) (fl_div tolerance_pct (PFin 100));
               support = (side = JStr ''support'');
               crossed = (if support then fl_lt p boundary else fl_lt boundary p);
               within_tolerance = (if support then fl_le p (fl_add boundary tolerance_abs)
                                   else fl_le (fl_sub boundary tolerance_abs) p);
               distance_pct = (if boundary = PFin 0 then JNull
                  else JFloat (fl_mul (fl_div (fl_abs (fl_sub p boundary)) (fl_abs boundary)) (PFin 100)))
           in Inr (within_tolerance \<and> \<not> crossed,
               [(''type'', JStr signal_type), (''symbol'', symbol), (''side'', side),
                (''boundary'', JFloat boundary), (''tolerance_pct'', JFloat tolerance_pct),
                (''price'', JFloat p), (''distance_pct'', distance_pct), (''crossed'', JBool crossed)]))))))"

definition evaluate_primitive :: "jobj \<Rightarrow> jobj \<Rightarrow> verdict result" where
  "evaluate_primitive expression context =
     bindE (jitem expression ''type'') (\<lambda>ty.
     let signal_type = py_str ty in
     if signal_type = ''price_above'' \<or> signal_type = ''price_below''
     then evaluate_price expression signal_type context
     else if signal_type = ''rapid_drop'' \<or> signal_type = ''rapid_rise''
     then evaluate_rapid expression signal_type context
     else if signal_type = ''volume_multiple'' then evaluate_volume expression signal_type context
     else if signal_type = ''boundary_approach'' then evaluate_boundary expression signal_type context
     else Inr (False, [(''type'', ty), (''note'', JStr ''validation-only primitive'')]))"

definition combine_verdicts :: "string \<Rightarrow> bool list \<Rightarrow> bool result" where
  "combine_verdicts op matched =
     (if op = ''and'' then Inr (list_all (\<lambda>b. b) matched)
      else if op = ''or'' then Inr (list_ex (\<lambda>b. b) matched)
      else (case matched of [] \<Rightarrow> Inl IndexError | b # _ \<Rightarrow> Inr (\<not> b)))"

function evaluate_node :: "json \<Rightarrow> jobj \<Rightarrow> verdict result" where
  "evaluate_node j context =
     (case j of
        JObj expression \<Rightarrow>
          if tget expression ''op'' \<noteq> None
          then (case jget expression ''conditions'' of
              JList cs \<Rightarrow>
                bindE (mapE (\<lambda>c. evaluate_node c context) cs) (\<lambda>results.
                bindE (combine_verdicts (py_str (jget expression ''op'')) (map fst results)) (\<lambda>matched.
                Inr (matched, [(''op'', jget expression ''op''),
                     (''conditions'', JList (map (\<lambda>r. JObj (snd r)) results))])))
            | _ \<Rightarrow> Inl TypeError)
          else evaluate_primitive expression context
      | _ \<Rightarrow> Inl TypeError)"
  by pat_completeness auto
termination
  by (relation "measure (\<lambda>(j, c). size j)") (auto dest: size_jget_elem simp del: json.size)

declare evaluate_node.simps [simp del]

record signal_evaluation =
  se_matched :: bool
  se_valid :: bool
  se_errors :: "string list"
  se_evidence :: jobj

definition sig_evaluate :: "json \<Rightarrow> jobj \<Rightarrow> signal_evaluation result" where
  "sig_evaluate expression context =
     (let validation = sig_validate expression in
      if \<not> sv_valid validation
      then Inr \<lparr>se_matched = False, se_valid = False, se_errors = sv_errors validation,
             se_evidence = [(''validation'', JObj (sv_normalized validation))]\<rparr>
      else bindE (evaluate_node (JObj (sv_normalized validation)) context) (\<lambda>(matched, evidence).
           Inr \<lparr>se_matched = matched, se_valid = True, se_errors = [], se_evidence = evidence\<rparr>))"

subsection \<open>Model: requirement collection\<close>

text \<open>\<^verbatim>\<open>collect_signal_requirements\<close>: the market data an expression asks the runtime to fetch.\<close>

record requirements =
  rq_symbols :: "string set"
  rq_windows :: "int set"
  rq_timeframes :: "string set"

definition no_requirements :: requirements where
  "no_requirements = \<lparr>rq_symbols = {}, rq_windows = {}, rq_timeframes = {}\<rparr>"

definition add_symbol :: "jobj \<Rightarrow> requirements \<Rightarrow> requirements" where
  "add_symbol d r = (case jget d ''symbol'' of
     JStr s \<Rightarrow> if py_strip s = [] then r else r\<lparr>rq_symbols := insert (py_strip s) (rq_symbols r)\<rparr>
   | _ \<Rightarrow> r)"

definition add_window :: "jobj \<Rightarrow> requirements \<Rightarrow> requirements result" where
  "add_window d r =
     (if jget d ''type'' = JStr ''rapid_drop'' \<or> jget d ''type'' = JStr ''rapid_rise''
      then (case bindE (float_item d ''window_seconds'') int_of_float of
          Inr w \<Rightarrow> Inr (r\<lparr>rq_windows := insert w (rq_windows r)\<rparr>)
        | Inl (KeyError k) \<Rightarrow> Inr r
        | Inl TypeError \<Rightarrow> Inr r
        | Inl (ValueError m) \<Rightarrow> Inr r
        | Inl e \<Rightarrow> Inl e)
      else Inr r)"

definition add_timeframe :: "jobj \<Rightarrow> requirements \<Rightarrow> requirements" where
  "add_timeframe d r =
     (if jget d ''type'' = JStr ''volume_multiple''
      then (case jget d ''timeframe'' of
          JStr tf \<Rightarrow> if py_strip tf = [] then r else r\<lparr>rq_timeframes := insert (py_strip tf) (rq_timeframes r)\<rparr>
        | _ \<Rightarrow> r)
      else r)"

function collect_requirements :: "json \<Rightarrow> requirements \<Rightarrow> requirements result" where
  "collect_requirements j r =
     (case j of
        JObj expression \<Rightarrow>
          if tget expression ''op'' \<noteq> None
          then (case jget expression ''conditions'' of
              JList cs \<Rightarrow> foldE collect_requirements cs r
            | _ \<Rightarrow> Inr r)
          else bindE (add_window expression (add_symbol expression r))
                 (\<lambda>r'. Inr (add_timeframe expression r'))
      | _ \<Rightarrow> Inr r)"
  by pat_completeness auto
termination
  by (relation "measure (\<lambda>(j, r). size j)") (auto dest: size_jget_elem simp del: json.size)

declare collect_requirements.simps [simp del]

definition collect_signal_requirements :: "json \<Rightarrow> requirements result" where
  "collect_signal_requirements expression = collect_requirements expression no_requirements"

subsection \<open>Model: evaluation context from candles\<close>

text \<open>
  \<^verbatim>\<open>build_signal_context_from_candles\<close> on the rows that \<^verbatim>\<open>_sorted_numeric_candles\<close>
  leaves: numeric closes in time order; a volume that is not a number is \<open>None\<close>. A frame without
  a volume column has \<open>fr_volumes = False\<close>. The symbols are the keys of a dictionary.
\<close>

record candle_row =
  cr_close :: rat
  cr_volume :: "rat option"

record frame =
  fr_rows :: "candle_row list"
  fr_volumes :: bool

definition known_volumes :: "candle_row list \<Rightarrow> rat list" where
  "known_volumes rows = concat (map (\<lambda>r. case cr_volume r of None \<Rightarrow> [] | Some v \<Rightarrow> [v]) rows)"

definition volume_ratio :: "frame \<Rightarrow> pyfloat option" where
  "volume_ratio f =
     (let rows = fr_rows f; n = length rows in
      if \<not> fr_volumes f \<or> n < 2 then None
      else (let vs = known_volumes (drop (n - 21) (butlast rows)) in
            if vs = [] then None
            else (let baseline = sum_list vs / of_int (int (length vs)) in
                  if baseline \<le> 0 then None
                  else Some (case cr_volume (last rows) of None \<Rightarrow> PNaN | Some v \<Rightarrow> PFin (v / baseline)))))"

definition lookback_rows :: "int \<Rightarrow> int \<Rightarrow> nat" where
  "lookback_rows window step_seconds = nat (max 1 (round_half_even (of_int window / of_int step_seconds)))"

definition window_change :: "candle_row list \<Rightarrow> int \<Rightarrow> int \<Rightarrow> rat option" where
  "window_change rows step_seconds window =
     (let lookback = lookback_rows window step_seconds in
      if length rows \<le> lookback then None
      else (let latest = cr_close (last rows); previous = cr_close (rows ! (length rows - 1 - lookback)) in
            if previous = 0 then None else Some ((latest - previous) / previous * 100)))"

type_synonym frames = "(string, frame) table"

definition price_entries :: "frames \<Rightarrow> jobj" where
  "price_entries frames = concat (map (\<lambda>(symbol, f).
     if fr_rows f = [] then [] else [(symbol, JFloat (PFin (cr_close (last (fr_rows f)))))]) frames)"

definition volume_entries :: "string \<Rightarrow> frames \<Rightarrow> jobj" where
  "volume_entries bar frames = concat (map (\<lambda>(symbol, f).
     case volume_ratio f of None \<Rightarrow> [] | Some r \<Rightarrow> [(symbol @ '':'' @ bar, JFloat r)]) frames)"

definition change_entries :: "string \<Rightarrow> int list \<Rightarrow> frames \<Rightarrow> jobj" where
  "change_entries bar windows frames = concat (map (\<lambda>(symbol, f).
     concat (map (\<lambda>w. case window_change (fr_rows f) (bar_seconds bar) w of
        None \<Rightarrow> [] | Some c \<Rightarrow> [(symbol @ '':'' @ show_int w, JFloat (PFin c))]) windows)) frames)"

definition context_source :: "string \<Rightarrow> frames \<Rightarrow> json" where
  "context_source bar frames = JObj [(''candles'', JObj
     [(''available'', JBool (list_ex (\<lambda>(_, f). fr_rows f \<noteq> []) frames)), (''bar'', JStr bar),
      (''symbols'', JObj (map (\<lambda>(symbol, f). (symbol, JObj [(''rows'', JInt (int (length (fr_rows f))))])) frames))])]"

definition effective_windows :: "int list \<Rightarrow> int list" where
  "effective_windows windows_seconds = (if windows_seconds = [] then [60, 300, 600] else windows_seconds)"

definition build_signal_context :: "frames \<Rightarrow> string \<Rightarrow> int list \<Rightarrow> jobj" where
  "build_signal_context frames bar windows_seconds =
     [(''prices'', JObj (tmerge [] (price_entries frames))),
      (''changes_pct'', JObj (tmerge [] (change_entries bar (effective_windows windows_seconds) frames))),
      (''volume_ratios'', JObj (tmerge [] (volume_entries bar frames))),
      (''source'', context_source bar frames)]"

subsection \<open>Abstract semantics of signals\<close>

text \<open>
  What a signal means, over a market whose data may be incomplete: a condition whose data is
  missing does not hold.
\<close>

datatype signal =
    PriceAbove string rat
  | PriceBelow string rat
  | RapidDrop string int rat
  | RapidRise string int rat
  | VolumeMultiple string string rat
  | BoundaryApproach string rat bool rat
  | AllOf "signal list"
  | AnyOf "signal list"
  | NoneOf signal

record market =
  mk_price :: "string \<Rightarrow> rat option"
  mk_change :: "string \<Rightarrow> int \<Rightarrow> rat option"
  mk_volume :: "string \<Rightarrow> string \<Rightarrow> rat option"

definition known :: "'a option \<Rightarrow> ('a \<Rightarrow> bool) \<Rightarrow> bool" where
  "known x P = (case x of None \<Rightarrow> False | Some v \<Rightarrow> P v)"

fun signal_sem :: "market \<Rightarrow> signal \<Rightarrow> bool" where
  "signal_sem m (PriceAbove s v) = known (mk_price m s) (\<lambda>p. v \<le> p)"
| "signal_sem m (PriceBelow s v) = known (mk_price m s) (\<lambda>p. p \<le> v)"
| "signal_sem m (RapidDrop s w c) = known (mk_change m s w) (\<lambda>x. x \<le> - c)"
| "signal_sem m (RapidRise s w c) = known (mk_change m s w) (\<lambda>x. c \<le> x)"
| "signal_sem m (VolumeMultiple s tf k) = known (mk_volume m s tf) (\<lambda>r. k \<le> r)"
| "signal_sem m (BoundaryApproach s b True t) =
     known (mk_price m s) (\<lambda>p. b \<le> p \<and> p \<le> b + \<bar>b\<bar> * (t / 100))"
| "signal_sem m (BoundaryApproach s b False t) =
     known (mk_price m s) (\<lambda>p. b - \<bar>b\<bar> * (t / 100) \<le> p \<and> p \<le> b)"
| "signal_sem m (AllOf ss) = list_all (signal_sem m) ss"
| "signal_sem m (AnyOf ss) = list_ex (signal_sem m) ss"
| "signal_sem m (NoneOf s) = (\<not> signal_sem m s)"

text \<open>The JSON form of a signal, and the signals the editor may save.\<close>

abbreviation jrat :: "rat \<Rightarrow> json" where
  "jrat x \<equiv> JFloat (PFin x)"

definition price_json :: "string \<Rightarrow> string \<Rightarrow> rat \<Rightarrow> jobj" where
  "price_json ty s v = [(''type'', JStr ty), (''symbol'', JStr s), (''value'', jrat v)]"

definition rapid_json :: "string \<Rightarrow> string \<Rightarrow> int \<Rightarrow> rat \<Rightarrow> jobj" where
  "rapid_json ty s w c = [(''type'', JStr ty), (''symbol'', JStr s), (''window_seconds'', jrat (of_int w)),
     (''change_pct'', jrat c)]"

fun encode :: "signal \<Rightarrow> jobj" where
  "encode (PriceAbove s v) = price_json ''price_above'' s v"
| "encode (PriceBelow s v) = price_json ''price_below'' s v"
| "encode (RapidDrop s w c) = rapid_json ''rapid_drop'' s w c"
| "encode (RapidRise s w c) = rapid_json ''rapid_rise'' s w c"
| "encode (VolumeMultiple s tf k) = [(''type'', JStr ''volume_multiple''), (''symbol'', JStr s),
     (''timeframe'', JStr tf), (''multiplier'', jrat k)]"
| "encode (BoundaryApproach s b below t) = [(''type'', JStr ''boundary_approach''), (''symbol'', JStr s),
     (''boundary'', jrat b), (''side'', JStr (if below then ''support'' else ''resistance'')),
     (''tolerance_pct'', jrat t)]"
| "encode (AllOf ss) = [(''op'', JStr ''and''), (''conditions'', JList (map (\<lambda>s. JObj (encode s)) ss))]"
| "encode (AnyOf ss) = [(''op'', JStr ''or''), (''conditions'', JList (map (\<lambda>s. JObj (encode s)) ss))]"
| "encode (NoneOf s) = [(''op'', JStr ''not''), (''conditions'', JList [JObj (encode s)])]"

definition symbol_ok :: "string \<Rightarrow> bool" where
  "symbol_ok s \<longleftrightarrow> s \<noteq> [] \<and> py_strip s = s"

fun wf_signal :: "signal \<Rightarrow> bool" where
  "wf_signal (PriceAbove s v) = symbol_ok s"
| "wf_signal (PriceBelow s v) = symbol_ok s"
| "wf_signal (RapidDrop s w c) = (symbol_ok s \<and> 0 < w \<and> 0 < c)"
| "wf_signal (RapidRise s w c) = (symbol_ok s \<and> 0 < w \<and> 0 < c)"
| "wf_signal (VolumeMultiple s tf k) = (symbol_ok s \<and> tf \<in> set supported_bars \<and> 0 < k)"
| "wf_signal (BoundaryApproach s b below t) = (symbol_ok s \<and> 0 < t \<and> t \<le> 5)"
| "wf_signal (AllOf ss) = (ss \<noteq> [] \<and> list_all wf_signal ss)"
| "wf_signal (AnyOf ss) = (ss \<noteq> [] \<and> list_all wf_signal ss)"
| "wf_signal (NoneOf s) = wf_signal s"

fun negation_free :: "signal \<Rightarrow> bool" where
  "negation_free (AllOf ss) = list_all negation_free ss"
| "negation_free (AnyOf ss) = list_all negation_free ss"
| "negation_free (NoneOf s) = False"
| "negation_free _ = True"

text \<open>An evaluation context holds the data of a market.\<close>

definition represents :: "jobj \<Rightarrow> market \<Rightarrow> bool" where
  "represents context m \<longleftrightarrow>
     (\<forall>s. lookup_nested_float context ''prices'' (JStr s) = map_option PFin (mk_price m s)) \<and>
     (\<forall>s w. lookup_nested_float context ''changes_pct'' (JStr (s @ '':'' @ show_int w)) =
        map_option PFin (mk_change m s w)) \<and>
     (\<forall>s. \<forall>tf\<in>set supported_bars. lookup_nested_float context ''volume_ratios'' (JStr (s @ '':'' @ tf)) =
        map_option PFin (mk_volume m s tf))"

definition less_data :: "market \<Rightarrow> market \<Rightarrow> bool" where
  "less_data m n \<longleftrightarrow>
     (\<forall>s. mk_price m s \<in> {None, mk_price n s}) \<and>
     (\<forall>s w. mk_change m s w \<in> {None, mk_change n s w}) \<and>
     (\<forall>s tf. mk_volume m s tf \<in> {None, mk_volume n s tf})"

subsection \<open>The evaluator implements the semantics\<close>

lemma jget_Cons: "jget ((k, v) # d) k' = (if k' = k then v else jget d k')"
  by (simp add: jget_def or_default_def)

lemma py_str_JStr [simp]: "py_str (JStr s) = s"
  by (simp add: py_str_def)

lemma int_of_float_of_int [simp]: "int_of_float (PFin (of_int w)) = Inr w"
  by (simp add: int_of_float_def trunc_rat_def)

lemma symbol_ok_strip: "symbol_ok s \<Longrightarrow> py_strip s \<noteq> []"
  by (auto simp: symbol_ok_def)

lemmas check_simps = normalize_primitive_def signal_templates_def require_symbol_def
  require_number_def require_positive_number_def jget_Cons blank_def

lemma normalize_price_json:
  assumes "symbol_ok s"
  shows "normalize_primitive (price_json ''price_above'' s v) path = (price_json ''price_above'' s v, [])"
    and "normalize_primitive (price_json ''price_below'' s v) path = (price_json ''price_below'' s v, [])"
  using symbol_ok_strip [OF assms] assms by (simp_all add: check_simps price_json_def symbol_ok_def)

lemma normalize_rapid_json:
  assumes "symbol_ok s" "0 < w" "0 < c"
  shows "normalize_primitive (rapid_json ''rapid_drop'' s w c) path = (rapid_json ''rapid_drop'' s w c, [])"
    and "normalize_primitive (rapid_json ''rapid_rise'' s w c) path = (rapid_json ''rapid_rise'' s w c, [])"
  using symbol_ok_strip [OF assms(1)] assms by (simp_all add: check_simps rapid_json_def symbol_ok_def)

lemma supported_bars_nonempty: "tf \<in> set supported_bars \<Longrightarrow> tf \<noteq> []"
  by (auto simp: supported_bars_def bar_table_def)

lemma normalize_volume_json:
  assumes "wf_signal (VolumeMultiple s tf k)"
  shows "normalize_primitive (encode (VolumeMultiple s tf k)) path = (encode (VolumeMultiple s tf k), [])"
  using assms symbol_ok_strip [of s] supported_bars_nonempty [of tf]
  by (simp add: check_simps symbol_ok_def)

lemma normalize_boundary_json:
  assumes "wf_signal (BoundaryApproach s b below t)"
  shows "normalize_primitive (encode (BoundaryApproach s b below t)) path =
    (encode (BoundaryApproach s b below t), [])"
  using assms symbol_ok_strip [of s]
  by (cases below) (simp_all add: check_simps symbol_ok_def py_lower_def lower_char_def
      upper_letters_def lower_letters_def)

lemma normalize_encode_list:
  "(\<And>x p. x \<in> set ss \<Longrightarrow> sig_normalize (JObj (encode x)) p = (encode x, [])) \<Longrightarrow>
   map (\<lambda>r. JObj (fst r)) (normalize_conditions i (map (\<lambda>s. JObj (encode s)) ss) path) =
     map (\<lambda>s. JObj (encode s)) ss \<and>
   concat (map snd (normalize_conditions i (map (\<lambda>s. JObj (encode s)) ss) path)) = []"
  by (induction ss arbitrary: i) (simp_all)

lemma composite_head_encode:
  assumes "ss \<noteq> []" "op = ''and'' \<or> op = ''or'' \<or> op = ''not'' \<and> length ss = 1"
  shows "composite_head [(''op'', JStr op), (''conditions'', JList (map f ss))] path = (op, map f ss, [])"
  using assms by (cases ss) (auto simp: composite_head_def jget_Cons py_lower_def lower_char_def
      upper_letters_def lower_letters_def)

lemma normalize_composite_encode:
  assumes "ss \<noteq> []" "op = ''and'' \<or> op = ''or'' \<or> op = ''not'' \<and> length ss = 1"
    and IH: "\<And>x p. x \<in> set ss \<Longrightarrow> sig_normalize (JObj (encode x)) p = (encode x, [])"
  shows "sig_normalize (JObj [(''op'', JStr op), (''conditions'', JList (map (\<lambda>s. JObj (encode s)) ss))]) path =
    ([(''op'', JStr op), (''conditions'', JList (map (\<lambda>s. JObj (encode s)) ss))], [])"
  using normalize_encode_list [of ss 0 path, OF IH]
  by (simp add: composite_head_encode [OF assms(1,2)] Let_def)

text \<open>Canonical expressions are fixed by normalisation.\<close>

lemma normalize_encode: "wf_signal s \<Longrightarrow> sig_normalize (JObj (encode s)) path = (encode s, [])"
proof (induction s arbitrary: path)
  case (AllOf ss)
  then show ?case using normalize_composite_encode [of ss "''and''"] by (simp add: list_all_iff)
next
  case (AnyOf ss)
  then show ?case using normalize_composite_encode [of ss "''or''"] by (simp add: list_all_iff)
next
  case (NoneOf s)
  then show ?case using normalize_composite_encode [of "[s]" "''not''"] by simp
next
  case (VolumeMultiple s tf k)
  then show ?case using normalize_volume_json [OF VolumeMultiple] by simp
next
  case (BoundaryApproach s b below t)
  then show ?case using normalize_boundary_json [OF BoundaryApproach] by simp
qed (simp_all add: normalize_price_json normalize_rapid_json, simp_all add: price_json_def rapid_json_def)

lemma evaluate_conditions:
  "(\<And>x. x \<in> set ss \<Longrightarrow> \<exists>ev. evaluate_node (JObj (encode x)) context = Inr (P x, ev)) \<Longrightarrow>
   \<exists>rs. mapE (\<lambda>c. evaluate_node c context) (map (\<lambda>s. JObj (encode s)) ss) = Inr rs \<and> map fst rs = map P ss"
proof (induction ss)
  case (Cons s ss)
  then obtain rs ev where "mapE (\<lambda>c. evaluate_node c context) (map (\<lambda>s. JObj (encode s)) ss) = Inr rs"
    "map fst rs = map P ss" "evaluate_node (JObj (encode s)) context = Inr (P s, ev)" by force
  then show ?case by simp
qed simp

lemma evaluate_composite:
  assumes "\<And>x. x \<in> set ss \<Longrightarrow> \<exists>ev. evaluate_node (JObj (encode x)) context = Inr (P x, ev)"
    and "combine_verdicts op (map P ss) = Inr v"
  shows "\<exists>ev. evaluate_node (JObj [(''op'', JStr op), (''conditions'', JList (map (\<lambda>s. JObj (encode s)) ss))])
    context = Inr (v, ev)"
  using evaluate_conditions [of ss "context" P, OF assms(1)] assms(2)
  by (subst evaluate_node.simps) (auto simp: jget_Cons)

lemma evaluate_leaf:
  "tget d ''op'' = None \<Longrightarrow> evaluate_node (JObj d) context = evaluate_primitive d context"
  by (subst evaluate_node.simps) simp

lemmas evaluation_simps = evaluate_primitive_def evaluate_price_def evaluate_rapid_def evaluate_volume_def
  evaluate_boundary_def jitem_def float_item_def jget_Cons known_def price_json_def rapid_json_def

lemma representsD:
  assumes "represents context m"
  shows "lookup_nested_float context ''prices'' (JStr s) = map_option PFin (mk_price m s)"
    and "lookup_nested_float context ''changes_pct'' (JStr (s @ '':'' @ show_int w)) = map_option PFin (mk_change m s w)"
    and "tf \<in> set supported_bars \<Longrightarrow>
      lookup_nested_float context ''volume_ratios'' (JStr (s @ '':'' @ tf)) = map_option PFin (mk_volume m s tf)"
  using assms unfolding represents_def by blast+

lemma evaluate_encode_leaf:
  assumes r: "represents context m" and w: "wf_signal s" and leaf: "tget (encode s) ''op'' = None"
  shows "\<exists>ev. evaluate_primitive (encode s) context = Inr (signal_sem m s, ev)"
proof (cases s)
  case (BoundaryApproach sy b below t)
  show ?thesis
    by (cases below; cases "mk_price m sy")
      (simp_all add: BoundaryApproach evaluation_simps representsD [OF r, simplified] not_less conj_commute)
next
  case (PriceAbove sy v)
  then show ?thesis
    by (cases "mk_price m sy") (simp_all add: evaluation_simps representsD [OF r, simplified])
next
  case (PriceBelow sy v)
  then show ?thesis
    by (cases "mk_price m sy") (simp_all add: evaluation_simps representsD [OF r, simplified])
next
  case (RapidDrop sy w c)
  then show ?thesis
    by (cases "mk_change m sy w") (simp_all add: evaluation_simps representsD [OF r, simplified])
next
  case (RapidRise sy w c)
  then show ?thesis
    by (cases "mk_change m sy w") (simp_all add: evaluation_simps representsD [OF r, simplified])
next
  case (VolumeMultiple sy tf k)
  with w show ?thesis
    by (cases "mk_volume m sy tf") (simp_all add: evaluation_simps representsD [OF r, simplified])
qed (use leaf in simp_all)

lemma leaf_has_no_op:
  "tget (encode (PriceAbove s v)) ''op'' = None" "tget (encode (PriceBelow s v)) ''op'' = None"
  "tget (encode (RapidDrop s w v)) ''op'' = None" "tget (encode (RapidRise s w v)) ''op'' = None"
  "tget (encode (VolumeMultiple s tf v)) ''op'' = None" "tget (encode (BoundaryApproach s v below t)) ''op'' = None"
  by (simp_all add: price_json_def rapid_json_def)

lemma evaluate_encode:
  assumes r: "represents context m"
  shows "wf_signal s \<Longrightarrow> \<exists>ev. evaluate_node (JObj (encode s)) context = Inr (signal_sem m s, ev)"
proof (induction s)
  case (AllOf ss)
  then show ?case using evaluate_composite [of ss "context" "signal_sem m" "''and''"]
    by (simp add: list_all_iff combine_verdicts_def)
next
  case (AnyOf ss)
  then show ?case using evaluate_composite [of ss "context" "signal_sem m" "''or''"]
    by (simp add: list_all_iff list_ex_iff combine_verdicts_def)
next
  case (NoneOf s)
  then show ?case using evaluate_composite [of "[s]" "context" "signal_sem m" "''not''"]
    by (simp add: combine_verdicts_def)
qed (simp_all only: evaluate_leaf [OF leaf_has_no_op(1)] evaluate_leaf [OF leaf_has_no_op(2)]
      evaluate_leaf [OF leaf_has_no_op(3)] evaluate_leaf [OF leaf_has_no_op(4)]
      evaluate_leaf [OF leaf_has_no_op(5)] evaluate_leaf [OF leaf_has_no_op(6)]
      evaluate_encode_leaf [OF r _ leaf_has_no_op(1)] evaluate_encode_leaf [OF r _ leaf_has_no_op(2)]
      evaluate_encode_leaf [OF r _ leaf_has_no_op(3)] evaluate_encode_leaf [OF r _ leaf_has_no_op(4)]
      evaluate_encode_leaf [OF r _ leaf_has_no_op(5)] evaluate_encode_leaf [OF r _ leaf_has_no_op(6)])

lemma known_mono: "known x P \<Longrightarrow> x \<in> {None, y} \<Longrightarrow> known y P"
  by (auto simp: known_def)

lemma less_dataD:
  assumes "less_data m n"
  shows "known (mk_price m s) P \<Longrightarrow> known (mk_price n s) P"
    and "known (mk_change m s w) P \<Longrightarrow> known (mk_change n s w) P"
    and "known (mk_volume m s tf) P \<Longrightarrow> known (mk_volume n s tf) P"
  using assms known_mono unfolding less_data_def by blast+

lemma sem_monotone:
  assumes le: "less_data m n"
  shows "negation_free s \<Longrightarrow> signal_sem m s \<Longrightarrow> signal_sem n s"
proof (induction s)
  case (BoundaryApproach s b below t)
  then show ?case by (cases below) (simp_all add: less_dataD [OF le])
qed (simp_all add: less_dataD [OF le] list_all_iff list_ex_iff, blast)

subsection \<open>Requirements suffice\<close>

definition req_le :: "requirements \<Rightarrow> requirements \<Rightarrow> bool" where
  "req_le r q \<longleftrightarrow> rq_symbols r \<subseteq> rq_symbols q \<and> rq_windows r \<subseteq> rq_windows q \<and> rq_timeframes r \<subseteq> rq_timeframes q"

text \<open>Two markets with the same data for everything that was requested.\<close>

definition agree :: "requirements \<Rightarrow> market \<Rightarrow> market \<Rightarrow> bool" where
  "agree r m n \<longleftrightarrow> (\<forall>s\<in>rq_symbols r. mk_price m s = mk_price n s \<and>
     (\<forall>w\<in>rq_windows r. mk_change m s w = mk_change n s w) \<and>
     (\<forall>tf\<in>rq_timeframes r. mk_volume m s tf = mk_volume n s tf))"

lemma agree_antimono: "req_le r q \<Longrightarrow> agree q m n \<Longrightarrow> agree r m n"
  unfolding req_le_def agree_def by blast

lemma req_le_trans: "req_le r q \<Longrightarrow> req_le q p \<Longrightarrow> req_le r p"
  unfolding req_le_def by blast

definition covers :: "signal \<Rightarrow> requirements \<Rightarrow> bool" where
  "covers s q \<longleftrightarrow> (\<forall>m n. agree q m n \<longrightarrow> signal_sem m s = signal_sem n s)"

lemma covers_mono: "covers s r \<Longrightarrow> req_le r q \<Longrightarrow> covers s q"
  unfolding covers_def using agree_antimono by blast

lemma supported_bars_stripped: "tf \<in> set supported_bars \<Longrightarrow> py_strip tf = tf"
  unfolding supported_bars_def bar_table_def py_strip_def is_space_def by auto

lemma collect_leaf:
  "tget d ''op'' = None \<Longrightarrow> collect_requirements (JObj d) r =
     bindE (add_window d (add_symbol d r)) (\<lambda>r'. Inr (add_timeframe d r'))"
  by (subst collect_requirements.simps) simp

lemmas collect_simps = add_window_def add_symbol_def add_timeframe_def float_item_def jitem_def jget_Cons
  symbol_ok_def price_json_def rapid_json_def req_le_def agree_def covers_def

lemma collect_encode_leaf:
  assumes "wf_signal s" "tget (encode s) ''op'' = None"
  shows "\<exists>q. collect_requirements (JObj (encode s)) r = Inr q \<and> req_le r q \<and> covers s q"
proof (cases s)
  case (BoundaryApproach sy b below t)
  with assms show ?thesis by (cases below) (auto simp: collect_simps collect_leaf)
next
  case (VolumeMultiple sy tf k)
  with assms supported_bars_nonempty [of tf] supported_bars_stripped [of tf] show ?thesis
    by (auto simp: collect_simps collect_leaf)
qed (use assms in \<open>auto simp: collect_simps collect_leaf\<close>)

lemma collect_list:
  "(\<And>x r. x \<in> set ss \<Longrightarrow> \<exists>q. collect_requirements (JObj (encode x)) r = Inr q \<and> req_le r q \<and> covers x q) \<Longrightarrow>
   \<exists>q. foldE collect_requirements (map (\<lambda>s. JObj (encode s)) ss) r = Inr q \<and> req_le r q \<and> (\<forall>x\<in>set ss. covers x q)"
proof (induction ss arbitrary: r)
  case Nil
  then show ?case by (simp add: req_le_def)
next
  case (Cons s ss)
  then obtain p where p: "collect_requirements (JObj (encode s)) r = Inr p" "req_le r p" "covers s p"
    by (meson list.set_intros(1))
  from Cons obtain q where "foldE collect_requirements (map (\<lambda>s. JObj (encode s)) ss) p = Inr q"
    "req_le p q" "\<forall>x\<in>set ss. covers x q" by (meson list.set_intros(2))
  with p show ?case by (auto intro: req_le_trans covers_mono)
qed

lemma collect_composite:
  assumes "\<And>x r. x \<in> set ss \<Longrightarrow> \<exists>q. collect_requirements (JObj (encode x)) r = Inr q \<and> req_le r q \<and> covers x q"
  shows "\<exists>q. collect_requirements (JObj [(''op'', JStr op), (''conditions'', JList (map (\<lambda>s. JObj (encode s)) ss))]) r
     = Inr q \<and> req_le r q \<and> (\<forall>x\<in>set ss. covers x q)"
  using collect_list [of ss r, OF assms] by (subst collect_requirements.simps) (simp add: jget_Cons)

lemma covers_composite:
  "\<forall>x\<in>set ss. covers x q \<Longrightarrow> covers (AllOf ss) q"
  "\<forall>x\<in>set ss. covers x q \<Longrightarrow> covers (AnyOf ss) q"
  "covers s q \<Longrightarrow> covers (NoneOf s) q"
  unfolding covers_def by (auto simp: list_all_iff list_ex_iff)

lemma collect_encode:
  "wf_signal s \<Longrightarrow> \<exists>q. collect_requirements (JObj (encode s)) r = Inr q \<and> req_le r q \<and> covers s q"
proof (induction s arbitrary: r)
  case (AllOf ss)
  then show ?case using collect_composite [of ss "''and''" r] covers_composite(1)
    by (simp add: list_all_iff) blast
next
  case (AnyOf ss)
  then show ?case using collect_composite [of ss "''or''" r] covers_composite(2)
    by (simp add: list_all_iff) blast
next
  case (NoneOf s)
  then show ?case using collect_composite [of "[s]" "''not''" r] covers_composite(3)
    by simp blast
qed (rule collect_encode_leaf, assumption, rule leaf_has_no_op)+

subsection \<open>The context built from candles represents a market\<close>

definition candle_market :: "frames \<Rightarrow> string \<Rightarrow> int list \<Rightarrow> market" where
  "candle_market frames bar windows =
     \<lparr>mk_price = (\<lambda>s. case tget frames s of None \<Rightarrow> None
        | Some f \<Rightarrow> if fr_rows f = [] then None else Some (cr_close (last (fr_rows f)))),
      mk_change = (\<lambda>s w. case tget frames s of None \<Rightarrow> None
        | Some f \<Rightarrow> if w \<in> set (effective_windows windows) then window_change (fr_rows f) (bar_seconds bar) w else None),
      mk_volume = (\<lambda>s tf. case tget frames s of None \<Rightarrow> None
        | Some f \<Rightarrow> if tf = bar then (case volume_ratio f of Some (PFin r) \<Rightarrow> Some r | _ \<Rightarrow> None) else None)\<rparr>"

text \<open>Frames keyed by symbol whose latest volume is a number.\<close>

definition frames_ok :: "frames \<Rightarrow> bool" where
  "frames_ok frames \<longleftrightarrow> distinct (map fst frames) \<and> (\<forall>(s, f)\<in>set frames. volume_ratio f \<noteq> Some PNaN)"

lemma no_colon_key:
  assumes "CHR '':'' \<notin> set t" "CHR '':'' \<notin> set t'" "s @ '':'' @ t = s' @ '':'' @ t'"
  shows "s = s' \<and> t = t'"
proof -
  have "takeWhile (\<lambda>c. c \<noteq> CHR '':'') (rev (s @ '':'' @ t)) = rev t"
    and "takeWhile (\<lambda>c. c \<noteq> CHR '':'') (rev (s' @ '':'' @ t')) = rev t'"
    using assms(1,2) by (auto simp: takeWhile_append)
  with assms(3) have "rev t = rev t'" by simp
  with assms(3) show ?thesis by simp
qed

lemma show_int_no_colon: "CHR '':'' \<notin> set (show_int w)"
proof -
  have c: "\<not> is_digit CHR '':''" by code_simp
  have "0 \<le> n \<Longrightarrow> CHR '':'' \<notin> set (show_digits n)" for n
    using show_digits_digits [of n] c unfolding list_all_iff by blast
  then show ?thesis unfolding show_int_def by simp
qed

lemma bars_no_colon: "bar \<in> set supported_bars \<Longrightarrow> CHR '':'' \<notin> set bar"
  by (auto simp: supported_bars_def bar_table_def)

lemma tget_tmerge_notin: "(\<And>v. (k, v) \<notin> set u) \<Longrightarrow> tget (tmerge t u) k = tget t k"
  unfolding tmerge_def
proof (induction u arbitrary: t)
  case (Cons p u)
  obtain a b where p: "p = (a, b)" by (cases p)
  with Cons.prems have "a \<noteq> k" "\<And>v. (k, v) \<notin> set u" by auto
  with Cons.IH [of "tset a b t"] p show ?case by simp
qed simp

lemma tget_tmerge_in:
  "(k, v) \<in> set u \<Longrightarrow> (\<And>v'. (k, v') \<in> set u \<Longrightarrow> v' = v) \<Longrightarrow> tget (tmerge t u) k = Some v"
proof (induction u arbitrary: t)
  case (Cons p u)
  obtain a b where p: "p = (a, b)" by (cases p)
  have step: "tmerge t (p # u) = tmerge (tset a b t) u" by (simp add: tmerge_def p)
  show ?case
  proof (cases "(k, v) \<in> set u")
    case True
    have "tget (tmerge (tset a b t) u) k = Some v"
      by (rule Cons.IH [OF True]) (rule Cons.prems(2), simp)
    then show ?thesis by (simp only: step)
  next
    case False
    with Cons.prems p have "a = k" "b = v" "\<And>v'. (k, v') \<notin> set u" by auto
    then show ?thesis by (simp add: step tget_tmerge_notin)
  qed
qed simp

lemma section_simps:
  "as_obj (jget (build_signal_context frames bar ws) ''prices'') = tmerge [] (price_entries frames)"
  "as_obj (jget (build_signal_context frames bar ws) ''changes_pct'') =
     tmerge [] (change_entries bar (effective_windows ws) frames)"
  "as_obj (jget (build_signal_context frames bar ws) ''volume_ratios'') = tmerge [] (volume_entries bar frames)"
  by (simp_all add: build_signal_context_def jget_Cons as_obj_def)

lemma price_entries_iff:
  assumes "distinct (map fst frames)"
  shows "(s, v) \<in> set (price_entries frames) \<longleftrightarrow>
    (\<exists>f. tget frames s = Some f \<and> fr_rows f \<noteq> [] \<and> v = JFloat (PFin (cr_close (last (fr_rows f)))))"
proof -
  have "(s, v) \<in> set (price_entries frames) \<longleftrightarrow>
    (\<exists>f. (s, f) \<in> set frames \<and> fr_rows f \<noteq> [] \<and> v = JFloat (PFin (cr_close (last (fr_rows f)))))"
    unfolding price_entries_def by (force split: if_splits)
  then show ?thesis using assms by simp
qed

lemma change_entries_iff:
  assumes "distinct (map fst frames)"
  shows "(s @ '':'' @ show_int w, v) \<in> set (change_entries bar ws frames) \<longleftrightarrow>
    (\<exists>f c. tget frames s = Some f \<and> w \<in> set ws \<and> window_change (fr_rows f) (bar_seconds bar) w = Some c \<and>
       v = JFloat (PFin c))"
proof -
  have inj: "s @ '':'' @ show_int w = s' @ '':'' @ show_int w' \<longleftrightarrow> s = s' \<and> w = w'" for s' w'
    using no_colon_key [OF show_int_no_colon show_int_no_colon] show_int_inj by blast
  have "(s @ '':'' @ show_int w, v) \<in> set (change_entries bar ws frames) \<longleftrightarrow>
    (\<exists>f c. (s, f) \<in> set frames \<and> w \<in> set ws \<and> window_change (fr_rows f) (bar_seconds bar) w = Some c \<and>
       v = JFloat (PFin c))"
    unfolding change_entries_def
    by (force simp: inj [simplified] split: option.splits)
  then show ?thesis using assms by simp
qed

lemma volume_entries_iff:
  assumes "distinct (map fst frames)" "tf \<in> set supported_bars" "bar \<in> set supported_bars"
  shows "(s @ '':'' @ tf, v) \<in> set (volume_entries bar frames) \<longleftrightarrow>
    (\<exists>f r. tget frames s = Some f \<and> tf = bar \<and> volume_ratio f = Some r \<and> v = JFloat r)"
proof -
  have inj: "s @ '':'' @ tf = s' @ '':'' @ bar \<longleftrightarrow> s = s' \<and> tf = bar" for s'
    using no_colon_key [OF bars_no_colon bars_no_colon] assms(2,3) by blast
  have "(s @ '':'' @ tf, v) \<in> set (volume_entries bar frames) \<longleftrightarrow>
    (\<exists>f r. (s, f) \<in> set frames \<and> tf = bar \<and> volume_ratio f = Some r \<and> v = JFloat r)"
    unfolding volume_entries_def
    by (force simp: inj [simplified] split: option.splits)
  then show ?thesis using assms(1) by simp
qed

text \<open>Looking a key up in a section whose entries are known.\<close>

lemma lookup_entries:
  assumes "as_obj (jget context key) = tmerge [] es"
    and "\<And>v. (k, v) \<in> set es \<longleftrightarrow> (\<exists>r. x = Some r \<and> v = JFloat r)"
  shows "lookup_nested_float context key (JStr k) = x"
proof (cases x)
  case None
  with assms(2) have "tget (tmerge [] es) k = None" by (simp add: tget_tmerge_notin)
  with None assms(1) show ?thesis by (simp add: lookup_nested_float_def jget_def blank_def)
next
  case (Some r)
  with assms(2) have "tget (tmerge [] es) k = Some (JFloat r)" by (intro tget_tmerge_in) auto
  with Some assms(1) show ?thesis by (simp add: lookup_nested_float_def jget_def blank_def)
qed

lemma volume_ratio_cases: "volume_ratio f = Some r \<Longrightarrow> r = PNaN \<or> (\<exists>q. r = PFin q)"
  unfolding volume_ratio_def Let_def
  by (cases "cr_volume (last (fr_rows f))") (auto split: if_split_asm)

lemma build_represents:
  assumes ok: "frames_ok frames" and bar: "bar \<in> set supported_bars"
  shows "represents (build_signal_context frames bar ws) (candle_market frames bar ws)"
  unfolding represents_def
proof (intro conjI allI ballI)
  have d: "distinct (map fst frames)" using ok by (simp add: frames_ok_def)
  fix s w
  show "lookup_nested_float (build_signal_context frames bar ws) ''prices'' (JStr s) =
      map_option PFin (mk_price (candle_market frames bar ws) s)"
    by (rule lookup_entries [OF section_simps(1)])
      (auto simp: price_entries_iff [OF d] candle_market_def split: option.splits if_splits)
  show "lookup_nested_float (build_signal_context frames bar ws) ''changes_pct'' (JStr (s @ '':'' @ show_int w)) =
      map_option PFin (mk_change (candle_market frames bar ws) s w)"
    by (rule lookup_entries [OF section_simps(2)], unfold change_entries_iff [OF d])
      (auto simp: candle_market_def split: option.splits if_splits)
next
  have d: "distinct (map fst frames)" using ok by (simp add: frames_ok_def)
  fix s tf assume tf: "tf \<in> set supported_bars"
  have fin: "tget frames s = Some f \<Longrightarrow> volume_ratio f = Some r \<Longrightarrow> \<exists>q. r = PFin q" for f r
    using ok map_of_SomeD [of frames s f] volume_ratio_cases [of f r] unfolding frames_ok_def by blast
  have eq: "map_option PFin (mk_volume (candle_market frames bar ws) s tf) =
      (case tget frames s of None \<Rightarrow> None | Some f \<Rightarrow> if tf = bar then volume_ratio f else None)"
    using fin by (cases "tget frames s") (fastforce simp: candle_market_def split: option.splits)+
  show "lookup_nested_float (build_signal_context frames bar ws) ''volume_ratios'' (JStr (s @ '':'' @ tf)) =
      map_option PFin (mk_volume (candle_market frames bar ws) s tf)"
    unfolding eq
    by (rule lookup_entries [OF section_simps(3)], unfold volume_entries_iff [OF d tf bar])
      (auto split: option.splits if_splits)
qed

subsection \<open>Properties\<close>

lemma sig_evaluate_encode:
  assumes "wf_signal s" "represents context m"
  shows "\<exists>ev. sig_evaluate (JObj (encode s)) context =
    Inr \<lparr>se_matched = signal_sem m s, se_valid = True, se_errors = [], se_evidence = ev\<rparr>"
  using evaluate_encode [OF assms(2,1)] normalize_encode [OF assms(1)]
  by (auto simp: sig_evaluate_def sig_validate_def)

definition verdict_of :: "signal \<Rightarrow> jobj \<Rightarrow> bool result" where
  "verdict_of s context = bindE (sig_evaluate (JObj (encode s)) context) (\<lambda>e. Inr (se_matched e))"

lemma verdict_encode:
  "wf_signal s \<Longrightarrow> represents context m \<Longrightarrow> verdict_of s context = Inr (signal_sem m s)"
  using sig_evaluate_encode [of s "context" m] by (auto simp: verdict_of_def)

text \<open>C35: The evaluator implements the meaning of signals. For every well-formed signal, whatever
  its nesting, and every context that holds the data of a market, the JSON form of the signal
  validates without error, evaluation raises nothing, and it matches exactly when the signal
  holds in the market.\<close>

theorem sig_evaluate_implements_sem:
  assumes "wf_signal s" and "represents context m"
  shows "sig_validate (JObj (encode s)) = \<lparr>sv_valid = True, sv_errors = [], sv_normalized = encode s\<rparr> \<and>
    (\<exists>ev. sig_evaluate (JObj (encode s)) context =
      Inr \<lparr>se_matched = signal_sem m s, se_valid = True, se_errors = [], se_evidence = ev\<rparr>)"
  using normalize_encode [OF assms(1)] sig_evaluate_encode [OF assms]
  by (simp_all add: sig_validate_def)

definition sample_rows :: "candle_row list" where
  "sample_rows = [\<lparr>cr_close = 100, cr_volume = Some 10\<rparr>, \<lparr>cr_close = 98, cr_volume = Some 10\<rparr>,
     \<lparr>cr_close = 95, cr_volume = Some 30\<rparr>]"

definition sample_frames :: frames where
  "sample_frames = [(''BTC'', \<lparr>fr_rows = sample_rows, fr_volumes = True\<rparr>)]"

definition sample_signal :: signal where
  "sample_signal = AllOf [RapidDrop ''BTC'' 120 4, VolumeMultiple ''BTC'' ''1m'' 2, NoneOf (PriceBelow ''BTC'' 90)]"

lemma symbol_ok_BTC: "symbol_ok ''BTC''"
  unfolding symbol_ok_def by code_simp

lemma one_minute_supported: "''1m'' \<in> set supported_bars"
  by (simp add: supported_bars_def bar_table_def)

lemma sample_signal_wf: "wf_signal sample_signal"
  by (simp add: sample_signal_def symbol_ok_BTC one_minute_supported)

lemma sample_frames_ok: "frames_ok sample_frames"
  by (simp add: frames_ok_def sample_frames_def sample_rows_def volume_ratio_def known_volumes_def)

lemma sample_signal_holds: "signal_sem (candle_market sample_frames ''1m'' [120]) sample_signal"
  by code_simp

lemma sample_represented:
  "represents (build_signal_context sample_frames ''1m'' [120]) (candle_market sample_frames ''1m'' [120])"
  by (rule build_represents [OF sample_frames_ok one_minute_supported])

theorem sig_evaluate_implements_sem_witness:
  "\<exists>ev. sig_evaluate (JObj (encode sample_signal)) (build_signal_context sample_frames ''1m'' [120]) =
      Inr \<lparr>se_matched = True, se_valid = True, se_errors = [], se_evidence = ev\<rparr>"
  using sig_evaluate_implements_sem [OF sample_signal_wf sample_represented] sample_signal_holds by simp

text \<open>End to end from candles. The context built from the candle frames of the fetched
  symbols holds, for every symbol, its last close, its percentage change over each requested
  window (against the close that many bars earlier, if there are enough bars) and its volume
  ratio, each under its own key; so a signal evaluated on it gives the verdict its meaning has on
  that data.\<close>

theorem candle_context_verdict:
  assumes "wf_signal s" and "frames_ok frames" and "bar \<in> set supported_bars"
  shows "verdict_of s (build_signal_context frames bar windows) = Inr (signal_sem (candle_market frames bar windows) s)"
  by (rule verdict_encode [OF assms(1) build_represents [OF assms(2,3)]])

theorem candle_context_verdict_witness:
  "verdict_of sample_signal (build_signal_context sample_frames ''1m'' [120]) = Inr True"
  using candle_context_verdict [OF sample_signal_wf sample_frames_ok one_minute_supported] sample_signal_holds
  by simp

text \<open>Evaluation fails closed for signals without negation: taking market data away
  (feeds that are down, symbols not fetched, too few candles) never turns a signal that does
  not match into one that does.\<close>

theorem missing_data_never_matches:
  assumes "wf_signal s" and "negation_free s"
    and "represents context m" and "represents context' n" and "less_data m n"
    and "verdict_of s context = Inr True"
  shows "verdict_of s context' = Inr True"
  using assms verdict_encode sem_monotone [of m n s] by force

definition no_market :: market where
  "no_market = \<lparr>mk_price = (\<lambda>_. None), mk_change = (\<lambda>_ _. None), mk_volume = (\<lambda>_ _. None)\<rparr>"

definition price_market :: market where
  "price_market = candle_market sample_frames ''1m'' [600]"

lemma price_represented: "represents (build_signal_context sample_frames ''1m'' [600]) price_market"
  unfolding price_market_def by (rule build_represents [OF sample_frames_ok one_minute_supported])

lemma price_less_data: "less_data price_market (candle_market sample_frames ''1m'' [600, 120])"
  unfolding less_data_def price_market_def candle_market_def
  by (simp add: effective_windows_def split: option.splits)

definition drop_or_price :: signal where
  "drop_or_price = AnyOf [RapidDrop ''BTC'' 120 4, PriceAbove ''BTC'' 90]"

lemma drop_or_price_ok: "wf_signal drop_or_price" "negation_free drop_or_price"
  by (simp_all add: drop_or_price_def symbol_ok_BTC)

lemma drop_or_price_matches: "verdict_of drop_or_price (build_signal_context sample_frames ''1m'' [600]) = Inr True"
  using verdict_encode [OF drop_or_price_ok(1) price_represented]
  by (simp add: drop_or_price_def price_market_def candle_market_def known_def sample_frames_def sample_rows_def)

theorem missing_data_never_matches_witness:
  "verdict_of drop_or_price (build_signal_context sample_frames ''1m'' [600, 120]) = Inr True"
  by (rule missing_data_never_matches [OF drop_or_price_ok price_represented
        build_represents [OF sample_frames_ok one_minute_supported] price_less_data drop_or_price_matches])

text \<open>A negated condition does not fail closed: with no price for the symbol at all, the
  expression \<^verbatim>\<open>not price_below 90\<close> matches, because the missing price makes the inner
  condition false and \<^verbatim>\<open>not\<close> turns it round.\<close>

theorem negation_matches_without_data:
  "verdict_of (NoneOf (PriceBelow ''BTC'' 90)) [] = Inr True"
proof -
  have r: "represents [] no_market"
    by (simp add: represents_def no_market_def lookup_nested_float_def jget_def as_obj_def blank_def)
  show ?thesis using verdict_encode [of "NoneOf (PriceBelow ''BTC'' 90)", OF _ r]
    by (simp add: symbol_ok_BTC no_market_def known_def)
qed

text \<open>Validation accepts an infinite window, on which evaluation then raises
  \<^verbatim>\<open>OverflowError\<close> instead of returning a result (the runtime catches only
  \<^verbatim>\<open>KeyError\<close>, \<^verbatim>\<open>TypeError\<close> and \<^verbatim>\<open>ValueError\<close> while collecting requirements, so
  collection raises as well).\<close>

definition infinite_window :: json where
  "infinite_window = JObj [(''type'', JStr ''rapid_drop''), (''symbol'', JStr ''BTC''),
     (''window_seconds'', JStr ''inf''), (''change_pct'', JInt 3)]"

theorem infinite_window_raises:
  "sv_valid (sig_validate infinite_window) \<and>
   sig_evaluate infinite_window [] = Inl OverflowError \<and>
   collect_signal_requirements infinite_window = Inl OverflowError"
  by code_simp

text \<open>The requirements collected from a signal suffice. The collection raises nothing, and
  whenever the market data agrees on the collected symbols, windows and timeframes, the verdict
  is the same: fetching what was collected is enough, nothing else can influence the signal.\<close>

theorem requirements_suffice:
  assumes "wf_signal s"
  shows "\<exists>q. collect_signal_requirements (JObj (encode s)) = Inr q \<and>
    (\<forall>context context' m n. represents context m \<longrightarrow> represents context' n \<longrightarrow> agree q m n \<longrightarrow>
       verdict_of s context = verdict_of s context')"
proof -
  obtain q where q: "collect_requirements (JObj (encode s)) no_requirements = Inr q" "covers s q"
    using collect_encode [OF assms] by blast
  have "verdict_of s c = verdict_of s d" if "represents c m" "represents d n" "agree q m n" for c d m n
    using q(2) that(3) by (simp add: verdict_encode [OF assms that(1)] verdict_encode [OF assms that(2)] covers_def)
  with q(1) show ?thesis unfolding collect_signal_requirements_def by blast
qed

theorem requirements_suffice_witness:
  "\<exists>q. collect_signal_requirements (JObj (encode sample_signal)) = Inr q \<and>
    (\<forall>context context' m n. represents context m \<longrightarrow> represents context' n \<longrightarrow> agree q m n \<longrightarrow>
       verdict_of sample_signal context = verdict_of sample_signal context')"
  by (rule requirements_suffice [OF sample_signal_wf])

end
