(* ===== verification/TradeStore.thy ===== *)
theory TradeStore
  imports PyValue "HOL-Library.List_Lexorder" "HOL-Library.Char_ord" "HOL-Library.Product_Lexorder"
begin

section \<open>Trades and their exit rules\<close>

text \<open>
  \<^verbatim>\<open>src/trading/rules.py\<close>, the atomic exit rules and their groups, and
  \<^verbatim>\<open>src/trading/trade_store.py\<close>, the trades with the rule groups attached to them. The fields
  of a rule are dynamically typed, as the dataclass reads them from stored JSON. The store is two keyed
  tables; a rule row references a trade (the foreign key is enforced). The theory ends with the
  lifecycle of a trade as an order on stores that every operation but the raw upsert follows.
\<close>

subsection \<open>Exit rules\<close>

record position_rule =
  ru_id :: json
  ru_target :: json
  ru_metric :: json
  ru_operator :: json
  ru_value :: json

text \<open>\<^verbatim>\<open>d.get(key)\<close> on a dictionary with text keys: an unhashable key raises.\<close>

definition dict_get :: "(string, 'v) table \<Rightarrow> json \<Rightarrow> 'v option result" where
  "dict_get d key = (case key of JStr s \<Rightarrow> Inr (tget d s) | JList _ \<Rightarrow> Inl TypeError | JObj _ \<Rightarrow> Inl TypeError
     | _ \<Rightarrow> Inr None)"

definition rule_metric_value ::
  "position_rule \<Rightarrow> string \<Rightarrow> (string, pyfloat) table \<Rightarrow> (string, pyfloat) table \<Rightarrow> pyfloat option \<Rightarrow>
   pyfloat option result" where
  "rule_metric_value r self_inst_id prices velocities pnl_pct =
     (let target_inst = (if ru_target r = JStr ''self'' then JStr self_inst_id else ru_target r) in
      case ru_metric r of
        JStr metric \<Rightarrow>
          if metric = ''price'' then dict_get prices target_inst
          else if metric = ''pnl_pct'' then Inr pnl_pct
          else if py_startswith metric ''velocity_''
          then Inr (tget velocities (py_str target_inst @ '':'' @ metric))
          else Inr None
      | _ \<Rightarrow> Inl AttributeError)"

text \<open>Comparison of a float with a dynamically typed threshold.\<close>

definition compare_value :: "(pyfloat \<Rightarrow> pyfloat \<Rightarrow> bool) \<Rightarrow> pyfloat \<Rightarrow> json \<Rightarrow> bool result" where
  "compare_value rel x v = (case num_of v of None \<Rightarrow> Inl TypeError | Some y \<Rightarrow> Inr (rel x y))"

definition rule_evaluate ::
  "string \<Rightarrow> (string, pyfloat) table \<Rightarrow> (string, pyfloat) table \<Rightarrow> pyfloat option \<Rightarrow> position_rule \<Rightarrow> bool result" where
  "rule_evaluate self_inst_id prices velocities pnl_pct r =
     bindE (rule_metric_value r self_inst_id prices velocities pnl_pct) (\<lambda>current.
     case current of
       None \<Rightarrow> Inr False
     | Some x \<Rightarrow>
         if ru_operator r = JStr ''greater_than'' then compare_value (\<lambda>a b. fl_le b a) x (ru_value r)
         else if ru_operator r = JStr ''less_than'' then compare_value fl_le x (ru_value r)
         else Inr False)"

definition rule_to_dict :: "position_rule \<Rightarrow> jobj" where
  "rule_to_dict r = [(''id'', ru_id r), (''target'', ru_target r), (''metric'', ru_metric r),
     (''operator'', ru_operator r), (''value'', ru_value r)]"

definition dict_default :: "jobj \<Rightarrow> string \<Rightarrow> json \<Rightarrow> json" where
  "dict_default d k v = or_default (tget d k) v"

definition rule_from_dict :: "string \<Rightarrow> json \<Rightarrow> position_rule result" where
  "rule_from_dict fresh j = (case j of
     JObj d \<Rightarrow> Inr \<lparr>ru_id = dict_default d ''id'' (JStr fresh), ru_target = dict_default d ''target'' (JStr ''self''),
        ru_metric = dict_default d ''metric'' (JStr ''price''),
        ru_operator = dict_default d ''operator'' (JStr ''less_than''),
        ru_value = dict_default d ''value'' (JFloat (PFin 0))\<rparr>
   | _ \<Rightarrow> Inl AttributeError)"

record rule_group =
  rg_id :: string
  rg_name :: json
  rg_operator :: json
  rg_rules :: "position_rule list"
  rg_created_at :: json

definition group_evaluate ::
  "string \<Rightarrow> (string, pyfloat) table \<Rightarrow> (string, pyfloat) table \<Rightarrow> pyfloat option \<Rightarrow> rule_group \<Rightarrow> bool result" where
  "group_evaluate self_inst_id prices velocities pnl_pct g =
     (if rg_rules g = [] then Inr False
      else bindE (mapE (rule_evaluate self_inst_id prices velocities pnl_pct) (rg_rules g)) (\<lambda>results.
        Inr (if rg_operator g = JStr ''and'' then list_all id results else list_ex id results)))"

definition group_to_dict :: "rule_group \<Rightarrow> jobj" where
  "group_to_dict g = [(''id'', JStr (rg_id g)), (''name'', rg_name g), (''operator'', rg_operator g),
     (''rules'', JList (map (\<lambda>r. JObj (rule_to_dict r)) (rg_rules g))), (''created_at'', rg_created_at g)]"

text \<open>The elements a \<^verbatim>\<open>for\<close> loop sees of a dynamically typed value.\<close>

definition json_iter :: "json \<Rightarrow> json list result" where
  "json_iter j = (case j of JList xs \<Rightarrow> Inr xs | JStr s \<Rightarrow> Inr (map (\<lambda>c. JStr [c]) s)
     | JObj d \<Rightarrow> Inr (map (\<lambda>(k, _). JStr k) d) | _ \<Rightarrow> Inl TypeError)"

text \<open>\<^verbatim>\<open>RuleGroup.from_dict\<close> on the stored dictionary with the row's id put in.\<close>

definition group_from_dict :: "string \<Rightarrow> string \<Rightarrow> string \<Rightarrow> jobj \<Rightarrow> rule_group result" where
  "group_from_dict now fresh row_id d =
     bindE (json_iter (dict_default d ''rules'' (JList []))) (\<lambda>items.
     bindE (mapE (rule_from_dict fresh) items) (\<lambda>rules.
     Inr \<lparr>rg_id = row_id, rg_name = dict_default d ''name'' (JStr []), rg_operator = dict_default d ''operator'' (JStr ''and''),
       rg_rules = rules, rg_created_at = dict_default d ''created_at'' (JStr now)\<rparr>))"

subsection \<open>The store\<close>

record trade =
  t_id :: string
  t_strategy_id :: string
  t_inst_id :: string
  t_side :: string
  t_entry_price :: rat
  t_entry_time :: string
  t_exit_price :: "rat option"
  t_exit_time :: "string option"
  t_exit_reason :: string
  t_pnl :: "rat option"
  t_pnl_pct :: "rat option"
  t_status :: string
  t_signal_reason :: string
  t_btc_price_at_entry :: "rat option"
  t_btc_price_at_exit :: "rat option"
  t_metadata :: jcol

text \<open>The constructor fills in an identifier and the entry time.\<close>

definition new_trade :: "string \<Rightarrow> string \<Rightarrow> trade \<Rightarrow> trade" where
  "new_trade now fresh t = t\<lparr>t_id := (if t_id t = [] then fresh else t_id t),
     t_entry_time := (if t_entry_time t = [] then now else t_entry_time t)\<rparr>"

record rule_row =
  rr_trade_id :: string
  rr_group :: jobj
  rr_enabled :: bool

record trade_db =
  td_trades :: "(string, trade) table"
  td_rules :: "(string, rule_row) table"

type_synonym 'a trade_tx = "'a result \<times> trade_db"

text \<open>\<^verbatim>\<open>LIMIT n\<close>: a negative bound is no bound.\<close>

definition sql_limit :: "int \<Rightarrow> 'a list \<Rightarrow> 'a list" where
  "sql_limit n xs = (if n < 0 then xs else take (nat n) xs)"

definition put_trade :: "trade \<Rightarrow> trade_db \<Rightarrow> trade_db" where
  "put_trade t db = db\<lparr>td_trades := tset (t_id t) t (td_trades db)\<rparr>"

definition save_trade :: "trade \<Rightarrow> trade_db \<Rightarrow> string trade_tx" where
  "save_trade t db = (Inr (t_id t), put_trade t db)"

definition get_trade :: "trade_db \<Rightarrow> string \<Rightarrow> trade option" where
  "get_trade db tid = tget (td_trades db) tid"

definition get_open_trades :: "trade_db \<Rightarrow> trade list" where
  "get_open_trades db = sort_key t_entry_time (filter (\<lambda>t. t_status t = ''open'') (map snd (td_trades db)))"

definition mark_trade_open :: "string \<Rightarrow> rat \<Rightarrow> trade_db \<Rightarrow> trade option trade_tx" where
  "mark_trade_open tid entry_price db =
     (case get_trade db tid of
        None \<Rightarrow> (Inr None, db)
      | Some t \<Rightarrow>
          if t_status t \<notin> {''pending_open'', ''open''} then (Inr None, db)
          else (let t' = t\<lparr>t_status := ''open'', t_entry_price := entry_price\<rparr> in (Inr (Some t'), put_trade t' db)))"

definition mark_trade_failed :: "string \<Rightarrow> string \<Rightarrow> trade_db \<Rightarrow> trade option trade_tx" where
  "mark_trade_failed tid reason db =
     (case get_trade db tid of
        None \<Rightarrow> (Inr None, db)
      | Some t \<Rightarrow>
          if t_status t \<noteq> ''pending_open'' then (Inr None, db)
          else (let t' = t\<lparr>t_status := ''failed'', t_exit_reason := reason\<rparr> in (Inr (Some t'), put_trade t' db)))"

definition get_trade_history :: "trade_db \<Rightarrow> int \<Rightarrow> string \<Rightarrow> string \<Rightarrow> trade list" where
  "get_trade_history db limit strategy_id status =
     (let rows = filter (\<lambda>t. (strategy_id = [] \<or> t_strategy_id t = strategy_id) \<and>
            (status = [] \<or> t_status t = status)) (map snd (td_trades db))
      in sql_limit limit (rev (sort_key t_entry_time (rev rows))))"

text \<open>The confirmed result of a trade, when the caller has one: profit, percentage, evidence.\<close>

type_synonym realized = "(rat \<times> rat option \<times> jobj) option"

definition closing_pnl :: "trade \<Rightarrow> rat \<Rightarrow> realized \<Rightarrow> rat \<times> rat \<times> jobj" where
  "closing_pnl t exit_price realized =
     (case realized of
        None \<Rightarrow>
          (let pnl = (if t_side t = ''long'' then exit_price - t_entry_price t else t_entry_price t - exit_price) in
           (pnl, (if t_entry_price t \<noteq> 0 then pnl / t_entry_price t * 100 else 0),
            [(''status'', JStr ''legacy_price_delta''), (''reliable'', JBool False)]))
      | Some (pnl, pct, evidence) \<Rightarrow>
          (pnl, or_default pct 0,
           tmerge [(''status'', JStr ''confirmed_allocations''), (''reliable'', JBool True)] evidence))"

definition close_trade ::
  "string \<Rightarrow> string \<Rightarrow> rat \<Rightarrow> string \<Rightarrow> rat option \<Rightarrow> realized \<Rightarrow> trade_db \<Rightarrow> trade option trade_tx" where
  "close_trade now tid exit_price exit_reason btc_price realized db =
     (case get_trade db tid of
        None \<Rightarrow> (Inr None, db)
      | Some t \<Rightarrow>
          if t_status t \<noteq> ''open'' then (Inr None, db)
          else (let (pnl, pct, evidence) = closing_pnl t exit_price realized;
                    metadata = tset ''realized_pnl'' (JObj evidence) (col_obj (t_metadata t));
                    t' = t\<lparr>t_exit_price := Some exit_price, t_exit_time := Some now, t_exit_reason := exit_reason,
                           t_pnl := Some pnl, t_pnl_pct := Some pct, t_status := ''closed'',
                           t_metadata := dumps metadata, t_btc_price_at_exit := btc_price\<rparr> in
                (Inr (Some t'), (put_trade t' db)\<lparr>td_rules := filter (\<lambda>(_, r). rr_trade_id r \<noteq> tid) (td_rules db)\<rparr>)))"

text \<open>\<^verbatim>\<open>INSERT OR REPLACE\<close>: a replaced row moves to the end of the table.\<close>

definition attach_rule_group :: "string \<Rightarrow> rule_group \<Rightarrow> bool \<Rightarrow> trade_db \<Rightarrow> string trade_tx" where
  "attach_rule_group tid g enabled db =
     (if get_trade db tid = None then (Inl IntegrityError, db)
      else (Inr (rg_id g), db\<lparr>td_rules := tdel (rg_id g) (td_rules db) @
        [(rg_id g, \<lparr>rr_trade_id = tid, rr_group = group_to_dict g, rr_enabled = enabled\<rparr>)]\<rparr>))"

definition get_trade_rules :: "string \<Rightarrow> string \<Rightarrow> trade_db \<Rightarrow> string \<Rightarrow> (rule_group \<times> bool) list result" where
  "get_trade_rules now fresh db tid =
     mapE (\<lambda>(k, r). bindE (group_from_dict now fresh k (rr_group r)) (\<lambda>g. Inr (g, rr_enabled r)))
       (filter (\<lambda>(_, r). rr_trade_id r = tid) (td_rules db))"

definition remove_rule_group :: "string \<Rightarrow> trade_db \<Rightarrow> bool trade_tx" where
  "remove_rule_group gid db =
     (Inr (tget (td_rules db) gid \<noteq> None), db\<lparr>td_rules := tdel gid (td_rules db)\<rparr>)"

definition remove_trade_rule_group :: "string \<Rightarrow> string \<Rightarrow> trade_db \<Rightarrow> bool trade_tx" where
  "remove_trade_rule_group tid gid db =
     (case tget (td_rules db) gid of
        Some r \<Rightarrow> if rr_trade_id r = tid then (Inr True, db\<lparr>td_rules := tdel gid (td_rules db)\<rparr>) else (Inr False, db)
      | None \<Rightarrow> (Inr False, db))"

definition set_rule_group_enabled :: "string \<Rightarrow> bool \<Rightarrow> trade_db \<Rightarrow> bool trade_tx" where
  "set_rule_group_enabled gid enabled db =
     (case tget (td_rules db) gid of
        Some r \<Rightarrow> (Inr True, db\<lparr>td_rules := tset gid (r\<lparr>rr_enabled := enabled\<rparr>) (td_rules db)\<rparr>)
      | None \<Rightarrow> (Inr False, db))"

subsection \<open>Sequences of operations\<close>

datatype trade_op =
    SaveTrade trade
  | MarkOpen string rat
  | MarkFailed string string
  | CloseTrade string string rat string "rat option" realized
  | AttachRules string rule_group bool
  | RemoveRules string
  | RemoveTradeRules string string
  | EnableRules string bool

primrec trade_step :: "trade_op \<Rightarrow> trade_db \<Rightarrow> trade_db" where
  "trade_step (SaveTrade t) db = snd (save_trade t db)"
| "trade_step (MarkOpen tid p) db = snd (mark_trade_open tid p db)"
| "trade_step (MarkFailed tid r) db = snd (mark_trade_failed tid r db)"
| "trade_step (CloseTrade now tid p r b re) db = snd (close_trade now tid p r b re db)"
| "trade_step (AttachRules tid g e) db = snd (attach_rule_group tid g e db)"
| "trade_step (RemoveRules gid) db = snd (remove_rule_group gid db)"
| "trade_step (RemoveTradeRules tid gid) db = snd (remove_trade_rule_group tid gid db)"
| "trade_step (EnableRules gid e) db = snd (set_rule_group_enabled gid e db)"

subsection \<open>The invariant and the lifecycle\<close>

definition trades_ok :: "trade_db \<Rightarrow> bool" where
  "trades_ok db \<longleftrightarrow> distinct (map fst (td_trades db)) \<and> distinct (map fst (td_rules db)) \<and>
     (\<forall>(k, t)\<in>set (td_trades db). t_id t = k) \<and>
     (\<forall>(_, r)\<in>set (td_rules db). rr_trade_id r \<in> set (map fst (td_trades db)))"

text \<open>What may become of a trade: terminal trades never change, the others keep what identifies them and
  move from \<^verbatim>\<open>pending_open\<close> over \<^verbatim>\<open>open\<close> to \<^verbatim>\<open>closed\<close>, or from \<^verbatim>\<open>pending_open\<close> to
  \<^verbatim>\<open>failed\<close>.\<close>

definition next_statuses :: "string \<Rightarrow> string set" where
  "next_statuses s = (if s = ''pending_open'' then {''pending_open'', ''open'', ''failed'', ''closed''}
     else if s = ''open'' then {''open'', ''closed''} else {s})"

definition trade_moves :: "trade \<Rightarrow> trade \<Rightarrow> bool" where
  "trade_moves t u \<longleftrightarrow> t_status u \<in> next_statuses (t_status t) \<and>
     (t_status t \<notin> {''pending_open'', ''open''} \<longrightarrow> u = t) \<and>
     t_id u = t_id t \<and> t_strategy_id u = t_strategy_id t \<and> t_inst_id u = t_inst_id t \<and> t_side u = t_side t \<and>
     t_entry_time u = t_entry_time t \<and> t_signal_reason u = t_signal_reason t"

definition trade_le :: "trade_db \<Rightarrow> trade_db \<Rightarrow> bool" where
  "trade_le db db' \<longleftrightarrow> (\<forall>tid t. get_trade db tid = Some t \<longrightarrow> (\<exists>u. get_trade db' tid = Some u \<and> trade_moves t u))"

definition lifecycle_op :: "trade_op \<Rightarrow> bool" where
  "lifecycle_op x = (case x of SaveTrade _ \<Rightarrow> False | _ \<Rightarrow> True)"

lemma trade_moves_refl: "trade_moves t t"
  by (simp add: trade_moves_def next_statuses_def)

lemma trade_moves_trans:
  assumes "trade_moves t u" "trade_moves u v" shows "trade_moves t v"
proof -
  have "t_status v \<in> next_statuses (t_status t)"
    using assms unfolding trade_moves_def next_statuses_def by (auto split: if_splits)
  moreover have "v = t" if "t_status t \<notin> {''pending_open'', ''open''}"
    using assms that unfolding trade_moves_def by metis
  ultimately show ?thesis using assms unfolding trade_moves_def by metis
qed

lemma get_put_trade: "get_trade (put_trade t db) k = (if k = t_id t then Some t else get_trade db k)"
  by (simp add: get_trade_def put_trade_def)

lemma get_trade_id: "trades_ok db \<Longrightarrow> get_trade db k = Some t \<Longrightarrow> t_id t = k"
  unfolding trades_ok_def get_trade_def by (auto dest: map_of_SomeD)

lemma put_trade_ok:
  assumes ok: "trades_ok db" shows "trades_ok (put_trade t db)"
proof -
  have d: "distinct (map fst (td_trades db))" using ok by (simp add: trades_ok_def)
  have k: "set (map fst (tset (t_id t) t (td_trades db))) = insert (t_id t) (set (map fst (td_trades db)))"
    by (auto simp: keys_tset simp del: set_map)
  show ?thesis using ok distinct_tset [OF d]
    unfolding trades_ok_def put_trade_def by (simp add: set_tset [OF d] k del: set_map) (auto simp del: set_map)
qed

lemma rules_subset_ok:
  assumes "trades_ok db" "set t \<subseteq> set (td_rules db)" "distinct (map fst t)"
  shows "trades_ok (db\<lparr>td_rules := t\<rparr>)"
  using assms unfolding trades_ok_def by auto

lemma distinct_filter_keys: "distinct (map fst t) \<Longrightarrow> distinct (map fst (filter P t))"
  by (induction t) auto

lemma tdel_subset: "set (tdel k t) \<subseteq> set t" "distinct (map fst t) \<Longrightarrow> distinct (map fst (tdel k t))"
  "k \<notin> set (map fst (tdel k t))"
  by (auto simp: tdel_def intro: distinct_filter_keys)

lemma put_trade_le:
  assumes "trades_ok db" "get_trade db tid = Some t" "trade_moves t u"
  shows "trade_le db (put_trade u db)"
proof -
  have "t_id u = tid" using get_trade_id [OF assms(1,2)] assms(3) by (simp add: trade_moves_def)
  then show ?thesis using assms(2,3) by (simp add: trade_le_def get_put_trade trade_moves_refl)
qed

lemma rules_le: "trade_le db (db'\<lparr>td_rules := t\<rparr>) = trade_le db db'"
  by (simp add: trade_le_def get_trade_def)

lemma trade_le_refl: "trade_le db db"
  by (simp add: trade_le_def trade_moves_refl)

lemma close_trade_cases:
  obtains (kept) "snd (close_trade now tid p r b re db) = db" "fst (close_trade now tid p r b re db) = Inr None"
  | (closed) t pnl pct evidence where "get_trade db tid = Some t" "t_status t = ''open''"
      "closing_pnl t p re = (pnl, pct, evidence)"
      "snd (close_trade now tid p r b re db) =
        (put_trade (t\<lparr>t_exit_price := Some p, t_exit_time := Some now, t_exit_reason := r, t_pnl := Some pnl,
           t_pnl_pct := Some pct, t_status := ''closed'',
           t_metadata := dumps (tset ''realized_pnl'' (JObj evidence) (col_obj (t_metadata t))),
           t_btc_price_at_exit := b\<rparr>) db)\<lparr>td_rules := filter (\<lambda>(_, r). rr_trade_id r \<noteq> tid) (td_rules db)\<rparr>"
proof (cases "\<exists>t. get_trade db tid = Some t \<and> t_status t = ''open''")
  case True
  then obtain t where t: "get_trade db tid = Some t" "t_status t = ''open''" by (elim exE conjE)
  obtain pnl pct evidence where c: "closing_pnl t p re = (pnl, pct, evidence)" by (cases "closing_pnl t p re")
  show ?thesis by (rule closed [OF t c]) (simp add: close_trade_def t c Let_def)
next
  case False
  show ?thesis by (rule kept) (use False in \<open>auto simp: close_trade_def split: option.split\<close>)
qed

lemma trade_step_ok:
  assumes ok: "trades_ok db" shows "trades_ok (trade_step x db)"
proof (cases x)
  case (CloseTrade now tid p r b re)
  then show ?thesis
  proof (cases rule: close_trade_cases [of now tid p r b re db])
    case (closed t pnl pct evidence)
    let ?u = "t\<lparr>t_exit_price := Some p, t_exit_time := Some now, t_exit_reason := r, t_pnl := Some pnl,
           t_pnl_pct := Some pct, t_status := ''closed'',
           t_metadata := dumps (tset ''realized_pnl'' (JObj evidence) (col_obj (t_metadata t))), t_btc_price_at_exit := b\<rparr>"
    have "td_rules (put_trade ?u db) = td_rules db" by (simp add: put_trade_def)
    then have "trades_ok ((put_trade ?u db)\<lparr>td_rules := filter (\<lambda>(_, r). rr_trade_id r \<noteq> tid) (td_rules db)\<rparr>)"
      using ok by (intro rules_subset_ok [OF put_trade_ok [OF ok]]) (auto simp: trades_ok_def intro: distinct_filter_keys)
    then show ?thesis unfolding CloseTrade trade_step.simps closed(4) .
  qed (use ok CloseTrade in simp)
next
  case (AttachRules tid g e)
  let ?row = "(rg_id g, \<lparr>rr_trade_id = tid, rr_group = group_to_dict g, rr_enabled = e\<rparr>)"
  have "trades_ok (db\<lparr>td_rules := tdel (rg_id g) (td_rules db) @ [?row]\<rparr>)" if "tid \<in> set (map fst (td_trades db))"
    using ok that tdel_subset [where k = "rg_id g" and t = "td_rules db"] unfolding trades_ok_def by auto
  then show ?thesis using ok
    by (auto simp: AttachRules attach_rule_group_def get_trade_def map_of_eq_None_iff)
next
  case (EnableRules gid e)
  have "trades_ok (db\<lparr>td_rules := tset gid (r\<lparr>rr_enabled := e\<rparr>) (td_rules db)\<rparr>)" if "tget (td_rules db) gid = Some r" for r
  proof -
    have d: "distinct (map fst (td_rules db))" using ok by (simp add: trades_ok_def)
    have "(gid, r) \<in> set (td_rules db)" using that by (rule map_of_SomeD)
    with ok distinct_tset [OF d] show ?thesis unfolding trades_ok_def by (auto simp: set_tset [OF d])
  qed
  then show ?thesis using ok by (auto simp: EnableRules set_rule_group_enabled_def split: option.split)
next
  case (RemoveRules gid)
  then show ?thesis using ok tdel_subset [where k = gid and t = "td_rules db"]
    by (auto simp: remove_rule_group_def trades_ok_def intro!: rules_subset_ok)
next
  case (RemoveTradeRules tid gid)
  have "trades_ok (db\<lparr>td_rules := tdel gid (td_rules db)\<rparr>)"
    using ok tdel_subset [where k = gid and t = "td_rules db"] by (intro rules_subset_ok) (auto simp: trades_ok_def)
  then show ?thesis using ok by (auto simp: RemoveTradeRules remove_trade_rule_group_def split: option.split)
qed (use ok put_trade_ok [OF ok] in
    \<open>auto simp: save_trade_def mark_trade_open_def mark_trade_failed_def Let_def split: option.split\<close>)

lemma trade_step_le:
  assumes ok: "trades_ok db" and a: "lifecycle_op x" shows "trade_le db (trade_step x db)"
proof (cases x)
  case (SaveTrade t)
  with a show ?thesis by (simp add: lifecycle_op_def)
next
  case (MarkOpen tid p)
  have "trade_moves t (t\<lparr>t_status := ''open'', t_entry_price := p\<rparr>)" if "t_status t \<in> {''pending_open'', ''open''}" for t
    using that by (auto simp: trade_moves_def next_statuses_def)
  then show ?thesis unfolding MarkOpen trade_step.simps mark_trade_open_def Let_def
    by (simp add: trade_le_refl put_trade_le [OF ok] split: option.split)
next
  case (MarkFailed tid r)
  have "trade_moves t (t\<lparr>t_status := ''failed'', t_exit_reason := r\<rparr>)" if "t_status t = ''pending_open''" for t
    using that by (simp add: trade_moves_def next_statuses_def)
  then show ?thesis unfolding MarkFailed trade_step.simps mark_trade_failed_def Let_def
    by (simp add: trade_le_refl put_trade_le [OF ok] split: option.split)
next
  case (CloseTrade now tid p r b re)
  then show ?thesis
  proof (cases rule: close_trade_cases [of now tid p r b re db])
    case (closed t pnl pct evidence)
    show ?thesis unfolding CloseTrade trade_step.simps closed(4) rules_le
      by (rule put_trade_le [OF ok closed(1)]) (simp add: trade_moves_def next_statuses_def closed(2))
  qed (simp add: CloseTrade trade_le_refl)
qed (auto simp: attach_rule_group_def remove_rule_group_def remove_trade_rule_group_def set_rule_group_enabled_def
    trade_le_refl rules_le split: option.split)

text \<open>One operation takes a trade along at most one edge of the state machine.\<close>

definition lifecycle_edges :: "(string \<times> string) set" where
  "lifecycle_edges = {(''pending_open'', ''open''), (''pending_open'', ''failed''), (''open'', ''open''), (''open'', ''closed'')}"

definition lifecycle_edge :: "trade \<Rightarrow> trade \<Rightarrow> bool" where
  "lifecycle_edge t u \<longleftrightarrow> u = t \<or> (t_status t, t_status u) \<in> lifecycle_edges \<and>
     t_id u = t_id t \<and> t_strategy_id u = t_strategy_id t \<and> t_inst_id u = t_inst_id t \<and> t_side u = t_side t \<and>
     t_entry_time u = t_entry_time t \<and> t_signal_reason u = t_signal_reason t"

lemma put_trade_edge:
  assumes "trades_ok db" "get_trade db k = Some t0" "get_trade db tid = Some u" "lifecycle_edge t0 t1" "t_id t1 = t_id t0"
  shows "\<exists>v. get_trade (put_trade t1 db) tid = Some v \<and> lifecycle_edge u v"
  using assms get_trade_id [OF assms(1,2)] by (cases "tid = k") (auto simp: get_put_trade lifecycle_edge_def)

lemma get_trade_rules_irrelevant [simp]: "get_trade (db\<lparr>td_rules := rs\<rparr>) tid = get_trade db tid"
  by (simp add: get_trade_def)

lemma edge_refl: "lifecycle_edge t t"
  by (simp add: lifecycle_edge_def)

lemma trade_step_edge:
  assumes ok: "trades_ok db" and a: "lifecycle_op x" and u: "get_trade db tid = Some u"
  shows "\<exists>v. get_trade (trade_step x db) tid = Some v \<and> lifecycle_edge u v"
proof (cases x)
  case (SaveTrade t)
  with a show ?thesis by (simp add: lifecycle_op_def)
next
  case (MarkOpen k p)
  have "lifecycle_edge t (t\<lparr>t_status := ''open'', t_entry_price := p\<rparr>)" if "t_status t \<in> {''pending_open'', ''open''}" for t
    using that by (auto simp: lifecycle_edge_def lifecycle_edges_def)
  then show ?thesis unfolding MarkOpen trade_step.simps mark_trade_open_def Let_def
    using put_trade_edge [OF ok _ u] u by (auto simp: edge_refl split: option.split)
next
  case (MarkFailed k r)
  have "lifecycle_edge t (t\<lparr>t_status := ''failed'', t_exit_reason := r\<rparr>)" if "t_status t = ''pending_open''" for t
    using that by (simp add: lifecycle_edge_def lifecycle_edges_def)
  then show ?thesis unfolding MarkFailed trade_step.simps mark_trade_failed_def Let_def
    using put_trade_edge [OF ok _ u] u by (auto simp: edge_refl split: option.split)
next
  case (CloseTrade now k p r b re)
  then show ?thesis
  proof (cases rule: close_trade_cases [of now k p r b re db])
    case (closed t pnl pct evidence)
    show ?thesis unfolding CloseTrade trade_step.simps closed(4) get_trade_rules_irrelevant
      by (rule put_trade_edge [OF ok closed(1) u]) (simp_all add: lifecycle_edge_def lifecycle_edges_def closed(2))
  qed (use u in \<open>simp add: CloseTrade edge_refl\<close>)
qed (use u in \<open>auto simp: attach_rule_group_def remove_rule_group_def remove_trade_rule_group_def set_rule_group_enabled_def
    edge_refl split: option.split\<close>)

interpretation trade_lifecycle: forward_steps trade_step lifecycle_op trades_ok trade_le
proof
  show "trade_le s u" if "trade_le s t" "trade_le t u" for s t u
    using that unfolding trade_le_def by (meson trade_moves_trans)
qed (auto simp: trade_step_ok trade_step_le trade_le_refl)

interpretation trade_store: kept_by_steps trade_step "\<lambda>_. True" trades_ok
  by unfold_locales (rule trade_step_ok)

subsection \<open>Rule groups survive the database\<close>

lemma rule_round_trip: "rule_from_dict fresh (JObj (rule_to_dict r)) = Inr r"
  by (simp add: rule_from_dict_def rule_to_dict_def dict_default_def)

lemma group_round_trip: "group_from_dict now fresh (rg_id g) (group_to_dict g) = Inr g"
proof -
  have "mapE (rule_from_dict fresh) (map (\<lambda>r. JObj (rule_to_dict r)) (rg_rules g)) = Inr (rg_rules g)"
    by (simp add: mapE_Inr list_all2_conv_all_nth rule_round_trip)
  then show ?thesis by (simp add: group_from_dict_def group_to_dict_def dict_default_def json_iter_def)
qed

lemma mapE_append: "mapE f (xs @ ys) = bindE (mapE f xs) (\<lambda>us. bindE (mapE f ys) (\<lambda>vs. Inr (us @ vs)))"
  by (induction xs) (simp_all add: bindE_def split: sum.splits)

lemma mapE_filter:
  assumes "mapE f xs = Inr ys" and "\<And>x y. x \<in> set xs \<Longrightarrow> f x = Inr y \<Longrightarrow> Q y = P x"
  shows "mapE f (filter P xs) = Inr (filter Q ys)"
  using assms
proof (induction xs arbitrary: ys)
  case (Cons x xs)
  from Cons.prems(1) obtain y zs where y: "f x = Inr y" "mapE f xs = Inr zs" "ys = y # zs"
    by (auto simp: bindE_eq_Inr)
  from Cons.IH [OF y(2)] Cons.prems(2) have "mapE f (filter P xs) = Inr (filter Q zs)" by simp
  moreover have "Q y = P x" using Cons.prems(2) y(1) by simp
  ultimately show ?case using y by simp
qed simp

lemma group_from_dict_id: "group_from_dict now fresh k d = Inr h \<Longrightarrow> rg_id h = k"
  by (auto simp: group_from_dict_def bindE_eq_Inr)

lemma attached_rules:
  assumes t: "get_trade db tid \<noteq> None" and r: "get_trade_rules now fresh db tid = Inr gs"
  shows "get_trade_rules now fresh (snd (attach_rule_group tid g e db)) tid =
    Inr (filter (\<lambda>(h, _). rg_id h \<noteq> rg_id g) gs @ [(g, e)])"
proof -
  let ?f = "\<lambda>(k, r). bindE (group_from_dict now fresh k (rr_group r)) (\<lambda>h. Inr (h, rr_enabled r))"
  let ?row = "(rg_id g, \<lparr>rr_trade_id = tid, rr_group = group_to_dict g, rr_enabled = e\<rparr>)"
  have rows: "filter (\<lambda>(_, r). rr_trade_id r = tid) (td_rules (snd (attach_rule_group tid g e db))) =
      filter (\<lambda>(k, _). k \<noteq> rg_id g) (filter (\<lambda>(_, r). rr_trade_id r = tid) (td_rules db)) @ [?row]"
    using t by (auto simp: attach_rule_group_def tdel_def split_beta intro!: filter_cong)
  have "mapE ?f (filter (\<lambda>(k, _). k \<noteq> rg_id g) (filter (\<lambda>(_, r). rr_trade_id r = tid) (td_rules db))) =
      Inr (filter (\<lambda>(h, _). rg_id h \<noteq> rg_id g) gs)"
  proof (rule mapE_filter)
    show "mapE ?f (filter (\<lambda>(_, r). rr_trade_id r = tid) (td_rules db)) = Inr gs"
      using r by (simp add: get_trade_rules_def)
    show "(case y of (h, _) \<Rightarrow> rg_id h \<noteq> rg_id g) = (case x of (k, _) \<Rightarrow> k \<noteq> rg_id g)" if "?f x = Inr y" for x y
      using that by (auto simp: bindE_eq_Inr split_beta dest: group_from_dict_id)
  qed
  then show ?thesis unfolding get_trade_rules_def rows mapE_append by (simp add: group_round_trip)
qed

subsection \<open>Properties\<close>

text \<open>C27: The lifecycle of a trade is a state machine. In a run of lifecycle operations every single operation
  keeps every trade and what identifies it, and leaves its row alone or takes it along one edge:
  from \<^verbatim>\<open>pending_open\<close> to \<^verbatim>\<open>open\<close> or \<^verbatim>\<open>failed\<close>, from \<^verbatim>\<open>open\<close> to \<^verbatim>\<open>closed\<close>, or from \<^verbatim>\<open>open\<close> to \<^verbatim>\<open>open\<close> with a
  new entry price. So no trade is closed without having been open, and the row of a closed or failed
  trade, with its result, never changes again.\<close>

theorem trade_lifecycle_forward:
  assumes "trades_ok db" and "list_all lifecycle_op ops" and "get_trade db tid = Some t" and "n < length ops"
  shows "\<exists>u v. get_trade (run_steps trade_step (take n ops) db) tid = Some u \<and>
    get_trade (run_steps trade_step (take (Suc n) ops) db) tid = Some v \<and> lifecycle_edge u v"
proof -
  let ?db = "run_steps trade_step (take n ops) db"
  have l: "list_all lifecycle_op (take n ops)" "lifecycle_op (ops ! n)"
    using assms(2,4) by (auto simp: list_all_iff dest: in_set_takeD)
  obtain u where u: "get_trade ?db tid = Some u"
    using trade_lifecycle.run_forward [OF assms(1) l(1)] assms(3) by (auto simp: trade_le_def)
  have "run_steps trade_step (take (Suc n) ops) db = trade_step (ops ! n) ?db"
    using assms(4) by (simp add: take_Suc_conv_app_nth run_steps_def)
  then show ?thesis using trade_step_edge [OF trade_lifecycle.run_keeps [OF assms(1) l(1)] l(2) u] u by auto
qed

definition sample_trade :: trade where
  "sample_trade = \<lparr>t_id = ''t1'', t_strategy_id = ''s1'', t_inst_id = ''BTC-USDT-SWAP'', t_side = ''long'', t_entry_price = 0,
     t_entry_time = ''2026-01-01'', t_exit_price = None, t_exit_time = None, t_exit_reason = [], t_pnl = None, t_pnl_pct = None,
     t_status = ''pending_open'', t_signal_reason = [], t_btc_price_at_entry = None, t_btc_price_at_exit = None,
     t_metadata = dumps []\<rparr>"

definition sample_db :: trade_db where
  "sample_db = \<lparr>td_trades = [(''t1'', sample_trade)], td_rules = []\<rparr>"

definition sample_trade_ops :: "trade_op list" where
  "sample_trade_ops = [MarkOpen ''t1'' 100, CloseTrade ''t9'' ''t1'' 110 ''target'' None None, MarkOpen ''t1'' 90,
     CloseTrade ''t10'' ''t1'' 50 ''again'' None None]"

theorem trade_lifecycle_forward_witness:
  "\<exists>u v. get_trade (run_steps trade_step (take 1 sample_trade_ops) sample_db) ''t1'' = Some u \<and> t_status u = ''open'' \<and>
     get_trade (run_steps trade_step (take 2 sample_trade_ops) sample_db) ''t1'' = Some v \<and> t_status v = ''closed'' \<and> lifecycle_edge u v"
proof -
  have "trades_ok sample_db" by (simp add: trades_ok_def sample_db_def sample_trade_def)
  moreover have "list_all lifecycle_op sample_trade_ops" by (simp add: sample_trade_ops_def lifecycle_op_def)
  moreover have "get_trade sample_db ''t1'' = Some sample_trade" by (simp add: get_trade_def sample_db_def)
  moreover have "1 < length sample_trade_ops" by (simp add: sample_trade_ops_def)
  ultimately obtain u v where u: "get_trade (run_steps trade_step (take 1 sample_trade_ops) sample_db) ''t1'' = Some u"
      "get_trade (run_steps trade_step (take (Suc 1) sample_trade_ops) sample_db) ''t1'' = Some v" "lifecycle_edge u v"
    using trade_lifecycle_forward by blast
  have "(case get_trade (run_steps trade_step (take 1 sample_trade_ops) sample_db) ''t1'' of None \<Rightarrow> False | Some u \<Rightarrow> t_status u = ''open'')"
    "(case get_trade (run_steps trade_step (take 2 sample_trade_ops) sample_db) ''t1'' of None \<Rightarrow> False | Some u \<Rightarrow> t_status u = ''closed'')"
    by code_simp+
  with u show ?thesis by (simp add: numeral_2_eq_2)
qed

text \<open>A rule group attached to a trade is read back exactly as it was, with its enabled flag, after
  the other groups of the trade; an older group of the same id is replaced.\<close>

theorem attached_rules_read_back:
  assumes "get_trade db tid \<noteq> None" and "get_trade_rules now fresh db tid = Inr gs"
  shows "get_trade_rules now fresh (snd (attach_rule_group tid g e db)) tid =
    Inr (filter (\<lambda>(h, _). rg_id h \<noteq> rg_id g) gs @ [(g, e)])"
  by (rule attached_rules [OF assms])

definition stop_group :: rule_group where
  "stop_group = \<lparr>rg_id = ''g1'', rg_name = JStr ''stop'', rg_operator = JStr ''and'',
     rg_rules = [\<lparr>ru_id = JStr ''r1'', ru_target = JStr ''self'', ru_metric = JStr ''price'', ru_operator = JStr ''less_than'',
       ru_value = JFloat (PFin 95)\<rparr>], rg_created_at = JStr ''2026-01-01''\<rparr>"

theorem attached_rules_read_back_witness:
  "get_trade_rules ''t'' ''f'' (snd (attach_rule_group ''t1'' stop_group True sample_db)) ''t1'' = Inr [(stop_group, True)] \<and>
   group_evaluate ''BTC-USDT-SWAP'' [(''BTC-USDT-SWAP'', PFin 94)] [] None stop_group = Inr True"
proof -
  have "get_trade_rules ''t'' ''f'' sample_db ''t1'' = Inr []" by (simp add: get_trade_rules_def sample_db_def)
  moreover have "get_trade sample_db ''t1'' \<noteq> None" by (simp add: get_trade_def sample_db_def)
  moreover have "group_evaluate ''BTC-USDT-SWAP'' [(''BTC-USDT-SWAP'', PFin 94)] [] None stop_group = Inr True"
    by code_simp
  ultimately show ?thesis using attached_rules_read_back [of sample_db "''t1''" "''t''" "''f''" "[]"] by simp
qed

end
