(* ===== verification/AuditEventStore.thy ===== *)
theory AuditEventStore
  imports TradeStore
begin

section \<open>The audit event store\<close>

text \<open>
  \<^verbatim>\<open>src/trading/audit_event_store.py\<close>: durable events, the delivery cursors and
  acknowledgements of their consumers, the health of the delivery channels and the quarantine of
  rejected fills. Timestamps of events are the text that is stored and compared; the instants of the
  channel health are exact seconds, \<open>None\<close> for the empty text. The digest
  \<^verbatim>\<open>sha256(...).hexdigest()\<close> is the argument \<open>sha\<close>, and the clock and fresh identifiers
  are arguments too.
\<close>

subsection \<open>Data\<close>

record audit_event =
  ae_id :: string
  ae_type :: string
  ae_source :: string
  ae_strategy_id :: string
  ae_correlation_id :: string
  ae_position_id :: string
  ae_trade_id :: string
  ae_payload :: jcol
  ae_created_at :: string

definition event_payload :: "audit_event \<Rightarrow> jobj" where
  "event_payload e = col_obj (ae_payload e)"

record quarantine_row =
  qr_bill_id :: string
  qr_fill_id :: string
  qr_category :: string
  qr_error :: string
  qr_payload :: jcol
  qr_disposition :: string
  qr_occurrences :: int
  qr_first_seen_at :: string
  qr_last_seen_at :: string

record channel_health =
  ch_last_event_id :: string
  ch_last_attempt_at :: "rat option"
  ch_last_success_at :: "rat option"
  ch_last_failure_at :: "rat option"
  ch_last_error :: string
  ch_consecutive_failures :: int
  ch_next_retry_at :: "rat option"

record delivery_cursor =
  dc_created_at :: string
  dc_event_id :: string
  dc_updated_at :: string

record audit_db =
  ad_events :: "(string, audit_event) table"
  ad_cursors :: "(string, delivery_cursor) table"
  ad_acks :: "(string \<times> string \<times> string, string) table"
  ad_health :: "(string \<times> string, channel_health) table"
  ad_quarantine :: "(string \<times> string, quarantine_row) table"

type_synonym 'a audit_tx = "'a result \<times> audit_db"

record runtime_event =
  rt_type :: string
  rt_source :: string
  rt_payload :: jobj
  rt_id :: string
  rt_created_at :: string

subsection \<open>Events\<close>

definition save_event :: "audit_event \<Rightarrow> audit_db \<Rightarrow> audit_db" where
  "save_event e db = db\<lparr>ad_events := tset (ae_id e) e (ad_events db)\<rparr>"

definition new_event ::
  "string \<Rightarrow> string \<Rightarrow> string \<Rightarrow> string \<Rightarrow> jobj \<Rightarrow> string \<Rightarrow> string \<Rightarrow> audit_event" where
  "new_event now fresh type source payload eid created_at =
     \<lparr>ae_id = (if eid = [] then fresh else eid), ae_type = type, ae_source = source,
      ae_strategy_id = text_of (jget payload ''strategy_id''),
      ae_correlation_id = text_of (jget payload ''correlation_id''),
      ae_position_id = text_of (jget payload ''position_id''), ae_trade_id = text_of (jget payload ''trade_id''),
      ae_payload = dumps payload, ae_created_at = (if created_at = [] then now else created_at)\<rparr>"

definition create_event ::
  "string \<Rightarrow> string \<Rightarrow> string \<Rightarrow> string \<Rightarrow> jobj \<Rightarrow> string \<Rightarrow> string \<Rightarrow> audit_db \<Rightarrow> audit_event \<times> audit_db" where
  "create_event now fresh type source payload eid created_at db =
     (let e = new_event now fresh type source payload eid created_at in (e, save_event e db))"

definition from_runtime_event :: "runtime_event \<Rightarrow> audit_event" where
  "from_runtime_event e = new_event [] [] (rt_type e) (rt_source e) (rt_payload e) (rt_id e) (rt_created_at e)"

definition save_runtime_event :: "runtime_event \<Rightarrow> audit_db \<Rightarrow> string \<times> audit_db" where
  "save_runtime_event e db = (rt_id e, save_event (from_runtime_event e) db)"

text \<open>An absent filter is the empty text. \<^verbatim>\<open>ORDER BY created_at DESC\<close>.\<close>

definition newest_first :: "audit_event list \<Rightarrow> audit_event list" where
  "newest_first es = rev (sort_key ae_created_at (rev es))"

definition list_events ::
  "audit_db \<Rightarrow> int \<Rightarrow> string \<Rightarrow> string \<Rightarrow> string \<Rightarrow> string \<Rightarrow> string \<Rightarrow> string \<Rightarrow> string \<Rightarrow> audit_event list" where
  "list_events db limit event_type source strategy_id correlation_id position_id trade_id before =
     (let rows = filter (\<lambda>e. (event_type = [] \<or> ae_type e = event_type) \<and> (source = [] \<or> ae_source e = source) \<and>
            (strategy_id = [] \<or> ae_strategy_id e = strategy_id) \<and>
            (correlation_id = [] \<or> ae_correlation_id e = correlation_id) \<and>
            (position_id = [] \<or> ae_position_id e = position_id) \<and> (trade_id = [] \<or> ae_trade_id e = trade_id) \<and>
            (before = [] \<or> ae_created_at e < before)) (map snd (ad_events db))
      in sql_limit limit (newest_first rows))"

text \<open>\<^verbatim>\<open>json_extract(...) = int(flag)\<close>: JSON booleans are the integers 0 and 1 in SQL.\<close>

definition extracted_is :: "jobj \<Rightarrow> string \<Rightarrow> json \<Rightarrow> bool" where
  "extracted_is payload key v = (case tget payload key of None \<Rightarrow> False
     | Some x \<Rightarrow> (case (num_of x, num_of v) of (Some a, Some b) \<Rightarrow> fl_eq a b | _ \<Rightarrow> is_str x \<and> x = v))"

definition list_strategy_decisions ::
  "audit_db \<Rightarrow> string \<Rightarrow> int \<Rightarrow> bool option \<Rightarrow> string \<Rightarrow> string \<Rightarrow> audit_event list" where
  "list_strategy_decisions db strategy_id limit allowed execution_status before =
     (let rows = filter (\<lambda>e. ae_type e = ''strategy.action_decision'' \<and> ae_strategy_id e = strategy_id \<and>
            (case allowed of None \<Rightarrow> True | Some b \<Rightarrow> extracted_is (event_payload e) ''allowed'' (JBool b)) \<and>
            (execution_status = [] \<or> extracted_is (event_payload e) ''execution_status'' (JStr execution_status)) \<and>
            (before = [] \<or> ae_created_at e < before)) (map snd (ad_events db))
      in sql_limit limit (newest_first rows))"

subsection \<open>Rejected fills\<close>

definition fill_error_signature :: "(string \<Rightarrow> string) \<Rightarrow> string \<Rightarrow> string \<Rightarrow> string" where
  "fill_error_signature sha category error = sha (category @ [CHR 0x00] @ py_strip error)"

definition first_text :: "string list \<Rightarrow> string" where
  "first_text xs = (case dropWhile (\<lambda>s. s = []) xs of [] \<Rightarrow> [] | s # _ \<Rightarrow> s)"

definition new_quarantine_row ::
  "string \<Rightarrow> string \<Rightarrow> string \<Rightarrow> string \<Rightarrow> string \<Rightarrow> jcol \<Rightarrow> quarantine_row" where
  "new_quarantine_row seen_at bill_id fill_id category error payload =
     \<lparr>qr_bill_id = bill_id, qr_fill_id = fill_id, qr_category = category, qr_error = error, qr_payload = payload,
      qr_disposition = ''quarantined'', qr_occurrences = 1, qr_first_seen_at = seen_at, qr_last_seen_at = seen_at\<rparr>"

definition rejection_key :: "(string \<Rightarrow> string) \<Rightarrow> jobj \<Rightarrow> string \<Rightarrow> string \<Rightarrow> string \<times> string" where
  "rejection_key sha raw_fill error category =
     (first_text [text_of (jget raw_fill ''billId''), text_of (py_or (jget raw_fill ''tradeId'') (jget raw_fill ''fillId'')), ''unknown''],
      fill_error_signature sha category error)"

definition rejection_event_id :: "string \<times> string \<Rightarrow> string" where
  "rejection_event_id k = ''fill-rejection:'' @ fst k @ '':'' @ take 16 (snd k)"

definition quarantine_fill_rejection ::
  "(string \<Rightarrow> string) \<Rightarrow> string \<Rightarrow> jobj \<Rightarrow> string \<Rightarrow> string \<Rightarrow> string \<Rightarrow> audit_db \<Rightarrow> (quarantine_row \<times> bool) \<times> audit_db" where
  "quarantine_fill_rejection sha now raw_fill error category source db =
     (let key = rejection_key sha raw_fill error category;
          bill_id = text_of (jget raw_fill ''billId'');
          fill_id = text_of (py_or (jget raw_fill ''tradeId'') (jget raw_fill ''fillId''));
          normalized_error = py_strip error in
      case tget (ad_quarantine db) key of
        None \<Rightarrow>
          (let row = new_quarantine_row now bill_id fill_id category normalized_error (dumps raw_fill);
               payload = [(''category'', JStr category), (''bill_id'', JStr bill_id), (''fill_id'', JStr fill_id),
                 (''exchange_order_id'', JStr (text_of (jget raw_fill ''ordId''))),
                 (''instrument_id'', JStr (text_of (jget raw_fill ''instId''))), (''error'', JStr normalized_error),
                 (''error_signature'', JStr (snd key)), (''disposition'', JStr ''quarantined'')];
               e = new_event now [] ''execution.fill_rejected'' source payload (rejection_event_id key) now in
           ((row, True), save_event e (db\<lparr>ad_quarantine := tset key row (ad_quarantine db)\<rparr>)))
      | Some row \<Rightarrow>
          (let row' = row\<lparr>qr_occurrences := qr_occurrences row + 1, qr_last_seen_at := now\<rparr> in
           ((row', False), db\<lparr>ad_quarantine := tset key row' (ad_quarantine db)\<rparr>)))"

text \<open>\<^verbatim>\<open>ORDER BY last_seen_at DESC, reference_id\<close>\<close>

definition list_fill_quarantine :: "audit_db \<Rightarrow> ((string \<times> string) \<times> quarantine_row) list" where
  "list_fill_quarantine db =
     rev (sort_key (\<lambda>(_, r). qr_last_seen_at r) (rev (sort_key (\<lambda>(k, _). fst k) (ad_quarantine db))))"

text \<open>Version 5 of the schema fills the quarantine from the rejection events already stored.\<close>

definition migrate_rejection :: "(string \<Rightarrow> string) \<Rightarrow> audit_event \<Rightarrow> audit_db \<Rightarrow> audit_db" where
  "migrate_rejection sha e db =
     (case json_loads (ae_payload e) (JObj []) of
        JObj payload \<Rightarrow>
          (let bill_id = text_of (jget payload ''bill_id''); fill_id = text_of (jget payload ''fill_id'');
               category = py_str (py_or (jget payload ''category'') (JStr ''rejected''));
               error = py_strip (text_of (jget payload ''error''));
               key = (first_text [bill_id, fill_id, ''unknown''], fill_error_signature sha category error) in
           if tget (ad_quarantine db) key \<noteq> None then db
           else db\<lparr>ad_quarantine := tset key (new_quarantine_row (ae_created_at e) bill_id fill_id category error (ae_payload e))
                    (ad_quarantine db)\<rparr>)
      | _ \<Rightarrow> db)"

definition audit_migrate_v5 :: "(string \<Rightarrow> string) \<Rightarrow> audit_db \<Rightarrow> audit_db" where
  "audit_migrate_v5 sha db =
     fold (migrate_rejection sha) (filter (\<lambda>e. ae_type e = ''execution.fill_rejected'') (map snd (ad_events db))) db"

subsection \<open>Delivery to consumers\<close>

definition event_key :: "audit_event \<Rightarrow> string \<times> string" where
  "event_key e = (ae_created_at e, ae_id e)"

definition after_cursor :: "delivery_cursor option \<Rightarrow> audit_event \<Rightarrow> bool" where
  "after_cursor c e = (case c of None \<Rightarrow> True
     | Some k \<Rightarrow> dc_created_at k < ae_created_at e \<or> ae_created_at e = dc_created_at k \<and> dc_event_id k < ae_id e)"

definition pending_events :: "audit_db \<Rightarrow> string \<Rightarrow> audit_event list" where
  "pending_events db consumer =
     sort_key event_key (filter (after_cursor (tget (ad_cursors db) consumer)) (map snd (ad_events db)))"

definition initialize_delivery_cursor ::
  "string \<Rightarrow> string \<Rightarrow> audit_db \<Rightarrow> (string \<times> string) option \<times> audit_db" where
  "initialize_delivery_cursor now consumer db =
     (case tget (ad_cursors db) consumer of
        Some c \<Rightarrow> (Some (dc_created_at c, dc_event_id c), db)
      | None \<Rightarrow>
          (case rev (sort_key event_key (map snd (ad_events db))) of
             [] \<Rightarrow> (None, db)
           | e # _ \<Rightarrow> (Some (event_key e), db\<lparr>ad_cursors := tset consumer
                \<lparr>dc_created_at = ae_created_at e, dc_event_id = ae_id e, dc_updated_at = now\<rparr> (ad_cursors db)\<rparr>)))"

definition list_after_delivery_cursor :: "audit_db \<Rightarrow> string \<Rightarrow> int \<Rightarrow> audit_event list" where
  "list_after_delivery_cursor db consumer limit = sql_limit limit (pending_events db consumer)"

definition acknowledge_delivery_channel ::
  "string \<Rightarrow> string \<Rightarrow> string \<Rightarrow> string \<Rightarrow> audit_db \<Rightarrow> unit audit_tx" where
  "acknowledge_delivery_channel now consumer eid channel db =
     (if tget (ad_acks db) (consumer, eid, channel) \<noteq> None then (Inr (), db)
      else if tget (ad_events db) eid = None then (Inl IntegrityError, db)
      else (Inr (), db\<lparr>ad_acks := tset (consumer, eid, channel) now (ad_acks db)\<rparr>))"

definition acknowledged_delivery_channels :: "audit_db \<Rightarrow> string \<Rightarrow> string \<Rightarrow> string list" where
  "acknowledged_delivery_channels db consumer eid =
     map (\<lambda>((_, _, ch), _). ch) (filter (\<lambda>((c, e, _), _). c = consumer \<and> e = eid) (ad_acks db))"

definition advance_delivery_cursor :: "string \<Rightarrow> string \<Rightarrow> audit_event \<Rightarrow> audit_db \<Rightarrow> audit_db" where
  "advance_delivery_cursor now consumer e db =
     (let passed = map ae_id (filter (\<lambda>x. ae_created_at x < ae_created_at e \<or>
            ae_created_at x = ae_created_at e \<and> ae_id x \<le> ae_id e) (map snd (ad_events db))) in
      db\<lparr>ad_cursors := tset consumer \<lparr>dc_created_at = ae_created_at e, dc_event_id = ae_id e, dc_updated_at = now\<rparr> (ad_cursors db),
         ad_acks := filter (\<lambda>((c, eid, _), _). \<not> (c = consumer \<and> eid \<in> set passed)) (ad_acks db)\<rparr>)"

definition notification_acknowledgement_count :: "audit_db \<Rightarrow> string \<Rightarrow> nat" where
  "notification_acknowledgement_count db consumer = length (filter (\<lambda>((c, _), _). c = consumer) (ad_acks db))"

definition pending_delivery_count :: "audit_db \<Rightarrow> string \<Rightarrow> nat" where
  "pending_delivery_count db consumer =
     length (filter (after_cursor (tget (ad_cursors db) consumer)) (map snd (ad_events db)))"

subsection \<open>Health of the channels\<close>

definition notification_delivery_health :: "audit_db \<Rightarrow> string \<Rightarrow> (string, channel_health) table" where
  "notification_delivery_health db consumer =
     map (\<lambda>((_, ch), h). (ch, h)) (filter (\<lambda>((c, _), _). c = consumer) (ad_health db))"

definition notification_channel_retry_ready :: "audit_db \<Rightarrow> string \<Rightarrow> string \<Rightarrow> rat \<Rightarrow> bool" where
  "notification_channel_retry_ready db consumer channel now =
     (case tget (notification_delivery_health db consumer) channel of
        None \<Rightarrow> True
      | Some h \<Rightarrow> (case ch_next_retry_at h of None \<Rightarrow> True | Some t \<Rightarrow> t \<le> now))"

definition retry_delay :: "rat \<Rightarrow> rat \<Rightarrow> int \<Rightarrow> rat" where
  "retry_delay base maximum failures = min maximum (base * 2 ^ nat (max 0 (failures - 1)))"

definition record_notification_delivery_attempt ::
  "rat \<Rightarrow> string \<Rightarrow> string \<Rightarrow> string \<Rightarrow> bool \<Rightarrow> string \<Rightarrow> rat \<Rightarrow> rat \<Rightarrow> audit_db \<Rightarrow> channel_health \<times> audit_db" where
  "record_notification_delivery_attempt now consumer channel event_id succeeded error base maximum db =
     (let previous = tget (ad_health db) (consumer, channel);
          failures = (if succeeded then 0 else (case previous of None \<Rightarrow> 0 | Some h \<Rightarrow> ch_consecutive_failures h) + 1);
          h = \<lparr>ch_last_event_id = event_id, ch_last_attempt_at = Some now,
               ch_last_success_at = (if succeeded then Some now
                  else case previous of None \<Rightarrow> None | Some p \<Rightarrow> ch_last_success_at p),
               ch_last_failure_at = (if succeeded then (case previous of None \<Rightarrow> None | Some p \<Rightarrow> ch_last_failure_at p)
                  else Some now),
               ch_last_error = (if succeeded then [] else take 256 (if error = [] then ''transport returned failure'' else error)),
               ch_consecutive_failures = failures,
               ch_next_retry_at = (if succeeded then None else Some (now + retry_delay base maximum failures))\<rparr> in
      (h, db\<lparr>ad_health := tset (consumer, channel) h (ad_health db)\<rparr>))"

subsection \<open>Repeated rejections\<close>

lemma quarantine_again:
  assumes "tget (ad_quarantine db) (rejection_key sha raw error category) = Some row"
  shows "ad_events (snd (quarantine_fill_rejection sha now raw error category src db)) = ad_events db"
    and "tget (ad_quarantine (snd (quarantine_fill_rejection sha now raw error category src db))) (rejection_key sha raw error category) =
      Some (row\<lparr>qr_occurrences := qr_occurrences row + 1, qr_last_seen_at := now\<rparr>)"
  using assms by (simp_all add: quarantine_fill_rejection_def Let_def)

lemma quarantine_repeated:
  assumes "tget (ad_quarantine db) (rejection_key sha raw error category) = Some row"
  shows "ad_events (fold (\<lambda>now d. snd (quarantine_fill_rejection sha now raw error category src d)) nows db) = ad_events db \<and>
    (\<exists>r. tget (ad_quarantine (fold (\<lambda>now d. snd (quarantine_fill_rejection sha now raw error category src d)) nows db))
        (rejection_key sha raw error category) = Some r \<and> qr_occurrences r = qr_occurrences row + int (length nows) \<and>
        qr_first_seen_at r = qr_first_seen_at row \<and> qr_last_seen_at r = last (qr_last_seen_at row # nows))"
  using assms
proof (induction nows arbitrary: db row)
  case (Cons now nows)
  from Cons.IH [OF quarantine_again(2) [OF Cons.prems, of now src]] quarantine_again(1) [OF Cons.prems, of now src]
  show ?case by (auto simp: algebra_simps)
qed simp

text \<open>A rejected fill that keeps coming back is quarantined once: the first rejection stores one
  row and one audit event, and every further rejection of the same fill with the same error adds no
  event (so the operator is notified once) but is counted, with the first and the latest time seen.\<close>

theorem rejection_is_quarantined_once:
  assumes "tget (ad_quarantine db) (rejection_key sha raw error category) = None"
  shows "ad_events (fold (\<lambda>t d. snd (quarantine_fill_rejection sha t raw error category src d)) (now # nows) db) =
      ad_events (snd (quarantine_fill_rejection sha now raw error category src db)) \<and>
    (\<exists>r. tget (ad_quarantine (fold (\<lambda>t d. snd (quarantine_fill_rejection sha t raw error category src d)) (now # nows) db))
        (rejection_key sha raw error category) = Some r \<and> qr_occurrences r = 1 + int (length nows) \<and>
        qr_first_seen_at r = now \<and> qr_last_seen_at r = last (now # nows)) \<and>
    tget (ad_events (snd (quarantine_fill_rejection sha now raw error category src db)))
      (rejection_event_id (rejection_key sha raw error category)) \<noteq> None"
proof -
  let ?db = "snd (quarantine_fill_rejection sha now raw error category src db)"
  have "\<exists>row. tget (ad_quarantine ?db) (rejection_key sha raw error category) = Some row \<and> qr_occurrences row = 1 \<and>
      qr_first_seen_at row = now \<and> qr_last_seen_at row = now"
    using assms by (simp add: quarantine_fill_rejection_def Let_def save_event_def new_quarantine_row_def)
  then obtain row where row: "tget (ad_quarantine ?db) (rejection_key sha raw error category) = Some row"
      "qr_occurrences row = 1" "qr_first_seen_at row = now" "qr_last_seen_at row = now" by blast
  have "rejection_event_id k \<noteq> []" for k by (simp add: rejection_event_id_def)
  then have "tget (ad_events ?db) (rejection_event_id (rejection_key sha raw error category)) \<noteq> None"
    using assms by (simp add: quarantine_fill_rejection_def Let_def save_event_def new_event_def)
  with quarantine_repeated [OF row(1), of src nows] row show ?thesis by simp
qed

theorem rejection_is_quarantined_once_witness:
  "\<exists>r. tget (ad_quarantine (fold (\<lambda>t d. snd (quarantine_fill_rejection (\<lambda>s. s) t [(''tradeId'', JStr ''77'')] ''bad fill'' ''invalid'' ''okx'' d))
      [''t1'', ''t2'', ''t3''] \<lparr>ad_events = [], ad_cursors = [], ad_acks = [], ad_health = [], ad_quarantine = []\<rparr>))
      (rejection_key (\<lambda>s. s) [(''tradeId'', JStr ''77'')] ''bad fill'' ''invalid'') = Some r \<and> qr_occurrences r = 3"
proof -
  have "tget (ad_quarantine \<lparr>ad_events = [], ad_cursors = [], ad_acks = [], ad_health = [], ad_quarantine = []\<rparr>)
      (rejection_key (\<lambda>s. s) [(''tradeId'', JStr ''77'')] ''bad fill'' ''invalid'') = None" by simp
  from rejection_is_quarantined_once [OF this, of "''okx''" "''t1''" "[''t2'', ''t3'']"] show ?thesis by auto
qed

end
