(* ===== verification/NotificationDelivery.thy ===== *)
theory NotificationDelivery
  imports AuditEventStore
begin

section \<open>Delivery of lifecycle notifications\<close>

text \<open>
  \<^verbatim>\<open>src/daemon/lifecycle_notification_service.py\<close>: the service that walks the audit events behind
  its cursor and pushes the operator-relevant ones to the channels, and
  \<^verbatim>\<open>src/notifications/repeat_cooldown.py\<close>, the gate the channels put before repeated content. A
  category is a constructor instead of its display text; the text of a message is not modelled, only whether
  formatting it raises. What a channel answers to a send is an argument (\<open>env\<close>), the parser \<^verbatim>\<open>datetime.fromisoformat\<close> is
  the argument \<open>iso\<close>, and a tick reads the clock once.
\<close>

subsection \<open>Classification\<close>

datatype lifecycle_category =
    EntrySubmitted | EntrySimulated | StrategyEntryFilled | PositionOpened | PositionReduced | PositionClosed
  | ExecutionFailed | SafetyFailure | Exact string

definition exact_categories :: "string list" where
  "exact_categories = [''strategy.created'', ''strategy.enabled'', ''strategy.disabled'', ''strategy.execution_blocked'',
     ''strategy.execution_delay_blocked'', ''strategy.execution_failed'', ''position.manual_open_simulated'',
     ''position.recovered_from_exchange'', ''position.reconciliation_manual_review'', ''position.protection_rearm_failed'',
     ''position.protection_reconcile_failed'', ''position.protection_triggered'', ''position.filled_without_allocation'',
     ''execution.fill_rejected'', ''entry_control.killed'', ''entry_control.enabled'']"

definition py_endswith :: "string \<Rightarrow> string \<Rightarrow> bool" where
  "py_endswith s p = (length p \<le> length s \<and> drop (length s - length p) s = p)"

definition classify_lifecycle_event :: "string \<Rightarrow> jobj \<Rightarrow> lifecycle_category option" where
  "classify_lifecycle_event event_type payload =
     (if event_type = ''strategy.execution_result'' then
        (let status = text_of (py_or (jget payload ''execution_status'') (jget payload ''result'')) in
         if status = ''submitted'' then Some EntrySubmitted else if status = ''simulated'' then Some EntrySimulated else None)
      else if event_type = ''position.allocation_confirmed'' then
        (let action = text_of (jget payload ''action'') in
         if action = ''open'' \<and> truthy (jget payload ''strategy_id'') then Some StrategyEntryFilled
         else tget [(''open'', PositionOpened), (''reduce'', PositionReduced), (''close'', PositionClosed)] action)
      else if event_type = ''position.reduced'' then Some PositionReduced
      else if event_type = ''position.closed'' then Some PositionClosed
      else if (py_endswith event_type ''_submission_failed'' \<or> py_endswith event_type ''_failed'') \<and>
        (py_startswith event_type ''position.'' \<or> py_startswith event_type ''execution.'' \<or> py_startswith event_type ''strategy.'')
      then Some ExecutionFailed
      else if event_type \<in> set exact_categories then Some (Exact event_type) else None)"

subsection \<open>The service\<close>

text \<open>What \<^verbatim>\<open>notifier.send\<close> does: it returns, with its cooldown flag or its last error, or raises. The
  formatting of a message may raise too, for instance on the difference of a naive and an aware time.\<close>

datatype send_outcome = Sent | SuppressedByCooldown | SendFailed string | SendRaised py_exc

record delivery_env =
  de_enabled :: "string \<Rightarrow> bool"
  de_format :: "lifecycle_category \<Rightarrow> audit_event \<Rightarrow> py_exc option"
  de_send :: "string \<Rightarrow> lifecycle_category \<Rightarrow> audit_event \<Rightarrow> send_outcome"
  de_iso :: "string \<Rightarrow> rat option"
  de_now :: rat
  de_now_text :: string

record notification_service =
  ns_retry_base :: rat
  ns_retry_max :: rat
  ns_max_event_age :: rat

definition notification_service_init :: "rat \<Rightarrow> rat \<Rightarrow> rat \<Rightarrow> notification_service" where
  "notification_service_init retry_base retry_max max_event_age =
     (let base = max 0 retry_base in
      \<lparr>ns_retry_base = base, ns_retry_max = max base retry_max, ns_max_event_age = max 0 max_event_age\<rparr>)"

definition consumer :: string where
  "consumer = ''lifecycle_notifications''"

definition channels :: "string list" where
  "channels = [''line'', ''email'']"

definition event_category :: "audit_event \<Rightarrow> lifecycle_category option" where
  "event_category e = (if ae_type e = ''runtime.safety_failure'' then Some SafetyFailure
     else classify_lifecycle_event (ae_type e) (event_payload e))"

definition is_stale :: "notification_service \<Rightarrow> delivery_env \<Rightarrow> audit_event \<Rightarrow> bool" where
  "is_stale ns env e = (case de_iso env (ae_created_at e) of None \<Rightarrow> False
     | Some created \<Rightarrow> ns_max_event_age ns < de_now env - created)"

fun deliver_channels ::
  "notification_service \<Rightarrow> delivery_env \<Rightarrow> lifecycle_category \<Rightarrow> audit_event \<Rightarrow> string list \<Rightarrow> string list \<Rightarrow> bool \<Rightarrow>
   bool audit_tx \<Rightarrow> bool audit_tx" where
  "deliver_channels ns env cat e acknowledged [] delivered (r, db) = (Inr delivered, db)"
| "deliver_channels ns env cat e acknowledged (ch # chs) delivered (r, db) =
     (if ch \<in> set acknowledged \<or> \<not> de_enabled env ch then deliver_channels ns env cat e acknowledged chs delivered (r, db)
      else if \<not> notification_channel_retry_ready db consumer ch (de_now env)
      then deliver_channels ns env cat e acknowledged chs False (r, db)
      else (case de_send env ch cat e of
          SuppressedByCooldown \<Rightarrow>
            (case acknowledge_delivery_channel (de_now_text env) consumer (ae_id e) ch db of
               (Inl x, db') \<Rightarrow> (Inl x, db')
             | (Inr _, db') \<Rightarrow> deliver_channels ns env cat e acknowledged chs delivered (r, db'))
        | Sent \<Rightarrow>
            (let db1 = snd (record_notification_delivery_attempt (de_now env) consumer ch (ae_id e) True [] (ns_retry_base ns)
                   (ns_retry_max ns) db) in
             case acknowledge_delivery_channel (de_now_text env) consumer (ae_id e) ch db1 of
               (Inl x, db') \<Rightarrow> (Inl x, db')
             | (Inr _, db') \<Rightarrow> deliver_channels ns env cat e acknowledged chs delivered (r, db'))
        | SendFailed err \<Rightarrow>
            deliver_channels ns env cat e acknowledged chs False (r,
              snd (record_notification_delivery_attempt (de_now env) consumer ch (ae_id e) False err (ns_retry_base ns)
                (ns_retry_max ns) db))
        | SendRaised x \<Rightarrow> (Inl x, db)))"

definition deliver :: "notification_service \<Rightarrow> delivery_env \<Rightarrow> audit_event \<Rightarrow> audit_db \<Rightarrow> bool audit_tx" where
  "deliver ns env e db =
     (case event_category e of
        None \<Rightarrow> (Inr True, db)
      | Some cat \<Rightarrow>
          if is_stale ns env e then (Inr True, db)
          else (case de_format env cat e of
              Some x \<Rightarrow> (Inl x, db)
            | None \<Rightarrow> deliver_channels ns env cat e (acknowledged_delivery_channels db consumer (ae_id e)) channels True (Inr True, db)))"

fun deliver_all :: "notification_service \<Rightarrow> delivery_env \<Rightarrow> audit_event list \<Rightarrow> audit_db \<Rightarrow> unit audit_tx" where
  "deliver_all ns env [] db = (Inr (), db)"
| "deliver_all ns env (e # es) db =
     (case deliver ns env e db of
        (Inl x, db') \<Rightarrow> (Inl x, db')
      | (Inr False, db') \<Rightarrow> (Inr (), db')
      | (Inr True, db') \<Rightarrow> deliver_all ns env es (advance_delivery_cursor (de_now_text env) consumer e db'))"

definition notification_setup :: "string \<Rightarrow> audit_db \<Rightarrow> audit_db" where
  "notification_setup now db = snd (initialize_delivery_cursor now consumer db)"

definition notification_tick :: "notification_service \<Rightarrow> delivery_env \<Rightarrow> audit_db \<Rightarrow> unit audit_tx" where
  "notification_tick ns env db = deliver_all ns env (list_after_delivery_cursor db consumer 500) db"

definition on_runtime_event :: "runtime_event \<Rightarrow> audit_db \<Rightarrow> audit_db" where
  "on_runtime_event e db =
     (if rt_type e = ''service.error''
      then snd (create_event [] [] ''runtime.safety_failure'' (rt_source e)
             (tset ''service'' (JStr (rt_source e)) (rt_payload e)) (rt_id e) (rt_created_at e) db)
      else db)"

subsection \<open>Cooldown of repeated content\<close>

record cooldown =
  cd_cooldown_seconds :: rat
  cd_escalate_after :: int
  cd_max_seconds :: rat
  cd_sent_at :: "(string, rat) table"
  cd_sent_count :: "(string, int) table"
  cd_muted :: "string list"

definition cooldown_init :: "rat \<Rightarrow> int \<Rightarrow> rat \<Rightarrow> cooldown" where
  "cooldown_init seconds escalate_after maximum =
     (let c = max 0 seconds in
      \<lparr>cd_cooldown_seconds = c, cd_escalate_after = max 1 escalate_after, cd_max_seconds = max c maximum, cd_sent_at = [],
       cd_sent_count = [], cd_muted = []\<rparr>)"

definition gap_seconds :: "cooldown \<Rightarrow> int \<Rightarrow> rat" where
  "gap_seconds c prior_sends =
     (if prior_sends < cd_escalate_after c then cd_cooldown_seconds c
      else min (cd_max_seconds c) (cd_cooldown_seconds c * 2 ^ nat (prior_sends - cd_escalate_after c + 1)))"

definition cooldown_ready :: "rat \<Rightarrow> string \<Rightarrow> cooldown \<Rightarrow> bool" where
  "cooldown_ready now fp c =
     (fp \<notin> set (cd_muted c) \<and>
      (case tget (cd_sent_at c) fp of None \<Rightarrow> True
       | Some last_sent \<Rightarrow> gap_seconds c (or_default (tget (cd_sent_count c) fp) 1) \<le> now - last_sent))"

definition record_sent :: "rat \<Rightarrow> string \<Rightarrow> cooldown \<Rightarrow> cooldown" where
  "record_sent now fp c = c\<lparr>cd_sent_at := tset fp now (cd_sent_at c),
     cd_sent_count := tset fp (or_default (tget (cd_sent_count c) fp) 0 + 1) (cd_sent_count c)\<rparr>"

definition mute :: "string \<Rightarrow> cooldown \<Rightarrow> cooldown" where
  "mute fp c = c\<lparr>cd_muted := fp # cd_muted c\<rparr>"

subsection \<open>The cursor\<close>

definition events_ok :: "audit_db \<Rightarrow> bool" where
  "events_ok db \<longleftrightarrow> distinct (map fst (ad_events db)) \<and> (\<forall>(k, e)\<in>set (ad_events db). ae_id e = k)"

lemma after_cursor_Some:
  "after_cursor (Some \<lparr>dc_created_at = ae_created_at e, dc_event_id = ae_id e, dc_updated_at = t\<rparr>) =
    (\<lambda>x. event_key e < event_key x)"
  by (auto simp: after_cursor_def event_key_def less_prod_def')

lemma event_keys_distinct:
  assumes "events_ok db" shows "distinct (map event_key (filter P (map snd (ad_events db))))"
proof -
  have "map ae_id (map snd (ad_events db)) = map fst (ad_events db)"
    using assms by (auto simp: events_ok_def)
  then have "distinct (map ae_id (map snd (ad_events db)))" using assms unfolding events_ok_def by (simp only:)
  then have "distinct (map ae_id (filter P (map snd (ad_events db))))" by (rule distinct_map_filter)
  then show ?thesis unfolding distinct_map by (auto simp: inj_on_def event_key_def)
qed

lemma pending_strict:
  assumes "events_ok db" "pending_events db c = e # es"
  shows "\<forall>x\<in>set es. event_key e < event_key x"
proof -
  let ?p = "pending_events db c"
  have "distinct (map event_key ?p)"
    using event_keys_distinct [OF assms(1), of "after_cursor (tget (ad_cursors db) c)"]
    by (simp add: pending_events_def distinct_map)
  moreover have "sorted (map event_key ?p)" by (simp add: pending_events_def)
  ultimately show ?thesis unfolding assms(2) by (auto simp: less_le)
qed

lemma pending_advance:
  assumes ok: "events_ok db" and p: "pending_events db c = e # es"
  shows "pending_events (advance_delivery_cursor now c e db) c = es"
proof -
  let ?after = "\<lambda>x. event_key e < event_key x"
  let ?cur = "tget (ad_cursors db) c"
  have "e \<in> set (pending_events db c)" using p by simp
  then have e: "after_cursor ?cur e" by (simp add: pending_events_def)
  have sub: "after_cursor ?cur x" if "?after x" for x
    using e that by (cases ?cur) (auto simp: after_cursor_def event_key_def less_prod_def')
  have cur: "tget (ad_cursors (advance_delivery_cursor now c e db)) c =
      Some \<lparr>dc_created_at = ae_created_at e, dc_event_id = ae_id e, dc_updated_at = now\<rparr>"
    and ev: "ad_events (advance_delivery_cursor now c e db) = ad_events db"
    by (simp_all add: advance_delivery_cursor_def Let_def)
  have "pending_events (advance_delivery_cursor now c e db) c = sort_key event_key (filter ?after (map snd (ad_events db)))"
    unfolding pending_events_def cur ev by (simp add: after_cursor_Some)
  also have "filter ?after (map snd (ad_events db)) = filter ?after (filter (after_cursor ?cur) (map snd (ad_events db)))"
    using sub by (auto intro: filter_cong)
  also have "sort_key event_key \<dots> = filter ?after (pending_events db c)"
    by (simp only: pending_events_def filter_sort)
  also have "\<dots> = es" unfolding p using pending_strict [OF ok p] by (auto simp: filter_id_conv)
  finally show ?thesis .
qed

subsection \<open>Ticks\<close>

text \<open>Nothing is owed any more for an event: it is no operator news, or every enabled channel had
  acknowledged it, took it now, or deliberately suppressed it as a repetition.\<close>

definition settled :: "notification_service \<Rightarrow> delivery_env \<Rightarrow> audit_db \<Rightarrow> audit_event \<Rightarrow> bool" where
  "settled ns env db e = (case event_category e of None \<Rightarrow> True
     | Some cat \<Rightarrow> is_stale ns env e \<or> (\<forall>ch\<in>set channels. de_enabled env ch \<longrightarrow>
         ch \<in> set (acknowledged_delivery_channels db consumer (ae_id e)) \<or>
         de_send env ch cat e = Sent \<or> de_send env ch cat e = SuppressedByCooldown))"

text \<open>Between two states, acknowledgements were added at most for one event.\<close>

definition no_new_acks :: "string \<Rightarrow> audit_db \<Rightarrow> audit_db \<Rightarrow> bool" where
  "no_new_acks eid db db' \<longleftrightarrow> (\<forall>c x ch. (c, x, ch) \<in> set (map fst (ad_acks db')) \<longrightarrow> x \<noteq> eid \<longrightarrow> (c, x, ch) \<in> set (map fst (ad_acks db)))"

lemma no_new_acks_trans: "no_new_acks eid db db1 \<Longrightarrow> no_new_acks eid db1 db2 \<Longrightarrow> no_new_acks eid db db2"
  unfolding no_new_acks_def by blast

lemma acknowledged_iff:
  "ch \<in> set (acknowledged_delivery_channels db c eid) \<longleftrightarrow> (c, eid, ch) \<in> set (map fst (ad_acks db))"
  by (force simp: acknowledged_delivery_channels_def)

lemma settled_earlier:
  "no_new_acks eid db db' \<Longrightarrow> ae_id x \<noteq> eid \<Longrightarrow> settled ns env db' x \<Longrightarrow> settled ns env db x"
  unfolding settled_def acknowledged_iff no_new_acks_def by (auto split: option.splits simp del: set_map)

lemma acknowledge_stored:
  assumes "tget (ad_events db) eid \<noteq> None"
  shows "\<exists>db'. acknowledge_delivery_channel now c eid ch db = (Inr (), db') \<and>
    ad_events db' = ad_events db \<and> ad_cursors db' = ad_cursors db \<and> no_new_acks eid db db'"
proof -
  have "no_new_acks eid db (db\<lparr>ad_acks := tset (c, eid, ch) now (ad_acks db)\<rparr>)"
    by (auto simp: no_new_acks_def keys_tset simp del: set_map)
  with assms show ?thesis by (auto simp: acknowledge_delivery_channel_def no_new_acks_def)
qed

lemma attempt_frame [simp]:
  "ad_events (snd (record_notification_delivery_attempt t c ch eid b err base mx db)) = ad_events db"
  "ad_cursors (snd (record_notification_delivery_attempt t c ch eid b err base mx db)) = ad_cursors db"
  "no_new_acks x db (snd (record_notification_delivery_attempt t c ch eid b err base mx db))"
  by (simp_all add: record_notification_delivery_attempt_def Let_def no_new_acks_def)

text \<open>What can make the delivery of an event raise.\<close>

definition delivery_raises :: "delivery_env \<Rightarrow> audit_event \<Rightarrow> py_exc \<Rightarrow> bool" where
  "delivery_raises env e x \<longleftrightarrow> (\<exists>cat. event_category e = Some cat \<and>
     (de_format env cat e = Some x \<or> (\<exists>ch\<in>set channels. de_enabled env ch \<and> de_send env ch cat e = SendRaised x)))"

lemma deliver_channels_result:
  assumes "tget (ad_events db) (ae_id e) \<noteq> None"
  shows "\<exists>b db'. deliver_channels ns env cat e acked chs delivered (r, db) = (b, db') \<and>
    ad_events db' = ad_events db \<and> ad_cursors db' = ad_cursors db \<and> no_new_acks (ae_id e) db db' \<and>
    (\<forall>x. b = Inl x \<longrightarrow> (\<exists>ch\<in>set chs. de_enabled env ch \<and> de_send env ch cat e = SendRaised x)) \<and>
    (b = Inr True \<longrightarrow> delivered \<and> (\<forall>ch\<in>set chs. de_enabled env ch \<longrightarrow> ch \<in> set acked \<or>
       de_send env ch cat e = Sent \<or> de_send env ch cat e = SuppressedByCooldown))"
  using assms
proof (induction chs arbitrary: delivered db)
  case (Cons ch chs)
  let ?skip = "ch \<in> set acked \<or> \<not> de_enabled env ch"
  let ?ready = "notification_channel_retry_ready db consumer ch (de_now env)"
  show ?case
  proof (cases "?skip \<or> \<not> ?ready")
    case True
    then show ?thesis using Cons.IH [OF Cons.prems, of delivered] Cons.IH [OF Cons.prems, of False] by auto
  next
    case False
    then have go: "?skip = False" "?ready" by simp_all
    let ?db1 = "snd (record_notification_delivery_attempt (de_now env) consumer ch (ae_id e) True [] (ns_retry_base ns) (ns_retry_max ns) db)"
    show ?thesis
    proof (cases "de_send env ch cat e")
      case Sent
      have "tget (ad_events ?db1) (ae_id e) \<noteq> None" using Cons.prems by simp
      from acknowledge_stored [OF this] obtain db2 where
        a: "acknowledge_delivery_channel (de_now_text env) consumer (ae_id e) ch ?db1 = (Inr (), db2)"
        "ad_events db2 = ad_events db" "ad_cursors db2 = ad_cursors db" "no_new_acks (ae_id e) db db2"
        by (metis attempt_frame no_new_acks_trans)
      then have "tget (ad_events db2) (ae_id e) \<noteq> None" using Cons.prems by simp
      from Cons.IH [OF this, of delivered] a Sent go show ?thesis by (auto simp: Let_def intro: no_new_acks_trans)
    next
      case SuppressedByCooldown
      from acknowledge_stored [OF Cons.prems] obtain db2 where
        a: "acknowledge_delivery_channel (de_now_text env) consumer (ae_id e) ch db = (Inr (), db2)"
        "ad_events db2 = ad_events db" "ad_cursors db2 = ad_cursors db" "no_new_acks (ae_id e) db db2" by metis
      then have "tget (ad_events db2) (ae_id e) \<noteq> None" using Cons.prems by simp
      from Cons.IH [OF this, of delivered] a SuppressedByCooldown go show ?thesis by (auto intro: no_new_acks_trans)
    next
      case (SendFailed err)
      let ?db2 = "snd (record_notification_delivery_attempt (de_now env) consumer ch (ae_id e) False err (ns_retry_base ns) (ns_retry_max ns) db)"
      have "tget (ad_events ?db2) (ae_id e) \<noteq> None" using Cons.prems by simp
      from Cons.IH [OF this, of False] SendFailed go show ?thesis
        by (auto intro: no_new_acks_trans [OF attempt_frame(3)])
    next
      case (SendRaised x)
      then show ?thesis using go by (auto simp: no_new_acks_def)
    qed
  qed
qed (auto simp: no_new_acks_def)

lemma deliver_result:
  assumes "tget (ad_events db) (ae_id e) \<noteq> None"
  shows "\<exists>b db'. deliver ns env e db = (b, db') \<and> ad_events db' = ad_events db \<and> ad_cursors db' = ad_cursors db \<and>
    no_new_acks (ae_id e) db db' \<and> (\<forall>x. b = Inl x \<longrightarrow> delivery_raises env e x) \<and> (b = Inr True \<longrightarrow> settled ns env db e)"
proof (cases "event_category e")
  case None
  then show ?thesis by (auto simp: deliver_def settled_def no_new_acks_def)
next
  case (Some cat)
  show ?thesis
  proof (cases "is_stale ns env e \<or> de_format env cat e \<noteq> None")
    case True
    with Some show ?thesis by (cases "is_stale ns env e") (auto simp: deliver_def settled_def no_new_acks_def delivery_raises_def)
  next
    case False
    then have "deliver ns env e db =
        deliver_channels ns env cat e (acknowledged_delivery_channels db consumer (ae_id e)) channels True (Inr True, db)"
      using Some by (simp add: deliver_def)
    then show ?thesis
      using deliver_channels_result [OF assms, of ns env cat "acknowledged_delivery_channels db consumer (ae_id e)" channels True "Inr True"]
        Some by (auto simp: settled_def delivery_raises_def)
  qed
qed

lemma advance_frame [simp]: "ad_events (advance_delivery_cursor now c e db) = ad_events db"
  by (simp add: advance_delivery_cursor_def Let_def)

lemma events_ok_cong: "ad_events db' = ad_events db \<Longrightarrow> events_ok db' = events_ok db"
  by (simp add: events_ok_def)

lemma pending_cong: "ad_events db' = ad_events db \<Longrightarrow> ad_cursors db' = ad_cursors db \<Longrightarrow> pending_events db' c = pending_events db c"
  by (simp add: pending_events_def)

lemma pending_stored:
  assumes "events_ok db" "e \<in> set (pending_events db c)" shows "tget (ad_events db) (ae_id e) = Some e"
  using assms by (auto simp: pending_events_def events_ok_def)

lemma advance_acks: "no_new_acks x db (advance_delivery_cursor now c e db)"
  by (auto simp: no_new_acks_def advance_delivery_cursor_def Let_def)

lemma deliver_all_walk:
  assumes "events_ok db" "pending_events db consumer = es @ rest"
  shows "\<exists>done left r db'. es = done @ left \<and> deliver_all ns env es db = (r, db') \<and>
    (\<forall>x. r = Inl x \<longrightarrow> left \<noteq> [] \<and> delivery_raises env (hd left) x) \<and>
    pending_events db' consumer = left @ rest \<and> ad_events db' = ad_events db \<and> (\<forall>e\<in>set done. settled ns env db e)"
  using assms
proof (induction es arbitrary: db)
  case Nil
  then show ?case by simp
next
  case (Cons e es)
  have e: "tget (ad_events db) (ae_id e) = Some e" 
    using pending_stored [OF Cons.prems(1), of e consumer] Cons.prems(2) by simp
  then have "tget (ad_events db) (ae_id e) \<noteq> None" by simp
  from deliver_result [OF this, of ns env] obtain b db1 where
    d: "deliver ns env e db = (b, db1)" "ad_events db1 = ad_events db" "ad_cursors db1 = ad_cursors db"
      "no_new_acks (ae_id e) db db1" and x: "\<forall>x. b = Inl x \<longrightarrow> delivery_raises env e x" and s: "b = Inr True \<longrightarrow> settled ns env db e"
    by blast
  have p1: "pending_events db1 consumer = e # (es @ rest)" using pending_cong [OF d(2,3)] Cons.prems(2) by simp
  have ok1: "events_ok db1" using events_ok_cong [OF d(2)] Cons.prems(1) by simp
  show ?case
  proof (cases "b = Inr True")
    case False
    then obtain r where "deliver_all ns env (e # es) db = (r, db1)" "\<forall>x. r = Inl x \<longrightarrow> delivery_raises env e x"
      using d x by (cases b) (auto split: bool.splits)
    then show ?thesis using p1 d(2) by (intro exI [of _ "[]"] exI [of _ "e # es"] exI [of _ r] exI [of _ db1]) simp
  next
    case True
    let ?db2 = "advance_delivery_cursor (de_now_text env) consumer e db1"
    have "pending_events ?db2 consumer = es @ rest" by (rule pending_advance [OF ok1 p1])
    moreover have "events_ok ?db2" using ok1 events_ok_cong [of ?db2 db1] by simp
    ultimately obtain ds left r db' where w: "es = ds @ left" "deliver_all ns env es ?db2 = (r, db')"
        "pending_events db' consumer = left @ rest" "ad_events db' = ad_events ?db2" "\<forall>x\<in>set ds. settled ns env ?db2 x"
      and wx: "\<forall>x. r = Inl x \<longrightarrow> left \<noteq> [] \<and> delivery_raises env (hd left) x"
      using Cons.IH [of ?db2] by blast
    have acks: "no_new_acks (ae_id e) db ?db2" by (rule no_new_acks_trans [OF d(4) advance_acks])
    have "settled ns env db x" if x: "x \<in> set ds" for x
    proof (rule settled_earlier [OF acks])
      have "x \<in> set (pending_events db consumer)" using x w(1) Cons.prems(2) by simp
      then have "tget (ad_events db) (ae_id x) = Some x" by (rule pending_stored [OF Cons.prems(1)])
      moreover have "event_key e < event_key x" using pending_strict [OF ok1 p1] x w(1) by simp
      ultimately show "ae_id x \<noteq> ae_id e" using e by (metis less_irrefl option.inject)
      show "settled ns env ?db2 x" using w(5) x by blast
    qed
    then have "\<forall>x\<in>set (e # ds). settled ns env db x" using s True by simp
    moreover have "deliver_all ns env (e # es) db = (r, db')" using d True w(2) by simp
    moreover have "e # es = (e # ds) @ left" using w(1) by simp
    moreover have "ad_events db' = ad_events db" using w(4) d(2) by simp
    ultimately show ?thesis using w(3) wx by (intro exI [of _ "e # ds"] exI [of _ left] exI [of _ r] exI [of _ db']) simp
  qed
qed

text \<open>A channel whose last attempt succeeded stays ready; with channels that take every message a tick
  never stops early.\<close>

lemma health_lookup: "tget (notification_delivery_health db c) ch = tget (ad_health db) (c, ch)"
proof -
  have "tget (map (\<lambda>((_, ch), h). (ch, h)) (filter (\<lambda>((c', _), _). c' = c) t)) ch = tget t (c, ch)"
    for t :: "(string \<times> string, channel_health) table"
    by (induction t) auto
  then show ?thesis by (simp add: notification_delivery_health_def)
qed

definition channels_ready :: "delivery_env \<Rightarrow> audit_db \<Rightarrow> bool" where
  "channels_ready env db \<longleftrightarrow> (\<forall>ch. de_enabled env ch \<longrightarrow> notification_channel_retry_ready db consumer ch (de_now env))"

definition takes_all :: "delivery_env \<Rightarrow> bool" where
  "takes_all env \<longleftrightarrow> (\<forall>cat e. de_format env cat e = None) \<and>
     (\<forall>ch cat e. de_send env ch cat e = Sent \<or> de_send env ch cat e = SuppressedByCooldown)"

lemma channels_ready_cong: "ad_health db' = ad_health db \<Longrightarrow> channels_ready env db' = channels_ready env db"
  by (simp add: channels_ready_def notification_channel_retry_ready_def health_lookup)

lemma attempt_ready:
  "channels_ready env db \<Longrightarrow> channels_ready env (snd (record_notification_delivery_attempt t c ch eid True err base mx db))"
  by (auto simp: channels_ready_def notification_channel_retry_ready_def health_lookup record_notification_delivery_attempt_def Let_def
      split: option.splits)

lemma acknowledge_health:
  "acknowledge_delivery_channel now c eid ch db = (r, db') \<Longrightarrow> ad_health db' = ad_health db \<and> ad_events db' = ad_events db"
  by (auto simp: acknowledge_delivery_channel_def split: if_splits)

lemma healthy_channels:
  assumes "takes_all env" "channels_ready env db" "tget (ad_events db) (ae_id e) \<noteq> None"
  shows "\<exists>db'. deliver_channels ns env cat e acked chs delivered (r, db) = (Inr delivered, db') \<and> channels_ready env db'"
  using assms(2,3)
proof (induction chs arbitrary: db)
  case (Cons ch chs)
  let ?db1 = "snd (record_notification_delivery_attempt (de_now env) consumer ch (ae_id e) True [] (ns_retry_base ns) (ns_retry_max ns) db)"
  have next': "\<exists>db'. deliver_channels ns env cat e acked chs delivered (r, db2) = (Inr delivered, db') \<and> channels_ready env db'"
    if a: "acknowledge_delivery_channel (de_now_text env) consumer (ae_id e) ch db1 = (Inr (), db2)"
      and "channels_ready env db1" "ad_events db1 = ad_events db" for db1 db2
    using acknowledge_health [OF a] channels_ready_cong [of db2 db1 env] that(2,3) Cons.prems(2) by (intro Cons.IH) simp_all
  show ?case
  proof (cases "ch \<in> set acked \<or> \<not> de_enabled env ch")
    case True
    then show ?thesis using Cons.IH [OF Cons.prems] by simp
  next
    case False
    then have go: "(ch \<in> set acked \<or> \<not> de_enabled env ch) = False"
        "notification_channel_retry_ready db consumer ch (de_now env)"
      using Cons.prems(1) by (auto simp: channels_ready_def)
    consider "de_send env ch cat e = Sent" | "de_send env ch cat e = SuppressedByCooldown"
      using assms(1) unfolding takes_all_def by blast
    then show ?thesis
    proof cases
      case 1
      have "tget (ad_events ?db1) (ae_id e) \<noteq> None" using Cons.prems(2) by simp
      from acknowledge_stored [OF this] obtain db2 where
        a: "acknowledge_delivery_channel (de_now_text env) consumer (ae_id e) ch ?db1 = (Inr (), db2)" by blast
      from next' [OF a attempt_ready [OF Cons.prems(1)]] a 1 go show ?thesis by (simp add: Let_def)
    next
      case 2
      from acknowledge_stored [OF Cons.prems(2)] obtain db2 where
        a: "acknowledge_delivery_channel (de_now_text env) consumer (ae_id e) ch db = (Inr (), db2)" by blast
      from next' [OF a Cons.prems(1)] a 2 go show ?thesis by simp
    qed
  qed
qed simp

lemma healthy_deliver:
  assumes "takes_all env" "channels_ready env db" "tget (ad_events db) (ae_id e) \<noteq> None"
  shows "\<exists>db'. deliver ns env e db = (Inr True, db') \<and> channels_ready env db'"
  using assms healthy_channels [OF assms] by (auto simp: deliver_def takes_all_def split: option.split)

lemma advance_ready: "channels_ready env (advance_delivery_cursor now c e db) = channels_ready env db"
  by (rule channels_ready_cong) (simp add: advance_delivery_cursor_def Let_def)

lemma healthy_walk:
  assumes "takes_all env" "channels_ready env db" "events_ok db" "pending_events db consumer = es @ rest"
  shows "\<exists>db'. deliver_all ns env es db = (Inr (), db') \<and> pending_events db' consumer = rest"
  using assms(2-4)
proof (induction es arbitrary: db)
  case (Cons e es)
  have e: "tget (ad_events db) (ae_id e) \<noteq> None"
    using pending_stored [OF Cons.prems(2), of e consumer] Cons.prems(3) by simp
  from healthy_deliver [OF assms(1) Cons.prems(1) e] obtain db1 where
    d: "deliver ns env e db = (Inr True, db1)" "channels_ready env db1" by blast
  from deliver_result [OF e, of ns env] d(1) have f: "ad_events db1 = ad_events db" "ad_cursors db1 = ad_cursors db" by auto
  have ok1: "events_ok db1" using events_ok_cong [OF f(1)] Cons.prems(2) by simp
  have p1: "pending_events db1 consumer = e # (es @ rest)" using pending_cong [OF f] Cons.prems(3) by simp
  let ?db2 = "advance_delivery_cursor (de_now_text env) consumer e db1"
  have "events_ok ?db2" using ok1 events_ok_cong [of ?db2 db1] by simp
  from Cons.IH [OF _ this pending_advance [OF ok1 p1]] d show ?case by (simp add: advance_ready)
qed simp

subsection \<open>Categories that are never used\<close>

lemma shadowed_categories:
  "list_all (\<lambda>t. t \<in> set exact_categories \<and> classify_lifecycle_event t payload = Some ExecutionFailed)
     [''strategy.execution_failed'', ''position.protection_rearm_failed'', ''position.protection_reconcile_failed'']"
  by (simp add: exact_categories_def classify_lifecycle_event_def py_endswith_def py_startswith_def)

subsection \<open>Properties\<close>

lemma pending_split: "pending_events db c = list_after_delivery_cursor db c 500 @ drop 500 (pending_events db c)"
  by (simp add: list_after_delivery_cursor_def sql_limit_def)

text \<open>C25: No notification is lost and none is skipped over. A tick of the delivery service passes a prefix of the pending events in their order, each of them settled (no operator
  news, too old, or taken or suppressed or already acknowledged on every enabled channel), and leaves
  exactly the rest pending, so a failed channel stops the walk at the event it still owes. It raises only
  when the formatting or a notifier raises for the first event of the rest, and what it passed before stays
  passed.\<close>

theorem notification_tick_loses_nothing:
  assumes "events_ok db"
  shows "\<exists>done rest r db'. notification_tick ns env db = (r, db') \<and> pending_events db consumer = done @ rest \<and>
    (\<forall>x. r = Inl x \<longrightarrow> rest \<noteq> [] \<and> delivery_raises env (hd rest) x) \<and> pending_events db' consumer = rest \<and> ad_events db' = ad_events db \<and> (\<forall>e\<in>set done. settled ns env db e)"
proof -
  from deliver_all_walk [OF assms pending_split] obtain ds left r db' where
    "list_after_delivery_cursor db consumer 500 = ds @ left" "notification_tick ns env db = (r, db')"
    "\<forall>x. r = Inl x \<longrightarrow> left \<noteq> [] \<and> delivery_raises env (hd left) x"
    "pending_events db' consumer = left @ drop 500 (pending_events db consumer)" "ad_events db' = ad_events db"
    "\<forall>e\<in>set ds. settled ns env db e" unfolding notification_tick_def by blast
  moreover from this(1) have "pending_events db consumer = ds @ (left @ drop 500 (pending_events db consumer))"
    using pending_split [of db consumer] by simp
  ultimately show ?thesis by (intro exI [of _ ds] exI [of _ "left @ drop 500 (pending_events db consumer)"] exI [of _ r] exI [of _ db']) auto
qed

definition sample_event :: "string \<Rightarrow> string \<Rightarrow> audit_event" where
  "sample_event i t = new_event t i ''position.closed'' ''test'' [(''position_id'', JStr ''p1'')] i t"

definition sample_audit :: audit_db where
  "sample_audit = \<lparr>ad_events = [(''e2'', sample_event ''e2'' ''2026-02''), (''e1'', sample_event ''e1'' ''2026-01'')],
     ad_cursors = [], ad_acks = [], ad_health = [], ad_quarantine = []\<rparr>"

definition sample_env :: "send_outcome \<Rightarrow> delivery_env" where
  "sample_env o' = \<lparr>de_enabled = (\<lambda>_. True), de_format = (\<lambda>_ _. None), de_send = (\<lambda>ch _ e. if ch = ''email'' \<and> ae_id e = ''e2'' then o' else Sent),
     de_iso = (\<lambda>_. None), de_now = 100, de_now_text = ''t100''\<rparr>"

lemma sample_audit_ok: "events_ok sample_audit"
  by (simp add: events_ok_def sample_audit_def sample_event_def new_event_def)

theorem notification_tick_loses_nothing_witness:
  "\<exists>done rest r db'. notification_tick (notification_service_init 5 900 900) (sample_env (SendFailed [])) sample_audit = (r, db') \<and>
     pending_events sample_audit consumer = done @ rest \<and> pending_events db' consumer = rest \<and>
     (\<forall>e\<in>set done. settled (notification_service_init 5 900 900) (sample_env (SendFailed [])) sample_audit e) \<and>
     map ae_id rest = [''e2'']"
proof -
  have "map ae_id (pending_events (snd (notification_tick (notification_service_init 5 900 900) (sample_env (SendFailed [])) sample_audit))
     consumer) = [''e2'']" by code_simp
  then show ?thesis
    using notification_tick_loses_nothing [OF sample_audit_ok, of "notification_service_init 5 900 900" "sample_env (SendFailed [])"]
    by auto
qed

text \<open>C26: When the channels take every message and none is backing off, each tick delivers: it passes
  all pending events up to its batch of 500, so a backlog of any size is drained by finitely many
  ticks.\<close>

theorem healthy_tick_drains:
  assumes "events_ok db" and "takes_all env" and "channels_ready env db"
  shows "\<exists>db'. notification_tick ns env db = (Inr (), db') \<and>
    pending_events db' consumer = drop 500 (pending_events db consumer)"
  using healthy_walk [OF assms(2,3,1) pending_split] unfolding notification_tick_def .

theorem healthy_tick_drains_witness:
  "\<exists>db'. notification_tick (notification_service_init 5 900 900) (sample_env Sent) sample_audit = (Inr (), db') \<and>
     pending_events db' consumer = drop 500 (pending_events sample_audit consumer) \<and>
     length (pending_events sample_audit consumer) = 2"
proof -
  have "takes_all (sample_env Sent)" by (simp add: takes_all_def sample_env_def)
  moreover have "channels_ready (sample_env Sent) sample_audit"
    by (simp add: channels_ready_def notification_channel_retry_ready_def notification_delivery_health_def sample_audit_def)
  moreover have "length (pending_events sample_audit consumer) = 2" by (simp add: pending_events_def sample_audit_def after_cursor_def)
  ultimately show ?thesis using healthy_tick_drains [OF sample_audit_ok] by blast
qed

text \<open>The cursor drops backdated events. An event that is stored after the cursor has moved past
  its timestamp, as a fill confirmed late under its execution time is, never becomes pending: the
  pending events are the same as without it, whatever its category.\<close>

theorem backdated_event_is_dropped:
  assumes "tget (ad_cursors db) c = Some k" and "ae_created_at e < dc_created_at k" and "tget (ad_events db) (ae_id e) = None"
  shows "pending_events (save_event e db) c = pending_events db c"
proof -
  have "tset i x t = t @ [(i, x)]" if "tget t i = None" for i :: string and x :: audit_event and t
    using that by (induction t) (auto split: if_splits)
  then have "ad_events (save_event e db) = ad_events db @ [(ae_id e, e)]" using assms(3) by (simp add: save_event_def)
  moreover have "ad_cursors (save_event e db) = ad_cursors db" by (simp add: save_event_def)
  moreover have "\<not> after_cursor (Some k) e" using assms(2) by (auto simp: after_cursor_def)
  ultimately show ?thesis using assms(1) by (simp add: pending_events_def)
qed

theorem backdated_event_is_dropped_witness:
  "pending_events (save_event (sample_event ''e9'' ''2026-01'')
     (advance_delivery_cursor ''t'' consumer (sample_event ''e2'' ''2026-02'') sample_audit)) consumer =
   pending_events (advance_delivery_cursor ''t'' consumer (sample_event ''e2'' ''2026-02'') sample_audit) consumer \<and>
   event_category (sample_event ''e9'' ''2026-01'') = Some PositionClosed"
proof -
  have "tget (ad_cursors (advance_delivery_cursor ''t'' consumer (sample_event ''e2'' ''2026-02'') sample_audit)) consumer =
      Some \<lparr>dc_created_at = ''2026-02'', dc_event_id = ''e2'', dc_updated_at = ''t''\<rparr>"
    by (simp add: advance_delivery_cursor_def sample_audit_def sample_event_def new_event_def Let_def)
  moreover have "ae_created_at (sample_event ''e9'' ''2026-01'') < ''2026-02''" by code_simp
  moreover have "tget (ad_events (advance_delivery_cursor ''t'' consumer (sample_event ''e2'' ''2026-02'') sample_audit))
      (ae_id (sample_event ''e9'' ''2026-01'')) = None"
    by (simp add: sample_audit_def sample_event_def new_event_def)
  moreover have "event_category (sample_event ''e9'' ''2026-01'') = Some PositionClosed" by code_simp
  ultimately show ?thesis
    using backdated_event_is_dropped [of "advance_delivery_cursor ''t'' consumer (sample_event ''e2'' ''2026-02'') sample_audit" consumer]
    by simp
qed

end
