(* ===== verification/DecimalContext.thy ===== *)
theory DecimalContext
  imports PyValue
begin

section \<open>The 28-digit decimal context\<close>

text \<open>
  Python's \<^verbatim>\<open>decimal\<close> module computes each sum, product and quotient exactly and then rounds
  it, half to even, to the 28 significant digits of the default context. On values this
  rounding is the function \<open>ctx\<close> below; the exponent limits of the context are not modelled.
  \<open>exact28\<close> says that a value has at most 28 significant digits, so that \<open>ctx\<close> keeps it.
\<close>

subsection \<open>Definitions\<close>

definition ndigits :: "int \<Rightarrow> int" where
  "ndigits n = int (length (show_digits n))"

text \<open>The number of digits, counted without printing.\<close>

function count_digits :: "int \<Rightarrow> int" where
  "count_digits n = (if n < 10 then 1 else 1 + count_digits (n div 10))"
  by pat_completeness auto
termination
  by (relation "measure nat") auto

declare count_digits.simps [simp del]

lemma ndigits_code [code]: "ndigits n = count_digits n"
proof (induction n rule: count_digits.induct)
  case (1 n)
  then show ?case
    by (subst count_digits.simps) (simp add: ndigits_def show_digits.simps [of n])
qed

text \<open>The decimal exponent of a positive rational.\<close>

definition ilog10 :: "rat \<Rightarrow> int" where
  "ilog10 x = (let (n, d) = quotient_of x; est = ndigits n - ndigits d in
     if pow10 est \<le> x then est else est - 1)"

definition ctx :: "rat \<Rightarrow> rat" where
  "ctx x = (if x = 0 then 0 else
     (let k = 27 - ilog10 \<bar>x\<bar> in of_int (round_half_even (x * pow10 k)) * pow10 (- k)))"

definition exact28 :: "rat \<Rightarrow> bool" where
  "exact28 x \<longleftrightarrow> ctx x = x"

text \<open>\<^verbatim>\<open>a % b\<close>: the sign of the dividend; a quotient of more than 28 digits is an error.\<close>

definition dec_rem :: "rat \<Rightarrow> rat \<Rightarrow> rat result" where
  "dec_rem a b =
     (if b = 0 then Inl InvalidOperation
      else if 10 ^ 28 \<le> \<bar>a / b\<bar> then Inl InvalidOperation
      else Inr (ctx (a - of_int (trunc_rat (a / b)) * b)))"

definition dec_multiple :: "rat \<Rightarrow> rat \<Rightarrow> bool" where
  "dec_multiple a b = (of_int \<lfloor>a / b\<rfloor> = a / b)"

subsection \<open>The decimal exponent\<close>

lemma show_digits_length: "0 < n \<Longrightarrow> 10 ^ (length (show_digits n) - 1) \<le> n \<and> n < 10 ^ length (show_digits n)"
proof (induction n rule: show_digits.induct)
  case (1 n)
  show ?case
  proof (cases "n < 10")
    case True
    with 1 show ?thesis by (subst (1 2) show_digits.simps) simp
  next
    case False
    let ?m = "n div 10" and ?l = "length (show_digits (n div 10))"
    from False 1 have ih: "10 ^ (?l - 1) \<le> ?m" "?m < 10 ^ ?l" by auto
    have l: "length (show_digits n) = Suc ?l" using False by (subst show_digits.simps) simp
    have "Suc (?l - 1) = ?l" by (simp add: Suc_diff_1)
    then have p: "(10::int) ^ ?l = 10 * 10 ^ (?l - 1)" by (metis power_Suc)
    from ih(1) have "10 ^ ?l \<le> n" unfolding p by linarith
    moreover from ih(2) have "?m + 1 \<le> 10 ^ ?l" by linarith
    then have "n < 10 * 10 ^ ?l" by linarith
    ultimately show ?thesis by (simp add: l)
  qed
qed

lemma pow10_minus: "x * pow10 (- int k) = x / 10 ^ k"
  by (simp add: pow10_def)

lemma pow10_cancel [simp]: "pow10 k * pow10 (- k) = 1" "pow10 (- k) * pow10 k = 1"
  using pow10_add [of k "- k"] pow10_add [of "- k" k] by simp_all

lemma ndigits_bounds:
  assumes "0 < n"
  shows "pow10 (ndigits n - 1) \<le> of_int n" and "of_int n < pow10 (ndigits n)"
proof -
  let ?l = "length (show_digits n)"
  have l: "0 < ?l" by simp
  have "pow10 (ndigits n - 1) = 10 ^ (?l - 1)"
    using l pow10_nat [of "?l - 1"] by (simp add: ndigits_def of_nat_diff Suc_leI)
  also have "(10::rat) ^ (?l - 1) = of_int (10 ^ (?l - 1))" by simp
  also have "\<dots> \<le> of_int n" using show_digits_length [OF assms] by (simp only: of_int_le_iff)
  finally show "pow10 (ndigits n - 1) \<le> of_int n" .
  have "of_int n < (of_int (10 ^ ?l) :: rat)"
    using show_digits_length [OF assms] by (simp only: of_int_less_iff)
  then show "of_int n < pow10 (ndigits n)" by (simp add: ndigits_def pow10_nat)
qed

lemma ilog10_bounds:
  assumes "0 < x"
  shows "pow10 (ilog10 x) \<le> x" and "x < pow10 (ilog10 x + 1)"
proof -
  obtain n d where q: "quotient_of x = (n, d)" by (cases "quotient_of x")
  have d: "0 < d" using q by (rule quotient_of_denom_pos)
  have x: "x = of_int n / of_int d" using q by (rule quotient_of_div)
  with assms d have n: "0 < n" by (simp add: zero_less_divide_iff)
  let ?e = "ndigits n - ndigits d"
  note bn = ndigits_bounds [OF n] and bd = ndigits_bounds [OF d]
  have s: "pow10 a = pow10 b * pow10 (a - b)" for a b
    by (metis pow10_add add_diff_cancel_left' diff_add_cancel add.commute)
  have "of_int n < pow10 (ndigits n)" by (rule bn(2))
  also have "\<dots> = pow10 (?e + 1) * pow10 (ndigits d - 1)"
    unfolding pow10_add [symmetric] by simp
  also have "\<dots> \<le> pow10 (?e + 1) * of_int d" using bd(1) by simp
  finally have hi: "x < pow10 (?e + 1)" using d by (simp add: x divide_less_eq)
  have "pow10 (?e - 1) * of_int d \<le> pow10 (?e - 1) * pow10 (ndigits d)" using bd(2) by simp
  also have "\<dots> = pow10 (ndigits n - 1)" unfolding pow10_add [symmetric] by simp
  also have "\<dots> \<le> of_int n" by (rule bn(1))
  finally have lo: "pow10 (?e - 1) \<le> x" using d by (simp add: x le_divide_eq)
  have i: "ilog10 x = (if pow10 ?e \<le> x then ?e else ?e - 1)" by (simp add: ilog10_def q Let_def)
  show "pow10 (ilog10 x) \<le> x" and "x < pow10 (ilog10 x + 1)" using hi lo by (auto simp: i)
qed

subsection \<open>Rounding to 28 digits\<close>

lemma ctx_0 [simp]: "ctx 0 = 0"
  by (simp add: ctx_def)

lemma round_half_even_minus: "round_half_even (- x) = - round_half_even x"
proof (cases "x = of_int \<lfloor>x\<rfloor>")
  case True
  then show ?thesis
    using round_half_even_of_int [of "\<lfloor>x\<rfloor>"] round_half_even_of_int [of "- \<lfloor>x\<rfloor>"] by simp
next
  case False
  then have "\<lfloor>- x\<rfloor> = - \<lfloor>x\<rfloor> - 1" by linarith
  then show ?thesis unfolding round_half_even_def Let_def by (auto simp: field_simps) presburger+
qed

lemma ctx_minus: "ctx (- x) = - ctx x"
  by (simp add: ctx_def Let_def round_half_even_minus)

lemma ctx_pos:
  assumes "0 < x" shows "0 < ctx x"
proof -
  let ?k = "27 - ilog10 x"
  have "pow10 27 = pow10 (ilog10 x) * pow10 ?k" unfolding pow10_add [symmetric] by simp
  also have "\<dots> \<le> x * pow10 ?k" using ilog10_bounds(1) [OF assms] by simp
  finally have "of_int 1 \<le> x * pow10 ?k" by (simp add: pow10_def)
  then have "1 \<le> round_half_even (x * pow10 ?k)"
    using round_half_even_mono [of "of_int 1"] round_half_even_of_int [of 1] by metis
  then show ?thesis using assms by (simp add: ctx_def Let_def)
qed

lemma ctx_nonneg: "0 \<le> x \<Longrightarrow> 0 \<le> ctx x"
  using ctx_pos [of x] by (cases "x = 0") auto

lemma ctx_eq_0 [simp]: "ctx x = 0 \<longleftrightarrow> x = 0"
  using ctx_pos [of x] ctx_pos [of "- x"] ctx_minus [of x] by (cases "x < 0"; cases "x = 0") auto

lemma ctx_error: "\<bar>ctx x - x\<bar> \<le> \<bar>x\<bar> / (2 * 10 ^ 27)"
proof (cases "x = 0")
  case False
  let ?k = "27 - ilog10 \<bar>x\<bar>"
  let ?r = "of_int (round_half_even (x * pow10 ?k))"
  have "ctx x - x = (?r - x * pow10 ?k) * pow10 (- ?k)"
    using False pow10_cancel(1) [of ?k] unfolding ctx_def Let_def
    by (simp only: if_False left_diff_distrib mult.assoc mult_1_right)
  then have "\<bar>ctx x - x\<bar> = \<bar>?r - x * pow10 ?k\<bar> * pow10 (- ?k)" by (simp add: abs_mult)
  also have "\<dots> \<le> 1/2 * pow10 (- ?k)"
    using round_half_even_bounds [of "x * pow10 ?k"] by (intro mult_right_mono abs_leI) auto
  also have "pow10 (- ?k) = pow10 (ilog10 \<bar>x\<bar>) * pow10 (- 27)" unfolding pow10_add [symmetric] by simp
  also have "1/2 * (pow10 (ilog10 \<bar>x\<bar>) * pow10 (- 27)) \<le> 1/2 * (\<bar>x\<bar> * pow10 (- 27))"
    using ilog10_bounds(1) [of "\<bar>x\<bar>"] False by simp
  finally show ?thesis by (simp add: pow10_def)
qed simp

text \<open>How it is evaluated: integer arithmetic on the numerator and the denominator.\<close>

definition ilog10_int :: "int \<Rightarrow> int \<Rightarrow> int" where
  "ilog10_int n d = (let est = ndigits n - ndigits d in
     if (if 0 \<le> est then 10 ^ nat est * d \<le> n else d \<le> n * 10 ^ nat (- est)) then est else est - 1)"

definition ctx_int :: "int \<Rightarrow> int \<Rightarrow> rat" where
  "ctx_int n d = (let k = 27 - ilog10_int \<bar>n\<bar> d in
     if 0 \<le> k then of_int (rhe_div (n * 10 ^ nat k) d) / of_int (10 ^ nat k)
     else of_int (rhe_div n (d * 10 ^ nat (- k)) * 10 ^ nat (- k)))"

lemma ilog10_int_correct:
  assumes "quotient_of x = (n, d)" shows "ilog10 \<bar>x\<bar> = ilog10_int \<bar>n\<bar> d"
proof -
  have d: "0 < d" using assms by (rule quotient_of_denom_pos)
  have q: "quotient_of \<bar>x\<bar> = (\<bar>n\<bar>, d)" by (simp add: rat_abs_code assms)
  then have x: "\<bar>x\<bar> = of_int \<bar>n\<bar> / of_int d" by (rule quotient_of_div)
  let ?e = "ndigits \<bar>n\<bar> - ndigits d"
  have c: "pow10 e \<le> \<bar>x\<bar> \<longleftrightarrow>
      (if 0 \<le> e then 10 ^ nat e * d \<le> \<bar>n\<bar> else d \<le> \<bar>n\<bar> * 10 ^ nat (- e))" for e
  proof (cases "0 \<le> e")
    case True
    then have "pow10 e \<le> \<bar>x\<bar> \<longleftrightarrow> (of_int (10 ^ nat e * d) :: rat) \<le> of_int \<bar>n\<bar>"
      unfolding x using d by (simp add: pow10_def field_simps)
    with True show ?thesis by (simp only: of_int_le_iff if_True)
  next
    case False
    then have "pow10 e \<le> \<bar>x\<bar> \<longleftrightarrow> (of_int d :: rat) \<le> of_int (\<bar>n\<bar> * 10 ^ nat (- e))"
      unfolding x using d by (simp add: pow10_def field_simps)
    with False show ?thesis by (simp only: of_int_le_iff if_False)
  qed
  show ?thesis by (simp only: ilog10_def ilog10_int_def q Let_def case_prod_conv c)
qed

lemma ctx_ints:
  "ctx x = (let (n, d) = quotient_of x in if n = 0 then 0 else ctx_int n d)"
proof -
  obtain n d where q: "quotient_of x = (n, d)" by (cases "quotient_of x")
  have d: "0 < d" using q by (rule quotient_of_denom_pos)
  have x: "x = of_int n / of_int d" using q by (rule quotient_of_div)
  have nz: "x \<noteq> 0" if "n \<noteq> 0" using that x d by simp
  let ?k = "27 - ilog10_int \<bar>n\<bar> d"
  have "ctx x = ctx_int n d" if "n \<noteq> 0"
  proof (cases "0 \<le> ?k")
    case True
    have "x * pow10 ?k = of_int (n * 10 ^ nat ?k) / of_int d" using True by (simp add: x pow10_def)
    then have "round_half_even (x * pow10 ?k) = rhe_div (n * 10 ^ nat ?k) d"
      using d by (simp only: rhe_div_correct)
    moreover have "pow10 (- ?k) = 1 / of_int (10 ^ nat ?k)"
      using True by (cases "?k = 0") (simp_all add: pow10_def)
    ultimately show ?thesis using nz [OF that] True
      by (simp add: ctx_def ctx_int_def Let_def ilog10_int_correct [OF q])
  next
    case False
    have "x * pow10 ?k = of_int n / of_int (d * 10 ^ nat (- ?k))" using False by (simp add: x pow10_def)
    moreover have "0 < d * 10 ^ nat (- ?k)" using d by simp
    ultimately have "round_half_even (x * pow10 ?k) = rhe_div n (d * 10 ^ nat (- ?k))"
      by (simp only: rhe_div_correct)
    moreover have "pow10 (- ?k) = of_int (10 ^ nat (- ?k))" using False by (simp add: pow10_def)
    ultimately show ?thesis using nz [OF that] False
      by (simp add: ctx_def ctx_int_def Let_def ilog10_int_correct [OF q])
  qed
  moreover have "x = 0" if "n = 0" using that x by simp
  ultimately show ?thesis unfolding q Let_def case_prod_conv by (metis ctx_0)
qed

lemma exact28_0 [simp]: "exact28 0"
  by (simp add: exact28_def)

lemma pow10_mono: "a \<le> b \<Longrightarrow> pow10 a \<le> pow10 b"
proof -
  assume "a \<le> b"
  then have "pow10 b = pow10 a * 10 ^ nat (b - a)"
    using pow10_add [of a "b - a"] by (simp add: pow10_def)
  moreover have "(1::rat) \<le> 10 ^ nat (b - a)" by simp
  ultimately show ?thesis using pow10_pos [of a] by (simp add: mult_le_cancel_left1)
qed

lemma ilog10_unique:
  assumes "pow10 a \<le> x" and "x < pow10 (a + 1)"
  shows "ilog10 x = a"
proof -
  have "0 < x" using assms(1) pow10_pos [of a] by linarith
  note b = ilog10_bounds [OF this]
  have "\<not> a + 1 \<le> ilog10 x" using b(1) assms(2) pow10_mono by fastforce
  moreover have "\<not> ilog10 x + 1 \<le> a" using b(2) assms(1) pow10_mono by fastforce
  ultimately show ?thesis by linarith
qed

lemma ctx_integral:
  assumes "x * pow10 (27 - ilog10 \<bar>x\<bar>) = of_int n"
  shows "exact28 x"
proof (cases "x = 0")
  case False
  let ?k = "27 - ilog10 \<bar>x\<bar>"
  have "ctx x = of_int n * pow10 (- ?k)"
    using False assms unfolding ctx_def Let_def by (simp only: if_False round_half_even_of_int)
  also have "\<dots> = x" unfolding assms [symmetric] by (simp only: mult.assoc pow10_cancel mult_1_right)
  finally show ?thesis by (simp add: exact28_def)
qed simp

lemma exact28_Dec:
  assumes "\<bar>c\<bar> < 10 ^ 28" shows "exact28 (of_int c * pow10 e)"
proof (cases "c = 0")
  case False
  let ?x = "of_int c * pow10 e" and ?l = "ilog10 \<bar>of_int c * pow10 e\<bar>"
  have "0 < \<bar>?x\<bar>" using False pow10_pos [of e] by simp
  then have "pow10 ?l \<le> \<bar>?x\<bar>" by (rule ilog10_bounds)
  also have "\<bar>?x\<bar> = of_int \<bar>c\<bar> * pow10 e" by (simp add: abs_mult)
  also have "\<dots> < of_int (10 ^ 28) * pow10 e" using assms
    by (intro mult_strict_right_mono pow10_pos) (simp only: of_int_less_iff)
  also have "\<dots> = pow10 (28 + e)" by (simp add: pow10_add) (simp add: pow10_def)
  finally have "\<not> 28 + e \<le> ?l" using pow10_mono [of "28 + e" ?l] by linarith
  then have "pow10 (e + (27 - ?l)) = of_int (10 ^ nat (e + (27 - ?l)))" by (simp add: pow10_def)
  then have "?x * pow10 (27 - ?l) = of_int (c * 10 ^ nat (e + (27 - ?l)))"
    by (simp only: mult.assoc pow10_add [symmetric] of_int_mult)
  then show ?thesis by (rule ctx_integral)
qed simp

lemma exact28_of_int: "\<bar>c\<bar> < 10 ^ 28 \<Longrightarrow> exact28 (of_int c)"
  using exact28_Dec [of c 0] by simp

lemma ctx_1 [simp]: "ctx 1 = 1"
  using exact28_of_int [of 1] by (simp add: exact28_def)

text \<open>A value with few digits needs no division to be rounded.\<close>

definition short_fraction :: "int \<Rightarrow> int \<Rightarrow> bool" where
  "short_fraction n d = (let p = 10 ^ den_places d in p mod d = 0 \<and> \<bar>n * (p div d)\<bar> < 10 ^ 28)"

lemma short_fraction_exact:
  assumes "0 < d" and "short_fraction n d"
  shows "exact28 (of_int n / of_int d)"
proof -
  let ?j = "den_places d" and ?m = "10 ^ den_places d div d"
  have m: "10 ^ ?j = ?m * d" and lt: "\<bar>n * ?m\<bar> < 10 ^ 28"
    using assms(2) by (auto simp: short_fraction_def Let_def)
  have "(of_int (10 ^ ?j) :: rat) = of_int ?m * of_int d"
    using arg_cong [OF m, of "of_int :: int \<Rightarrow> rat"] by (simp only: of_int_mult)
  moreover have "?m \<noteq> 0" using m power_not_zero [of "10::int" ?j] by (intro notI) simp
  ultimately have "of_int n / of_int d = of_int (n * ?m) / (10 ^ ?j :: rat)"
    using assms(1) by (simp add: field_simps)
  also have "\<dots> = of_int (n * ?m) * pow10 (- int ?j)" by (simp only: pow10_minus)
  finally show ?thesis using exact28_Dec [OF lt] by simp
qed

lemma ctx_code [code]:
  "ctx x = (let (n, d) = quotient_of x in
     if short_fraction n d then of_int n / of_int d else if n = 0 then 0 else ctx_int n d)"
proof -
  obtain n d where q: "quotient_of x = (n, d)" by (cases "quotient_of x")
  have "ctx x = of_int n / of_int d" if "short_fraction n d"
    using short_fraction_exact [OF quotient_of_denom_pos [OF q] that] quotient_of_div [OF q]
    by (simp add: exact28_def)
  then show ?thesis using ctx_ints [of x] by (simp add: q)
qed

subsection \<open>Remainders\<close>

lemma trunc_multiple: "of_int (trunc_rat q) = q \<longleftrightarrow> of_int \<lfloor>q\<rfloor> = q"
proof (cases "0 \<le> q")
  case False
  then have "of_int (trunc_rat q) = (q::rat) \<longleftrightarrow> of_int \<lceil>q\<rceil> = q"
    by (simp add: trunc_rat_def ceiling_def)
  also have "\<dots> \<longleftrightarrow> of_int \<lfloor>q\<rfloor> = q" by (metis ceiling_of_int floor_of_int)
  finally show ?thesis .
qed (simp add: trunc_rat_def)

lemma dec_rem_0:
  "dec_rem a b = Inr r \<and> r = 0 \<longleftrightarrow> r = 0 \<and> b \<noteq> 0 \<and> \<bar>a / b\<bar> < 10 ^ 28 \<and> dec_multiple a b"
proof -
  have "a - of_int (trunc_rat (a / b)) * b = 0 \<longleftrightarrow> of_int (trunc_rat (a / b)) = a / b" if "b \<noteq> 0"
    using that by (auto simp: field_simps)
  then show ?thesis by (auto simp: dec_rem_def dec_multiple_def trunc_multiple not_le)
qed

subsection \<open>Rounding a coefficient\<close>

definition dec_fix :: "decimal \<Rightarrow> decimal" where
  "dec_fix d = (case d of Dec c e \<Rightarrow>
       (let l = ndigits \<bar>c\<bar> in
        if l \<le> 28 then Dec c e
        else Dec (round_half_even (of_int c * pow10 (28 - l))) (e + l - 28))
     | _ \<Rightarrow> d)"

lemma dec_fix_finite [simp]: "dec_finite (dec_fix d) = dec_finite d"
  by (cases d) (auto simp: dec_fix_def Let_def)

lemma dec_fix_val: "dec_finite d \<Longrightarrow> dec_val (dec_fix d) = ctx (dec_val d)"
proof -
  assume "dec_finite d"
  then obtain c e where d: "d = Dec c e" by (cases d) auto
  let ?l = "ndigits \<bar>c\<bar>" and ?x = "of_int c * pow10 e"
  show ?thesis
  proof (cases "c = 0")
    case True
    then show ?thesis by (simp add: d dec_fix_def Let_def round_half_even_def)
  next
    case False
    then have "0 < \<bar>c\<bar>" by simp
    note b = ndigits_bounds [OF this]
    have a: "\<bar>?x\<bar> = of_int \<bar>c\<bar> * pow10 e" by (simp add: abs_mult)
    have "pow10 (?l - 1 + e) \<le> \<bar>?x\<bar>" unfolding a pow10_add using b(1) by simp
    moreover have "\<bar>?x\<bar> < pow10 (?l - 1 + e + 1)"
    proof -
      have "pow10 (?l - 1 + e + 1) = pow10 ?l * pow10 e" unfolding pow10_add [symmetric] by simp
      then show ?thesis unfolding a using b(2) by simp
    qed
    ultimately have i: "ilog10 \<bar>?x\<bar> = ?l - 1 + e" by (rule ilog10_unique)
    have x: "?x * pow10 (27 - (?l - 1 + e)) = of_int c * pow10 (28 - ?l)"
      unfolding mult.assoc pow10_add [symmetric] by (simp add: algebra_simps)
    show ?thesis
    proof (cases "?l \<le> 28")
      case True
      then have "pow10 (28 - ?l) = of_int (10 ^ nat (28 - ?l))" by (simp add: pow10_def)
      then have "?x * pow10 (27 - ilog10 \<bar>?x\<bar>) = of_int (c * 10 ^ nat (28 - ?l))"
        unfolding i x by (simp only: of_int_mult)
      then have "exact28 ?x" by (rule ctx_integral)
      with True show ?thesis by (simp add: d dec_fix_def Let_def exact28_def)
    next
      case l: False
      have "?x \<noteq> 0" using False pow10_pos [of e] by (simp add: less_imp_neq [symmetric])
      then have "ctx ?x = of_int (round_half_even (of_int c * pow10 (28 - ?l))) * pow10 (- (27 - (?l - 1 + e)))"
        unfolding ctx_def Let_def i x by simp
      moreover have "- (27 - (?l - 1 + e)) = e + ?l - 28" by simp
      ultimately show ?thesis using l by (simp add: d dec_fix_def Let_def)
    qed
  qed
qed

text \<open>Sums and products of finite decimals: exact coefficient and exponent, then the context.\<close>

fun dec_plus :: "decimal \<Rightarrow> decimal \<Rightarrow> decimal" where
  "dec_plus (Dec a e) (Dec b f) =
     (let m = min e f in dec_fix (Dec (a * 10 ^ nat (e - m) + b * 10 ^ nat (f - m)) m))"
| "dec_plus _ _ = DNaN"

fun dec_times :: "decimal \<Rightarrow> decimal \<Rightarrow> decimal" where
  "dec_times (Dec a e) (Dec b f) = dec_fix (Dec (a * b) (e + f))"
| "dec_times _ _ = DNaN"

fun dec_negate :: "decimal \<Rightarrow> decimal" where
  "dec_negate (Dec a e) = Dec (- a) e"
| "dec_negate (DInf b) = DInf (\<not> b)"
| "dec_negate DNaN = DNaN"

lemma dec_val_align: "m \<le> e \<Longrightarrow> dec_val (Dec (a * 10 ^ nat (e - m)) m) = dec_val (Dec a e)"
proof -
  assume "m \<le> e"
  then have "pow10 e = 10 ^ nat (e - m) * pow10 m"
    using pow10_add [of "e - m" m] pow10_nat [of "nat (e - m)"] by simp
  then show ?thesis by simp
qed

lemma dec_plus_val:
  assumes "dec_finite x" "dec_finite y"
  shows "dec_finite (dec_plus x y) \<and> dec_val (dec_plus x y) = ctx (dec_val x + dec_val y)"
proof -
  obtain a e b f where x: "x = Dec a e" "y = Dec b f" using assms by (cases x; cases y) auto
  let ?m = "min e f"
  have "dec_val (Dec (a * 10 ^ nat (e - ?m) + b * 10 ^ nat (f - ?m)) ?m) =
      dec_val (Dec (a * 10 ^ nat (e - ?m)) ?m) + dec_val (Dec (b * 10 ^ nat (f - ?m)) ?m)"
    by (simp add: distrib_right)
  then have "dec_val (Dec (a * 10 ^ nat (e - ?m) + b * 10 ^ nat (f - ?m)) ?m) = dec_val x + dec_val y"
    by (simp only: dec_val_align min.cobounded1 min.cobounded2 x)
  then show ?thesis by (simp add: x Let_def dec_fix_val del: dec_val.simps)
qed

lemma dec_times_val:
  assumes "dec_finite x" "dec_finite y"
  shows "dec_finite (dec_times x y) \<and> dec_val (dec_times x y) = ctx (dec_val x * dec_val y)"
proof -
  obtain a e b f where x: "x = Dec a e" "y = Dec b f" using assms by (cases x; cases y) auto
  then have "dec_val (Dec (a * b) (e + f)) = dec_val x * dec_val y" by (simp add: pow10_add)
  then show ?thesis by (simp add: x dec_fix_val del: dec_val.simps)
qed

lemma dec_negate_val: "dec_finite x \<Longrightarrow> dec_finite (dec_negate x) \<and> dec_val (dec_negate x) = - dec_val x"
  by (cases x) auto

text \<open>The relative error of one rounding.\<close>

definition half_ulp :: rat where
  "half_ulp = 1 / (2 * 10 ^ 27)"

lemma half_ulp_bounds: "0 < half_ulp" "half_ulp < 1"
  by (simp_all add: half_ulp_def)

lemma ctx_relative: "\<bar>ctx x - x\<bar> \<le> \<bar>x\<bar> * half_ulp"
  using ctx_error [of x] by (simp only: half_ulp_def times_divide_eq_right mult_1_right)

lemma ctx_lower: "0 \<le> x \<Longrightarrow> x * (1 - half_ulp) \<le> ctx x"
  using ctx_relative [of x] by (simp add: algebra_simps abs_le_iff)

lemma ctx_upper: "0 \<le> x \<Longrightarrow> ctx x \<le> x * (1 + half_ulp)"
  using ctx_relative [of x] by (simp add: algebra_simps abs_le_iff)

lemma ctx_product_error:
  assumes "0 \<le> a" "0 \<le> s" "s \<le> 2"
  shows "\<bar>ctx (a * ctx s) - a * s\<bar> \<le> a / 10 ^ 26"
proof -
  let ?u = half_ulp
  have s: "s * (1 - ?u) \<le> ctx s" "ctx s \<le> s * (1 + ?u)" using ctx_lower ctx_upper assms by blast+
  have n: "0 \<le> ctx s" using ctx_nonneg assms(2) .
  have "a * s - a * (s * (2 * ?u - ?u * ?u)) = a * (s * (1 - ?u)) * (1 - ?u)" by (simp add: algebra_simps)
  also have "\<dots> \<le> a * ctx s * (1 - ?u)"
    using s(1) assms(1) half_ulp_bounds by (intro mult_right_mono mult_left_mono) auto
  also have "\<dots> \<le> ctx (a * ctx s)" using ctx_lower assms(1) n by simp
  finally have lo: "a * s - a * (s * (2 * ?u - ?u * ?u)) \<le> ctx (a * ctx s)" .
  have "ctx (a * ctx s) \<le> a * ctx s * (1 + ?u)" using ctx_upper assms(1) n by simp
  also have "\<dots> \<le> a * (s * (1 + ?u)) * (1 + ?u)"
    using s(2) assms(1) half_ulp_bounds by (intro mult_right_mono mult_left_mono) auto
  also have "\<dots> = a * s + a * (s * (2 * ?u + ?u * ?u))" by (simp add: algebra_simps)
  finally have hi: "ctx (a * ctx s) \<le> a * s + a * (s * (2 * ?u + ?u * ?u))" .
  have "s * (2 * ?u + ?u * ?u) \<le> 1 / 10 ^ 26" "s * (2 * ?u - ?u * ?u) \<le> 1 / 10 ^ 26"
    using assms(3) by (simp_all add: half_ulp_def)
  then have "a * (s * (2 * ?u + ?u * ?u)) \<le> a * (1 / 10 ^ 26)" "a * (s * (2 * ?u - ?u * ?u)) \<le> a * (1 / 10 ^ 26)"
    using assms(1) mult_left_mono by blast+
  with lo hi have "\<bar>ctx (a * ctx s) - a * s\<bar> \<le> a * (1 / 10 ^ 26)" unfolding abs_le_iff by (simp only: minus_diff_eq) auto
  then show ?thesis by (simp only: times_divide_eq_right mult_1_right)
qed

end
