(* ===== verification/DoubleFloat.thy ===== *)
theory DoubleFloat
  imports DecimalContext "HOL-Library.Log_Nat"
begin

section \<open>Doubles and their shortest decimals\<close>

text \<open>
  A Python \<^verbatim>\<open>float\<close> is an IEEE double. The model stores the decimal that Python prints for it: the
  shortest one that reads back as the same double. \<open>dbl\<close> rounds a rational to the nearest double, ties to
  even, and \<open>float_decimal\<close> gives the decimal of the nearest double; the exponent range of doubles is not
  modelled. The sum of two floats \<open>x\<close> and \<open>y\<close> is the double \<open>dbl (dbl x + dbl y)\<close>.
\<close>

subsection \<open>Powers and binary exponents\<close>

definition pow2 :: "int \<Rightarrow> rat" where
  "pow2 e = (if 0 \<le> e then 2 ^ nat e else 1 / 2 ^ nat (- e))"

lemma pow2_powi: "pow2 e = 2 powi e"
  by (simp add: pow2_def power_int_def field_simps)

lemma pow2_pos [simp]: "0 < pow2 e"
  by (simp add: pow2_def)

lemma pow2_facts [simp]: "pow2 e \<noteq> 0" "0 \<le> pow2 e" "\<bar>pow2 e\<bar> = pow2 e" "\<not> pow2 e < 0"
  using pow2_pos [of e] by linarith+

lemma pow2_add: "pow2 (a + b) = pow2 a * pow2 b"
  by (simp add: pow2_powi power_int_add)

lemma pow2_cancel [simp]: "pow2 k * pow2 (- k) = 1" "pow2 (- k) * pow2 k = 1"
  using pow2_add [of k "- k"] pow2_add [of "- k" k] by (simp_all add: pow2_def)

lemma pow2_mono: "a \<le> b \<Longrightarrow> pow2 a \<le> pow2 b"
  by (simp add: pow2_powi power_int_increasing)

lemma pow2_cancel_diff [simp]: "pow2 (a - b) * pow2 (b - a) = 1"
  unfolding pow2_add [symmetric] by (simp add: pow2_def)

lemma pow2_less_iff: "pow2 a < pow2 b \<longleftrightarrow> a < b"
proof
  show "a < b" if "pow2 a < pow2 b" using that pow2_mono [of b a] by fastforce
  have "pow2 a < pow2 a * 2" by simp
  also have "\<dots> = pow2 (a + 1)" by (simp add: pow2_add) (simp add: pow2_def)
  also have "\<dots> \<le> pow2 b" if "a < b" using that by (intro pow2_mono) simp
  finally show "pow2 a < pow2 b" if "a < b" using that by simp
qed

lemma abs_near: "\<bar>a\<bar> \<le> \<bar>a - b\<bar> + \<bar>b :: rat\<bar>" "\<bar>b\<bar> \<le> \<bar>a - b\<bar> + \<bar>a :: rat\<bar>"
  using abs_triangle_ineq [of "a - b" b] abs_triangle_ineq [of "b - a" a] by (simp_all add: abs_minus_commute)

definition ilog2 :: "rat \<Rightarrow> int" where
  "ilog2 x = (let (n, d) = quotient_of x; est = bitlen n - bitlen d in if pow2 est \<le> x then est else est - 1)"

lemma bitlen_pow2_bounds:
  assumes "0 < n" shows "pow2 (bitlen n - 1) \<le> of_int n" and "of_int n < pow2 (bitlen n)"
proof -
  have p: "0 < bitlen n" using assms by (simp add: bitlen_alt_def)
  have "pow2 (bitlen n - 1) = of_int (2 ^ nat (bitlen n - 1))" "pow2 (bitlen n) = of_int (2 ^ nat (bitlen n))"
    using p by (simp_all add: pow2_def)
  then show "pow2 (bitlen n - 1) \<le> of_int n" "of_int n < pow2 (bitlen n)"
    using bitlen_bounds [OF assms] by (simp_all only: of_int_le_iff of_int_less_iff)
qed

lemma ilog2_bounds:
  assumes "0 < x"
  shows "pow2 (ilog2 x) \<le> x" and "x < pow2 (ilog2 x + 1)"
proof -
  obtain n d where q: "quotient_of x = (n, d)" by (cases "quotient_of x")
  have d: "0 < d" using q by (rule quotient_of_denom_pos)
  have x: "x = of_int n / of_int d" using q by (rule quotient_of_div)
  with assms d have n: "0 < n" by (simp add: zero_less_divide_iff)
  let ?e = "bitlen n - bitlen d"
  note bn = bitlen_pow2_bounds [OF n] and bd = bitlen_pow2_bounds [OF d]
  have "of_int n < pow2 (bitlen n)" by (rule bn(2))
  also have "\<dots> = pow2 (?e + 1) * pow2 (bitlen d - 1)" unfolding pow2_add [symmetric] by simp
  also have "\<dots> \<le> pow2 (?e + 1) * of_int d" using bd(1) by simp
  finally have hi: "x < pow2 (?e + 1)" using d by (simp add: x divide_less_eq)
  have "pow2 (?e - 1) * of_int d \<le> pow2 (?e - 1) * pow2 (bitlen d)" using bd(2) by simp
  also have "\<dots> = pow2 (bitlen n - 1)" unfolding pow2_add [symmetric] by simp
  also have "\<dots> \<le> of_int n" by (rule bn(1))
  finally have lo: "pow2 (?e - 1) \<le> x" using d by (simp add: x le_divide_eq)
  have i: "ilog2 x = (if pow2 ?e \<le> x then ?e else ?e - 1)" by (simp add: ilog2_def q Let_def)
  show "pow2 (ilog2 x) \<le> x" and "x < pow2 (ilog2 x + 1)" using hi lo by (auto simp: i)
qed

lemma ilog2_mono:
  assumes "0 < x" "x \<le> y" shows "ilog2 x \<le> ilog2 y"
proof -
  have "pow2 (ilog2 x) < pow2 (ilog2 y + 1)"
    using ilog2_bounds [OF assms(1)] ilog2_bounds [of y] assms by linarith
  then show ?thesis by (simp add: pow2_less_iff)
qed

lemma ilog2_unique:
  assumes "pow2 a \<le> x" "x < pow2 (a + 1)" shows "ilog2 x = a"
proof -
  have "0 < x" using assms(1) pow2_pos [of a] by linarith
  note b = ilog2_bounds [OF this]
  have "pow2 (ilog2 x) < pow2 (a + 1)" "pow2 a < pow2 (ilog2 x + 1)" using b assms by linarith+
  then show ?thesis by (simp add: pow2_less_iff)
qed

subsection \<open>The nearest double\<close>

definition dbl :: "rat \<Rightarrow> rat" where
  "dbl x = (if x = 0 then 0 else (let k = 52 - ilog2 \<bar>x\<bar> in of_int (round_half_even (x * pow2 k)) * pow2 (- k)))"

lemma dbl_0 [simp]: "dbl 0 = 0"
  by (simp add: dbl_def)

lemma dbl_minus: "dbl (- x) = - dbl x"
  by (simp add: dbl_def Let_def round_half_even_minus)

text \<open>A rounded number stays in the closed binade of its argument.\<close>

lemma dbl_binade:
  assumes "0 < x"
  shows "pow2 (ilog2 x) \<le> dbl x" and "dbl x \<le> pow2 (ilog2 x + 1)"
proof -
  let ?k = "52 - ilog2 x"
  have d: "dbl x = of_int (round_half_even (x * pow2 ?k)) * pow2 (- ?k)" using assms by (simp add: dbl_def Let_def)
  have c: "of_int (2 ^ 52) = pow2 (ilog2 x) * pow2 ?k" "of_int (2 ^ 53) = pow2 (ilog2 x + 1) * pow2 ?k"
    unfolding pow2_add [symmetric] by (simp_all add: pow2_def)
  have "of_int (2 ^ 52) \<le> x * pow2 ?k" "x * pow2 ?k \<le> of_int (2 ^ 53)"
    unfolding c using ilog2_bounds [OF assms] by simp_all
  then have "2 ^ 52 \<le> round_half_even (x * pow2 ?k)" "round_half_even (x * pow2 ?k) \<le> 2 ^ 53"
    using round_half_even_mono [of "of_int (2 ^ 52)" "x * pow2 ?k"] round_half_even_mono [of "x * pow2 ?k" "of_int (2 ^ 53)"]
    by (simp_all only: round_half_even_of_int)
  then have r: "of_int (2 ^ 52) \<le> (of_int (round_half_even (x * pow2 ?k)) :: rat)"
    "(of_int (round_half_even (x * pow2 ?k)) :: rat) \<le> of_int (2 ^ 53)"
    by (simp_all only: of_int_le_iff)
  have e: "pow2 (ilog2 x) = of_int (2 ^ 52) * pow2 (- ?k)" "pow2 (ilog2 x + 1) = of_int (2 ^ 53) * pow2 (- ?k)"
    unfolding c mult.assoc by simp_all
  show "pow2 (ilog2 x) \<le> dbl x" "dbl x \<le> pow2 (ilog2 x + 1)"
    unfolding d e using r by (intro mult_right_mono; simp)+
qed

lemma dbl_pos: "0 < x \<Longrightarrow> 0 < dbl x"
  using dbl_binade(1) [of x] pow2_pos [of "ilog2 x"] by linarith

lemma dbl_mono_pos:
  assumes "0 < x" "x \<le> y" shows "dbl x \<le> dbl y"
proof (cases "ilog2 x = ilog2 y")
  case True
  then show ?thesis using assms
    by (auto simp: dbl_def Let_def intro!: mult_right_mono round_half_even_mono)
next
  case False
  with ilog2_mono [OF assms] have "ilog2 x + 1 \<le> ilog2 y" by simp
  then have "pow2 (ilog2 x + 1) \<le> pow2 (ilog2 y)" by (rule pow2_mono)
  moreover have "0 < y" using assms by simp
  ultimately show ?thesis using dbl_binade(2) [OF assms(1)] dbl_binade(1) [of y] by linarith
qed

lemma dbl_mono: "x \<le> y \<Longrightarrow> dbl x \<le> dbl y"
proof (cases "0 < x")
  case False
  assume xy: "x \<le> y"
  show ?thesis
  proof (cases "y < 0")
    case True
    then have "dbl (- y) \<le> dbl (- x)" using xy by (intro dbl_mono_pos) auto
    then show ?thesis by (simp add: dbl_minus)
  next
    case y: False
    have "dbl x \<le> 0" using False dbl_pos [of "- x"] dbl_minus [of x] by (cases "x = 0") auto
    moreover have "0 \<le> dbl y" using y dbl_pos [of y] by (cases "y = 0") auto
    ultimately show ?thesis by linarith
  qed
qed (rule dbl_mono_pos)

lemma dbl_nonneg: "0 \<le> x \<Longrightarrow> 0 \<le> dbl x"
  using dbl_mono [of 0 x] by simp

lemma dbl_idem_pos:
  assumes "0 < x" shows "dbl (dbl x) = dbl x"
proof (cases "dbl x < pow2 (ilog2 x + 1)")
  case True
  let ?k = "52 - ilog2 x" and ?m = "round_half_even (x * pow2 (52 - ilog2 x))"
  have d: "dbl x = of_int ?m * pow2 (- ?k)" using assms by (simp add: dbl_def Let_def)
  have "ilog2 (dbl x) = ilog2 x" using dbl_binade(1) [OF assms] True by (rule ilog2_unique)
  then have "dbl (dbl x) = of_int (round_half_even (dbl x * pow2 ?k)) * pow2 (- ?k)"
    using dbl_pos [OF assms] by (subst dbl_def) (simp add: Let_def)
  also have "dbl x * pow2 ?k = of_int ?m" unfolding d mult.assoc by simp
  finally show ?thesis using d by simp
next
  case False
  let ?e = "ilog2 x + 1"
  have d: "dbl x = pow2 ?e" using False dbl_binade(2) [OF assms] by simp
  have "ilog2 (pow2 ?e) = ?e" by (rule ilog2_unique) (simp_all add: pow2_less_iff)
  then have "dbl (pow2 ?e) = of_int (round_half_even (pow2 ?e * pow2 (52 - ?e))) * pow2 (- (52 - ?e))"
    by (simp add: dbl_def Let_def)
  also have "pow2 ?e * pow2 (52 - ?e) = of_int (2 ^ 52)" unfolding pow2_add [symmetric] by (simp add: pow2_def)
  also have "of_int (round_half_even (of_int (2 ^ 52))) * pow2 (- (52 - ?e)) = pow2 52 * pow2 (- (52 - ?e))"
    by (simp only: round_half_even_of_int) (simp add: pow2_def)
  also have "\<dots> = pow2 ?e" unfolding pow2_add [symmetric] by (simp add: add.commute)
  finally show ?thesis unfolding d .
qed

lemma dbl_idem [simp]: "dbl (dbl x) = dbl x"
  using dbl_idem_pos [of x] dbl_idem_pos [of "- x"] dbl_minus [of x] dbl_minus [of "dbl x"]
  by (cases "x = 0"; cases "0 < x") auto

lemma dbl_ulp: "\<bar>dbl x - x\<bar> \<le> pow2 (ilog2 \<bar>x\<bar>) / 2 ^ 53" if "x \<noteq> 0"
proof -
  let ?k = "52 - ilog2 \<bar>x\<bar>"
  let ?r = "of_int (round_half_even (x * pow2 ?k))"
  have "dbl x - x = (?r - x * pow2 ?k) * pow2 (- ?k)"
    using that pow2_cancel(1) [of ?k] unfolding dbl_def Let_def
    by (simp only: if_False left_diff_distrib mult.assoc mult_1_right)
  then have "\<bar>dbl x - x\<bar> = \<bar>?r - x * pow2 ?k\<bar> * pow2 (- ?k)" by (simp add: abs_mult)
  also have "\<dots> \<le> 1/2 * pow2 (- ?k)"
    using round_half_even_bounds [of "x * pow2 ?k"] by (intro mult_right_mono abs_leI) auto
  also have "pow2 (- ?k) = pow2 (ilog2 \<bar>x\<bar>) * pow2 (- 52)" unfolding pow2_add [symmetric] by simp
  finally show ?thesis by (simp add: pow2_def)
qed

text \<open>The relative error, with respect to the number and with respect to its double.\<close>

lemma dbl_error: "\<bar>dbl x - x\<bar> \<le> \<bar>x\<bar> / 2 ^ 53"
proof (cases "x = 0")
  case False
  have "pow2 (ilog2 \<bar>x\<bar>) / 2 ^ 53 \<le> \<bar>x\<bar> / 2 ^ 53" using ilog2_bounds(1) [of "\<bar>x\<bar>"] False by (simp add: divide_right_mono)
  with dbl_ulp [OF False] show ?thesis by linarith
qed simp

lemma dbl_error_result: "\<bar>dbl x - x\<bar> \<le> \<bar>dbl x\<bar> / 2 ^ 53"
proof (cases "x = 0")
  case False
  have "pow2 (ilog2 \<bar>x\<bar>) \<le> \<bar>dbl x\<bar>"
    using dbl_binade(1) [of "\<bar>x\<bar>"] False dbl_minus [of x] dbl_pos [of x] by (cases "0 < x") auto
  then have "pow2 (ilog2 \<bar>x\<bar>) / 2 ^ 53 \<le> \<bar>dbl x\<bar> / 2 ^ 53" by (simp add: divide_right_mono)
  with dbl_ulp [OF False] show ?thesis by linarith
qed simp

subsection \<open>The shortest decimal\<close>

primrec shortest_decimal :: "nat \<Rightarrow> int \<Rightarrow> rat \<Rightarrow> rat" where
  "shortest_decimal 0 k x = x"
| "shortest_decimal (Suc n) k x =
     (let y = of_int (round_half_even (x * pow10 k)) * pow10 (- k) in
      if dbl y = x then y else shortest_decimal n (k + 1) x)"

definition float_decimal :: "rat \<Rightarrow> rat" where
  "float_decimal x = (let d = dbl x in if d = 0 then 0 else shortest_decimal 20 (- 1 - ilog10 \<bar>d\<bar>) d)"

lemma shortest_decimal_reads: "dbl x = x \<Longrightarrow> dbl (shortest_decimal n k x) = x"
  by (induction n arbitrary: k) (simp_all add: Let_def)

lemma dbl_float_decimal [simp]: "dbl (float_decimal x) = dbl x"
  by (auto simp: float_decimal_def Let_def intro: shortest_decimal_reads)

lemma float_decimal_dbl: "dbl x = dbl y \<Longrightarrow> float_decimal x = float_decimal y"
  by (simp add: float_decimal_def)

lemma float_decimal_idem [simp]: "float_decimal (float_decimal x) = float_decimal x" "float_decimal (dbl x) = float_decimal x"
  by (rule float_decimal_dbl, simp)+

lemma float_decimal_0 [simp]: "float_decimal 0 = 0"
  by (simp add: float_decimal_def)

lemma float_decimal_mono: "x \<le> y \<Longrightarrow> float_decimal x \<le> float_decimal y"
  using dbl_mono [of x y] dbl_mono [of "float_decimal y" "float_decimal x"] float_decimal_dbl [of x y] by fastforce

lemma float_decimal_nonneg: "0 \<le> x \<Longrightarrow> 0 \<le> float_decimal x"
  using float_decimal_mono [of 0 x] by simp

lemma float_decimal_strict: "float_decimal x < y \<Longrightarrow> float_decimal y = y \<Longrightarrow> x < y"
  using float_decimal_mono [of y x] by fastforce

lemma float_decimal_pos: "0 < x \<Longrightarrow> 0 < float_decimal x"
  using float_decimal_nonneg [of x] dbl_pos [of x] dbl_float_decimal [of x] by (cases "float_decimal x = 0") auto

text \<open>A decimal with at most twelve places below 2048 is its own shortest decimal.\<close>

lemma same_grid_point:
  assumes "on_grid12 x" "on_grid12 y" "\<bar>x - y\<bar> < 1 / 10 ^ 12" shows "x = y"
proof -
  obtain m n where m: "x = of_int m / 10 ^ 12" "y = of_int n / 10 ^ 12" using assms(1,2) by (auto simp: on_grid12_iff)
  then have "x - y = of_int (m - n) / 10 ^ 12" by (simp add: diff_divide_distrib)
  with assms(3) have "\<bar>of_int (m - n) :: rat\<bar> < 1" by (simp add: abs_divide divide_less_eq)
  then have "m = n" by linarith
  with m show ?thesis by simp
qed

lemma coarse_on_grid: "k \<le> 12 \<Longrightarrow> on_grid12 (of_int n * pow10 (- k))"
proof -
  assume k: "k \<le> 12"
  have "pow10 (- k) * 10 ^ 12 = pow10 (- k) * pow10 12" by (simp add: pow10_def)
  also have "\<dots> = pow10 (- k + 12)" by (simp only: pow10_add)
  also have "\<dots> = of_int (10 ^ nat (12 - k))" using k by (simp add: pow10_def)
  finally have "of_int n * pow10 (- k) * 10 ^ 12 = of_int (n * 10 ^ nat (12 - k))" by (simp only: mult.assoc of_int_mult)
  then show ?thesis unfolding on_grid12_def by (simp only: floor_of_int)
qed

lemma shortest_on_grid:
  assumes g: "on_grid12 x" and b: "\<bar>x\<bar> < 2048" and k: "k \<le> 12" "12 < k + int n"
  shows "shortest_decimal n k (dbl x) = x"
  using k
proof (induction n arbitrary: k)
  case (Suc n)
  let ?d = "dbl x" and ?y = "of_int (round_half_even (dbl x * pow10 k)) * pow10 (- k)"
  have near: "\<bar>?d - x\<bar> < 1 / (4 * 10 ^ 12)" using dbl_error [of x] b by (simp add: field_simps)
  have dy: "?y = x" if "dbl ?y = ?d"
  proof (rule same_grid_point [OF coarse_on_grid [OF Suc.prems(1)] g])
    have d: "\<bar>?d\<bar> < 2049" using near b abs_near(1) [of ?d x] by simp
    have "\<bar>?d - ?y\<bar> \<le> \<bar>?d\<bar> / 2 ^ 53" using dbl_error_result [of ?y] unfolding that .
    then have "\<bar>?d - ?y\<bar> < 1 / (2 * 10 ^ 12)" using d by (simp add: field_simps)
    with near show "\<bar>?y - x\<bar> < 1 / 10 ^ 12"
      using abs_triangle_ineq [of "?y - ?d" "?d - x"] by (simp add: abs_minus_commute field_simps)
  qed
  show ?case
  proof (cases "dbl ?y = ?d")
    case True
    with dy show ?thesis by (simp add: Let_def)
  next
    case False
    have "k \<noteq> 12"
    proof
      assume k: "k = 12"
      obtain m where m: "x = of_int m / 10 ^ 12" using g by (auto simp: on_grid12_iff)
      have "?d * 10 ^ 12 - of_int m = (?d - x) * 10 ^ 12" by (simp add: m field_simps)
      then have "\<bar>?d * 10 ^ 12 - of_int m\<bar> = \<bar>?d - x\<bar> * 10 ^ 12" by (simp only: abs_mult) simp
      then have close: "\<bar>?d * 10 ^ 12 - of_int m\<bar> < 1 / 4" using near by (simp add: field_simps)
      have "\<bar>of_int (round_half_even (?d * 10 ^ 12)) - ?d * 10 ^ 12\<bar> \<le> 1 / 2"
        using round_half_even_bounds [of "?d * 10 ^ 12"] by (intro abs_leI) auto
      with close have "\<bar>of_int (round_half_even (?d * 10 ^ 12)) - (of_int m :: rat)\<bar> < 1" by linarith
      then have "round_half_even (?d * 10 ^ 12) = m" by linarith
      with k m have "?y = x" by (simp add: pow10_def)
      with False show False by simp
    qed
    with Suc.prems have "shortest_decimal n (k + 1) ?d = x" by (intro Suc.IH) simp_all
    with False show ?thesis by (simp add: Let_def)
  qed
qed simp

theorem float_decimal_on_grid:
  assumes g: "on_grid12 x" and b: "\<bar>x\<bar> < 2048" shows "float_decimal x = x"
proof (cases "x = 0")
  case False
  let ?d = "dbl x"
  have near: "\<bar>?d - x\<bar> < 1 / (4 * 10 ^ 12)" using dbl_error [of x] b by (simp add: field_simps)
  obtain m where m: "x = of_int m / 10 ^ 12" using g by (auto simp: on_grid12_iff)
  then have "1 \<le> \<bar>m\<bar>" using False by auto
  then have "1 / 10 ^ 12 \<le> \<bar>x\<bar>" unfolding m by (simp add: abs_divide divide_right_mono)
  with near have lo: "1 / 10 ^ 13 < \<bar>?d\<bar>" and hi: "\<bar>?d\<bar> < 10 ^ 4"
    using b abs_near(1) [of ?d x] abs_near(2) [where a = ?d and b = x] by (simp_all add: field_simps)
  then have d: "0 < \<bar>?d\<bar>" using less_trans [of 0 "1 / 10 ^ 13" "\<bar>?d\<bar>"] by simp
  note i = ilog10_bounds [OF d]
  have "pow10 (- 13) < pow10 (ilog10 \<bar>?d\<bar> + 1)" using lo i(2) by (simp add: pow10_def)
  then have "\<not> ilog10 \<bar>?d\<bar> + 1 \<le> - 13" using pow10_mono [of "ilog10 \<bar>?d\<bar> + 1" "- 13"] by linarith
  moreover have "pow10 (ilog10 \<bar>?d\<bar>) < pow10 4" using hi i(1) by (simp add: pow10_def)
  then have "\<not> 4 \<le> ilog10 \<bar>?d\<bar>" using pow10_mono [of 4 "ilog10 \<bar>?d\<bar>"] by linarith
  ultimately have "shortest_decimal 20 (- 1 - ilog10 \<bar>?d\<bar>) ?d = x" by (intro shortest_on_grid [OF g b]) simp_all
  then show ?thesis using d by (simp add: float_decimal_def Let_def)
qed simp

text \<open>The distance between a number and the decimal of its double.\<close>

lemma two_errors:
  fixes a b c e x :: rat
  shows "a \<le> c / 2 ^ 53 \<Longrightarrow> c \<le> 2 * x \<Longrightarrow> b \<le> x / 2 ^ 53 \<Longrightarrow> e \<le> a + b \<Longrightarrow> 0 \<le> x \<Longrightarrow> e \<le> x / 2 ^ 51"
  by simp

lemma float_decimal_error: "\<bar>float_decimal x - x\<bar> \<le> \<bar>x\<bar> / 2 ^ 51"
proof -
  have "\<bar>float_decimal x - dbl x\<bar> \<le> \<bar>dbl x\<bar> / 2 ^ 53"
    using dbl_error_result [of "float_decimal x"] by (simp add: abs_minus_commute)
  moreover have "\<bar>x\<bar> / 2 ^ 53 \<le> \<bar>x\<bar>" by (simp add: divide_le_eq)
  then have "\<bar>dbl x\<bar> \<le> 2 * \<bar>x\<bar>" using dbl_error [of x] abs_near(1) [of "dbl x" x] by linarith
  ultimately show ?thesis
    by (rule two_errors) (use dbl_error [of x] abs_triangle_ineq [of "float_decimal x - dbl x" "dbl x - x"] in simp_all)
qed

subsection \<open>Sums and differences rounded to twelve places\<close>

text \<open>\<^verbatim>\<open>round(x + y, 12)\<close> and \<^verbatim>\<open>round(x - y, 12)\<close> on floats. Python rounds the exact value of the double half to
  even and reads the result back.\<close>

definition py_round12 :: "rat \<Rightarrow> rat" where
  "py_round12 x = float_decimal (round12 x)"

definition plus12 :: "rat \<Rightarrow> rat \<Rightarrow> rat" where
  "plus12 x y = py_round12 (dbl (dbl x + dbl y))"

definition minus12 :: "rat \<Rightarrow> rat \<Rightarrow> rat" where
  "minus12 x y = py_round12 (dbl (dbl x - dbl y))"

lemma py_round12_mono: "x \<le> y \<Longrightarrow> py_round12 x \<le> py_round12 y"
  by (simp add: py_round12_def float_decimal_mono round12_mono)

lemma py_round12_0 [simp]: "py_round12 0 = 0"
  by (simp add: py_round12_def)

lemma py_round12_nonneg: "0 \<le> x \<Longrightarrow> 0 \<le> py_round12 x"
  using py_round12_mono [of 0 x] by simp

lemma plus12_nonneg: "0 \<le> x \<Longrightarrow> 0 \<le> y \<Longrightarrow> 0 \<le> plus12 x y"
  by (simp add: plus12_def py_round12_nonneg dbl_nonneg)

text \<open>On amounts with at most twelve places below 2048 both are exact: the errors of the doubles stay below
  half a unit of the twelfth place.\<close>

lemma round12_near:
  assumes "on_grid12 z" "\<bar>d - z\<bar> < 1 / (2 * 10 ^ 12)" shows "round12 d = z"
proof (rule same_grid_point [OF round12_on_grid assms(1)])
  show "\<bar>round12 d - z\<bar> < 1 / 10 ^ 12"
    using round12_error [of d] assms(2) abs_triangle_ineq [of "round12 d - d" "d - z"] by (simp add: field_simps)
qed

lemma two_dbl_error:
  assumes "\<bar>x\<bar> + \<bar>y\<bar> < 2048"
  shows "\<bar>dbl (dbl x + dbl y) - (x + y)\<bar> < 1 / (2 * 10 ^ 12)"
proof -
  let ?s = "dbl x + dbl y"
  have "?s - (x + y) = (dbl x - x) + (dbl y - y)" by simp
  then have "\<bar>?s - (x + y)\<bar> \<le> \<bar>dbl x - x\<bar> + \<bar>dbl y - y\<bar>" by (simp only: abs_triangle_ineq)
  also have "\<dots> \<le> \<bar>x\<bar> / 2 ^ 53 + \<bar>y\<bar> / 2 ^ 53" by (intro add_mono dbl_error)
  also have "\<dots> \<le> 2048 / 2 ^ 53" using assms by (simp add: add_divide_distrib [symmetric] divide_right_mono)
  finally have s: "\<bar>?s - (x + y)\<bar> \<le> 2048 / 2 ^ 53" .
  have "\<bar>?s\<bar> \<le> \<bar>?s - (x + y)\<bar> + \<bar>x + y\<bar>" by (rule abs_near(1))
  also have "\<dots> < 2049" using s assms abs_triangle_ineq [of x y] by simp
  finally have "\<bar>?s\<bar> / 2 ^ 53 < 2049 / 2 ^ 53" by (rule divide_strict_right_mono) simp
  with dbl_error [of ?s] have d: "\<bar>dbl ?s - ?s\<bar> < 2049 / 2 ^ 53" by (rule le_less_trans)
  have "dbl ?s - (x + y) = (dbl ?s - ?s) + (?s - (x + y))" by simp
  then have "\<bar>dbl ?s - (x + y)\<bar> \<le> \<bar>dbl ?s - ?s\<bar> + \<bar>?s - (x + y)\<bar>" by (simp only: abs_triangle_ineq)
  also have "\<dots> < 2049 / 2 ^ 53 + 2048 / 2 ^ 53" using d s by (rule add_less_le_mono)
  also have "\<dots> < 1 / (2 * 10 ^ 12)" by simp
  finally show ?thesis .
qed

theorem plus12_exact:
  assumes "on_grid12 x" "on_grid12 y" "0 \<le> x" "0 \<le> y" "x + y < 2048" shows "plus12 x y = x + y"
proof -
  have "round12 (dbl (dbl x + dbl y)) = x + y"
    using assms by (intro round12_near on_grid12_add two_dbl_error) simp_all
  then show ?thesis using assms by (simp add: plus12_def py_round12_def float_decimal_on_grid on_grid12_add)
qed

theorem minus12_exact:
  assumes "on_grid12 x" "on_grid12 y" "0 \<le> x" "0 \<le> y" "x + y < 2048" shows "minus12 x y = x - y"
proof -
  have "round12 (dbl (dbl x + dbl (- y))) = x + - y"
    using assms on_grid12_diff [of x y] by (intro round12_near two_dbl_error) simp_all
  moreover have "\<bar>x - y\<bar> < 2048" using assms by (simp add: abs_less_iff)
  ultimately show ?thesis using assms
    by (simp add: minus12_def py_round12_def float_decimal_on_grid on_grid12_diff dbl_minus)
qed

text \<open>How they are evaluated.\<close>

lemma plus12_code [code]:
  "plus12 x y = (if on_grid12 x \<and> on_grid12 y \<and> 0 \<le> x \<and> 0 \<le> y \<and> x + y < 2048 then x + y else py_round12 (dbl (dbl x + dbl y)))"
  using plus12_exact [of x y] by (auto simp: plus12_def)

lemma minus12_code [code]:
  "minus12 x y = (if on_grid12 x \<and> on_grid12 y \<and> 0 \<le> x \<and> 0 \<le> y \<and> x + y < 2048 then x - y else py_round12 (dbl (dbl x - dbl y)))"
  using minus12_exact [of x y] by (auto simp: minus12_def)

lemma float_decimal_code [code]:
  "float_decimal x = (if on_grid12 x \<and> \<bar>x\<bar> < 2048 then x
     else let d = dbl x in if d = 0 then 0 else shortest_decimal 20 (- 1 - ilog10 \<bar>d\<bar>) d)"
  using float_decimal_on_grid [of x] by (auto simp: float_decimal_def)

end
