(* ===== verification/PositionRuleModel.thy ===== *)
theory PositionRuleModel
  imports DoubleFloat
begin

section \<open>Canonical position rules\<close>

text \<open>
  \<^verbatim>\<open>src/trading/position_rule_model.py\<close>: the rule definitions that strategies and positions
  persist as JSON, their normalisation, the materialisation of entry-relative rules to absolute
  price triggers, and the break-even target after costs. Dictionaries are association lists,
  every \<^verbatim>\<open>raise\<close> is a branch.
\<close>

subsection \<open>Constants\<close>

definition rule_schema_version :: int where
  "rule_schema_version = 1"

definition rule_purposes :: "string list" where
  "rule_purposes = [''stop_loss'', ''take_profit'', ''break_even'', ''trailing'', ''manual_review'', ''exit'']"

definition rule_actions :: "string list" where
  "rule_actions = [''close_position'', ''reduce_position'', ''amend_stop'', ''require_manual_review'']"

definition rule_styles :: "string list" where
  "rule_styles = [''absolute_price'', ''fixed_percent'', ''fixed_price'', ''evidence_target'',
     ''previous_swing_level'', ''impulse_origin'', ''signal_triggered'', ''break_even_threshold'',
     ''trailing_threshold'', ''manual_review'']"

definition previous_swing_level_parameters :: "string list" where
  "previous_swing_level_parameters = [''bar'', ''buffer_pct'', ''kind'', ''min_score'', ''nth'']"

definition impulse_origin_parameters :: "string list" where
  "impulse_origin_parameters = [''bar'', ''buffer_pct'', ''kind'', ''min_body_ratio'',
     ''min_body_vs_baseline_multiple'', ''min_volume_multiple'', ''nth'']"

definition valid_action_purposes :: "(string \<times> string list) list" where
  "valid_action_purposes =
     [(''close_position'', [''stop_loss'', ''take_profit'', ''trailing'', ''exit'']),
      (''reduce_position'', [''take_profit'', ''trailing'']),
      (''amend_stop'', [''break_even'', ''trailing'']),
      (''require_manual_review'', [''manual_review''])]"

subsection \<open>Helpers\<close>

text \<open>\<^verbatim>\<open>d.get(k, default)\<close>, \<^verbatim>\<open>except (TypeError, ValueError)\<close>\<close>

definition get_default :: "jobj \<Rightarrow> string \<Rightarrow> json \<Rightarrow> json" where
  "get_default d k v = or_default (tget d k) v"

definition catch_num :: "string \<Rightarrow> 'a result \<Rightarrow> 'a result" where
  "catch_num message r = (case r of
     Inl TypeError \<Rightarrow> Inl (ValueError message)
   | Inl (ValueError _) \<Rightarrow> Inl (ValueError message)
   | _ \<Rightarrow> r)"

definition reject :: "bool \<Rightarrow> string \<Rightarrow> unit result" where
  "reject bad message = (if bad then Inl (ValueError message) else Inr ())"

text \<open>\<^verbatim>\<open>Decimal(str(value))\<close> with its \<^verbatim>\<open>except\<close> clause, then a range check on a finite value.\<close>

definition parse_decimal :: "string \<Rightarrow> json \<Rightarrow> decimal result" where
  "parse_decimal message value =
     (case dec_of_json value of None \<Rightarrow> Inl (ValueError message) | Some d \<Rightarrow> Inr d)"

definition ranged_decimal :: "string \<Rightarrow> string \<Rightarrow> (rat \<Rightarrow> bool) \<Rightarrow> json \<Rightarrow> decimal result" where
  "ranged_decimal invalid outside ok value =
     bindE (parse_decimal invalid value) (\<lambda>d.
     if \<not> dec_finite d \<or> \<not> ok (dec_val d) then Inl (ValueError outside) else Inr d)"

text \<open>\<^verbatim>\<open>a <= b\<close> on decimals; an ordering comparison with NaN raises.\<close>

fun dec_le :: "decimal \<Rightarrow> decimal \<Rightarrow> bool result" where
  "dec_le DNaN _ = Inl InvalidOperation"
| "dec_le _ DNaN = Inl InvalidOperation"
| "dec_le (DInf True) _ = Inr True"
| "dec_le _ (DInf False) = Inr True"
| "dec_le (Dec a b) (Dec c d) = Inr (dec_val (Dec a b) \<le> dec_val (Dec c d))"
| "dec_le _ _ = Inr False"

text \<open>\<^verbatim>\<open>float(decimal)\<close>: the nearest double.\<close>

fun dec_to_float :: "decimal \<Rightarrow> pyfloat" where
  "dec_to_float (Dec a b) = PFin (float_decimal (dec_val (Dec a b)))"
| "dec_to_float (DInf neg) = signed_inf neg"
| "dec_to_float DNaN = PNaN"

text \<open>\<^verbatim>\<open>entry * (1 + pct)\<close> or \<^verbatim>\<open>entry * (1 - pct)\<close> for a positive finite entry.\<close>

definition scaled_entry :: "decimal \<Rightarrow> bool \<Rightarrow> decimal \<Rightarrow> decimal" where
  "scaled_entry entry up pct = (case pct of
     Dec c e \<Rightarrow> dec_times entry (dec_plus (Dec 1 0) (if up then pct else dec_negate pct))
   | DInf neg \<Rightarrow> DInf (if up then neg else \<not> neg)
   | DNaN \<Rightarrow> DNaN)"

subsection \<open>Normalisation\<close>

definition infer_style :: "string \<Rightarrow> jobj \<Rightarrow> string" where
  "infer_style purpose expression =
     (if (purpose = ''stop_loss'' \<or> purpose = ''take_profit'') \<and>
         (jget expression ''type'' = JStr ''price_above'' \<or> jget expression ''type'' = JStr ''price_below'')
      then ''absolute_price''
      else or_default (tget [(''break_even'', ''break_even_threshold''), (''trailing'', ''trailing_threshold''),
             (''manual_review'', ''manual_review'')] purpose) ''signal_triggered'')"

definition default_action :: "string \<Rightarrow> jobj \<Rightarrow> jobj" where
  "default_action purpose metadata =
     (if purpose = ''break_even'' \<or> purpose = ''trailing'' then [(''type'', JStr ''amend_stop'')]
      else if purpose = ''manual_review'' then [(''type'', JStr ''require_manual_review'')]
      else (let fraction = jget metadata ''quantity_fraction'' in
            if purpose = ''take_profit'' \<and> fraction \<noteq> JNull
            then [(''type'', JStr ''reduce_position''), (''quantity_fraction'', fraction),
                  (''quantity_basis'', JStr ''initial'')]
            else [(''type'', JStr ''close_position'')]))"

definition trailing_number :: "jobj \<Rightarrow> string \<Rightarrow> rat option \<Rightarrow> jobj result" where
  "trailing_number d key upper =
     (let value = jget d key in
      if value = JNull then Inr d
      else bindE (ranged_decimal (''trailing '' @ key @ '' is invalid'')
              (''trailing '' @ key @ '' is outside its allowed range'')
              (\<lambda>v. 0 < v \<and> (case upper of None \<Rightarrow> True | Some u \<Rightarrow> v \<le> u)) value)
             (\<lambda>p. Inr (tset key (JStr (dec_str p)) d)))"

definition normalize_trailing_parameters :: "jobj \<Rightarrow> string \<Rightarrow> jobj result" where
  "normalize_trailing_parameters parameters action_type =
     (let kind = text_of (jget parameters ''trailing_kind'') in
      bindE (reject (kind \<noteq> ''stop'' \<and> kind \<noteq> ''take_profit'') ''trailing_kind must be stop or take_profit'') (\<lambda>_.
      bindE (reject (kind = ''stop'' \<and> action_type \<noteq> ''amend_stop'') ''trailing stop requires amend_stop'') (\<lambda>_.
      bindE (reject (kind = ''take_profit'' \<and> action_type \<noteq> ''close_position'' \<and> action_type \<noteq> ''reduce_position'')
               ''trailing take-profit requires close_position or reduce_position'') (\<lambda>_.
      bindE (reject ((jget parameters ''activation_price'' = JNull) = (jget parameters ''activation_profit_pct'' = JNull))
               ''trailing requires exactly one activation_price or activation_profit_pct'') (\<lambda>_.
      bindE (reject ((jget parameters ''distance'' = JNull) = (jget parameters ''distance_pct'' = JNull))
               ''trailing requires exactly one distance or distance_pct'') (\<lambda>_.
      bindE (trailing_number parameters ''activation_price'' None) (\<lambda>r1.
      bindE (trailing_number r1 ''activation_profit_pct'' (Some 1)) (\<lambda>r2.
      bindE (trailing_number r2 ''distance'' None) (\<lambda>r3.
      bindE (trailing_number r3 ''distance_pct'' (Some (1/2))) (\<lambda>r4.
      let timeframe = text_of (jget r4 ''timeframe'') in
      bindE (reject (timeframe = []) ''trailing timeframe is required'') (\<lambda>_.
      bindE (catch_num ''trailing stale_after_seconds must be an integer''
               (py_int (get_default r4 ''stale_after_seconds'' (JInt 90)))) (\<lambda>stale_after.
      bindE (reject (stale_after < 5 \<or> 3600 < stale_after)
               ''trailing stale_after_seconds must be between 5 and 3600'') (\<lambda>_.
      Inr (tset ''stale_after_seconds'' (JInt stale_after) (tset ''timeframe'' (JStr timeframe) r4)))))))))))))))"

text \<open>The checks that both dynamic styles share: presence, bar, kind and nth.\<close>

definition dynamic_head :: "string \<Rightarrow> string list \<Rightarrow> string \<Rightarrow> string \<Rightarrow> jobj \<Rightarrow> (string \<times> string \<times> int) result" where
  "dynamic_head style required kind1 kind2 parameters =
     (let missing = filter (\<lambda>k. tget parameters k = None) required;
          bar = text_of (jget parameters ''bar''); kind = text_of (jget parameters ''kind'') in
      bindE (reject (missing \<noteq> []) (style @ '' requires parameters: '' @ intersperse '', '' missing)) (\<lambda>_.
      bindE (reject (bar = []) (style @ '' bar is required'')) (\<lambda>_.
      bindE (reject (kind \<noteq> kind1 \<and> kind \<noteq> kind2) (style @ '' kind must be '' @ kind1 @ '' or '' @ kind2)) (\<lambda>_.
      bindE (catch_num (style @ '' nth must be an integer'') (py_int (jget parameters ''nth''))) (\<lambda>nth.
      bindE (reject (nth < 1) (style @ '' nth must be at least 1'')) (\<lambda>_.
      Inr (bar, kind, nth)))))))"

definition normalize_previous_swing_level_parameters :: "jobj \<Rightarrow> jobj result" where
  "normalize_previous_swing_level_parameters parameters =
     bindE (dynamic_head ''previous_swing_level'' previous_swing_level_parameters ''support'' ''resistance''
              parameters) (\<lambda>(bar, kind, nth).
     bindE (ranged_decimal ''previous_swing_level min_score is invalid''
              ''previous_swing_level min_score must be between 0 and 1'' (\<lambda>v. 0 \<le> v \<and> v \<le> 1)
              (jget parameters ''min_score'')) (\<lambda>min_score.
     bindE (ranged_decimal ''previous_swing_level buffer_pct is invalid''
              ''previous_swing_level buffer_pct must be between 0 and 0.5'' (\<lambda>v. 0 \<le> v \<and> v \<le> 1/2)
              (jget parameters ''buffer_pct'')) (\<lambda>buffer_pct.
     Inr (tset ''buffer_pct'' (JStr (dec_str buffer_pct)) (tset ''min_score'' (JStr (dec_str min_score))
       (tset ''nth'' (JInt nth) (tset ''kind'' (JStr kind) (tset ''bar'' (JStr bar) parameters))))))))"

definition normalize_impulse_origin_parameters :: "jobj \<Rightarrow> jobj result" where
  "normalize_impulse_origin_parameters parameters =
     bindE (dynamic_head ''impulse_origin'' impulse_origin_parameters ''bullish'' ''bearish'' parameters)
       (\<lambda>(bar, kind, nth).
     bindE (ranged_decimal ''impulse_origin min_volume_multiple is invalid''
              ''impulse_origin min_volume_multiple must be greater than 1 and at most 50''
              (\<lambda>v. 1 < v \<and> v \<le> 50) (jget parameters ''min_volume_multiple'')) (\<lambda>min_volume_multiple.
     bindE (ranged_decimal ''impulse_origin min_body_ratio is invalid''
              ''impulse_origin min_body_ratio must be between 0 and 1''
              (\<lambda>v. 0 \<le> v \<and> v \<le> 1) (jget parameters ''min_body_ratio'')) (\<lambda>min_body_ratio.
     bindE (ranged_decimal ''impulse_origin min_body_vs_baseline_multiple is invalid''
              ''impulse_origin min_body_vs_baseline_multiple must be between 0 and 50''
              (\<lambda>v. 0 \<le> v \<and> v \<le> 50) (jget parameters ''min_body_vs_baseline_multiple'')) (\<lambda>min_body_baseline.
     bindE (ranged_decimal ''impulse_origin buffer_pct is invalid''
              ''impulse_origin buffer_pct must be between 0 and 0.5''
              (\<lambda>v. 0 \<le> v \<and> v \<le> 1/2) (jget parameters ''buffer_pct'')) (\<lambda>buffer_pct.
     Inr (tset ''buffer_pct'' (JStr (dec_str buffer_pct))
       (tset ''min_body_vs_baseline_multiple'' (JStr (dec_str min_body_baseline))
       (tset ''min_body_ratio'' (JStr (dec_str min_body_ratio))
       (tset ''min_volume_multiple'' (JStr (dec_str min_volume_multiple))
       (tset ''nth'' (JInt nth) (tset ''kind'' (JStr kind) (tset ''bar'' (JStr bar) parameters))))))))))))"

text \<open>The action of a rule: supplied or defaulted, then checked against the purpose.\<close>

definition normalize_action :: "string \<Rightarrow> jobj \<Rightarrow> (string \<times> jobj) result" where
  "normalize_action purpose action =
     (let action_type = text_of (jget action ''type''); quantity_fraction = jget action ''quantity_fraction'' in
      bindE (reject (action_type \<notin> set rule_actions)
        (''unsupported position rule action: '' @ (if action_type = [] then ''missing'' else action_type))) (\<lambda>_.
      bindE (reject (purpose \<notin> set (or_default (tget valid_action_purposes action_type) []))
        (action_type @ '' action is not valid for '' @ purpose)) (\<lambda>_.
      if action_type = ''reduce_position''
      then bindE (catch_num ''reduce_position requires quantity_fraction'' (py_float quantity_fraction)) (\<lambda>fraction.
           bindE (reject (\<not> (fl_lt (PFin 0) fraction \<and> fl_lt fraction (PFin 1)))
             ''reduce_position quantity_fraction must be between 0 and 1'') (\<lambda>_.
           let a1 = tset ''quantity_fraction'' (JFloat fraction) action;
               or_initial = py_or (jget a1 ''quantity_basis'') (JStr ''initial'');
               quantity_basis = py_str or_initial in
           bindE (reject (quantity_basis \<noteq> ''initial'' \<and> quantity_basis \<noteq> ''remaining'')
             ''reduce_position quantity_basis must be initial or remaining'') (\<lambda>_.
           Inr (action_type, tset ''quantity_basis'' (JStr quantity_basis) a1))))
      else bindE (reject (quantity_fraction \<noteq> JNull) ''quantity_fraction is valid only for reduce_position'') (\<lambda>_.
           Inr (action_type, action)))))"

definition as_dict :: "string \<Rightarrow> json \<Rightarrow> jobj result" where
  "as_dict message j = (case j of JObj d \<Rightarrow> Inr d | _ \<Rightarrow> Inl (ValueError message))"

definition normalize_parameters :: "string \<Rightarrow> string \<Rightarrow> string \<Rightarrow> jobj \<Rightarrow> jobj result" where
  "normalize_parameters purpose style action_type parameters =
     bindE (if purpose = ''trailing'' then normalize_trailing_parameters parameters action_type
            else Inr parameters) (\<lambda>p1.
     bindE (if style = ''previous_swing_level''
            then bindE (reject (purpose \<noteq> ''stop_loss'' \<and> purpose \<noteq> ''take_profit'')
                   ''previous_swing_level is only valid for stop_loss or take_profit'') (\<lambda>_.
                 normalize_previous_swing_level_parameters p1)
            else Inr p1) (\<lambda>p2.
     if style = ''impulse_origin''
     then bindE (reject (purpose \<noteq> ''stop_loss'') ''impulse_origin is only valid for stop_loss'') (\<lambda>_.
          normalize_impulse_origin_parameters p2)
     else Inr p2))"

definition rule_json :: "string \<Rightarrow> string \<Rightarrow> bool \<Rightarrow> json \<Rightarrow> jobj \<Rightarrow> jobj \<Rightarrow> jobj \<Rightarrow> jobj" where
  "rule_json purpose style enabled trigger action parameters evidence =
     [(''schema_version'', JInt rule_schema_version), (''purpose'', JStr purpose), (''style'', JStr style),
      (''enabled'', JBool enabled), (''trigger'', trigger), (''action'', JObj action),
      (''parameters'', JObj parameters), (''evidence'', JObj evidence)]"

definition normalize_position_rule :: "string \<Rightarrow> json \<Rightarrow> bool \<Rightarrow> jobj \<Rightarrow> jobj result" where
  "normalize_position_rule purpose expression enabled metadata =
     bindE (reject (purpose \<notin> set rule_purposes) (''unsupported position rule purpose: '' @ purpose)) (\<lambda>_.
     bindE (reject (as_obj expression = []) ''position rule expression must be a non-empty object'') (\<lambda>_.
     let supplied = as_obj (jget metadata ''rule_definition'');
         style = py_str (py_or (jget supplied ''style'') (JStr (infer_style purpose (as_obj expression)))) in
     bindE (reject (style \<notin> set rule_styles) (''unsupported position rule style: '' @ style)) (\<lambda>_.
     bindE (normalize_action purpose (case jget supplied ''action'' of
              JObj a \<Rightarrow> a | _ \<Rightarrow> default_action purpose metadata)) (\<lambda>(action_type, action).
     bindE (as_dict ''position rule evidence must be an object''
              (get_default metadata ''evidence'' (get_default supplied ''evidence'' (JObj [])))) (\<lambda>evidence.
     bindE (as_dict ''position rule parameters must be an object''
              (get_default metadata ''parameters'' (get_default supplied ''parameters'' (JObj [])))) (\<lambda>raw.
     bindE (normalize_parameters purpose style action_type raw) (\<lambda>parameters.
     Inr (tset ''rule_definition'' (JObj (rule_json purpose style enabled expression action parameters evidence))
       metadata))))))))"

subsection \<open>Default rules of a strategy\<close>

definition normalize_condition :: "int \<Rightarrow> json \<Rightarrow> jobj result" where
  "normalize_condition index condition =
     bindE (as_dict (''default_rules.close_conditions['' @ show_int index @ ''] must be an object'') condition) (\<lambda>item.
     let purpose = py_str (py_or (jget item ''purpose'') (JStr ''exit'')) in
     bindE (reject (\<not> is_obj (jget item ''expression''))
       (''default_rules.close_conditions['' @ show_int index @ ''].expression must be an object'')) (\<lambda>_.
     let enabled = truthy (get_default item ''enabled'' (JBool True)) in
     bindE (normalize_position_rule purpose (jget item ''expression'') enabled (as_obj (jget item ''metadata''))) (\<lambda>m.
     Inr (tset ''metadata'' (JObj m) (tset ''enabled'' (JBool enabled) (tset ''purpose'' (JStr purpose) item))))))"

fun normalize_condition_list :: "int \<Rightarrow> json list \<Rightarrow> jobj list result" where
  "normalize_condition_list i [] = Inr []"
| "normalize_condition_list i (c # cs) =
     bindE (normalize_condition i c) (\<lambda>item.
     bindE (normalize_condition_list (i + 1) cs) (\<lambda>items. Inr (item # items)))"

definition item_action :: "jobj \<Rightarrow> jobj" where
  "item_action item = as_obj (jget (as_obj (jget (as_obj (jget item ''metadata'')) ''rule_definition'')) ''action'')"

definition is_staged :: "jobj \<Rightarrow> bool" where
  "is_staged item = (truthy (jget item ''enabled'') \<and>
     jget (item_action item) ''type'' = JStr ''reduce_position'' \<and>
     jget (item_action item) ''quantity_basis'' = JStr ''initial'')"

definition item_fraction :: "jobj \<Rightarrow> pyfloat" where
  "item_fraction item = (case py_float (jget (item_action item) ''quantity_fraction'') of
     Inr f \<Rightarrow> f | Inl _ \<Rightarrow> PNaN)"

definition staged_fraction :: "jobj list \<Rightarrow> pyfloat" where
  "staged_fraction items = foldl fl_add (PFin 0) (map item_fraction (filter is_staged items))"

definition normalize_default_rules :: "jobj \<Rightarrow> jobj result" where
  "normalize_default_rules default_rules =
     bindE (case get_default default_rules ''close_conditions'' (JList []) of
         JNull \<Rightarrow> Inr [] | JList cs \<Rightarrow> Inr cs
       | _ \<Rightarrow> Inl (ValueError ''default_rules.close_conditions must be a list'')) (\<lambda>conditions.
     bindE (normalize_condition_list 0 conditions) (\<lambda>normalized.
     let result = tset ''rule_schema_version'' (JInt rule_schema_version)
           (tset ''close_conditions'' (JList (map JObj normalized)) default_rules);
         staged = staged_fraction normalized in
     bindE (reject (fl_lt (PFin (1 + 1 / 10 ^ 12)) staged)
       ''enabled staged take-profit fractions cannot exceed initial quantity'') (\<lambda>_.
     if truthy (JFloat staged)
     then Inr (tset ''staged_take_profit'' (JObj
            [(''initial_quantity_fraction'', JFloat staged),
             (''running_remainder_fraction'',
                JFloat (if fl_lt (PFin 0) (fl_sub (PFin 1) staged) then fl_sub (PFin 1) staged else PFin 0))]) result)
     else Inr (tdel ''staged_take_profit'' result))))"

subsection \<open>Materialisation\<close>

definition price_trigger :: "string \<Rightarrow> string \<Rightarrow> string \<Rightarrow> decimal \<Rightarrow> jobj result" where
  "price_trigger purpose side inst_id price =
     bindE (reject (purpose \<noteq> ''stop_loss'' \<and> purpose \<noteq> ''take_profit'')
       (purpose @ '' cannot use a price materialization style'')) (\<lambda>_.
     let above = ((purpose = ''take_profit'' \<and> side = ''long'') \<or> (purpose = ''stop_loss'' \<and> side = ''short'')) in
     Inr [(''type'', JStr (if above then ''price_above'' else ''price_below'')), (''symbol'', JStr inst_id),
          (''value'', JFloat (dec_to_float price))])"

definition validate_price_side :: "string \<Rightarrow> string \<Rightarrow> decimal \<Rightarrow> decimal \<Rightarrow> unit result" where
  "validate_price_side purpose side entry price =
     (let favorable = (purpose = ''take_profit''); must_be_above = ((side = ''long'') = favorable) in
      bindE (if must_be_above then dec_le price entry else dec_le entry price) (\<lambda>wrong.
      reject wrong (purpose @ '' price must be '' @ (if must_be_above then ''above'' else ''below'') @
        '' entry for '' @ side)))"

text \<open>The activation trigger of break-even and trailing rules: favourable to the entry.\<close>

definition activation_trigger :: "string \<Rightarrow> bool \<Rightarrow> string \<Rightarrow> decimal \<Rightarrow> decimal \<Rightarrow> jobj result" where
  "activation_trigger message long inst_id entry threshold =
     bindE (if long then dec_le threshold entry else dec_le entry threshold) (\<lambda>wrong.
     bindE (reject wrong message) (\<lambda>_.
     Inr [(''type'', JStr (if long then ''price_above'' else ''price_below'')), (''symbol'', JStr inst_id),
          (''value'', JFloat (dec_to_float threshold))]))"

definition materialize_fixed_percent :: "string \<Rightarrow> string \<Rightarrow> string \<Rightarrow> decimal \<Rightarrow> jobj \<Rightarrow> jobj result" where
  "materialize_fixed_percent purpose side inst_id entry parameters =
     bindE (ranged_decimal ''fixed_percent rule requires offset_pct'' ''fixed_percent offset_pct must be between 0 and 1''
       (\<lambda>v. 0 < v \<and> v < 1) (jget parameters ''offset_pct'')) (\<lambda>offset.
     let favorable = (purpose = ''take_profit''); increase = ((side = ''long'') = favorable) in
     price_trigger purpose side inst_id (scaled_entry entry increase offset))"

definition materialize_break_even :: "string \<Rightarrow> string \<Rightarrow> decimal \<Rightarrow> jobj \<Rightarrow> jobj result" where
  "materialize_break_even side inst_id entry parameters =
     (let activation_price = jget parameters ''activation_price'' in
      bindE (if activation_price \<noteq> JNull
             then parse_decimal ''break-even activation_price is invalid'' activation_price
             else bindE (ranged_decimal ''break-even rule requires activation_profit_pct or activation_price''
                    ''break-even activation_profit_pct must be between 0 and 1'' (\<lambda>v. 0 < v \<and> v \<le> 1)
                    (jget parameters ''activation_profit_pct'')) (\<lambda>pct.
                  Inr (scaled_entry entry (side = ''long'') pct))) (\<lambda>threshold.
      activation_trigger ''break-even activation must be favorable to entry'' (side = ''long'') inst_id entry threshold))"

definition decimal_or_raise :: "json \<Rightarrow> decimal result" where
  "decimal_or_raise j = (case dec_of_json j of None \<Rightarrow> Inl InvalidOperation | Some d \<Rightarrow> Inr d)"

definition materialize_trailing :: "string \<Rightarrow> string \<Rightarrow> decimal \<Rightarrow> jobj \<Rightarrow> jobj result" where
  "materialize_trailing side inst_id entry parameters =
     (let activation_price = jget parameters ''activation_price'' in
      bindE (if activation_price = JNull
             then (case tget parameters ''activation_profit_pct'' of
                 None \<Rightarrow> Inl (KeyError ''activation_profit_pct'')
               | Some v \<Rightarrow> bindE (decimal_or_raise v) (\<lambda>pct.
                   Inr (scaled_entry entry (side = ''long'') pct)))
             else decimal_or_raise activation_price) (\<lambda>threshold.
      activation_trigger ''trailing activation must be favorable to entry'' (side = ''long'') inst_id entry threshold))"

text \<open>\<^verbatim>\<open>x.get(k)\<close> on a value that may not be a dictionary\<close>

definition attr_get :: "json \<Rightarrow> string \<Rightarrow> json result" where
  "attr_get j k = (case j of JObj d \<Rightarrow> Inr (jget d k) | _ \<Rightarrow> Inl AttributeError)"

definition materialize_target_price ::
  "string \<Rightarrow> string \<Rightarrow> string \<Rightarrow> string \<Rightarrow> string \<Rightarrow> decimal \<Rightarrow> jobj \<Rightarrow> json \<Rightarrow> json \<Rightarrow> jobj result" where
  "materialize_target_price style purpose side inst_id basis entry parameters trigger evidence =
     (let value0 = get_default parameters ''target_price'' (jget parameters ''price'');
          value = (if value0 = JNull \<and> is_obj trigger then jget (as_obj trigger) ''value'' else value0) in
      bindE (ranged_decimal (style @ '' rule requires a valid target price'') (style @ '' target price must be positive'')
        (\<lambda>v. 0 < v) value) (\<lambda>price.
      bindE (reject (style = ''evidence_target'' \<and> \<not> truthy evidence)
        ''evidence_target rule requires structured evidence'') (\<lambda>_.
      bindE (if basis \<noteq> ''validation_reference'' then validate_price_side purpose side entry price else Inr ()) (\<lambda>_.
      price_trigger purpose side inst_id price))))"

definition materialize_absolute_price ::
  "string \<Rightarrow> string \<Rightarrow> string \<Rightarrow> string \<Rightarrow> decimal \<Rightarrow> json \<Rightarrow> json result" where
  "materialize_absolute_price purpose side inst_id basis entry trigger =
     bindE (attr_get trigger ''symbol'') (\<lambda>symbol.
     let t = (if symbol = JStr ''self'' then tset ''symbol'' (JStr inst_id) (as_obj trigger) else as_obj trigger) in
     if purpose = ''stop_loss'' \<or> purpose = ''take_profit''
     then bindE (parse_decimal ''absolute price rule requires a valid value'' (jget t ''value'')) (\<lambda>price.
          bindE (if basis \<noteq> ''validation_reference'' then validate_price_side purpose side entry price else Inr ()) (\<lambda>_.
          Inr (JObj t)))
     else Inr (JObj t))"

definition materialize_trigger ::
  "string \<Rightarrow> string \<Rightarrow> string \<Rightarrow> string \<Rightarrow> string \<Rightarrow> decimal \<Rightarrow> jobj \<Rightarrow> json \<Rightarrow> json \<Rightarrow> json result" where
  "materialize_trigger style purpose side inst_id basis entry parameters trigger evidence =
     (let obj = (\<lambda>r. bindE r (\<lambda>t. Inr (JObj t))) in
      if style = ''fixed_percent'' then obj (materialize_fixed_percent purpose side inst_id entry parameters)
      else if style = ''break_even_threshold'' then obj (materialize_break_even side inst_id entry parameters)
      else if style = ''trailing_threshold'' then obj (materialize_trailing side inst_id entry parameters)
      else if style = ''fixed_price'' \<or> style = ''evidence_target''
      then obj (materialize_target_price style purpose side inst_id basis entry parameters trigger evidence)
      else if style = ''absolute_price'' then materialize_absolute_price purpose side inst_id basis entry trigger
      else if style = ''previous_swing_level'' \<or> style = ''impulse_origin''
      then Inl (ValueError (style @ '' rules must be resolved to a concrete price '' @
             ''before materialization (see resolve_dynamic_rule_templates)''))
      else Inr trigger)"

text \<open>The metadata with its definition, and the template the rule is resolved from.\<close>

definition rule_metadata :: "jobj \<Rightarrow> jobj result" where
  "rule_metadata rule =
     (let metadata = as_obj (jget rule ''metadata'') in
      if is_obj (jget metadata ''rule_definition'') then Inr metadata
      else normalize_position_rule (py_str (py_or (jget rule ''purpose'') (JStr ''exit'')))
             (py_or (jget rule ''expression'') (JObj []))
             (truthy (get_default rule ''enabled'' (JBool True))) metadata)"

definition source_definition :: "jobj \<Rightarrow> jobj" where
  "source_definition metadata = (case jget metadata ''template_definition'' of
     JObj t \<Rightarrow> t | _ \<Rightarrow> as_obj (jget metadata ''rule_definition''))"

definition source_style :: "jobj \<Rightarrow> string" where
  "source_style source = py_str (py_or (jget source ''style'') (JStr ''signal_triggered''))"

definition source_purpose :: "jobj \<Rightarrow> jobj \<Rightarrow> string" where
  "source_purpose source rule =
     py_str (py_or (py_or (jget source ''purpose'') (jget rule ''purpose'')) (JStr ''exit''))"

definition source_trigger :: "jobj \<Rightarrow> jobj \<Rightarrow> json" where
  "source_trigger source rule = py_or (py_or (jget source ''trigger'') (jget rule ''expression'')) (JObj [])"

definition source_enabled :: "jobj \<Rightarrow> jobj \<Rightarrow> bool" where
  "source_enabled source rule = truthy (get_default source ''enabled'' (get_default rule ''enabled'' (JBool True)))"

definition materialized_metadata ::
  "jobj \<Rightarrow> jobj \<Rightarrow> json \<Rightarrow> string \<Rightarrow> decimal \<Rightarrow> string \<Rightarrow> string \<Rightarrow> jobj" where
  "materialized_metadata metadata source trigger basis entry inst_id side =
     tset ''materialization'' (JObj
         [(''status'', JStr ''materialized''), (''basis'', JStr basis), (''entry_price'', JStr (dec_str entry)),
          (''inst_id'', JStr inst_id), (''side'', JStr side)])
       (tset ''rule_definition''
          (JObj (tset ''parameters'' (JObj (as_obj (jget source ''parameters''))) (tset ''trigger'' trigger source)))
          (tset ''template_definition'' (JObj source) metadata))"

definition materialize_position_rule ::
  "jobj \<Rightarrow> json \<Rightarrow> string \<Rightarrow> string \<Rightarrow> string \<Rightarrow> jobj result" where
  "materialize_position_rule rule entry_price inst_id side basis =
     bindE (rule_metadata rule) (\<lambda>metadata.
     let source = source_definition metadata; purpose = source_purpose source rule; normalized_side = py_lower side in
     bindE (reject (normalized_side \<noteq> ''long'' \<and> normalized_side \<noteq> ''short'')
       ''position rule materialization requires long or short side'') (\<lambda>_.
     bindE (ranged_decimal ''position rule materialization entry price is invalid''
       ''position rule materialization entry price must be positive'' (\<lambda>v. 0 < v) entry_price) (\<lambda>entry.
     bindE (materialize_trigger (source_style source) purpose normalized_side inst_id basis entry
              (as_obj (jget source ''parameters'')) (source_trigger source rule) (jget source ''evidence'')) (\<lambda>trigger.
     Inr (tset ''metadata'' (JObj (materialized_metadata metadata source trigger basis entry inst_id normalized_side))
           (tset ''enabled'' (JBool (source_enabled source rule))
           (tset ''expression'' trigger (tset ''purpose'' (JStr purpose) rule))))))))"

subsection \<open>Break-even target\<close>

text \<open>The rates and the modelled net return that accompany a target, as values.\<close>

record break_even_evidence =
  be_entry_fee_rate :: decimal
  be_exit_fee_rate :: decimal
  be_slippage_rate :: decimal
  be_lock_in_pct :: decimal
  be_net_return :: rat

definition break_even_long :: "rat \<Rightarrow> rat \<Rightarrow> rat \<Rightarrow> rat \<Rightarrow> rat \<times> rat" where
  "break_even_long entry entry_cost exit_cost lock_in =
     (let cost = ctx (entry * ctx (1 + entry_cost));
          target = ctx (ctx (cost / ctx (1 - exit_cost)) * ctx (1 + lock_in))
      in (target, ctx (ctx (ctx (target * ctx (1 - exit_cost)) - cost) / cost)))"

definition break_even_short :: "rat \<Rightarrow> rat \<Rightarrow> rat \<Rightarrow> rat \<Rightarrow> rat \<times> rat" where
  "break_even_short entry entry_cost exit_cost lock_in =
     (let gain = ctx (entry * ctx (1 - entry_cost));
          target = ctx (ctx (gain / ctx (1 + exit_cost)) * ctx (1 - lock_in))
      in (target, ctx (ctx (gain - ctx (target * ctx (1 + exit_cost))) / gain)))"

definition calculate_break_even_target ::
  "json \<Rightarrow> string \<Rightarrow> json \<Rightarrow> json \<Rightarrow> json \<Rightarrow> json \<Rightarrow> (rat \<times> break_even_evidence) result" where
  "calculate_break_even_target entry_price side entry_fee_rate exit_fee_rate slippage_rate lock_in_pct =
     bindE (mapE (parse_decimal ''break-even inputs must be finite decimals'')
       [entry_price, entry_fee_rate, exit_fee_rate, slippage_rate, lock_in_pct]) (\<lambda>values.
     let entry = values ! 0; entry_fee = values ! 1; exit_fee = values ! 2; slippage = values ! 3; lock_in = values ! 4 in
     bindE (reject (list_ex (\<lambda>v. \<not> dec_finite v) values \<or> dec_val entry \<le> 0)
       ''break-even inputs must be finite and entry must be positive'') (\<lambda>_.
     bindE (reject (list_ex (\<lambda>v. dec_val v < 0 \<or> 2/100 < dec_val v) [entry_fee, exit_fee, slippage])
       ''break-even fee and slippage rates must be between 0 and 0.02'') (\<lambda>_.
     bindE (reject (dec_val lock_in < 0 \<or> 5/100 < dec_val lock_in)
       ''break-even lock_in_pct must be between 0 and 0.05'') (\<lambda>_.
     let normalized_side = py_lower side;
         entry_cost = ctx (dec_val entry_fee + dec_val slippage);
         exit_cost = ctx (dec_val exit_fee + dec_val slippage) in
     bindE (if normalized_side = ''long''
            then bindE (reject (1 \<le> exit_cost) ''break-even exit costs are invalid'') (\<lambda>_.
                 Inr (break_even_long (dec_val entry) entry_cost exit_cost (dec_val lock_in)))
            else if normalized_side = ''short''
            then Inr (break_even_short (dec_val entry) entry_cost exit_cost (dec_val lock_in))
            else Inl (ValueError ''break-even side must be long or short'')) (\<lambda>(target, net_return).
     Inr (target, \<lparr>be_entry_fee_rate = entry_fee, be_exit_fee_rate = exit_fee, be_slippage_rate = slippage,
                   be_lock_in_pct = lock_in, be_net_return = net_return\<rparr>))))))"

end
