(* ===== verification/PositionStore.thy ===== *)
theory PositionStore
  imports PositionRuleModel TradeStore
begin

section \<open>The logical position store\<close>

text \<open>
  \<^verbatim>\<open>src/trading/logical_position_store.py\<close>: logical position units, the fills allocated to
  them, their exchange orders, close conditions and exchange-side protections. A database table is a
  keyed table; an operation maps the store to a result and a store. An exception leaves the store as
  the transactions committed so far have made it: every method that writes in one
  \<^verbatim>\<open>with self._conn()\<close> block returns the old store on an exception, a method made of several
  such blocks keeps what the earlier ones committed.

  Conventions. The clock is read once per call (\<open>now\<close>) and fresh identifiers are arguments. JSON
  text columns hold a parsed value or text that is no JSON; \<^verbatim>\<open>sort_keys\<close> of the writer is not
  modelled, dictionaries are compared as Python compares them. Quantities, prices and fees are
  rationals, with \<^verbatim>\<open>round(x, 12)\<close> where the source has it. Rows that an \<^verbatim>\<open>ORDER BY\<close> ties
  keep their table order.
\<close>

subsection \<open>Data\<close>

datatype alloc_action = AOpen | AReduce | AClose | AFee | AAdjustment

datatype pos_status = Planned | PendingOpen | Open | Reducing | Closing | Closed | Failed

datatype prot_kind = AttachedStop | StandaloneStop

datatype prot_status = PActive | PAmending | PCanceling | PCanceled | PTriggered | PExhausted | PFailed

record allocation =
  al_id :: string
  al_position_id :: string
  al_action :: alloc_action
  al_quantity :: rat
  al_price :: "rat option"
  al_fee :: "rat option"
  al_exchange_order_id :: string
  al_reason :: string
  al_created_at :: string
  al_metadata :: jcol
  al_applied :: bool

record position =
  p_id :: string
  p_source :: string
  p_strategy_id :: string
  p_trade_id :: "string option"
  p_inst_id :: string
  p_side :: string
  p_opened :: "rat option"
  p_remaining :: "rat option"
  p_entry_price :: rat
  p_entry_time :: string
  p_status :: pos_status
  p_exchange_order_id :: string
  p_client_order_id :: string
  p_exchange_position_key :: string
  p_metadata :: jcol
  p_created_at :: string
  p_updated_at :: string

record condition =
  c_id :: string
  c_position_id :: string
  c_purpose :: string
  c_expression :: jcol
  c_enabled :: bool
  c_metadata :: jcol
  c_created_at :: string
  c_updated_at :: string

record protection =
  pr_position_id :: string
  pr_kind :: prot_kind
  pr_status :: prot_status
  pr_algo_id :: string
  pr_algo_client_order_id :: string
  pr_quantity :: rat
  pr_stop_loss :: rat
  pr_trigger_order_id :: string
  pr_metadata :: jcol
  pr_created_at :: string
  pr_updated_at :: string

record order_link =
  ol_position_id :: string
  ol_client_order_id :: string
  ol_action :: alloc_action
  ol_metadata :: jcol
  ol_created_at :: string

record store =
  st_positions :: "(string, position) table"
  st_allocations :: "(string, allocation) table"
  st_orders :: "(string, order_link) table"
  st_conditions :: "(string, condition) table"
  st_protections :: "(string, protection) table"

type_synonym 'a tx = "'a result \<times> store"

text \<open>\<^verbatim>\<open>x in {"open", "reduce", "close"}\<close> for a JSON value; a list or dictionary is unhashable.\<close>

definition execution_action :: "json \<Rightarrow> alloc_action option result" where
  "execution_action j = (case j of
     JStr s \<Rightarrow> Inr (if s = ''open'' then Some AOpen else if s = ''reduce'' then Some AReduce
                   else if s = ''close'' then Some AClose else None)
   | JList _ \<Rightarrow> Inl TypeError | JObj _ \<Rightarrow> Inl TypeError | _ \<Rightarrow> Inr None)"

definition active_statuses :: "pos_status list" where
  "active_statuses = [PendingOpen, Open, Reducing, Closing]"

subsection \<open>Saving and reading positions\<close>

text \<open>The unique index on nonempty client order ids.\<close>

definition client_taken :: "store \<Rightarrow> string \<Rightarrow> string \<Rightarrow> bool" where
  "client_taken st pid cid =
     (cid \<noteq> [] \<and> list_ex (\<lambda>(k, q). k \<noteq> pid \<and> p_client_order_id q = cid) (st_positions st))"

definition put_position :: "position \<Rightarrow> store \<Rightarrow> store" where
  "put_position p st = st\<lparr>st_positions := tset (p_id p) p (st_positions st)\<rparr>"

definition ps_save :: "string \<Rightarrow> position \<Rightarrow> store \<Rightarrow> string tx" where
  "ps_save now p st =
     (if client_taken st (p_id p) (p_client_order_id p) then (Inl IntegrityError, st)
      else (Inr (p_id p), put_position (p\<lparr>p_updated_at := now\<rparr>) st))"

definition ps_get :: "store \<Rightarrow> string \<Rightarrow> position option" where
  "ps_get st pid = tget (st_positions st) pid"

text \<open>The row with the latest \<^verbatim>\<open>created_at\<close>.\<close>

fun latest :: "position list \<Rightarrow> position option" where
  "latest [] = None"
| "latest (p # ps) = (case latest ps of None \<Rightarrow> Some p
     | Some q \<Rightarrow> if p_created_at p < p_created_at q then Some q else Some p)"

definition get_by_exchange_order_id :: "store \<Rightarrow> string \<Rightarrow> position option" where
  "get_by_exchange_order_id st order_id =
     (if order_id = [] then None
      else (case (case tget (st_orders st) order_id of None \<Rightarrow> None | Some ol \<Rightarrow> ps_get st (ol_position_id ol)) of
          Some p \<Rightarrow> Some p
        | None \<Rightarrow> latest (filter (\<lambda>p. p_exchange_order_id p = order_id) (map snd (st_positions st)))))"

definition get_by_client_order_id :: "store \<Rightarrow> string \<Rightarrow> position option" where
  "get_by_client_order_id st cid =
     (if cid = [] then None
      else latest (filter (\<lambda>p. p_client_order_id p = cid) (map snd (st_positions st))))"

definition list_pending_executions :: "store \<Rightarrow> nat \<Rightarrow> position list" where
  "list_pending_executions st limit =
     take limit (sort_key p_updated_at (filter (\<lambda>p. (p_exchange_order_id p \<noteq> [] \<or> p_client_order_id p \<noteq> []) \<and>
       p_status p \<in> set active_statuses) (map snd (st_positions st))))"

definition list_active :: "store \<Rightarrow> position list" where
  "list_active st =
     sort_key p_updated_at (filter (\<lambda>p. p_status p \<in> set active_statuses) (map snd (st_positions st)))"

definition ps_list :: "store \<Rightarrow> pos_status option \<Rightarrow> string \<Rightarrow> nat option \<Rightarrow> position list" where
  "ps_list st status strategy_id limit =
     (let rows = filter (\<lambda>p. (case status of None \<Rightarrow> True | Some s \<Rightarrow> p_status p = s) \<and>
            (strategy_id = [] \<or> p_strategy_id p = strategy_id)) (map snd (st_positions st));
          ordered = rev (sort_key p_entry_time (rev rows))
      in case limit of None \<Rightarrow> ordered | Some n \<Rightarrow> take n ordered)"

text \<open>A condition ready to be stored: its metadata is normalised.\<close>

definition normalized_condition :: "string \<Rightarrow> condition \<Rightarrow> condition result" where
  "normalized_condition now c =
     bindE (normalize_position_rule (c_purpose c) (JObj (col_obj (c_expression c))) (c_enabled c) (col_obj (c_metadata c)))
       (\<lambda>m. Inr (c\<lparr>c_metadata := dumps m, c_updated_at := now\<rparr>))"

definition insert_condition :: "string \<Rightarrow> string \<Rightarrow> condition \<Rightarrow> store \<Rightarrow> store result" where
  "insert_condition now pid c st =
     (if c_position_id c \<noteq> pid then Inl (ValueError ''Close condition belongs to another position'')
      else bindE (normalized_condition now c) (\<lambda>c'.
           if tget (st_conditions st) (c_id c) \<noteq> None then Inl IntegrityError
           else Inr (st\<lparr>st_conditions := tset (c_id c) c' (st_conditions st)\<rparr>)))"

definition create_with_close_conditions :: "string \<Rightarrow> position \<Rightarrow> condition list \<Rightarrow> store \<Rightarrow> string tx" where
  "create_with_close_conditions now p conditions st =
     (if ps_get st (p_id p) \<noteq> None \<or> client_taken st (p_id p) (p_client_order_id p) then (Inl IntegrityError, st)
      else (case foldE (insert_condition now (p_id p)) conditions (put_position (p\<lparr>p_updated_at := now\<rparr>) st) of
          Inl e \<Rightarrow> (Inl e, st)
        | Inr st' \<Rightarrow> (Inr (p_id p), st')))"

definition from_trade :: "trade \<Rightarrow> position" where
  "from_trade t =
     (let metadata = tset ''backfilled_from_trade'' (JBool True) (col_obj (t_metadata t));
          status = or_default (tget [(''pending_open'', PendingOpen), (''open'', Open), (''closed'', Closed),
             (''failed'', Failed)] (t_status t)) Open in
      \<lparr>p_id = t_id t, p_source = (if t_strategy_id t \<noteq> [] then ''strategy'' else ''manual''),
       p_strategy_id = t_strategy_id t, p_trade_id = Some (t_id t), p_inst_id = t_inst_id t, p_side = t_side t,
       p_opened = (if t_status t = ''pending_open'' then Some 0 else None),
       p_remaining = (if t_status t \<in> {''pending_open'', ''closed'', ''failed''} then Some 0 else None),
       p_entry_price = t_entry_price t, p_entry_time = t_entry_time t, p_status = status,
       p_exchange_order_id = text_of (jget metadata ''exchange_order_id''),
       p_client_order_id = text_of (jget metadata ''client_order_id''),
       p_exchange_position_key = [], p_metadata = dumps metadata, p_created_at = t_entry_time t,
       p_updated_at = (if or_default (t_exit_time t) [] \<noteq> [] then or_default (t_exit_time t) [] else t_entry_time t)\<rparr>)"

definition ensure_from_trade :: "string \<Rightarrow> trade \<Rightarrow> store \<Rightarrow> position tx" where
  "ensure_from_trade now t st =
     (case ps_get st (t_id t) of
        Some p \<Rightarrow> (Inr p, st)
      | None \<Rightarrow> (case ps_save now (from_trade t) st of
          (Inl e, st') \<Rightarrow> (Inl e, st')
        | (Inr _, st') \<Rightarrow> (Inr ((from_trade t)\<lparr>p_updated_at := now\<rparr>), st')))"

subsection \<open>Exchange orders\<close>

definition link_execution_order ::
  "string \<Rightarrow> string \<Rightarrow> string \<Rightarrow> string \<Rightarrow> alloc_action \<Rightarrow> jobj \<Rightarrow> store \<Rightarrow> unit tx" where
  "link_execution_order now pid order_id client_id action metadata st =
     (if order_id = [] \<or> action \<notin> {AOpen, AReduce, AClose}
      then (Inl (ValueError ''exchange_order_id and execution action are required''), st)
      else if ps_get st pid = None
      then (Inl (ValueError (''Logical position '' @ py_repr (JStr pid) @ '' does not exist'')), st)
      else (case tget (st_orders st) order_id of
          Some ol \<Rightarrow>
            if ol_position_id ol \<noteq> pid \<or> ol_action ol \<noteq> action
            then (Inl (AllocationConflictError (''Exchange order '' @ py_repr (JStr order_id) @
                   '' already belongs to another position or action'')), st)
            else (Inr (), st)
        | None \<Rightarrow>
            (Inr (), st\<lparr>st_orders := tset order_id \<lparr>ol_position_id = pid, ol_client_order_id = client_id,
               ol_action = action, ol_metadata = dumps metadata, ol_created_at = now\<rparr> (st_orders st)\<rparr>)))"

definition get_execution_order :: "store \<Rightarrow> string \<Rightarrow> order_link option" where
  "get_execution_order st order_id = (if order_id = [] then None else tget (st_orders st) order_id)"

definition has_execution_order :: "store \<Rightarrow> string \<Rightarrow> alloc_action \<Rightarrow> bool" where
  "has_execution_order st pid action =
     list_ex (\<lambda>(_, ol). ol_position_id ol = pid \<and> ol_action ol = action) (st_orders st)"

subsection \<open>Protections\<close>

definition protection_taken :: "store \<Rightarrow> protection \<Rightarrow> bool" where
  "protection_taken st pr = list_ex (\<lambda>(k, q). k \<noteq> pr_position_id pr \<and>
     (pr_algo_id pr \<noteq> [] \<and> pr_algo_id q = pr_algo_id pr \<or>
      pr_algo_client_order_id pr \<noteq> [] \<and> pr_algo_client_order_id q = pr_algo_client_order_id pr \<or>
      pr_trigger_order_id pr \<noteq> [] \<and> pr_trigger_order_id q = pr_trigger_order_id pr)) (st_protections st)"

definition put_protection :: "protection \<Rightarrow> store \<Rightarrow> store" where
  "put_protection pr st =
     st\<lparr>st_protections := tset (pr_position_id pr)
          (case tget (st_protections st) (pr_position_id pr) of
             None \<Rightarrow> pr | Some old \<Rightarrow> pr\<lparr>pr_created_at := pr_created_at old\<rparr>) (st_protections st)\<rparr>"

definition get_protection :: "store \<Rightarrow> string \<Rightarrow> protection option" where
  "get_protection st pid = tget (st_protections st) pid"

definition save_protection :: "string \<Rightarrow> protection \<Rightarrow> store \<Rightarrow> protection tx" where
  "save_protection now pr st =
     (if pr_position_id pr = [] \<or> pr_algo_id pr = [] \<or> pr_algo_client_order_id pr = [] \<or>
         pr_quantity pr \<le> 0 \<or> pr_stop_loss pr \<le> 0
      then (Inl (ValueError ''Protection identity, quantity, and stop loss are required''), st)
      else if ps_get st (pr_position_id pr) = None
      then (Inl (ValueError (''Logical position '' @ py_repr (JStr (pr_position_id pr)) @ '' does not exist'')), st)
      else if protection_taken st pr
      then (Inl (AllocationConflictError ''Protection algo identity already belongs to another logical position''), st)
      else (let st' = put_protection (pr\<lparr>pr_updated_at := now\<rparr>) st in
            case get_protection st' (pr_position_id pr) of
              None \<Rightarrow> (Inl (RuntimeError ''Protection disappeared after persistence''), st')
            | Some saved \<Rightarrow> (Inr saved, st')))"

definition get_protection_by_algo :: "store \<Rightarrow> string \<Rightarrow> string \<Rightarrow> string \<Rightarrow> protection option result" where
  "get_protection_by_algo st algo_id algo_client_id trigger_id =
     (if algo_id = [] \<and> algo_client_id = [] \<and> trigger_id = [] then Inr None
      else (let rows = filter (\<lambda>q. algo_id \<noteq> [] \<and> pr_algo_id q = algo_id \<or>
                   algo_client_id \<noteq> [] \<and> pr_algo_client_order_id q = algo_client_id \<or>
                   trigger_id \<noteq> [] \<and> pr_trigger_order_id q = trigger_id) (map snd (st_protections st)) in
            case rows of
              [] \<Rightarrow> Inr None
            | [q] \<Rightarrow> Inr (Some q)
            | _ \<Rightarrow> Inl (AllocationConflictError ''Algo identity matches multiple protections'')))"

definition update_protection ::
  "string \<Rightarrow> string \<Rightarrow> prot_status option \<Rightarrow> rat option \<Rightarrow> rat option \<Rightarrow> string option \<Rightarrow> jobj option \<Rightarrow>
   store \<Rightarrow> protection option tx" where
  "update_protection now pid status quantity stop_loss trigger_order_id metadata st =
     (case get_protection st pid of
        None \<Rightarrow> (Inr None, st)
      | Some pr \<Rightarrow>
          if (case quantity of None \<Rightarrow> False | Some q \<Rightarrow> q \<le> 0)
          then (Inl (ValueError ''Protection quantity must be positive''), st)
          else if (case stop_loss of None \<Rightarrow> False | Some s \<Rightarrow> s \<le> 0)
          then (Inl (ValueError ''Protection stop loss must be positive''), st)
          else (let pr' = pr\<lparr>pr_status := or_default status (pr_status pr),
                       pr_quantity := or_default quantity (pr_quantity pr),
                       pr_stop_loss := or_default stop_loss (pr_stop_loss pr),
                       pr_trigger_order_id := or_default trigger_order_id (pr_trigger_order_id pr),
                       pr_metadata := (case metadata of None \<Rightarrow> pr_metadata pr
                          | Some m \<Rightarrow> dumps (tmerge (col_obj (pr_metadata pr)) m))\<rparr> in
                case save_protection now pr' st of
                  (Inl e, st') \<Rightarrow> (Inl e, st')
                | (Inr saved, st') \<Rightarrow> (Inr (Some saved), st')))"

subsection \<open>Execution lifecycle\<close>

definition update_status :: "string \<Rightarrow> string \<Rightarrow> pos_status \<Rightarrow> rat option \<Rightarrow> store \<Rightarrow> position option tx" where
  "update_status now pid status remaining st =
     (case ps_get st pid of
        None \<Rightarrow> (Inr None, st)
      | Some p \<Rightarrow>
          (let p' = p\<lparr>p_status := status, p_remaining := (case remaining of None \<Rightarrow> p_remaining p | Some r \<Rightarrow> Some r)\<rparr> in
           case ps_save now p' st of
             (Inl e, st') \<Rightarrow> (Inl e, st')
           | (Inr _, st') \<Rightarrow> (Inr (Some (p'\<lparr>p_updated_at := now\<rparr>)), st')))"

definition merge_metadata :: "string \<Rightarrow> string \<Rightarrow> jobj \<Rightarrow> store \<Rightarrow> position option tx" where
  "merge_metadata now pid values st =
     (case ps_get st pid of
        None \<Rightarrow> (Inr None, st)
      | Some p \<Rightarrow>
          (let metadata = col_obj (p_metadata p); merged = tmerge metadata values in
           if py_eq (JObj merged) (JObj metadata) then (Inr (Some p), st)
           else (let st' = put_position (p\<lparr>p_metadata := dumps merged, p_updated_at := now\<rparr>) st in
                 (Inr (ps_get st' pid), st'))))"

definition mark_pending_execution ::
  "string \<Rightarrow> string \<Rightarrow> pos_status \<Rightarrow> string \<Rightarrow> jobj \<Rightarrow> string option \<Rightarrow> store \<Rightarrow> position option tx" where
  "mark_pending_execution now pid status order_id metadata client_id st =
     (case ps_get st pid of
        None \<Rightarrow> (Inr None, st)
      | Some p \<Rightarrow>
          (let merged = tmerge (col_obj (p_metadata p)) metadata;
               p' = p\<lparr>p_status := status, p_exchange_order_id := order_id,
                      p_client_order_id := or_default client_id (p_client_order_id p), p_metadata := dumps merged\<rparr> in
           case ps_save now p' st of
             (Inl e, st1) \<Rightarrow> (Inl e, st1)
           | (Inr _, st1) \<Rightarrow>
               (case execution_action (jget merged ''order_action'') of
                  Inl e \<Rightarrow> (Inl e, st1)
                | Inr None \<Rightarrow> (Inr (ps_get st1 pid), st1)
                | Inr (Some action) \<Rightarrow>
                    (case link_execution_order now pid order_id (p_client_order_id p') action
                            [(''source'', JStr ''mark_pending_execution'')] st1 of
                       (Inl e, st2) \<Rightarrow> (Inl e, st2)
                     | (Inr _, st2) \<Rightarrow> (Inr (ps_get st2 pid), st2)))))"

definition claim_pending_execution ::
  "string \<Rightarrow> string \<Rightarrow> pos_status \<Rightarrow> pos_status \<Rightarrow> string \<Rightarrow> jobj \<Rightarrow> store \<Rightarrow> position option tx" where
  "claim_pending_execution now pid expected_status status client_id metadata st =
     (case ps_get st pid of
        None \<Rightarrow> (Inr None, st)
      | Some p \<Rightarrow>
          if p_status p \<noteq> expected_status then (Inr None, st)
          else if client_taken st pid client_id then (Inl IntegrityError, st)
          else (let st' = put_position (p\<lparr>p_status := status, p_exchange_order_id := [], p_client_order_id := client_id,
                       p_metadata := dumps (tmerge (col_obj (p_metadata p)) metadata), p_updated_at := now\<rparr>) st in
                (Inr (ps_get st' pid), st')))"

definition release_pending_execution ::
  "string \<Rightarrow> string \<Rightarrow> string \<Rightarrow> pos_status \<Rightarrow> store \<Rightarrow> position option tx" where
  "release_pending_execution now pid correlation_id restore_status st =
     (case ps_get st pid of
        None \<Rightarrow> (Inr None, st)
      | Some p \<Rightarrow>
          (let metadata = col_obj (p_metadata p) in
           if jget metadata ''correlation_id'' \<noteq> JStr correlation_id then (Inr (Some p), st)
           else (let st' = put_position (p\<lparr>p_status := restore_status,
                       p_exchange_order_id := text_of (jget metadata ''previous_exchange_order_id''),
                       p_client_order_id := [],
                       p_metadata := dumps (tset ''execution_status'' (JStr ''submission_failed'') metadata),
                       p_updated_at := now\<rparr>) st in
                 (Inr (ps_get st' pid), st'))))"

definition link_exchange_order ::
  "string \<Rightarrow> string \<Rightarrow> string \<Rightarrow> string \<Rightarrow> jobj \<Rightarrow> store \<Rightarrow> position option tx" where
  "link_exchange_order now pid client_id order_id metadata st =
     (if client_id = [] \<or> order_id = [] then (Inr None, st)
      else (case ps_get st pid of
          None \<Rightarrow> (Inr None, st)
        | Some p \<Rightarrow>
            if p_client_order_id p \<noteq> client_id then (Inr None, st)
            else (let merged = tmerge (col_obj (p_metadata p)) metadata;
                      st1 = put_position (p\<lparr>p_exchange_order_id := order_id, p_metadata := dumps merged,
                              p_updated_at := now\<rparr>) st in
                  case execution_action (jget merged ''order_action'') of
                    Inl e \<Rightarrow> (Inl e, st1)
                  | Inr None \<Rightarrow> (Inr (ps_get st1 pid), st1)
                  | Inr (Some action) \<Rightarrow>
                      (case link_execution_order now pid order_id client_id action
                              [(''source'', JStr ''link_exchange_order'')] st1 of
                         (Inl e, st2) \<Rightarrow> (Inl e, st2)
                       | (Inr _, st2) \<Rightarrow> (Inr (ps_get st2 pid), st2)))))"

definition recovered_intent_status :: "pos_status \<Rightarrow> pos_status option" where
  "recovered_intent_status s =
     (if s = PendingOpen then Some Failed else if s = Closing \<or> s = Reducing then Some Open else None)"

definition recover_client_order_intent :: "string \<Rightarrow> string \<Rightarrow> string \<Rightarrow> string \<Rightarrow> store \<Rightarrow> position option tx" where
  "recover_client_order_intent now pid client_id execution_status st =
     (case ps_get st pid of
        None \<Rightarrow> (Inr None, st)
      | Some p \<Rightarrow>
          if p_client_order_id p \<noteq> client_id \<or> p_exchange_order_id p \<noteq> [] then (Inr (Some p), st)
          else (case recovered_intent_status (p_status p) of
              None \<Rightarrow> (Inr (Some p), st)
            | Some status \<Rightarrow>
                (let metadata = col_obj (p_metadata p);
                     emergency = (p_status p = Closing \<and> jget metadata ''emergency_close'' = JBool True);
                     updated = tmerge metadata
                       [(''execution_status'', JStr (if emergency then ''emergency_close_retry_pending'' else execution_status)),
                        (''recovered_client_order_id'', JStr client_id), (''recovered_at'', JStr now)];
                     p' = (if emergency then p\<lparr>p_metadata := dumps updated, p_updated_at := now\<rparr>
                           else p\<lparr>p_status := status, p_client_order_id := [], p_metadata := dumps updated,
                                  p_updated_at := now\<rparr>);
                     st' = put_position p' st in
                 (Inr (ps_get st' pid), st'))))"

definition terminal_status :: "position \<Rightarrow> pos_status option" where
  "terminal_status p =
     (if p_status p = PendingOpen then Some (if 0 < or_default (p_opened p) 0 then Open else Failed)
      else if p_status p = Closing \<or> p_status p = Reducing
      then Some (if or_default (p_remaining p) 0 = 0 then Closed else Open)
      else if p_status p = Open then Some Open else None)"

definition recover_terminal_order :: "string \<Rightarrow> string \<Rightarrow> string \<Rightarrow> string \<Rightarrow> store \<Rightarrow> position option tx" where
  "recover_terminal_order now pid order_id order_state st =
     (case ps_get st pid of
        None \<Rightarrow> (Inr None, st)
      | Some p \<Rightarrow>
          if p_exchange_order_id p \<noteq> order_id then (Inr (Some p), st)
          else (case terminal_status p of
              None \<Rightarrow> (Inr (Some p), st)
            | Some status \<Rightarrow>
                (let updated = tmerge (col_obj (p_metadata p))
                       [(''execution_status'', JStr ''terminal_recovered''), (''terminal_order_state'', JStr order_state),
                        (''terminal_order_id'', JStr order_id), (''recovered_at'', JStr now)];
                     st' = put_position (p\<lparr>p_status := status, p_exchange_order_id := [], p_client_order_id := [],
                             p_metadata := dumps updated, p_updated_at := now\<rparr>) st in
                 (Inr (ps_get st' pid), st'))))"

definition update_execution_tracking ::
  "string \<Rightarrow> string \<Rightarrow> string \<Rightarrow> string \<Rightarrow> bool \<Rightarrow> store \<Rightarrow> position option tx" where
  "update_execution_tracking now pid order_id execution_status completed st =
     (case ps_get st pid of
        None \<Rightarrow> (Inr None, st)
      | Some p \<Rightarrow>
          if p_exchange_order_id p \<noteq> order_id then (Inr (Some p), st)
          else (let m1 = tset ''execution_status'' (JStr execution_status) (col_obj (p_metadata p));
                    m2 = (if completed then tset ''completed_at'' (JStr now) (tset ''completed_order_id'' (JStr order_id) m1)
                          else m1);
                    st' = put_position (p\<lparr>p_exchange_order_id := (if completed then [] else order_id),
                            p_client_order_id := (if completed then [] else p_client_order_id p),
                            p_metadata := dumps m2, p_updated_at := now\<rparr>) st in
                (Inr (ps_get st' pid), st')))"

text \<open>\<^verbatim>\<open>WHERE id = ? AND exchange_order_id = ?\<close>\<close>

definition order_row :: "store \<Rightarrow> string \<Rightarrow> string \<Rightarrow> position option" where
  "order_row st pid order_id = (case ps_get st pid of
     None \<Rightarrow> None | Some p \<Rightarrow> if p_exchange_order_id p = order_id then Some p else None)"

definition mark_order_cancel_requested :: "string \<Rightarrow> string \<Rightarrow> string \<Rightarrow> store \<Rightarrow> bool tx" where
  "mark_order_cancel_requested now pid order_id st =
     (case order_row st pid order_id of
        None \<Rightarrow> (Inr False, st)
      | Some p \<Rightarrow>
          (let metadata = col_obj (p_metadata p) in
           if truthy (jget metadata ''cancel_requested_at'') then (Inr False, st)
           else (Inr True, put_position (p\<lparr>p_metadata := dumps (tset ''cancel_requested_at'' (JStr now) metadata),
                   p_updated_at := now\<rparr>) st)))"

definition is_order_cancel_requested :: "store \<Rightarrow> string \<Rightarrow> string \<Rightarrow> bool" where
  "is_order_cancel_requested st pid order_id =
     (case order_row st pid order_id of
        None \<Rightarrow> False | Some p \<Rightarrow> truthy (jget (col_obj (p_metadata p)) ''cancel_requested_at''))"

definition record_filled_without_allocation ::
  "string \<Rightarrow> string \<Rightarrow> string \<Rightarrow> store \<Rightarrow> (position option \<times> int \<times> bool) tx" where
  "record_filled_without_allocation now pid order_id st =
     (case order_row st pid order_id of
        None \<Rightarrow> (Inr (None, 0, False), st)
      | Some p \<Rightarrow>
          (let metadata = col_obj (p_metadata p);
               seen = jget metadata ''filled_without_allocation'';
               observation = (if is_obj seen \<and> jget (as_obj seen) ''order_id'' = JStr order_id then as_obj seen
                  else [(''order_id'', JStr order_id), (''first_seen_at'', JStr now), (''count'', JInt 0)]) in
           case py_int (py_or (jget observation ''count'') (JInt 0)) of
             Inl e \<Rightarrow> (Inl e, st)
           | Inr n \<Rightarrow>
               (let observation' = tset ''last_seen_at'' (JStr now) (tset ''count'' (JInt (n + 1)) observation);
                    m = tset ''execution_status'' (JStr ''filled_awaiting_allocation'')
                          (tset ''filled_without_allocation'' (JObj observation') metadata);
                    st' = put_position (p\<lparr>p_metadata := dumps m, p_updated_at := now\<rparr>) st in
                (Inr (ps_get st' pid, n + 1, truthy (jget observation' ''alerted_at'')), st'))))"

definition mark_filled_without_allocation_alerted :: "string \<Rightarrow> string \<Rightarrow> string \<Rightarrow> store \<Rightarrow> bool tx" where
  "mark_filled_without_allocation_alerted now pid order_id st =
     (case order_row st pid order_id of
        None \<Rightarrow> (Inr False, st)
      | Some p \<Rightarrow>
          (let metadata = col_obj (p_metadata p); seen = jget metadata ''filled_without_allocation'' in
           if \<not> is_obj seen \<or> truthy (jget (as_obj seen) ''alerted_at'') then (Inr False, st)
           else (Inr True, put_position (p\<lparr>p_metadata := dumps (tset ''filled_without_allocation''
                     (JObj (tset ''alerted_at'' (JStr now) (as_obj seen))) metadata), p_updated_at := now\<rparr>) st)))"

definition update_reconciliation :: "string \<Rightarrow> string \<Rightarrow> string \<Rightarrow> jobj \<Rightarrow> store \<Rightarrow> position option tx" where
  "update_reconciliation now pid key reconciliation st =
     (case ps_get st pid of
        None \<Rightarrow> (Inr None, st)
      | Some p \<Rightarrow>
          (case (case p_metadata p of
                   JText (JObj d) \<Rightarrow> Inr d | JText _ \<Rightarrow> Inl TypeError
                 | JRaw [] \<Rightarrow> Inr [] | JRaw text \<Rightarrow> Inr [(''raw'', JStr text)]) of
             Inl e \<Rightarrow> (Inl e, st)
           | Inr metadata \<Rightarrow>
               (let p' = p\<lparr>p_exchange_position_key := key,
                          p_metadata := dumps (tset ''reconciliation'' (JObj reconciliation) metadata)\<rparr> in
                case ps_save now p' st of
                  (Inl e, st') \<Rightarrow> (Inl e, st')
                | (Inr _, st') \<Rightarrow> (Inr (Some (p'\<lparr>p_updated_at := now\<rparr>)), st'))))"

subsection \<open>Allocations\<close>

definition numbers_equivalent :: "rat option \<Rightarrow> rat option \<Rightarrow> bool" where
  "numbers_equivalent existing candidate =
     (case (existing, candidate) of
        (Some a, Some b) \<Rightarrow> \<bar>a - b\<bar> \<le> 1 / 10 ^ 9 * max (max 1 \<bar>a\<bar>) \<bar>b\<bar>
      | (None, None) \<Rightarrow> True | _ \<Rightarrow> False)"

definition identity_metadata :: "jcol \<Rightarrow> jobj result" where
  "identity_metadata c = (case json_loads c (JObj []) of
     JObj d \<Rightarrow> Inr (filter (\<lambda>(k, _). k \<noteq> ''correlation_id'' \<and> k \<noteq> ''confirmation_source'') d)
   | _ \<Rightarrow> Inl AttributeError)"

definition allocations_equivalent :: "allocation \<Rightarrow> allocation \<Rightarrow> bool result" where
  "allocations_equivalent existing candidate =
     bindE (identity_metadata (al_metadata existing)) (\<lambda>m1.
     bindE (identity_metadata (al_metadata candidate)) (\<lambda>m2.
     Inr (al_position_id existing = al_position_id candidate \<and> al_action existing = al_action candidate \<and>
          numbers_equivalent (Some (al_quantity existing)) (Some (al_quantity candidate)) \<and>
          numbers_equivalent (al_price existing) (al_price candidate) \<and>
          numbers_equivalent (al_fee existing) (al_fee candidate) \<and>
          al_exchange_order_id existing = al_exchange_order_id candidate \<and> al_reason existing = al_reason candidate \<and>
          py_eq (JObj m1) (JObj m2))))"

definition action_name :: "alloc_action \<Rightarrow> string" where
  "action_name a = (case a of AOpen \<Rightarrow> ''open'' | AReduce \<Rightarrow> ''reduce'' | AClose \<Rightarrow> ''close'' | AFee \<Rightarrow> ''fee''
     | AAdjustment \<Rightarrow> ''adjustment'')"

definition status_name :: "pos_status \<Rightarrow> string" where
  "status_name s = (case s of Planned \<Rightarrow> ''planned'' | PendingOpen \<Rightarrow> ''pending_open'' | Open \<Rightarrow> ''open''
     | Reducing \<Rightarrow> ''reducing'' | Closing \<Rightarrow> ''closing'' | Closed \<Rightarrow> ''closed'' | Failed \<Rightarrow> ''failed'')"

definition quantity_tolerance :: rat where
  "quantity_tolerance = 1 / 10 ^ 12"

text \<open>\<^verbatim>\<open>quantity > current + 1e-12\<close> on floats.\<close>

definition exceeds :: "rat \<Rightarrow> rat \<Rightarrow> bool" where
  "exceeds quantity limit \<longleftrightarrow> dbl (dbl limit + dbl quantity_tolerance) < dbl quantity"

lemma exceeds_greater: "exceeds q c \<Longrightarrow> c < q"
proof (rule ccontr)
  assume e: "exceeds q c" and "\<not> c < q"
  then have "dbl q \<le> dbl c" by (intro dbl_mono) simp
  moreover have "dbl c \<le> dbl (dbl c + dbl quantity_tolerance)"
    using dbl_mono [of "dbl c" "dbl c + dbl quantity_tolerance"] dbl_nonneg [of quantity_tolerance] by (simp add: quantity_tolerance_def)
  ultimately show False using e by (simp add: exceeds_def)
qed

lemma exceeds_code [code]: "exceeds q c \<longleftrightarrow> (if q \<le> c then False else dbl (dbl c + dbl quantity_tolerance) < dbl q)"
  using exceeds_greater [of q c] by (auto simp: exceeds_def)

definition validate_allocation :: "position \<Rightarrow> allocation \<Rightarrow> bool \<Rightarrow> bool \<Rightarrow> unit result" where
  "validate_allocation p a allow_open_while_closing deferred =
     bindE (reject (al_quantity a < 0) ''Allocation quantity cannot be negative'') (\<lambda>_.
     bindE (reject (al_action a \<in> {AOpen, AReduce, AClose} \<and> al_quantity a \<le> 0)
       (action_name (al_action a) @ '' allocation quantity must be positive'')) (\<lambda>_.
     bindE (reject (al_action a = AOpen \<and> p_status p \<notin> {Planned, PendingOpen, Open} \<and>
              \<not> (allow_open_while_closing \<and> p_status p \<in> {Reducing, Closing}))
       (''Cannot apply open allocation to '' @ status_name (p_status p) @ '' position'')) (\<lambda>_.
     reject (al_action a \<in> {AReduce, AClose} \<and> \<not> deferred \<and>
             exceeds (al_quantity a) (or_default (p_remaining p) (or_default (p_opened p) 0)))
       (''Allocation quantity '' @ float_repr (al_quantity a) @ '' exceeds remaining quantity '' @
        float_repr (or_default (p_remaining p) (or_default (p_opened p) 0))))))"

text \<open>\<^verbatim>\<open>list(x or [])\<close>\<close>

definition py_list :: "json \<Rightarrow> json list result" where
  "py_list j = (if \<not> truthy j then Inr [] else (case j of
     JList xs \<Rightarrow> Inr xs | JStr s \<Rightarrow> Inr (map (\<lambda>c. JStr [c]) s) | JObj d \<Rightarrow> Inr (map (\<lambda>(k, _). JStr k) d)
   | _ \<Rightarrow> Inl TypeError))"

definition add_id :: "string \<Rightarrow> json list \<Rightarrow> json list" where
  "add_id x xs = (if JStr x \<in> set xs then xs else xs @ [JStr x])"

definition head_id :: "json list \<Rightarrow> json" where
  "head_id xs = (case xs of [] \<Rightarrow> JStr [] | x # _ \<Rightarrow> x)"

definition entry_metadata :: "position \<Rightarrow> allocation \<Rightarrow> jobj result" where
  "entry_metadata p a =
     (let metadata = col_obj (p_metadata p);
          order_id = al_exchange_order_id a;
          client_id = py_str (py_or (jget (col_obj (al_metadata a)) ''client_order_id'') (JStr (p_client_order_id p))) in
      bindE (py_list (jget metadata ''entry_fill_ids'')) (\<lambda>fills.
      bindE (py_list (jget metadata ''entry_exchange_order_ids'')) (\<lambda>orders.
      bindE (py_list (jget metadata ''entry_client_order_ids'')) (\<lambda>clients.
      let fills' = add_id (al_id a) fills;
          orders' = (if order_id \<noteq> [] then add_id order_id orders else orders);
          clients' = (if client_id \<noteq> [] then add_id client_id clients else clients) in
      Inr (tmerge metadata
        [(''entry_fill_ids'', JList fills'), (''entry_exchange_order_ids'', JList orders'),
         (''entry_client_order_ids'', JList clients'), (''entry_exchange_order_id'', head_id orders'),
         (''entry_client_order_id'', head_id clients')])))))"

text \<open>\<^verbatim>\<open>round((price * base + v * q) / total, 12)\<close> on floats.\<close>

definition average12 :: "rat \<Rightarrow> rat \<Rightarrow> rat \<Rightarrow> rat \<Rightarrow> rat \<Rightarrow> rat" where
  "average12 price base v q amount =
     py_round12 (dbl (dbl (dbl (dbl price * dbl base) + dbl (dbl v * dbl q)) / dbl amount))"

definition apply_open :: "position \<Rightarrow> allocation \<Rightarrow> position" where
  "apply_open p a =
     (let base = or_default (p_opened p) 0;
          total = plus12 base (al_quantity a);
          price = (case al_price a of
              Some v \<Rightarrow> if 0 < total
                then (if base = 0 then v
                      else average12 (p_entry_price p) base v (al_quantity a) total)
                else p_entry_price p
            | None \<Rightarrow> p_entry_price p) in
      p\<lparr>p_entry_price := price, p_opened := Some total,
        p_remaining := Some (plus12 (or_default (p_remaining p) 0) (al_quantity a)),
        p_status := (if p_status p \<in> {Planned, PendingOpen} then Open else p_status p)\<rparr>)"

definition apply_reduction :: "position \<Rightarrow> allocation \<Rightarrow> position" where
  "apply_reduction p a =
     (let current = or_default (p_remaining p) (or_default (p_opened p) 0);
          remaining = max 0 (minus12 current (al_quantity a)) in
      p\<lparr>p_remaining := Some remaining,
        p_status := (if remaining = 0 then Closed else if al_action a = AClose then Closing else Open)\<rparr>)"

definition apply_adjustment :: "position \<Rightarrow> allocation \<Rightarrow> position" where
  "apply_adjustment p a =
     (let remaining = max 0 (py_round12 (dbl (al_quantity a))) in
      p\<lparr>p_remaining := Some remaining, p_status := (if remaining = 0 then Closed else Open)\<rparr>)"

definition apply_allocation_fields :: "position \<Rightarrow> allocation \<Rightarrow> position result" where
  "apply_allocation_fields p a =
     (case al_action a of
        AOpen \<Rightarrow> bindE (entry_metadata p a) (\<lambda>m. Inr (apply_open (p\<lparr>p_metadata := dumps m\<rparr>) a))
      | AReduce \<Rightarrow> Inr (apply_reduction p a)
      | AClose \<Rightarrow> Inr (apply_reduction p a)
      | AAdjustment \<Rightarrow> Inr (apply_adjustment p a)
      | AFee \<Rightarrow> Inr p)"

definition put_allocation :: "allocation \<Rightarrow> store \<Rightarrow> store" where
  "put_allocation a st = st\<lparr>st_allocations := tset (al_id a) a (st_allocations st)\<rparr>"

definition record_allocation ::
  "string \<Rightarrow> allocation \<Rightarrow> bool \<Rightarrow> bool \<Rightarrow> store \<Rightarrow> position option tx" where
  "record_allocation now a apply_to_position allow_open_while_closing st =
     (case ps_get st (al_position_id a) of
        None \<Rightarrow> (Inr None, st)
      | Some p \<Rightarrow>
          (case tget (st_allocations st) (al_id a) of
             Some existing \<Rightarrow>
               (case allocations_equivalent existing a of
                  Inl e \<Rightarrow> (Inl e, st)
                | Inr False \<Rightarrow> (Inl (AllocationConflictError (''Allocation id '' @ py_repr (JStr (al_id a)) @
                                 '' already has different data'')), st)
                | Inr True \<Rightarrow> (Inr (Some p), st))
           | None \<Rightarrow>
               (case bindE (validate_allocation p a allow_open_while_closing (\<not> apply_to_position)) (\<lambda>_.
                       if apply_to_position then apply_allocation_fields p a else Inr p) of
                  Inl e \<Rightarrow> (Inl e, st)
                | Inr p' \<Rightarrow>
                    (let st1 = put_allocation (a\<lparr>al_applied := apply_to_position\<rparr>) st in
                     if apply_to_position
                     then (Inr (Some (p'\<lparr>p_updated_at := now\<rparr>)), put_position (p'\<lparr>p_updated_at := now\<rparr>) st1)
                     else (Inr (Some p), st1)))))"

text \<open>The loop over the deferred fills of a position stops at the first that cannot be applied.\<close>

fun apply_deferred_loop ::
  "allocation list \<Rightarrow> position \<Rightarrow> store \<Rightarrow> (position \<times> store \<times> allocation list) result" where
  "apply_deferred_loop [] p st = Inr (p, st, [])"
| "apply_deferred_loop (a # as) p st =
     (case validate_allocation p a True False of
        Inl (ValueError _) \<Rightarrow> Inr (p, st, [])
      | Inl e \<Rightarrow> Inl e
      | Inr _ \<Rightarrow>
          bindE (apply_allocation_fields p a) (\<lambda>p'.
          let a' = a\<lparr>al_applied := True\<rparr> in
          bindE (apply_deferred_loop as p' (put_allocation a' st)) (\<lambda>(q, st', applied). Inr (q, st', a' # applied))))"

definition deferred_allocations :: "store \<Rightarrow> string \<Rightarrow> allocation list" where
  "deferred_allocations st pid =
     sort_key (\<lambda>a. (al_created_at a, al_id a))
       (filter (\<lambda>a. al_position_id a = pid \<and> \<not> al_applied a) (map snd (st_allocations st)))"

definition apply_deferred_allocations ::
  "string \<Rightarrow> string \<Rightarrow> store \<Rightarrow> (position option \<times> allocation list) tx" where
  "apply_deferred_allocations now pid st =
     (case ps_get st pid of
        None \<Rightarrow> (Inr (None, []), st)
      | Some p \<Rightarrow>
          (case apply_deferred_loop (deferred_allocations st pid) p st of
             Inl e \<Rightarrow> (Inl e, st)
           | Inr (q, st', applied) \<Rightarrow>
               if applied = [] then (Inr (Some q, []), st')
               else (Inr (Some (q\<lparr>p_updated_at := now\<rparr>), applied), put_position (q\<lparr>p_updated_at := now\<rparr>) st')))"

definition get_allocation :: "store \<Rightarrow> string \<Rightarrow> allocation option" where
  "get_allocation st aid = tget (st_allocations st) aid"

definition list_allocations :: "store \<Rightarrow> string \<Rightarrow> allocation list" where
  "list_allocations st pid =
     sort_key al_created_at (filter (\<lambda>a. al_position_id a = pid) (map snd (st_allocations st)))"

subsection \<open>Close conditions\<close>

definition save_close_condition :: "string \<Rightarrow> condition \<Rightarrow> store \<Rightarrow> condition option tx" where
  "save_close_condition now c st =
     (if ps_get st (c_position_id c) = None then (Inr None, st)
      else (case normalized_condition now c of
          Inl e \<Rightarrow> (Inl e, st)
        | Inr c' \<Rightarrow> (Inr (Some c'), st\<lparr>st_conditions := tset (c_id c) c' (st_conditions st)\<rparr>)))"

definition create_close_condition ::
  "string \<Rightarrow> string \<Rightarrow> string \<Rightarrow> string \<Rightarrow> jobj \<Rightarrow> bool \<Rightarrow> jobj \<Rightarrow> store \<Rightarrow> condition option tx" where
  "create_close_condition now fresh_id pid purpose expression enabled metadata st =
     (case normalize_position_rule purpose (JObj expression) enabled metadata of
        Inl e \<Rightarrow> (Inl e, st)
      | Inr m \<Rightarrow> save_close_condition now
          \<lparr>c_id = fresh_id, c_position_id = pid, c_purpose = purpose, c_expression = dumps expression,
           c_enabled = enabled, c_metadata = dumps m, c_created_at = now, c_updated_at = now\<rparr> st)"

definition get_close_condition :: "store \<Rightarrow> string \<Rightarrow> string \<Rightarrow> condition option" where
  "get_close_condition st pid cid = (case tget (st_conditions st) cid of
     None \<Rightarrow> None | Some c \<Rightarrow> if c_position_id c = pid then Some c else None)"

definition list_close_conditions :: "store \<Rightarrow> string \<Rightarrow> bool option \<Rightarrow> condition list" where
  "list_close_conditions st pid enabled =
     sort_key c_created_at (filter (\<lambda>c. c_position_id c = pid \<and>
       (case enabled of None \<Rightarrow> True | Some b \<Rightarrow> c_enabled c = b)) (map snd (st_conditions st)))"

definition update_close_condition ::
  "string \<Rightarrow> string \<Rightarrow> string \<Rightarrow> string option \<Rightarrow> jobj option \<Rightarrow> bool option \<Rightarrow> jobj option \<Rightarrow> store \<Rightarrow>
   condition option tx" where
  "update_close_condition now pid cid purpose expression enabled metadata st =
     (case get_close_condition st pid cid of
        None \<Rightarrow> (Inr None, st)
      | Some c \<Rightarrow>
          (let next_purpose = or_default purpose (c_purpose c);
               next_expression = or_default expression (col_obj (c_expression c));
               next_enabled = or_default enabled (c_enabled c);
               next_metadata = or_default metadata (col_obj (c_metadata c)) in
           case normalize_position_rule next_purpose (JObj next_expression) next_enabled next_metadata of
             Inl e \<Rightarrow> (Inl e, st)
           | Inr m \<Rightarrow>
               if next_purpose = c_purpose c \<and> py_eq (JObj next_expression) (JObj (col_obj (c_expression c))) \<and>
                  next_enabled = c_enabled c \<and> py_eq (JObj m) (JObj (col_obj (c_metadata c)))
               then (Inr (Some c), st)
               else (case save_close_condition now (c\<lparr>c_purpose := next_purpose, c_expression := dumps next_expression,
                            c_enabled := next_enabled, c_metadata := dumps m\<rparr>) st of
                       (Inl e, st') \<Rightarrow> (Inl e, st')
                     | (Inr _, st') \<Rightarrow> (Inr (get_close_condition st' pid cid), st'))))"

definition delete_close_condition :: "string \<Rightarrow> string \<Rightarrow> store \<Rightarrow> bool tx" where
  "delete_close_condition pid cid st =
     (if get_close_condition st pid cid = None then (Inr False, st)
      else (Inr True, st\<lparr>st_conditions := tdel cid (st_conditions st)\<rparr>))"

subsection \<open>Data migrations\<close>

text \<open>
  Versions 5 to 7 of the schema move data: order links from the positions' order columns,
  protections from recorded proofs, and normalised rule metadata. \<^verbatim>\<open>INSERT OR IGNORE\<close> skips a
  row that a key or unique index rejects. Versions 3 and 4 only add columns and indexes.
\<close>

definition migration_action :: "position \<Rightarrow> alloc_action option result" where
  "migration_action p =
     bindE (execution_action (jget (col_obj (p_metadata p)) ''order_action'')) (\<lambda>a.
     Inr (case a of Some x \<Rightarrow> Some x
        | None \<Rightarrow> (case p_status p of PendingOpen \<Rightarrow> Some AOpen | Reducing \<Rightarrow> Some AReduce
                  | Closing \<Rightarrow> Some AClose | _ \<Rightarrow> None)))"

definition migrate_order_row :: "position \<Rightarrow> store \<Rightarrow> store result" where
  "migrate_order_row p st =
     (if p_exchange_order_id p = [] then Inr st
      else bindE (migration_action p) (\<lambda>a.
        case a of None \<Rightarrow> Inr st
        | Some action \<Rightarrow>
            if tget (st_orders st) (p_exchange_order_id p) \<noteq> None then Inr st
            else Inr (st\<lparr>st_orders := tset (p_exchange_order_id p)
                   \<lparr>ol_position_id = p_id p, ol_client_order_id = p_client_order_id p, ol_action = action,
                    ol_metadata = dumps [], ol_created_at = p_created_at p\<rparr> (st_orders st)\<rparr>)))"

definition migrate_v5 :: "store \<Rightarrow> store result" where
  "migrate_v5 st = foldE migrate_order_row (map snd (st_positions st)) st"

definition protection_proof :: "jobj \<Rightarrow> (prot_kind \<times> jobj) option" where
  "protection_proof metadata =
     (case jget metadata ''exchange_protection'' of
        JObj proof \<Rightarrow> Some (StandaloneStop, proof)
      | _ \<Rightarrow> (case jget (as_obj (jget (as_obj (jget metadata ''execution_result'')) ''maybechProtection'')) ''active'' of
               JObj proof \<Rightarrow> Some (AttachedStop, proof) | _ \<Rightarrow> None))"

definition proof_number :: "jobj \<Rightarrow> string \<Rightarrow> rat option" where
  "proof_number proof' key = (case py_float (jget proof' key) of Inr (PFin r) \<Rightarrow> Some r | _ \<Rightarrow> None)"

definition migrate_protection_row :: "string \<Rightarrow> position \<Rightarrow> store \<Rightarrow> store" where
  "migrate_protection_row now p st =
     (case protection_proof (col_obj (p_metadata p)) of
        None \<Rightarrow> st
      | Some (kind, proof') \<Rightarrow>
          (case (proof_number proof' ''quantity'', proof_number proof' ''stop_loss'') of
             (Some quantity, Some stop_loss) \<Rightarrow>
               (let pr = \<lparr>pr_position_id = p_id p, pr_kind = kind, pr_status = PActive,
                      pr_algo_id = text_of (jget proof' ''algo_id''),
                      pr_algo_client_order_id = text_of (jget proof' ''algo_client_order_id''),
                      pr_quantity = quantity, pr_stop_loss = stop_loss, pr_trigger_order_id = [],
                      pr_metadata = dumps [], pr_created_at = p_created_at p, pr_updated_at = now\<rparr> in
                if pr_algo_id pr = [] \<or> pr_algo_client_order_id pr = [] \<or> quantity \<le> 0 \<or> stop_loss \<le> 0 \<or>
                   get_protection st (p_id p) \<noteq> None \<or> protection_taken st pr
                then st else put_protection pr st)
           | _ \<Rightarrow> st))"

definition migrate_v6 :: "string \<Rightarrow> store \<Rightarrow> store" where
  "migrate_v6 now st = fold (migrate_protection_row now) (map snd (st_positions st)) st"

definition migrate_condition_row :: "condition \<Rightarrow> store \<Rightarrow> store result" where
  "migrate_condition_row c st =
     (case normalize_position_rule (c_purpose c) (JObj (col_obj (c_expression c))) (c_enabled c) (col_obj (c_metadata c)) of
        Inl (ValueError _) \<Rightarrow> Inr st
      | Inl e \<Rightarrow> Inl e
      | Inr m \<Rightarrow> Inr (st\<lparr>st_conditions := tset (c_id c) (c\<lparr>c_metadata := dumps m\<rparr>) (st_conditions st)\<rparr>))"

definition migrate_v7 :: "store \<Rightarrow> store result" where
  "migrate_v7 st = foldE migrate_condition_row (map snd (st_conditions st)) st"

subsection \<open>Sequences of operations\<close>

text \<open>
  The requests that the services issue to the store. \<open>store_step\<close> runs one of them; an
  exception keeps what was committed.
\<close>

datatype store_op =
    SavePosition string position
  | CreatePosition string position "condition list"
  | EnsureFromTrade string trade
  | UpdateStatus string string pos_status "rat option"
  | CreateCondition string string string string jobj bool jobj
  | SaveProtection string protection
  | UpdateProtection string string "prot_status option" "rat option" "rat option" "string option" "jobj option"
  | LinkOrder string string string string alloc_action jobj
  | MergeMetadata string string jobj
  | MarkPending string string pos_status string jobj "string option"
  | Claim string string pos_status pos_status string jobj
  | Release string string string pos_status
  | LinkExchange string string string string jobj
  | RecoverIntent string string string string
  | RecoverTerminal string string string string
  | Tracking string string string string bool
  | CancelRequested string string string
  | FilledWithoutAllocation string string string
  | FilledAlerted string string string
  | Reconciliation string string string jobj
  | RecordAllocation string allocation bool bool
  | ApplyDeferred string string
  | SaveCondition string condition
  | UpdateCondition string string string "string option" "jobj option" "bool option" "jobj option"
  | DeleteCondition string string

primrec store_step :: "store_op \<Rightarrow> store \<Rightarrow> store" where
  "store_step (SavePosition now p) st = snd (ps_save now p st)"
| "store_step (CreatePosition now p cs) st = snd (create_with_close_conditions now p cs st)"
| "store_step (EnsureFromTrade now t) st = snd (ensure_from_trade now t st)"
| "store_step (UpdateStatus now pid s r) st = snd (update_status now pid s r st)"
| "store_step (CreateCondition now f pid pu ex en md) st = snd (create_close_condition now f pid pu ex en md st)"
| "store_step (SaveProtection now pr) st = snd (save_protection now pr st)"
| "store_step (UpdateProtection now pid s q l t m) st = snd (update_protection now pid s q l t m st)"
| "store_step (LinkOrder now pid oid cid a m) st = snd (link_execution_order now pid oid cid a m st)"
| "store_step (MergeMetadata now pid m) st = snd (merge_metadata now pid m st)"
| "store_step (MarkPending now pid s oid m c) st = snd (mark_pending_execution now pid s oid m c st)"
| "store_step (Claim now pid e s c m) st = snd (claim_pending_execution now pid e s c m st)"
| "store_step (Release now pid c s) st = snd (release_pending_execution now pid c s st)"
| "store_step (LinkExchange now pid c oid m) st = snd (link_exchange_order now pid c oid m st)"
| "store_step (RecoverIntent now pid c es) st = snd (recover_client_order_intent now pid c es st)"
| "store_step (RecoverTerminal now pid oid os) st = snd (recover_terminal_order now pid oid os st)"
| "store_step (Tracking now pid oid es b) st = snd (update_execution_tracking now pid oid es b st)"
| "store_step (CancelRequested now pid oid) st = snd (mark_order_cancel_requested now pid oid st)"
| "store_step (FilledWithoutAllocation now pid oid) st = snd (record_filled_without_allocation now pid oid st)"
| "store_step (FilledAlerted now pid oid) st = snd (mark_filled_without_allocation_alerted now pid oid st)"
| "store_step (Reconciliation now pid k r) st = snd (update_reconciliation now pid k r st)"
| "store_step (RecordAllocation now a ap al) st = snd (record_allocation now a ap al st)"
| "store_step (ApplyDeferred now pid) st = snd (apply_deferred_allocations now pid st)"
| "store_step (SaveCondition now c) st = snd (save_close_condition now c st)"
| "store_step (UpdateCondition now pid cid pu ex en md) st = snd (update_close_condition now pid cid pu ex en md st)"
| "store_step (DeleteCondition pid cid) st = snd (delete_close_condition pid cid st)"

end
