(* ===== verification/InstrumentConstraints.thy ===== *)
theory InstrumentConstraints
  imports DecimalContext
begin

section \<open>Instrument constraints for order submission\<close>

text \<open>
  \<^verbatim>\<open>src/trading/instrument_constraints.py\<close>: the lot, minimum-size and tick rules of an OKX
  instrument and the normalisation of sizes and prices to the text sent to the exchange.
  Rounding to a tick is an interface (\<open>tick_rounding\<close>) that the three rounding modes of
  the \<^verbatim>\<open>decimal\<close> module implement; the price functions get their bounds from it.
\<close>

subsection \<open>Model\<close>

definition cons_decimal :: "json \<Rightarrow> string \<Rightarrow> decimal result" where
  "cons_decimal value field =
     (case dec_of_json value of
        None \<Rightarrow> Inl (ValueError (''Invalid '' @ field @ '': '' @ py_repr value))
      | Some number \<Rightarrow>
          if \<not> dec_finite number \<or> dec_val number \<le> 0
          then Inl (ValueError (field @ '' must be positive''))
          else Inr number)"

definition decimal_string :: "decimal \<Rightarrow> string" where
  "decimal_string value =
     (let rendered = format_f value in
      if CHR ''.'' \<in> set rendered
      then py_rstrip_char CHR ''.'' (py_rstrip_char CHR ''0'' rendered) else rendered)"

record instrument_constraints =
  ic_inst_id :: string
  ic_state :: string
  ic_minimum_size :: decimal
  ic_lot_size :: decimal
  ic_tick_size :: decimal
  ic_contract_value :: "decimal option"

definition constraints_from_okx :: "jobj \<Rightarrow> instrument_constraints result" where
  "constraints_from_okx payload =
     (let inst_id = text_of (jget payload ''instId''); contract_value = jget payload ''ctVal'' in
      if inst_id = [] then Inl (ValueError ''OKX instrument metadata is missing instId'')
      else bindE (cons_decimal (jget payload ''minSz'') ''minSz'') (\<lambda>minimum_size.
           bindE (cons_decimal (jget payload ''lotSz'') ''lotSz'') (\<lambda>lot_size.
           bindE (cons_decimal (jget payload ''tickSz'') ''tickSz'') (\<lambda>tick_size.
           bindE (if blank contract_value then Inr None
                  else bindE (cons_decimal contract_value ''ctVal'') (\<lambda>v. Inr (Some v))) (\<lambda>cv.
           Inr \<lparr>ic_inst_id = inst_id, ic_state = text_of (jget payload ''state''),
                ic_minimum_size = minimum_size, ic_lot_size = lot_size, ic_tick_size = tick_size,
                ic_contract_value = cv\<rparr>)))))"

definition validate_tradable :: "instrument_constraints \<Rightarrow> unit result" where
  "validate_tradable ic =
     (if ic_state ic \<noteq> ''live''
      then Inl (ValueError (''Instrument '' @ ic_inst_id ic @ '' is not tradable (state='' @
             (if ic_state ic = [] then ''unknown'' else ic_state ic) @ '')''))
      else Inr ())"

definition normalize_size :: "instrument_constraints \<Rightarrow> json \<Rightarrow> string result" where
  "normalize_size ic requested =
     bindE (validate_tradable ic) (\<lambda>_.
     bindE (cons_decimal requested ''order size'') (\<lambda>size.
     if dec_val size < dec_val (ic_minimum_size ic)
     then Inl (ValueError (''Order size '' @ decimal_string size @ '' is below '' @ ic_inst_id ic @
            '' minSz '' @ decimal_string (ic_minimum_size ic)))
     else bindE (dec_rem (dec_val size) (dec_val (ic_lot_size ic))) (\<lambda>r.
     if r \<noteq> 0
     then Inl (ValueError (''Order size '' @ decimal_string size @ '' is not a multiple of '' @
            ic_inst_id ic @ '' lotSz '' @ decimal_string (ic_lot_size ic)))
     else Inr (decimal_string size))))"

text \<open>\<^verbatim>\<open>(price / tick).to_integral_value(rounding) * tick\<close>\<close>

definition to_tick :: "(rat \<Rightarrow> int) \<Rightarrow> decimal \<Rightarrow> rat \<Rightarrow> decimal" where
  "to_tick rounding tick price =
     (case tick of Dec c e \<Rightarrow> dec_fix (Dec (rounding (ctx (price / dec_val tick)) * c) e) | _ \<Rightarrow> DNaN)"

definition normalize_price :: "instrument_constraints \<Rightarrow> json \<Rightarrow> string result" where
  "normalize_price ic requested =
     bindE (validate_tradable ic) (\<lambda>_.
     bindE (cons_decimal requested ''order price'') (\<lambda>price.
     Inr (decimal_string (to_tick round_half_up (ic_tick_size ic) (dec_val price)))))"

definition check_side :: "string \<Rightarrow> bool result" where
  "check_side position_side =
     (let side = py_lower position_side in
      if side \<noteq> ''long'' \<and> side \<noteq> ''short''
      then Inl (ValueError ''position_side must be 'long' or 'short' '')
      else Inr (side = ''long''))"

definition normalize_entry_limit :: "instrument_constraints \<Rightarrow> json \<Rightarrow> string \<Rightarrow> string result" where
  "normalize_entry_limit ic requested position_side =
     bindE (validate_tradable ic) (\<lambda>_.
     bindE (cons_decimal requested ''entry limit price'') (\<lambda>price.
     bindE (check_side position_side) (\<lambda>long.
     Inr (decimal_string (to_tick (if long then floor else ceiling) (ic_tick_size ic) (dec_val price))))))"

definition normalize_break_even_price :: "instrument_constraints \<Rightarrow> json \<Rightarrow> string \<Rightarrow> string result" where
  "normalize_break_even_price ic requested position_side =
     bindE (validate_tradable ic) (\<lambda>_.
     bindE (cons_decimal requested ''break-even price'') (\<lambda>price.
     bindE (check_side position_side) (\<lambda>long.
     Inr (decimal_string (to_tick (if long then ceiling else floor) (ic_tick_size ic) (dec_val price))))))"

definition wf_constraints :: "instrument_constraints \<Rightarrow> bool" where
  "wf_constraints ic \<longleftrightarrow>
     ic_inst_id ic \<noteq> [] \<and>
     list_all (\<lambda>d. dec_finite d \<and> 0 < dec_val d)
       ([ic_minimum_size ic, ic_lot_size ic, ic_tick_size ic] @
        (case ic_contract_value ic of None \<Rightarrow> [] | Some v \<Rightarrow> [v]))"

subsection \<open>Interface: rounding to a tick\<close>

locale tick_rounding =
  fixes rnd :: "rat \<Rightarrow> int"
  assumes rnd_near: "\<bar>of_int (rnd x) - x\<bar> < 1"
    and rnd_int: "rnd (of_int n) = n"
begin

definition quantise :: "rat \<Rightarrow> rat \<Rightarrow> rat" where
  "quantise tick p = of_int (rnd (p / tick)) * tick"

lemma quantise_near:
  assumes "0 < tick" shows "\<bar>quantise tick p - p\<bar> < tick"
proof -
  have "quantise tick p - p = (of_int (rnd (p / tick)) - p / tick) * tick"
    using assms by (simp add: quantise_def field_simps)
  then have "\<bar>quantise tick p - p\<bar> = \<bar>of_int (rnd (p / tick)) - p / tick\<bar> * tick"
    using assms by (simp add: abs_mult)
  also have "\<dots> < 1 * tick"
    using rnd_near assms by (rule mult_strict_right_mono)
  finally show ?thesis by simp
qed

lemma quantise_aligned: "0 < tick \<Longrightarrow> dec_multiple (quantise tick p) tick"
  by (simp add: quantise_def dec_multiple_def)

lemma quantise_fixpoint: "0 < tick \<Longrightarrow> dec_multiple p tick \<Longrightarrow> quantise tick p = p"
  unfolding quantise_def dec_multiple_def by (metis rnd_int nonzero_eq_divide_eq less_irrefl)

lemma quantise_idem: "0 < tick \<Longrightarrow> quantise tick (quantise tick p) = quantise tick p"
  by (simp add: quantise_fixpoint quantise_aligned)

end

lemma floor_near: "\<bar>of_int \<lfloor>x :: rat\<rfloor> - x\<bar> < 1"
  by linarith

lemma ceiling_near: "\<bar>of_int \<lceil>x :: rat\<rceil> - x\<bar> < 1"
  by linarith

lemma round_half_up_near: "\<bar>of_int (round_half_up x) - x\<bar> < 1"
  unfolding round_half_up_def by (auto) linarith+

lemma round_half_up_of_int [simp]: "round_half_up (of_int n) = n"
  unfolding round_half_up_def by (auto) linarith+

interpretation down: tick_rounding "floor :: rat \<Rightarrow> int"
  by unfold_locales (simp_all only: floor_near floor_of_int)

interpretation up: tick_rounding "ceiling :: rat \<Rightarrow> int"
  by unfold_locales (simp_all only: ceiling_near ceiling_of_int)

interpretation nearest: tick_rounding round_half_up
  by unfold_locales (simp_all only: round_half_up_near round_half_up_of_int)

subsection \<open>Printing\<close>

definition strip_text :: "string \<Rightarrow> string" where
  "strip_text s = (if CHR ''.'' \<in> set s
     then py_rstrip_char CHR ''.'' (py_rstrip_char CHR ''0'' s) else s)"

lemma decimal_string_strip: "decimal_string d = strip_text (format_f d)"
  by (simp add: decimal_string_def strip_text_def Let_def)

lemma strip_text_plain:
  assumes "list_all is_digit ip" "list_all is_digit fp" "ip \<noteq> []"
  shows "strip_text (plain_text ip fp) = plain_text ip (py_rstrip_char CHR ''0'' fp)"
proof (cases "fp = []")
  case True
  have "CHR ''.'' \<notin> set ip" using assms(1) by (auto simp: list_all_iff)
  with True show ?thesis by (simp add: strip_text_def plain_text_def py_rstrip_char_def)
next
  case False
  with strip_fraction [OF assms] show ?thesis by (simp add: strip_text_def plain_text_def)
qed

lemma strip_text_minus:
  assumes "strip_text s \<noteq> []"
  shows "strip_text (CHR ''-'' # s) = CHR ''-'' # strip_text s"
proof (cases "CHR ''.'' \<in> set s")
  case True
  let ?z = "py_rstrip_char CHR ''0'' s"
  from True assms have a: "py_rstrip_char CHR ''.'' ?z \<noteq> []"
    by (simp add: strip_text_def)
  then have z: "?z \<noteq> []" by (metis rstrip_Nil)
  have "py_rstrip_char CHR ''0'' (CHR ''-'' # s) = CHR ''-'' # ?z"
    using rstrip_append [of "CHR ''0''" "''-''" s] z by (simp only: if_False append_Cons append_Nil)
  moreover have "py_rstrip_char CHR ''.'' (CHR ''-'' # ?z) = CHR ''-'' # py_rstrip_char CHR ''.'' ?z"
    using rstrip_append [of "CHR ''.''" "''-''" ?z] a by (simp only: if_False append_Cons append_Nil)
  ultimately show ?thesis using True by (simp only: strip_text_def list.set insert_iff if_True simp_thms)
qed (simp add: strip_text_def)

lemma strip_fixed_round_trip:
  assumes "0 \<le> n"
  shows "\<exists>d. dec_of_str (strip_text (fixed_digits n e)) = Some d \<and> dec_finite d
      \<and> dec_val d = of_int n * pow10 e"
  "\<exists>d. dec_of_str (strip_text (CHR ''-'' # fixed_digits n e)) = Some d \<and> dec_finite d
      \<and> dec_val d = - (of_int n * pow10 e)"
proof -
  obtain ip fp where t: "fixed_digits n e = plain_text ip fp" "list_all is_digit ip"
      "list_all is_digit fp" "ip \<noteq> []"
    and v: "of_int (read_digits (ip @ fp)) / 10 ^ length fp = (of_int n * pow10 e :: rat)"
    using assms by (rule fixed_digits_plain)
  let ?fp = "py_rstrip_char CHR ''0'' fp"
  have q: "strip_text (fixed_digits n e) = plain_text ip ?fp"
    by (simp add: t strip_text_plain)
  then have m: "strip_text (CHR ''-'' # fixed_digits n e) = CHR ''-'' # plain_text ip ?fp"
    using t(4) by (subst strip_text_minus) (simp_all add: plain_text_def)
  have w: "of_int (read_digits (ip @ ?fp)) * pow10 (- int (length ?fp)) = of_int n * pow10 e"
    using rstrip_zeros_value [of ip fp] v by (simp only: pow10_minus)
  note r = dec_of_str_plain [OF t(2) rstrip_digits [OF t(3)] t(4)]
  show "\<exists>d. dec_of_str (strip_text (fixed_digits n e)) = Some d \<and> dec_finite d
      \<and> dec_val d = of_int n * pow10 e"
    unfolding q using r(1) w by simp
  show "\<exists>d. dec_of_str (strip_text (CHR ''-'' # fixed_digits n e)) = Some d \<and> dec_finite d
      \<and> dec_val d = - (of_int n * pow10 e)"
    unfolding m using r(2) w by simp
qed

lemma decimal_string_reads:
  assumes "dec_finite d"
  obtains d' where "dec_of_str (decimal_string d) = Some d'" "dec_finite d'" "dec_val d' = dec_val d"
proof -
  obtain c e where d: "d = Dec c e" using assms by (cases d) auto
  have z: "strip_text ''0'' = ''0''" "dec_of_str ''0'' = Some (Dec 0 0)"
    using dec_of_str_plain(1) [of "''0''" "[]"]
    by (simp_all add: strip_text_def plain_text_def read_digits_def digit_val_def)
  have "\<exists>d'. dec_of_str (decimal_string d) = Some d' \<and> dec_finite d' \<and> dec_val d' = dec_val d"
    unfolding d decimal_string_strip
    using strip_fixed_round_trip(1) [of c e] strip_fixed_round_trip(2) [of "- c" e] z
    by (cases "c < 0") auto
  then show thesis using that by blast
qed

text \<open>
  The text that is sent to the exchange, and the number the exchange reads from it.
\<close>

definition text_value :: "string \<Rightarrow> rat option" where
  "text_value s = (case dec_of_str s of Some d \<Rightarrow> if dec_finite d then Some (dec_val d) else None
     | None \<Rightarrow> None)"

lemma text_value_decimal_string: "dec_finite d \<Longrightarrow> text_value (decimal_string d) = Some (dec_val d)"
  by (rule decimal_string_reads [of d]) (simp_all add: text_value_def)

subsection \<open>Behaviour of the operations\<close>

lemma cons_decimal_Inr:
  "cons_decimal v f = Inr d \<longleftrightarrow> dec_of_json v = Some d \<and> dec_finite d \<and> 0 < dec_val d"
  by (auto simp: cons_decimal_def split: option.splits if_splits)

lemma validate_tradable_Inr: "validate_tradable ic = Inr u \<longleftrightarrow> ic_state ic = ''live''"
  by (simp add: validate_tradable_def)

lemma check_side_Inr:
  "check_side ps = Inr b \<longleftrightarrow> (py_lower ps = ''long'' \<and> b) \<or> (py_lower ps = ''short'' \<and> \<not> b)"
  unfolding check_side_def Let_def by (cases "py_lower ps = ''long''"; cases "py_lower ps = ''short''") simp_all

lemmas constraint_steps = result_simps cons_decimal_Inr validate_tradable_Inr check_side_Inr

lemma to_tick_value:
  assumes "dec_finite tick"
  shows "dec_finite (to_tick rnd tick p)"
    and "dec_val (to_tick rnd tick p) = ctx (of_int (rnd (ctx (p / dec_val tick))) * dec_val tick)"
  using assms by (cases tick; simp add: to_tick_def dec_fix_val mult.assoc)+

text \<open>The quotient and the rounded price have at most 28 digits, as every price does whose
  digits and those of the tick together are no more than that.\<close>

definition exact_ticks :: "rat \<Rightarrow> rat \<Rightarrow> bool" where
  "exact_ticks t p \<longleftrightarrow>
     exact28 (p / t) \<and> exact28 (of_int \<lfloor>p / t\<rfloor> * t) \<and> exact28 (of_int \<lceil>p / t\<rceil> * t)"

lemma to_tick_exact:
  assumes "dec_finite tick" and "exact_ticks (dec_val tick) p"
    and "rnd (p / dec_val tick) \<in> {\<lfloor>p / dec_val tick\<rfloor>, \<lceil>p / dec_val tick\<rceil>}"
  shows "dec_val (to_tick rnd tick p) = of_int (rnd (p / dec_val tick)) * dec_val tick"
  using assms by (auto simp: to_tick_value exact_ticks_def exact28_def)

lemma round_half_up_cases: "round_half_up x \<in> {\<lfloor>x\<rfloor>, \<lceil>x\<rceil>}"
proof -
  have "round_half_up x = \<lfloor>x\<rfloor> \<or> round_half_up x = \<lceil>x\<rceil>"
    unfolding round_half_up_def by (cases "0 \<le> x") (simp_all, linarith+)
  then show ?thesis by simp
qed

lemma wf_constraints_tick:
  "wf_constraints ic \<Longrightarrow> dec_finite (ic_tick_size ic) \<and> 0 < dec_val (ic_tick_size ic)"
  by (simp add: wf_constraints_def)

lemma floor_le_tick: "0 < (t::rat) \<Longrightarrow> of_int \<lfloor>p / t\<rfloor> * t \<le> p"
  by (metis of_int_floor_le pos_le_divide_eq)

lemma le_ceiling_tick: "0 < (t::rat) \<Longrightarrow> p \<le> of_int \<lceil>p / t\<rceil> * t"
  by (metis le_of_int_ceiling pos_divide_le_eq)


text \<open>A BTC swap as OKX describes it, for the witnesses.\<close>

definition btc_payload :: jobj where
  "btc_payload = [(''instId'', JStr ''BTC-USDT-SWAP''), (''state'', JStr ''live''),
     (''minSz'', JStr ''0.01''), (''lotSz'', JStr ''0.01''), (''tickSz'', JStr ''0.1''),
     (''ctVal'', JStr ''0.01'')]"

definition btc_constraints :: instrument_constraints where
  "btc_constraints = \<lparr>ic_inst_id = ''BTC-USDT-SWAP'', ic_state = ''live'',
     ic_minimum_size = Dec 1 (-2), ic_lot_size = Dec 1 (-2), ic_tick_size = Dec 1 (-1),
     ic_contract_value = Some (Dec 1 (-2))\<rparr>"

definition tick_text :: "instrument_constraints \<Rightarrow> rat \<Rightarrow> string \<Rightarrow> rat \<Rightarrow> bool" where
  "tick_text ic p s v \<longleftrightarrow> text_value s = Some v \<and> dec_multiple v (dec_val (ic_tick_size ic))
     \<and> \<bar>v - p\<bar> < dec_val (ic_tick_size ic)"

lemma tick_down:
  assumes "wf_constraints ic" and "exact_ticks (dec_val (ic_tick_size ic)) p"
  shows "\<exists>v. tick_text ic p (decimal_string (to_tick floor (ic_tick_size ic) p)) v \<and> v \<le> p"
  using wf_constraints_tick [OF assms(1)] assms(2) down.quantise_aligned down.quantise_near floor_le_tick
  by (auto simp: tick_text_def text_value_decimal_string to_tick_value(1) to_tick_exact down.quantise_def)

lemma tick_up:
  assumes "wf_constraints ic" and "exact_ticks (dec_val (ic_tick_size ic)) p"
  shows "\<exists>v. tick_text ic p (decimal_string (to_tick ceiling (ic_tick_size ic) p)) v \<and> p \<le> v"
  using wf_constraints_tick [OF assms(1)] assms(2) up.quantise_aligned up.quantise_near le_ceiling_tick
  by (auto simp: tick_text_def text_value_decimal_string to_tick_value(1) to_tick_exact up.quantise_def)

lemma half_tick:
  assumes "0 < (t::rat)" and "0 \<le> p"
  shows "\<bar>of_int (round_half_up (p / t)) * t - p\<bar> \<le> t / 2"
proof -
  have "\<bar>of_int (round_half_up (p / t)) - p / t\<bar> \<le> 1/2"
    using round_half_up_bounds [of "p / t", OF divide_nonneg_pos [OF assms(2,1)]]
    by (intro abs_leI) linarith+
  then have "\<bar>of_int (round_half_up (p / t)) - p / t\<bar> * t \<le> 1/2 * t"
    using assms by (intro mult_right_mono) auto
  moreover have "(of_int (round_half_up (p / t)) - p / t) * t = of_int (round_half_up (p / t)) * t - p"
    using assms by (simp add: field_simps)
  ultimately show ?thesis using assms
    by (metis abs_mult abs_of_pos mult.commute mult.right_neutral times_divide_eq_right)
qed

lemma tick_nearest:
  assumes "wf_constraints ic" and "exact_ticks (dec_val (ic_tick_size ic)) p" and "0 \<le> p"
  shows "\<exists>v. tick_text ic p (decimal_string (to_tick round_half_up (ic_tick_size ic) p)) v
     \<and> \<bar>v - p\<bar> \<le> dec_val (ic_tick_size ic) / 2"
  using wf_constraints_tick [OF assms(1)] assms(2,3) nearest.quantise_aligned nearest.quantise_near
    half_tick
  by (auto simp: tick_text_def text_value_decimal_string to_tick_value(1)
      to_tick_exact [where rnd = round_half_up, OF _ _ round_half_up_cases] nearest.quantise_def)

lemma btc_exact: "exact_ticks (dec_val (ic_tick_size btc_constraints)) (dec_val (Dec 6000037 (- 2)))"
  unfolding exact_ticks_def exact28_def by code_simp

lemma wf_btc_constraints: "wf_constraints btc_constraints"
  by code_simp

subsection \<open>Properties\<close>

text \<open>metadata accepted from OKX is well formed: the identifier is present and every
  size, lot, tick and contract value is a positive finite decimal.\<close>

theorem constraints_from_okx_wf:
  "constraints_from_okx payload = Inr ic \<Longrightarrow> wf_constraints ic"
  by (auto simp: constraints_from_okx_def wf_constraints_def constraint_steps Let_def
      split: if_splits option.splits)

theorem constraints_from_okx_wf_witness:
  "constraints_from_okx btc_payload = Inr btc_constraints \<and> wf_constraints btc_constraints"
proof -
  have h: "constraints_from_okx btc_payload = Inr btc_constraints" by code_simp
  then show ?thesis using constraints_from_okx_wf [OF h] by simp
qed

text \<open>the text produced for a finite decimal reads back to the same number.\<close>

theorem decimal_string_round_trip:
  "dec_finite d \<Longrightarrow> text_value (decimal_string d) = Some (dec_val d)"
  by (rule text_value_decimal_string)

theorem decimal_string_round_trip_witness:
  "dec_finite (Dec (-1500) (-3)) \<and> decimal_string (Dec (-1500) (-3)) = ''-1.5''
     \<and> text_value (decimal_string (Dec (-1500) (-3))) = Some (- 3 / 2)"
proof -
  have h: "dec_finite (Dec (-1500) (-3))" by simp
  have s: "decimal_string (Dec (-1500) (-3)) = ''-1.5''" by code_simp
  show ?thesis using h s decimal_string_round_trip [OF h] by (simp add: pow10_def)
qed

text \<open>an order size is accepted exactly when the instrument is live, the request is a
  positive decimal not below the minimum and a multiple of the lot, and then the text sent
  has exactly the requested value.\<close>

theorem normalize_size_exact:
  "normalize_size ic requested = Inr s \<longleftrightarrow>
     ic_state ic = ''live'' \<and>
     (\<exists>d. dec_of_json requested = Some d \<and> dec_finite d \<and> 0 < dec_val d
        \<and> dec_val (ic_minimum_size ic) \<le> dec_val d
        \<and> dec_multiple (dec_val d) (dec_val (ic_lot_size ic))
        \<and> dec_val (ic_lot_size ic) \<noteq> 0 \<and> \<bar>dec_val d / dec_val (ic_lot_size ic)\<bar> < 10 ^ 28
        \<and> s = decimal_string d \<and> text_value s = Some (dec_val d))"
proof -
  have r: "dec_rem a b = Inr 0 \<longleftrightarrow> b \<noteq> 0 \<and> \<bar>a / b\<bar> < 10 ^ 28 \<and> dec_multiple a b" for a b
    using dec_rem_0 [of a b 0] by simp
  show ?thesis unfolding normalize_size_def
    by (auto simp: constraint_steps text_value_decimal_string r not_less split: if_splits)
qed

text \<open>C36: an entry limit is rounded to the tick on the side that never loosens the slippage
  bound: at most the requested price for a long, at least it for a short, a multiple of the
  tick and less than a tick away.\<close>

theorem normalize_entry_limit_safe:
  assumes "wf_constraints ic" and "normalize_entry_limit ic requested side = Inr s"
    and "\<And>p. dec_of_json requested = Some p \<Longrightarrow> exact_ticks (dec_val (ic_tick_size ic)) (dec_val p)"
  shows "\<exists>p v. dec_of_json requested = Some p \<and> tick_text ic (dec_val p) s v
     \<and> (py_lower side = ''long'' \<and> v \<le> dec_val p \<or> py_lower side = ''short'' \<and> dec_val p \<le> v)"
proof -
  from assms(2) obtain p long where p: "dec_of_json requested = Some p"
    and l: "(py_lower side = ''long'' \<and> long) \<or> (py_lower side = ''short'' \<and> \<not> long)"
    and s: "s = decimal_string (to_tick (if long then floor else ceiling) (ic_tick_size ic) (dec_val p))"
    unfolding normalize_entry_limit_def constraint_steps by blast
  show ?thesis
  proof (cases long)
    case True
    with tick_down [OF assms(1) assms(3) [OF p]] p l s show ?thesis by (simp only: if_True) blast
  next
    case False
    with tick_up [OF assms(1) assms(3) [OF p]] p l s show ?thesis by (simp only: if_False) blast
  qed
qed

theorem normalize_entry_limit_safe_witness:
  "normalize_entry_limit btc_constraints (JStr ''60000.37'') ''Long'' = Inr ''60000.3''
   \<and> (\<exists>p v. dec_of_json (JStr ''60000.37'') = Some p \<and> tick_text btc_constraints (dec_val p) ''60000.3'' v
     \<and> (py_lower ''Long'' = ''long'' \<and> v \<le> dec_val p \<or> py_lower ''Long'' = ''short'' \<and> dec_val p \<le> v))"
proof -
  have h: "normalize_entry_limit btc_constraints (JStr ''60000.37'') ''Long'' = Inr ''60000.3''"
    by code_simp
  have x: "exact_ticks (dec_val (ic_tick_size btc_constraints)) (dec_val p)"
    if "dec_of_json (JStr ''60000.37'') = Some p" for p
  proof -
    have "dec_of_json (JStr ''60000.37'') = Some (Dec 6000037 (- 2))" by code_simp
    with that have "p = Dec 6000037 (- 2)" by simp
    moreover have "exact_ticks (dec_val (ic_tick_size btc_constraints)) (dec_val (Dec 6000037 (- 2)))"
      by (simp only: btc_exact)
    ultimately show ?thesis by simp
  qed
  show ?thesis by (rule conjI [OF h normalize_entry_limit_safe [OF wf_btc_constraints h x]])
qed

text \<open>a break-even price is rounded the other way, so that the protection asked for is
  never weakened: at least the requested price for a long, at most it for a short.\<close>

theorem normalize_break_even_safe:
  assumes "wf_constraints ic" and "normalize_break_even_price ic requested side = Inr s"
    and "\<And>p. dec_of_json requested = Some p \<Longrightarrow> exact_ticks (dec_val (ic_tick_size ic)) (dec_val p)"
  shows "\<exists>p v. dec_of_json requested = Some p \<and> tick_text ic (dec_val p) s v
     \<and> (py_lower side = ''long'' \<and> dec_val p \<le> v \<or> py_lower side = ''short'' \<and> v \<le> dec_val p)"
proof -
  from assms(2) obtain p long where p: "dec_of_json requested = Some p"
    and l: "(py_lower side = ''long'' \<and> long) \<or> (py_lower side = ''short'' \<and> \<not> long)"
    and s: "s = decimal_string (to_tick (if long then ceiling else floor) (ic_tick_size ic) (dec_val p))"
    unfolding normalize_break_even_price_def constraint_steps by blast
  show ?thesis
  proof (cases long)
    case True
    with tick_up [OF assms(1) assms(3) [OF p]] p l s show ?thesis by (simp only: if_True) blast
  next
    case False
    with tick_down [OF assms(1) assms(3) [OF p]] p l s show ?thesis by (simp only: if_False) blast
  qed
qed

theorem normalize_break_even_safe_witness:
  "normalize_break_even_price btc_constraints (JStr ''60000.37'') ''long'' = Inr ''60000.4''
   \<and> (\<exists>p v. dec_of_json (JStr ''60000.37'') = Some p \<and> tick_text btc_constraints (dec_val p) ''60000.4'' v
     \<and> (py_lower ''long'' = ''long'' \<and> dec_val p \<le> v \<or> py_lower ''long'' = ''short'' \<and> v \<le> dec_val p))"
proof -
  have h: "normalize_break_even_price btc_constraints (JStr ''60000.37'') ''long'' = Inr ''60000.4''"
    by code_simp
  have x: "exact_ticks (dec_val (ic_tick_size btc_constraints)) (dec_val p)"
    if "dec_of_json (JStr ''60000.37'') = Some p" for p
  proof -
    have "dec_of_json (JStr ''60000.37'') = Some (Dec 6000037 (- 2))" by code_simp
    with that have "p = Dec 6000037 (- 2)" by simp
    moreover have "exact_ticks (dec_val (ic_tick_size btc_constraints)) (dec_val (Dec 6000037 (- 2)))"
      by (simp only: btc_exact)
    ultimately show ?thesis by simp
  qed
  show ?thesis by (rule conjI [OF h normalize_break_even_safe [OF wf_btc_constraints h x]])
qed

lemma normalize_price_nearest:
  assumes "wf_constraints ic" and "normalize_price ic requested = Inr s"
    and "\<And>p. dec_of_json requested = Some p \<Longrightarrow> exact_ticks (dec_val (ic_tick_size ic)) (dec_val p)"
  shows "\<exists>p v. dec_of_json requested = Some p \<and> tick_text ic (dec_val p) s v
     \<and> \<bar>v - dec_val p\<bar> \<le> dec_val (ic_tick_size ic) / 2"
proof -
  from assms(2) obtain p where p: "dec_of_json requested = Some p" "0 < dec_val p"
    and s: "s = decimal_string (to_tick round_half_up (ic_tick_size ic) (dec_val p))"
    unfolding normalize_price_def by (auto simp: constraint_steps)
  from tick_nearest [OF assms(1) assms(3) [OF p(1)]] p s show ?thesis by auto
qed

end
