(* ===== verification/InstrumentSizing.thy ===== *)
theory InstrumentSizing
  imports InstrumentConstraints
begin

section \<open>Instrument metadata and order sizing\<close>

text \<open>
  \<^verbatim>\<open>src/trading/instrument_metadata.py\<close> (the record and its reading from OKX) and
  \<^verbatim>\<open>src/trading/instrument_sizing.py\<close>: conversion between the operator's base quantity and
  OKX contracts, and the derivation of a lot-aligned size and a tick-aligned stop from an
  allowed loss. Every \<^verbatim>\<open>Decimal\<close> operation rounds with \<open>ctx\<close>.
\<close>

subsection \<open>Metadata\<close>

record instrument_metadata =
  im_inst_id :: string
  im_inst_type :: string
  im_state :: string
  im_base_ccy :: string
  im_quote_ccy :: string
  im_settle_ccy :: string
  im_contract_type :: string
  im_contract_value :: string
  im_contract_currency :: string
  im_contract_multiplier :: string
  im_lot_size :: string
  im_min_size :: string
  im_tick_size :: string
  im_size_precision :: int
  im_price_precision :: int
  im_max_limit_size :: string
  im_max_market_size :: string
  im_source :: string
  im_updated_at :: string

definition md_precision :: "string \<Rightarrow> int result" where
  "md_precision value =
     (case dec_of_str value of
        None \<Rightarrow> Inr 0
      | Some number \<Rightarrow>
          (case dec_fix number of
             Dec c e \<Rightarrow> Inr (max 0 (- (if c = 0 then 0 else snd (strip_zeros c e))))
           | _ \<Rightarrow> Inl TypeError))"

definition metadata_from_okx :: "jobj \<Rightarrow> string \<Rightarrow> string \<Rightarrow> instrument_metadata result" where
  "metadata_from_okx payload updated_at source =
     (let text = (\<lambda>k. text_of (jget payload k));
          inst_id = py_strip (text ''instId''); inst_type = py_strip (text ''instType'') in
      if inst_id = [] \<or> inst_type = []
      then Inl (ValueError ''OKX instrument metadata requires instId and instType'')
      else
        (let contract_value = py_strip (text ''ctVal'');
             contract_currency = py_strip (text ''ctValCcy'');
             lot_size = py_strip (text ''lotSz'');
             min_size = py_strip (text ''minSz'');
             tick_size = py_strip (text ''tickSz'') in
         if lot_size = [] \<or> min_size = [] \<or> tick_size = []
         then Inl (ValueError (inst_id @ '' metadata is missing lotSz, minSz, or tickSz''))
         else if inst_type = ''SWAP'' \<and> (contract_value = [] \<or> contract_currency = [])
         then Inl (ValueError (inst_id @ '' metadata is missing ctVal or ctValCcy''))
         else bindE (constraints_from_okx payload) (\<lambda>_.
              bindE (md_precision lot_size) (\<lambda>size_precision.
              bindE (md_precision tick_size) (\<lambda>price_precision.
              Inr \<lparr>im_inst_id = inst_id, im_inst_type = inst_type, im_state = text ''state'',
                im_base_ccy = text ''baseCcy'', im_quote_ccy = text ''quoteCcy'',
                im_settle_ccy = text ''settleCcy'', im_contract_type = text ''ctType'',
                im_contract_value = contract_value, im_contract_currency = contract_currency,
                im_contract_multiplier = text ''ctMult'', im_lot_size = lot_size,
                im_min_size = min_size, im_tick_size = tick_size,
                im_size_precision = size_precision, im_price_precision = price_precision,
                im_max_limit_size = text ''maxLmtSz'', im_max_market_size = text ''maxMktSz'',
                im_source = source, im_updated_at = updated_at\<rparr>)))))"

subsection \<open>Inputs\<close>

text \<open>An argument typed \<^verbatim>\<open>object\<close>: a JSON value, or a \<^verbatim>\<open>Decimal\<close> already computed.\<close>

datatype pyobj = OVal json | ODec rat

definition dec_of_obj :: "pyobj \<Rightarrow> decimal option" where
  "dec_of_obj v = (case v of OVal j \<Rightarrow> dec_of_json j | ODec r \<Rightarrow> Some (dec_of_rat r))"

text \<open>\<^verbatim>\<open>Decimal(str(value))\<close> with its finiteness: \<open>None\<close> does not parse, \<open>Some None\<close> is not finite.\<close>

definition obj_rat :: "pyobj \<Rightarrow> rat option option" where
  "obj_rat v = (case v of
       ODec r \<Rightarrow> Some (Some r)
     | OVal j \<Rightarrow> map_option (\<lambda>d. if dec_finite d then Some (dec_val d) else None) (dec_of_json j))"

definition sz_positive :: "pyobj \<Rightarrow> string \<Rightarrow> rat result" where
  "sz_positive value field =
     (case obj_rat value of
        None \<Rightarrow> Inl (ValueError (''Invalid '' @ field))
      | Some None \<Rightarrow> Inl (ValueError (field @ '' must be positive''))
      | Some (Some number) \<Rightarrow>
          if number \<le> 0 then Inl (ValueError (field @ '' must be positive'')) else Inr number)"

definition sz_cost_rate :: "pyobj \<Rightarrow> string \<Rightarrow> rat result" where
  "sz_cost_rate value field =
     (case obj_rat value of
        None \<Rightarrow> Inl (ValueError (''Invalid '' @ field))
      | Some None \<Rightarrow> Inl (ValueError (field @ '' must be between 0 and 0.02''))
      | Some (Some number) \<Rightarrow>
          if number < 0 \<or> 2 / 100 < number
          then Inl (ValueError (field @ '' must be between 0 and 0.02'')) else Inr number)"

definition sz_render :: "rat \<Rightarrow> string" where
  "sz_render value = decimal_string (dec_of_rat value)"

subsection \<open>The sizer\<close>

record size_quote =
  sq_inst_id :: string
  sq_display_quantity :: rat
  sq_display_currency :: string
  sq_api_quantity_contracts :: rat
  sq_estimated_notional_usdt :: rat
  sq_entry_price :: rat
  sq_estimated_pnl_usdt :: "rat option"

definition size_quote_to_dict :: "size_quote \<Rightarrow> jobj" where
  "size_quote_to_dict q =
     [(''inst_id'', JStr (sq_inst_id q)),
      (''display_quantity'', JStr (sz_render (sq_display_quantity q))),
      (''display_currency'', JStr (sq_display_currency q)),
      (''api_quantity_contracts'', JStr (sz_render (sq_api_quantity_contracts q))),
      (''estimated_notional_usdt'', JStr (sz_render (sq_estimated_notional_usdt q))),
      (''entry_price'', JStr (sz_render (sq_entry_price q))),
      (''estimated_pnl_usdt'', case sq_estimated_pnl_usdt q of
          Some v \<Rightarrow> JStr (sz_render v) | None \<Rightarrow> JNull)]"

record instrument_sizer =
  sz_metadata :: instrument_metadata
  sz_contract_value :: rat
  sz_contract_multiplier :: rat
  sz_lot_size :: rat
  sz_min_size :: rat

definition sizer_init :: "instrument_metadata \<Rightarrow> instrument_sizer result" where
  "sizer_init md =
     (if im_state md \<noteq> ''live''
      then Inl (ValueError (im_inst_id md @ '' is not currently tradable''))
      else bindE (sz_positive (OVal (JStr (im_contract_value md))) ''ctVal'') (\<lambda>cv.
           bindE (sz_positive (OVal (JStr (if im_contract_multiplier md = [] then ''1''
                    else im_contract_multiplier md))) ''ctMult'') (\<lambda>cm.
           bindE (sz_positive (OVal (JStr (im_lot_size md))) ''lotSz'') (\<lambda>lot.
           bindE (sz_positive (OVal (JStr (im_min_size md))) ''minSz'') (\<lambda>mn.
           Inr \<lparr>sz_metadata = md, sz_contract_value = cv, sz_contract_multiplier = cm,
                sz_lot_size = lot, sz_min_size = mn\<rparr>)))))"

definition base_currency :: "instrument_sizer \<Rightarrow> string" where
  "base_currency sz =
     (let md = sz_metadata sz in
      if im_base_ccy md \<noteq> [] then im_base_ccy md else before_dash (im_inst_id md))"

definition quote_currencies :: "instrument_sizer \<Rightarrow> string list" where
  "quote_currencies sz =
     [py_upper (im_quote_ccy (sz_metadata sz)), py_upper (im_settle_ccy (sz_metadata sz)),
      ''USDT'', ''USDC'', ''USD'']"

definition contract_unit :: "instrument_sizer \<Rightarrow> rat" where
  "contract_unit sz = ctx (sz_contract_value sz * sz_contract_multiplier sz)"

definition currency_error :: "instrument_sizer \<Rightarrow> string \<Rightarrow> py_exc" where
  "currency_error sz ccy =
     ValueError (im_inst_id (sz_metadata sz) @ '' ctValCcy='' @ (if ccy = [] then ''missing'' else ccy) @
       '' cannot be mapped safely to operator-facing base quantity'')"

definition sz_quote ::
  "instrument_sizer \<Rightarrow> pyobj \<Rightarrow> pyobj \<Rightarrow> string \<Rightarrow> pyobj option \<Rightarrow> size_quote result" where
  "sz_quote sz display_quantity entry_price side rule_price =
     bindE (sz_positive display_quantity ''display_quantity'') (\<lambda>display.
     bindE (sz_positive entry_price ''entry_price'') (\<lambda>price.
     let ccy = py_upper (im_contract_currency (sz_metadata sz));
         base = py_upper (base_currency sz);
         unit = contract_unit sz in
     bindE (if ccy = base then Inr (ctx (display / unit), ctx (display * price))
            else if ccy \<noteq> [] \<and> ccy \<in> set (quote_currencies sz)
            then Inr (ctx (ctx (display * price) / unit), ctx (display * price))
            else Inl (currency_error sz ccy)) (\<lambda>(contracts, notional).
     if contracts < sz_min_size sz
     then Inl (ValueError (''derived OKX size '' @ sz_render contracts @ '' is below minSz '' @
            sz_render (sz_min_size sz)))
     else bindE (dec_rem contracts (sz_lot_size sz)) (\<lambda>r.
     if r \<noteq> 0
     then Inl (ValueError (''derived OKX size '' @ sz_render contracts @ '' is not a multiple of lotSz '' @
            sz_render (sz_lot_size sz)))
     else if py_lower side \<noteq> ''long'' \<and> py_lower side \<noteq> ''short''
     then Inl (ValueError ''side must be long or short'')
     else bindE (case rule_price of None \<Rightarrow> Inr None
         | Some rp \<Rightarrow> bindE (sz_positive rp ''rule_price'') (\<lambda>target.
             Inr (Some (ctx (ctx (ctx (target - price) * display) *
               (if py_lower side = ''long'' then 1 else - 1)))))) (\<lambda>pnl.
     Inr \<lparr>sq_inst_id = im_inst_id (sz_metadata sz), sq_display_quantity = display,
          sq_display_currency = base, sq_api_quantity_contracts = contracts,
          sq_estimated_notional_usdt = notional, sq_entry_price = price,
          sq_estimated_pnl_usdt = pnl\<rparr>)))))"

definition quote_contracts ::
  "instrument_sizer \<Rightarrow> pyobj \<Rightarrow> pyobj \<Rightarrow> string \<Rightarrow> pyobj option \<Rightarrow> size_quote result" where
  "quote_contracts sz api_quantity_contracts entry_price side rule_price =
     bindE (sz_positive api_quantity_contracts ''api_quantity_contracts'') (\<lambda>contracts.
     bindE (sz_positive entry_price ''entry_price'') (\<lambda>price.
     bindE (if contracts < sz_min_size sz then Inr True
            else bindE (dec_rem contracts (sz_lot_size sz)) (\<lambda>r. Inr (r \<noteq> 0))) (\<lambda>bad.
     if bad then Inl (ValueError ''OKX contract quantity is below minSz or not lotSz-aligned'')
     else
       (let ccy = py_upper (im_contract_currency (sz_metadata sz));
            base = py_upper (base_currency sz);
            unit = contract_unit sz in
        bindE (if ccy = base then Inr (ctx (contracts * unit))
               else if ccy \<noteq> [] \<and> ccy \<in> set (quote_currencies sz)
               then Inr (ctx (ctx (contracts * unit) / price))
               else Inl (currency_error sz ccy)) (\<lambda>display.
        sz_quote sz (ODec display) (ODec price) side rule_price)))))"

definition contracts_for :: "instrument_sizer \<Rightarrow> rat \<Rightarrow> rat \<Rightarrow> rat result" where
  "contracts_for sz display notional =
     (let ccy = py_upper (im_contract_currency (sz_metadata sz)); unit = contract_unit sz in
      if ccy = py_upper (base_currency sz) then Inr (ctx (display / unit))
      else if ccy \<in> set (quote_currencies sz) then Inr (ctx (notional / unit))
      else Inl (ValueError (im_inst_id (sz_metadata sz) @ '' contract currency cannot be mapped safely'')))"


subsection \<open>Risk-derived size\<close>

record risk_size_quote =
  rq_mode :: string
  rq_size :: size_quote
  rq_allowed_loss_usdt :: rat
  rq_stop_price :: rat
  rq_stop_distance_pct :: rat
  rq_estimated_loss_usdt :: rat
  rq_price_loss_usdt :: rat
  rq_modeled_cost_usdt :: rat
  rq_unused_risk_usdt :: rat
  rq_stop_expression :: jobj
  rq_evidence :: jobj

definition tick_price :: "(rat \<Rightarrow> int) \<Rightarrow> rat \<Rightarrow> rat \<Rightarrow> rat" where
  "tick_price rounding tick raw = ctx (of_int (rounding (ctx (raw / tick))) * tick)"

text \<open>The two modes of \<^verbatim>\<open>quote_risk\<close>: the raw stop, the stop on the tick, the target notional.\<close>

definition fixed_loss_stop ::
  "rat \<Rightarrow> rat \<Rightarrow> bool \<Rightarrow> rat \<Rightarrow> rat \<Rightarrow> pyobj option \<Rightarrow> (rat \<times> rat \<times> rat) result" where
  "fixed_loss_stop entry allowed_loss long tick total_cost_rate position_notional_usdt =
     (case position_notional_usdt of
        None \<Rightarrow> Inl (ValueError ''position_notional_usdt is required for fixed_loss mode'')
      | Some v \<Rightarrow>
          bindE (sz_positive v ''position_notional_usdt'') (\<lambda>requested_notional.
          if requested_notional \<le> allowed_loss
          then Inl (ValueError ''allowed loss must be smaller than position notional'')
          else
            (let budget = ctx (allowed_loss - ctx (requested_notional * total_cost_rate)) in
             if budget \<le> 0
             then Inl (ValueError ''fees and slippage consume the entire allowed loss'')
             else
               (let fraction = ctx (budget / requested_notional);
                    raw_stop = ctx (entry * (if long then ctx (1 - fraction) else ctx (1 + fraction)))
                in Inr (raw_stop, tick_price (if long then ceiling else floor) tick raw_stop,
                        requested_notional)))))"

definition chart_anchored_stop ::
  "rat \<Rightarrow> rat \<Rightarrow> bool \<Rightarrow> rat \<Rightarrow> rat \<Rightarrow> pyobj option \<Rightarrow> (rat \<times> rat \<times> rat) result" where
  "chart_anchored_stop entry allowed_loss long tick total_cost_rate stop_price =
     (case stop_price of
        None \<Rightarrow> Inl (ValueError ''stop_price is required for chart_anchored mode'')
      | Some v \<Rightarrow>
          bindE (sz_positive v ''stop_price'') (\<lambda>raw_stop.
          if long \<and> entry \<le> raw_stop
          then Inl (ValueError ''long stop price must be below entry price'')
          else if \<not> long \<and> raw_stop \<le> entry
          then Inl (ValueError ''short stop price must be above entry price'')
          else
            (let stop = tick_price (if long then floor else ceiling) tick raw_stop;
                 distance = ctx (ctx \<bar>ctx (entry - stop)\<bar> / entry);
                 rate = ctx (distance + total_cost_rate)
             in if rate = 0 then Inl ZeroDivisionError
                else Inr (raw_stop, stop, ctx (allowed_loss / rate)))))"

definition quote_risk ::
  "instrument_sizer \<Rightarrow> string \<Rightarrow> pyobj \<Rightarrow> string \<Rightarrow> pyobj \<Rightarrow> pyobj option \<Rightarrow> pyobj option \<Rightarrow> json \<Rightarrow> jobj
     \<Rightarrow> pyobj \<Rightarrow> pyobj \<Rightarrow> pyobj \<Rightarrow> risk_size_quote result" where
  "quote_risk sz mode entry_price side allowed_loss_usdt position_notional_usdt stop_price timeframe
     evidence entry_fee_rate exit_fee_rate slippage_rate =
     bindE (sz_positive entry_price ''entry_price'') (\<lambda>entry.
     bindE (sz_positive allowed_loss_usdt ''allowed_loss_usdt'') (\<lambda>allowed_loss.
     let normalized_side = py_lower side; long = (normalized_side = ''long'') in
     if normalized_side \<noteq> ''long'' \<and> normalized_side \<noteq> ''short''
     then Inl (ValueError ''side must be long or short'')
     else bindE (sz_positive (OVal (JStr (im_tick_size (sz_metadata sz)))) ''tickSz'') (\<lambda>tick.
     bindE (sz_cost_rate entry_fee_rate ''entry_fee_rate'') (\<lambda>entry_fee.
     bindE (sz_cost_rate exit_fee_rate ''exit_fee_rate'') (\<lambda>exit_fee.
     bindE (sz_cost_rate slippage_rate ''slippage_rate'') (\<lambda>slippage.
     let total_cost_rate = ctx (ctx (entry_fee + exit_fee) + ctx (slippage * 2)) in
     bindE (if mode = ''fixed_loss''
            then fixed_loss_stop entry allowed_loss long tick total_cost_rate position_notional_usdt
            else if mode = ''chart_anchored''
            then chart_anchored_stop entry allowed_loss long tick total_cost_rate stop_price
            else Inl (ValueError ''mode must be fixed_loss or chart_anchored''))
       (\<lambda>(raw_stop, normalized_stop, target_notional).
     if normalized_stop \<le> 0 then Inl (ValueError ''derived stop price must be positive'')
     else
       (let distance_fraction = ctx (ctx \<bar>ctx (entry - normalized_stop)\<bar> / entry) in
        if distance_fraction \<le> 0 then Inl (ValueError ''stop price must differ from entry price'')
        else bindE (contracts_for sz (ctx (target_notional / entry)) target_notional) (\<lambda>contracts0.
        let contracts = ctx (of_int \<lfloor>ctx (contracts0 / sz_lot_size sz)\<rfloor> * sz_lot_size sz) in
        if contracts < sz_min_size sz
        then Inl (ValueError ''allowed loss and stop distance derive a size below the instrument minimum'')
        else bindE (quote_contracts sz (ODec contracts) (ODec entry) normalized_side
                 (Some (ODec normalized_stop))) (\<lambda>size.
        let price_loss = ctx \<bar>or_default (sq_estimated_pnl_usdt size) 0\<bar>;
            modeled_cost = ctx (sq_estimated_notional_usdt size * total_cost_rate);
            estimated_loss = ctx (price_loss + modeled_cost) in
        if allowed_loss < estimated_loss
        then Inl (ValueError ''lot normalization would exceed allowed loss'')
        else Inr \<lparr>rq_mode = mode, rq_size = size, rq_allowed_loss_usdt = allowed_loss,
               rq_stop_price = normalized_stop, rq_stop_distance_pct = distance_fraction,
               rq_estimated_loss_usdt = estimated_loss, rq_price_loss_usdt = price_loss,
               rq_modeled_cost_usdt = modeled_cost,
               rq_unused_risk_usdt = ctx (allowed_loss - estimated_loss),
               rq_stop_expression =
                 [(''type'', JStr (if long then ''price_below'' else ''price_above'')),
                  (''symbol'', JStr ''self''), (''value'', JFloat (PFin normalized_stop))],
               rq_evidence = tmerge
                 [(''source'', JStr (if mode = ''fixed_loss'' then ''operator_fixed_loss''
                      else ''operator_chart_anchor'')),
                  (''timeframe'', timeframe),
                  (''allowed_loss_usdt'', JStr (sz_render allowed_loss)),
                  (''requested_stop_price'', JStr (sz_render raw_stop)),
                  (''entry_fee_rate'', JStr (sz_render entry_fee)),
                  (''exit_fee_rate'', JStr (sz_render exit_fee)),
                  (''slippage_rate'', JStr (sz_render slippage)),
                  (''modeled_round_trip_cost_rate'', JStr (sz_render total_cost_rate))]
                 evidence\<rparr>))))))))))"

definition risk_quote_to_dict :: "risk_size_quote \<Rightarrow> jobj" where
  "risk_quote_to_dict q =
     tmerge (tmerge [(''mode'', JStr (rq_mode q))] (size_quote_to_dict (rq_size q)))
       [(''allowed_loss_usdt'', JStr (sz_render (rq_allowed_loss_usdt q))),
        (''stop_price'', JStr (sz_render (rq_stop_price q))),
        (''stop_distance_pct'', JStr (sz_render (rq_stop_distance_pct q))),
        (''estimated_loss_usdt'', JStr (sz_render (rq_estimated_loss_usdt q))),
        (''price_loss_usdt'', JStr (sz_render (rq_price_loss_usdt q))),
        (''modeled_cost_usdt'', JStr (sz_render (rq_modeled_cost_usdt q))),
        (''unused_risk_usdt'', JStr (sz_render (rq_unused_risk_usdt q))),
        (''stop_expression'', JObj (rq_stop_expression q)),
        (''evidence'', JObj (rq_evidence q))]"

subsection \<open>Facts about the steps\<close>

lemma sz_positive_Inr: "sz_positive v f = Inr r \<longleftrightarrow> obj_rat v = Some (Some r) \<and> 0 < r"
  by (auto simp: sz_positive_def split: option.splits if_splits)

lemma sz_cost_rate_Inr:
  "sz_cost_rate v f = Inr r \<longleftrightarrow> obj_rat v = Some (Some r) \<and> 0 \<le> r \<and> r \<le> 2 / 100"
  by (auto simp: sz_cost_rate_def split: option.splits if_splits)

lemma obj_rat_ODec [simp]: "obj_rat (ODec r) = Some (Some r)"
  by (simp add: obj_rat_def)

definition wf_sizer :: "instrument_sizer \<Rightarrow> bool" where
  "wf_sizer sz \<longleftrightarrow> 0 < sz_contract_value sz \<and> 0 < sz_contract_multiplier sz
     \<and> 0 < sz_lot_size sz \<and> 0 < sz_min_size sz \<and> im_state (sz_metadata sz) = ''live''"

lemma sizer_init_wf: "sizer_init md = Inr sz \<Longrightarrow> wf_sizer sz"
  by (auto simp: sizer_init_def wf_sizer_def result_simps sz_positive_Inr split: if_splits)

lemma wf_sizer_unit: "wf_sizer sz \<Longrightarrow> 0 < contract_unit sz"
  by (simp add: wf_sizer_def contract_unit_def ctx_pos)

lemma dec_rem_Inr_0: "dec_rem a b = Inr 0 \<longleftrightarrow> b \<noteq> 0 \<and> \<bar>a / b\<bar> < 10 ^ 28 \<and> dec_multiple a b"
  using dec_rem_0 [of a b 0] by simp

lemma if_split_Inr: "(if b then Inl e else y) = Inr x \<longleftrightarrow> \<not> b \<and> y = Inr x"
  by simp

text \<open>Every quote that is returned is at least the minimum and a multiple of the lot.\<close>

definition quote_ok :: "instrument_sizer \<Rightarrow> size_quote \<Rightarrow> bool" where
  "quote_ok sz q \<longleftrightarrow> sz_min_size sz \<le> sq_api_quantity_contracts q
     \<and> dec_multiple (sq_api_quantity_contracts q) (sz_lot_size sz)
     \<and> 0 < sq_display_quantity q \<and> 0 < sq_entry_price q \<and> 0 < sq_estimated_notional_usdt q"

lemma sz_quote_ok: "sz_quote sz d p side rp = Inr q \<Longrightarrow> quote_ok sz q"
  unfolding sz_quote_def Let_def
  by (auto simp: result_simps sz_positive_Inr quote_ok_def dec_rem_Inr_0 not_less ctx_pos
      split: if_splits)

lemma quote_contracts_ok: "quote_contracts sz c p side rp = Inr q \<Longrightarrow> quote_ok sz q"
  unfolding quote_contracts_def Let_def
  by (auto simp: result_simps split: if_splits dest: sz_quote_ok)


text \<open>What a returned risk quote is made of.\<close>

lemma quote_risk_Inr:
  assumes "quote_risk sz mode entry_price side allowed_loss_usdt notional stop tf ev f1 f2 sl = Inr q"
  obtains entry allowed tick e1 e2 e3 rate raw st target contracts0 contracts size where
    "obj_rat entry_price = Some (Some entry)" "0 < entry"
    "obj_rat allowed_loss_usdt = Some (Some allowed)" "0 < allowed"
    "\<not> (py_lower side \<noteq> ''long'' \<and> py_lower side \<noteq> ''short'')"
    "obj_rat (OVal (JStr (im_tick_size (sz_metadata sz)))) = Some (Some tick)" "0 < tick"
    "0 \<le> e1" "0 \<le> e2" "0 \<le> e3" "rate = ctx (ctx (e1 + e2) + ctx (e3 * 2))"
    "(if mode = ''fixed_loss''
      then fixed_loss_stop entry allowed (py_lower side = ''long'') tick rate notional
      else if mode = ''chart_anchored''
      then chart_anchored_stop entry allowed (py_lower side = ''long'') tick rate stop
      else Inl (ValueError ''mode must be fixed_loss or chart_anchored'')) = Inr (raw, st, target)"
    "\<not> st \<le> 0" "\<not> ctx (ctx \<bar>ctx (entry - st)\<bar> / entry) \<le> 0"
    "contracts = ctx (of_int \<lfloor>ctx (contracts0 / sz_lot_size sz)\<rfloor> * sz_lot_size sz)"
    "\<not> contracts < sz_min_size sz"
    "quote_contracts sz (ODec contracts) (ODec entry) (py_lower side) (Some (ODec st)) = Inr size"
    "\<not> allowed < ctx (ctx \<bar>or_default (sq_estimated_pnl_usdt size) 0\<bar>
        + ctx (sq_estimated_notional_usdt size * rate))"
    "rq_size q = size" "rq_stop_price q = st" "rq_allowed_loss_usdt q = allowed"
    "rq_stop_distance_pct q = ctx (ctx \<bar>ctx (entry - st)\<bar> / entry)"
    "rq_price_loss_usdt q = ctx \<bar>or_default (sq_estimated_pnl_usdt size) 0\<bar>"
    "rq_modeled_cost_usdt q = ctx (sq_estimated_notional_usdt size * rate)"
    "rq_estimated_loss_usdt q = ctx (rq_price_loss_usdt q + rq_modeled_cost_usdt q)"
    "rq_unused_risk_usdt q = ctx (allowed - rq_estimated_loss_usdt q)"
    "rq_stop_expression q =
       [(''type'', JStr (if py_lower side = ''long'' then ''price_below'' else ''price_above'')),
        (''symbol'', JStr ''self''), (''value'', JFloat (PFin st))]"
  using assms
  unfolding quote_risk_def Let_def bindE_eq_Inr sz_positive_Inr sz_cost_rate_Inr
  by (clarsimp simp only: split_paired_Ex case_prod_conv bindE_eq_Inr sz_positive_Inr sz_cost_rate_Inr
        if_split_Inr simp_thms sum.inject) simp

text \<open>The price loss of a quote is the distance to the stop times the quantity, up to the
  rounding of the decimal context.\<close>

lemma sz_quote_Inr:
  assumes "sz_quote sz d p side rp = Inr q"
  shows "obj_rat d = Some (Some (sq_display_quantity q))" "obj_rat p = Some (Some (sq_entry_price q))"
    "sq_estimated_notional_usdt q = ctx (sq_display_quantity q * sq_entry_price q)"
    "sq_estimated_pnl_usdt q = None \<longleftrightarrow> rp = None"
  using assms unfolding sz_quote_def Let_def
  by (auto simp: result_simps sz_positive_Inr split: if_splits option.splits)

lemma quote_contracts_entry:
  "quote_contracts sz c (ODec p) side rp = Inr q \<Longrightarrow> sq_entry_price q = p"
  unfolding quote_contracts_def Let_def
  by (auto simp: result_simps sz_positive_Inr split: if_splits dest: sz_quote_Inr(2))

subsection \<open>Properties\<close>

text \<open>C34: a risk quote never models a loss above the allowed one, costs included; the stop is
  positive and away from the entry, the size at least the minimum and a multiple of the lot,
  and the unused risk is not negative.\<close>

theorem quote_risk_within_budget:
  assumes "quote_risk sz mode entry_price side allowed_loss_usdt notional stop tf ev f1 f2 sl = Inr q"
  shows "obj_rat allowed_loss_usdt = Some (Some (rq_allowed_loss_usdt q))
     \<and> rq_estimated_loss_usdt q \<le> rq_allowed_loss_usdt q
     \<and> rq_estimated_loss_usdt q = ctx (rq_price_loss_usdt q + rq_modeled_cost_usdt q)
     \<and> 0 \<le> rq_price_loss_usdt q \<and> 0 \<le> rq_modeled_cost_usdt q \<and> 0 \<le> rq_unused_risk_usdt q
     \<and> 0 < rq_stop_price q \<and> obj_rat entry_price = Some (Some (sq_entry_price (rq_size q)))
     \<and> rq_stop_price q \<noteq> sq_entry_price (rq_size q)
     \<and> quote_ok sz (rq_size q)"
  using assms
proof (rule quote_risk_Inr)
  fix entry allowed rate st contracts size and e1 e2 e3 :: rat
  assume A: "obj_rat entry_price = Some (Some entry)" "obj_rat allowed_loss_usdt = Some (Some allowed)"
    and e: "0 \<le> e1" "0 \<le> e2" "0 \<le> e3" and r: "rate = ctx (ctx (e1 + e2) + ctx (e3 * 2))"
    and st: "\<not> st \<le> 0" "\<not> ctx (ctx \<bar>ctx (entry - st)\<bar> / entry) \<le> 0"
    and qc: "quote_contracts sz (ODec contracts) (ODec entry) (py_lower side) (Some (ODec st)) = Inr size"
    and l: "\<not> allowed < ctx (ctx \<bar>or_default (sq_estimated_pnl_usdt size) 0\<bar>
        + ctx (sq_estimated_notional_usdt size * rate))"
    and q: "rq_size q = size" "rq_stop_price q = st" "rq_allowed_loss_usdt q = allowed"
      "rq_price_loss_usdt q = ctx \<bar>or_default (sq_estimated_pnl_usdt size) 0\<bar>"
      "rq_modeled_cost_usdt q = ctx (sq_estimated_notional_usdt size * rate)"
      "rq_estimated_loss_usdt q = ctx (rq_price_loss_usdt q + rq_modeled_cost_usdt q)"
      "rq_unused_risk_usdt q = ctx (allowed - rq_estimated_loss_usdt q)"
  from qc have ok: "quote_ok sz size" by (rule quote_contracts_ok)
  from e r have "0 \<le> rate" by (simp add: ctx_nonneg)
  with ok have cost: "0 \<le> rq_modeled_cost_usdt q" by (simp add: q ctx_nonneg quote_ok_def)
  have price: "0 \<le> rq_price_loss_usdt q" by (simp add: q ctx_nonneg)
  have est: "rq_estimated_loss_usdt q \<le> allowed" using l by (simp add: q)
  then have "0 \<le> rq_unused_risk_usdt q" by (simp add: q(7) ctx_nonneg)
  with A st q ok cost price est quote_contracts_entry [OF qc] show ?thesis by auto
qed


text \<open>A live BTC swap with contracts of 0.01 BTC, for the witnesses.\<close>

definition btc_metadata :: instrument_metadata where
  "btc_metadata = \<lparr>im_inst_id = ''BTC-USDT-SWAP'', im_inst_type = ''SWAP'', im_state = ''live'',
     im_base_ccy = [], im_quote_ccy = [], im_settle_ccy = ''USDT'', im_contract_type = ''linear'',
     im_contract_value = ''0.01'', im_contract_currency = ''BTC'', im_contract_multiplier = ''1'',
     im_lot_size = ''0.01'', im_min_size = ''0.01'', im_tick_size = ''0.1'',
     im_size_precision = 2, im_price_precision = 1, im_max_limit_size = [], im_max_market_size = [],
     im_source = ''okx'', im_updated_at = []\<rparr>"

definition btc_sizer :: instrument_sizer where
  "btc_sizer = \<lparr>sz_metadata = btc_metadata, sz_contract_value = 1/100, sz_contract_multiplier = 1,
     sz_lot_size = 1/100, sz_min_size = 1/100\<rparr>"

definition sample_risk_quote :: "risk_size_quote result" where
  "sample_risk_quote = quote_risk btc_sizer ''fixed_loss'' (OVal (JStr ''100'')) ''long''
     (OVal (JStr ''22'')) (Some (OVal (JStr ''1000''))) None JNull []
     (OVal (JStr ''0.0005'')) (OVal (JStr ''0.0005'')) (OVal (JStr ''0.0005''))"

lemma sample_risk_quote_ok: "is_ok sample_risk_quote"
  by code_simp

theorem quote_risk_within_budget_witness:
  "\<exists>q. sample_risk_quote = Inr q
     \<and> obj_rat (OVal (JStr ''22'')) = Some (Some (rq_allowed_loss_usdt q))
     \<and> rq_estimated_loss_usdt q \<le> rq_allowed_loss_usdt q
     \<and> rq_stop_price q \<noteq> sq_entry_price (rq_size q) \<and> quote_ok btc_sizer (rq_size q)"
proof -
  obtain q where h: "sample_risk_quote = Inr q" using sample_risk_quote_ok by (auto simp: is_ok_iff)
  show ?thesis
    using quote_risk_within_budget [OF h [unfolded sample_risk_quote_def]] h by (intro exI [of _ q]) simp
qed

lemma tick_price_exact:
  assumes "0 < tick" and "exact_ticks tick raw"
  shows "tick_price floor tick raw \<le> raw" "raw \<le> tick_price ceiling tick raw"
    "dec_multiple (tick_price floor tick raw) tick" "dec_multiple (tick_price ceiling tick raw) tick"
    "\<bar>tick_price floor tick raw - raw\<bar> < tick" "\<bar>tick_price ceiling tick raw - raw\<bar> < tick"
proof -
  have "tick_price floor tick raw = down.quantise tick raw"
    and "tick_price ceiling tick raw = up.quantise tick raw"
    using assms(2) by (simp_all add: tick_price_def exact_ticks_def exact28_def down.quantise_def up.quantise_def)
  then show "tick_price floor tick raw \<le> raw" "raw \<le> tick_price ceiling tick raw"
    "dec_multiple (tick_price floor tick raw) tick" "dec_multiple (tick_price ceiling tick raw) tick"
    "\<bar>tick_price floor tick raw - raw\<bar> < tick" "\<bar>tick_price ceiling tick raw - raw\<bar> < tick"
    using assms(1) floor_le_tick le_ceiling_tick down.quantise_aligned up.quantise_aligned
      down.quantise_near up.quantise_near by (simp_all add: down.quantise_def up.quantise_def)
qed

text \<open>in chart-anchored mode the stop stays on the losing side of the entry and is never
  closer to it than the operator's anchor: at or below the anchor for a long, at or above it
  for a short, on the tick and less than a tick away from the anchor.\<close>

theorem chart_anchored_stop_protective:
  assumes q: "quote_risk sz ''chart_anchored'' entry_price side allowed_loss_usdt notional (Some v) tf ev f1 f2 sl = Inr q"
    and tick: "obj_rat (OVal (JStr (im_tick_size (sz_metadata sz)))) = Some (Some tick)"
    and raw: "obj_rat v = Some (Some raw)" and exact: "exact_ticks tick raw"
  shows "\<bar>rq_stop_price q - raw\<bar> < tick \<and> dec_multiple (rq_stop_price q) tick \<and>
     (if py_lower side = ''long''
      then rq_stop_price q \<le> raw \<and> raw < sq_entry_price (rq_size q)
      else raw \<le> rq_stop_price q \<and> sq_entry_price (rq_size q) < raw)"
  using q
proof (rule quote_risk_Inr)
  fix entry allowed tick' rate raw' st target contracts size
  assume t: "obj_rat (OVal (JStr (im_tick_size (sz_metadata sz)))) = Some (Some tick')" "0 < tick'"
    and stop: "(if ''chart_anchored'' = ''fixed_loss''
      then fixed_loss_stop entry allowed (py_lower side = ''long'') tick' rate notional
      else if ''chart_anchored'' = ''chart_anchored''
      then chart_anchored_stop entry allowed (py_lower side = ''long'') tick' rate (Some v)
      else Inl (ValueError ''mode must be fixed_loss or chart_anchored'')) = Inr (raw', st, target)"
    and qc: "quote_contracts sz (ODec contracts) (ODec entry) (py_lower side) (Some (ODec st)) = Inr size"
    and eq: "rq_size q = size" "rq_stop_price q = st"
  from t tick have tt: "tick' = tick" by simp
  have en: "sq_entry_price size = entry" using qc by (rule quote_contracts_entry)
  from stop have "chart_anchored_stop entry allowed (py_lower side = ''long'') tick rate (Some v) = Inr (raw', st, target)"
    by (simp add: tt)
  then have "st = tick_price (if py_lower side = ''long'' then floor else ceiling) tick raw"
    and "if py_lower side = ''long'' then raw < entry else entry < raw"
    unfolding chart_anchored_stop_def
    by (auto simp: result_simps sz_positive_Inr raw Let_def not_le split: if_splits)
  then show ?thesis using tick_price_exact [OF t(2) [unfolded tt] exact] by (simp add: eq en split: if_splits)
qed

definition sample_chart_quote :: "risk_size_quote result" where
  "sample_chart_quote = quote_risk btc_sizer ''chart_anchored'' (OVal (JStr ''100'')) ''short''
     (OVal (JStr ''20'')) None (Some (OVal (JStr ''101.96''))) JNull []
     (OVal (JStr ''0'')) (OVal (JStr ''0'')) (OVal (JStr ''0''))"

lemma sample_chart_quote_ok: "is_ok sample_chart_quote"
  by code_simp

theorem chart_anchored_stop_protective_witness:
  "\<exists>q. sample_chart_quote = Inr q \<and> \<bar>rq_stop_price q - 10196/100\<bar> < 1/10
     \<and> dec_multiple (rq_stop_price q) (1/10) \<and> 10196/100 \<le> rq_stop_price q
     \<and> sq_entry_price (rq_size q) < 10196/100"
proof -
  obtain q where h: "sample_chart_quote = Inr q" using sample_chart_quote_ok by (auto simp: is_ok_iff)
  have t: "obj_rat (OVal (JStr (im_tick_size (sz_metadata btc_sizer)))) = Some (Some (1/10))" by code_simp
  have r: "obj_rat (OVal (JStr ''101.96'')) = Some (Some (10196/100))" by code_simp
  have x: "exact_ticks (1/10) (10196/100)" unfolding exact_ticks_def exact28_def by code_simp
  have l: "py_lower ''short'' \<noteq> ''long''" by code_simp
  show ?thesis
    using chart_anchored_stop_protective [OF h [unfolded sample_chart_quote_def] t r x] h
    unfolding if_not_P [OF l] by blast
qed

text \<open>A swap with a tick coarse against the stop distance.\<close>

definition coarse_sizer :: instrument_sizer where
  "coarse_sizer = btc_sizer\<lparr>sz_metadata := btc_metadata\<lparr>im_tick_size := ''10''\<rparr>\<rparr>"

text \<open>in fixed-loss mode nothing keeps the rounded stop on the losing side: an entry that is
  not on the tick can get a long stop-loss above its own entry price.\<close>

theorem fixed_loss_stop_wrong_side:
  "wf_sizer coarse_sizer \<and>
   (case quote_risk coarse_sizer ''fixed_loss'' (OVal (JStr ''128'')) ''long'' (OVal (JStr ''40''))
      (Some (OVal (JStr ''1280''))) None JNull [] (OVal (JStr ''0'')) (OVal (JStr ''0'')) (OVal (JStr ''0'')) of
      Inr q \<Rightarrow> sq_entry_price (rq_size q) = 128 \<and> rq_stop_price q = 130
    | Inl _ \<Rightarrow> False)"
  by code_simp


text \<open>for contracts denominated in the base currency, quoting a contract quantity gives that
  same quantity back, with the display quantity it stands for, whenever the quantity is valid
  and fits in the decimal context.\<close>

theorem quote_contracts_base_round_trip:
  assumes wf: "wf_sizer sz"
    and base: "py_upper (im_contract_currency (sz_metadata sz)) = py_upper (base_currency sz)"
    and c: "sz_min_size sz \<le> c" "dec_multiple c (sz_lot_size sz)" "\<bar>c / sz_lot_size sz\<bar> < 10 ^ 28"
    and exact: "exact28 c" "exact28 (c * contract_unit sz)"
    and p: "0 < p" and side: "py_lower side = ''long'' \<or> py_lower side = ''short''"
  shows "\<exists>q. quote_contracts sz (ODec c) (ODec p) side None = Inr q
     \<and> sq_api_quantity_contracts q = c \<and> sq_display_quantity q = c * contract_unit sz
     \<and> sq_estimated_notional_usdt q = ctx (c * contract_unit sz * p)"
proof -
  have lot: "sz_lot_size sz \<noteq> 0" and pos: "0 < c" using wf c(1) by (auto simp: wf_sizer_def)
  have u: "0 < contract_unit sz" using wf by (rule wf_sizer_unit)
  have r: "dec_rem c (sz_lot_size sz) = Inr 0" using lot c by (simp add: dec_rem_Inr_0)
  have e: "ctx (c * contract_unit sz) = c * contract_unit sz" "ctx c = c"
    using exact by (simp_all add: exact28_def)
  have "\<not> (py_lower side \<noteq> ''long'' \<and> py_lower side \<noteq> ''short'')" using side by blast
  moreover have "\<not> c * contract_unit sz \<le> 0" using mult_pos_pos [OF pos u] by linarith
  ultimately show ?thesis using pos u p c(1)
    by (simp add: quote_contracts_def sz_quote_def sz_positive_def base r e Let_def)
qed

theorem quote_contracts_base_round_trip_witness:
  "\<exists>q. quote_contracts btc_sizer (ODec (5/2)) (ODec 60000) ''long'' None = Inr q
     \<and> sq_api_quantity_contracts q = 5/2 \<and> sq_display_quantity q = 5/2 * contract_unit btc_sizer
     \<and> sq_estimated_notional_usdt q = ctx (5/2 * contract_unit btc_sizer * 60000)"
proof (rule quote_contracts_base_round_trip)
  show "wf_sizer btc_sizer" by code_simp
  show "py_upper (im_contract_currency (sz_metadata btc_sizer)) = py_upper (base_currency btc_sizer)"
    by code_simp
  show "sz_min_size btc_sizer \<le> 5/2" "dec_multiple (5/2) (sz_lot_size btc_sizer)"
    "\<bar>5/2 / sz_lot_size btc_sizer\<bar> < 10 ^ 28" by code_simp+
  show "exact28 (5/2)" "exact28 (5/2 * contract_unit btc_sizer)"
    unfolding exact28_def by code_simp+
  have "py_lower ''long'' = ''long''" by code_simp
  then show "py_lower ''long'' = ''long'' \<or> py_lower ''long'' = ''short''" ..
qed simp

text \<open>A swap whose contracts are worth 100 USD each, one contract at least.\<close>

definition usd_sizer :: instrument_sizer where
  "usd_sizer = \<lparr>sz_metadata = btc_metadata\<lparr>im_contract_currency := ''USD''\<rparr>, sz_contract_value = 100,
     sz_contract_multiplier = 1, sz_lot_size = 1, sz_min_size = 1\<rparr>"

text \<open>for contracts denominated in the quote currency the conversion to a display quantity
  and back passes through a rounded quotient, so that one valid contract can be refused: at a
  price of 3 it comes back as 0.999... contracts, below the minimum.\<close>

theorem quote_contracts_rounding_refusal:
  "wf_sizer usd_sizer \<and> sz_min_size usd_sizer = 1 \<and> dec_multiple 1 (sz_lot_size usd_sizer)
   \<and> \<not> is_ok (quote_contracts usd_sizer (OVal (JStr ''1'')) (OVal (JStr ''3'')) ''long'' None)"
proof -
  have "\<not> is_ok (quote_contracts usd_sizer (OVal (JStr ''1'')) (OVal (JStr ''3'')) ''long'' None)"
    by code_simp
  moreover have "wf_sizer usd_sizer \<and> sz_min_size usd_sizer = 1 \<and> dec_multiple 1 (sz_lot_size usd_sizer)"
    by code_simp
  ultimately show ?thesis by blast
qed

end
