(* ===== verification/RealizedPnl.thy ===== *)
theory RealizedPnl
  imports PositionStore InstrumentSizing
begin

section \<open>Confirmed realised profit\<close>

text \<open>
  \<^verbatim>\<open>ExecutionAllocationService._confirmed_realized_pnl\<close> of
  \<^verbatim>\<open>src/trading/execution_allocation.py\<close>, with its currency conversions: the profit of a closed
  position from its fills. The arithmetic is that of \<^verbatim>\<open>Decimal\<close> with 28 digits, coefficient
  and exponent included, because the evidence stores the printed values. A profit reported by the
  exchange or a contract value that is not a finite number is outside the model and read as invalid.
\<close>

subsection \<open>Quotients of decimals\<close>

text \<open>Trailing zeros are dropped as long as the exponent is below the ideal one.\<close>

function drop_zeros :: "int \<Rightarrow> int \<Rightarrow> int \<Rightarrow> int \<times> int" where
  "drop_zeros c e ideal = (if e < ideal \<and> c mod 10 = 0 then drop_zeros (c div 10) (e + 1) ideal else (c, e))"
  by pat_completeness auto
termination
  by (relation "measure (\<lambda>(c, e, ideal). nat (ideal - e))") auto

declare drop_zeros.simps [simp del]

definition dec_quot_pos :: "int \<Rightarrow> int \<Rightarrow> int \<Rightarrow> int \<times> int" where
  "dec_quot_pos a b ideal =
     (let shift = ndigits b - ndigits a + 29;
          n = (if 0 \<le> shift then a * 10 ^ nat shift else a);
          d = (if 0 \<le> shift then b else b * 10 ^ nat (- shift));
          coeff = n div d; rem = n mod d; e = ideal - shift in
      if rem \<noteq> 0 then (if coeff mod 5 = 0 then coeff + 1 else coeff, e) else drop_zeros coeff e ideal)"

fun dec_quot :: "decimal \<Rightarrow> decimal \<Rightarrow> decimal" where
  "dec_quot (Dec a e) (Dec b f) =
     (if a = 0 then Dec 0 (e - f)
      else (let (c, x) = dec_quot_pos \<bar>a\<bar> \<bar>b\<bar> (e - f) in
            dec_fix (Dec (if (a < 0) = (b < 0) then c else - c) x)))"
| "dec_quot _ _ = DNaN"

abbreviation dec_minus :: "decimal \<Rightarrow> decimal \<Rightarrow> decimal" where
  "dec_minus x y \<equiv> dec_plus x (dec_negate y)"

subsection \<open>Currencies\<close>

definition dollar_like :: "string list" where
  "dollar_like = [''USDT'', ''USDC'', ''USD'']"

definition to_usdt :: "decimal \<Rightarrow> string \<Rightarrow> decimal \<Rightarrow> string \<Rightarrow> string \<Rightarrow> decimal option" where
  "to_usdt amount currency price base_ccy quote_ccy =
     (if currency = [] then None
      else if currency \<in> set dollar_like \<or> currency = quote_ccy then Some amount
      else if currency = base_ccy then Some (dec_times amount price)
      else None)"

definition contract_notional_usdt :: "decimal \<Rightarrow> decimal \<Rightarrow> decimal \<Rightarrow> string \<Rightarrow> string \<Rightarrow> decimal" where
  "contract_notional_usdt quantity price pnl_unit contract_currency base_ccy =
     (if contract_currency = base_ccy then dec_times (dec_times quantity pnl_unit) price
      else dec_times quantity pnl_unit)"

subsection \<open>The walk over the fills\<close>

record pnl_terms =
  pt_unit :: decimal
  pt_direction :: decimal
  pt_base :: string
  pt_settle :: string
  pt_quote :: string
  pt_contract :: string

record pnl_state =
  pn_open :: decimal
  pn_average :: decimal
  pn_notional :: decimal
  pn_gross :: decimal
  pn_fees :: decimal
  pn_exchange_fills :: int

definition pnl_start :: pnl_state where
  "pnl_start = \<lparr>pn_open = Dec 0 0, pn_average = Dec 0 0, pn_notional = Dec 0 0, pn_gross = Dec 0 0, pn_fees = Dec 0 0,
     pn_exchange_fills = 0\<rparr>"

text \<open>The fee of a fill in USDT, and the fees after it; \<open>None\<close> gives up.\<close>

definition pnl_fee :: "pnl_terms \<Rightarrow> allocation \<Rightarrow> decimal \<Rightarrow> pnl_state \<Rightarrow> pnl_state option" where
  "pnl_fee t a price s =
     (case al_fee a of
        None \<Rightarrow> Some s
      | Some fee \<Rightarrow>
          map_option (\<lambda>f. s\<lparr>pn_fees := dec_plus (pn_fees s) f\<rparr>)
            (to_usdt (dec_of_rat fee) (py_upper (text_of (jget (col_obj (al_metadata a)) ''fee_currency''))) price (pt_base t) (pt_quote t)))"

definition pnl_entry :: "pnl_terms \<Rightarrow> decimal \<Rightarrow> decimal \<Rightarrow> pnl_state \<Rightarrow> pnl_state option" where
  "pnl_entry t quantity price s =
     (let next_quantity = dec_plus (pn_open s) quantity in
      if dec_val next_quantity \<le> 0 then None
      else Some (s\<lparr>pn_average := dec_quot (dec_plus (dec_times (pn_average s) (pn_open s)) (dec_times price quantity)) next_quantity,
             pn_open := next_quantity,
             pn_notional := dec_plus (pn_notional s)
               (contract_notional_usdt quantity price (pt_unit t) (pt_contract t) (pt_base t))\<rparr>))"

definition pnl_exit_gain ::
  "pnl_terms \<Rightarrow> allocation \<Rightarrow> decimal \<Rightarrow> decimal \<Rightarrow> pnl_state \<Rightarrow> (decimal \<times> int) option result" where
  "pnl_exit_gain t a quantity price s =
     (let metadata = col_obj (al_metadata a); reported = jget metadata ''exchange_realized_pnl'' in
      if reported \<noteq> JNull then
        (case dec_of_json reported of
           Some (Dec c e) \<Rightarrow>
             Inr (map_option (\<lambda>g. (g, 1)) (to_usdt (Dec c e)
               (py_upper (py_str (py_or (jget metadata ''exchange_realized_pnl_currency'') (JStr (pt_settle t))))) price
               (pt_base t) (pt_quote t)))
         | _ \<Rightarrow> Inl InvalidOperation)
      else if pt_contract t = pt_base t then
        Inr (Some (dec_times (dec_times (dec_times (dec_minus price (pn_average s)) quantity) (pt_unit t)) (pt_direction t), 0))
      else if pt_contract t = pt_quote t \<or> pt_contract t \<in> set dollar_like then
        Inr (Some (dec_times (dec_quot (dec_times (dec_times quantity (pt_unit t)) (dec_minus price (pn_average s))) (pn_average s))
               (pt_direction t), 0))
      else Inr None)"

definition pnl_step :: "pnl_terms \<Rightarrow> allocation \<Rightarrow> pnl_state \<Rightarrow> pnl_state option result" where
  "pnl_step t a s =
     (case al_price a of
        None \<Rightarrow> Inr None
      | Some p \<Rightarrow>
          (let quantity = dec_of_rat (al_quantity a); price = dec_of_rat p in
           case pnl_fee t a price s of
             None \<Rightarrow> Inr None
           | Some s1 \<Rightarrow>
               (case al_action a of
                  AOpen \<Rightarrow> Inr (pnl_entry t quantity price s1)
                | AFee \<Rightarrow> Inr (Some s1)
                | AAdjustment \<Rightarrow> Inr (Some s1)
                | _ \<Rightarrow>
                    if dec_val (pn_average s1) \<le> 0 \<or> dec_val (pn_open s1) < dec_val quantity then Inr None
                    else bindE (pnl_exit_gain t a quantity price s1) (\<lambda>gain.
                      Inr (map_option (\<lambda>(g, n). s1\<lparr>pn_gross := dec_plus (pn_gross s1) g,
                             pn_exchange_fills := pn_exchange_fills s1 + n,
                             pn_open := dec_minus (pn_open s1) quantity\<rparr>) gain)))))"

fun pnl_walk :: "pnl_terms \<Rightarrow> allocation list \<Rightarrow> pnl_state \<Rightarrow> pnl_state option result" where
  "pnl_walk t [] s = Inr (Some s)"
| "pnl_walk t (a # as) s =
     bindE (pnl_step t a s) (\<lambda>r. case r of None \<Rightarrow> Inr None | Some s' \<Rightarrow> pnl_walk t as s')"

text \<open>The contract unit: \<open>Inr None\<close> gives up; a comparison with not-a-number raises.\<close>

definition pnl_unit :: "instrument_metadata \<Rightarrow> decimal option result" where
  "pnl_unit m =
     (case (dec_of_str (im_contract_value m),
            dec_of_str (if im_contract_multiplier m = [] then ''1'' else im_contract_multiplier m)) of
        (Some (Dec a e), Some (Dec b f)) \<Rightarrow>
          (let u = dec_times (Dec a e) (Dec b f) in Inr (if dec_val u \<le> 0 then None else Some u))
      | (None, _) \<Rightarrow> Inr None
      | (_, None) \<Rightarrow> Inr None
      | _ \<Rightarrow> Inl InvalidOperation)"

definition pnl_evidence :: "nat \<Rightarrow> pnl_state \<Rightarrow> jobj" where
  "pnl_evidence n s =
     [(''currency'', JStr ''USDT''), (''gross_pnl'', JStr (dec_str (pn_gross s))), (''fees'', JStr (dec_str (pn_fees s))),
      (''allocation_count'', JInt (int n)), (''exchange_pnl_fill_count'', JInt (pn_exchange_fills s)),
      (''entry_notional_usdt'', JStr (dec_str (pn_notional s)))]"

definition pnl_terms_of :: "instrument_metadata \<Rightarrow> decimal \<Rightarrow> position \<Rightarrow> pnl_terms" where
  "pnl_terms_of m u p =
     \<lparr>pt_unit = u, pt_direction = (if p_side p = ''long'' then Dec 1 0 else Dec (- 1) 0),
      pt_base = py_upper (if im_base_ccy m = [] then before_dash (p_inst_id p) else im_base_ccy m),
      pt_settle = py_upper (im_settle_ccy m), pt_quote = py_upper (im_quote_ccy m),
      pt_contract = py_upper (im_contract_currency m)\<rparr>"

definition confirmed_realized_pnl ::
  "(string \<Rightarrow> instrument_metadata option) \<Rightarrow> position \<Rightarrow> allocation list \<Rightarrow> (decimal \<times> decimal \<times> jobj) option result" where
  "confirmed_realized_pnl instrument p allocations =
     (case instrument (p_inst_id p) of
        None \<Rightarrow> Inr None
      | Some m \<Rightarrow>
          bindE (pnl_unit m) (\<lambda>unit.
          case unit of
            None \<Rightarrow> Inr None
          | Some u \<Rightarrow>
              if p_side p \<noteq> ''long'' \<and> p_side p \<noteq> ''short'' then Inr None
              else if \<not> list_ex (\<lambda>a. al_action a = AReduce \<or> al_action a = AClose) allocations then Inr None
              else bindE (pnl_walk (pnl_terms_of m u p) allocations pnl_start) (\<lambda>r.
                Inr (map_option (\<lambda>s.
                  let net = dec_plus (pn_gross s) (pn_fees s) in
                  (net,
                   (if dec_val (pn_notional s) \<noteq> 0 then dec_times (dec_quot net (pn_notional s)) (Dec 100 0) else Dec 0 0),
                   pnl_evidence (length allocations) s)) r))))"

end
