(* ===== verification/ExecutionAllocation.thy ===== *)
theory ExecutionAllocation
  imports RealizedPnl AuditEventStore
begin

section \<open>Allocation of confirmed fills\<close>

text \<open>
  \<^verbatim>\<open>src/exchange/fills.py\<close>, the reading of an OKX fill, and
  \<^verbatim>\<open>src/trading/execution_allocation.py\<close>, the service that applies a confirmed fill to its
  logical position and carries its consequences to the trade, the close conditions, the protection and
  the audit trail. The state is the three stores the service writes; a computation that raises keeps
  what the calls before it committed. The clock, the fresh event identifiers and the instrument cache
  are the environment of a call. Python's \<^verbatim>\<open>datetime.fromtimestamp(s, utc).isoformat()\<close> is the
  argument \<open>utc\<close>.
\<close>

subsection \<open>Computations on the stores\<close>

record exec_state =
  xs_pos :: store
  xs_trades :: trade_db
  xs_audit :: audit_db

record exec_env =
  xe_now :: string
  xe_fresh :: "string \<Rightarrow> string"
  xe_instrument :: "string \<Rightarrow> instrument_metadata option"

type_synonym 'a exec = "exec_state \<Rightarrow> 'a result \<times> exec_state"

definition readS :: "(store \<Rightarrow> 'a) \<Rightarrow> 'a exec" where
  "readS f s = (Inr (f (xs_pos s)), s)"

definition on_positions :: "(store \<Rightarrow> 'a tx) \<Rightarrow> 'a exec" where
  "on_positions m s = (case m (xs_pos s) of (r, st) \<Rightarrow> (r, s\<lparr>xs_pos := st\<rparr>))"

definition on_trades :: "(trade_db \<Rightarrow> 'a trade_tx) \<Rightarrow> 'a exec" where
  "on_trades m s = (case m (xs_trades s) of (r, db) \<Rightarrow> (r, s\<lparr>xs_trades := db\<rparr>))"

definition on_audit :: "(audit_db \<Rightarrow> 'a \<times> audit_db) \<Rightarrow> 'a exec" where
  "on_audit m s = (case m (xs_audit s) of (x, db) \<Rightarrow> (Inr x, s\<lparr>xs_audit := db\<rparr>))"

subsection \<open>Reading an OKX fill\<close>

record okx_fill =
  of_fill_id :: string
  of_exchange_order_id :: string
  of_client_order_id :: string
  of_quantity :: pyfloat
  of_price :: pyfloat
  of_fee :: "pyfloat option"
  of_occurred_at :: string
  of_metadata :: jobj

definition positive_float :: "json \<Rightarrow> string \<Rightarrow> pyfloat result" where
  "positive_float value field =
     (case py_float value of
        Inl _ \<Rightarrow> Inl (ValueError (''OKX fill has invalid '' @ field))
      | Inr number \<Rightarrow>
          if fl_le number (PFin 0) then Inl (ValueError (''OKX fill '' @ field @ '' must be positive'')) else Inr number)"

definition optional_float :: "json \<Rightarrow> string \<Rightarrow> pyfloat option result" where
  "optional_float value field =
     (if blank value then Inr None
      else (case py_float value of
          Inl _ \<Rightarrow> Inl (ValueError (''OKX fill has invalid '' @ field))
        | Inr number \<Rightarrow> Inr (Some number)))"

definition timestamp_ms :: "(rat \<Rightarrow> string result) \<Rightarrow> string \<Rightarrow> json \<Rightarrow> string result" where
  "timestamp_ms utc now value =
     (if blank value then Inr now
      else (case bindE (py_int (JStr (py_str value))) (\<lambda>ms. utc (of_int ms / 1000)) of
          Inl OverflowError \<Rightarrow> Inl OverflowError
        | Inl _ \<Rightarrow> Inl (ValueError ''OKX fill has invalid ts/fillTime'')
        | Inr t \<Rightarrow> Inr t))"

definition float_json :: "pyfloat option \<Rightarrow> json" where
  "float_json x = (case x of None \<Rightarrow> JNull | Some f \<Rightarrow> JFloat f)"

definition normalize_okx_fill :: "(rat \<Rightarrow> string result) \<Rightarrow> string \<Rightarrow> jobj \<Rightarrow> okx_fill result" where
  "normalize_okx_fill utc now payload =
     (let fill_id = text_of (py_or (jget payload ''tradeId'') (jget payload ''fillId''));
          order_id = text_of (jget payload ''ordId'');
          client_order_id = text_of (jget payload ''clOrdId'') in
      if fill_id = [] then Inl (ValueError ''OKX fill is missing tradeId'')
      else if order_id = [] then Inl (ValueError (''OKX fill '' @ py_repr (JStr fill_id) @ '' is missing ordId''))
      else bindE (positive_float (jget payload ''fillSz'') ''fillSz'') (\<lambda>quantity.
        bindE (positive_float (jget payload ''fillPx'') ''fillPx'') (\<lambda>price.
        bindE (optional_float (if blank (jget payload ''fee'') then jget payload ''fillFee'' else jget payload ''fee'') ''fee'') (\<lambda>fee.
        bindE (timestamp_ms utc now (py_or (jget payload ''fillTime'') (jget payload ''ts''))) (\<lambda>occurred_at.
        bindE (optional_float (jget payload ''fillPnl'') ''fillPnl'') (\<lambda>pnl.
        Inr \<lparr>of_fill_id = fill_id, of_exchange_order_id = order_id, of_client_order_id = client_order_id,
          of_quantity = quantity, of_price = price, of_fee = fee, of_occurred_at = occurred_at,
          of_metadata = [(''inst_id'', JStr (text_of (jget payload ''instId''))), (''side'', JStr (text_of (jget payload ''side''))),
            (''position_side'', JStr (text_of (jget payload ''posSide''))), (''client_order_id'', JStr client_order_id),
            (''fee_currency'', JStr (text_of (py_or (jget payload ''feeCcy'') (jget payload ''fillFeeCcy'')))),
            (''execution_type'', JStr (text_of (jget payload ''execType''))), (''exchange_realized_pnl'', float_json pnl),
            (''exchange_realized_pnl_currency'',
              JStr (text_of (py_or (jget payload ''fillPnlCcy'') (jget payload ''settleCcy''))))]\<rparr>))))))"

text \<open>A confirmed fill. Quantities and prices are rationals from here on.\<close>

record confirmed_fill =
  cf_fill_id :: string
  cf_quantity :: rat
  cf_price :: rat
  cf_source :: string
  cf_action :: "alloc_action option"
  cf_position_id :: string
  cf_exchange_order_id :: string
  cf_client_order_id :: string
  cf_correlation_id :: string
  cf_fee :: "rat option"
  cf_occurred_at :: string
  cf_reason :: string
  cf_metadata :: jobj

definition finite_float :: "pyfloat \<Rightarrow> rat option" where
  "finite_float f = (case f of PFin r \<Rightarrow> Some r | _ \<Rightarrow> None)"

definition confirmed_of :: "okx_fill \<Rightarrow> confirmed_fill option" where
  "confirmed_of f =
     (case (finite_float (of_quantity f), finite_float (of_price f), map_option finite_float (of_fee f)) of
        (Some q, Some p, fee) \<Rightarrow>
          if fee = Some None then None
          else Some \<lparr>cf_fill_id = of_fill_id f, cf_quantity = q, cf_price = p, cf_source = ''okx_fill'', cf_action = None,
            cf_position_id = [], cf_exchange_order_id = of_exchange_order_id f, cf_client_order_id = of_client_order_id f,
            cf_correlation_id = [], cf_fee = or_default fee None, cf_occurred_at = of_occurred_at f,
            cf_reason = ''confirmed OKX execution fill'', cf_metadata = of_metadata f\<rparr>
      | _ \<Rightarrow> None)"

record ingestion_result =
  ir_allocation :: allocation
  ir_position :: position
  ir_idempotent :: bool
  ir_execution_status :: string

subsection \<open>Metadata\<close>

definition metadata_float :: "position \<Rightarrow> string \<Rightarrow> pyfloat option" where
  "metadata_float p key =
     (case jget (col_obj (p_metadata p)) key of JNull \<Rightarrow> None
      | v \<Rightarrow> (case py_float v of Inl _ \<Rightarrow> None | Inr f \<Rightarrow> Some f))"

definition metadata_string :: "position \<Rightarrow> string \<Rightarrow> string" where
  "metadata_string p key = text_of (jget (col_obj (p_metadata p)) key)"

definition opt_json :: "rat option \<Rightarrow> json" where
  "opt_json x = (case x of None \<Rightarrow> JNull | Some r \<Rightarrow> JFloat (PFin r))"

definition trade_json :: "position \<Rightarrow> json" where
  "trade_json p = (case p_trade_id p of None \<Rightarrow> JNull | Some t \<Rightarrow> JStr t)"

definition linked_trade :: "position \<Rightarrow> string option" where
  "linked_trade p = (case p_trade_id p of Some (c # cs) \<Rightarrow> Some (c # cs) | _ \<Rightarrow> None)"

subsection \<open>Which position and which action\<close>

definition resolve_position :: "exec_env \<Rightarrow> confirmed_fill \<Rightarrow> allocation option \<Rightarrow> position exec" where
  "resolve_position env fill existing =
     bindS
       (case existing of
          Some a \<Rightarrow> readS (\<lambda>st. ps_get st (al_position_id a))
        | None \<Rightarrow>
            if cf_position_id fill \<noteq> [] then readS (\<lambda>st. ps_get st (cf_position_id fill))
            else bindS (readS (\<lambda>st. get_by_exchange_order_id st (cf_exchange_order_id fill))) (\<lambda>found.
              if found \<noteq> None \<or> cf_client_order_id fill = [] then returnS found
              else bindS (readS (\<lambda>st. get_by_client_order_id st (cf_client_order_id fill))) (\<lambda>found.
                case found of
                  None \<Rightarrow> returnS None
                | Some p \<Rightarrow>
                    if cf_exchange_order_id fill = [] then returnS (Some p)
                    else bindS (on_positions (link_exchange_order (xe_now env) (p_id p) (cf_client_order_id fill) (cf_exchange_order_id fill)
                           [(''execution_status'', JStr ''exchange_order_recovered_from_fill'')])) (\<lambda>linked.
                         returnS (Some (or_default linked p))))))
       (\<lambda>found. case found of
          Some p \<Rightarrow> returnS p
        | None \<Rightarrow> liftS (Inl (LookupError (''No logical position matches confirmed fill '' @
            py_repr (JStr (first_text [cf_position_id fill, cf_exchange_order_id fill, cf_client_order_id fill]))))))"

definition resolve_action :: "store \<Rightarrow> position \<Rightarrow> confirmed_fill \<Rightarrow> alloc_action result" where
  "resolve_action st p fill =
     (case cf_action fill of
        Some a \<Rightarrow> Inr a
      | None \<Rightarrow>
          (case map_option ol_action (get_execution_order st (cf_exchange_order_id fill)) of
             Some AOpen \<Rightarrow> Inr AOpen
           | Some AReduce \<Rightarrow> Inr AReduce
           | Some AClose \<Rightarrow> Inr AClose
           | _ \<Rightarrow>
               bindE (execution_action (jget (col_obj (p_metadata p)) ''order_action'')) (\<lambda>a.
               case a of
                 Some x \<Rightarrow> Inr x
               | None \<Rightarrow>
                   if p_status p = Planned \<or> p_status p = PendingOpen then Inr AOpen
                   else if p_status p = Reducing then Inr AReduce
                   else if p_status p = Closing then Inr AClose
                   else Inl (ValueError (''Cannot infer fill action for '' @ status_name (p_status p) @ '' position '' @
                     py_repr (JStr (p_id p)))))))"

subsection \<open>Consequences for the trade\<close>

definition entry_execution_status :: "position \<Rightarrow> string" where
  "entry_execution_status p =
     (case metadata_float p ''expected_quantity'' of
        None \<Rightarrow> ''filled''
      | Some q \<Rightarrow> if fl_le (fl_sub q (PFin quantity_tolerance)) (PFin (or_default (p_opened p) 0)) then ''filled'' else ''partially_filled'')"

definition order_reductions :: "store \<Rightarrow> position \<Rightarrow> string \<Rightarrow> rat" where
  "order_reductions st p order_id =
     sum_list (map al_quantity (filter (\<lambda>a. al_action a = AReduce \<and> al_exchange_order_id a = order_id) (list_allocations st (p_id p))))"

definition reduction_target :: "position \<Rightarrow> pyfloat option" where
  "reduction_target p = (case metadata_float p ''execution_quantity'' of
     None \<Rightarrow> metadata_float p ''close_quantity'' | Some q \<Rightarrow> Some q)"

definition nonzero_or :: "rat option \<Rightarrow> rat \<Rightarrow> rat" where
  "nonzero_or x d = (case x of Some r \<Rightarrow> if r = 0 then d else r | None \<Rightarrow> d)"

definition close_linked_trade :: "exec_env \<Rightarrow> position \<Rightarrow> allocation \<Rightarrow> unit exec" where
  "close_linked_trade env p a =
     (case linked_trade p of
        None \<Rightarrow> returnS ()
      | Some tid \<Rightarrow>
          bindS (readS (\<lambda>st. list_allocations st (p_id p))) (\<lambda>allocations.
          bindS (liftS (confirmed_realized_pnl (xe_instrument env) p allocations)) (\<lambda>pnl.
          bindS (on_trades (close_trade (xe_now env) tid (nonzero_or (al_price a) (p_entry_price p)) (al_reason a) None
                   (map_option (\<lambda>(net, pct, evidence). (dec_val net, Some (dec_val pct), evidence)) pnl))) (\<lambda>_. returnS ()))))"

definition update_trade_and_status :: "exec_env \<Rightarrow> position \<Rightarrow> allocation \<Rightarrow> string exec" where
  "update_trade_and_status env p a =
     (if al_action a = AOpen then
        bindS (case linked_trade p of None \<Rightarrow> returnS None
               | Some tid \<Rightarrow> on_trades (mark_trade_open tid (p_entry_price p))) (\<lambda>_.
        returnS (entry_execution_status p))
      else if p_status p = Closed then
        bindS (close_linked_trade env p a) (\<lambda>_. returnS ''closed'')
      else if al_action a = AReduce then
        (case reduction_target p of
           None \<Rightarrow> returnS ''reduced''
         | Some expected \<Rightarrow>
             if al_exchange_order_id a = [] then returnS ''reduced''
             else bindS (readS (\<lambda>st. order_reductions st p (al_exchange_order_id a))) (\<lambda>filled.
               if fl_lt (PFin filled) (fl_sub expected (PFin quantity_tolerance))
               then bindS (on_positions (update_status (xe_now env) (p_id p) Reducing (p_remaining p))) (\<lambda>_.
                 returnS ''partially_reduced'')
               else returnS ''reduced''))
      else returnS ''reduced'')"

subsection \<open>Consequences for the close conditions\<close>

definition dict_of :: "json \<Rightarrow> jobj result" where
  "dict_of j = (case j of JObj d \<Rightarrow> Inr d | _ \<Rightarrow> Inl AttributeError)"

definition complete_one_shot_rule :: "exec_env \<Rightarrow> position \<Rightarrow> allocation \<Rightarrow> unit exec" where
  "complete_one_shot_rule env p a =
     (case p_metadata p of
        JRaw _ \<Rightarrow> returnS ()
      | JText j \<Rightarrow>
          bindS (liftS (dict_of j)) (\<lambda>metadata.
          let cid = text_of (jget metadata ''rule_condition_id'') in
          if cid = [] then returnS ()
          else bindS (readS (\<lambda>st. get_close_condition st (p_id p) cid)) (\<lambda>found.
            case found of
              None \<Rightarrow> returnS ()
            | Some c \<Rightarrow>
                bindS (liftS (dict_of (or_default (tget (col_obj (c_metadata c)) ''rule_definition'') (JObj [])))) (\<lambda>definition'.
                bindS (liftS (dict_of (or_default (tget definition' ''action'') (JObj [])))) (\<lambda>action.
                if jget action ''type'' \<noteq> JStr ''reduce_position'' then returnS ()
                else bindS (on_positions (update_close_condition (xe_now env) (p_id p) (c_id c) None None (Some False)
                       (Some (tset ''execution_state'' (JObj [(''status'', JStr ''completed''), (''fill_id'', JStr (al_id a)),
                          (''quantity'', JFloat (PFin (al_quantity a))), (''price'', opt_json (al_price a))])
                          (col_obj (c_metadata c)))))) (\<lambda>_. returnS ()))))))"

definition stop_is_looser :: "string \<Rightarrow> json \<Rightarrow> rat \<Rightarrow> bool result" where
  "stop_is_looser side candidate confirmed =
     bindE (py_float candidate) (\<lambda>price.
     Inr (if side = ''long'' then fl_lt price (PFin confirmed) else fl_lt (PFin confirmed) price))"

definition materialized_rule :: "position \<Rightarrow> condition \<Rightarrow> (jobj \<times> jobj) result" where
  "materialized_rule p c =
     bindE (materialize_position_rule
        [(''purpose'', JStr (c_purpose c)), (''expression'', JObj (col_obj (c_expression c))), (''enabled'', JBool (c_enabled c)),
         (''metadata'', JObj (col_obj (c_metadata c)))]
        (JFloat (PFin (p_entry_price p))) (p_inst_id p) (p_side p) ''confirmed_average_entry'') (\<lambda>m.
     Inr (as_obj (jget m ''expression''), as_obj (jget m ''metadata'')))"

definition skip_looser_stop :: "exec_env \<Rightarrow> position \<Rightarrow> allocation \<Rightarrow> condition \<Rightarrow> protection \<Rightarrow> jobj \<Rightarrow> unit exec" where
  "skip_looser_stop env p a c pr expression =
     bindS (on_audit (create_event (xe_now env) (xe_fresh env (c_id c)) ''position.rule_materialization_skipped'' ''execution_allocation''
       [(''position_id'', JStr (p_id p)), (''condition_id'', JStr (c_id c)), (''fill_id'', JStr (al_id a)),
        (''reason'', JStr ''candidate would loosen confirmed protection''), (''confirmed_stop'', JFloat (PFin (pr_stop_loss pr))),
        (''candidate_stop'', jget expression ''value'')] [] [])) (\<lambda>_. returnS ())"

definition defer_stop_change :: "exec_env \<Rightarrow> position \<Rightarrow> allocation \<Rightarrow> condition \<Rightarrow> jobj \<Rightarrow> jobj \<Rightarrow> unit exec" where
  "defer_stop_change env p a c expression metadata =
     bindS (on_positions (update_close_condition (xe_now env) (p_id p) (c_id c) None None None
       (Some (tset ''pending_materialization'' (JObj [(''status'', JStr ''pending_exchange_amend''), (''expression'', JObj expression),
          (''metadata'', JObj metadata), (''entry_fill_id'', JStr (al_id a))]) (col_obj (c_metadata c)))))) (\<lambda>_.
     bindS (on_positions (merge_metadata (xe_now env) (p_id p)
       [(''requires_manual_review'', JBool True), (''protection_materialization_pending'', JBool True)])) (\<lambda>_.
     bindS (on_audit (create_event (xe_now env) (xe_fresh env (c_id c)) ''position.rule_materialization_pending'' ''execution_allocation''
       [(''position_id'', JStr (p_id p)), (''condition_id'', JStr (c_id c)), (''fill_id'', JStr (al_id a)),
        (''confirmed_entry_price'', JFloat (PFin (p_entry_price p))), (''target_expression'', JObj expression)] [] [])) (\<lambda>_. returnS ())))"

definition materialize_condition ::
  "exec_env \<Rightarrow> position \<Rightarrow> allocation \<Rightarrow> protection option \<Rightarrow> condition \<Rightarrow> unit \<Rightarrow> unit exec" where
  "materialize_condition env p a protection c u =
     (if \<not> is_obj (jget (col_obj (c_metadata c)) ''template_definition'') then returnS ()
      else bindS (liftS (materialized_rule p c)) (\<lambda>(expression, metadata).
        case (if c_purpose c = ''stop_loss'' then protection else None) of
          Some pr \<Rightarrow>
            bindS (liftS (stop_is_looser (p_side p) (jget expression ''value'') (pr_stop_loss pr))) (\<lambda>looser.
            if looser then skip_looser_stop env p a c pr expression
            else if \<not> py_eq (JObj expression) (JObj (col_obj (c_expression c)))
            then defer_stop_change env p a c expression metadata
            else bindS (on_positions (update_close_condition (xe_now env) (p_id p) (c_id c) None (Some expression) None (Some metadata)))
              (\<lambda>_. returnS ()))
        | None \<Rightarrow>
            bindS (on_positions (update_close_condition (xe_now env) (p_id p) (c_id c) None (Some expression) None (Some metadata)))
              (\<lambda>_. returnS ())))"

definition materialize_confirmed_entry_rules :: "exec_env \<Rightarrow> position \<Rightarrow> allocation \<Rightarrow> unit exec" where
  "materialize_confirmed_entry_rules env p a =
     bindS (readS (\<lambda>st. get_protection st (p_id p))) (\<lambda>protection.
     bindS (readS (\<lambda>st. list_close_conditions st (p_id p) None)) (\<lambda>conditions.
     foldS (materialize_condition env p a protection) conditions ()))"

subsection \<open>Audit trail\<close>

definition closing_evidence :: "trade \<Rightarrow> jobj" where
  "closing_evidence t =
     [(''realized_pnl'', opt_json (t_pnl t)), (''realized_pnl_pct'', opt_json (t_pnl_pct t)), (''entry_time'', JStr (t_entry_time t)),
      (''exit_time'', (case t_exit_time t of None \<Rightarrow> JNull | Some x \<Rightarrow> JStr x)),
      (''realized_pnl_evidence'', or_default (tget (col_obj (t_metadata t)) ''realized_pnl'') (JObj []))]"

definition record_allocation_audit ::
  "exec_env \<Rightarrow> position \<Rightarrow> allocation \<Rightarrow> string \<Rightarrow> string \<Rightarrow> string \<Rightarrow> unit exec" where
  "record_allocation_audit env p a correlation_id confirmation_source execution_status s =
     (let m = col_obj (al_metadata a);
          payload = [(''strategy_id'', JStr (p_strategy_id p)), (''correlation_id'', JStr correlation_id),
            (''position_id'', JStr (p_id p)), (''trade_id'', trade_json p), (''fill_id'', JStr (al_id a)),
            (''exchange_order_id'', JStr (al_exchange_order_id a)), (''action'', JStr (action_name (al_action a))),
            (''quantity'', JFloat (PFin (al_quantity a))), (''price'', opt_json (al_price a)), (''fee'', opt_json (al_fee a)),
            (''fee_currency'', jget m ''fee_currency''), (''exchange_realized_pnl'', jget m ''exchange_realized_pnl''),
            (''exchange_realized_pnl_currency'', jget m ''exchange_realized_pnl_currency''),
            (''confirmation_source'', JStr confirmation_source), (''execution_status'', JStr execution_status),
            (''opened_quantity'', opt_json (p_opened p)), (''remaining_quantity'', opt_json (p_remaining p)),
            (''average_entry_price'', JFloat (PFin (p_entry_price p)))];
          closed = (if execution_status = ''closed''
            then (case linked_trade p of None \<Rightarrow> None | Some tid \<Rightarrow> get_trade (xs_trades s) tid) else None);
          full = (case closed of None \<Rightarrow> payload | Some t \<Rightarrow> payload @ closing_evidence t) in
      bindS (on_audit (create_event (xe_now env) [] ''position.allocation_confirmed'' ''execution_allocation'' full
        (''allocation:'' @ al_id a) (al_created_at a))) (\<lambda>_. returnS ()) s)"

definition update_correlated_decision ::
  "exec_env \<Rightarrow> position \<Rightarrow> allocation \<Rightarrow> string \<Rightarrow> string \<Rightarrow> unit exec" where
  "update_correlated_decision env p a correlation_id execution_status s =
     (case list_events (xs_audit s) 1 ''strategy.action_decision'' [] [] correlation_id [] [] [] of
        [] \<Rightarrow> (Inr (), s)
      | d # _ \<Rightarrow>
          (let payload = tmerge (event_payload d)
                 [(''execution_status'', JStr execution_status), (''latest_fill_id'', JStr (al_id a)),
                  (''filled_quantity'', opt_json (p_opened p)), (''average_fill_price'', JFloat (PFin (p_entry_price p)))];
               payload' = (if execution_status = ''filled'' \<or> execution_status = ''closed''
                 then tset ''completed_at'' (JStr (xe_now env)) payload else payload) in
           bindS (on_audit (create_event (xe_now env) [] (ae_type d) (ae_source d) payload' (ae_id d) (ae_created_at d)))
             (\<lambda>_. returnS ()) s))"

subsection \<open>Ingestion\<close>

definition fill_allocation :: "confirmed_fill \<Rightarrow> position \<Rightarrow> alloc_action \<Rightarrow> string \<Rightarrow> allocation" where
  "fill_allocation fill p action correlation_id =
     \<lparr>al_id = cf_fill_id fill, al_position_id = p_id p, al_action = action, al_quantity = cf_quantity fill,
      al_price = Some (cf_price fill), al_fee = cf_fee fill, al_exchange_order_id = cf_exchange_order_id fill,
      al_reason = cf_reason fill, al_created_at = cf_occurred_at fill,
      al_metadata = dumps (tmerge (cf_metadata fill)
        [(''confirmation_source'', JStr (cf_source fill)), (''correlation_id'', JStr correlation_id)]),
      al_applied = True\<rparr>"

text \<open>\<^verbatim>\<open>remaining_quantity or opened_quantity or 0.0\<close>\<close>

definition quantity_at_hand :: "position \<Rightarrow> rat" where
  "quantity_at_hand p = nonzero_or (p_remaining p) (nonzero_or (p_opened p) 0)"

definition defers_close :: "store \<Rightarrow> position \<Rightarrow> alloc_action \<Rightarrow> rat \<Rightarrow> bool" where
  "defers_close st p action quantity =
     ((action = AReduce \<or> action = AClose) \<and> quantity_at_hand p < quantity - quantity_tolerance \<and>
      has_execution_order st (p_id p) AOpen)"

definition record_deferred_close :: "exec_env \<Rightarrow> position \<Rightarrow> allocation \<Rightarrow> ingestion_result exec" where
  "record_deferred_close env updated a =
     bindS (on_positions (update_execution_tracking (xe_now env) (p_id updated) (al_exchange_order_id a) ''close_fill_deferred'' True)) (\<lambda>tracked.
     let p = or_default tracked updated in
     bindS (on_audit (create_event (xe_now env) [] ''position.allocation_deferred'' ''execution_allocation''
       [(''position_id'', JStr (p_id p)), (''trade_id'', trade_json p), (''fill_id'', JStr (al_id a)),
        (''exchange_order_id'', JStr (al_exchange_order_id a)), (''action'', JStr (action_name (al_action a))),
        (''quantity'', JFloat (PFin (al_quantity a))), (''reason'', JStr ''close fill arrived before opening fill allocation'')]
       (''deferred-allocation:'' @ al_id a) (al_created_at a))) (\<lambda>_.
     returnS \<lparr>ir_allocation = a, ir_position = p, ir_idempotent = False, ir_execution_status = ''close_fill_deferred''\<rparr>))"

definition confirmation_source_of :: "allocation \<Rightarrow> string \<Rightarrow> string result" where
  "confirmation_source_of a default' = (case jget (col_obj (al_metadata a)) ''confirmation_source'' of
     JStr s \<Rightarrow> Inr (if s \<in> {''okx_fill'', ''dry_run'', ''recovery''} then s else default')
   | JList _ \<Rightarrow> Inl TypeError | JObj _ \<Rightarrow> Inl TypeError | _ \<Rightarrow> Inr default')"

text \<open>One deferred fill after the entry it waited for: the position, the last fill and its status.\<close>

definition settle_deferred ::
  "exec_env \<Rightarrow> confirmed_fill \<Rightarrow> string \<Rightarrow> allocation \<Rightarrow> position \<times> allocation \<times> string \<Rightarrow> (position \<times> allocation \<times> string) exec" where
  "settle_deferred env fill correlation_id a = (\<lambda>(updated, _, _).
     bindS (update_trade_and_status env updated a) (\<lambda>status.
     bindS (on_positions (merge_metadata (xe_now env) (p_id updated)
       [(''execution_status'', JStr status), (''completed_order_id'', JStr (al_exchange_order_id a)),
        (''completed_at'', JStr (xe_now env))])) (\<lambda>tracked.
     let p = or_default tracked updated in
     bindS (liftS (confirmation_source_of a (cf_source fill))) (\<lambda>source.
     bindS (record_allocation_audit env p a correlation_id source status) (\<lambda>_.
     returnS (p, a, status))))))"

definition settle_deferred_fills ::
  "exec_env \<Rightarrow> confirmed_fill \<Rightarrow> string \<Rightarrow> position \<Rightarrow> allocation \<Rightarrow> string \<Rightarrow> (position \<times> allocation \<times> string) exec" where
  "settle_deferred_fills env fill correlation_id updated a status =
     (if al_action a \<noteq> AOpen then returnS (updated, a, status)
      else bindS (on_positions (apply_deferred_allocations (xe_now env) (p_id updated))) (\<lambda>(found, deferred).
        case found of
          None \<Rightarrow> liftS (Inl (LookupError (''Logical position '' @ py_repr (JStr (p_id updated)) @ '' no longer exists'')))
        | Some p \<Rightarrow> foldS (settle_deferred env fill correlation_id) deferred (p, a, status)))"

definition update_triggered_protection :: "exec_env \<Rightarrow> string \<Rightarrow> position \<Rightarrow> allocation \<Rightarrow> unit exec" where
  "update_triggered_protection env pid updated a =
     bindS (readS (\<lambda>st. get_protection st pid)) (\<lambda>found.
     case found of
       None \<Rightarrow> returnS ()
     | Some pr \<Rightarrow>
         if al_action a \<noteq> AReduce \<and> al_action a \<noteq> AClose then returnS ()
         else if p_status updated = Closed \<and> (pr_status pr = PCanceled \<or> pr_status pr = PTriggered)
         then bindS (on_positions (update_protection (xe_now env) pid (Some PExhausted) None None None
           (Some [(''exhausted_by_fill_id'', JStr (al_id a)), (''remaining_quantity'', opt_json (p_remaining updated))]))) (\<lambda>_. returnS ())
         else if pr_trigger_order_id pr = al_exchange_order_id a
         then bindS (on_positions (update_protection (xe_now env) pid (Some PTriggered) None None None
           (Some [(''last_trigger_fill_id'', JStr (al_id a)), (''remaining_quantity'', opt_json (p_remaining updated))]))) (\<lambda>_. returnS ())
         else returnS ())"

definition settle_fill ::
  "exec_env \<Rightarrow> confirmed_fill \<Rightarrow> allocation option \<Rightarrow> string \<Rightarrow> string \<Rightarrow> allocation \<Rightarrow> position \<Rightarrow> ingestion_result exec" where
  "settle_fill env fill existing pid correlation_id a updated =
     bindS (update_trade_and_status env updated a) (\<lambda>status.
     bindS (whenS (al_action a = AOpen) (materialize_confirmed_entry_rules env updated a)) (\<lambda>_.
     bindS (whenS (al_action a = AReduce) (complete_one_shot_rule env updated a)) (\<lambda>_.
     bindS (on_positions (update_execution_tracking (xe_now env) (p_id updated) (al_exchange_order_id a) status
              (status = ''filled'' \<or> status = ''closed'' \<or> al_action a = AReduce \<and> status = ''reduced''))) (\<lambda>tracked.
     let p1 = or_default tracked updated in
     bindS (whenS (existing = None) (record_allocation_audit env p1 a correlation_id (cf_source fill) status)) (\<lambda>_.
     bindS (settle_deferred_fills env fill correlation_id p1 a status) (\<lambda>(p2, decision, status2).
     bindS (whenS (correlation_id \<noteq> []) (update_correlated_decision env p2 decision correlation_id status2)) (\<lambda>_.
     bindS (update_triggered_protection env pid p2 decision) (\<lambda>_.
     returnS \<lparr>ir_allocation = or_default existing a, ir_position = p2, ir_idempotent = (existing \<noteq> None),
       ir_execution_status = status2\<rparr>))))))))"

definition ingest :: "exec_env \<Rightarrow> confirmed_fill \<Rightarrow> ingestion_result exec" where
  "ingest env fill =
     bindS (readS (\<lambda>st. get_allocation st (cf_fill_id fill))) (\<lambda>existing.
     bindS (resolve_position env fill existing) (\<lambda>p.
     bindS (case cf_action fill of Some x \<Rightarrow> returnS x
            | None \<Rightarrow> (case existing of Some e \<Rightarrow> returnS (al_action e)
                      | None \<Rightarrow> (\<lambda>s. (resolve_action (xs_pos s) p fill, s)))) (\<lambda>action.
     let correlation_id = first_text [cf_correlation_id fill,
           (case existing of None \<Rightarrow> [] | Some e \<Rightarrow> text_of (jget (col_obj (al_metadata e)) ''correlation_id'')),
           metadata_string p ''correlation_id''];
         a = fill_allocation fill p action correlation_id in
     case existing of
       Some e \<Rightarrow>
         if \<not> al_applied e then
           bindS (on_positions (record_allocation (xe_now env) a True False)) (\<lambda>_.
           returnS \<lparr>ir_allocation = e, ir_position = p, ir_idempotent = True, ir_execution_status = ''close_fill_deferred''\<rparr>)
         else bindS (on_positions (record_allocation (xe_now env) a True (action = AOpen))) (\<lambda>updated.
           case updated of
             None \<Rightarrow> liftS (Inl (LookupError (''Logical position '' @ py_repr (JStr (p_id p)) @ '' no longer exists'')))
           | Some u \<Rightarrow> settle_fill env fill existing (p_id p) correlation_id a u)
     | None \<Rightarrow>
         bindS (readS (\<lambda>st. defers_close st p action (cf_quantity fill))) (\<lambda>defer_close.
         bindS (on_positions (record_allocation (xe_now env) a (\<not> defer_close) (action = AOpen))) (\<lambda>updated.
         case updated of
           None \<Rightarrow> liftS (Inl (LookupError (''Logical position '' @ py_repr (JStr (p_id p)) @ '' no longer exists'')))
         | Some u \<Rightarrow>
             if defer_close then record_deferred_close env u a
             else settle_fill env fill existing (p_id p) correlation_id a u)))))"

end
