(* ===== verification/PositionRuleProperties.thy ===== *)
theory PositionRuleProperties
  imports PositionRuleModel
begin

section \<open>Canonical position rules: properties\<close>

text \<open>
  What normalisation, materialisation and the break-even target of \<open>PositionRuleModel\<close> promise:
  accepted rules are canonical, staged targets fit the position, materialised prices lie on the
  protective side of the entry, materialising is repeatable, and the break-even target covers the
  modelled costs.
\<close>

subsection \<open>Canonical definitions\<close>

lemma reject_Inr [simp]: "reject bad m = Inr u \<longleftrightarrow> \<not> bad"
  by (simp add: reject_def)

definition action_ok :: "string \<Rightarrow> jobj \<Rightarrow> bool" where
  "action_ok purpose a \<longleftrightarrow>
     (let ty = text_of (jget a ''type'') in
      ty \<in> set rule_actions \<and> purpose \<in> set (or_default (tget valid_action_purposes ty) []) \<and>
      (if ty = ''reduce_position''
       then (\<exists>f. jget a ''quantity_fraction'' = JFloat (PFin f) \<and> 0 < f \<and> f < 1) \<and>
            (jget a ''quantity_basis'' = JStr ''initial'' \<or> jget a ''quantity_basis'' = JStr ''remaining'')
       else jget a ''quantity_fraction'' = JNull))"

definition canonical_rule :: "string \<Rightarrow> json \<Rightarrow> bool \<Rightarrow> jobj \<Rightarrow> bool" where
  "canonical_rule purpose expression enabled d \<longleftrightarrow>
     jget d ''schema_version'' = JInt rule_schema_version \<and>
     purpose \<in> set rule_purposes \<and> jget d ''purpose'' = JStr purpose \<and>
     (\<exists>style. style \<in> set rule_styles \<and> jget d ''style'' = JStr style) \<and>
     jget d ''enabled'' = JBool enabled \<and> jget d ''trigger'' = expression \<and> as_obj expression \<noteq> [] \<and>
     (\<exists>a. jget d ''action'' = JObj a \<and> action_ok purpose a) \<and>
     is_obj (jget d ''parameters'') \<and> is_obj (jget d ''evidence'')"

lemma fl_between: "fl_lt (PFin a) f \<and> fl_lt f (PFin b) \<longleftrightarrow> (\<exists>r. f = PFin r \<and> a < r \<and> r < b)"
  by (cases f) (auto simp: fl_lt_def)

lemma normalize_action_ok:
  assumes "normalize_action purpose a = Inr r"
  shows "action_ok purpose (snd r)"
  using assms unfolding normalize_action_def Let_def action_ok_def
  by (cases "text_of (jget a ''type'') = ''reduce_position''")
    (auto simp: bindE_eq_Inr fl_between)

lemma normalize_position_rule_Inr:
  assumes "normalize_position_rule purpose expression enabled metadata = Inr m"
  shows "\<exists>style action parameters evidence.
    m = tset ''rule_definition'' (JObj (rule_json purpose style enabled expression action parameters evidence)) metadata \<and>
    purpose \<in> set rule_purposes \<and> as_obj expression \<noteq> [] \<and> style \<in> set rule_styles \<and> action_ok purpose action"
  using assms unfolding normalize_position_rule_def Let_def
  apply (simp only: bindE_eq_Inr reject_Inr split_beta sum.inject not_not)
  apply (elim exE conjE)
  apply (intro exI conjI)
      apply (erule sym, assumption+)
  apply (erule normalize_action_ok)
  done

lemma normalize_rule_canonical:
  assumes "normalize_position_rule purpose expression enabled metadata = Inr m"
  shows "\<exists>d. tget m ''rule_definition'' = Some (JObj d) \<and> canonical_rule purpose expression enabled d"
  using normalize_position_rule_Inr [OF assms] by (auto simp: canonical_rule_def rule_json_def jget_def)

lemma normalize_rule_keeps:
  assumes "normalize_position_rule purpose expression enabled metadata = Inr m" "k \<noteq> ''rule_definition''"
  shows "tget m k = tget metadata k"
  using normalize_position_rule_Inr [OF assms(1)] assms(2) by auto

subsection \<open>Staged take-profits\<close>

definition item_ok :: "jobj \<Rightarrow> bool" where
  "item_ok item \<longleftrightarrow> (\<exists>purpose expression enabled m d. jget item ''purpose'' = JStr purpose \<and>
     jget item ''expression'' = expression \<and> jget item ''enabled'' = JBool enabled \<and>
     jget item ''metadata'' = JObj m \<and> tget m ''rule_definition'' = Some (JObj d) \<and>
     canonical_rule purpose expression enabled d)"

lemma normalize_condition_ok:
  assumes "normalize_condition i c = Inr item" shows "item_ok item"
  using assms unfolding normalize_condition_def Let_def item_ok_def
  by (clarsimp simp only: bindE_eq_Inr sum.inject) (auto dest!: normalize_rule_canonical)

lemma normalize_condition_list_ok:
  "normalize_condition_list i cs = Inr items \<Longrightarrow> list_all item_ok items \<and> length items = length cs"
  by (induction cs arbitrary: i items) (auto simp: bindE_eq_Inr dest: normalize_condition_ok)

lemma staged_fraction_item:
  assumes "item_ok item" "is_staged item"
  shows "\<exists>f. item_fraction item = PFin f \<and> 0 < f \<and> f < 1"
proof -
  from assms(1) obtain purpose m d where m: "jget item ''metadata'' = JObj m" "tget m ''rule_definition'' = Some (JObj d)"
    and c: "\<exists>e b. canonical_rule purpose e b d" unfolding item_ok_def by blast
  from c obtain a where a: "jget d ''action'' = JObj a" "action_ok purpose a" unfolding canonical_rule_def by blast
  with m have ia: "item_action item = a" by (simp add: item_action_def as_obj_def jget_def)
  with assms(2) a(2) show ?thesis
    by (auto simp: is_staged_def action_ok_def Let_def item_fraction_def)
qed

definition rat_of :: "pyfloat \<Rightarrow> rat" where
  "rat_of f = (case f of PFin r \<Rightarrow> r | _ \<Rightarrow> 0)"

lemma foldl_fl_add:
  "list_all (\<lambda>f. \<exists>r. f = PFin r) fs \<Longrightarrow> foldl fl_add (PFin a) fs = PFin (a + sum_list (map rat_of fs))"
  by (induction fs arbitrary: a) (auto simp: rat_of_def add.assoc)

definition staged_total :: "jobj list \<Rightarrow> rat" where
  "staged_total items = sum_list (map (\<lambda>i. rat_of (item_fraction i)) (filter is_staged items))"

lemma staged_fraction_total:
  assumes "list_all item_ok items"
  shows "staged_fraction items = PFin (staged_total items)"
proof -
  have "list_all (\<lambda>f. \<exists>r. f = PFin r) (map item_fraction (filter is_staged items))"
    using assms staged_fraction_item by (fastforce simp: list_all_iff)
  then show ?thesis by (simp add: staged_fraction_def foldl_fl_add staged_total_def o_def)
qed

lemma normalize_default_rules_Inr:
  assumes "normalize_default_rules rules = Inr r"
  obtains items where
    "list_all item_ok items" "jget r ''close_conditions'' = JList (map JObj items)"
    "jget r ''rule_schema_version'' = JInt rule_schema_version"
    "staged_total items \<le> 1 + 1 / 10 ^ 12"
    "tget r ''staged_take_profit'' = (if staged_total items = 0 then None else Some (JObj
        [(''initial_quantity_fraction'', JFloat (PFin (staged_total items))),
         (''running_remainder_fraction'', JFloat (PFin (max 0 (1 - staged_total items))))]))"
proof -
  from assms obtain conditions items where l: "normalize_condition_list 0 conditions = Inr items"
    and t: "\<not> fl_lt (PFin (1 + 1 / 10 ^ 12)) (staged_fraction items)"
    and r: "(if truthy (JFloat (staged_fraction items))
     then Inr (tset ''staged_take_profit'' (JObj
            [(''initial_quantity_fraction'', JFloat (staged_fraction items)),
             (''running_remainder_fraction'',
                JFloat (if fl_lt (PFin 0) (fl_sub (PFin 1) (staged_fraction items)) then fl_sub (PFin 1) (staged_fraction items) else PFin 0))])
            (tset ''rule_schema_version'' (JInt rule_schema_version)
           (tset ''close_conditions'' (JList (map JObj items)) rules)))
     else Inr (tdel ''staged_take_profit'' (tset ''rule_schema_version'' (JInt rule_schema_version)
           (tset ''close_conditions'' (JList (map JObj items)) rules)))) = (Inr r :: jobj result)"
    unfolding normalize_default_rules_def Let_def by (clarsimp simp only: bindE_eq_Inr reject_Inr)
  have ok: "list_all item_ok items" using normalize_condition_list_ok [OF l] by blast
  note f = staged_fraction_total [OF ok]
  show ?thesis
  proof (rule that [OF ok])
    show "staged_total items \<le> 1 + 1 / 10 ^ 12" using t f by (simp only: fl_fin_simps not_less)
  qed (use r f in \<open>auto simp: jget_def max_def split: if_splits\<close>)
qed

subsection \<open>Materialised prices protect\<close>

lemma ranged_decimal_Inr:
  "ranged_decimal i r ok v = Inr d \<longleftrightarrow> dec_of_json v = Some d \<and> dec_finite d \<and> ok (dec_val d)"
  unfolding ranged_decimal_def parse_decimal_def by (cases "dec_of_json v") auto

lemma dec_le_finite: "dec_finite a \<Longrightarrow> dec_finite b \<Longrightarrow> dec_le a b = Inr (dec_val a \<le> dec_val b)"
  by (cases a; cases b) auto

lemma dec_to_float_finite: "dec_finite d \<Longrightarrow> dec_to_float d = PFin (float_decimal (dec_val d))"
  by (cases d) auto

lemma scaled_entry_val:
  assumes "dec_finite e" "dec_finite pct"
  shows "dec_finite (scaled_entry e up pct) \<and>
    dec_val (scaled_entry e up pct) = ctx (dec_val e * ctx (if up then 1 + dec_val pct else 1 - dec_val pct))"
proof -
  have one: "dec_finite (Dec 1 0)" "dec_val (Dec 1 0) = 1" by simp_all
  obtain c x where pct: "pct = Dec c x" using assms(2) by (cases pct) auto
  show ?thesis
    using dec_plus_val [OF one(1), of "if up then pct else dec_negate pct"] dec_negate_val [OF assms(2)]
      dec_times_val [OF assms(1)] assms(2)
    by (cases up) (simp_all add: scaled_entry_def pct del: dec_val.simps, simp_all add: one(2) del: dec_val.simps)
qed

definition trigger_json :: "bool \<Rightarrow> string \<Rightarrow> rat \<Rightarrow> json" where
  "trigger_json up inst_id v = JObj [(''type'', JStr (if up then ''price_above'' else ''price_below'')),
     (''symbol'', JStr inst_id), (''value'', JFloat (PFin v))]"

lemma price_trigger_Inr:
  assumes "price_trigger purpose side inst_id p = Inr t" "dec_finite p" "side = ''long'' \<or> side = ''short''"
  shows "JObj t = trigger_json ((side = ''long'') = (purpose = ''take_profit'')) inst_id (float_decimal (dec_val p))"
  using assms unfolding price_trigger_def trigger_json_def
  by (auto simp: bindE_eq_Inr dec_to_float_finite)

lemma stored_near:
  fixes w i e :: rat
  assumes "\<bar>w - i\<bar> \<le> e / 10 ^ 26" "\<bar>i\<bar> \<le> 2 * e"
  shows "\<bar>float_decimal w - i\<bar> \<le> e / 10 ^ 15"
proof -
  have "\<bar>w\<bar> \<le> \<bar>w - i\<bar> + \<bar>i\<bar>" by (rule abs_near(1))
  also have "\<dots> \<le> e / 10 ^ 26 + 2 * e" using assms by (rule add_mono)
  finally have "\<bar>w\<bar> / 2 ^ 51 \<le> (e / 10 ^ 26 + 2 * e) / 2 ^ 51" by (rule divide_right_mono) simp
  with float_decimal_error [of w] have d: "\<bar>float_decimal w - w\<bar> \<le> (e / 10 ^ 26 + 2 * e) / 2 ^ 51" by (rule order_trans)
  have "float_decimal w - i = (float_decimal w - w) + (w - i)" by simp
  then have "\<bar>float_decimal w - i\<bar> \<le> \<bar>float_decimal w - w\<bar> + \<bar>w - i\<bar>" by (simp only: abs_triangle_ineq)
  also have "\<dots> \<le> (e / 10 ^ 26 + 2 * e) / 2 ^ 51 + e / 10 ^ 26" using d assms(1) by (rule add_mono)
  also have "\<dots> \<le> e / 10 ^ 15" using assms(2) by simp
  finally show ?thesis .
qed

lemma fixed_percent_Inr:
  assumes "materialize_fixed_percent purpose side inst_id entry parameters = Inr t"
    and "dec_finite entry" "0 < dec_val entry" "side = ''long'' \<or> side = ''short''"
  shows "\<exists>off v up. dec_of_json (jget parameters ''offset_pct'') = Some off \<and> 0 < dec_val off \<and> dec_val off < 1 \<and>
    up = ((side = ''long'') = (purpose = ''take_profit'')) \<and> JObj t = trigger_json up inst_id v \<and>
    \<bar>v - dec_val entry * (if up then 1 + dec_val off else 1 - dec_val off)\<bar> \<le> dec_val entry / 10 ^ 15"
proof -
  define up where up: "up = ((side = ''long'') = (purpose = ''take_profit''))"
  from assms(1) obtain off where off: "dec_of_json (jget parameters ''offset_pct'') = Some off"
      "dec_finite off" "0 < dec_val off" "dec_val off < 1"
    and t: "price_trigger purpose side inst_id (scaled_entry entry up off) = Inr t"
    unfolding materialize_fixed_percent_def Let_def up by (auto simp: bindE_eq_Inr ranged_decimal_Inr)
  note v = scaled_entry_val [OF assms(2) off(2), of up]
  have "JObj t = trigger_json up inst_id (float_decimal (dec_val (scaled_entry entry up off)))"
    using price_trigger_Inr [OF t _ assms(4)] v up by simp
  moreover have "\<bar>dec_val (scaled_entry entry up off) - dec_val entry * (if up then 1 + dec_val off else 1 - dec_val off)\<bar>
      \<le> dec_val entry / 10 ^ 26"
    using ctx_product_error [of "dec_val entry"] assms(3) off(3,4) v by (cases up) simp_all
  then have "\<bar>float_decimal (dec_val (scaled_entry entry up off)) - dec_val entry * (if up then 1 + dec_val off else 1 - dec_val off)\<bar>
      \<le> dec_val entry / 10 ^ 15"
    using assms(3) off(3,4) by (intro stored_near) (auto simp: mult_le_cancel_left1)
  ultimately show ?thesis using off up by blast
qed

lemma target_price_Inr:
  assumes "materialize_target_price style purpose side inst_id basis entry parameters trigger evidence = Inr t"
    and "dec_finite entry" "side = ''long'' \<or> side = ''short''" "basis \<noteq> ''validation_reference''"
  shows "\<exists>v up. up = ((side = ''long'') = (purpose = ''take_profit'')) \<and> JObj t = trigger_json up inst_id v \<and>
    0 < v \<and> (if up then float_decimal (dec_val entry) \<le> v else v \<le> float_decimal (dec_val entry))"
proof -
  from assms(1,4) obtain price where p: "dec_finite price" "0 < dec_val price"
    and s: "validate_price_side purpose side entry price = Inr ()"
    and t: "price_trigger purpose side inst_id price = Inr t"
    unfolding materialize_target_price_def Let_def by (auto simp: bindE_eq_Inr ranged_decimal_Inr)
  have "if ((side = ''long'') = (purpose = ''take_profit'')) then dec_val entry < dec_val price
        else dec_val price < dec_val entry"
    using s assms(2) p(1) unfolding validate_price_side_def Let_def
    by (cases "(side = ''long'') = (purpose = ''take_profit'')") (simp_all add: dec_le_finite not_le)
  then have "if ((side = ''long'') = (purpose = ''take_profit'')) then float_decimal (dec_val entry) \<le> float_decimal (dec_val price)
        else float_decimal (dec_val price) \<le> float_decimal (dec_val entry)"
    by (auto intro: float_decimal_mono less_imp_le split: if_splits)
  with price_trigger_Inr [OF t p(1) assms(3)] float_decimal_pos [OF p(2)] show ?thesis by blast
qed

text \<open>What a materialised rule records and triggers on.\<close>

definition template_of :: "jobj \<Rightarrow> jobj" where
  "template_of r = as_obj (jget (as_obj (jget r ''metadata'')) ''template_definition'')"

lemma materialize_Inr:
  assumes "materialize_position_rule rule entry_price inst_id side basis = Inr r"
  shows "\<exists>entry. dec_of_json entry_price = Some entry \<and> dec_finite entry \<and> 0 < dec_val entry \<and>
    (py_lower side = ''long'' \<or> py_lower side = ''short'') \<and>
    materialize_trigger (source_style (template_of r)) (source_purpose (template_of r) rule) (py_lower side) inst_id basis entry
      (as_obj (jget (template_of r) ''parameters'')) (source_trigger (template_of r) rule) (jget (template_of r) ''evidence'')
      = Inr (jget r ''expression'') \<and> jget r ''purpose'' = JStr (source_purpose (template_of r) rule)"
proof -
  from assms obtain metadata entry trigger where
    m: "rule_metadata rule = Inr metadata" and side: "py_lower side = ''long'' \<or> py_lower side = ''short''"
    and e: "dec_of_json entry_price = Some entry" "dec_finite entry" "0 < dec_val entry"
    and t: "materialize_trigger (source_style (source_definition metadata)) (source_purpose (source_definition metadata) rule)
       (py_lower side) inst_id basis entry (as_obj (jget (source_definition metadata) ''parameters''))
       (source_trigger (source_definition metadata) rule) (jget (source_definition metadata) ''evidence'') = Inr trigger"
    and r: "r = tset ''metadata'' (JObj (materialized_metadata metadata (source_definition metadata) trigger basis entry inst_id (py_lower side)))
           (tset ''enabled'' (JBool (source_enabled (source_definition metadata) rule))
           (tset ''expression'' trigger (tset ''purpose'' (JStr (source_purpose (source_definition metadata) rule)) rule)))"
    unfolding materialize_position_rule_def Let_def
    by (auto simp only: bindE_eq_Inr reject_Inr ranged_decimal_Inr sum.inject de_Morgan_conj not_not)
  have "template_of r = source_definition metadata"
    by (simp add: r template_of_def as_obj_def materialized_metadata_def)
  with e side t show ?thesis by (simp add: r)
qed

subsection \<open>Materialising again\<close>

text \<open>Overwriting the last entries of a table that was built in the same order.\<close>

lemma tset3_again:
  assumes "distinct [a, b, c]"
  shows "tset c z' (tset b y' (tset a x (tset c z (tset b y (tset a x t))))) = tset c z' (tset b y' (tset a x t))"
proof -
  let ?u = "tset c z (tset b y (tset a x t))"
  have "tset a x ?u = ?u" using assms by (intro tset_same) simp
  moreover have "tset b y' ?u = tset c z (tset b y' (tset a x t))" using assms tset_commute [of b c "tset b y (tset a x t)" y' z] by simp
  ultimately show ?thesis by simp
qed

lemma tset4_again:
  assumes "distinct [a, b, c, d]"
  shows "tset d w' (tset c z (tset b y' (tset a x (tset d w (tset c z (tset b y (tset a x t)))))))
     = tset d w' (tset c z (tset b y' (tset a x t)))"
proof -
  let ?u = "tset d w (tset c z (tset b y (tset a x t)))"
  have "tset a x ?u = ?u" using assms by (intro tset_same) simp
  moreover have "tset b y' ?u = tset d w (tset c z (tset b y' (tset a x t)))"
    using assms tset_commute [of b c "tset b y (tset a x t)" y' z] tset_commute [of b d "tset c z (tset b y (tset a x t))" y' w] by simp
  moreover have "tset c z (tset d w (tset c z (tset b y' (tset a x t)))) = tset d w (tset c z (tset b y' (tset a x t)))"
    using assms by (intro tset_same) simp
  ultimately show ?thesis by simp
qed

definition complete_template :: "jobj \<Rightarrow> bool" where
  "complete_template d \<longleftrightarrow> truthy (jget d ''purpose'') \<and> truthy (jget d ''trigger'') \<and> tget d ''enabled'' \<noteq> None"

lemma template_of_materialized:
  assumes "materialize_position_rule rule entry_price inst_id side basis = Inr r"
  shows "\<exists>metadata trigger entry. rule_metadata rule = Inr metadata \<and> template_of r = source_definition metadata \<and>
    r = tset ''metadata'' (JObj (materialized_metadata metadata (source_definition metadata) trigger basis entry inst_id (py_lower side)))
      (tset ''enabled'' (JBool (source_enabled (source_definition metadata) rule))
      (tset ''expression'' trigger (tset ''purpose'' (JStr (source_purpose (source_definition metadata) rule)) rule)))"
proof -
  from assms obtain metadata trigger entry where m: "rule_metadata rule = Inr metadata"
    and r: "r = tset ''metadata'' (JObj (materialized_metadata metadata (source_definition metadata) trigger basis entry inst_id (py_lower side)))
      (tset ''enabled'' (JBool (source_enabled (source_definition metadata) rule))
      (tset ''expression'' trigger (tset ''purpose'' (JStr (source_purpose (source_definition metadata) rule)) rule)))"
    unfolding materialize_position_rule_def Let_def by (clarsimp simp only: bindE_eq_Inr sum.inject)
  have "template_of r = source_definition metadata"
    by (simp add: r template_of_def as_obj_def materialized_metadata_def)
  with m r show ?thesis by blast
qed

lemma rule_metadata_materialized:
  assumes "r = tset ''metadata'' (JObj (materialized_metadata metadata source trigger basis entry inst_id side)) r0"
  shows "rule_metadata r = Inr (materialized_metadata metadata source trigger basis entry inst_id side)"
    and "source_definition (materialized_metadata metadata source trigger basis entry inst_id side) = source"
  by (simp_all add: assms rule_metadata_def as_obj_def materialized_metadata_def source_definition_def)

lemma materialize_rebase:
  assumes m1: "materialize_position_rule rule e1 inst1 side1 basis1 = Inr r" and c: "complete_template (template_of r)"
  shows "materialize_position_rule r e2 inst2 side2 basis2 = materialize_position_rule rule e2 inst2 side2 basis2"
proof -
  obtain md tr en where md: "rule_metadata rule = Inr md" and t: "template_of r = source_definition md"
    and r: "r = tset ''metadata'' (JObj (materialized_metadata md (source_definition md) tr basis1 en inst1 (py_lower side1)))
      (tset ''enabled'' (JBool (source_enabled (source_definition md) rule))
      (tset ''expression'' tr (tset ''purpose'' (JStr (source_purpose (source_definition md) rule)) rule)))"
    using template_of_materialized [OF m1] by blast
  let ?s = "source_definition md"
  have s: "source_purpose ?s r = source_purpose ?s rule" "source_trigger ?s r = source_trigger ?s rule"
    "source_enabled ?s r = source_enabled ?s rule"
    using c unfolding t complete_template_def
    by (auto simp: source_purpose_def source_trigger_def source_enabled_def py_or_def get_default_def)
  have a: "materialized_metadata (materialized_metadata md ?s tr basis1 en inst1 (py_lower side1)) ?s t' b e i sd =
      materialized_metadata md ?s t' b e i sd" for t' b e i sd
    unfolding materialized_metadata_def by (rule tset3_again) simp
  have b: "tset ''metadata'' x (tset ''enabled'' (JBool (source_enabled ?s rule))
      (tset ''expression'' y (tset ''purpose'' (JStr (source_purpose ?s rule)) r))) =
    tset ''metadata'' x (tset ''enabled'' (JBool (source_enabled ?s rule))
      (tset ''expression'' y (tset ''purpose'' (JStr (source_purpose ?s rule)) rule)))" for x y
    unfolding r by (rule tset4_again) simp
  show ?thesis
    unfolding materialize_position_rule_def rule_metadata_materialized [OF r] md bindE_simps Let_def s a b ..
qed

lemma canonical_complete: "canonical_rule p e b d \<Longrightarrow> p \<noteq> [] \<Longrightarrow> complete_template d"
  unfolding canonical_rule_def complete_template_def
  by (cases e) (auto simp: jget_def as_obj_def or_default_def split: option.splits)

subsection \<open>Break-even after costs\<close>

lemma one_plus_ctx:
  assumes "0 \<le> c"
  shows "(1 + c) * ((1 - half_ulp) * (1 - half_ulp)) \<le> ctx (1 + ctx c)"
proof -
  let ?k = "1 - half_ulp"
  have k: "0 \<le> ?k" "?k \<le> 1" using half_ulp_bounds by simp_all
  have "(1 + c) * ?k \<le> 1 + ctx c" using ctx_lower [OF assms] k by (simp add: algebra_simps)
  then have "(1 + c) * ?k * ?k \<le> (1 + ctx c) * ?k" using k(1) by (rule mult_right_mono)
  also have "\<dots> \<le> ctx (1 + ctx c)" using ctx_lower ctx_nonneg [OF assms] by simp
  finally show ?thesis by (simp only: mult.assoc)
qed

lemma one_minus_ctx:
  assumes "0 \<le> x" "x \<le> 4 / 100"
  shows "ctx (1 - ctx x) \<le> (1 - x) * ((1 + half_ulp) * (1 + half_ulp))" and "0 < ctx (1 - ctx x)"
proof -
  let ?h = "1 + half_ulp"
  have u: "0 < half_ulp" "half_ulp < 1" by (fact half_ulp_bounds)+
  have "ctx x \<le> x * (1 + half_ulp)" using assms(1) by (rule ctx_upper)
  also have "\<dots> \<le> x * 2" using assms(1) u by (intro mult_left_mono) simp_all
  finally have lt: "ctx x < 1" using assms(2) by simp
  then show "0 < ctx (1 - ctx x)" by (intro ctx_pos) simp
  have "x * half_ulp \<le> (1 - x) * half_ulp" using assms u by (intro mult_right_mono) simp_all
  moreover have "x * (1 - half_ulp) \<le> ctx x" using assms(1) by (rule ctx_lower)
  ultimately have "1 - ctx x \<le> (1 - x) * ?h" by (simp add: algebra_simps)
  then have "(1 - ctx x) * ?h \<le> (1 - x) * ?h * ?h" using u by (intro mult_right_mono) simp_all
  with ctx_upper [of "1 - ctx x"] lt have "ctx (1 - ctx x) \<le> (1 - x) * ?h * ?h" by simp
  then show "ctx (1 - ctx x) \<le> (1 - x) * (?h * ?h)" by (simp only: mult.assoc)
qed

lemma one_plus_ctx_upper:
  assumes "0 \<le> l" shows "ctx (1 + l) \<le> (1 + l) * (1 + half_ulp)" using ctx_upper assms by simp

lemma rounding_budget:
  "1 - 1 / 10 ^ 26 \<le> (1 - half_ulp) ^ 6 / (1 + half_ulp) ^ 2"
  "(1 + half_ulp) ^ 6 / (1 - half_ulp) ^ 2 \<le> 1 + 1 / 10 ^ 26"
  by (simp_all add: half_ulp_def power_divide)

lemma collect_powers:
  fixes a b k h y :: rat
  assumes "y \<noteq> 0" "h \<noteq> 0"
  shows "a * k ^ 3 / (y * h ^ 2) * k * (b * k) * k * y = a * b * (k ^ 6 / h ^ 2)"
  using assms by (simp add: field_simps eval_nat_numeral)

lemma break_even_long_bound:
  assumes e: "0 < e" and c: "0 \<le> c" and x: "0 \<le> x" "x \<le> 4 / 100" and l: "0 \<le> l"
    and t: "break_even_long e (ctx c) (ctx x) l = (t, net)"
  shows "e * (1 + c) * (1 + l) * (1 - 1 / 10 ^ 26) \<le> t * (1 - x)"
proof -
  let ?k = "1 - half_ulp" and ?h = "1 + half_ulp"
  have k: "0 < ?k" "0 < ?h" using half_ulp_bounds by simp_all
  define cost where "cost = ctx (e * ctx (1 + ctx c))"
  define q where "q = ctx (1 - ctx x)"
  have tt: "t = ctx (ctx (cost / q) * ctx (1 + l))"
    using t by (simp add: break_even_long_def Let_def cost_def q_def)
  have p: "0 \<le> e * ctx (1 + ctx c)" using e ctx_nonneg [of "1 + ctx c"] ctx_nonneg [OF c] by simp
  have "e * ((1 + c) * (?k * ?k)) * ?k \<le> e * ctx (1 + ctx c) * ?k"
    using one_plus_ctx [OF c] e k by (intro mult_right_mono mult_left_mono) simp_all
  also have "\<dots> \<le> cost" unfolding cost_def using p by (rule ctx_lower)
  finally have cost: "e * (1 + c) * ?k ^ 3 \<le> cost" by (simp add: power3_eq_cube algebra_simps)
  have q: "q \<le> (1 - x) * ?h ^ 2" "0 < q" using one_minus_ctx [OF x] by (simp_all add: q_def power2_eq_square)
  have x1: "0 < 1 - x" using x by simp
  have num: "0 \<le> e * (1 + c) * ?k ^ 3" using e c k by simp
  have "e * (1 + c) * ?k ^ 3 / ((1 - x) * ?h ^ 2) \<le> cost / q"
    using cost q num k x1 by (intro frac_le) simp_all
  then have "e * (1 + c) * ?k ^ 3 / ((1 - x) * ?h ^ 2) * ?k \<le> cost / q * ?k" using k by (intro mult_right_mono) simp_all
  also have "\<dots> \<le> ctx (cost / q)" using cost num q by (intro ctx_lower) (simp add: order_trans [OF num cost])
  finally have a: "e * (1 + c) * ?k ^ 3 / ((1 - x) * ?h ^ 2) * ?k \<le> ctx (cost / q)" .
  have b: "(1 + l) * ?k \<le> ctx (1 + l)" using l by (intro ctx_lower) simp
  have "e * (1 + c) * ?k ^ 3 / ((1 - x) * ?h ^ 2) * ?k * ((1 + l) * ?k) \<le> ctx (cost / q) * ctx (1 + l)"
    using a b num k l x1 by (intro mult_mono) (auto intro!: ctx_nonneg simp: order_trans [OF num cost] less_imp_le [OF q(2)])
  then have "e * (1 + c) * ?k ^ 3 / ((1 - x) * ?h ^ 2) * ?k * ((1 + l) * ?k) * ?k \<le> ctx (cost / q) * ctx (1 + l) * ?k"
    using k by (intro mult_right_mono) simp_all
  also have "\<dots> \<le> t" unfolding tt using l q order_trans [OF num cost]
    by (intro ctx_lower mult_nonneg_nonneg ctx_nonneg) simp_all
  finally have "e * (1 + c) * ?k ^ 3 / ((1 - x) * ?h ^ 2) * ?k * ((1 + l) * ?k) * ?k * (1 - x) \<le> t * (1 - x)"
    using x1 by (intro mult_right_mono) simp_all
  also have "e * (1 + c) * ?k ^ 3 / ((1 - x) * ?h ^ 2) * ?k * ((1 + l) * ?k) * ?k * (1 - x) =
      e * (1 + c) * (1 + l) * (?k ^ 6 / ?h ^ 2)"
    using x1 k by (intro collect_powers) simp_all
  finally have f: "e * (1 + c) * (1 + l) * (?k ^ 6 / ?h ^ 2) \<le> t * (1 - x)" .
  have "e * (1 + c) * (1 + l) * (1 - 1 / 10 ^ 26) \<le> e * (1 + c) * (1 + l) * (?k ^ 6 / ?h ^ 2)"
    using e c l rounding_budget(1) by (intro mult_left_mono) simp_all
  with f show ?thesis by (rule order_trans [rotated])
qed

lemma break_even_short_bound:
  assumes e: "0 < e" and c: "0 \<le> c" "c \<le> 4 / 100" and x: "0 \<le> x" and l: "0 \<le> l" "l \<le> 5 / 100"
    and t: "break_even_short e (ctx c) (ctx x) l = (t, net)"
  shows "t * (1 + x) \<le> e * (1 - c) * (1 - l) * (1 + 1 / 10 ^ 26)"
proof -
  let ?k = "1 - half_ulp" and ?h = "1 + half_ulp"
  have k: "0 < ?k" "0 < ?h" using half_ulp_bounds by simp_all
  define gain where "gain = ctx (e * ctx (1 - ctx c))"
  define q where "q = ctx (1 + ctx x)"
  have tt: "t = ctx (ctx (gain / q) * ctx (1 - l))"
    using t by (simp add: break_even_short_def Let_def gain_def q_def)
  note c1 = one_minus_ctx [OF c]
  have p: "0 \<le> e * ctx (1 - ctx c)" using e c1(2) by simp
  have g0: "0 \<le> gain" unfolding gain_def by (rule ctx_nonneg [OF p])
  have "gain \<le> e * ctx (1 - ctx c) * ?h" unfolding gain_def using p by (rule ctx_upper)
  also have "\<dots> \<le> e * ((1 - c) * (?h * ?h)) * ?h"
    using c1(1) e k by (intro mult_right_mono mult_left_mono) simp_all
  finally have gain: "gain \<le> e * (1 - c) * ?h ^ 3" by (simp add: power3_eq_cube algebra_simps)
  have q: "(1 + x) * ?k ^ 2 \<le> q" using one_plus_ctx [OF x] by (simp add: q_def power2_eq_square)
  have x1: "0 < 1 + x" using x by simp
  have qpos: "0 < (1 + x) * ?k ^ 2" using x1 k by simp
  have gq: "gain / q \<le> e * (1 - c) * ?h ^ 3 / ((1 + x) * ?k ^ 2)"
    using gain q qpos g0 by (intro frac_le) simp_all
  have gq0: "0 \<le> gain / q" using g0 q qpos by simp
  have "ctx (gain / q) \<le> gain / q * ?h" using gq0 by (rule ctx_upper)
  also have "\<dots> \<le> e * (1 - c) * ?h ^ 3 / ((1 + x) * ?k ^ 2) * ?h" using gq k by (intro mult_right_mono) simp_all
  finally have a: "ctx (gain / q) \<le> e * (1 - c) * ?h ^ 3 / ((1 + x) * ?k ^ 2) * ?h" .
  have b: "ctx (1 - l) \<le> (1 - l) * ?h" using l by (intro ctx_upper) simp
  have l0: "0 \<le> ctx (1 - l)" using l by (intro ctx_nonneg) simp
  have "t \<le> ctx (gain / q) * ctx (1 - l) * ?h" unfolding tt using gq0 l0 ctx_nonneg by (intro ctx_upper) simp
  also have "\<dots> \<le> e * (1 - c) * ?h ^ 3 / ((1 + x) * ?k ^ 2) * ?h * ((1 - l) * ?h) * ?h"
    using a b k l0 ctx_nonneg [OF gq0] by (intro mult_right_mono mult_mono) auto
  finally have "t * (1 + x) \<le> e * (1 - c) * ?h ^ 3 / ((1 + x) * ?k ^ 2) * ?h * ((1 - l) * ?h) * ?h * (1 + x)"
    using x1 by (intro mult_right_mono) simp_all
  also have "\<dots> = e * (1 - c) * (1 - l) * (?h ^ 6 / ?k ^ 2)" using x1 k by (intro collect_powers) simp_all
  also have "\<dots> \<le> e * (1 - c) * (1 - l) * (1 + 1 / 10 ^ 26)"
    using e c l rounding_budget(2) by (intro mult_left_mono) simp_all
  finally show ?thesis .
qed

lemma calculate_break_even_Inr:
  assumes "calculate_break_even_target entry side f1 f2 s l = Inr (t, ev)"
  shows "\<exists>e a b c d. map dec_of_json [entry, f1, f2, s, l] = [Some e, Some a, Some b, Some c, Some d] \<and>
    0 < dec_val e \<and> list_all (\<lambda>v. 0 \<le> dec_val v \<and> dec_val v \<le> 2 / 100) [a, b, c] \<and> 0 \<le> dec_val d \<and> dec_val d \<le> 5 / 100 \<and>
    (py_lower side = ''long'' \<and>
       fst (break_even_long (dec_val e) (ctx (dec_val a + dec_val c)) (ctx (dec_val b + dec_val c)) (dec_val d)) = t \<or>
     py_lower side = ''short'' \<and>
       fst (break_even_short (dec_val e) (ctx (dec_val a + dec_val c)) (ctx (dec_val b + dec_val c)) (dec_val d)) = t)"
proof -
  have five: "mapE f [x1, x2, x3, x4, x5] = Inr vs \<longleftrightarrow> (\<exists>y1 y2 y3 y4 y5. vs = [y1, y2, y3, y4, y5] \<and>
      f x1 = Inr y1 \<and> f x2 = Inr y2 \<and> f x3 = Inr y3 \<and> f x4 = Inr y4 \<and> f x5 = Inr y5)"
    for f :: "json \<Rightarrow> decimal result" and x1 x2 x3 x4 x5 vs by (auto simp: bindE_eq_Inr)
  have pd: "parse_decimal m v = Inr y \<longleftrightarrow> dec_of_json v = Some y" for m v y
    by (cases "dec_of_json v") (simp_all add: parse_decimal_def)
  from assms show ?thesis
    unfolding calculate_break_even_target_def Let_def
    by (simp only: bindE_eq_Inr five pd reject_Inr sum.inject split_beta)
      (elim exE conjE, simp add: not_le not_less fst_def snd_def split: if_splits prod.splits,
       auto simp: bindE_eq_Inr)
qed

lemma offset_side:
  fixes e p v d :: rat
  assumes "d < e * p"
  shows "\<bar>v - e * (1 + p)\<bar> \<le> d \<Longrightarrow> e < v" and "\<bar>v - e * (1 - p)\<bar> \<le> d \<Longrightarrow> v < e"
  using assms by (auto simp: algebra_simps abs_le_iff)

subsection \<open>Properties\<close>

text \<open>C37: A rule that normalisation accepts is stored with a canonical definition: a known
  purpose and style, a non-empty trigger that is the expression itself, and an action whose type is
  permitted for the purpose; only a reduction has a quantity fraction, strictly between 0 and 1, with
  a basis of initial or remaining quantity. Every other metadata entry is kept.\<close>

theorem normalized_rule_is_canonical:
  assumes "normalize_position_rule purpose expression enabled metadata = Inr m"
  shows "(\<exists>d. tget m ''rule_definition'' = Some (JObj d) \<and> canonical_rule purpose expression enabled d) \<and>
    (\<forall>k. k = ''rule_definition'' \<or> tget m k = tget metadata k)"
  using normalize_rule_canonical [OF assms] normalize_rule_keeps [OF assms] by blast

definition sample_expression :: json where
  "sample_expression = JObj [(''type'', JStr ''price_above''), (''symbol'', JStr ''BTC-USDT-SWAP''), (''value'', JInt 70000)]"

definition sample_metadata :: jobj where
  "sample_metadata = [(''quantity_fraction'', JFloat (PFin (1/4))), (''note'', JStr ''first target'')]"

lemma sample_rule_accepted: "\<exists>m. normalize_position_rule ''take_profit'' sample_expression True sample_metadata = Inr m"
proof -
  have "is_ok (normalize_position_rule ''take_profit'' sample_expression True sample_metadata)" by code_simp
  then show ?thesis by (simp add: is_ok_iff)
qed

theorem normalized_rule_is_canonical_witness:
  "\<exists>m d. normalize_position_rule ''take_profit'' sample_expression True sample_metadata = Inr m \<and>
     tget m ''rule_definition'' = Some (JObj d) \<and> canonical_rule ''take_profit'' sample_expression True d"
  using sample_rule_accepted normalized_rule_is_canonical by blast

text \<open>The default rules of a strategy can be staged, but never oversell. Every stored close
  condition is canonical, the fractions of the enabled reductions measured on the initial quantity
  add up to at most the whole position (up to the tolerance of \<^verbatim>\<open>1e-12\<close>), and the recorded
  running remainder is what they leave.\<close>

theorem staged_take_profit_within_position:
  assumes "normalize_default_rules rules = Inr r"
  shows "\<exists>items. jget r ''close_conditions'' = JList (map JObj items) \<and> list_all item_ok items \<and>
    staged_total items \<le> 1 + 1 / 10 ^ 12 \<and>
    tget r ''staged_take_profit'' = (if staged_total items = 0 then None else Some (JObj
        [(''initial_quantity_fraction'', JFloat (PFin (staged_total items))),
         (''running_remainder_fraction'', JFloat (PFin (max 0 (1 - staged_total items))))]))"
  using normalize_default_rules_Inr [OF assms] by metis

definition sample_defaults :: jobj where
  "sample_defaults = [(''close_conditions'', JList [JObj [(''purpose'', JStr ''take_profit''),
     (''expression'', sample_expression), (''metadata'', JObj sample_metadata)]])]"

theorem staged_take_profit_within_position_witness:
  "\<exists>r items. normalize_default_rules sample_defaults = Inr r \<and>
    jget r ''close_conditions'' = JList (map JObj items) \<and> staged_total items \<le> 1 + 1 / 10 ^ 12"
proof -
  have "is_ok (normalize_default_rules sample_defaults)" by code_simp
  then obtain r where r: "normalize_default_rules sample_defaults = Inr r" by (auto simp: is_ok_iff)
  show ?thesis using staged_take_profit_within_position [OF r] r by blast
qed

text \<open>C39: A percentage rule is materialised on the protective side of the entry. A stop of a long
  or a target of a short triggers below, the others above; the price, a double,
  is the entry moved by the offset up to \<^verbatim>\<open>1e-15\<close> of the entry, and for every offset larger than
  that it lies strictly on its side.\<close>

theorem fixed_percent_materialized:
  assumes m: "materialize_position_rule rule entry_price inst_id side basis = Inr r"
    and style: "source_style (template_of r) = ''fixed_percent''"
  shows "\<exists>entry off v up. dec_of_json entry_price = Some entry \<and>
    dec_of_json (jget (as_obj (jget (template_of r) ''parameters'')) ''offset_pct'') = Some off \<and>
    up = ((py_lower side = ''long'') = (jget r ''purpose'' = JStr ''take_profit'')) \<and>
    jget r ''expression'' = trigger_json up inst_id v \<and>
    \<bar>v - dec_val entry * (if up then 1 + dec_val off else 1 - dec_val off)\<bar> \<le> dec_val entry / 10 ^ 15 \<and>
    (1 / 10 ^ 15 < dec_val off \<longrightarrow> (if up then dec_val entry < v else v < dec_val entry))"
proof -
  obtain entry where e: "dec_of_json entry_price = Some entry" "dec_finite entry" "0 < dec_val entry"
    and side: "py_lower side = ''long'' \<or> py_lower side = ''short''"
    and t: "materialize_trigger (source_style (template_of r)) (source_purpose (template_of r) rule) (py_lower side) inst_id
      basis entry (as_obj (jget (template_of r) ''parameters'')) (source_trigger (template_of r) rule)
      (jget (template_of r) ''evidence'') = Inr (jget r ''expression'')"
    and p: "jget r ''purpose'' = JStr (source_purpose (template_of r) rule)"
    using materialize_Inr [OF m] by blast
  obtain tr where tr: "materialize_fixed_percent (source_purpose (template_of r) rule) (py_lower side) inst_id entry
      (as_obj (jget (template_of r) ''parameters'')) = Inr tr" "jget r ''expression'' = JObj tr"
    using t unfolding style materialize_trigger_def by (auto simp: bindE_eq_Inr)
  obtain off v up where o: "dec_of_json (jget (as_obj (jget (template_of r) ''parameters'')) ''offset_pct'') = Some off"
    and up: "up = ((py_lower side = ''long'') = (source_purpose (template_of r) rule = ''take_profit''))"
    and v: "JObj tr = trigger_json up inst_id v"
    and d: "\<bar>v - dec_val entry * (if up then 1 + dec_val off else 1 - dec_val off)\<bar> \<le> dec_val entry / 10 ^ 15"
    using fixed_percent_Inr [OF tr(1) e(2,3) side] by blast
  have "if up then dec_val entry < v else v < dec_val entry" if "1 / 10 ^ 15 < dec_val off"
  proof -
    have "dec_val entry * (1 / 10 ^ 15) < dec_val entry * dec_val off" using that e(3) by (rule mult_strict_left_mono)
    then have o: "dec_val entry / 10 ^ 15 < dec_val entry * dec_val off" by (simp only: times_divide_eq_right mult_1_right)
    show ?thesis using d offset_side [OF o] by (cases up) (simp_all only: if_True if_False)
  qed
  with e o up v d tr(2) p show ?thesis by (intro exI [of _ entry] exI [of _ off] exI [of _ v] exI [of _ up]) simp
qed

definition stop_rule :: jobj where
  "stop_rule = [(''purpose'', JStr ''stop_loss''), (''expression'', sample_expression),
     (''metadata'', JObj [(''rule_definition'', JObj [(''style'', JStr ''fixed_percent''), (''purpose'', JStr ''stop_loss''),
        (''trigger'', sample_expression), (''enabled'', JBool True), (''parameters'', JObj [(''offset_pct'', JStr ''0.02'')])])])]"

lemma stop_rule_materialized:
  "\<exists>r. materialize_position_rule stop_rule (JInt 60000) ''BTC-USDT-SWAP'' ''long'' ''confirmed_entry'' = Inr r \<and>
     source_style (template_of r) = ''fixed_percent'' \<and> complete_template (template_of r) \<and>
     jget r ''purpose'' = JStr ''stop_loss''"
proof -
  have "(case materialize_position_rule stop_rule (JInt 60000) ''BTC-USDT-SWAP'' ''long'' ''confirmed_entry'' of
      Inl _ \<Rightarrow> False | Inr r \<Rightarrow> source_style (template_of r) = ''fixed_percent'' \<and> complete_template (template_of r) \<and>
     jget r ''purpose'' = JStr ''stop_loss'')"
    by code_simp
  then show ?thesis by (auto split: sum.splits)
qed

theorem fixed_percent_materialized_witness:
  "\<exists>r v. materialize_position_rule stop_rule (JInt 60000) ''BTC-USDT-SWAP'' ''long'' ''confirmed_entry'' = Inr r \<and>
    jget r ''expression'' = trigger_json False ''BTC-USDT-SWAP'' v \<and> v < 60000"
proof -
  obtain r where r: "materialize_position_rule stop_rule (JInt 60000) ''BTC-USDT-SWAP'' ''long'' ''confirmed_entry'' = Inr r"
    "source_style (template_of r) = ''fixed_percent''" "jget r ''purpose'' = JStr ''stop_loss''"
    using stop_rule_materialized by blast
  have o: "dec_of_json (jget (as_obj (jget (template_of r) ''parameters'')) ''offset_pct'') = Some (Dec 2 (- 2))"
  proof -
    have "(case materialize_position_rule stop_rule (JInt 60000) ''BTC-USDT-SWAP'' ''long'' ''confirmed_entry'' of
      Inl _ \<Rightarrow> False | Inr r \<Rightarrow> dec_of_json (jget (as_obj (jget (template_of r) ''parameters'')) ''offset_pct'') = Some (Dec 2 (- 2)))"
      by code_simp
    with r show ?thesis by simp
  qed
  have l: "py_lower ''long'' = ''long''" by code_simp
  have "dec_val (Dec 2 (- 2)) = 2 / 100" by code_simp
  then show ?thesis using fixed_percent_materialized [OF r(1,2)] r o l by (auto simp: pow10_0)
qed

text \<open>A fixed or evidence-based target is materialised at the double nearest the requested price and
  only on the correct side of a confirmed entry, never across the double nearest the entry: below for the
  stop of a long and the target of a short, above for the others.\<close>

theorem target_price_materialized:
  assumes m: "materialize_position_rule rule entry_price inst_id side basis = Inr r"
    and style: "source_style (template_of r) = ''fixed_price'' \<or> source_style (template_of r) = ''evidence_target''"
    and basis: "basis \<noteq> ''validation_reference''"
  shows "\<exists>entry v up. dec_of_json entry_price = Some entry \<and>
    up = ((py_lower side = ''long'') = (jget r ''purpose'' = JStr ''take_profit'')) \<and>
    jget r ''expression'' = trigger_json up inst_id v \<and> 0 < v \<and>
    (if up then float_decimal (dec_val entry) \<le> v else v \<le> float_decimal (dec_val entry))"
proof -
  obtain entry where e: "dec_of_json entry_price = Some entry" "dec_finite entry"
    and side: "py_lower side = ''long'' \<or> py_lower side = ''short''"
    and t: "materialize_trigger (source_style (template_of r)) (source_purpose (template_of r) rule) (py_lower side) inst_id
      basis entry (as_obj (jget (template_of r) ''parameters'')) (source_trigger (template_of r) rule)
      (jget (template_of r) ''evidence'') = Inr (jget r ''expression'')"
    and p: "jget r ''purpose'' = JStr (source_purpose (template_of r) rule)"
    using materialize_Inr [OF m] by blast
  have "\<exists>tr. materialize_target_price (source_style (template_of r)) (source_purpose (template_of r) rule) (py_lower side) inst_id
      basis entry (as_obj (jget (template_of r) ''parameters'')) (source_trigger (template_of r) rule)
      (jget (template_of r) ''evidence'') = Inr tr \<and> jget r ''expression'' = JObj tr"
    using t style unfolding materialize_trigger_def by (elim disjE) (simp_all add: bindE_eq_Inr, metis+)
  then show ?thesis using target_price_Inr [OF _ e(2) side basis] e(1) p by fastforce
qed

definition target_rule :: jobj where
  "target_rule = [(''purpose'', JStr ''take_profit''), (''expression'', sample_expression),
     (''metadata'', JObj [(''rule_definition'', JObj [(''style'', JStr ''fixed_price''), (''purpose'', JStr ''take_profit''),
        (''trigger'', sample_expression), (''enabled'', JBool True), (''parameters'', JObj [(''target_price'', JInt 58000)])])])]"

theorem target_price_materialized_witness:
  "\<exists>r v. materialize_position_rule target_rule (JInt 60000) ''BTC-USDT-SWAP'' ''short'' ''confirmed_entry'' = Inr r \<and>
    jget r ''expression'' = trigger_json False ''BTC-USDT-SWAP'' v \<and> 0 < v \<and> v \<le> float_decimal 60000"
proof -
  have "(case materialize_position_rule target_rule (JInt 60000) ''BTC-USDT-SWAP'' ''short'' ''confirmed_entry'' of
      Inl _ \<Rightarrow> False | Inr r \<Rightarrow> source_style (template_of r) = ''fixed_price'' \<and> jget r ''purpose'' = JStr ''take_profit'')"
    by code_simp
  then obtain r where r: "materialize_position_rule target_rule (JInt 60000) ''BTC-USDT-SWAP'' ''short'' ''confirmed_entry'' = Inr r"
    "source_style (template_of r) = ''fixed_price''" "jget r ''purpose'' = JStr ''take_profit''" by (auto split: sum.splits)
  have l: "py_lower ''short'' = ''short''" by code_simp
  show ?thesis using target_price_materialized [OF r(1)] r l by (auto simp: pow10_0)
qed

text \<open>Materialising is repeatable. A rule that was materialised against one entry (the
  reference price) keeps its template, so materialising the result against another entry, side or
  basis gives exactly what materialising the original rule would have given.\<close>

theorem materialize_again:
  assumes "materialize_position_rule rule e1 inst1 side1 basis1 = Inr r" and "complete_template (template_of r)"
  shows "materialize_position_rule r e2 inst2 side2 basis2 = materialize_position_rule rule e2 inst2 side2 basis2"
  by (rule materialize_rebase [OF assms])

theorem materialize_again_witness:
  "\<exists>r. materialize_position_rule stop_rule (JInt 60000) ''BTC-USDT-SWAP'' ''long'' ''confirmed_entry'' = Inr r \<and>
    materialize_position_rule r (JInt 61000) ''BTC-USDT-SWAP'' ''long'' ''confirmed_entry'' =
    materialize_position_rule stop_rule (JInt 61000) ''BTC-USDT-SWAP'' ''long'' ''confirmed_entry''"
  using stop_rule_materialized materialize_again by blast

text \<open>C38: Closing at the break-even target recovers the costs. After entry fee, exit fee and
  slippage on both legs, closing a long at the target returns at least what was paid plus the
  locked-in share, and closing a short costs at most what was received less that share, up to
  \<^verbatim>\<open>1e-26\<close> relative rounding of the 28-digit decimal arithmetic.\<close>

theorem break_even_target_covers_costs:
  assumes "calculate_break_even_target entry side entry_fee exit_fee slippage lock_in = Inr (t, ev)"
  shows "\<exists>e a b c d. map dec_of_json [entry, entry_fee, exit_fee, slippage, lock_in] =
      [Some e, Some a, Some b, Some c, Some d] \<and>
    (py_lower side = ''long'' \<and>
       dec_val e * (1 + (dec_val a + dec_val c)) * (1 + dec_val d) * (1 - 1 / 10 ^ 26) \<le> t * (1 - (dec_val b + dec_val c)) \<or>
     py_lower side = ''short'' \<and>
       t * (1 + (dec_val b + dec_val c)) \<le> dec_val e * (1 - (dec_val a + dec_val c)) * (1 - dec_val d) * (1 + 1 / 10 ^ 26))"
proof -
  obtain e a b c d where m: "map dec_of_json [entry, entry_fee, exit_fee, slippage, lock_in] =
      [Some e, Some a, Some b, Some c, Some d]"
    and r: "0 < dec_val e" "list_all (\<lambda>v. 0 \<le> dec_val v \<and> dec_val v \<le> 2 / 100) [a, b, c]" "0 \<le> dec_val d" "dec_val d \<le> 5 / 100"
    and t: "py_lower side = ''long'' \<and>
       fst (break_even_long (dec_val e) (ctx (dec_val a + dec_val c)) (ctx (dec_val b + dec_val c)) (dec_val d)) = t \<or>
     py_lower side = ''short'' \<and>
       fst (break_even_short (dec_val e) (ctx (dec_val a + dec_val c)) (ctx (dec_val b + dec_val c)) (dec_val d)) = t"
    using calculate_break_even_Inr [OF assms] by (elim exE conjE) (rule that)
  have ac: "0 \<le> dec_val a + dec_val c" "dec_val a + dec_val c \<le> 4 / 100"
    and bc: "0 \<le> dec_val b + dec_val c" "dec_val b + dec_val c \<le> 4 / 100" using r(2) by simp_all
  note long = break_even_long_bound [OF r(1) ac(1) bc r(3) prod.collapse [symmetric]]
  note short = break_even_short_bound [OF r(1) ac bc(1) r(3,4) prod.collapse [symmetric]]
  from t show ?thesis
  proof (elim disjE conjE)
    assume s: "py_lower side = ''long''" and "fst (break_even_long (dec_val e) (ctx (dec_val a + dec_val c))
      (ctx (dec_val b + dec_val c)) (dec_val d)) = t"
    with long have "dec_val e * (1 + (dec_val a + dec_val c)) * (1 + dec_val d) * (1 - 1 / 10 ^ 26) \<le> t * (1 - (dec_val b + dec_val c))"
      by (simp only:)
    with m s show ?thesis by (intro exI conjI) (assumption, rule disjI1, rule conjI)
  next
    assume s: "py_lower side = ''short''" and "fst (break_even_short (dec_val e) (ctx (dec_val a + dec_val c))
      (ctx (dec_val b + dec_val c)) (dec_val d)) = t"
    with short have "t * (1 + (dec_val b + dec_val c)) \<le> dec_val e * (1 - (dec_val a + dec_val c)) * (1 - dec_val d) * (1 + 1 / 10 ^ 26)"
      by (simp only:)
    with m s show ?thesis by (intro exI conjI) (assumption, rule disjI2, rule conjI)
  qed
qed

theorem break_even_target_covers_costs_witness:
  "\<exists>ev. calculate_break_even_target (JInt 100) ''long'' (JStr ''0.01'') (JStr ''0'') (JStr ''0'') (JStr ''0.01'') =
      Inr (10201 / 100, ev) \<and> 100 * (1 + 1/100) * (1 + 1/100) * (1 - 1 / 10 ^ 26) \<le> (10201 / 100 :: rat)"
proof -
  have "(case calculate_break_even_target (JInt 100) ''long'' (JStr ''0.01'') (JStr ''0'') (JStr ''0'') (JStr ''0.01'') of
     Inl _ \<Rightarrow> False | Inr (t, ev) \<Rightarrow> t = 10201 / 100)" by code_simp
  then obtain ev where ev: "calculate_break_even_target (JInt 100) ''long'' (JStr ''0.01'') (JStr ''0'') (JStr ''0'') (JStr ''0.01'')
      = Inr (10201 / 100, ev)" by (auto split: sum.splits prod.splits)
  have d: "map dec_of_json [JInt 100, JStr ''0.01'', JStr ''0'', JStr ''0'', JStr ''0.01''] =
      [Some (Dec 100 0), Some (Dec 1 (- 2)), Some (Dec 0 0), Some (Dec 0 0), Some (Dec 1 (- 2))]" by code_simp
  have l: "py_lower ''long'' = ''long''" by code_simp
  have p: "dec_val (Dec 1 (- 2)) = 1 / 100" by code_simp
  show ?thesis using break_even_target_covers_costs [OF ev] ev unfolding d l by (auto simp: p simp del: dec_val.simps(1)) 
qed

end
