(* ===== verification/PositionStoreProperties.thy ===== *)
theory PositionStoreProperties
  imports PositionStore PositionRuleProperties
begin

section \<open>The logical position store: invariant and properties\<close>

text \<open>
  The invariant of the store (keys and references, nonnegative quantities, unique client and
  protection identities, canonical close conditions), that every operation keeps it, that the ledger
  of fills and order links is append-only, and what the operations on fills and pending executions
  promise.
\<close>

subsection \<open>The invariant\<close>

definition quantities_ok :: "position \<Rightarrow> bool" where
  "quantities_ok p \<longleftrightarrow> 0 \<le> or_default (p_opened p) 0 \<and> 0 \<le> or_default (p_remaining p) 0"

definition positions_ok :: "(string, position) table \<Rightarrow> bool" where
  "positions_ok t \<longleftrightarrow> distinct (map fst t) \<and> (\<forall>(k, p)\<in>set t. p_id p = k \<and> quantities_ok p) \<and>
     (\<forall>(k, p)\<in>set t. \<forall>(k', q)\<in>set t. k \<noteq> k' \<longrightarrow> p_client_order_id p = p_client_order_id q \<longrightarrow> p_client_order_id p = [])"

definition allocations_ok :: "string set \<Rightarrow> (string, allocation) table \<Rightarrow> bool" where
  "allocations_ok D t \<longleftrightarrow> distinct (map fst t) \<and>
     (\<forall>(k, a)\<in>set t. al_id a = k \<and> al_position_id a \<in> D \<and> 0 \<le> al_quantity a)"

definition orders_ok :: "string set \<Rightarrow> (string, order_link) table \<Rightarrow> bool" where
  "orders_ok D t \<longleftrightarrow> distinct (map fst t) \<and>
     (\<forall>(k, ol)\<in>set t. k \<noteq> [] \<and> ol_position_id ol \<in> D \<and> ol_action ol \<in> {AOpen, AReduce, AClose})"

definition condition_ok :: "condition \<Rightarrow> bool" where
  "condition_ok c \<longleftrightarrow> (\<exists>d. tget (col_obj (c_metadata c)) ''rule_definition'' = Some (JObj d) \<and>
     canonical_rule (c_purpose c) (JObj (col_obj (c_expression c))) (c_enabled c) d)"

definition conditions_ok :: "string set \<Rightarrow> (string, condition) table \<Rightarrow> bool" where
  "conditions_ok D t \<longleftrightarrow> distinct (map fst t) \<and>
     (\<forall>(k, c)\<in>set t. c_id c = k \<and> c_position_id c \<in> D \<and> condition_ok c)"

definition same_algo :: "protection \<Rightarrow> protection \<Rightarrow> bool" where
  "same_algo p q \<longleftrightarrow> pr_algo_id p = pr_algo_id q \<or> pr_algo_client_order_id p = pr_algo_client_order_id q \<or>
     pr_trigger_order_id p \<noteq> [] \<and> pr_trigger_order_id p = pr_trigger_order_id q"

definition protection_ok :: "protection \<Rightarrow> bool" where
  "protection_ok pr \<longleftrightarrow> pr_algo_id pr \<noteq> [] \<and> pr_algo_client_order_id pr \<noteq> [] \<and> 0 < pr_quantity pr \<and> 0 < pr_stop_loss pr"

definition protections_ok :: "string set \<Rightarrow> (string, protection) table \<Rightarrow> bool" where
  "protections_ok D t \<longleftrightarrow> distinct (map fst t) \<and>
     (\<forall>(k, pr)\<in>set t. pr_position_id pr = k \<and> k \<in> D \<and> protection_ok pr) \<and>
     (\<forall>(k, p)\<in>set t. \<forall>(k', q)\<in>set t. k \<noteq> k' \<longrightarrow> \<not> same_algo p q)"

definition position_ids :: "store \<Rightarrow> string set" where
  "position_ids st = set (map fst (st_positions st))"

definition store_ok :: "store \<Rightarrow> bool" where
  "store_ok st \<longleftrightarrow> positions_ok (st_positions st) \<and> allocations_ok (position_ids st) (st_allocations st) \<and>
     orders_ok (position_ids st) (st_orders st) \<and> conditions_ok (position_ids st) (st_conditions st) \<and>
     protections_ok (position_ids st) (st_protections st)"

subsection \<open>Writes keep the invariant\<close>

lemma ps_get_iff: "ps_get st k = None \<longleftrightarrow> k \<notin> position_ids st"
  by (simp add: ps_get_def position_ids_def map_of_eq_None_iff)

lemma ps_get_in: "ps_get st k = Some p \<Longrightarrow> k \<in> position_ids st"
  using ps_get_iff [of st k] by simp

lemma ps_getD:
  assumes "store_ok st" "ps_get st k = Some p"
  shows "p_id p = k" and "quantities_ok p"
proof -
  have "(k, p) \<in> set (st_positions st)" using assms(2) map_of_SomeD unfolding ps_get_def by fast
  moreover have "\<forall>(k, p)\<in>set (st_positions st). p_id p = k \<and> quantities_ok p"
    using assms(1) unfolding store_ok_def positions_ok_def by (elim conjE)
  ultimately show "p_id p = k" and "quantities_ok p" by fast+
qed

lemma client_free:
  assumes ok: "store_ok st" and p: "ps_get st k = Some p" and c: "cid = [] \<or> cid = p_client_order_id p"
  shows "\<not> client_taken st k cid"
proof
  assume "client_taken st k cid"
  then obtain k' q where q: "cid \<noteq> []" "(k', q) \<in> set (st_positions st)" "k' \<noteq> k" "p_client_order_id q = cid"
    by (auto simp: client_taken_def list_ex_iff)
  moreover have "(k, p) \<in> set (st_positions st)" using p map_of_SomeD unfolding ps_get_def by fast
  ultimately have "p_client_order_id q = []"
    using ok c unfolding store_ok_def positions_ok_def by auto
  with q show False by simp
qed

lemma position_ids_put [simp]:
  "position_ids (put_position p st) = insert (p_id p) (position_ids st)"
  by (auto simp: position_ids_def put_position_def keys_tset simp del: set_map)

lemma put_position_simps [simp]:
  "st_allocations (put_position p st) = st_allocations st" "st_orders (put_position p st) = st_orders st"
  "st_conditions (put_position p st) = st_conditions st" "st_protections (put_position p st) = st_protections st"
  "st_positions (put_position p st) = tset (p_id p) p (st_positions st)"
  by (simp_all add: put_position_def)

lemma ps_get_put [simp]: "ps_get (put_position p st) k = (if k = p_id p then Some p else ps_get st k)"
  by (simp add: ps_get_def)

lemma references_mono:
  assumes "D \<subseteq> E"
  shows "allocations_ok D t \<Longrightarrow> allocations_ok E t" and "orders_ok D u \<Longrightarrow> orders_ok E u"
    and "conditions_ok D v \<Longrightarrow> conditions_ok E v" and "protections_ok D w \<Longrightarrow> protections_ok E w"
  using assms unfolding allocations_ok_def orders_ok_def conditions_ok_def protections_ok_def by fast+

lemma put_position_ok:
  assumes ok: "store_ok st" and q: "quantities_ok p" and c: "\<not> client_taken st (p_id p) (p_client_order_id p)"
  shows "store_ok (put_position p st)"
proof -
  have d: "distinct (map fst (st_positions st))" using ok by (simp add: store_ok_def positions_ok_def)
  have free: "p_client_order_id p = [] \<or> p_client_order_id q \<noteq> p_client_order_id p"
    if "(k, q) \<in> set (st_positions st)" "k \<noteq> p_id p" for k q
    using c that by (auto simp: client_taken_def list_ex_iff)
  have "positions_ok (tset (p_id p) p (st_positions st))"
    unfolding positions_ok_def set_tset [OF d]
    using ok q free distinct_tset [OF d] by (auto simp: store_ok_def positions_ok_def) metis+
  moreover have "position_ids st \<subseteq> insert (p_id p) (position_ids st)" by blast
  ultimately show ?thesis using ok references_mono unfolding store_ok_def by (simp add: references_mono)
qed

lemma update_position_ok:
  assumes ok: "store_ok st" and p: "ps_get st k = Some p"
    and q: "p_id q = k" "p_client_order_id q = [] \<or> p_client_order_id q = p_client_order_id p" "quantities_ok q"
  shows "store_ok (put_position q st)"
  using put_position_ok [OF ok q(3)] client_free [OF ok p q(2)] q(1) by simp

lemma same_quantities: "p_opened q = p_opened p \<Longrightarrow> p_remaining q = p_remaining p \<Longrightarrow> quantities_ok p \<Longrightarrow> quantities_ok q"
  by (simp add: quantities_ok_def)

lemma ps_save_ok:
  assumes "store_ok st" "quantities_ok p" shows "store_ok (snd (ps_save now p st))"
proof (cases "client_taken st (p_id p) (p_client_order_id p)")
  case True
  then show ?thesis using assms by (simp add: ps_save_def)
next
  case False
  have "quantities_ok (p\<lparr>p_updated_at := now\<rparr>)" using assms(2) by (simp add: quantities_ok_def)
  with False show ?thesis using put_position_ok [OF assms(1), of "p\<lparr>p_updated_at := now\<rparr>"] by (simp add: ps_save_def)
qed

lemma link_execution_order_ok:
  assumes "store_ok st" shows "store_ok (snd (link_execution_order now pid oid cid a m st))"
proof -
  have d: "distinct (map fst (st_orders st))" using assms by (simp add: store_ok_def orders_ok_def)
  have "store_ok (st\<lparr>st_orders := tset oid ol (st_orders st)\<rparr>)"
    if "oid \<noteq> []" "ol_position_id ol \<in> position_ids st" "ol_action ol \<in> {AOpen, AReduce, AClose}" for ol
  proof -
    have "orders_ok (position_ids st) (tset oid ol (st_orders st))"
      using assms that distinct_tset [OF d] unfolding store_ok_def orders_ok_def set_tset [OF d] by auto
    then show ?thesis using assms by (simp add: store_ok_def position_ids_def)
  qed
  then show ?thesis
    using assms unfolding link_execution_order_def
    by (auto simp: ps_get_iff split: option.splits)
qed

lemma put_allocation_ok:
  assumes "store_ok st" "al_position_id a \<in> position_ids st" "0 \<le> al_quantity a"
  shows "store_ok (put_allocation a st)"
proof -
  have d: "distinct (map fst (st_allocations st))" using assms by (simp add: store_ok_def allocations_ok_def)
  have "allocations_ok (position_ids st) (tset (al_id a) a (st_allocations st))"
    using assms distinct_tset [OF d] unfolding store_ok_def allocations_ok_def set_tset [OF d] by auto
  then show ?thesis using assms(1) by (simp add: put_allocation_def store_ok_def position_ids_def)
qed

lemma put_condition_ok:
  assumes "store_ok st" "c_position_id c \<in> position_ids st" "condition_ok c" "c_id c = k"
  shows "store_ok (st\<lparr>st_conditions := tset k c (st_conditions st)\<rparr>)"
proof -
  have d: "distinct (map fst (st_conditions st))" using assms by (simp add: store_ok_def conditions_ok_def)
  have "conditions_ok (position_ids st) (tset k c (st_conditions st))"
    using assms distinct_tset [OF d] unfolding store_ok_def conditions_ok_def set_tset [OF d] by auto
  then show ?thesis using assms(1) by (simp add: store_ok_def position_ids_def)
qed

lemma put_protection_ok:
  assumes ok: "store_ok st" and p: "pr_position_id pr \<in> position_ids st" "protection_ok pr" and t: "\<not> protection_taken st pr"
  shows "store_ok (put_protection pr st)"
proof -
  define q where "q = (case tget (st_protections st) (pr_position_id pr) of
      None \<Rightarrow> pr | Some old \<Rightarrow> pr\<lparr>pr_created_at := pr_created_at old\<rparr>)"
  have q: "pr_position_id q = pr_position_id pr" "protection_ok q" "\<And>x. same_algo q x = same_algo pr x"
      "\<And>x. same_algo x q = same_algo x pr"
    using p(2) by (auto simp: q_def protection_ok_def same_algo_def split: option.splits)
  have d: "distinct (map fst (st_protections st))" using ok by (simp add: store_ok_def protections_ok_def)
  have free: "\<not> same_algo x pr \<and> \<not> same_algo pr x" if "(k, x) \<in> set (st_protections st)" "k \<noteq> pr_position_id pr" for k x
    using t that p(2) by (auto simp: protection_taken_def list_ex_iff same_algo_def protection_ok_def)
  have "protections_ok (position_ids st) (tset (pr_position_id pr) q (st_protections st))"
    using ok q p(1) free distinct_tset [OF d] unfolding store_ok_def protections_ok_def set_tset [OF d] by auto
  then show ?thesis using ok by (simp add: put_protection_def q_def [symmetric] store_ok_def position_ids_def)
qed

subsection \<open>Every operation keeps the invariant\<close>

lemma touch_ok:
  assumes ok: "store_ok st" and p: "ps_get st k = Some p"
    and q: "p_id q = p_id p" "p_client_order_id q = [] \<or> p_client_order_id q = p_client_order_id p"
      "p_opened q = p_opened p" "p_remaining q = p_remaining p"
  shows "store_ok (put_position q st)"
  using update_position_ok [OF ok p _ q(2)] ps_getD [OF ok p] q by (simp add: same_quantities)

lemma order_row_get: "order_row st pid oid = Some p \<Longrightarrow> ps_get st pid = Some p"
  by (auto simp: order_row_def split: option.splits if_splits)

lemma lifecycle_ok:
  assumes ok: "store_ok st"
  shows "store_ok (snd (merge_metadata now pid m st))"
    and "store_ok (snd (release_pending_execution now pid corr status st))"
    and "store_ok (snd (recover_client_order_intent now pid cid es st))"
    and "store_ok (snd (recover_terminal_order now pid oid os st))"
    and "store_ok (snd (update_execution_tracking now pid oid es b st))"
    and "store_ok (snd (mark_order_cancel_requested now pid oid st))"
    and "store_ok (snd (record_filled_without_allocation now pid oid st))"
    and "store_ok (snd (mark_filled_without_allocation_alerted now pid oid st))"
  subgoal using ok unfolding merge_metadata_def Let_def by (auto split: option.split intro!: touch_ok)
  subgoal using ok unfolding release_pending_execution_def Let_def by (auto split: option.split intro!: touch_ok)
  subgoal using ok unfolding recover_client_order_intent_def Let_def
    by (auto split: option.split intro!: touch_ok)
  subgoal using ok unfolding recover_terminal_order_def Let_def by (auto split: option.split intro!: touch_ok)
  subgoal using ok unfolding update_execution_tracking_def Let_def by (auto split: option.split intro!: touch_ok)
  subgoal using ok unfolding mark_order_cancel_requested_def Let_def
    by (auto split: option.split intro!: touch_ok dest: order_row_get)
  subgoal using ok unfolding record_filled_without_allocation_def Let_def
    by (auto split: option.split sum.split intro!: touch_ok dest: order_row_get)
  subgoal using ok unfolding mark_filled_without_allocation_alerted_def Let_def
    by (auto split: option.split intro!: touch_ok dest: order_row_get)
  done

lemma claim_ok:
  assumes ok: "store_ok st"
  shows "store_ok (snd (claim_pending_execution now pid e s cid m st))"
proof (cases "ps_get st pid")
  case None
  then show ?thesis using ok by (simp add: claim_pending_execution_def)
next
  case (Some p)
  then show ?thesis
    using ok ps_getD [OF ok Some]
    by (auto simp: claim_pending_execution_def Let_def quantities_ok_def intro!: put_position_ok)
qed

lemma link_exchange_order_ok:
  assumes ok: "store_ok st"
  shows "store_ok (snd (link_exchange_order now pid cid oid m st))"
proof (cases "ps_get st pid")
  case None
  then show ?thesis using ok by (simp add: link_exchange_order_def)
next
  case (Some p)
  let ?st = "put_position (p\<lparr>p_exchange_order_id := oid, p_metadata := dumps (tmerge (col_obj (p_metadata p)) m),
    p_updated_at := now\<rparr>) st"
  have "store_ok ?st" by (rule touch_ok [OF ok Some]) simp_all
  with link_execution_order_ok [OF this] ok Some show ?thesis
    by (auto simp: link_exchange_order_def Let_def split: sum.split option.split prod.split) (metis snd_conv)+
qed

lemma mark_pending_ok:
  assumes ok: "store_ok st"
  shows "store_ok (snd (mark_pending_execution now pid s oid m c st))"
proof (cases "ps_get st pid")
  case None
  then show ?thesis using ok by (simp add: mark_pending_execution_def)
next
  case (Some p)
  let ?p = "p\<lparr>p_status := s, p_exchange_order_id := oid, p_client_order_id := or_default c (p_client_order_id p),
    p_metadata := dumps (tmerge (col_obj (p_metadata p)) m)\<rparr>"
  have "quantities_ok ?p" using ps_getD(2) [OF ok Some] by (simp add: quantities_ok_def)
  then have "store_ok (snd (ps_save now ?p st))" by (rule ps_save_ok [OF ok])
  with link_execution_order_ok [OF this] ok Some show ?thesis
    by (auto simp: mark_pending_execution_def Let_def split: sum.split option.split prod.split) (metis snd_conv)+
qed

lemma update_status_ok:
  assumes ok: "store_ok st" and r: "case r of None \<Rightarrow> True | Some x \<Rightarrow> 0 \<le> x"
  shows "store_ok (snd (update_status now pid s r st))"
proof (cases "ps_get st pid")
  case None
  then show ?thesis using ok by (simp add: update_status_def)
next
  case (Some p)
  let ?p = "p\<lparr>p_status := s, p_remaining := (case r of None \<Rightarrow> p_remaining p | Some r \<Rightarrow> Some r)\<rparr>"
  have "quantities_ok ?p" using ps_getD(2) [OF ok Some] r by (auto simp: quantities_ok_def split: option.splits)
  then have "store_ok (snd (ps_save now ?p st))" by (rule ps_save_ok [OF ok])
  then show ?thesis using Some by (auto simp: update_status_def Let_def split: sum.split prod.split)
qed

lemma reconciliation_ok:
  assumes ok: "store_ok st"
  shows "store_ok (snd (update_reconciliation now pid key r st))"
proof (cases "ps_get st pid")
  case None
  then show ?thesis using ok by (simp add: update_reconciliation_def)
next
  case (Some p)
  have "store_ok (snd (ps_save now (p\<lparr>p_exchange_position_key := key, p_metadata := x\<rparr>) st))" for x
    using ps_getD(2) [OF ok Some] by (intro ps_save_ok [OF ok]) (simp add: quantities_ok_def)
  then show ?thesis using ok Some
    by (auto simp: update_reconciliation_def Let_def split: sum.split prod.split jcol.split json.split list.split)
      (metis snd_conv)+
qed

lemma ensure_from_trade_ok:
  assumes "store_ok st" shows "store_ok (snd (ensure_from_trade now t st))"
proof -
  have "quantities_ok (from_trade t)" by (simp add: from_trade_def Let_def quantities_ok_def)
  from ps_save_ok [OF assms this] show ?thesis using assms
    by (auto simp: ensure_from_trade_def split: option.split sum.split prod.split) (metis snd_conv)+
qed

lemma save_protection_ok:
  assumes ok: "store_ok st" shows "store_ok (snd (save_protection now pr st))"
proof -
  have "store_ok (put_protection (pr\<lparr>pr_updated_at := now\<rparr>) st)"
    if "pr_position_id pr \<in> position_ids st" "protection_ok pr" "\<not> protection_taken st pr"
    using that by (intro put_protection_ok [OF ok]) (auto simp: protection_ok_def protection_taken_def list_ex_iff)
  then show ?thesis using ok
    by (auto simp: save_protection_def Let_def ps_get_iff protection_ok_def split: option.split)
qed

lemma update_protection_ok:
  assumes ok: "store_ok st" shows "store_ok (snd (update_protection now pid s q l t m st))"
proof (cases "get_protection st pid")
  case None
  then show ?thesis using ok by (simp add: update_protection_def)
next
  case (Some pr)
  then show ?thesis using ok save_protection_ok [OF ok]
    unfolding update_protection_def Let_def
    by (auto split: sum.split prod.split) (metis snd_conv)+
qed

lemma normalized_condition_ok:
  assumes "normalized_condition now c = Inr c'"
  shows "condition_ok c' \<and> c_id c' = c_id c \<and> c_position_id c' = c_position_id c"
proof -
  obtain m where m: "normalize_position_rule (c_purpose c) (JObj (col_obj (c_expression c))) (c_enabled c) (col_obj (c_metadata c)) = Inr m"
    and c': "c' = c\<lparr>c_metadata := dumps m, c_updated_at := now\<rparr>"
    using assms by (auto simp: normalized_condition_def bindE_eq_Inr)
  show ?thesis using normalize_rule_canonical [OF m]
    by (auto simp: c' condition_ok_def col_obj_def json_loads_def as_obj_def)
qed

lemma save_close_condition_ok:
  assumes ok: "store_ok st" shows "store_ok (snd (save_close_condition now c st))"
proof (cases "ps_get st (c_position_id c)")
  case None
  then show ?thesis using ok by (simp add: save_close_condition_def)
next
  case (Some p)
  show ?thesis
  proof (cases "normalized_condition now c")
    case (Inr c')
    note n = normalized_condition_ok [OF Inr]
    have "store_ok (st\<lparr>st_conditions := tset (c_id c) c' (st_conditions st)\<rparr>)"
      using n ps_get_in [OF Some] by (intro put_condition_ok [OF ok]) simp_all
    with Some Inr show ?thesis by (simp add: save_close_condition_def)
  qed (use Some ok in \<open>simp add: save_close_condition_def\<close>)
qed

lemma create_condition_ok:
  assumes ok: "store_ok st" shows "store_ok (snd (create_close_condition now f pid pu ex en md st))"
  using ok save_close_condition_ok [OF ok] by (auto simp: create_close_condition_def split: sum.split)

lemma update_condition_ok:
  assumes ok: "store_ok st" shows "store_ok (snd (update_close_condition now pid cid pu ex en md st))"
proof (cases "get_close_condition st pid cid")
  case None
  then show ?thesis using ok by (simp add: update_close_condition_def)
next
  case (Some c)
  then show ?thesis using ok save_close_condition_ok [OF ok]
    unfolding update_close_condition_def Let_def
    by (auto split: sum.split prod.split) (metis snd_conv)+
qed

lemma delete_condition_ok:
  assumes ok: "store_ok st" shows "store_ok (snd (delete_close_condition pid cid st))"
proof -
  have "conditions_ok (position_ids st) (tdel cid (st_conditions st))"
    using ok unfolding store_ok_def conditions_ok_def tdel_def
    by (auto simp: distinct_map inj_on_def)
  then show ?thesis using ok by (auto simp: delete_close_condition_def store_ok_def position_ids_def)
qed

lemma insert_condition_ok:
  assumes "store_ok st" "pid \<in> position_ids st" "insert_condition now pid c st = Inr st'"
  shows "store_ok st' \<and> pid \<in> position_ids st'"
proof -
  obtain c' where c': "normalized_condition now c = Inr c'" and p: "c_position_id c = pid"
    and st': "st' = st\<lparr>st_conditions := tset (c_id c) c' (st_conditions st)\<rparr>"
    using assms(3) by (auto simp: insert_condition_def bindE_eq_Inr split: if_splits)
  have "store_ok st'" unfolding st'
    using normalized_condition_ok [OF c'] p assms(2) by (intro put_condition_ok [OF assms(1)]) simp_all
  then show ?thesis using assms(2) by (simp add: st' position_ids_def)
qed

lemma create_position_ok:
  assumes ok: "store_ok st" and q: "quantities_ok p"
  shows "store_ok (snd (create_with_close_conditions now p cs st))"
proof (cases "ps_get st (p_id p) \<noteq> None \<or> client_taken st (p_id p) (p_client_order_id p)")
  case True
  then show ?thesis using ok unfolding create_with_close_conditions_def by (simp only: if_True snd_conv)
next
  case False
  let ?st = "put_position (p\<lparr>p_updated_at := now\<rparr>) st"
  have s: "store_ok ?st" using False q by (intro put_position_ok [OF ok]) (simp_all add: quantities_ok_def)
  show ?thesis
  proof (cases "foldE (insert_condition now (p_id p)) cs ?st")
    case (Inr st')
    have "store_ok st' \<and> p_id p \<in> position_ids st'"
    proof (rule foldE_invariant [OF Inr])
      show "store_ok ?st \<and> p_id p \<in> position_ids ?st" using s by simp
      show "store_ok v \<and> p_id p \<in> position_ids v"
        if "store_ok u \<and> p_id p \<in> position_ids u" "insert_condition now (p_id p) c u = Inr v" for c u v
        using insert_condition_ok [OF _ _ that(2)] that(1) by blast
    qed
    with False Inr show ?thesis by (simp add: create_with_close_conditions_def)
  qed (use False ok in \<open>simp add: create_with_close_conditions_def\<close>)
qed

subsection \<open>Fills\<close>

lemma validate_allocation_Inr:
  "validate_allocation p a w d = Inr u \<Longrightarrow> 0 \<le> al_quantity a"
  by (auto simp: validate_allocation_def bindE_eq_Inr not_less)

lemma apply_allocation_fields_keeps:
  assumes "apply_allocation_fields p a = Inr q" and "quantities_ok p" and "0 \<le> al_quantity a"
  shows "quantities_ok q \<and> p_id q = p_id p \<and> p_client_order_id q = p_client_order_id p"
proof -
  have "quantities_ok (apply_open (p\<lparr>p_metadata := m\<rparr>) a)" for m
    using assms(2,3) by (cases "p_remaining p"; cases "p_opened p") (simp_all add: apply_open_def Let_def quantities_ok_def plus12_nonneg)
  moreover have "quantities_ok (apply_reduction p a)" "quantities_ok (apply_adjustment p a)"
    using assms(2) by (simp_all add: apply_reduction_def apply_adjustment_def Let_def quantities_ok_def)
  ultimately show ?thesis using assms(1,2)
    by (auto simp: apply_allocation_fields_def bindE_eq_Inr apply_open_def apply_reduction_def apply_adjustment_def Let_def
        split: alloc_action.splits)
qed

lemma record_allocation_ok:
  assumes ok: "store_ok st" shows "store_ok (snd (record_allocation now a ap w st))"
proof (cases "ps_get st (al_position_id a)")
  case None
  then show ?thesis using ok by (simp add: record_allocation_def)
next
  case (Some p)
  note p = ps_getD [OF ok Some]
  show ?thesis
  proof (cases "tget (st_allocations st) (al_id a)")
    case None
    show ?thesis
    proof (cases "bindE (validate_allocation p a w (\<not> ap)) (\<lambda>_. if ap then apply_allocation_fields p a else Inr p)")
      case (Inr q)
      then have v: "0 \<le> al_quantity a" by (auto simp: bindE_eq_Inr dest: validate_allocation_Inr)
      have "if ap then apply_allocation_fields p a = Inr q else q = p"
        using Inr by (simp add: bindE_eq_Inr split: if_split_asm)
      then have q: "quantities_ok q \<and> p_id q = p_id p \<and> p_client_order_id q = p_client_order_id p"
        using p(2) apply_allocation_fields_keeps [of p a q, OF _ p(2) v] by (cases ap) (simp_all only: if_True if_False)
      have s: "store_ok (put_allocation (a\<lparr>al_applied := ap\<rparr>) st)"
        using v ps_get_in [OF Some] by (intro put_allocation_ok [OF ok]) simp_all
      have g: "ps_get (put_allocation (a\<lparr>al_applied := ap\<rparr>) st) (al_position_id a) = Some p"
        using Some by (simp add: put_allocation_def ps_get_def)
      have "store_ok (put_position (q\<lparr>p_updated_at := now\<rparr>) (put_allocation (a\<lparr>al_applied := ap\<rparr>) st))"
        using q p by (intro update_position_ok [OF s g]) (auto simp: quantities_ok_def)
      with Some None Inr s show ?thesis by (cases ap) (simp_all add: record_allocation_def Let_def)
    qed (use Some None ok in \<open>simp add: record_allocation_def\<close>)
  next
    case (Some b)
    with \<open>ps_get st (al_position_id a) = Some p\<close> ok show ?thesis
      by (auto simp: record_allocation_def split: sum.split bool.split)
  qed
qed

lemma apply_deferred_loop_ok:
  assumes "apply_deferred_loop as p st = Inr (q, st', applied)" "store_ok st" "ps_get st pid = Some p0"
    and "quantities_ok p" "list_all (\<lambda>a. al_position_id a = pid) as"
  shows "store_ok st' \<and> ps_get st' pid = Some p0 \<and> quantities_ok q \<and> p_id q = p_id p \<and>
    p_client_order_id q = p_client_order_id p"
  using assms
proof (induction as arbitrary: p st q st' applied)
  case (Cons a as)
  show ?case
  proof (cases "validate_allocation p a True False")
    case (Inl e)
    with Cons.prems show ?thesis by (cases e) auto
  next
    case (Inr u)
    then obtain p' applied' where p': "apply_allocation_fields p a = Inr p'"
      and l: "apply_deferred_loop as p' (put_allocation (a\<lparr>al_applied := True\<rparr>) st) = Inr (q, st', applied')"
      using Cons.prems(1) by (auto simp: bindE_eq_Inr Let_def)
    note k = apply_allocation_fields_keeps [OF p' Cons.prems(4) validate_allocation_Inr [OF Inr]]
    have s: "store_ok (put_allocation (a\<lparr>al_applied := True\<rparr>) st)"
      using Cons.prems(5) validate_allocation_Inr [OF Inr] ps_get_in [OF Cons.prems(3)]
      by (intro put_allocation_ok [OF Cons.prems(2)]) simp_all
    have g: "ps_get (put_allocation (a\<lparr>al_applied := True\<rparr>) st) pid = Some p0"
      using Cons.prems(3) by (simp add: put_allocation_def ps_get_def)
    show ?thesis using Cons.IH [OF l s g] k Cons.prems(5) by simp
  qed
qed simp

lemma deferred_position: "list_all (\<lambda>a. al_position_id a = pid) (deferred_allocations st pid)"
  by (auto simp: list_all_iff deferred_allocations_def)

lemma apply_deferred_ok:
  assumes ok: "store_ok st" shows "store_ok (snd (apply_deferred_allocations now pid st))"
proof (cases "ps_get st pid")
  case None
  then show ?thesis using ok by (simp add: apply_deferred_allocations_def)
next
  case (Some p)
  note p = ps_getD [OF ok Some]
  show ?thesis
  proof (cases "apply_deferred_loop (deferred_allocations st pid) p st")
    case (Inr r)
    obtain q st' applied where r: "r = (q, st', applied)" by (cases r)
    have l: "store_ok st'" "ps_get st' pid = Some p" "quantities_ok q" "p_id q = p_id p" "p_client_order_id q = p_client_order_id p"
      using apply_deferred_loop_ok [OF _ ok Some p(2) deferred_position, of st q st' applied] Inr r by simp_all
    have "store_ok (put_position (q\<lparr>p_updated_at := now\<rparr>) st')"
      using l p by (intro update_position_ok [OF l(1,2)]) (auto simp: quantities_ok_def)
    with Some Inr r l(1) show ?thesis by (simp add: apply_deferred_allocations_def)
  qed (use Some ok in \<open>simp add: apply_deferred_allocations_def\<close>)
qed

subsection \<open>Runs\<close>

text \<open>What a caller that writes a position or a quantity directly must provide.\<close>

definition allowed_op :: "store_op \<Rightarrow> bool" where
  "allowed_op x = (case x of SavePosition _ p \<Rightarrow> quantities_ok p | CreatePosition _ p _ \<Rightarrow> quantities_ok p
     | UpdateStatus _ _ _ r \<Rightarrow> (case r of None \<Rightarrow> True | Some q \<Rightarrow> 0 \<le> q) | _ \<Rightarrow> True)"

interpretation position_store: kept_by_steps store_step allowed_op store_ok
proof unfold_locales
  fix s x assume "store_ok s" "allowed_op x"
  then show "store_ok (store_step x s)"
    by (cases x) (simp_all add: allowed_op_def ps_save_ok create_position_ok ensure_from_trade_ok update_status_ok
        create_condition_ok save_protection_ok update_protection_ok link_execution_order_ok lifecycle_ok mark_pending_ok
        claim_ok link_exchange_order_ok reconciliation_ok record_allocation_ok apply_deferred_ok save_close_condition_ok
        update_condition_ok delete_condition_ok)
qed

subsection \<open>The ledger only grows\<close>

text \<open>Two fills that differ at most in the flag that says whether they were applied.\<close>

definition same_fill :: "allocation \<Rightarrow> allocation \<Rightarrow> bool" where
  "same_fill a b \<longleftrightarrow> a\<lparr>al_applied := True\<rparr> = b\<lparr>al_applied := True\<rparr>"

definition ledger_le :: "store \<Rightarrow> store \<Rightarrow> bool" where
  "ledger_le st st' \<longleftrightarrow> position_ids st \<subseteq> position_ids st' \<and>
     (\<forall>k ol. tget (st_orders st) k = Some ol \<longrightarrow> tget (st_orders st') k = Some ol) \<and>
     (\<forall>k a. tget (st_allocations st) k = Some a \<longrightarrow>
        (\<exists>b. tget (st_allocations st') k = Some b \<and> same_fill a b \<and> (al_applied a \<longrightarrow> al_applied b)))"

lemma ledger_refl: "ledger_le st st"
  by (simp add: ledger_le_def same_fill_def)

lemma ledger_trans: "ledger_le st st' \<Longrightarrow> ledger_le st' st'' \<Longrightarrow> ledger_le st st''"
  unfolding ledger_le_def same_fill_def by (meson order_trans) metis

lemma ledger_unchanged:
  "position_ids st \<subseteq> position_ids st' \<Longrightarrow> st_orders st' = st_orders st \<Longrightarrow> st_allocations st' = st_allocations st \<Longrightarrow>
   ledger_le st st'"
  by (simp add: ledger_le_def same_fill_def)

lemma ledger_put_position [intro!]: "ledger_le st (put_position p st)"
  by (rule ledger_unchanged) auto

lemma ledger_ps_save: "ledger_le st (snd (ps_save now p st))"
  by (auto simp: ps_save_def ledger_refl)

lemma ledger_link: "ledger_le st (snd (link_execution_order now pid oid cid a m st))"
  by (auto simp: link_execution_order_def ledger_refl ledger_le_def same_fill_def position_ids_def
      split: option.split)

lemma ledger_lifecycle:
  "ledger_le st (snd (merge_metadata now pid m st))"
  "ledger_le st (snd (release_pending_execution now pid corr status st))"
  "ledger_le st (snd (recover_client_order_intent now pid cid es st))"
  "ledger_le st (snd (recover_terminal_order now pid oid os st))"
  "ledger_le st (snd (update_execution_tracking now pid oid es b st))"
  "ledger_le st (snd (mark_order_cancel_requested now pid oid st))"
  "ledger_le st (snd (record_filled_without_allocation now pid oid st))"
  "ledger_le st (snd (mark_filled_without_allocation_alerted now pid oid st))"
  "ledger_le st (snd (claim_pending_execution now pid e s cid m st))"
  by (auto simp: merge_metadata_def release_pending_execution_def recover_client_order_intent_def
      recover_terminal_order_def update_execution_tracking_def mark_order_cancel_requested_def
      record_filled_without_allocation_def mark_filled_without_allocation_alerted_def claim_pending_execution_def
      Let_def ledger_refl split: option.split sum.split)

lemma ledger_put_then_link:
  "ledger_le st (snd (link_execution_order now pid oid cid a m (put_position p st)))"
  by (rule ledger_trans [OF ledger_put_position ledger_link])

lemma ledger_save_then_link:
  "ps_save now p st = (r, st1) \<Longrightarrow> ledger_le st (snd (link_execution_order now pid oid cid a m st1))"
  using ledger_trans [OF ledger_ps_save [of st now p] ledger_link [of "snd (ps_save now p st)" now pid oid cid a m]] by simp

lemma ledger_tx [intro]:
  "link_execution_order now pid oid cid a m (put_position p st) = (r, st') \<Longrightarrow> ledger_le st st'"
  "ps_save now p st = (r1, st') \<Longrightarrow> ledger_le st st'"
  "ps_save now p st = (r1, st1) \<Longrightarrow> link_execution_order now pid oid cid a m st1 = (r, st') \<Longrightarrow> ledger_le st st'"
  using ledger_put_then_link [of st now pid oid cid a m p] ledger_ps_save [of st now p]
    ledger_save_then_link [of now p st r1 st1 pid oid cid a m] by simp_all

lemma ledger_positions:
  "ledger_le st (snd (link_exchange_order now pid cid oid m st))"
  "ledger_le st (snd (mark_pending_execution now pid s oid m c st))"
  "ledger_le st (snd (update_status now pid s r st))"
  "ledger_le st (snd (update_reconciliation now pid key rec st))"
  "ledger_le st (snd (ensure_from_trade now t st))"
  by (auto simp: link_exchange_order_def mark_pending_execution_def update_status_def update_reconciliation_def
      ensure_from_trade_def Let_def ledger_refl split: option.split sum.split prod.split jcol.split json.split list.split)

lemma ledger_condition_update: "ledger_le st (st\<lparr>st_conditions := t\<rparr>)"
  by (rule ledger_unchanged) (simp_all add: position_ids_def)

lemma ledger_save_condition: "ledger_le st (snd (save_close_condition now c st))"
  by (auto simp: save_close_condition_def ledger_refl ledger_condition_update split: sum.split)

lemma ledger_save_condition_tx [intro]: "save_close_condition now c st = (r, st') \<Longrightarrow> ledger_le st st'"
  using ledger_save_condition [of st now c] by simp

lemma ledger_conditions:
  "ledger_le st (snd (create_close_condition now f pid pu ex en md st))"
  "ledger_le st (snd (update_close_condition now pid cid pu' ex' en' md' st))"
  "ledger_le st (snd (delete_close_condition pid cid st))"
  by (auto simp: create_close_condition_def update_close_condition_def delete_close_condition_def Let_def ledger_refl
      ledger_save_condition ledger_condition_update split: option.split sum.split prod.split)

lemma ledger_insert_condition: "insert_condition now pid c st = Inr st' \<Longrightarrow> ledger_le st st'"
  by (auto simp: insert_condition_def bindE_eq_Inr ledger_condition_update split: if_splits)

lemma ledger_create: "ledger_le st (snd (create_with_close_conditions now p cs st))"
proof -
  have "ledger_le st st'" if "foldE (insert_condition now (p_id p)) cs (put_position q st) = Inr st'" for q st'
    using that by (rule foldE_invariant) (auto intro: ledger_trans ledger_insert_condition)
  then show ?thesis by (auto simp: create_with_close_conditions_def ledger_refl split: sum.split)
qed

lemma ledger_protection_update: "ledger_le st (put_protection pr st)"
  by (rule ledger_unchanged) (simp_all add: put_protection_def position_ids_def)

lemma ledger_save_protection: "ledger_le st (snd (save_protection now pr st))"
  by (auto simp: save_protection_def Let_def ledger_refl ledger_protection_update split: option.split)

lemma ledger_save_protection_tx [intro]: "save_protection now pr st = (r, st') \<Longrightarrow> ledger_le st st'"
  using ledger_save_protection [of st now pr] by simp

lemma ledger_update_protection: "ledger_le st (snd (update_protection now pid s q l t m st))"
  by (auto simp: update_protection_def Let_def ledger_refl split: option.split sum.split prod.split)

lemma ledger_put_allocation:
  assumes "case tget (st_allocations st) (al_id a) of None \<Rightarrow> True | Some b \<Rightarrow> same_fill b a \<and> (al_applied b \<longrightarrow> al_applied a)"
  shows "ledger_le st (put_allocation a st)"
  using assms by (auto simp: ledger_le_def put_allocation_def position_ids_def same_fill_def split: option.splits)

lemma ledger_record: "ledger_le st (snd (record_allocation now a ap w st))"
proof -
  have "ledger_le st (put_allocation (a\<lparr>al_applied := b\<rparr>) st)" if "tget (st_allocations st) (al_id a) = None" for b
    using that by (intro ledger_put_allocation) simp
  moreover from this have "ledger_le st (put_position q (put_allocation (a\<lparr>al_applied := b\<rparr>) st))"
    if "tget (st_allocations st) (al_id a) = None" for b q using that ledger_trans by blast
  ultimately show ?thesis
    by (auto simp: record_allocation_def Let_def ledger_refl split: option.split sum.split bool.split)
qed

lemma ledger_deferred_loop:
  assumes "apply_deferred_loop as p st = Inr (q, st', applied)"
    and "\<And>a. a \<in> set as \<Longrightarrow> \<exists>b. tget (st_allocations st) (al_id a) = Some b \<and> same_fill b a"
  shows "ledger_le st st'"
  using assms
proof (induction as arbitrary: p st q st' applied)
  case (Cons a as)
  show ?case
  proof (cases "validate_allocation p a True False")
    case (Inl e)
    with Cons.prems show ?thesis by (cases e) (auto simp: ledger_refl)
  next
    case (Inr u)
    let ?a = "a\<lparr>al_applied := True\<rparr>"
    obtain p' applied' where l: "apply_deferred_loop as p' (put_allocation ?a st) = Inr (q, st', applied')"
      using Cons.prems(1) Inr by (auto simp: bindE_eq_Inr Let_def)
    obtain b where b: "tget (st_allocations st) (al_id a) = Some b" "same_fill b a" using Cons.prems(2) by force
    have "ledger_le st (put_allocation ?a st)" using b by (intro ledger_put_allocation) (simp add: same_fill_def)
    moreover have "ledger_le (put_allocation ?a st) st'"
    proof (rule Cons.IH [OF l])
      fix x assume "x \<in> set as"
      then obtain c where "tget (st_allocations st) (al_id x) = Some c" "same_fill c x" using Cons.prems(2) by force
      with b show "\<exists>c. tget (st_allocations (put_allocation ?a st)) (al_id x) = Some c \<and> same_fill c x"
        by (auto simp: put_allocation_def same_fill_def)
    qed
    ultimately show ?thesis by (rule ledger_trans)
  qed
qed (simp add: ledger_refl)

lemma deferred_stored:
  assumes "store_ok st" "a \<in> set (deferred_allocations st pid)"
  shows "tget (st_allocations st) (al_id a) = Some a"
proof -
  obtain k where k: "(k, a) \<in> set (st_allocations st)" using assms(2) by (auto simp: deferred_allocations_def)
  have "distinct (map fst (st_allocations st))" "al_id a = k"
    using assms(1) k unfolding store_ok_def allocations_ok_def by fast+
  with k show ?thesis by simp
qed

lemma ledger_deferred:
  assumes ok: "store_ok st" shows "ledger_le st (snd (apply_deferred_allocations now pid st))"
proof -
  have l: "ledger_le st st'" if "apply_deferred_loop (deferred_allocations st pid) p st = Inr (q, st', applied)" for p q st' applied
    using that by (rule ledger_deferred_loop) (use deferred_stored [OF ok] in \<open>auto simp: same_fill_def\<close>)
  from this ledger_trans [OF this ledger_put_position] show ?thesis
    by (auto simp: apply_deferred_allocations_def ledger_refl split: option.split sum.split prod.split)
qed

interpretation position_ledger: forward_steps store_step allowed_op store_ok ledger_le
proof unfold_locales
  fix s x assume "store_ok s"
  then show "ledger_le s (store_step x s)"
    by (cases x) (simp_all add: ledger_ps_save ledger_create ledger_positions ledger_conditions ledger_save_protection
        ledger_update_protection ledger_link ledger_lifecycle ledger_record ledger_deferred ledger_save_condition)
qed (fact ledger_refl, fact ledger_trans)

end
