(* ===== verification/PositionLedger.thy ===== *)
theory PositionLedger
  imports PositionStoreProperties
begin

section \<open>Fills and pending executions of logical positions\<close>

text \<open>
  The properties of the position store that its clients rely on: the invariant over every run, the
  append-only ledger, the balance of the books, redelivered and conflicting fills, exclusive claims of a pending execution, closed positions that stay closed,
  and the data migrations.
\<close>

subsection \<open>The books balance\<close>

text \<open>One fill as the store applies it: validated against the position, then applied.\<close>

definition apply_fill :: "allocation \<Rightarrow> position \<Rightarrow> position result" where
  "apply_fill a p = bindE (validate_allocation p a True False) (\<lambda>_. apply_allocation_fields p a)"

definition bought :: "allocation \<Rightarrow> rat" where
  "bought a = (if al_action a = AOpen then al_quantity a else 0)"

definition sold :: "allocation \<Rightarrow> rat" where
  "sold a = (if al_action a = AReduce \<or> al_action a = AClose then al_quantity a else 0)"

lemma accepted_reduction:
  assumes "\<not> exceeds q c" "on_grid12 q" "on_grid12 c" "0 \<le> c" "c < 1024"
  shows "q \<le> c + quantity_tolerance"
proof (rule ccontr)
  let ?t = quantity_tolerance
  have t: "on_grid12 ?t" unfolding on_grid12_iff quantity_tolerance_def by (rule exI [of _ 1]) simp
  assume "\<not> q \<le> c + ?t"
  then have "c + ?t < q" by simp
  moreover have "\<not> \<bar>q - (c + ?t)\<bar> < 1 / 10 ^ 12"
    using same_grid_point [OF assms(2) on_grid12_add [OF assms(3) t]] \<open>c + ?t < q\<close> by force
  ultimately have q: "c + 2 * ?t \<le> q" by (simp add: quantity_tolerance_def)
  define z where "z = c + 2 * ?t"
  have "\<bar>z\<bar> < 1025" using assms(4,5) by (simp add: z_def quantity_tolerance_def)
  then have "\<bar>z\<bar> / 2 ^ 53 < 1 / (4 * 10 ^ 12)" by simp
  with dbl_error [of z] have "\<bar>dbl z - z\<bar> < 1 / (4 * 10 ^ 12)" by (rule le_less_trans)
  then have "c + 2 * ?t - 1 / (4 * 10 ^ 12) < dbl (c + 2 * ?t)" unfolding z_def by (simp only: abs_less_iff) linarith
  also have "\<dots> \<le> dbl q" using q by (rule dbl_mono)
  also have "\<dots> \<le> dbl (dbl c + dbl ?t)" using assms(1) by (simp add: exceeds_def)
  also have "\<dots> < c + ?t + 1 / (2 * 10 ^ 12)"
  proof -
    have "\<bar>c\<bar> + \<bar>?t\<bar> < 2048" using assms(4,5) by (simp add: quantity_tolerance_def)
    then have "\<bar>dbl (dbl c + dbl ?t) - (c + ?t)\<bar> < 1 / (2 * 10 ^ 12)" by (rule two_dbl_error)
    then show ?thesis by (simp only: abs_less_iff) linarith
  qed
  finally show False by (simp add: quantity_tolerance_def)
qed

lemma apply_reduction_exact:
  assumes r: "p_remaining p = Some r" "on_grid12 r" "0 \<le> r" "r < 1024"
    and a: "on_grid12 (al_quantity a)" "0 \<le> al_quantity a" "\<not> exceeds (al_quantity a) r"
  shows "\<exists>r'. p_remaining (apply_reduction p a) = Some r' \<and> on_grid12 r' \<and> 0 \<le> r' \<and> r' \<le> r \<and>
    r - al_quantity a \<le> r' \<and> r' \<le> r - al_quantity a + 1 / 10 ^ 12"
proof -
  have le: "al_quantity a \<le> r + quantity_tolerance" using accepted_reduction [OF a(3,1) r(2,3,4)] .
  have g: "on_grid12 1024" by (simp add: on_grid12_def)
  have "r \<le> 1024 - 1 / 10 ^ 12" using same_grid_point [OF r(2) g] r(4) by (cases "\<bar>r - 1024\<bar> < 1 / 10 ^ 12") auto
  then have "minus12 r (al_quantity a) = r - al_quantity a"
    using le r a by (intro minus12_exact) (simp_all add: quantity_tolerance_def)
  then show ?thesis using le r a
    by (simp add: apply_reduction_def Let_def max_def on_grid12_diff quantity_tolerance_def)
qed

lemma apply_fill_exact:
  assumes f: "apply_fill a p = Inr q" and o: "p_opened p = Some u" "on_grid12 u" "0 \<le> u"
    and r: "p_remaining p = Some r" "on_grid12 r" "0 \<le> r"
    and a: "al_action a \<noteq> AAdjustment" "on_grid12 (al_quantity a)" and b: "u + bought a < 1024" "r + bought a < 1024"
  shows "p_opened q = Some (u + bought a) \<and> (\<exists>r'. p_remaining q = Some r' \<and> on_grid12 r' \<and> 0 \<le> r' \<and> r' \<le> r + bought a \<and>
    r + bought a - sold a \<le> r' \<and> r' \<le> r + bought a - sold a + 1 / 10 ^ 12)"
proof -
  have n: "0 \<le> al_quantity a" using f by (auto simp: apply_fill_def bindE_eq_Inr intro: validate_allocation_Inr)
  have reduced: ?thesis if "al_action a = AReduce \<or> al_action a = AClose"
  proof -
    have q: "q = apply_reduction p a" and le: "\<not> exceeds (al_quantity a) r" using f r(1) that
      by (auto simp: apply_fill_def apply_allocation_fields_def bindE_eq_Inr validate_allocation_def)
    have "bought a = 0" "sold a = al_quantity a" using that by (auto simp: bought_def sold_def)
    moreover have "p_opened (apply_reduction p a) = p_opened p" by (simp add: apply_reduction_def Let_def)
    ultimately show ?thesis using apply_reduction_exact [OF r _ a(2) n le] b o(1) q by simp
  qed
  show ?thesis
  proof (cases "al_action a")
    case AOpen
    with f obtain m where q: "q = apply_open (p\<lparr>p_metadata := dumps m\<rparr>) a"
      by (auto simp: apply_fill_def apply_allocation_fields_def bindE_eq_Inr)
    have "plus12 u (al_quantity a) = u + al_quantity a" "plus12 r (al_quantity a) = r + al_quantity a"
      using o r a(2) n b AOpen by (auto intro!: plus12_exact simp: bought_def)
    then show ?thesis using q AOpen o r a(2) n by (simp add: apply_open_def Let_def bought_def sold_def on_grid12_add)
  qed (use reduced f o r a(1) in \<open>auto simp: apply_fill_def apply_allocation_fields_def bindE_eq_Inr bought_def sold_def\<close>)
qed

lemma bought_nonneg: "apply_fill a p = Inr q \<Longrightarrow> 0 \<le> bought a"
  by (auto simp: apply_fill_def bindE_eq_Inr bought_def dest: validate_allocation_Inr)

lemma all_bought_nonneg: "foldE apply_fill as p = Inr q \<Longrightarrow> 0 \<le> sum_list (map bought as)"
  by (induction as arbitrary: p) (auto simp: bindE_eq_Inr dest: bought_nonneg)

lemma fills_exact:
  assumes "foldE apply_fill as p = Inr q" "p_opened p = Some u" "on_grid12 u" "0 \<le> u" "p_remaining p = Some r" "on_grid12 r" "0 \<le> r"
    and "list_all (\<lambda>a. al_action a \<noteq> AAdjustment \<and> on_grid12 (al_quantity a)) as"
    and "u + sum_list (map bought as) < 1024" "r + sum_list (map bought as) < 1024"
  shows "p_opened q = Some (u + sum_list (map bought as)) \<and> (\<exists>r'. p_remaining q = Some r' \<and>
    r + sum_list (map bought as) - sum_list (map sold as) \<le> r' \<and>
    r' \<le> r + sum_list (map bought as) - sum_list (map sold as) + of_nat (length as) / 10 ^ 12)"
  using assms
proof (induction as arbitrary: p u r)
  case (Cons a as)
  from Cons.prems(1) obtain p' where p': "apply_fill a p = Inr p'" "foldE apply_fill as p' = Inr q"
    by (auto simp: bindE_eq_Inr)
  note nn = bought_nonneg [OF p'(1)] all_bought_nonneg [OF p'(2)]
  have g: "on_grid12 (u + bought a)" using Cons.prems(3,8) by (simp add: bought_def on_grid12_add)
  obtain r1 where s: "p_opened p' = Some (u + bought a)" "p_remaining p' = Some r1" "on_grid12 r1" "0 \<le> r1" "r1 \<le> r + bought a"
    "r + bought a - sold a \<le> r1" "r1 \<le> r + bought a - sold a + 1 / 10 ^ 12"
    using apply_fill_exact [OF p'(1) Cons.prems(2-7)] Cons.prems(8-10) nn by auto
  obtain r' where t: "p_opened q = Some (u + bought a + sum_list (map bought as))" "p_remaining q = Some r'"
    "r1 + sum_list (map bought as) - sum_list (map sold as) \<le> r'"
    "r' \<le> r1 + sum_list (map bought as) - sum_list (map sold as) + of_nat (length as) / 10 ^ 12"
    using Cons.IH [OF p'(2) s(1) g _ s(2-4)] Cons.prems(4,8-10) nn s(5) by auto
  have "of_nat (length (a # as)) / 10 ^ 12 = of_nat (length as) / 10 ^ 12 + (1 :: rat) / 10 ^ 12" by (simp add: add_divide_distrib)
  then have "r' \<le> r + sum_list (map bought (a # as)) - sum_list (map sold (a # as)) + of_nat (length (a # as)) / 10 ^ 12"
    using s(7) t(4) by (simp only: list.map sum_list.Cons)
  with s t show ?case by simp
qed simp

lemma apply_deferred_is_fold:
  "apply_deferred_loop as p st = Inr (q, st', applied) \<Longrightarrow>
   foldE apply_fill (take (length applied) as) p = Inr q \<and> applied = map (\<lambda>a. a\<lparr>al_applied := True\<rparr>) (take (length applied) as)"
proof (induction as arbitrary: p st q st' applied)
  case (Cons a as)
  show ?case
  proof (cases "validate_allocation p a True False")
    case (Inl e)
    with Cons.prems show ?thesis by (cases e) auto
  next
    case (Inr u)
    then obtain p' applied' where p': "apply_allocation_fields p a = Inr p'"
      and l: "apply_deferred_loop as p' (put_allocation (a\<lparr>al_applied := True\<rparr>) st) = Inr (q, st', applied')"
      and a: "applied = a\<lparr>al_applied := True\<rparr> # applied'"
      using Cons.prems by (auto simp: bindE_eq_Inr Let_def)
    then show ?thesis using Cons.IH [OF l] Inr by (simp add: apply_fill_def)
  qed
qed simp

subsection \<open>Redelivered fills\<close>

lemma record_allocation_new:
  assumes "record_allocation now a ap w st = (Inr (Some p), st')" "tget (st_allocations st) (al_id a) = None"
  shows "tget (st_allocations st') (al_id a) = Some (a\<lparr>al_applied := ap\<rparr>) \<and> ps_get st' (al_position_id a) \<noteq> None"
proof -
  obtain p0 q where p0: "ps_get st (al_position_id a) = Some p0"
    and "bindE (validate_allocation p0 a w (\<not> ap)) (\<lambda>_. if ap then apply_allocation_fields p0 a else Inr p0) = Inr q"
    and st': "st' = (if ap then put_position (q\<lparr>p_updated_at := now\<rparr>) (put_allocation (a\<lparr>al_applied := ap\<rparr>) st)
                     else put_allocation (a\<lparr>al_applied := ap\<rparr>) st)"
    using assms by (auto simp: record_allocation_def Let_def split: option.splits sum.splits if_splits)
  then show ?thesis using p0 by (auto simp: st' put_allocation_def ps_get_def)
qed

lemma record_allocation_seen:
  assumes "tget (st_allocations st) (al_id b) = Some e" "ps_get st (al_position_id b) = Some p"
  shows "record_allocation now b ap w st = (case allocations_equivalent e b of
      Inl x \<Rightarrow> (Inl x, st)
    | Inr False \<Rightarrow> (Inl (AllocationConflictError (''Allocation id '' @ py_repr (JStr (al_id b)) @ '' already has different data'')), st)
    | Inr True \<Rightarrow> (Inr (Some p), st))"
  using assms by (simp add: record_allocation_def)

lemma equivalent_applied: "allocations_equivalent (a\<lparr>al_applied := x\<rparr>) b = allocations_equivalent a b"
  by (simp add: allocations_equivalent_def)

lemma equivalent_position: "allocations_equivalent a b = Inr True \<Longrightarrow> al_position_id b = al_position_id a"
  by (auto simp: allocations_equivalent_def bindE_eq_Inr)

lemma record_allocation_cases:
  assumes "ps_get st (al_position_id a) = Some p"
  obtains "snd (record_allocation now a ap w st) = st"
    | "snd (record_allocation now a ap w st) = put_allocation (a\<lparr>al_applied := False\<rparr>) st"
    | q where "validate_allocation p a w (\<not> ap) = Inr ()" "apply_allocation_fields p a = Inr q"
        "snd (record_allocation now a ap w st) = put_position (q\<lparr>p_updated_at := now\<rparr>) (put_allocation (a\<lparr>al_applied := True\<rparr>) st)"
proof (cases "tget (st_allocations st) (al_id a)")
  case None
  show ?thesis
  proof (cases "bindE (validate_allocation p a w (\<not> ap)) (\<lambda>_. if ap then apply_allocation_fields p a else Inr p)")
    case (Inl e)
    with assms None show ?thesis by (intro that(1)) (simp add: record_allocation_def)
  next
    case (Inr q)
    show ?thesis
    proof (cases ap)
      case True
      with Inr show ?thesis using assms None by (intro that(3) [of q]) (auto simp: record_allocation_def bindE_eq_Inr)
    next
      case False
      with Inr show ?thesis using assms None by (intro that(2)) (simp add: record_allocation_def)
    qed
  qed
next
  case (Some e)
  with assms show ?thesis by (intro that(1)) (auto simp: record_allocation_def split: sum.split bool.split)
qed

subsection \<open>Data migrations\<close>

lemma in_positions:
  assumes "(k, p) \<in> set (st_positions st)" and "store_ok st"
  shows "p_id p \<in> position_ids st"
proof -
  have "\<forall>(k, p)\<in>set (st_positions st). p_id p = k \<and> quantities_ok p"
    using assms(2) unfolding store_ok_def positions_ok_def by (elim conjE)
  with assms(1) have "p_id p = k" by fast
  moreover have "k \<in> position_ids st" using assms(1) unfolding position_ids_def by force
  ultimately show ?thesis by simp
qed

lemma migrate_order_row_ok:
  assumes ok: "store_ok st" and p: "p_id p \<in> position_ids st" and m: "migrate_order_row p st = Inr st'"
  shows "store_ok st' \<and> st_positions st' = st_positions st"
proof -
  have d: "distinct (map fst (st_orders st))" using ok by (simp add: store_ok_def orders_ok_def)
  have act: "a \<in> {AOpen, AReduce, AClose}" if "migration_action p = Inr (Some a)" for a
    using that by (auto simp: migration_action_def execution_action_def bindE_eq_Inr
        split: json.splits if_splits option.splits pos_status.splits)
  have "store_ok (st\<lparr>st_orders := tset k ol (st_orders st)\<rparr>)"
    if "k \<noteq> []" "ol_position_id ol \<in> position_ids st" "ol_action ol \<in> {AOpen, AReduce, AClose}" for k ol
  proof -
    have "orders_ok (position_ids st) (tset k ol (st_orders st))"
      using ok that distinct_tset [OF d] unfolding store_ok_def orders_ok_def set_tset [OF d] by auto
    then show ?thesis using ok by (simp add: store_ok_def position_ids_def)
  qed
  then show ?thesis using m ok p act
    by (auto simp: migrate_order_row_def bindE_eq_Inr split: if_splits option.splits)
qed

lemma migrate_v5_ok:
  assumes "store_ok st" and "migrate_v5 st = Inr st'"
  shows "store_ok st'"
proof -
  have "store_ok st' \<and> st_positions st' = st_positions st"
    using assms(2) unfolding migrate_v5_def
  proof (rule foldE_invariant)
    fix p u v
    assume "p \<in> set (map snd (st_positions st))" and u: "store_ok u \<and> st_positions u = st_positions st"
      and "migrate_order_row p u = Inr v"
    moreover from calculation(1) obtain k where "(k, p) \<in> set (st_positions u)" using u by auto
    with u have "p_id p \<in> position_ids u" using in_positions by blast
    ultimately show "store_ok v \<and> st_positions v = st_positions st" using migrate_order_row_ok by metis
  qed (simp add: assms(1))
  then show ?thesis ..
qed

lemma migrate_protection_row_ok:
  assumes "store_ok st" and "p_id p \<in> position_ids st"
  shows "store_ok (migrate_protection_row now p st) \<and>
    st_positions (migrate_protection_row now p st) = st_positions st"
  using assms by (auto simp: migrate_protection_row_def Let_def protection_ok_def intro!: put_protection_ok
      split: option.splits) (auto simp: put_protection_def)

lemma migrate_v6_ok:
  assumes ok: "store_ok st" shows "store_ok (migrate_v6 now st)"
proof -
  have "store_ok (fold (migrate_protection_row now) ps u)"
    if "store_ok u" "\<forall>p\<in>set ps. p_id p \<in> position_ids u" for ps u
    using that
  proof (induction ps arbitrary: u)
    case (Cons p ps)
    then have "store_ok (migrate_protection_row now p u)"
      and "position_ids (migrate_protection_row now p u) = position_ids u"
      using migrate_protection_row_ok [of u p now] by (simp_all add: position_ids_def)
    with Cons show ?case by simp
  qed simp
  moreover have "\<forall>p\<in>set (map snd (st_positions st)). p_id p \<in> position_ids st"
    using in_positions [OF _ ok] by force
  ultimately show ?thesis unfolding migrate_v6_def using ok by blast
qed

lemma migrate_v7_ok:
  assumes ok: "store_ok st" and "migrate_v7 st = Inr st'"
  shows "store_ok st'"
proof -
  have "store_ok st' \<and> st_positions st' = st_positions st"
    using assms(2) unfolding migrate_v7_def
  proof (rule foldE_invariant)
    fix c u v
    assume c: "c \<in> set (map snd (st_conditions st))" and u: "store_ok u \<and> st_positions u = st_positions st"
      and v: "migrate_condition_row c u = Inr v"
    have p: "c_position_id c \<in> position_ids u"
      using c ok u by (auto simp: store_ok_def conditions_ok_def position_ids_def)
    show "store_ok v \<and> st_positions v = st_positions st"
    proof (cases "normalize_position_rule (c_purpose c) (JObj (col_obj (c_expression c))) (c_enabled c) (col_obj (c_metadata c))")
      case (Inl e)
      with v u show ?thesis by (cases e) (simp_all add: migrate_condition_row_def)
    next
      case (Inr m)
      have "condition_ok (c\<lparr>c_metadata := dumps m\<rparr>)" using normalize_rule_canonical [OF Inr]
        by (auto simp: condition_ok_def col_obj_def json_loads_def as_obj_def)
      with p u have "store_ok (u\<lparr>st_conditions := tset (c_id c) (c\<lparr>c_metadata := dumps m\<rparr>) (st_conditions u)\<rparr>)"
        by (intro put_condition_ok) simp_all
      moreover from v Inr have "v = u\<lparr>st_conditions := tset (c_id c) (c\<lparr>c_metadata := dumps m\<rparr>) (st_conditions u)\<rparr>"
        by (simp add: migrate_condition_row_def)
      ultimately show ?thesis using u by simp
    qed
  qed (simp add: ok)
  then show ?thesis ..
qed

subsection \<open>Properties\<close>

definition empty_store :: store where
  "empty_store = \<lparr>st_positions = [], st_allocations = [], st_orders = [], st_conditions = [], st_protections = []\<rparr>"

lemma empty_store_ok: "store_ok empty_store"
  by (simp add: store_ok_def empty_store_def positions_ok_def allocations_ok_def orders_ok_def conditions_ok_def
      protections_ok_def)

text \<open>C22: From an empty database, every sequence of store operations, in whatever order and with
  whatever interleaving of failures, leaves a consistent store: rows carry their keys, every fill,
  order link, close condition and protection belongs to an existing position, quantities are never
  negative, nonempty client order ids and protection identities are unique, and every close
  condition is canonical. Callers that write a position or a remaining quantity directly must supply
  nonnegative ones.\<close>

theorem store_invariant:
  assumes "list_all allowed_op ops"
  shows "store_ok (run_steps store_step ops empty_store)"
  by (rule position_store.run_keeps [OF empty_store_ok assms])

definition sample_position :: position where
  "sample_position = \<lparr>p_id = ''p1'', p_source = ''strategy'', p_strategy_id = ''s1'', p_trade_id = None, p_inst_id = ''BTC-USDT-SWAP'',
     p_side = ''long'', p_opened = Some 0, p_remaining = Some 0, p_entry_price = 0, p_entry_time = ''t0'', p_status = PendingOpen,
     p_exchange_order_id = [], p_client_order_id = ''c1'', p_exchange_position_key = [], p_metadata = dumps [],
     p_created_at = ''t0'', p_updated_at = ''t0''\<rparr>"

definition sample_fill :: "string \<Rightarrow> alloc_action \<Rightarrow> rat \<Rightarrow> rat \<Rightarrow> allocation" where
  "sample_fill i a q v = \<lparr>al_id = i, al_position_id = ''p1'', al_action = a, al_quantity = q, al_price = Some v, al_fee = None,
     al_exchange_order_id = ''o1'', al_reason = ''fill'', al_created_at = ''t1'', al_metadata = dumps [], al_applied = True\<rparr>"

definition sample_ops :: "store_op list" where
  "sample_ops = [SavePosition ''t0'' sample_position, RecordAllocation ''t1'' (sample_fill ''f1'' AOpen 2 100) True False,
     RecordAllocation ''t2'' (sample_fill ''f2'' AClose 2 110) True False]"

lemma sample_ops_allowed: "list_all allowed_op sample_ops"
  by (simp add: sample_ops_def allowed_op_def quantities_ok_def sample_position_def)

theorem store_invariant_witness:
  "store_ok (run_steps store_step sample_ops empty_store) \<and>
   map_option p_status (ps_get (run_steps store_step sample_ops empty_store) ''p1'') = Some Closed"
proof -
  have "map_option p_status (ps_get (run_steps store_step sample_ops empty_store) ''p1'') = Some Closed"
    by code_simp
  then show ?thesis using store_invariant [OF sample_ops_allowed] by blast
qed

text \<open>C24: The ledger is append-only. Along every sequence of operations no position disappears, an
  order link once made is never changed, and a recorded fill keeps all its data; its only change is
  from deferred to applied, never back.\<close>

theorem ledger_append_only:
  assumes "store_ok st" and "list_all allowed_op ops"
  shows "ledger_le st (run_steps store_step ops st)"
  by (rule position_ledger.run_forward [OF assms])

theorem ledger_append_only_witness:
  "ledger_le (run_steps store_step sample_ops empty_store)
     (run_steps store_step sample_ops (run_steps store_step sample_ops empty_store))"
  using ledger_append_only [OF position_store.run_keeps [OF empty_store_ok sample_ops_allowed] sample_ops_allowed] .


definition legacy_store :: store where
  "legacy_store = put_position (sample_position\<lparr>p_exchange_order_id := ''o1''\<rparr>) empty_store"


text \<open>C17: The books balance, although the store computes in doubles. After any sequence of accepted fills
  without manual adjustment, the opened quantity is exactly what was bought; the remaining quantity is what
  was bought less what was sold, or above it by at most one unit of the twelfth decimal per fill, which
  the tolerance for a final fill forgives. This holds for quantities with at most twelve decimals whose
  total stays below 1024; beyond, the errors of the doubles are no longer rounded away.\<close>

theorem books_balance:
  assumes "foldE apply_fill fills p = Inr q" and "p_opened p = Some u" and "on_grid12 u" and "0 \<le> u"
    and "p_remaining p = Some r" and "on_grid12 r" and "0 \<le> r"
    and "list_all (\<lambda>a. al_action a \<noteq> AAdjustment \<and> on_grid12 (al_quantity a)) fills"
    and "u + sum_list (map bought fills) < 1024" and "r + sum_list (map bought fills) < 1024"
  shows "p_opened q = Some (u + sum_list (map bought fills)) \<and> (\<exists>r'. p_remaining q = Some r' \<and>
    r + sum_list (map bought fills) - sum_list (map sold fills) \<le> r' \<and>
    r' \<le> r + sum_list (map bought fills) - sum_list (map sold fills) + of_nat (length fills) / 10 ^ 12)"
  by (rule fills_exact [OF assms])

definition sample_fills :: "allocation list" where
  "sample_fills = [sample_fill ''f1'' AOpen 2 100, sample_fill ''f2'' AOpen 2 104, sample_fill ''f3'' AReduce 1 110]"

lemma sample_fills_accepted: "\<exists>q. foldE apply_fill sample_fills sample_position = Inr q"
proof -
  have "is_ok (foldE apply_fill sample_fills sample_position)" by code_simp
  then show ?thesis by (simp add: is_ok_iff)
qed

theorem books_balance_witness:
  "\<exists>q r'. foldE apply_fill sample_fills sample_position = Inr q \<and> p_opened q = Some 4 \<and> p_remaining q = Some r' \<and>
     3 \<le> r' \<and> r' \<le> 3 + 3 / 10 ^ 12"
proof -
  obtain q where q: "foldE apply_fill sample_fills sample_position = Inr q" using sample_fills_accepted by blast
  have p: "p_opened sample_position = Some 0" "p_remaining sample_position = Some 0" by (simp_all add: sample_position_def)
  have g: "on_grid12 0" "on_grid12 1" "on_grid12 2" by (simp_all add: on_grid12_def)
  have l: "list_all (\<lambda>a. al_action a \<noteq> AAdjustment \<and> on_grid12 (al_quantity a)) sample_fills"
    using g by (simp add: sample_fills_def sample_fill_def)
  have "sum_list (map bought sample_fills) = 4" "sum_list (map sold sample_fills) = 1" "length sample_fills = 3"
    by (simp_all add: sample_fills_def sample_fill_def bought_def sold_def)
  with books_balance [OF q p(1) g(1) _ p(2) g(1) _ l] q show ?thesis by auto
qed

text \<open>A fill delivered again changes nothing. Once a fill is recorded, recording any equivalent
  delivery of it (the same fill from another channel, with another correlation id or confirmation
  source, or with numbers within the relative tolerance of \<^verbatim>\<open>1e-9\<close>) succeeds and leaves the
  store exactly as it is, so no quantity is counted twice.\<close>

theorem redelivered_fill_is_ignored:
  assumes "record_allocation now a ap w st = (Inr (Some p), st')" and "tget (st_allocations st) (al_id a) = None"
    and "allocations_equivalent a b = Inr True" and "al_id b = al_id a"
  shows "record_allocation now' b ap' w' st' = (Inr (ps_get st' (al_position_id a)), st')"
proof -
  have s: "tget (st_allocations st') (al_id b) = Some (a\<lparr>al_applied := ap\<rparr>)" "al_position_id b = al_position_id a"
    using record_allocation_new [OF assms(1,2)] assms(4) equivalent_position [OF assms(3)] by simp_all
  obtain q where q: "ps_get st' (al_position_id a) = Some q" using record_allocation_new [OF assms(1,2)] by auto
  show ?thesis using record_allocation_seen [OF s(1)] q s(2) assms(3) by (simp add: equivalent_applied)
qed

definition redelivery :: allocation where
  "redelivery = (sample_fill ''f1'' AOpen 2 100)\<lparr>al_metadata := dumps [(''correlation_id'', JStr ''x''),
     (''confirmation_source'', JStr ''rest'')]\<rparr>"

theorem redelivered_fill_is_ignored_witness:
  "\<exists>q st'. record_allocation ''t1'' (sample_fill ''f1'' AOpen 2 100) True False (put_position sample_position empty_store) =
       (Inr (Some q), st') \<and> record_allocation ''t9'' redelivery True True st' = (Inr (ps_get st' ''p1''), st')"
proof -
  have "(case fst (record_allocation ''t1'' (sample_fill ''f1'' AOpen 2 100) True False (put_position sample_position empty_store)) of
      Inr (Some q) \<Rightarrow> True | _ \<Rightarrow> False)" by code_simp
  then obtain q st' where r: "record_allocation ''t1'' (sample_fill ''f1'' AOpen 2 100) True False
      (put_position sample_position empty_store) = (Inr (Some q), st')"
    by (auto split: sum.splits option.splits) (metis prod.collapse)
  have n: "tget (st_allocations (put_position sample_position empty_store)) (al_id (sample_fill ''f1'' AOpen 2 100)) = None"
    by (simp add: empty_store_def)
  have e: "allocations_equivalent (sample_fill ''f1'' AOpen 2 100) redelivery = Inr True"
    "al_id redelivery = al_id (sample_fill ''f1'' AOpen 2 100)" by code_simp+
  have "al_position_id (sample_fill ''f1'' AOpen 2 100) = ''p1''" by (simp add: sample_fill_def)
  then show ?thesis using redelivered_fill_is_ignored [OF r n e] r by metis
qed

text \<open>A fill id reused for different data is an error and changes nothing.\<close>

theorem conflicting_fill_is_rejected:
  assumes "tget (st_allocations st) (al_id b) = Some e" and "ps_get st (al_position_id b) = Some p"
    and "allocations_equivalent e b = Inr False"
  shows "\<exists>m. record_allocation now b ap w st = (Inl (AllocationConflictError m), st)"
  using record_allocation_seen [OF assms(1,2)] assms(3) by simp

theorem conflicting_fill_is_rejected_witness:
  "\<exists>m. record_allocation ''t1'' (sample_fill ''f1'' AOpen 3 100) True False
     (put_allocation (sample_fill ''f1'' AOpen 2 100) (put_position sample_position empty_store)) =
   (Inl (AllocationConflictError m), put_allocation (sample_fill ''f1'' AOpen 2 100) (put_position sample_position empty_store))"
proof (rule conflicting_fill_is_rejected)
  show "tget (st_allocations (put_allocation (sample_fill ''f1'' AOpen 2 100) (put_position sample_position empty_store)))
      (al_id (sample_fill ''f1'' AOpen 3 100)) = Some (sample_fill ''f1'' AOpen 2 100)"
    by (simp add: put_allocation_def sample_fill_def)
  show "ps_get (put_allocation (sample_fill ''f1'' AOpen 2 100) (put_position sample_position empty_store))
      (al_position_id (sample_fill ''f1'' AOpen 3 100)) = Some sample_position"
    by (simp add: put_allocation_def ps_get_def sample_fill_def sample_position_def)
  show "allocations_equivalent (sample_fill ''f1'' AOpen 2 100) (sample_fill ''f1'' AOpen 3 100) = Inr False"
    by code_simp
qed

text \<open>C23: A pending execution is claimed at most once. After a claim that moved the position away
  from the expected status, every later claim that expects that status fails without changing the
  store, so two workers cannot both submit the order.\<close>

theorem claim_is_exclusive:
  assumes "claim_pending_execution now pid expected status cid m st = (Inr (Some p), st')" and "status \<noteq> expected"
    and "store_ok st"
  shows "p_status p = status \<and> p_client_order_id p = cid \<and>
    claim_pending_execution now' pid expected status' cid' m' st' = (Inr None, st')"
proof (cases "ps_get st pid")
  case None
  with assms(1) show ?thesis by (simp add: claim_pending_execution_def)
next
  case (Some q)
  with assms(1,2) ps_getD(1) [OF assms(3) Some] show ?thesis
    by (auto simp: claim_pending_execution_def Let_def split: if_splits)
qed

theorem claim_is_exclusive_witness:
  "\<exists>p st'. claim_pending_execution ''t1'' ''p1'' PendingOpen Open ''c9'' [] (put_position sample_position empty_store) =
      (Inr (Some p), st') \<and>
    claim_pending_execution ''t2'' ''p1'' PendingOpen Open ''c10'' [] st' = (Inr None, st')"
proof -
  have "(case fst (claim_pending_execution ''t1'' ''p1'' PendingOpen Open ''c9'' [] (put_position sample_position empty_store)) of
      Inr (Some q) \<Rightarrow> True | _ \<Rightarrow> False)" by code_simp
  then obtain p st' where c: "claim_pending_execution ''t1'' ''p1'' PendingOpen Open ''c9'' []
      (put_position sample_position empty_store) = (Inr (Some p), st')"
    by (auto split: sum.splits option.splits) (metis prod.collapse)
  have "store_ok (put_position sample_position empty_store)"
    by (rule put_position_ok [OF empty_store_ok]) (simp_all add: quantities_ok_def sample_position_def client_taken_def empty_store_def)
  with c show ?thesis using claim_is_exclusive [OF c] by blast
qed

text \<open>A late fill cannot reopen a closed position: an entry fill is refused and a reduction
  leaves it closed with nothing remaining; only an explicit adjustment can change it.\<close>

theorem late_fill_cannot_reopen:
  assumes "ps_get st (al_position_id a) = Some p" and "p_id p = al_position_id a"
    and "p_status p = Closed" and "p_remaining p = Some 0" and "al_action a \<noteq> AAdjustment"
  shows "\<exists>q. ps_get (snd (record_allocation now a ap w st)) (al_position_id a) = Some q \<and>
    p_status q = Closed \<and> p_remaining q = Some 0"
proof -
  have "p_status q = Closed \<and> p_remaining q = Some 0 \<and> p_id q = p_id p"
    if "validate_allocation p a w (\<not> ap) = Inr ()" "apply_allocation_fields p a = Inr q" for q
  proof -
    have le: "0 \<le> al_quantity a" using validate_allocation_Inr [OF that(1)] .
    then have "minus12 0 (al_quantity a) \<le> 0"
      using dbl_nonneg [of "al_quantity a"] py_round12_mono [of "dbl (- dbl (al_quantity a))" 0] by (simp add: minus12_def dbl_minus)
    then show ?thesis using that assms(3-5)
      by (auto simp: apply_allocation_fields_def apply_reduction_def Let_def validate_allocation_def bindE_eq_Inr max_def
          split: alloc_action.splits)
  qed
  note fields = this
  consider (kept) "snd (record_allocation now a ap w st) = st"
    | (deferred) "snd (record_allocation now a ap w st) = put_allocation (a\<lparr>al_applied := False\<rparr>) st"
    | (applied) q where "validate_allocation p a w (\<not> ap) = Inr ()" "apply_allocation_fields p a = Inr q"
        "snd (record_allocation now a ap w st) = put_position (q\<lparr>p_updated_at := now\<rparr>) (put_allocation (a\<lparr>al_applied := True\<rparr>) st)"
    using assms(1) by (rule record_allocation_cases)
  then show ?thesis
  proof cases
    case (applied q)
    from fields [OF applied(1,2)] assms(2) show ?thesis unfolding applied(3) by simp
  qed (use assms(1,3,4) in \<open>simp_all add: put_allocation_def ps_get_def\<close>)
qed

definition closed_position :: position where
  "closed_position = sample_position\<lparr>p_status := Closed\<rparr>"

theorem late_fill_cannot_reopen_witness:
  "\<exists>q. ps_get (snd (record_allocation ''t1'' (sample_fill ''f7'' AOpen 1 100) True True
      (put_position closed_position empty_store))) ''p1'' = Some q \<and> p_status q = Closed"
proof -
  have i: "al_position_id (sample_fill ''f7'' AOpen 1 100) = ''p1''" "al_action (sample_fill ''f7'' AOpen 1 100) \<noteq> AAdjustment"
    by (simp_all add: sample_fill_def)
  have "ps_get (put_position closed_position empty_store) ''p1'' = Some closed_position" "p_id closed_position = ''p1''"
    "p_status closed_position = Closed" "p_remaining closed_position = Some 0"
    by (simp_all add: closed_position_def sample_position_def)
  from late_fill_cannot_reopen [of _ "sample_fill ''f7'' AOpen 1 100", unfolded i(1), OF this i(2)] show ?thesis by blast
qed

end
