(* ===== verification/ExecutionProperties.thy ===== *)
theory ExecutionProperties
  imports ExecutionAllocation PositionLedger
begin

section \<open>Allocation of confirmed fills: properties\<close>

text \<open>
  What the ingestion of fills promises: it keeps the invariants of the stores and moves the ledger and
  the trades only forward; a fill delivered again moves no quantity; a stop that the exchange confirmed
  is never loosened by a later entry price. The proofs rest on an interface for computations that
  follow a relation between states.
\<close>

subsection \<open>Interface: computations on the three stores that follow a relation\<close>

locale exec_relation = action_relation le for le :: "exec_state \<Rightarrow> exec_state \<Rightarrow> bool"
begin

lemma read: "(\<And>s. safe s \<Longrightarrow> Q (f (xs_pos s))) \<Longrightarrow> behaves le safe Q (readS f)"
  by (simp add: behaves_def readS_def le_refl)

end

subsection \<open>Fills and the books\<close>

definition exec_ok :: "exec_state \<Rightarrow> bool" where
  "exec_ok s \<longleftrightarrow> store_ok (xs_pos s) \<and> trades_ok (xs_trades s)"

definition exec_le :: "exec_state \<Rightarrow> exec_state \<Rightarrow> bool" where
  "exec_le s s' \<longleftrightarrow> ledger_le (xs_pos s) (xs_pos s') \<and> trade_le (xs_trades s) (xs_trades s')"

interpretation books: exec_relation exec_le
  by unfold_locales (auto simp: exec_le_def ledger_refl trade_le_refl intro: ledger_trans trade_lifecycle.le_trans)

abbreviation books_ok :: "('a \<Rightarrow> bool) \<Rightarrow> 'a exec \<Rightarrow> bool" where
  "books_ok \<equiv> behaves exec_le exec_ok"

lemma books_positions:
  assumes "allowed_op x" and "\<And>st. snd (m st) = store_step x st" and "\<And>st y. store_ok st \<Longrightarrow> fst (m st) = Inr y \<Longrightarrow> Q y"
  shows "books_ok Q (on_positions m)"
  unfolding behaves_def
proof (intro allI impI)
  fix s assume s: "exec_ok s"
  obtain r st where m: "m (xs_pos s) = (r, st)" by (cases "m (xs_pos s)")
  with assms(2) [of "xs_pos s"] have st: "st = store_step x (xs_pos s)" by simp
  have o: "store_ok (xs_pos s)" using s by (simp add: exec_ok_def)
  have "store_ok st" "ledger_le (xs_pos s) st"
    using position_store.step_keeps [OF o assms(1)] position_ledger.step_forward [OF o assms(1)] st by simp_all
  then show "exec_ok (snd (on_positions m s)) \<and> exec_le s (snd (on_positions m s)) \<and> (\<forall>y. fst (on_positions m s) = Inr y \<longrightarrow> Q y)"
    using s m assms(3) [OF o] by (simp add: on_positions_def exec_ok_def exec_le_def trade_le_refl)
qed

lemma books_trades:
  assumes "lifecycle_op x" and "\<And>db. snd (m db) = trade_step x db"
  shows "books_ok (\<lambda>_. True) (on_trades m)"
  unfolding behaves_def
proof (intro allI impI)
  fix s assume s: "exec_ok s"
  obtain r db where m: "m (xs_trades s) = (r, db)" by (cases "m (xs_trades s)")
  with assms(2) [of "xs_trades s"] have db: "db = trade_step x (xs_trades s)" by simp
  have o: "trades_ok (xs_trades s)" using s by (simp add: exec_ok_def)
  have "trades_ok db" "trade_le (xs_trades s) db" using trade_step_ok [OF o] trade_step_le [OF o assms(1)] db by simp_all
  then show "exec_ok (snd (on_trades m s)) \<and> exec_le s (snd (on_trades m s)) \<and> (\<forall>y. fst (on_trades m s) = Inr y \<longrightarrow> True)"
    using s m by (simp add: on_trades_def exec_ok_def exec_le_def ledger_refl)
qed

lemma books_audit: "books_ok (\<lambda>_. True) (on_audit m)"
  by (simp add: behaves_def on_audit_def exec_ok_def exec_le_def ledger_refl trade_le_refl split_beta)

definition sound_position :: "position option \<Rightarrow> bool" where
  "sound_position x = (case x of None \<Rightarrow> True | Some p \<Rightarrow> quantities_ok p)"

lemma stored_sound: "store_ok st \<Longrightarrow> sound_position (ps_get st k)"
  using ps_getD(2) by (auto simp: sound_position_def split: option.split)

lemma sound_or_default: "sound_position x \<Longrightarrow> quantities_ok p \<Longrightarrow> quantities_ok (or_default x p)"
  by (cases x) (simp_all add: sound_position_def)

text \<open>The store's own operations, as the service calls them.\<close>

lemma books_record: "books_ok sound_position (on_positions (record_allocation now a ap w))"
proof (rule books_positions [where x = "RecordAllocation now a ap w"])
  fix st y assume ok: "store_ok st" and y: "fst (record_allocation now a ap w st) = Inr y"
  have ok': "store_ok (snd (record_allocation now a ap w st))" by (rule record_allocation_ok [OF ok])
  show "sound_position y"
  proof (cases "ps_get st (al_position_id a)")
    case None
    with y show ?thesis by (simp add: record_allocation_def sound_position_def)
  next
    case (Some p)
    have "sound_position (Some p)" using stored_sound [OF ok, of "al_position_id a"] Some by simp
    moreover have "y = Some q \<Longrightarrow> snd (record_allocation now a ap w st) = put_position q st1 \<Longrightarrow> sound_position y" for q st1
      using stored_sound [OF ok', of "p_id q"] by simp
    ultimately show ?thesis using y Some
      by (auto simp: record_allocation_def Let_def split: option.splits sum.splits bool.splits if_splits)
  qed
qed (simp_all add: allowed_op_def)

lemma books_tracking: "books_ok sound_position (on_positions (update_execution_tracking now pid oid es b))"
proof (rule books_positions [where x = "Tracking now pid oid es b"])
  fix st y assume ok: "store_ok st" and y: "fst (update_execution_tracking now pid oid es b st) = Inr y"
  have "store_ok (snd (update_execution_tracking now pid oid es b st))"
    using position_store.step_keeps [OF ok, of "Tracking now pid oid es b"] by (simp add: allowed_op_def)
  from stored_sound [OF this, of pid] stored_sound [OF ok, of pid] y show "sound_position y"
    by (auto simp: update_execution_tracking_def Let_def sound_position_def split: option.splits if_splits)
qed (simp_all add: allowed_op_def)

lemma books_merge: "books_ok sound_position (on_positions (merge_metadata now pid m))"
proof (rule books_positions [where x = "MergeMetadata now pid m"])
  fix st y assume ok: "store_ok st" and y: "fst (merge_metadata now pid m st) = Inr y"
  have "store_ok (snd (merge_metadata now pid m st))"
    using position_store.step_keeps [OF ok, of "MergeMetadata now pid m"] by (simp add: allowed_op_def)
  from stored_sound [OF this, of pid] stored_sound [OF ok, of pid] y show "sound_position y"
    by (auto simp: merge_metadata_def Let_def sound_position_def split: option.splits if_splits)
qed (simp_all add: allowed_op_def)

lemma books_deferred: "books_ok (\<lambda>(x, _). sound_position x) (on_positions (apply_deferred_allocations now pid))"
proof (rule books_positions [where x = "ApplyDeferred now pid"])
  fix st and y :: "position option \<times> allocation list"
  assume ok: "store_ok st" and y: "fst (apply_deferred_allocations now pid st) = Inr y"
  have ok': "store_ok (snd (apply_deferred_allocations now pid st))" by (rule apply_deferred_ok [OF ok])
  show "case y of (x, _) \<Rightarrow> sound_position x"
  proof (cases "ps_get st pid")
    case None
    with y show ?thesis by (auto simp: apply_deferred_allocations_def sound_position_def)
  next
    case (Some p)
    then obtain q st' ds where l: "apply_deferred_loop (deferred_allocations st pid) p st = Inr (q, st', ds)"
      using y by (cases "apply_deferred_loop (deferred_allocations st pid) p st") (auto simp: apply_deferred_allocations_def)
    show ?thesis
    proof (cases "ds = []")
      case True
      with l have "q = p" by (cases "deferred_allocations st pid") (auto simp: bindE_eq_Inr Let_def split: sum.splits py_exc.splits)
      with True l y Some stored_sound [OF ok, of pid] show ?thesis by (auto simp: apply_deferred_allocations_def)
    next
      case False
      with l y Some stored_sound [OF ok', of "p_id q"] show ?thesis by (auto simp: apply_deferred_allocations_def)
    qed
  qed
qed (simp_all add: allowed_op_def)

lemma books_update_condition: "books_ok (\<lambda>_. True) (on_positions (update_close_condition now pid cid pu ex en md))"
  by (rule books_positions [where x = "UpdateCondition now pid cid pu ex en md"]) (simp_all add: allowed_op_def)

lemma books_protection: "books_ok (\<lambda>_. True) (on_positions (update_protection now pid s q l t m))"
  by (rule books_positions [where x = "UpdateProtection now pid s q l t m"]) (simp_all add: allowed_op_def)

lemma books_link: "books_ok (\<lambda>_. True) (on_positions (link_exchange_order now pid c oid m))"
  by (rule books_positions [where x = "LinkExchange now pid c oid m"]) (simp_all add: allowed_op_def)

lemma books_status: "quantities_ok p \<Longrightarrow> books_ok (\<lambda>_. True) (on_positions (update_status now pid s (p_remaining p)))"
  by (rule books_positions [where x = "UpdateStatus now pid s (p_remaining p)"])
    (auto simp: allowed_op_def quantities_ok_def split: option.split)

text \<open>The parts of the service.\<close>

lemmas books_steps = books.bind books.return books.lift books.read books.then_unit [where Q = "\<lambda>_. True"]
  books.guarded books_audit

lemma books_resolve: "books_ok (\<lambda>_. True) (resolve_position env fill existing)"
  unfolding resolve_position_def
  by (rule books.bind [where Q = "\<lambda>_. True"])
    (auto intro!: books_steps books.bind [where Q = "\<lambda>_. True"] books_link split: option.split)

lemma books_close_trade: "books_ok (\<lambda>_. True) (close_linked_trade env p a)"
proof -
  have "books_ok (\<lambda>_. True) (on_trades (close_trade now tid pr r b re))" for now tid pr r b re
    by (rule books_trades [where x = "CloseTrade now tid pr r b re"]) (simp_all add: lifecycle_op_def)
  then show ?thesis unfolding close_linked_trade_def
    by (auto intro!: books_steps books.bind [where Q = "\<lambda>_. True"] split: option.split)
qed

lemma books_update_trade:
  assumes "quantities_ok p" shows "books_ok (\<lambda>_. True) (update_trade_and_status env p a)"
proof -
  have "books_ok (\<lambda>_. True) (on_trades (mark_trade_open tid pr))" for tid pr
    by (rule books_trades [where x = "MarkOpen tid pr"]) (simp_all add: lifecycle_op_def)
  then show ?thesis unfolding update_trade_and_status_def
    by (auto intro!: books_steps books.bind [where Q = "\<lambda>_. True"] books_close_trade books_status assms split: option.split)
qed

lemma books_one_shot: "books_ok (\<lambda>_. True) (complete_one_shot_rule env p a)"
  unfolding complete_one_shot_rule_def Let_def
  by (auto intro!: books_steps books.bind [where Q = "\<lambda>_. True"] books_update_condition split: option.split jcol.split)

lemma books_materialize: "books_ok (\<lambda>_. True) (materialize_confirmed_entry_rules env p a)"
proof -
  have skip: "books_ok (\<lambda>_. True) (skip_looser_stop env p a c pr ex)" for c pr ex
    unfolding skip_looser_stop_def by (rule books.then_unit [OF books_audit])
  have defer': "books_ok (\<lambda>_. True) (defer_stop_change env p a c ex md)" for c ex md
    unfolding defer_stop_change_def
    by (rule books.bind [OF books_update_condition], rule books.bind [OF books_merge], rule books.then_unit [OF books_audit])
  have "books_ok (\<lambda>_. True) (materialize_condition env p a pr c u)" for pr c u
    unfolding materialize_condition_def
    by (auto intro!: books_steps books.bind [where Q = "\<lambda>_. True"] books_update_condition skip defer' split: option.split)
  then show ?thesis unfolding materialize_confirmed_entry_rules_def
    by (auto intro!: books.bind [where Q = "\<lambda>_. True"] books.read books.fold)
qed

lemma behaves_pointwise:
  assumes "\<And>s. safe s \<Longrightarrow> \<exists>m'. m s = m' s \<and> behaves le safe Q m'"
  shows "behaves le safe Q m"
  unfolding behaves_def
proof (intro allI impI)
  fix s assume s: "safe s"
  with assms obtain m' where "m s = m' s" "behaves le safe Q m'" by blast
  with s show "safe (snd (m s)) \<and> le s (snd (m s)) \<and> (\<forall>x. fst (m s) = Inr x \<longrightarrow> Q x)" by (simp add: behaves_def)
qed

lemma books_audit_record: "books_ok (\<lambda>_. True) (record_allocation_audit env p a cid src es)"
proof (rule behaves_pointwise)
  fix s
  show "\<exists>m'. record_allocation_audit env p a cid src es s = m' s \<and> books_ok (\<lambda>_. True) m'"
    unfolding record_allocation_audit_def Let_def by (intro exI conjI) (rule refl, rule books.then_unit [OF books_audit])
qed

lemma books_decision: "books_ok (\<lambda>_. True) (update_correlated_decision env p a cid es)"
proof (rule behaves_pointwise)
  fix s
  show "\<exists>m'. update_correlated_decision env p a cid es s = m' s \<and> books_ok (\<lambda>_. True) m'"
  proof (cases "list_events (xs_audit s) 1 ''strategy.action_decision'' [] [] cid [] [] []")
    case Nil
    then show ?thesis by (intro exI [of _ "returnS ()"]) (simp add: update_correlated_decision_def returnS_def books.return)
  next
    case (Cons d ds)
    then have e: "update_correlated_decision env p a cid es s = bindS (on_audit (create_event (xe_now env) [] (ae_type d) (ae_source d)
        (let payload = tmerge (event_payload d) [(''execution_status'', JStr es), (''latest_fill_id'', JStr (al_id a)),
            (''filled_quantity'', opt_json (p_opened p)), (''average_fill_price'', JFloat (PFin (p_entry_price p)))]
         in if es = ''filled'' \<or> es = ''closed'' then tset ''completed_at'' (JStr (xe_now env)) payload else payload)
        (ae_id d) (ae_created_at d))) (\<lambda>_. returnS ()) s"
      by (simp add: update_correlated_decision_def Let_def)
    show ?thesis unfolding e by (intro exI conjI) (rule refl, rule books.then_unit [OF books_audit])
  qed
qed

lemma books_settle_deferred:
  assumes "quantities_ok p"
  shows "books_ok (\<lambda>(q, _). quantities_ok q) (settle_deferred env fill cid a (p, b, st))"
  unfolding settle_deferred_def Let_def prod.case
  by (intro books.bind [OF books_update_trade [OF assms]] books.bind [OF books_merge] books.bind [OF books_audit_record]
      books.bind [where Q = "\<lambda>_. True"] books.lift books.return) (simp_all add: sound_or_default assms)

lemma books_settle_all:
  assumes "quantities_ok p"
  shows "books_ok (\<lambda>(q, _). quantities_ok q) (settle_deferred_fills env fill cid p a st)"
proof (cases "al_action a = AOpen")
  case True
  have "books_ok (\<lambda>(q, _). quantities_ok q) (foldS (settle_deferred env fill cid) ds (q, a, st))" if "quantities_ok q" for q ds
    by (rule books.fold) (use that in \<open>auto intro: books_settle_deferred\<close>)
  with True show ?thesis unfolding settle_deferred_fills_def
    by (auto intro!: books.bind [OF books_deferred] books.lift simp: sound_position_def split: option.split)
qed (use assms in \<open>simp add: settle_deferred_fills_def books.return\<close>)

lemma books_triggered: "books_ok (\<lambda>_. True) (update_triggered_protection env pid p a)"
  unfolding update_triggered_protection_def
  by (auto intro!: books_steps books.bind [where Q = "\<lambda>_. True"] books_protection split: option.split)

lemma books_settle_fill:
  assumes "quantities_ok p" shows "books_ok (\<lambda>_. True) (settle_fill env fill ex pid cid a p)"
  unfolding settle_fill_def Let_def
proof (rule books.bind [OF books_update_trade [OF assms]], rule books.bind [OF books.guarded [OF books_materialize TrueI]],
    rule books.bind [OF books.guarded [OF books_one_shot TrueI]], rule books.bind [OF books_tracking],
    rule books.bind [OF books.guarded [OF books_audit_record TrueI]], rule books.bind [OF books_settle_all])
  show "quantities_ok (or_default x p)" if "sound_position x" for x using sound_or_default [OF that assms] .
  show "books_ok (\<lambda>_. True) (case y of (p2, decision, status2) \<Rightarrow>
      bindS (whenS (cid \<noteq> []) (update_correlated_decision env p2 decision cid status2)) (\<lambda>_.
      bindS (update_triggered_protection env pid p2 decision) (\<lambda>_.
      returnS \<lparr>ir_allocation = or_default ex a, ir_position = p2, ir_idempotent = (ex \<noteq> None), ir_execution_status = status2\<rparr>)))" for y
    by (auto intro!: books.bind [OF books.guarded [OF books_decision TrueI]] books.bind [OF books_triggered] books.return split: prod.split)
qed

lemma books_deferred_close:
  assumes "quantities_ok p" shows "books_ok (\<lambda>_. True) (record_deferred_close env p a)"
  unfolding record_deferred_close_def Let_def
  by (intro books.bind [OF books_tracking] books.bind [OF books_audit] books.return) simp_all

lemma books_ingest: "books_ok (\<lambda>_. True) (ingest env fill)"
proof -
  have new: "books_ok (\<lambda>_. True) (bindS (on_positions (record_allocation now a ap w)) (\<lambda>updated. case updated of
      None \<Rightarrow> liftS (Inl e) | Some u \<Rightarrow> if d then record_deferred_close env u a else settle_fill env fill ex pid cid a u))"
    for now a ap w e d ex pid cid
    by (rule books.bind [OF books_record])
      (auto simp: sound_position_def intro: books.lift books_deferred_close books_settle_fill split: option.splits)
  have again: "books_ok (\<lambda>_. True) (bindS (on_positions (record_allocation now a ap w)) (\<lambda>updated. case updated of
      None \<Rightarrow> liftS (Inl e) | Some u \<Rightarrow> settle_fill env fill ex pid cid a u))" for now a ap w e ex pid cid
    by (rule books.bind [OF books_record]) (auto simp: sound_position_def intro: books.lift books_settle_fill split: option.splits)
  have held: "books_ok (\<lambda>_. True) (bindS (on_positions (record_allocation now a ap w)) (\<lambda>_. returnS r))" for now a ap w r
    by (rule books.bind [OF books_record]) (simp add: books.return)
  show ?thesis unfolding ingest_def Let_def
    by (rule books.bind [where Q = "\<lambda>_. True"], rule books.read, simp, rule books.bind [OF books_resolve],
        rule books.bind [where Q = "\<lambda>_. True"])
      (auto intro!: books.return books.inspect held again new books.bind [where Q = "\<lambda>_. True"] books.read split: option.split)
qed

subsection \<open>A fill delivered again\<close>

text \<open>The amounts of a position, and states with the same fills and the same amounts.\<close>

definition amounts :: "store \<Rightarrow> string \<Rightarrow> (rat option \<times> rat option \<times> rat) option" where
  "amounts st k = map_option (\<lambda>p. (p_opened p, p_remaining p, p_entry_price p)) (ps_get st k)"

definition same_amounts :: "store \<Rightarrow> store \<Rightarrow> bool" where
  "same_amounts st st' \<longleftrightarrow> st_allocations st' = st_allocations st \<and> amounts st' = amounts st"

abbreviation unmoved_le :: "exec_state \<Rightarrow> exec_state \<Rightarrow> bool" where
  "unmoved_le s s' \<equiv> same_amounts (xs_pos s) (xs_pos s')"

interpretation unmoved: exec_relation unmoved_le
  by unfold_locales (simp_all add: same_amounts_def)

text \<open>The states of one redelivery: the fills and the amounts of the position are fixed.\<close>

definition frozen :: "(string, allocation) table \<Rightarrow> string \<Rightarrow> rat option \<times> rat option \<times> rat \<Rightarrow> exec_state \<Rightarrow> bool" where
  "frozen fills pid am s \<longleftrightarrow> exec_ok s \<and> st_allocations (xs_pos s) = fills \<and> amounts (xs_pos s) pid = Some am"

lemma unmoved_from_books:
  assumes "books_ok Q m" and "\<And>s. frozen fills pid am s \<Longrightarrow> unmoved_le s (snd (m s))"
  shows "behaves unmoved_le (frozen fills pid am) Q m"
  using assms unfolding behaves_def frozen_def same_amounts_def by (simp, blast)

lemma unmoved_positions:
  assumes "books_ok Q (on_positions m)" and "\<And>st. store_ok st \<Longrightarrow> same_amounts st (snd (m st))"
  shows "behaves unmoved_le (frozen fills pid am) Q (on_positions m)"
  by (rule unmoved_from_books [OF assms(1)]) (simp add: frozen_def exec_ok_def on_positions_def split_beta assms(2))

lemma same_amounts_refl: "same_amounts st st"
  by (simp add: same_amounts_def)

lemma same_amounts_put:
  assumes "ps_get st k = Some p" "p_id q = k" "p_opened q = p_opened p" "p_remaining q = p_remaining p" "p_entry_price q = p_entry_price p"
  shows "same_amounts st (put_position q st)"
  using assms by (auto simp: same_amounts_def amounts_def fun_eq_iff)

definition stored_as :: "string \<Rightarrow> position option \<Rightarrow> bool" where
  "stored_as k x = (case x of None \<Rightarrow> True | Some p \<Rightarrow> p_id p = k)"

lemma books_tracking_id: "books_ok (stored_as k) (on_positions (update_execution_tracking now k oid es b))"
proof (rule books_positions [where x = "Tracking now k oid es b"])
  fix st y assume ok: "store_ok st" and y: "fst (update_execution_tracking now k oid es b st) = Inr y"
  have ok': "store_ok (snd (update_execution_tracking now k oid es b st))"
    using position_store.step_keeps [OF ok, of "Tracking now k oid es b"] by (simp add: allowed_op_def)
  have "y = ps_get (snd (update_execution_tracking now k oid es b st)) k"
    using y by (cases "ps_get st k") (simp_all add: update_execution_tracking_def Let_def split: if_splits)
  with ps_getD(1) [OF ok', of k] show "stored_as k y" by (simp add: stored_as_def split: option.split)
qed (simp_all add: allowed_op_def)

lemma unmoved_tracking: "behaves unmoved_le (frozen fills pid am) (stored_as k) (on_positions (update_execution_tracking now k oid es b))"
proof (rule unmoved_positions [OF books_tracking_id])
  fix st assume ok: "store_ok st"
  show "same_amounts st (snd (update_execution_tracking now k oid es b st))"
  proof (cases "ps_get st k")
    case (Some p)
    note i = ps_getD(1) [OF ok Some]
    show ?thesis using Some i same_amounts_put [OF Some]
      by (simp add: update_execution_tracking_def Let_def same_amounts_refl)
  qed (simp add: update_execution_tracking_def same_amounts_refl)
qed

lemma unmoved_merge: "behaves unmoved_le (frozen fills pid am) sound_position (on_positions (merge_metadata now k m))"
proof (rule unmoved_positions [OF books_merge])
  fix st assume ok: "store_ok st"
  show "same_amounts st (snd (merge_metadata now k m st))"
  proof (cases "ps_get st k")
    case (Some p)
    note i = ps_getD(1) [OF ok Some]
    show ?thesis using Some i same_amounts_put [OF Some] by (simp add: merge_metadata_def Let_def same_amounts_refl)
  qed (simp add: merge_metadata_def same_amounts_refl)
qed

lemma same_amounts_frame:
  "st_positions st' = st_positions st \<Longrightarrow> st_allocations st' = st_allocations st \<Longrightarrow> same_amounts st st'"
  by (simp add: same_amounts_def amounts_def ps_get_def fun_eq_iff)

lemma save_condition_frame:
  "st_positions (snd (save_close_condition now c st)) = st_positions st \<and> st_allocations (snd (save_close_condition now c st)) = st_allocations st"
  by (simp add: save_close_condition_def split: sum.split)

lemma unmoved_condition:
  "behaves unmoved_le (frozen fills pid am) (\<lambda>_. True) (on_positions (update_close_condition now k cid pu ex en md))"
proof (rule unmoved_positions [OF books_update_condition])
  fix st
  have "st_positions st' = st_positions st \<and> st_allocations st' = st_allocations st"
    if "save_close_condition now c st = (r, st')" for c r st'
    using save_condition_frame [of now c st] that by simp
  then show "same_amounts st (snd (update_close_condition now k cid pu ex en md st))"
    by (auto simp: update_close_condition_def Let_def same_amounts_refl intro!: same_amounts_frame split: option.split sum.split prod.split)
qed

lemma unmoved_protection:
  "behaves unmoved_le (frozen fills pid am) (\<lambda>_. True) (on_positions (update_protection now k s q l t m))"
proof (rule unmoved_positions [OF books_protection])
  fix st
  have "st_positions (snd (save_protection now pr st)) = st_positions st \<and> st_allocations (snd (save_protection now pr st)) = st_allocations st" for pr
    by (simp add: save_protection_def put_protection_def Let_def split: option.split)
  then have "st_positions st' = st_positions st \<and> st_allocations st' = st_allocations st" if "save_protection now pr st = (r, st')" for pr r st'
    using that by (metis snd_conv)
  then show "same_amounts st (snd (update_protection now k s q l t m st))"
    by (auto simp: update_protection_def Let_def same_amounts_refl intro!: same_amounts_frame split: option.split sum.split prod.split)
qed

lemma unmoved_trades: "books_ok Q (on_trades m) \<Longrightarrow> behaves unmoved_le (frozen fills pid am) Q (on_trades m)"
  by (rule unmoved_from_books) (simp_all add: on_trades_def split_beta same_amounts_refl)

lemma unmoved_audit: "behaves unmoved_le (frozen fills pid am) (\<lambda>_. True) (on_audit m)"
  by (rule unmoved_from_books [OF books_audit]) (simp add: on_audit_def split_beta same_amounts_refl)

text \<open>A position as it is stored during the redelivery.\<close>

definition current :: "string \<Rightarrow> rat option \<times> rat option \<times> rat \<Rightarrow> position \<Rightarrow> bool" where
  "current pid am p \<longleftrightarrow> p_id p = pid \<and> (p_opened p, p_remaining p, p_entry_price p) = am \<and> quantities_ok p"

lemma unmoved_status:
  assumes "current pid am p"
  shows "behaves unmoved_le (frozen fills pid am) (\<lambda>_. True) (on_positions (update_status now (p_id p) x (p_remaining p)))"
proof (rule unmoved_from_books [OF books_status])
  show "quantities_ok p" using assms by (simp add: current_def)
  fix s assume s: "frozen fills pid am s"
  let ?st = "xs_pos s"
  have ok: "store_ok ?st" using s by (simp add: frozen_def exec_ok_def)
  obtain q where q: "ps_get ?st pid = Some q" "(p_opened q, p_remaining q, p_entry_price q) = am"
    using s by (auto simp: frozen_def amounts_def)
  have "same_amounts ?st (snd (update_status now pid x (p_remaining p) ?st))"
    unfolding update_status_def Let_def q(1) option.case ps_save_def
    using q assms ps_getD(1) [OF ok q(1)] same_amounts_put [OF q(1)]
    by (auto simp: current_def same_amounts_refl split: option.split)
  then show "unmoved_le s (snd (on_positions (update_status now (p_id p) x (p_remaining p)) s))"
    using assms by (simp add: on_positions_def split_beta current_def)
qed

lemmas unmoved_steps = unmoved.return unmoved.lift unmoved.read unmoved.then_unit [where Q = "\<lambda>_. True"]
  unmoved.guarded unmoved_audit

lemma unmoved_update_trade:
  assumes "current pid am p"
  shows "behaves unmoved_le (frozen fills pid am) (\<lambda>_. True) (update_trade_and_status env p a)"
proof -
  have "behaves unmoved_le (frozen fills pid am) (\<lambda>_. True) (on_trades (mark_trade_open tid pr))" for tid pr
    by (rule unmoved_trades [OF books_trades [where x = "MarkOpen tid pr"]]) (simp_all add: lifecycle_op_def)
  moreover have "behaves unmoved_le (frozen fills pid am) (\<lambda>_. True) (on_trades (close_trade now tid pr r b re))" for now tid pr r b re
    by (rule unmoved_trades [OF books_trades [where x = "CloseTrade now tid pr r b re"]]) (simp_all add: lifecycle_op_def)
  ultimately show ?thesis unfolding update_trade_and_status_def close_linked_trade_def
    by (auto intro!: unmoved_steps unmoved.bind [where Q = "\<lambda>_. True"] unmoved_status assms split: option.split)
qed

lemma unmoved_one_shot: "behaves unmoved_le (frozen fills pid am) (\<lambda>_. True) (complete_one_shot_rule env p a)"
  unfolding complete_one_shot_rule_def Let_def
  by (auto intro!: unmoved_steps unmoved.bind [where Q = "\<lambda>_. True"] unmoved_condition split: option.split jcol.split)

lemma unmoved_materialize:
  "behaves unmoved_le (frozen fills pid am) (\<lambda>_. True) (materialize_confirmed_entry_rules env p a)"
proof -
  have skip: "behaves unmoved_le (frozen fills pid am) (\<lambda>_. True) (skip_looser_stop env p a c pr ex)" for c pr ex
    unfolding skip_looser_stop_def by (rule unmoved.then_unit [OF unmoved_audit])
  have defer': "behaves unmoved_le (frozen fills pid am) (\<lambda>_. True) (defer_stop_change env p a c ex md)" for c ex md
    unfolding defer_stop_change_def
    by (rule unmoved.bind [OF unmoved_condition], rule unmoved.bind [OF unmoved_merge], rule unmoved.then_unit [OF unmoved_audit])
  have "behaves unmoved_le (frozen fills pid am) (\<lambda>_. True) (materialize_condition env p a pr c u)" for pr c u
    unfolding materialize_condition_def
    by (auto intro!: unmoved_steps unmoved.bind [where Q = "\<lambda>_. True"] unmoved_condition skip defer' split: option.split)
  then show ?thesis unfolding materialize_confirmed_entry_rules_def
    by (auto intro!: unmoved.bind [where Q = "\<lambda>_. True"] unmoved.read unmoved.fold)
qed

lemma unmoved_decision: "behaves unmoved_le (frozen fills pid am) (\<lambda>_. True) (update_correlated_decision env p a cid es)"
proof (rule unmoved_from_books [OF books_decision])
  show "unmoved_le s (snd (update_correlated_decision env p a cid es s))" for s
    by (auto simp: update_correlated_decision_def Let_def bindS_def on_audit_def returnS_def same_amounts_refl split_beta split: list.split)
qed

lemma unmoved_triggered: "behaves unmoved_le (frozen fills pid am) (\<lambda>_. True) (update_triggered_protection env k p a)"
  unfolding update_triggered_protection_def
  by (auto intro!: unmoved_steps unmoved.bind [where Q = "\<lambda>_. True"] unmoved_protection split: option.split)

text \<open>Without deferred fills an entry releases nothing.\<close>

definition none_deferred :: "(string, allocation) table \<Rightarrow> string \<Rightarrow> bool" where
  "none_deferred fills pid = list_all (\<lambda>(_, a). al_position_id a = pid \<longrightarrow> al_applied a) fills"

lemma unmoved_deferred:
  assumes "none_deferred fills pid"
  shows "behaves unmoved_le (frozen fills pid am) (\<lambda>(_, ds). ds = []) (on_positions (apply_deferred_allocations now pid))"
  unfolding behaves_def
proof (intro allI impI)
  fix s assume s: "frozen fills pid am s"
  have "filter (\<lambda>a. al_position_id a = pid \<and> \<not> al_applied a) (map snd fills) = []"
    using assms by (auto simp: none_deferred_def list_all_iff filter_empty_conv)
  then have d: "deferred_allocations (xs_pos s) pid = []" using s by (simp add: deferred_allocations_def frozen_def)
  have "fst (apply_deferred_allocations now pid (xs_pos s)) = Inr (ps_get (xs_pos s) pid, [])"
    and "snd (apply_deferred_allocations now pid (xs_pos s)) = xs_pos s"
    unfolding apply_deferred_allocations_def d by (simp_all split: option.split)
  then show "frozen fills pid am (snd (on_positions (apply_deferred_allocations now pid) s)) \<and>
      unmoved_le s (snd (on_positions (apply_deferred_allocations now pid) s)) \<and>
      (\<forall>x. fst (on_positions (apply_deferred_allocations now pid) s) = Inr x \<longrightarrow> (case x of (_, ds) \<Rightarrow> ds = []))"
    using s by (auto simp: on_positions_def split_beta same_amounts_refl)
qed

lemma unmoved_settle_all:
  assumes "none_deferred fills pid" and "p_id p = pid"
  shows "behaves unmoved_le (frozen fills pid am) (\<lambda>_. True) (settle_deferred_fills env fill cid p a st)"
  unfolding settle_deferred_fills_def assms(2)
  by (auto intro!: unmoved.return unmoved.bind [OF unmoved_deferred [OF assms(1)]] unmoved.lift split: option.split)

lemma unmoved_settle_fill:
  assumes c: "current pid am p" and d: "none_deferred fills pid"
  shows "behaves unmoved_le (frozen fills pid am) (\<lambda>_. True) (settle_fill env fill (Some e) k cid a p)"
  unfolding settle_fill_def Let_def
proof (rule unmoved.bind [OF unmoved_update_trade [OF c]], rule unmoved.bind [OF unmoved.guarded [OF unmoved_materialize TrueI]],
    rule unmoved.bind [OF unmoved.guarded [OF unmoved_one_shot TrueI]], rule unmoved.bind [OF unmoved_tracking],
    rule unmoved.bind [where Q = "\<lambda>_. True"])
  have i: "p_id p = pid" using c by (simp add: current_def)
  show "behaves unmoved_le (frozen fills pid am) (\<lambda>_. True) (whenS (Some e = None) m)" for m
    by (simp add: whenS_def unmoved.return)
  show "behaves unmoved_le (frozen fills pid am) (\<lambda>_. True) (bindS (settle_deferred_fills env fill cid (or_default x p) a st) (\<lambda>(p2, decision, status2).
      bindS (whenS (cid \<noteq> []) (update_correlated_decision env p2 decision cid status2)) (\<lambda>_.
      bindS (update_triggered_protection env k p2 decision) (\<lambda>_.
      returnS \<lparr>ir_allocation = or_default (Some e) a, ir_position = p2, ir_idempotent = (Some e \<noteq> None), ir_execution_status = status2\<rparr>))))"
    if "stored_as (p_id p) x" for x st
  proof (rule unmoved.bind [OF unmoved_settle_all [OF d]])
    show "p_id (or_default x p) = pid" using that i by (cases x) (simp_all add: stored_as_def)
  qed (auto intro!: unmoved.bind [OF unmoved.guarded [OF unmoved_decision TrueI]] unmoved.bind [OF unmoved_triggered] unmoved.return)
qed

lemma unmoved_record:
  assumes "tget fills (al_id a) = Some e" and "al_position_id a = pid"
  shows "behaves unmoved_le (frozen fills pid am) (\<lambda>x. \<exists>p. x = Some p \<and> current pid am p) (on_positions (record_allocation now a ap w))"
  unfolding behaves_def
proof (intro allI impI)
  fix s assume s: "frozen fills pid am s"
  obtain p where p: "ps_get (xs_pos s) pid = Some p" "(p_opened p, p_remaining p, p_entry_price p) = am"
    using s by (auto simp: frozen_def amounts_def)
  have ok: "store_ok (xs_pos s)" using s by (simp add: frozen_def exec_ok_def)
  have e: "tget (st_allocations (xs_pos s)) (al_id a) = Some e" using s assms(1) by (simp add: frozen_def)
  have "ps_get (xs_pos s) (al_position_id a) = Some p" using p(1) assms(2) by simp
  from record_allocation_seen [OF e this]
  have "snd (record_allocation now a ap w (xs_pos s)) = xs_pos s \<and>
      (\<forall>x. fst (record_allocation now a ap w (xs_pos s)) = Inr x \<longrightarrow> x = Some p)"
    by (auto split: sum.splits bool.splits)
  moreover have "current pid am p" using ps_getD [OF ok p(1)] p(2) by (simp add: current_def)
  ultimately show "frozen fills pid am (snd (on_positions (record_allocation now a ap w) s)) \<and>
      unmoved_le s (snd (on_positions (record_allocation now a ap w) s)) \<and>
      (\<forall>x. fst (on_positions (record_allocation now a ap w) s) = Inr x \<longrightarrow> (\<exists>p. x = Some p \<and> current pid am p))"
    using s by (auto simp: on_positions_def split_beta same_amounts_refl)
qed

lemma unmoved_ingest:
  assumes e: "tget fills (cf_fill_id fill) = Some e" "al_applied e" and d: "none_deferred fills (al_position_id e)"
  shows "behaves unmoved_le (frozen fills (al_position_id e) am) (\<lambda>_. True) (ingest env fill)"
proof -
  let ?B = "\<lambda>Q m. behaves unmoved_le (frozen fills (al_position_id e) am) Q m"
  have existing: "?B (\<lambda>x. x = Some e) (readS (\<lambda>st. get_allocation st (cf_fill_id fill)))"
    by (rule unmoved.read) (simp add: frozen_def get_allocation_def e)
  have found: "\<exists>q. x = Some q \<and> p_id q = al_position_id e" if "frozen fills (al_position_id e) am s" "x = ps_get (xs_pos s) (al_position_id e)" for s x
    using that by (auto simp: frozen_def amounts_def exec_ok_def dest: ps_getD(1))
  have position: "?B (\<lambda>p. p_id p = al_position_id e) (resolve_position env fill (Some e))"
    unfolding resolve_position_def option.case
    by (rule unmoved.bind [OF unmoved.read [where Q = "\<lambda>x. \<exists>q. x = Some q \<and> p_id q = al_position_id e"]])
      (auto intro!: found unmoved.return)
  have action: "?B (\<lambda>_. True) (case cf_action fill of Some x \<Rightarrow> returnS x | None \<Rightarrow> returnS (al_action e))"
    by (auto intro: unmoved.return split: option.split)
  have settle: "?B (\<lambda>_. True) (bindS (on_positions (record_allocation now (fill_allocation fill p act cid) True w))
      (\<lambda>updated. case updated of None \<Rightarrow> liftS (Inl x) | Some u \<Rightarrow> settle_fill env fill (Some e) k cid (fill_allocation fill p act cid) u))"
    if "p_id p = al_position_id e" for p now act cid w x k
    by (rule unmoved.bind [OF unmoved_record [where e = e]])
      (use that e d in \<open>auto simp: fill_allocation_def intro: unmoved_settle_fill\<close>)
  show ?thesis unfolding ingest_def
    by (rule unmoved.bind [OF existing], hypsubst, rule unmoved.bind [OF position], simp only: option.case,
        rule unmoved.bind [OF action]) (simp add: Let_def e(2) settle)
qed

subsection \<open>Confirmed stops\<close>

lemma condition_after_update:
  assumes c: "get_close_condition st pid cid = Some c" and ok: "c_id c = cid" "c_position_id c = pid"
    and x: "pu = None" "ex = None \<or> (\<exists>d. ex = Some d \<and> py_eq (JObj d) (JObj (col_obj (c_expression c))))"
  shows "\<exists>c'. get_close_condition (snd (update_close_condition now pid cid pu ex en md st)) pid cid = Some c' \<and>
    c_id c' = cid \<and> c_position_id c' = pid \<and> c_purpose c' = c_purpose c \<and>
    (col_obj (c_expression c') = col_obj (c_expression c) \<or> py_eq (JObj (col_obj (c_expression c'))) (JObj (col_obj (c_expression c))))"
proof -
  let ?ex = "or_default ex (col_obj (c_expression c))"
  define ce where "ce m = c\<lparr>c_expression := dumps ?ex, c_enabled := or_default en (c_enabled c), c_metadata := dumps m\<rparr>" for m
  have ce: "c_id (ce m) = cid" "c_position_id (ce m) = pid" for m using ok by (simp_all add: ce_def)
  have kept: ?thesis if "snd (update_close_condition now pid cid pu ex en md st) = st" using that c ok by auto
  have saved: ?thesis if u: "snd (update_close_condition now pid cid pu ex en md st) = snd (save_close_condition now (ce m) st)" for m
  proof (cases "ps_get st pid = None \<or> (\<exists>e. normalized_condition now (ce m) = Inl e)")
    case True
    then have "snd (save_close_condition now (ce m) st) = st"
      by (auto simp: save_close_condition_def ce split: sum.split)
    with u kept show ?thesis by simp
  next
    case False
    then obtain c' where n: "normalized_condition now (ce m) = Inr c'" and p: "ps_get st pid \<noteq> None"
      by (cases "normalized_condition now (ce m)") auto
    then have st': "snd (save_close_condition now (ce m) st) = st\<lparr>st_conditions := tset cid c' (st_conditions st)\<rparr>"
      by (auto simp: save_close_condition_def ce)
    obtain m' where "c' = (ce m)\<lparr>c_metadata := dumps m', c_updated_at := now\<rparr>"
      using n by (auto simp: normalized_condition_def bindE_eq_Inr)
    with st' u ok x(2) show ?thesis
      by (auto simp: ce_def get_close_condition_def col_obj_def json_loads_def as_obj_def)
  qed
  show ?thesis
  proof (cases "normalize_position_rule (c_purpose c) (JObj ?ex) (or_default en (c_enabled c)) (or_default md (col_obj (c_metadata c)))")
    case (Inl e)
    then show ?thesis using c x(1) by (intro kept) (simp add: update_close_condition_def Let_def)
  next
    case (Inr m)
    show ?thesis
    proof (cases "py_eq (JObj ?ex) (JObj (col_obj (c_expression c))) \<and> or_default en (c_enabled c) = c_enabled c \<and>
        py_eq (JObj m) (JObj (col_obj (c_metadata c)))")
      case True
      then show ?thesis using c x(1) Inr by (intro kept) (simp add: update_close_condition_def Let_def del: py_eq.simps)
    next
      case False
      have "c\<lparr>c_purpose := c_purpose c\<rparr> = c" by simp
      then have "snd (update_close_condition now pid cid pu ex en md st) = snd (save_close_condition now (ce m) st)"
        using c x(1) Inr False by (auto simp: update_close_condition_def Let_def ce_def simp del: py_eq.simps split: prod.split sum.split)
      then show ?thesis by (rule saved)
    qed
  qed
qed

lemma metadata_keeps_conditions:
  "get_close_condition (snd (merge_metadata now pid m st)) k cid = get_close_condition st k cid"
  by (auto simp: merge_metadata_def Let_def get_close_condition_def split: option.split)

lemma on_positions_snd: "xs_pos (snd (on_positions m s)) = snd (m (xs_pos s))"
  by (simp add: on_positions_def split_beta)

lemma on_audit_snd: "xs_pos (snd (on_audit m s)) = xs_pos s"
  by (simp add: on_audit_def split_beta)

lemma bindS_snd:
  assumes "P (snd (m s))" and "\<And>x s'. P s' \<Longrightarrow> P (snd (f x s'))"
  shows "P (snd (bindS m f s))"
  using assms by (cases "m s") (auto simp: bindS_def split: sum.split)

subsection \<open>Properties\<close>

text \<open>C15: Applying fills keeps the books. Whatever fill arrives, in whatever order and with whatever
  outcome, exceptions included, the position store and the trade store stay consistent, no recorded
  fill, order link or position is lost or altered (a deferred fill may become applied), and every trade
  only moves forward in its lifecycle.\<close>

theorem ingest_keeps_books:
  assumes "store_ok (xs_pos s)" and "trades_ok (xs_trades s)"
  shows "store_ok (xs_pos (snd (ingest env fill s))) \<and> trades_ok (xs_trades (snd (ingest env fill s))) \<and>
    ledger_le (xs_pos s) (xs_pos (snd (ingest env fill s))) \<and> trade_le (xs_trades s) (xs_trades (snd (ingest env fill s)))"
  using books_ingest assms by (simp add: behaves_def exec_ok_def exec_le_def)

definition sample_state :: exec_state where
  "sample_state = \<lparr>xs_pos = put_position (sample_position\<lparr>p_trade_id := Some ''t1''\<rparr>) empty_store, xs_trades = sample_db,
     xs_audit = \<lparr>ad_events = [], ad_cursors = [], ad_acks = [], ad_health = [], ad_quarantine = []\<rparr>\<rparr>"

definition fill_env :: exec_env where
  "fill_env = \<lparr>xe_now = ''t1'', xe_fresh = (\<lambda>c. c), xe_instrument = (\<lambda>_. None)\<rparr>"

definition sample_confirmed :: "string \<Rightarrow> alloc_action \<Rightarrow> rat \<Rightarrow> string \<Rightarrow> confirmed_fill" where
  "sample_confirmed i act q oid = \<lparr>cf_fill_id = i, cf_quantity = q, cf_price = 100, cf_source = ''okx_fill'', cf_action = Some act,
     cf_position_id = ''p1'', cf_exchange_order_id = oid, cf_client_order_id = [], cf_correlation_id = [], cf_fee = None,
     cf_occurred_at = ''2026-01-02'', cf_reason = ''fill'', cf_metadata = []\<rparr>"

lemma sample_state_ok: "store_ok (xs_pos sample_state)" "trades_ok (xs_trades sample_state)"
proof -
  have "store_ok (put_position (sample_position\<lparr>p_trade_id := Some ''t1''\<rparr>) empty_store)"
    by (rule put_position_ok [OF empty_store_ok]) (simp_all add: quantities_ok_def sample_position_def client_taken_def empty_store_def)
  then show "store_ok (xs_pos sample_state)" by (simp add: sample_state_def)
  show "trades_ok (xs_trades sample_state)" by (simp add: sample_state_def trades_ok_def sample_db_def sample_trade_def)
qed

theorem ingest_keeps_books_witness:
  "store_ok (xs_pos (snd (ingest fill_env (sample_confirmed ''f1'' AOpen 2 ''o1'') sample_state))) \<and>
   ledger_le (xs_pos sample_state) (xs_pos (snd (ingest fill_env (sample_confirmed ''f1'' AOpen 2 ''o1'') sample_state))) \<and>
   map_option t_status (get_trade (xs_trades (snd (ingest fill_env (sample_confirmed ''f1'' AOpen 2 ''o1'') sample_state))) ''t1'') = Some ''open''"
proof -
  have "map_option t_status (get_trade (xs_trades (snd (ingest fill_env (sample_confirmed ''f1'' AOpen 2 ''o1'') sample_state))) ''t1'') =
      Some ''open''" by code_simp
  then show ?thesis using ingest_keeps_books [OF sample_state_ok, of fill_env "sample_confirmed ''f1'' AOpen 2 ''o1''"] by blast
qed

text \<open>C16: A fill that was already applied and is delivered again, over any channel and with any
  correlation, moves nothing: the recorded fills and the opened quantity, remaining quantity and entry
  price of every position are what they were (as long as no fill of the position is still deferred,
  which a repeated entry would release).\<close>

theorem redelivery_moves_nothing:
  assumes "store_ok (xs_pos s)" and "trades_ok (xs_trades s)" and "get_allocation (xs_pos s) (cf_fill_id fill) = Some e"
    and "none_deferred (st_allocations (xs_pos s)) (al_position_id e)"
  shows "same_amounts (xs_pos s) (xs_pos (snd (ingest env fill s)))"
proof -
  let ?fills = "st_allocations (xs_pos s)"
  have e: "tget ?fills (cf_fill_id fill) = Some e" using assms(3) by (simp add: get_allocation_def)
  have i: "(cf_fill_id fill, e) \<in> set ?fills" using map_of_SomeD [OF e] .
  have applied: "al_applied e" using assms(4) i by (auto simp: none_deferred_def list_all_iff)
  have "al_position_id e \<in> position_ids (xs_pos s)" using assms(1) i by (auto simp: store_ok_def allocations_ok_def)
  then obtain p where "ps_get (xs_pos s) (al_position_id e) = Some p" using ps_get_iff by blast
  then have "frozen ?fills (al_position_id e) (p_opened p, p_remaining p, p_entry_price p) s"
    using assms(1,2) by (simp add: frozen_def exec_ok_def amounts_def)
  then show ?thesis using unmoved_ingest [OF e applied assms(4)] by (simp add: behaves_def)
qed

definition filled_state :: exec_state where
  "filled_state = snd (ingest fill_env (sample_confirmed ''f1'' AOpen 2 ''o1'') sample_state)"

theorem redelivery_moves_nothing_witness:
  "same_amounts (xs_pos filled_state) (xs_pos (snd (ingest fill_env (sample_confirmed ''f1'' AOpen 2 ''o1'') filled_state))) \<and>
   amounts (xs_pos filled_state) ''p1'' = Some (Some 2, Some 2, 100)"
proof -
  have ok: "store_ok (xs_pos filled_state)" "trades_ok (xs_trades filled_state)"
    using ingest_keeps_books [OF sample_state_ok, of fill_env "sample_confirmed ''f1'' AOpen 2 ''o1''"] by (simp_all add: filled_state_def)
  have "(case get_allocation (xs_pos filled_state) ''f1'' of None \<Rightarrow> False
      | Some e \<Rightarrow> none_deferred (st_allocations (xs_pos filled_state)) (al_position_id e))" by code_simp
  then obtain e where e: "get_allocation (xs_pos filled_state) ''f1'' = Some e"
      "none_deferred (st_allocations (xs_pos filled_state)) (al_position_id e)" by (auto split: option.splits)
  have "amounts (xs_pos filled_state) ''p1'' = Some (Some 2, Some 2, 100)" by code_simp
  moreover have "cf_fill_id (sample_confirmed ''f1'' AOpen 2 ''o1'') = ''f1''" by (simp add: sample_confirmed_def)
  ultimately show ?thesis using redelivery_moves_nothing [OF ok, of "sample_confirmed ''f1'' AOpen 2 ''o1''" e fill_env] e by simp
qed

definition reduced_state :: exec_state where
  "reduced_state = sample_state\<lparr>xs_pos := put_allocation \<lparr>al_id = ''f1'', al_position_id = ''p1'', al_action = AReduce, al_quantity = 1,
       al_price = Some 100, al_fee = None, al_exchange_order_id = ''o1'', al_reason = ''fill'', al_created_at = ''2026-01-02'',
       al_metadata = dumps [], al_applied = True\<rparr>
     (put_position (sample_position\<lparr>p_opened := Some 6, p_remaining := Some 2, p_status := Open,
       p_metadata := dumps [(''execution_quantity'', JFloat (PFin 3))]\<rparr>) empty_store)\<rparr>"

text \<open>A redelivered reduction can reopen a finished order. The service compares what the fill's
  order has filled with the quantity of whatever order the position tracks now, so an old fill of a
  completed smaller order puts an open position back into \<^verbatim>\<open>reducing\<close>, with no order pending.\<close>

theorem redelivered_reduction_restarts_reducing:
  "map_option p_status (ps_get (xs_pos reduced_state) ''p1'') = Some Open \<and>
   map_option p_exchange_order_id (ps_get (xs_pos reduced_state) ''p1'') = Some [] \<and>
   map_option p_status (ps_get (xs_pos (snd (ingest fill_env (sample_confirmed ''f1'' AReduce 1 ''o1'') reduced_state))) ''p1'') = Some Reducing"
  by code_simp

text \<open>C28: A stop that the exchange has confirmed is not changed behind its back. When a later entry
  fill moves the average entry price, the materialised stop condition keeps the trigger it had: a looser
  candidate is skipped, a different one is only recorded as pending an exchange amendment.\<close>

theorem confirmed_stop_is_kept:
  assumes "get_close_condition (xs_pos s) (p_id p) (c_id c) = Some c" and "c_purpose c = ''stop_loss''"
  shows "\<exists>c'. get_close_condition (xs_pos (snd (materialize_condition env p a (Some pr) c () s))) (p_id p) (c_id c) = Some c' \<and>
    c_purpose c' = ''stop_loss'' \<and>
    (col_obj (c_expression c') = col_obj (c_expression c) \<or> py_eq (JObj (col_obj (c_expression c'))) (JObj (col_obj (c_expression c))))"
proof -
  define P where "P s' \<longleftrightarrow> (\<exists>c'. get_close_condition (xs_pos s') (p_id p) (c_id c) = Some c' \<and> c_purpose c' = ''stop_loss'' \<and>
    (col_obj (c_expression c') = col_obj (c_expression c) \<or> py_eq (JObj (col_obj (c_expression c'))) (JObj (col_obj (c_expression c)))))" for s' :: exec_state
  have pid: "c_position_id c = p_id p" using assms(1) by (auto simp: get_close_condition_def split: option.splits if_splits)
  have here: "P s" using assms by (simp add: P_def)
  have upd: "P (snd (on_positions (update_close_condition now (p_id p) (c_id c) None ex en md) s))"
    if "ex = None \<or> (\<exists>d. ex = Some d \<and> py_eq (JObj d) (JObj (col_obj (c_expression c))))" for now ex en md
    using condition_after_update [OF assms(1) refl pid refl that, of now en md] assms(2)
    unfolding P_def on_positions_snd by auto
  have audit: "P (snd (on_audit m s'))" if "P s'" for m s' using that by (simp add: P_def on_audit_snd)
  have merge: "P (snd (on_positions (merge_metadata now (p_id p) m) s'))" if "P s'" for now m s'
    using that by (simp add: P_def on_positions_snd metadata_keeps_conditions)
  have "P (snd (defer_stop_change env p a c ex md s))" for ex md
    unfolding defer_stop_change_def
    by (rule bindS_snd [of P], rule upd, simp, rule bindS_snd [of P], rule merge, assumption, rule bindS_snd [of P], rule audit)
      (simp_all add: returnS_def)
  moreover have "P (snd (skip_looser_stop env p a c pr ex s))" for ex
    unfolding skip_looser_stop_def by (rule bindS_snd [of P], rule audit [OF here]) (simp add: returnS_def)
  moreover have "P (snd (bindS (on_positions (update_close_condition now (p_id p) (c_id c) None (Some ex) None (Some md))) (\<lambda>_. returnS ()) s))"
    if "py_eq (JObj ex) (JObj (col_obj (c_expression c)))" for now ex md
    by (rule bindS_snd [of P], rule upd) (use that in \<open>simp_all add: returnS_def\<close>)
  ultimately have "P (snd (materialize_condition env p a (Some pr) c () s))"
    using here assms(2) unfolding materialize_condition_def
    by (auto simp: bindS_def [of "liftS _"] liftS_def returnS_def split: sum.split prod.split)
  then show ?thesis by (simp add: P_def)
qed

definition stop_condition :: condition where
  "stop_condition = \<lparr>c_id = ''c1'', c_position_id = ''p1'', c_purpose = ''stop_loss'',
     c_expression = dumps [(''type'', JStr ''price_below''), (''symbol'', JStr ''BTC-USDT-SWAP''), (''value'', JInt 58800)],
     c_enabled = True, c_metadata = dumps [(''template_definition'', JObj [(''style'', JStr ''fixed_percent''),
       (''purpose'', JStr ''stop_loss''), (''trigger'', sample_expression), (''enabled'', JBool True),
       (''parameters'', JObj [(''offset_pct'', JStr ''0.02'')])])], c_created_at = ''t0'', c_updated_at = ''t0''\<rparr>"

definition protected_state :: exec_state where
  "protected_state = sample_state\<lparr>xs_pos := (xs_pos sample_state)\<lparr>st_conditions := [(''c1'', stop_condition)]\<rparr>\<rparr>"

definition confirmed_stop :: protection where
  "confirmed_stop = \<lparr>pr_position_id = ''p1'', pr_kind = AttachedStop, pr_status = PActive, pr_algo_id = ''a1'', pr_algo_client_order_id = ''ac1'',
     pr_quantity = 2, pr_stop_loss = 58800, pr_trigger_order_id = [], pr_metadata = dumps [], pr_created_at = ''t0'', pr_updated_at = ''t0''\<rparr>"

theorem confirmed_stop_is_kept_witness:
  "\<exists>c'. get_close_condition (xs_pos (snd (materialize_condition fill_env (sample_position\<lparr>p_entry_price := 61000\<rparr>)
      (sample_fill ''f2'' AOpen 1 61000) (Some confirmed_stop) stop_condition () protected_state))) ''p1'' ''c1'' = Some c' \<and>
    c_purpose c' = ''stop_loss'' \<and> jget (col_obj (c_expression c')) ''value'' = JInt 58800"
proof -
  have "get_close_condition (xs_pos protected_state) ''p1'' ''c1'' = Some stop_condition" "c_id stop_condition = ''c1''"
    "c_purpose stop_condition = ''stop_loss''" "p_id (sample_position\<lparr>p_entry_price := 61000\<rparr>) = ''p1''"
    by (simp_all add: protected_state_def get_close_condition_def stop_condition_def sample_position_def)
  then have "\<exists>c'. get_close_condition (xs_pos (snd (materialize_condition fill_env (sample_position\<lparr>p_entry_price := 61000\<rparr>)
      (sample_fill ''f2'' AOpen 1 61000) (Some confirmed_stop) stop_condition () protected_state))) ''p1'' ''c1'' = Some c' \<and>
      c_purpose c' = ''stop_loss''"
    using confirmed_stop_is_kept [of protected_state "sample_position\<lparr>p_entry_price := 61000\<rparr>" stop_condition fill_env
        "sample_fill ''f2'' AOpen 1 61000" confirmed_stop] by auto
  moreover have "(case get_close_condition (xs_pos (snd (materialize_condition fill_env (sample_position\<lparr>p_entry_price := 61000\<rparr>)
      (sample_fill ''f2'' AOpen 1 61000) (Some confirmed_stop) stop_condition () protected_state))) ''p1'' ''c1'' of
      None \<Rightarrow> False | Some c' \<Rightarrow> jget (col_obj (c_expression c')) ''value'' = JInt 58800)" by code_simp
  ultimately show ?thesis by auto
qed

text \<open>What the exchange reports is checked before it is booked: an accepted OKX fill has a fill
  and an order identifier, and a quantity and a price that are positive whenever they are finite.\<close>

theorem okx_fill_is_checked:
  assumes "normalize_okx_fill utc now payload = Inr f" and "confirmed_of f = Some c"
  shows "cf_fill_id c \<noteq> [] \<and> cf_exchange_order_id c \<noteq> [] \<and> 0 < cf_quantity c \<and> 0 < cf_price c \<and> cf_source c = ''okx_fill''"
proof -
  have pos: "0 < r" if "positive_float v field = Inr (PFin r)" for v field r
    using that by (auto simp: positive_float_def split: sum.splits if_splits)
  have "of_fill_id f \<noteq> [] \<and> of_exchange_order_id f \<noteq> [] \<and> positive_float (jget payload ''fillSz'') ''fillSz'' = Inr (of_quantity f) \<and>
      positive_float (jget payload ''fillPx'') ''fillPx'' = Inr (of_price f)"
    using assms(1) by (auto simp: normalize_okx_fill_def Let_def bindE_eq_Inr split: if_splits)
  then show ?thesis using assms(2) pos
    by (auto simp: confirmed_of_def finite_float_def split: option.splits pyfloat.splits if_splits)
qed

definition okx_payload :: "string \<Rightarrow> jobj" where
  "okx_payload sz = [(''tradeId'', JStr ''9''), (''ordId'', JStr ''o1''), (''fillSz'', JStr sz), (''fillPx'', JStr ''100'')]"

theorem okx_fill_is_checked_witness:
  "\<exists>f c. normalize_okx_fill (\<lambda>_. Inr []) ''t'' (okx_payload ''2'') = Inr f \<and> confirmed_of f = Some c \<and> 0 < cf_quantity c"
proof -
  have "(case normalize_okx_fill (\<lambda>_. Inr []) ''t'' (okx_payload ''2'') of Inl _ \<Rightarrow> False
      | Inr f \<Rightarrow> (case confirmed_of f of None \<Rightarrow> False | Some _ \<Rightarrow> True))" by code_simp
  then obtain f c where f: "normalize_okx_fill (\<lambda>_. Inr []) ''t'' (okx_payload ''2'') = Inr f" "confirmed_of f = Some c"
    by (auto split: sum.splits option.splits)
  from okx_fill_is_checked [OF f] f show ?thesis by blast
qed

text \<open>The positivity check does not stop a quantity that is not a number: \<^verbatim>\<open>nan\<close> is not
  at most zero, so an OKX fill with the size \<^verbatim>\<open>nan\<close> is accepted and passed on.\<close>

theorem okx_fill_accepts_nan:
  "\<exists>f. normalize_okx_fill utc ''t'' (okx_payload ''nan'') = Inr f \<and> of_quantity f = PNaN"
proof -
  have "float_of_str ''nan'' = Some PNaN" "float_of_str ''100'' = Some (PFin 100)" by code_simp+
  then show ?thesis
    by (simp add: normalize_okx_fill_def okx_payload_def jget_def positive_float_def optional_float_def timestamp_ms_def blank_def
        py_or_def text_of_def py_str_def Let_def)
qed

end
