(* ===== verification/ExchangeClient.thy ===== *)
theory ExchangeClient
  imports PyValue
begin

section \<open>The exchange client\<close>

text \<open>
  \<^verbatim>\<open>src/exchange/client.py\<close>: the guards in front of the OKX software kit. The kit itself is a
  parameter: a function from a method name and its keyword arguments to a response, over a state of
  its own. A response is a JSON object; the client unwraps its envelope and checks the result of
  every order. Both process flags are part of the state.
\<close>

type_synonym 'x sdk = "string \<Rightarrow> jobj \<Rightarrow> ('x, jobj) action"

record 'x client_state =
  cl_armed :: bool
  cl_entry :: bool
  cl_api :: 'x

type_synonym ('x, 'a) client = "('x client_state, 'a) action"

definition sdk_call :: "'x sdk \<Rightarrow> string \<Rightarrow> jobj \<Rightarrow> ('x, jobj) client" where
  "sdk_call api method args s = (case api method args (cl_api s) of (r, x) \<Rightarrow> (r, s\<lparr>cl_api := x\<rparr>))"

definition demand :: "bool \<Rightarrow> py_exc \<Rightarrow> ('s, unit) action" where
  "demand b e = liftS (if b then Inr () else Inl e)"

subsection \<open>Unwrapping responses\<close>

fun py_iter :: "json \<Rightarrow> json list result" where
  "py_iter (JList xs) = Inr xs"
| "py_iter (JObj d) = Inr (map (\<lambda>(k, _). JStr k) d)"
| "py_iter (JStr s) = Inr (map (\<lambda>c. JStr [c]) s)"
| "py_iter _ = Inl TypeError"

definition item_error :: "json \<Rightarrow> string list" where
  "item_error item =
     (case item of
        JObj d \<Rightarrow>
          (let code = text_of (jget d ''sCode''); message = text_of (jget d ''sMsg'') in
           if code = [] \<and> message = [] then []
           else [''sCode='' @ (if code = [] then ''missing'' else code) @ '': '' @ (if message = [] then ''unknown error'' else message)])
      | _ \<Rightarrow> [])"

definition unwrap :: "string \<Rightarrow> jobj \<Rightarrow> json result" where
  "unwrap label response =
     (if jget response ''code'' \<noteq> JStr ''0''
      then bindE (py_iter (py_or (jget response ''data'') (JList []))) (\<lambda>items.
        let errors = concat (map item_error items);
            detail = (if errors \<noteq> [] then '' ('' @ intersperse ''; '' errors @ '')'' else []);
            msg = or_default (tget response ''msg'') (JStr ''unknown error'') in
        Inl (RuntimeError (''OKX '' @ label @ '' failed (code='' @ py_str (jget response ''code'') @ ''): '' @ py_str msg @ detail)))
      else Inr (or_default (tget response ''data'') (JList [])))"

text \<open>\<^verbatim>\<open>len(data) != 1 or not isinstance(data[0], dict)\<close>, with what Python does on other values.\<close>

definition single_result :: "py_exc \<Rightarrow> json \<Rightarrow> jobj result" where
  "single_result e data =
     (case data of
        JList [JObj d] \<Rightarrow> Inr d
      | JList _ \<Rightarrow> Inl e
      | JStr _ \<Rightarrow> Inl e
      | JObj [_] \<Rightarrow> Inl (KeyError ''0'')
      | JObj _ \<Rightarrow> Inl e
      | _ \<Rightarrow> Inl TypeError)"

definition accepted_result :: "string \<Rightarrow> string \<Rightarrow> string \<Rightarrow> string \<Rightarrow> jobj \<Rightarrow> jobj result" where
  "accepted_result what refused id_key label response =
     bindE (unwrap label response) (\<lambda>data.
     bindE (single_result (RuntimeError (''OKX '' @ label @ '' returned no single '' @ what @ '' result'')) data) (\<lambda>result.
     let status_code = text_of (jget result ''sCode'') in
     if status_code \<noteq> ''0''
     then Inl (RuntimeError (''OKX '' @ label @ '' rejected '' @ refused @ '' (sCode='' @
       (if status_code = [] then ''missing'' else status_code) @ ''): '' @
       (let message = text_of (jget result ''sMsg'') in if message = [] then ''unknown '' @ what @ '' error'' else message)))
     else if text_of (jget result id_key) = []
     then Inl (RuntimeError (''OKX '' @ label @ '' accepted response is missing '' @ id_key))
     else Inr result))"

definition accepted_order_result :: "string \<Rightarrow> jobj \<Rightarrow> jobj result" where
  "accepted_order_result = accepted_result ''order'' ''order'' ''ordId''"

definition accepted_algo_result :: "string \<Rightarrow> jobj \<Rightarrow> jobj result" where
  "accepted_algo_result = accepted_result ''algo-order'' ''algo order'' ''algoId''"

subsection \<open>Queries\<close>

definition query :: "'x sdk \<Rightarrow> string \<Rightarrow> string \<Rightarrow> jobj \<Rightarrow> ('x, json) client" where
  "query api label method args = bindS (sdk_call api method args) (\<lambda>response. liftS (unwrap label response))"

definition get_balance :: "'x sdk \<Rightarrow> string \<Rightarrow> ('x, json) client" where
  "get_balance api ccy = query api ''get_balance'' ''get_account_balance'' [(''ccy'', JStr ccy)]"

definition get_positions :: "'x sdk \<Rightarrow> string \<Rightarrow> string \<Rightarrow> ('x, json) client" where
  "get_positions api inst_type inst_id =
     query api ''get_positions'' ''get_positions'' [(''instType'', JStr inst_type), (''instId'', JStr inst_id)]"

definition get_leverage :: "'x sdk \<Rightarrow> string \<Rightarrow> string \<Rightarrow> ('x, json) client" where
  "get_leverage api inst_id mgn_mode =
     query api ''get_leverage'' ''get_leverage'' [(''instId'', JStr inst_id), (''mgnMode'', JStr mgn_mode)]"

definition get_account_config :: "'x sdk \<Rightarrow> ('x, json) client" where
  "get_account_config api = query api ''get_account_config'' ''get_account_config'' []"

definition get_instruments :: "'x sdk \<Rightarrow> string \<Rightarrow> string \<Rightarrow> ('x, json) client" where
  "get_instruments api inst_type inst_id =
     query api ''get_instruments'' ''get_instruments'' [(''instType'', JStr inst_type), (''instId'', JStr inst_id)]"

definition get_ticker :: "'x sdk \<Rightarrow> string \<Rightarrow> ('x, json) client" where
  "get_ticker api inst_id = query api ''get_ticker'' ''get_ticker'' [(''instId'', JStr inst_id)]"

definition get_pending_orders :: "'x sdk \<Rightarrow> string \<Rightarrow> ('x, json) client" where
  "get_pending_orders api inst_type = query api ''get_pending_orders'' ''get_order_list'' [(''instType'', JStr inst_type)]"

definition get_pending_algo_orders :: "'x sdk \<Rightarrow> string \<Rightarrow> string \<Rightarrow> ('x, json) client" where
  "get_pending_algo_orders api inst_id ord_type =
     query api ''get_pending_algo_orders'' ''order_algos_list''
       [(''ordType'', JStr ord_type), (''instType'', JStr ''SWAP''), (''instId'', JStr inst_id)]"

definition get_fills_history :: "'x sdk \<Rightarrow> string \<Rightarrow> string \<Rightarrow> string \<Rightarrow> ('x, json) client" where
  "get_fills_history api inst_type limit after =
     query api ''get_fills_history'' ''get_fills_history''
       [(''instType'', JStr inst_type), (''limit'', JStr limit), (''after'', JStr after)]"

definition client_id_char :: "char \<Rightarrow> bool" where
  "client_id_char c \<longleftrightarrow> is_digit c \<or> c \<in> set upper_letters \<or> c \<in> set lower_letters"

definition valid_client_order_id :: "string \<Rightarrow> bool" where
  "valid_client_order_id s \<longleftrightarrow> 1 \<le> length s \<and> length s \<le> 32 \<and> list_all client_id_char s"

definition validate_client_order_id :: "string \<Rightarrow> unit result" where
  "validate_client_order_id s =
     (if valid_client_order_id s then Inr () else Inl (ValueError ''client_order_id must be 1-32 ASCII alphanumeric characters''))"

definition get_order :: "'x sdk \<Rightarrow> string \<Rightarrow> string \<Rightarrow> string \<Rightarrow> ('x, json) client" where
  "get_order api inst_id order_id client_order_id =
     bindS (demand (order_id \<noteq> [] \<or> client_order_id \<noteq> []) (ValueError ''order_id or client_order_id is required'')) (\<lambda>_.
     if order_id \<noteq> [] then query api ''get_order'' ''get_order'' [(''instId'', JStr inst_id), (''ordId'', JStr order_id)]
     else bindS (liftS (validate_client_order_id client_order_id)) (\<lambda>_.
       query api ''get_order'' ''get_order'' [(''instId'', JStr inst_id), (''clOrdId'', JStr client_order_id)]))"

text \<open>The remaining queries, in the order of the class.\<close>

definition get_fee_rates :: "'x sdk \<Rightarrow> string \<Rightarrow> string \<Rightarrow> ('x, json) client" where
  "get_fee_rates api inst_type inst_id =
     query api ''get_fee_rates'' ''get_fee_rates'' [(''instType'', JStr inst_type), (''instId'', JStr inst_id)]"

definition get_interest_limits :: "'x sdk \<Rightarrow> string \<Rightarrow> ('x, json) client" where
  "get_interest_limits api ccy = query api ''get_interest_limits'' ''get_interest_limits'' [(''ccy'', JStr ccy)]"

definition candle_args :: "string \<Rightarrow> string \<Rightarrow> string \<Rightarrow> string \<Rightarrow> string \<Rightarrow> jobj" where
  "candle_args inst_id bar limit after before =
     [(''instId'', JStr inst_id), (''bar'', JStr bar), (''limit'', JStr limit), (''after'', JStr after), (''before'', JStr before)]"

definition get_candles :: "'x sdk \<Rightarrow> string \<Rightarrow> string \<Rightarrow> string \<Rightarrow> string \<Rightarrow> string \<Rightarrow> ('x, json) client" where
  "get_candles api inst_id bar limit after before =
     query api ''get_candles'' ''get_candlesticks'' (candle_args inst_id bar limit after before)"

definition get_history_candles :: "'x sdk \<Rightarrow> string \<Rightarrow> string \<Rightarrow> string \<Rightarrow> string \<Rightarrow> string \<Rightarrow> ('x, json) client" where
  "get_history_candles api inst_id bar limit after before =
     query api ''get_history_candles'' ''get_history_candlesticks'' (candle_args inst_id bar limit after before)"

definition get_tickers :: "'x sdk \<Rightarrow> string \<Rightarrow> ('x, json) client" where
  "get_tickers api inst_type = query api ''get_tickers'' ''get_tickers'' [(''instType'', JStr inst_type)]"

definition get_funding_rate :: "'x sdk \<Rightarrow> string \<Rightarrow> ('x, json) client" where
  "get_funding_rate api inst_id = query api ''get_funding_rate'' ''get_funding_rate'' [(''instId'', JStr inst_id)]"

definition get_open_interest :: "'x sdk \<Rightarrow> string \<Rightarrow> ('x, json) client" where
  "get_open_interest api inst_id =
     query api ''get_open_interest'' ''get_open_interest'' [(''instType'', JStr ''SWAP''), (''instId'', JStr inst_id)]"

definition get_order_history :: "'x sdk \<Rightarrow> string \<Rightarrow> string \<Rightarrow> ('x, json) client" where
  "get_order_history api inst_type limit =
     query api ''get_order_history'' ''get_orders_history'' [(''instType'', JStr inst_type), (''limit'', JStr limit)]"

definition get_fills :: "'x sdk \<Rightarrow> string \<Rightarrow> string \<Rightarrow> string \<Rightarrow> string \<Rightarrow> ('x, json) client" where
  "get_fills api inst_type inst_id order_id limit =
     query api ''get_fills'' ''get_fills''
       [(''instType'', JStr inst_type), (''instId'', JStr inst_id), (''ordId'', JStr order_id), (''limit'', JStr limit)]"

subsection \<open>Process flags\<close>

definition arm_client :: "bool \<Rightarrow> ('x, unit) client" where
  "arm_client preflight_passed s =
     (if \<not> preflight_passed then (Inl (PermissionError ''Order placement can only be armed after live preflight''), s)
      else (Inr (), s\<lparr>cl_armed := True\<rparr>))"

definition enable_client_entries :: "('x, unit) client" where
  "enable_client_entries s =
     (if \<not> cl_armed s then (Inl (PermissionError ''Entry placement requires an armed live runtime''), s)
      else (Inr (), s\<lparr>cl_entry := True\<rparr>))"

definition disable_client_entries :: "('x, unit) client" where
  "disable_client_entries s = (Inr (), s\<lparr>cl_entry := False\<rparr>)"

definition disarm_client :: "('x, unit) client" where
  "disarm_client s = (Inr (), s\<lparr>cl_armed := False, cl_entry := False\<rparr>)"

subsection \<open>Orders\<close>

record limit_order =
  lo_inst_id :: string
  lo_side :: string
  lo_sz :: string
  lo_px :: string
  lo_td_mode :: string
  lo_tp_trigger :: string
  lo_tp_ord :: string
  lo_sl_trigger :: string
  lo_sl_ord :: string
  lo_client_order_id :: string
  lo_attach_client_order_id :: string
  lo_order_type :: string
  lo_confirm :: bool

definition require_armed :: "('x, unit) client" where
  "require_armed s = (if cl_armed s then Inr () else Inl (PermissionError ''Order placement is DISARMED''), s)"

definition require_entries :: "('x, unit) client" where
  "require_entries s = (if cl_entry s then Inr () else Inl (PermissionError ''Strategy entry order placement is disabled''), s)"

text \<open>\<^verbatim>\<open>if float(text) <= 0: raise ValueError\<close>; a nan passes.\<close>

definition positive_text :: "string \<Rightarrow> string \<Rightarrow> unit result" where
  "positive_text text message =
     bindE (py_float (JStr text)) (\<lambda>f. if fl_le f (PFin 0) then Inl (ValueError message) else Inr ())"

definition limit_attachments :: "limit_order \<Rightarrow> json" where
  "limit_attachments lo =
     (if lo_tp_trigger lo = [] \<and> lo_sl_trigger lo = [] then JNull
      else JList [JObj ([(''attachAlgoClOrdId'', JStr (lo_attach_client_order_id lo))] @
        (if lo_tp_trigger lo = [] then []
         else [(''tpTriggerPx'', JStr (lo_tp_trigger lo)), (''tpOrdPx'', JStr (lo_tp_ord lo)), (''tpTriggerPxType'', JStr ''last'')]) @
        (if lo_sl_trigger lo = [] then []
         else [(''slTriggerPx'', JStr (lo_sl_trigger lo)), (''slOrdPx'', JStr (lo_sl_ord lo)), (''slTriggerPxType'', JStr ''last'')]))])"

definition limit_args :: "limit_order \<Rightarrow> jobj" where
  "limit_args lo =
     [(''instId'', JStr (lo_inst_id lo)), (''tdMode'', JStr (lo_td_mode lo)), (''side'', JStr (py_lower (lo_side lo))),
      (''ordType'', JStr (lo_order_type lo)), (''clOrdId'', JStr (lo_client_order_id lo)), (''sz'', JStr (lo_sz lo)),
      (''px'', JStr (lo_px lo)), (''stpMode'', JStr ''cancel_taker''), (''attachAlgoOrds'', limit_attachments lo)]"

definition check_limit_order :: "limit_order \<Rightarrow> unit result" where
  "check_limit_order lo =
     bindE (if lo_confirm lo then Inr () else Inl (ValueError ''You must pass confirm=True to place a real order'')) (\<lambda>_.
     bindE (if py_lower (lo_side lo) = ''buy'' \<or> py_lower (lo_side lo) = ''sell'' then Inr ()
            else Inl (ValueError ''side must be buy or sell'')) (\<lambda>_.
     bindE (positive_text (lo_sz lo) ''sz must be positive'') (\<lambda>_.
     bindE (positive_text (lo_px lo) ''px must be positive'') (\<lambda>_.
     bindE (validate_client_order_id (lo_client_order_id lo)) (\<lambda>_.
     bindE (if lo_order_type lo = ''limit'' \<or> lo_order_type lo = ''fok'' then Inr ()
            else Inl (ValueError ''order_type must be limit or fok'')) (\<lambda>_.
     if lo_tp_trigger lo \<noteq> [] \<or> lo_sl_trigger lo \<noteq> [] then validate_client_order_id (lo_attach_client_order_id lo) else Inr ()))))))"

definition place_limit_order :: "'x sdk \<Rightarrow> limit_order \<Rightarrow> ('x, jobj) client" where
  "place_limit_order api lo =
     bindS require_armed (\<lambda>_.
     bindS require_entries (\<lambda>_.
     bindS (liftS (check_limit_order lo)) (\<lambda>_.
     bindS (sdk_call api ''place_order'' (limit_args lo)) (\<lambda>response.
     liftS (accepted_order_result ''place_limit_order'' response)))))"

definition cancel_order :: "'x sdk \<Rightarrow> string \<Rightarrow> string \<Rightarrow> ('x, jobj) client" where
  "cancel_order api inst_id order_id =
     bindS require_armed (\<lambda>_.
     bindS (sdk_call api ''cancel_order'' [(''instId'', JStr inst_id), (''ordId'', JStr order_id)]) (\<lambda>response.
     liftS (accepted_order_result ''cancel_order'' response)))"

definition closing_side :: "string \<Rightarrow> string" where
  "closing_side position_side = (if position_side = ''long'' then ''sell'' else ''buy'')"

definition check_position_side :: "string \<Rightarrow> unit result" where
  "check_position_side side = (if side = ''long'' \<or> side = ''short'' then Inr () else Inl (ValueError ''position_side must be long or short''))"

definition confirmed :: "bool \<Rightarrow> string \<Rightarrow> unit result" where
  "confirmed confirm message = (if confirm then Inr () else Inl (ValueError message))"

definition place_reduce_market_order ::
  "'x sdk \<Rightarrow> string \<Rightarrow> string \<Rightarrow> string \<Rightarrow> string \<Rightarrow> string \<Rightarrow> string \<Rightarrow> bool \<Rightarrow> ('x, jobj) client" where
  "place_reduce_market_order api inst_id position_side sz td_mode pos_side client_order_id confirm =
     bindS require_armed (\<lambda>_.
     bindS (liftS (bindE (confirmed confirm ''confirm=True is required for a live reduce order'') (\<lambda>_.
       bindE (check_position_side (py_lower position_side)) (\<lambda>_.
       bindE (positive_text sz ''reduce order size must be positive'') (\<lambda>_.
       validate_client_order_id client_order_id))))) (\<lambda>_.
     bindS (sdk_call api ''place_order''
       [(''instId'', JStr inst_id), (''tdMode'', JStr td_mode), (''side'', JStr (closing_side (py_lower position_side))),
        (''ordType'', JStr ''market''), (''clOrdId'', JStr client_order_id), (''sz'', JStr sz), (''posSide'', JStr pos_side),
        (''reduceOnly'', JStr ''true'')]) (\<lambda>response.
     liftS (accepted_order_result ''place_reduce_market_order'' response))))"

definition place_position_stop ::
  "'x sdk \<Rightarrow> string \<Rightarrow> string \<Rightarrow> string \<Rightarrow> string \<Rightarrow> string \<Rightarrow> string \<Rightarrow> string \<Rightarrow> bool \<Rightarrow> ('x, jobj) client" where
  "place_position_stop api inst_id position_side sz stop_trigger_px algo_client_order_id td_mode pos_side confirm =
     bindS require_armed (\<lambda>_.
     bindS (liftS (bindE (confirmed confirm ''confirm=True is required for exchange protection'') (\<lambda>_.
       bindE (check_position_side (py_lower position_side)) (\<lambda>_.
       bindE (positive_text sz ''stop size must be positive'') (\<lambda>_.
       bindE (positive_text stop_trigger_px ''stop trigger price must be positive'') (\<lambda>_.
       validate_client_order_id algo_client_order_id)))))) (\<lambda>_.
     bindS (sdk_call api ''place_algo_order''
       [(''instId'', JStr inst_id), (''tdMode'', JStr td_mode), (''side'', JStr (closing_side (py_lower position_side))),
        (''ordType'', JStr ''conditional''), (''sz'', JStr sz), (''posSide'', JStr pos_side), (''reduceOnly'', JStr ''true''),
        (''slTriggerPx'', JStr stop_trigger_px), (''slOrdPx'', JStr ''-1''), (''slTriggerPxType'', JStr ''last''),
        (''algoClOrdId'', JStr algo_client_order_id)]) (\<lambda>response.
     liftS (accepted_algo_result ''place_position_stop'' response))))"

definition amend_position_stop :: "'x sdk \<Rightarrow> string \<Rightarrow> string \<Rightarrow> string \<Rightarrow> string \<Rightarrow> bool \<Rightarrow> ('x, jobj) client" where
  "amend_position_stop api inst_id algo_id sz stop_trigger_px confirm =
     bindS require_armed (\<lambda>_.
     bindS (liftS (bindE (confirmed confirm ''confirm=True is required to amend exchange protection'') (\<lambda>_.
       bindE (if algo_id = [] then Inl (ValueError ''algo_id is required'') else Inr ()) (\<lambda>_.
       bindE (positive_text sz ''stop size and trigger price must be positive'') (\<lambda>_.
       positive_text stop_trigger_px ''stop size and trigger price must be positive''))))) (\<lambda>_.
     bindS (sdk_call api ''amend_algo_order''
       [(''instId'', JStr inst_id), (''algoId'', JStr algo_id), (''newSz'', JStr sz), (''newSlTriggerPx'', JStr stop_trigger_px),
        (''newSlOrdPx'', JStr ''-1''), (''newSlTriggerPxType'', JStr ''last'')]) (\<lambda>response.
     liftS (accepted_algo_result ''amend_position_stop'' response))))"

definition cancel_position_stop :: "'x sdk \<Rightarrow> string \<Rightarrow> string \<Rightarrow> bool \<Rightarrow> ('x, jobj) client" where
  "cancel_position_stop api inst_id algo_id confirm =
     bindS require_armed (\<lambda>_.
     bindS (liftS (bindE (confirmed confirm ''confirm=True is required to cancel exchange protection'') (\<lambda>_.
       if inst_id = [] \<or> algo_id = [] then Inl (ValueError ''inst_id and algo_id are required'') else Inr ()))) (\<lambda>_.
     bindS (sdk_call api ''cancel_algo_order''
       [(''orders'', JList [JObj [(''instId'', JStr inst_id), (''algoId'', JStr algo_id)]])]) (\<lambda>response.
     liftS (accepted_algo_result ''cancel_position_stop'' response))))"

subsection \<open>A process that uses the client\<close>

text \<open>Every use a process makes of the client, with a kit that notes each call it receives.\<close>

datatype client_op =
    OpArm bool
  | OpEnableEntries
  | OpDisableEntries
  | OpDisarm
  | OpQuery string string jobj
  | OpGetOrder string string string
  | OpLimit limit_order
  | OpCancel string string
  | OpReduce string string string string string string bool
  | OpStop string string string string string string string bool
  | OpAmendStop string string string string bool
  | OpCancelStop string string bool

definition query_methods :: "string list" where
  "query_methods = [''get_account_balance'', ''get_positions'', ''get_leverage'', ''get_account_config'', ''get_fee_rates'',
     ''get_instruments'', ''get_interest_limits'', ''get_candlesticks'', ''get_history_candlesticks'', ''get_ticker'', ''get_tickers'',
     ''get_funding_rate'', ''get_open_interest'', ''get_orders_history'', ''get_order_list'', ''order_algos_list'', ''get_fills_history'',
     ''get_fills'', ''get_order'']"

definition ignoring :: "('s, 'a) action \<Rightarrow> ('s, unit) action" where
  "ignoring m = bindS m (\<lambda>_. returnS ())"

fun client_do :: "'x sdk \<Rightarrow> client_op \<Rightarrow> ('x, unit) client" where
  "client_do api (OpArm preflight_passed) = arm_client preflight_passed"
| "client_do api OpEnableEntries = enable_client_entries"
| "client_do api OpDisableEntries = disable_client_entries"
| "client_do api OpDisarm = disarm_client"
| "client_do api (OpQuery label name args) = (if name \<in> set query_methods then ignoring (query api label name args) else returnS ())"
| "client_do api (OpGetOrder inst_id order_id client_id) = ignoring (get_order api inst_id order_id client_id)"
| "client_do api (OpLimit lo) = ignoring (place_limit_order api lo)"
| "client_do api (OpCancel inst_id order_id) = ignoring (cancel_order api inst_id order_id)"
| "client_do api (OpReduce inst_id side sz td_mode pos_side client_id confirm) =
     ignoring (place_reduce_market_order api inst_id side sz td_mode pos_side client_id confirm)"
| "client_do api (OpStop inst_id side sz px client_id td_mode pos_side confirm) =
     ignoring (place_position_stop api inst_id side sz px client_id td_mode pos_side confirm)"
| "client_do api (OpAmendStop inst_id algo_id sz px confirm) = ignoring (amend_position_stop api inst_id algo_id sz px confirm)"
| "client_do api (OpCancelStop inst_id algo_id confirm) = ignoring (cancel_position_stop api inst_id algo_id confirm)"

type_synonym sdk_log = "(string \<times> jobj) list"

definition recorded :: "'x sdk \<Rightarrow> ('x \<times> sdk_log) sdk" where
  "recorded api name args = (\<lambda>(x, log). case api name args x of (r, x') \<Rightarrow> (r, x', log @ [(name, args)]))"

definition client_step :: "'x sdk \<Rightarrow> client_op \<Rightarrow> ('x \<times> sdk_log) client_state \<Rightarrow> ('x \<times> sdk_log) client_state" where
  "client_step api use s = snd (client_do (recorded api) use s)"

abbreviation sent :: "('x \<times> sdk_log) client_state \<Rightarrow> sdk_log" where
  "sent s \<equiv> snd (cl_api s)"

text \<open>A call that can change the account, and a call that can open exposure.\<close>

definition only_reads :: "string \<times> jobj \<Rightarrow> bool" where
  "only_reads c \<longleftrightarrow> fst c \<in> set query_methods"

definition opens_exposure :: "string \<times> jobj \<Rightarrow> bool" where
  "opens_exposure c \<longleftrightarrow> fst c \<in> {''place_order'', ''place_algo_order''} \<and> jget (snd c) ''reduceOnly'' \<noteq> JStr ''true''"

text \<open>What one use does to the flags and the log: nothing, or at most one call.\<close>

definition calls :: "('x \<times> sdk_log) client_state \<Rightarrow> (string \<times> jobj \<Rightarrow> bool) \<Rightarrow> ('x \<times> sdk_log, 'a) client \<Rightarrow> bool" where
  "calls s P m \<longleftrightarrow> (let t = snd (m s) in cl_armed t = cl_armed s \<and> cl_entry t = cl_entry s \<and>
     (sent t = sent s \<or> (\<exists>c. P c \<and> sent t = sent s @ [c])))"

lemma calls_lift [simp]: "calls s P (liftS r)"
  by (simp add: calls_def liftS_def)

lemma calls_return [simp]: "calls s P (returnS x)"
  by (simp add: calls_def returnS_def)

lemma calls_sdk: "P (name, args) \<Longrightarrow> calls s P (sdk_call (recorded api) name args)"
  by (auto simp: calls_def sdk_call_def recorded_def Let_def split: prod.splits)

lemma calls_then:
  assumes m: "calls s P m" and f: "\<And>x t. calls t Q (f x) \<and> (\<forall>u. snd (f x u) = u)"
  shows "calls s P (bindS m f)"
proof -
  obtain r t where r: "m s = (r, t)" by (cases "m s")
  have "snd (bindS m f s) = t"
    using f by (cases r) (simp_all add: bindS_def r)
  with m show ?thesis by (simp add: calls_def r)
qed

lemma calls_lifted: "calls s P m \<Longrightarrow> calls s P (bindS m (\<lambda>x. liftS (g x)))"
  by (rule calls_then [where Q = P]) (simp_all add: liftS_def)

lemma calls_ignoring: "calls s P m \<Longrightarrow> calls s P (ignoring m)"
  unfolding ignoring_def by (rule calls_then [where Q = P]) (simp_all add: returnS_def)

text \<open>A check in front only lets pass or raises.\<close>

lemma calls_guarded:
  assumes "\<And>s. snd (g s) = s" and "\<And>x. fst (g s) = Inr x \<Longrightarrow> calls s P (f x)"
  shows "calls s P (bindS g f)"
proof -
  obtain r where r: "g s = (r, s)" using assms(1) [of s] by (cases "g s") auto
  show ?thesis
  proof (cases r)
    case (Inl e)
    then show ?thesis by (simp add: calls_def bindS_def r)
  next
    case (Inr x)
    with assms(2) r have "calls s P (f x)" by simp
    then show ?thesis using Inr by (simp add: calls_def bindS_def r)
  qed
qed

lemma guards_stay [simp]:
  "snd (require_armed s) = s" "snd (require_entries s) = s" "snd (liftS r s) = s" "snd (demand b e s) = s"
  by (simp_all add: require_armed_def require_entries_def liftS_def demand_def)

lemma guards_pass:
  "fst (require_armed s) = Inr u \<Longrightarrow> cl_armed s" "fst (require_entries s) = Inr u \<Longrightarrow> cl_entry s"
  by (simp_all add: require_armed_def require_entries_def split: if_splits)

lemma calls_query: "P (name, args) \<Longrightarrow> calls s P (query (recorded api) label name args)"
  unfolding query_def by (intro calls_lifted calls_sdk)

lemma calls_get_order: "(\<And>args. P (''get_order'', args)) \<Longrightarrow> calls s P (get_order (recorded api) inst_id order_id client_id)"
  unfolding get_order_def by (intro calls_guarded guards_stay) (simp add: calls_guarded calls_query)

lemmas order_defs = place_limit_order_def cancel_order_def place_reduce_market_order_def place_position_stop_def
  amend_position_stop_def cancel_position_stop_def

text \<open>The order operations call the kit only when the process is armed; a limit order only when entries are on.\<close>

definition sends :: "('x \<times> sdk_log) client_state \<Rightarrow> string \<times> jobj \<Rightarrow> bool" where
  "sends s c \<longleftrightarrow> (only_reads c \<or> cl_armed s) \<and> (opens_exposure c \<longrightarrow> cl_entry s)"

lemma calls_orders:
  "calls s (sends s) (place_limit_order (recorded api) lo)"
  "calls s (sends s) (cancel_order (recorded api) inst_id order_id)"
  "calls s (sends s) (place_reduce_market_order (recorded api) inst_id side sz td_mode pos_side client_id confirm)"
  "calls s (sends s) (place_position_stop (recorded api) inst_id side sz px client_id td_mode pos_side confirm)"
  "calls s (sends s) (amend_position_stop (recorded api) inst_id algo_id sz px confirm)"
  "calls s (sends s) (cancel_position_stop (recorded api) inst_id algo_id confirm)"
  unfolding order_defs
  by (intro calls_guarded guards_stay calls_lifted calls_sdk, drule guards_pass, (drule guards_pass)?,
      simp add: sends_def opens_exposure_def jget_def)+

lemma calls_reads:
  "name \<in> set query_methods \<Longrightarrow> calls s (sends s) (query (recorded api) label name args)"
  "calls s (sends s) (get_order (recorded api) inst_id order_id client_id)"
proof -
  have reads: "sends s (name, args)" if "name \<in> set query_methods" for name args
  proof -
    have "''place_order'' \<notin> set query_methods" "''place_algo_order'' \<notin> set query_methods" by (simp_all add: query_methods_def)
    with that show ?thesis by (auto simp: sends_def only_reads_def opens_exposure_def)
  qed
  show "name \<in> set query_methods \<Longrightarrow> calls s (sends s) (query (recorded api) label name args)"
    by (rule calls_query, rule reads)
  show "calls s (sends s) (get_order (recorded api) inst_id order_id client_id)"
    by (rule calls_get_order, rule reads) (simp add: query_methods_def)
qed

text \<open>One use: a flag operation, or an operation that leaves the flags and makes at most one permitted call.\<close>

lemma client_step_cases:
  "(use \<in> {OpArm True, OpArm False, OpEnableEntries, OpDisableEntries, OpDisarm} \<and> sent (client_step api use s) = sent s) \<or>
   calls s (sends s) (client_do (recorded api) use)"
proof (cases use)
  case (OpArm b)
  then show ?thesis by (cases b) (simp_all add: client_step_def arm_client_def)
qed (simp_all add: client_step_def enable_client_entries_def disable_client_entries_def disarm_client_def
    calls_ignoring calls_orders calls_reads)

lemma client_step_flags:
  "use \<noteq> OpArm True \<Longrightarrow> \<not> cl_armed s \<Longrightarrow> \<not> cl_armed (client_step api use s)"
  "use \<noteq> OpEnableEntries \<Longrightarrow> \<not> cl_entry s \<Longrightarrow> \<not> cl_entry (client_step api use s)"
  using client_step_cases [of use api s]
  by (auto simp: calls_def Let_def client_step_def arm_client_def enable_client_entries_def disable_client_entries_def disarm_client_def
    split: if_splits)

lemma client_step_sent:
  "sent (client_step api use s) = sent s \<or> (\<exists>c. sends s c \<and> sent (client_step api use s) = sent s @ [c])"
  using client_step_cases [of use api s] by (auto simp: calls_def Let_def client_step_def)

interpretation unarmed: kept_by_steps "client_step api" "\<lambda>use. use \<noteq> OpArm True" "\<lambda>s. \<not> cl_armed s \<and> list_all only_reads (sent s)" for api :: "'x sdk"
proof (unfold_locales)
  fix s :: "('x \<times> sdk_log) client_state" and use
  assume s: "\<not> cl_armed s \<and> list_all only_reads (sent s)" and use: "use \<noteq> OpArm True"
  then have "list_all only_reads (sent (client_step api use s))"
    using client_step_sent [of api use s] by (auto simp: sends_def)
  with s use show "\<not> cl_armed (client_step api use s) \<and> list_all only_reads (sent (client_step api use s))"
    by (simp add: client_step_flags)
qed

interpretation no_entries: kept_by_steps "client_step api" "\<lambda>use. use \<noteq> OpEnableEntries"
  "\<lambda>s. \<not> cl_entry s \<and> list_all (\<lambda>c. \<not> opens_exposure c) (sent s)" for api :: "'x sdk"
proof (unfold_locales)
  fix s :: "('x \<times> sdk_log) client_state" and use
  assume s: "\<not> cl_entry s \<and> list_all (\<lambda>c. \<not> opens_exposure c) (sent s)" and use: "use \<noteq> OpEnableEntries"
  then have "list_all (\<lambda>c. \<not> opens_exposure c) (sent (client_step api use s))"
    using client_step_sent [of api use s] by (auto simp: sends_def)
  with s use show "\<not> cl_entry (client_step api use s) \<and> list_all (\<lambda>c. \<not> opens_exposure c) (sent (client_step api use s))"
    by (simp add: client_step_flags)
qed

subsection \<open>What a process can send\<close>

text \<open>C5: Whatever a process does with the client, a process that is never armed by a passed preflight
  only reads from OKX, and a process in which entries were not enabled never sends an order that could
  open exposure: every order it sends is marked reduce-only.\<close>

theorem client_sends_only_what_is_allowed:
  fixes s :: "('x \<times> sdk_log) client_state"
  assumes "sent s = []"
  shows "(\<not> cl_armed s \<and> OpArm True \<notin> set ops \<longrightarrow> list_all only_reads (sent (run_steps (client_step api) ops s))) \<and>
    (\<not> cl_entry s \<and> OpEnableEntries \<notin> set ops \<longrightarrow>
      list_all (\<lambda>c. \<not> opens_exposure c) (sent (run_steps (client_step api) ops s)))"
proof (intro conjI impI)
  assume a: "\<not> cl_armed s \<and> OpArm True \<notin> set ops"
  then have "list_all (\<lambda>use. use \<noteq> OpArm True) ops" by (auto simp: list_all_iff)
  with unarmed.run_keeps [of s ops api] a assms show "list_all only_reads (sent (run_steps (client_step api) ops s))" by simp
next
  assume a: "\<not> cl_entry s \<and> OpEnableEntries \<notin> set ops"
  then have "list_all (\<lambda>use. use \<noteq> OpEnableEntries) ops" by (auto simp: list_all_iff)
  with no_entries.run_keeps [of s ops api] a assms
  show "list_all (\<lambda>c. \<not> opens_exposure c) (sent (run_steps (client_step api) ops s))" by simp
qed

lemma single_result_Inr [result_simps]: "single_result e data = Inr d \<longleftrightarrow> data = JList [JObj d]"
  by (auto simp: single_result_def split: json.splits list.splits)

lemma accepted_order_Inr:
  assumes "accepted_order_result label response = Inr order"
  shows "jget response ''code'' = JStr ''0'' \<and> jget response ''data'' = JList [JObj order] \<and>
    text_of (jget order ''sCode'') = ''0'' \<and> text_of (jget order ''ordId'') \<noteq> []"
  using assms by (auto simp: accepted_order_result_def accepted_result_def unwrap_def result_simps jget_def or_default_def
    Let_def split: if_splits option.splits)

text \<open>Turning entries off never stands in the way of a close: on an armed process a valid reduce-only
  market order reaches OKX with the closing side and its size, whatever the entry switch says, and it
  counts as placed only when OKX accepted exactly one order and named it.\<close>

theorem close_reaches_exchange:
  assumes "cl_armed s" and "py_lower side = ''long'' \<or> py_lower side = ''short''"
    and "float_of_str sz = Some (PFin q)" "0 < q" and "valid_client_order_id client_id"
    and "api ''place_order'' [(''instId'', JStr inst_id), (''tdMode'', JStr td_mode),
        (''side'', JStr (if py_lower side = ''long'' then ''sell'' else ''buy'')), (''ordType'', JStr ''market''),
        (''clOrdId'', JStr client_id), (''sz'', JStr sz), (''posSide'', JStr pos_side), (''reduceOnly'', JStr ''true'')] (cl_api s)
      = (Inr response, x)"
  shows "\<exists>r. place_reduce_market_order api inst_id side sz td_mode pos_side client_id True s = (r, s\<lparr>cl_api := x\<rparr>) \<and>
    (\<forall>order. r = Inr order \<longleftrightarrow> accepted_order_result ''place_reduce_market_order'' response = Inr order) \<and>
    (\<forall>order. r = Inr order \<longrightarrow> jget response ''code'' = JStr ''0'' \<and> jget response ''data'' = JList [JObj order] \<and>
      text_of (jget order ''sCode'') = ''0'' \<and> text_of (jget order ''ordId'') \<noteq> [])"
proof -
  have "check_position_side (py_lower side) = Inr ()" "positive_text sz m = Inr ()" "validate_client_order_id client_id = Inr ()" for m
    using assms by (simp_all add: check_position_side_def positive_text_def validate_client_order_id_def)
  then have "place_reduce_market_order api inst_id side sz td_mode pos_side client_id True s
      = (accepted_order_result ''place_reduce_market_order'' response, s\<lparr>cl_api := x\<rparr>)"
    using assms(1,6) by (simp add: place_reduce_market_order_def require_armed_def confirmed_def bindS_def liftS_def sdk_call_def closing_side_def)
  then show ?thesis using accepted_order_Inr by blast
qed

subsection \<open>A kit that accepts every order\<close>

definition accepting_kit :: "nat sdk" where
  "accepting_kit name args n =
     (Inr [(''code'', JStr ''0''), (''data'', JList [JObj [(''sCode'', JStr ''0''), (''ordId'', JStr (show_int (int n))),
        (''algoId'', JStr (show_int (int n)))]])], Suc n)"

definition sample_limit :: limit_order where
  "sample_limit = \<lparr>lo_inst_id = ''BTC-USDT-SWAP'', lo_side = ''buy'', lo_sz = ''2'', lo_px = ''100'', lo_td_mode = ''cross'',
     lo_tp_trigger = [], lo_tp_ord = [], lo_sl_trigger = ''90'', lo_sl_ord = ''-1'', lo_client_order_id = ''mb1'',
     lo_attach_client_order_id = ''mba1'', lo_order_type = ''fok'', lo_confirm = True\<rparr>"

definition sample_uses :: "client_op list" where
  "sample_uses = [OpLimit sample_limit, OpReduce ''BTC-USDT-SWAP'' ''long'' ''2'' ''cross'' ''net'' ''mbe1'' True,
     OpGetOrder ''BTC-USDT-SWAP'' ''7'' [], OpArm False]"

definition off_client :: "(nat \<times> sdk_log) client_state" where
  "off_client = \<lparr>cl_armed = False, cl_entry = False, cl_api = (0, [])\<rparr>"

theorem client_sends_only_what_is_allowed_witness:
  "list_all only_reads (sent (run_steps (client_step accepting_kit) sample_uses off_client)) \<and>
   length (sent (run_steps (client_step accepting_kit) sample_uses off_client)) = 1 \<and>
   list_all (\<lambda>c. \<not> opens_exposure c) (sent (run_steps (client_step accepting_kit) (OpArm True # sample_uses) off_client)) \<and>
   length (sent (run_steps (client_step accepting_kit) (OpArm True # sample_uses) off_client)) = 2"
proof -
  have start: "sent off_client = []" "\<not> cl_armed off_client" "\<not> cl_entry off_client" by (simp_all add: off_client_def)
  have "length (sent (run_steps (client_step accepting_kit) sample_uses off_client)) = 1"
    "length (sent (run_steps (client_step accepting_kit) (OpArm True # sample_uses) off_client)) = 2" by code_simp+
  with client_sends_only_what_is_allowed [OF start(1), of sample_uses accepting_kit]
    client_sends_only_what_is_allowed [OF start(1), of "OpArm True # sample_uses" accepting_kit] start
  show ?thesis by (simp add: sample_uses_def)
qed

theorem close_reaches_exchange_witness:
  "\<exists>r. place_reduce_market_order accepting_kit ''BTC-USDT-SWAP'' ''long'' ''2'' ''cross'' ''net'' ''mbe1'' True
     \<lparr>cl_armed = True, cl_entry = False, cl_api = 0\<rparr> = (r, \<lparr>cl_armed = True, cl_entry = False, cl_api = 1\<rparr>)"
proof -
  have f: "float_of_str ''2'' = Some (PFin 2)" "valid_client_order_id ''mbe1''" "py_lower ''long'' = ''long''" by code_simp+
  show ?thesis
    using close_reaches_exchange [where s = "\<lparr>cl_armed = True, cl_entry = False, cl_api = 0\<rparr>" and api = accepting_kit
      and side = "''long''" and sz = "''2''" and q = 2 and client_id = "''mbe1''" and inst_id = "''BTC-USDT-SWAP''"
      and td_mode = "''cross''" and pos_side = "''net''", OF _ _ f(1) _ f(2)] f(3)
    by (simp add: accepting_kit_def) blast
qed

end
