(* ===== verification/PositionReconciliation.thy ===== *)
theory PositionReconciliation
  imports PositionStore
begin

section \<open>Reconciliation with the exchange\<close>

text \<open>
  \<^verbatim>\<open>src/trading/position_reconciliation.py\<close>: the logical units of each instrument and side
  against the net positions that OKX reports. Sizes and prices of the exchange are floats as they are
  read, not-a-number and infinities included.
\<close>

subsection \<open>Data\<close>

datatype recon_state = Balanced | UnderAllocated | OverAllocated | NoExchangePosition | UnknownQuantity

datatype account_state = AccountBalanced | AccountMismatch | AccountInvalid | ProtectionRequired

record exchange_group =
  eg_size :: pyfloat
  eg_average_price :: "pyfloat option"
  eg_mark_price :: "pyfloat option"

record group_reconciliation =
  gr_key :: string
  gr_inst_id :: string
  gr_side :: string
  gr_state :: recon_state
  gr_exchange_size :: "pyfloat option"
  gr_logical_remaining :: "rat option"
  gr_quantity_gap :: "pyfloat option"
  gr_unexplained :: pyfloat
  gr_average_price :: "pyfloat option"
  gr_mark_price :: "pyfloat option"
  gr_position_ids :: "string list"
  gr_warnings :: "string list"

record account_reconciliation =
  ar_safe_for_entries :: bool
  ar_state :: account_state
  ar_groups :: "group_reconciliation list"
  ar_invalid_exchange :: "string list"
  ar_invalid_logical :: "string list"
  ar_unprotected :: "string list"
  ar_checked_at :: string

record position_reconciliation =
  po_position_id :: string
  po_inst_id :: string
  po_side :: string
  po_state :: recon_state
  po_exchange_key :: string
  po_exchange_size :: "pyfloat option"
  po_logical_remaining :: "rat option"
  po_quantity_gap :: "pyfloat option"
  po_warnings :: "string list"

definition recon_active :: "pos_status list" where
  "recon_active = [Open, Reducing, Closing]"

subsection \<open>Reading the exchange\<close>

definition normalize_side :: "json \<Rightarrow> string" where
  "normalize_side side =
     (let normalized = py_lower (text_of side) in
      if normalized = ''long'' \<or> normalized = ''buy'' then ''long''
      else if normalized = ''short'' \<or> normalized = ''sell'' then ''short'' else ''unknown'')"

definition position_key :: "string \<Rightarrow> json \<Rightarrow> string" where
  "position_key inst_id side = inst_id @ '':'' @ normalize_side side"

definition signed_float :: "json \<Rightarrow> pyfloat option" where
  "signed_float value = (if blank value then None else (case py_float value of Inl _ \<Rightarrow> None | Inr f \<Rightarrow> Some f))"

definition price_float :: "json \<Rightarrow> pyfloat option" where
  "price_float value = (case signed_float value of None \<Rightarrow> None | Some f \<Rightarrow> if fl_lt (PFin 0) f then Some f else None)"

definition weighted_price :: "pyfloat option \<Rightarrow> pyfloat \<Rightarrow> pyfloat option \<Rightarrow> pyfloat \<Rightarrow> pyfloat option" where
  "weighted_price previous_price previous_size price sz =
     (case (previous_price, price) of
        (None, _) \<Rightarrow> price
      | (Some p, None) \<Rightarrow> Some p
      | (Some p, Some q) \<Rightarrow>
          Some (fl_div (fl_add (fl_mul p previous_size) (fl_mul q sz)) (fl_add previous_size sz)))"

definition first_filled :: "jobj \<Rightarrow> string list \<Rightarrow> json" where
  "first_filled d ks = (case filter (\<lambda>k. \<not> blank (jget d k)) ks of [] \<Rightarrow> jget d (last ks) | k # _ \<Rightarrow> jget d k)"

definition add_exchange_row ::
  "nat \<times> jobj \<Rightarrow> (string, exchange_group) table \<times> string list \<Rightarrow> (string, exchange_group) table \<times> string list" where
  "add_exchange_row = (\<lambda>(index, row) (grouped, invalid).
     let inst_id = text_of (py_or (jget row ''inst_id'') (jget row ''instId'')) in
     case signed_float (first_filled row [''position'', ''pos'', ''sz'']) of
       None \<Rightarrow> (grouped, invalid @ [''exchange position '' @ show_int (int index) @ '' has invalid instrument or size''])
     | Some sz \<Rightarrow>
         if inst_id = [] then (grouped, invalid @ [''exchange position '' @ show_int (int index) @ '' has invalid instrument or size''])
         else if fl_le (fl_abs sz) (PFin quantity_tolerance) then (grouped, invalid)
         else
           (let raw_side = py_or (py_or (jget row ''pos_side'') (jget row ''posSide'')) (jget row ''side'');
                named = normalize_side raw_side;
                side = (if py_lower (text_of raw_side) = ''net'' \<or> named = ''unknown''
                  then (if fl_lt (PFin 0) sz then ''long'' else ''short'') else named);
                key = position_key inst_id (JStr side);
                average = price_float (py_or (jget row ''avg_price'') (jget row ''avgPx''));
                mark = price_float (py_or (jget row ''mark_price'') (jget row ''markPx'')) in
            (case tget grouped key of
               None \<Rightarrow> tset key \<lparr>eg_size = fl_abs sz, eg_average_price = average, eg_mark_price = mark\<rparr> grouped
             | Some g \<Rightarrow> tset key \<lparr>eg_size = fl_add (eg_size g) (fl_abs sz),
                   eg_average_price = weighted_price (eg_average_price g) (eg_size g) average (fl_abs sz),
                   eg_mark_price = (case mark of Some m \<Rightarrow> Some m | None \<Rightarrow> eg_mark_price g)\<rparr> grouped, invalid)))"

definition exchange_by_key :: "jobj list \<Rightarrow> (string, exchange_group) table \<times> string list" where
  "exchange_by_key rows = fold add_exchange_row (zip [0..<length rows] rows) ([], [])"

subsection \<open>Comparing\<close>

fun group_sum :: "position list \<Rightarrow> rat \<Rightarrow> rat option" where
  "group_sum [] acc = Some acc"
| "group_sum (p # ps) acc =
     (case (case p_remaining p of Some q \<Rightarrow> Some q | None \<Rightarrow> p_opened p) of
        None \<Rightarrow> None | Some q \<Rightarrow> group_sum ps (acc + q))"

definition group_remaining :: "position list \<Rightarrow> rat option" where
  "group_remaining ps = map_option round12 (group_sum ps 0)"

definition fl_round12 :: "pyfloat \<Rightarrow> pyfloat" where
  "fl_round12 f = (case f of PFin r \<Rightarrow> PFin (round12 r) | _ \<Rightarrow> f)"

definition group_state ::
  "pyfloat option \<Rightarrow> rat option \<Rightarrow> recon_state \<times> pyfloat option \<times> string list" where
  "group_state exchange_size remaining =
     (case exchange_size of
        None \<Rightarrow> (NoExchangePosition, None, [''no matching OKX net position''])
      | Some sz \<Rightarrow>
          (case remaining of
             None \<Rightarrow> (UnknownQuantity, None, [''one or more logical units has unknown remaining quantity''])
           | Some r \<Rightarrow>
               (let gap = fl_round12 (fl_sub sz (PFin r)) in
                if fl_le (fl_abs gap) (PFin quantity_tolerance) then (Balanced, Some (PFin 0), [])
                else if fl_lt (PFin 0) gap
                then (UnderAllocated, Some gap, [''OKX net position is larger than tracked logical remaining quantity''])
                else (OverAllocated, Some gap, [''Tracked logical remaining quantity is larger than OKX net position'']))))"

definition logical_valid :: "position \<Rightarrow> bool" where
  "logical_valid p = (p_inst_id p \<noteq> [] \<and> normalize_side (JStr (p_side p)) \<noteq> ''unknown'')"

definition needs_protection :: "position \<Rightarrow> bool" where
  "needs_protection p = (p_source p \<in> {''import'', ''recovery''} \<and>
     \<not> truthy (jget (col_obj (p_metadata p)) ''exchange_protection_verified''))"

definition logical_key :: "position \<Rightarrow> string" where
  "logical_key p = position_key (p_inst_id p) (JStr (p_side p))"

text \<open>\<^verbatim>\<open>key.rsplit(":", 1)\<close>\<close>

definition rsplit_colon :: "string \<Rightarrow> string \<times> string" where
  "rsplit_colon s = (let r = rev s in
     (rev (drop 1 (dropWhile (\<lambda>c. c \<noteq> CHR '':'') r)), rev (takeWhile (\<lambda>c. c \<noteq> CHR '':'') r)))"

definition reconcile_group :: "(string, exchange_group) table \<Rightarrow> position list \<Rightarrow> string \<Rightarrow> group_reconciliation" where
  "reconcile_group exchange tracked key =
     (let positions = filter (\<lambda>p. logical_key p = key) tracked;
          row = tget exchange key;
          sz = map_option eg_size row;
          remaining = (if positions = [] then Some 0 else group_remaining positions);
          (state, gap, warnings) = group_state sz remaining;
          (inst_id, side) = rsplit_colon key in
      \<lparr>gr_key = key, gr_inst_id = inst_id, gr_side = side, gr_state = state, gr_exchange_size = sz,
       gr_logical_remaining = remaining, gr_quantity_gap = gap,
       gr_unexplained = (if state = UnderAllocated
         then (case gap of Some g \<Rightarrow> if fl_lt (PFin 0) g then g else PFin 0 | None \<Rightarrow> PFin 0) else PFin 0),
       gr_average_price = (case row of None \<Rightarrow> None | Some g \<Rightarrow> eg_average_price g),
       gr_mark_price = (case row of None \<Rightarrow> None | Some g \<Rightarrow> eg_mark_price g),
       gr_position_ids = map p_id positions, gr_warnings = warnings\<rparr>)"

definition reconcile_account :: "string \<Rightarrow> position list \<Rightarrow> jobj list \<Rightarrow> account_reconciliation" where
  "reconcile_account now logical_positions exchange_positions =
     (let (exchange, invalid) = exchange_by_key exchange_positions;
          active = filter (\<lambda>p. p_status p \<in> set recon_active) logical_positions;
          tracked = filter logical_valid active;
          invalid_logical = map p_id (filter (\<lambda>p. \<not> logical_valid p) active);
          unprotected = map p_id (filter needs_protection tracked);
          keys = sort (remdups (map fst exchange @ map logical_key tracked));
          groups = map (reconcile_group exchange tracked) keys;
          state = (if invalid \<noteq> [] \<or> invalid_logical \<noteq> [] then AccountInvalid
             else if list_ex (\<lambda>g. gr_state g \<noteq> Balanced) groups then AccountMismatch
             else if unprotected \<noteq> [] then ProtectionRequired else AccountBalanced) in
      \<lparr>ar_safe_for_entries = (state = AccountBalanced), ar_state = state, ar_groups = groups, ar_invalid_exchange = invalid,
       ar_invalid_logical = invalid_logical, ar_unprotected = unprotected, ar_checked_at = now\<rparr>)"

definition reconcile :: "string \<Rightarrow> position list \<Rightarrow> jobj list \<Rightarrow> (string, position_reconciliation) table" where
  "reconcile now logical_positions exchange_positions =
     (let groups = map (\<lambda>g. (gr_key g, g)) (ar_groups (reconcile_account now logical_positions exchange_positions)) in
      fold (\<lambda>p result.
        if p_status p \<notin> set recon_active then result
        else (case tget groups (logical_key p) of
            None \<Rightarrow> result
          | Some g \<Rightarrow> tset (p_id p) \<lparr>po_position_id = p_id p, po_inst_id = p_inst_id p, po_side = normalize_side (JStr (p_side p)),
              po_state = gr_state g, po_exchange_key = (if gr_exchange_size g \<noteq> None then gr_key g else []),
              po_exchange_size = gr_exchange_size g, po_logical_remaining = gr_logical_remaining g,
              po_quantity_gap = gr_quantity_gap g, po_warnings = gr_warnings g\<rparr> result)) logical_positions [])"

subsection \<open>What a balanced account means\<close>

lemma round12_tolerance:
  assumes "\<bar>round12 (s - round12 r)\<bar> \<le> quantity_tolerance"
  shows "\<bar>s - r\<bar> \<le> 2 / 10 ^ 12"
proof -
  have "\<bar>round12 (s - round12 r) - (s - round12 r)\<bar> \<le> 1 / (2 * 10 ^ 12)" "\<bar>round12 r - r\<bar> \<le> 1 / (2 * 10 ^ 12)"
    by (rule round12_error)+
  moreover have "quantity_tolerance = 1 / (2 * 10 ^ 12) + 1 / (2 * 10 ^ 12)" by (simp add: quantity_tolerance_def)
  moreover have "(2 / 10 ^ 12 :: rat) = 4 * (1 / (2 * 10 ^ 12))" by simp
  ultimately show ?thesis using assms by linarith
qed

lemma group_state_balanced:
  assumes "fst (group_state (Some z) (Some r)) = Balanced"
  shows "\<exists>s. z = PFin s \<and> \<bar>round12 (s - r)\<bar> \<le> quantity_tolerance"
  using assms by (cases z) (auto simp: group_state_def Let_def fl_round12_def fl_sub_def fl_neg_def fl_abs_def split: if_splits)

definition units_of :: "position list \<Rightarrow> string \<Rightarrow> position list" where
  "units_of ps key = filter (\<lambda>p. p_status p \<in> set recon_active \<and> logical_key p = key) ps"

lemma reconcile_group_balanced:
  assumes "gr_state (reconcile_group exchange tracked key) = Balanced"
  shows "\<exists>g s r. tget exchange key = Some g \<and> eg_size g = PFin s \<and>
    group_sum (filter (\<lambda>p. logical_key p = key) tracked) 0 = Some r \<and> \<bar>s - r\<bar> \<le> 2 / 10 ^ 12"
proof -
  let ?ps = "filter (\<lambda>p. logical_key p = key) tracked"
  let ?rem = "if ?ps = [] then Some 0 else group_remaining ?ps"
  have st: "fst (group_state (map_option eg_size (tget exchange key)) ?rem) = Balanced"
    using assms by (simp add: reconcile_group_def Let_def split_beta)
  then obtain g where g: "tget exchange key = Some g" by (cases "tget exchange key") (simp_all add: group_state_def)
  have rem: "?rem = map_option round12 (group_sum ?ps 0)" by (simp add: group_remaining_def)
  have "?rem \<noteq> None"
  proof
    assume "?rem = None"
    then show False using st unfolding g by (simp add: group_state_def)
  qed
  then obtain t where t: "group_sum ?ps 0 = Some t" unfolding rem by (cases "group_sum ?ps 0") simp_all
  have "fst (group_state (Some (eg_size g)) (Some (round12 t))) = Balanced"
    using st unfolding rem g t by simp
  from group_state_balanced [OF this] obtain s where s: "eg_size g = PFin s" "\<bar>round12 (s - round12 t)\<bar> \<le> quantity_tolerance"
    by blast
  show ?thesis using g t s(1) round12_tolerance [OF s(2)] by blast
qed

text \<open>C30: An account that is reported safe for entries is fully explained. Every net position of the
  exchange is a finite size that equals, within \<^verbatim>\<open>2e-12\<close>, the known remaining quantities of
  the active logical units of its instrument and side, there is no active unit without such a
  position, no row that could not be read, and no imported or recovered unit without verified
  protection.\<close>

theorem balanced_account_is_explained:
  assumes "ar_safe_for_entries (reconcile_account now ps rows)"
  shows "snd (exchange_by_key rows) = [] \<and>
    (\<forall>p\<in>set ps. p_status p \<in> set recon_active \<longrightarrow> logical_valid p \<and> \<not> needs_protection p) \<and>
    (\<forall>key. case tget (fst (exchange_by_key rows)) key of
        None \<Rightarrow> units_of ps key = []
      | Some g \<Rightarrow> \<exists>s r. eg_size g = PFin s \<and> group_sum (units_of ps key) 0 = Some r \<and> \<bar>s - r\<bar> \<le> 2 / 10 ^ 12)"
proof -
  obtain ex invalid where e: "exchange_by_key rows = (ex, invalid)" by (cases "exchange_by_key rows")
  let ?active = "filter (\<lambda>p. p_status p \<in> set recon_active) ps"
  let ?tracked = "filter logical_valid ?active"
  let ?keys = "sort (remdups (map fst ex @ map logical_key ?tracked))"
  have a: "invalid = []" "filter (\<lambda>p. \<not> logical_valid p) ?active = []" "filter needs_protection ?tracked = []"
    "\<not> list_ex (\<lambda>g. gr_state g \<noteq> Balanced) (map (reconcile_group ex ?tracked) ?keys)"
    using assms unfolding reconcile_account_def e by (simp_all add: Let_def split: if_splits)
  have valid: "logical_valid p" if "p \<in> set ps" "p_status p \<in> set recon_active" for p
    using a(2) that by (simp add: filter_empty_conv)
  then have tracked: "?tracked = ?active" unfolding filter_filter by (intro filter_cong) auto
  have units: "filter (\<lambda>p. logical_key p = key) ?tracked = units_of ps key" for key
    unfolding tracked by (simp add: units_of_def conj_commute)
  have balanced: "gr_state (reconcile_group ex ?tracked key) = Balanced"
    if "key \<in> set (map fst ex) \<or> units_of ps key \<noteq> []" for key
  proof -
    have "key \<in> set ?keys" using that unfolding units [symmetric] by (auto simp: filter_empty_conv)
    with a(4) show ?thesis by (auto simp: list_ex_iff)
  qed
  have "case tget ex key of None \<Rightarrow> units_of ps key = []
      | Some g \<Rightarrow> \<exists>s r. eg_size g = PFin s \<and> group_sum (units_of ps key) 0 = Some r \<and> \<bar>s - r\<bar> \<le> 2 / 10 ^ 12" for key
  proof (cases "tget ex key")
    case None
    then show ?thesis using reconcile_group_balanced [OF balanced [of key]] by auto
  next
    case (Some g)
    then have "key \<in> set (map fst ex)" by (force dest: map_of_SomeD)
    then show ?thesis using reconcile_group_balanced [OF balanced [of key]] Some units by auto
  qed
  moreover have "\<not> needs_protection p" if "p \<in> set ps" "p_status p \<in> set recon_active" for p
    using a(3) that unfolding tracked by (simp add: filter_empty_conv)
  ultimately show ?thesis using a(1) valid e by simp
qed

definition sample_unit :: "string \<Rightarrow> rat \<Rightarrow> position" where
  "sample_unit i q = \<lparr>p_id = i, p_source = ''strategy'', p_strategy_id = ''s1'', p_trade_id = None, p_inst_id = ''BTC-USDT-SWAP'',
     p_side = ''long'', p_opened = Some q, p_remaining = Some q, p_entry_price = 100, p_entry_time = ''t0'', p_status = Open,
     p_exchange_order_id = [], p_client_order_id = [], p_exchange_position_key = [], p_metadata = dumps [],
     p_created_at = ''t0'', p_updated_at = ''t0''\<rparr>"

definition sample_rows :: "jobj list" where
  "sample_rows = [[(''instId'', JStr ''BTC-USDT-SWAP''), (''pos'', JStr ''3''), (''posSide'', JStr ''net''), (''markPx'', JStr ''100'')]]"

theorem balanced_account_is_explained_witness:
  "\<exists>g s r. tget (fst (exchange_by_key sample_rows)) ''BTC-USDT-SWAP:long'' = Some g \<and> eg_size g = PFin s \<and>
     group_sum (units_of [sample_unit ''p1'' 1, sample_unit ''p2'' 2] ''BTC-USDT-SWAP:long'') 0 = Some r \<and> \<bar>s - r\<bar> \<le> 2 / 10 ^ 12"
proof -
  have "ar_safe_for_entries (reconcile_account ''t'' [sample_unit ''p1'' 1, sample_unit ''p2'' 2] sample_rows)" by code_simp
  from balanced_account_is_explained [OF this]
  have k: "case tget (fst (exchange_by_key sample_rows)) ''BTC-USDT-SWAP:long'' of
      None \<Rightarrow> units_of [sample_unit ''p1'' 1, sample_unit ''p2'' 2] ''BTC-USDT-SWAP:long'' = []
    | Some g \<Rightarrow> \<exists>s r. eg_size g = PFin s \<and>
        group_sum (units_of [sample_unit ''p1'' 1, sample_unit ''p2'' 2] ''BTC-USDT-SWAP:long'') 0 = Some r \<and> \<bar>s - r\<bar> \<le> 2 / 10 ^ 12"
    by blast
  have "tget (fst (exchange_by_key sample_rows)) ''BTC-USDT-SWAP:long'' \<noteq> None" by code_simp
  with k show ?thesis by (auto split: option.splits)
qed

end
