(* ===== verification/TextColumns.thy ===== *)
theory TextColumns
  imports PyValue
begin

section \<open>Text columns of a database\<close>

text \<open>
  What SQLite keeps of a value is text: \<^verbatim>\<open>str(Decimal)\<close> in a TEXT column, \<^verbatim>\<open>json.dumps\<close> of a list of
  names in a JSON column. This theory prints and reads both and shows that reading gives back what was
  printed. \<^verbatim>\<open>json.dumps\<close> escapes as its default \<^verbatim>\<open>ensure_ascii\<close> does; a character is one of the 256
  that HOL knows. The reader is that of \<^verbatim>\<open>json.loads\<close> for an array of strings; JSON of another shape is
  never written to these columns and is not read.
\<close>

subsection \<open>Decimals\<close>

lemma fixed_digits_exact:
  assumes n: "0 \<le> n" and e: "e \<le> 0"
  obtains ip fp where "fixed_digits n e = plain_text ip fp" "list_all is_digit ip"
    "list_all is_digit fp" "ip \<noteq> []" "read_digits (ip @ fp) = n" "int (length fp) = - e"
proof -
  let ?ds = "show_digits n" and ?p = "e + int (length (show_digits n))"
  have ds: "list_all is_digit ?ds" using n by (rule show_digits_digits)
  have cs: "fixed_digits n e = (if 0 \<le> e then ?ds @ replicate (nat e) CHR ''0''
      else if ?p \<le> 0 then ''0.'' @ replicate (nat (- ?p)) CHR ''0'' @ ?ds
      else take (nat ?p) ?ds @ ''.'' @ drop (nat ?p) ?ds)"
    by (simp add: fixed_digits_def Let_def)
  consider "e = 0" | "e < 0" "?p \<le> 0" | "e < 0" "0 < ?p" using e by linarith
  then show thesis
  proof cases
    case 1
    show thesis
      by (rule that [of "?ds" "[]"]) (use 1 ds cs n in \<open>auto simp: plain_text_def\<close>)
  next
    case 2
    have "''0'' @ replicate (nat (- ?p)) CHR ''0'' @ ?ds
        = replicate (Suc (nat (- ?p))) CHR ''0'' @ ?ds" by simp
    then have r: "read_digits (''0'' @ replicate (nat (- ?p)) CHR ''0'' @ ?ds) = n"
      using n by (simp only: read_digits_zeros read_show_digits)
    show thesis
      by (rule that [OF _ _ _ _ r]) (use 2 ds cs in \<open>auto simp: plain_text_def list_all_iff\<close>)
  next
    case 3
    have lt: "nat ?p < length ?ds" using 3 by linarith
    have l: "int (length (drop (nat ?p) ?ds)) = - e" using 3 by simp
    have r: "read_digits (take (nat ?p) ?ds @ drop (nat ?p) ?ds) = n" using n by simp
    show thesis
      by (rule that [OF _ _ _ _ r l])
        (use 3 lt ds cs in \<open>auto simp: plain_text_def list_all_iff dest: in_set_takeD in_set_dropD\<close>)
  qed
qed

text \<open>A number without white space and underscores is read as it stands.\<close>

definition text_char :: "char \<Rightarrow> bool" where
  "text_char c = (number_char c \<or> c = CHR ''+'' \<or> c = CHR ''E'')"

lemma text_char_digits: "list_all is_digit s \<Longrightarrow> list_all text_char s"
  by (auto simp: list_all_iff text_char_def number_char_def)

lemma text_char_strip:
  assumes "list_all text_char s"
  shows "filter (\<lambda>c. c \<noteq> CHR ''_'') (py_strip s) = s"
proof -
  have ns: "\<not> is_space c" if "text_char c" for c
    using that by (auto simp: text_char_def number_char_def is_digit_def digit_val_def is_space_def)
  have "dropWhile is_space t = t" if "list_all text_char t" for t
    using that ns by (cases t) auto
  with assms have "py_strip s = s" by (simp add: py_strip_def)
  moreover have "filter (\<lambda>c. c \<noteq> CHR ''_'') s = s"
    using assms by (auto simp: filter_id_conv list_all_iff text_char_def number_char_def)
  ultimately show ?thesis by simp
qed

lemma dec_of_str_number:
  "list_all text_char s \<Longrightarrow> read_number s = Some (c, e) \<Longrightarrow> dec_of_str s = Some (Dec c e)"
  by (simp add: dec_of_str_def text_char_strip)

text \<open>Reading a sign in front of a number that has none.\<close>

lemma read_number_minus:
  assumes "read_number s = Some (c, e)" "read_sign s = (False, s)"
  shows "read_number (CHR ''-'' # s) = Some (- c, e)"
  using assms unfolding read_number_def by (auto simp: Let_def read_sign_def signed_def split: if_splits)

lemma read_exponent_shown:
  "read_exponent (CHR ''E'' # (if 0 \<le> x then ''+'' else []) @ show_int x) = Some x"
proof (cases "0 \<le> x")
  case True
  then show ?thesis
    by (simp add: read_exponent_def read_sign_def show_int_def show_digits_digits signed_def)
next
  case False
  then show ?thesis
    by (simp add: read_exponent_def read_sign_def show_int_def show_digits_digits signed_def)
qed

lemma read_number_exponent:
  assumes "list_all is_digit ip" "list_all is_digit fp" "ip \<noteq> []" "read_exponent (CHR ''E'' # r) = Some x"
  shows "read_number (plain_text ip fp @ CHR ''E'' # r) = Some (read_digits (ip @ fp), x - int (length fp))"
proof -
  have s: "read_sign (plain_text ip fp @ CHR ''E'' # r) = (False, plain_text ip fp @ CHR ''E'' # r)"
    using assms by (simp add: plain_text_def read_sign_digits)
  show ?thesis
    using assms unfolding read_number_def s Let_def
    by (cases "fp = []") (simp_all add: plain_text_def span_digits signed_def)
qed

lemma read_sci_digits:
  assumes n: "0 \<le> n"
  shows "read_number (sci_digits n e) = Some (n, e) \<and> list_all text_char (sci_digits n e) \<and>
    read_sign (sci_digits n e) = (False, sci_digits n e)"
proof -
  let ?ds = "show_digits n"
  let ?left = "e + int (length ?ds)"
  have ds: "list_all is_digit ?ds" using n by (rule show_digits_digits)
  show ?thesis
  proof (cases "e \<le> 0 \<and> - 6 < ?left")
    case True
    obtain ip fp where f: "fixed_digits n e = plain_text ip fp" "list_all is_digit ip" "list_all is_digit fp" "ip \<noteq> []"
      "read_digits (ip @ fp) = n" "int (length fp) = - e"
      using True n by (auto elim: fixed_digits_exact)
    have t: "sci_digits n e = plain_text ip fp" using True f(1) by (simp add: sci_digits_def Let_def)
    show ?thesis
      unfolding t read_number_plain(1) [OF f(2,3,4)] using f
      by (simp add: plain_text_def read_sign_digits text_char_digits text_char_def number_char_def)
  next
    case False
    let ?x = "?left - 1"
    let ?r = "(if 0 \<le> ?x then ''+'' else []) @ show_int ?x"
    have one: "length ?ds = Suc 0 \<longleftrightarrow> length ?ds \<le> Suc 0"
      by (cases ?ds) (use show_digits_nonempty [of n] in auto)
    have t: "sci_digits n e = plain_text (take 1 ?ds) (drop 1 ?ds) @ CHR ''E'' # ?r"
      using False one by (auto simp: sci_digits_def Let_def plain_text_def)
    have d: "list_all is_digit (take 1 ?ds)" "list_all is_digit (drop 1 ?ds)" "take 1 ?ds \<noteq> []"
      using ds by (auto simp: list_all_iff dest: in_set_takeD in_set_dropD)
    have len: "int (length (drop 1 ?ds)) = int (length ?ds) - 1"
      by (cases ?ds) simp_all
    have "read_number (sci_digits n e) = Some (read_digits (take 1 ?ds @ drop 1 ?ds), ?x - int (length (drop 1 ?ds)))"
      unfolding t by (rule read_number_exponent [OF d read_exponent_shown])
    moreover have "list_all text_char (show_int ?x)"
      using show_digits_digits [of ?x] show_digits_digits [of "- ?x"]
      by (auto simp: show_int_def text_char_digits text_char_def number_char_def)
    ultimately show ?thesis
      using n len d unfolding t
      by (simp add: plain_text_def read_sign_digits text_char_digits text_char_def number_char_def del: append_take_drop_id)
        (simp add: text_char_def number_char_def)
  qed
qed

text \<open>\<^verbatim>\<open>Decimal(str(d)) == d\<close>, with coefficient and exponent.\<close>

lemma dec_of_dec_str [simp]: "dec_of_str (dec_str (Dec c e)) = Some (Dec c e)"
proof (cases "c < 0")
  case True
  then have n: "0 \<le> - c" by simp
  note r = read_sci_digits [OF n, of e]
  have "list_all text_char (CHR ''-'' # sci_digits (- c) e)" using r by (simp add: text_char_def number_char_def)
  moreover have "read_number (CHR ''-'' # sci_digits (- c) e) = Some (c, e)" using read_number_minus r by force
  ultimately show ?thesis using True by (simp add: dec_of_str_number)
next
  case False
  then show ?thesis using read_sci_digits [of c e] by (simp add: dec_of_str_number)
qed

lemma dec_of_finite_str: "dec_finite d \<Longrightarrow> dec_of_str (dec_str d) = Some d"
  by (cases d) (simp_all del: dec_str.simps(1))

subsection \<open>Arrays of strings\<close>

definition quote :: char where
  "quote = CHR 0x22"

definition backslash :: char where
  "backslash = CHR 0x5C"

definition hex_char :: "nat \<Rightarrow> char" where
  "hex_char n = ''0123456789abcdef'' ! n"

definition hex_val :: "char \<Rightarrow> nat option" where
  "hex_val c = map_of (zip ''0123456789abcdefABCDEF'' ([0..<16] @ [10..<16])) c"

text \<open>The two-character escapes of JSON, and the character each stands for.\<close>

definition escapes :: "(char \<times> char) list" where
  "escapes = [(quote, quote), (backslash, backslash), (CHR ''n'', CHR 0x0A), (CHR ''r'', CHR 0x0D), (CHR ''t'', CHR 0x09),
     (CHR ''f'', CHR 0x0C), (CHR ''b'', CHR 0x08)]"

definition escape_char :: "char \<Rightarrow> string" where
  "escape_char c =
     (case map_of (map prod.swap escapes) c of
        Some d \<Rightarrow> [backslash, d]
      | None \<Rightarrow>
          (let n = of_char c in
           if 32 \<le> n \<and> n \<le> (126 :: nat) then [c]
           else [backslash, CHR ''u'', CHR ''0'', CHR ''0'', hex_char (n div 16), hex_char (n mod 16)]))"

definition json_string :: "string \<Rightarrow> string" where
  "json_string s = quote # concat (map escape_char s) @ [quote]"

text \<open>\<^verbatim>\<open>json.dumps\<close> of a list of strings\<close>

definition json_names :: "string list \<Rightarrow> string" where
  "json_names xs = ''['' @ intersperse '', '' (map json_string xs) @ '']''"

subsubsection \<open>Reading\<close>

definition unescape :: "char \<Rightarrow> char option" where
  "unescape d = map_of ((CHR ''/'', CHR ''/'') # escapes) d"

definition read_hex :: "char list \<Rightarrow> char option" where
  "read_hex hs =
     (case those (map hex_val hs) of
        None \<Rightarrow> None
      | Some vs \<Rightarrow> (let n = foldl (\<lambda>acc v. 16 * acc + v) 0 vs in if n < 256 then Some (char_of n) else None))"

text \<open>The characters up to the closing quote, and what follows it. A control character is refused.\<close>

fun read_body :: "string \<Rightarrow> (string \<times> string) option" where
  "read_body [] = None"
| "read_body (c # r) =
     (if c = quote then Some ([], r)
      else if c = backslash then
        (case r of
           [] \<Rightarrow> None
         | d # r1 \<Rightarrow>
             if d = CHR ''u'' then
               (case r1 of
                  h1 # h2 # h3 # h4 # r2 \<Rightarrow>
                    (case read_hex [h1, h2, h3, h4] of
                       None \<Rightarrow> None
                     | Some x \<Rightarrow> map_option (apfst (Cons x)) (read_body r2))
                | _ \<Rightarrow> None)
             else
               (case unescape d of
                  None \<Rightarrow> None
                | Some x \<Rightarrow> map_option (apfst (Cons x)) (read_body r1)))
      else if of_char c < (32 :: nat) then None
      else map_option (apfst (Cons c)) (read_body r))"

lemma read_body_shorter: "read_body s = Some (x, r) \<Longrightarrow> length r < length s"
  by (induction s arbitrary: x r rule: read_body.induct) (force split: if_splits list.splits option.splits)+

definition skip_ws :: "string \<Rightarrow> string" where
  "skip_ws s = dropWhile (\<lambda>c. c \<in> {CHR '' '', CHR 0x09, CHR 0x0A, CHR 0x0D}) s"

lemma skip_ws_length: "length (skip_ws s) \<le> length s"
  by (simp add: skip_ws_def length_dropWhile_le)

function read_elems :: "string \<Rightarrow> (string list \<times> string) option" where
  "read_elems s =
     (case skip_ws s of
        [] \<Rightarrow> None
      | q # r \<Rightarrow>
          if q \<noteq> quote then None
          else (case read_body r of
              None \<Rightarrow> None
            | Some (x, r1) \<Rightarrow>
                (case skip_ws r1 of
                   [] \<Rightarrow> None
                 | c # r2 \<Rightarrow>
                     if c = CHR '','' then map_option (apfst (Cons x)) (read_elems r2)
                     else if c = CHR '']'' then Some ([x], r2)
                     else None)))"
  by pat_completeness auto
termination
proof (relation "measure length")
  fix s q r p x r1 c r2
  assume "skip_ws s = q # r" "read_body r = Some p" "(x, r1) = p" "skip_ws r1 = c # r2"
  then have "length r1 < length r" "Suc (length r2) \<le> length r1" "Suc (length r) \<le> length s"
    using read_body_shorter [of r x r1] skip_ws_length [of r1] skip_ws_length [of s] by auto
  then show "(r2, s) \<in> measure length" by simp
qed simp

declare read_elems.simps [simp del]

text \<open>\<^verbatim>\<open>json.loads\<close> of an array of strings\<close>

definition read_names :: "string \<Rightarrow> string list option" where
  "read_names s =
     (case skip_ws s of
        [] \<Rightarrow> None
      | c # r \<Rightarrow>
          if c \<noteq> CHR ''['' then None
          else (case (case skip_ws r of
                  d # r1 \<Rightarrow> if d = CHR '']'' then Some ([], r1) else read_elems r
                | [] \<Rightarrow> None) of
              None \<Rightarrow> None
            | Some (xs, rest) \<Rightarrow> if skip_ws rest = [] then Some xs else None))"

subsubsection \<open>Reading back what was printed\<close>

lemma hex_val_char [simp]: "n < 16 \<Longrightarrow> hex_val (hex_char n) = Some n"
proof -
  have "list_all (\<lambda>n. hex_val (hex_char n) = Some n) [0..<16]" by code_simp
  then show "n < 16 \<Longrightarrow> hex_val (hex_char n) = Some n" by (simp add: list_all_iff)
qed

lemma read_hex_char:
  fixes c :: char
  shows "read_hex [CHR ''0'', CHR ''0'', hex_char (of_char c div 16), hex_char (of_char c mod 16)] = Some c"
proof -
  have l: "(of_char c :: nat) < 256" by (rule nat_of_char_less_256)
  have z: "hex_val CHR ''0'' = Some 0" by code_simp
  have "(of_char c :: nat) div 16 < 16" using l by linarith
  then show ?thesis using l by (simp add: read_hex_def z)
qed

lemma escaped_chars:
  "map_of (map prod.swap escapes) c = Some d \<Longrightarrow> unescape d = Some c \<and> d \<noteq> CHR ''u''"
  by (auto simp: escapes_def unescape_def quote_def backslash_def split: if_splits)

lemma plain_chars: "map_of (map prod.swap escapes) c = None \<Longrightarrow> c \<noteq> quote \<and> c \<noteq> backslash"
  by (auto simp: escapes_def split: if_splits)

lemma backslash_not_quote [simp]: "backslash \<noteq> quote"
  by (simp add: backslash_def quote_def)

lemma read_escaped: "read_body (escape_char c @ t) = map_option (apfst (Cons c)) (read_body t)"
proof (cases "map_of (map prod.swap escapes) c")
  case (Some d)
  then show ?thesis using escaped_chars [OF Some] by (simp add: escape_char_def)
next
  case None
  then show ?thesis
    using plain_chars [OF None] read_hex_char [of c] by (simp add: escape_char_def Let_def)
qed

lemma read_json_string: "read_body (concat (map escape_char s) @ quote # t) = Some (s, t)"
  by (induction s) (simp_all add: read_escaped)

lemma skip_ws_simps [simp]: "skip_ws [] = []" "skip_ws (quote # s) = quote # s" "skip_ws (CHR '','' # s) = CHR '','' # s"
  "skip_ws (CHR '']'' # s) = CHR '']'' # s" "skip_ws (CHR ''['' # s) = CHR ''['' # s" "skip_ws (CHR '' '' # s) = skip_ws s"
  by (simp_all add: skip_ws_def quote_def)

lemma read_elems_string:
  "read_elems (json_string x @ c # t) =
     (case skip_ws (c # t) of [] \<Rightarrow> None | d # r \<Rightarrow> if d = CHR '','' then map_option (apfst (Cons x)) (read_elems r)
        else if d = CHR '']'' then Some ([x], r) else None)"
  by (subst read_elems.simps) (simp add: json_string_def read_json_string)

lemma read_elems_space [simp]: "read_elems (CHR '' '' # s) = read_elems s"
  by (subst (1 2) read_elems.simps) simp

lemma read_elems_names:
  "xs \<noteq> [] \<Longrightarrow> read_elems (intersperse '', '' (map json_string xs) @ CHR '']'' # t) = Some (xs, t)"
proof (induction xs rule: induct_list012)
  case (2 x)
  show ?case by (simp add: read_elems_string)
next
  case (3 x y zs)
  then show ?case by (simp add: read_elems_string)
qed simp

text \<open>\<^verbatim>\<open>json.loads(json.dumps(xs)) == xs\<close>\<close>

lemma read_json_names [simp]: "read_names (json_names xs) = Some xs"
proof (cases xs)
  case Nil
  then show ?thesis by (simp add: read_names_def json_names_def)
next
  case (Cons x r)
  have q: "\<exists>u. intersperse '', '' (map json_string xs) @ CHR '']'' # [] = quote # u"
    using Cons by (cases r) (simp_all add: json_string_def)
  have q': "quote \<noteq> CHR '']''" by (simp add: quote_def)
  from q obtain u where u: "intersperse '', '' (map json_string xs) @ CHR '']'' # [] = quote # u" by blast
  have "read_elems (quote # u) = Some (xs, [])"
    using read_elems_names [of xs "[]"] Cons unfolding u by simp
  then show ?thesis using q' by (simp add: read_names_def json_names_def u)
qed

end
