(* ===== verification/AccountRisk.thy ===== *)
theory AccountRisk
  imports PositionReconciliation TextColumns
begin

section \<open>The account risk envelope\<close>

text \<open>
  \<^verbatim>\<open>src/trading/account_risk.py\<close>: the persisted limits of the account, the operator's entry
  switch, and the guard that approves a live entry only inside the envelope. The answers of the
  exchange client during one call are the environment of the call, each of which may raise; the guard's
  own state is its cache of instruments. Every \<^verbatim>\<open>Decimal\<close> operation rounds with \<open>ctx\<close>;
  the row of the limits holds text, as SQLite does (\<open>TextColumns\<close>). A blocked entry is the exception \<open>RiskRejected\<close>,
  whose text leaves out the numbers that the source prints.
\<close>

subsection \<open>Limits\<close>

definition check_decimal :: "decimal \<Rightarrow> string \<Rightarrow> bool \<Rightarrow> rat result" where
  "check_decimal d field allow_zero =
     (if \<not> dec_finite d \<or> dec_val d < 0 \<or> (dec_val d = 0 \<and> \<not> allow_zero)
      then Inl (ValueError (field @ '' must be '' @ (if allow_zero then ''non-negative'' else ''positive'')))
      else Inr (dec_val d))"

definition risk_decimal :: "json \<Rightarrow> string \<Rightarrow> bool \<Rightarrow> rat result" where
  "risk_decimal value field allow_zero =
     (case dec_of_json value of
        None \<Rightarrow> Inl (ValueError (''Invalid '' @ field @ '': '' @ py_repr value))
      | Some d \<Rightarrow> check_decimal d field allow_zero)"

text \<open>A float of the store, finite and with the decimal value that it prints.\<close>

definition stored_decimal :: "rat \<Rightarrow> string \<Rightarrow> rat result" where
  "stored_decimal r field = (if r \<le> 0 then Inl (ValueError (field @ '' must be positive'')) else Inr r)"

definition signed_decimal :: "json \<Rightarrow> string \<Rightarrow> rat result" where
  "signed_decimal value field =
     (case dec_of_json value of
        None \<Rightarrow> Inl (ValueError (''Invalid '' @ field @ '': '' @ py_repr value))
      | Some d \<Rightarrow> if dec_finite d then Inr (dec_val d) else Inl (ValueError (field @ '' must be finite'')))"

definition is_true :: "json \<Rightarrow> bool" where
  "is_true value = (py_lower (py_str value) = ''true'')"

record risk_limits =
  rl_enabled :: bool
  rl_max_order :: decimal
  rl_max_exposure :: decimal
  rl_max_leverage :: decimal
  rl_max_stop_loss_pct :: decimal
  rl_instruments :: "string list"
  rl_entries_enabled :: bool
  rl_created_at :: string
  rl_updated_at :: string

text \<open>\<^verbatim>\<open>tuple(dict.fromkeys(xs))\<close>\<close>

definition unique_list :: "'a list \<Rightarrow> 'a list" where
  "unique_list xs = rev (remdups (rev xs))"

definition ends_with :: "string \<Rightarrow> string \<Rightarrow> bool" where
  "ends_with s p = (length p \<le> length s \<and> drop (length s - length p) s = p)"

definition validate_limits :: "risk_limits \<Rightarrow> unit result" where
  "validate_limits l =
     bindE (check_decimal (rl_max_order l) ''max_order_notional_usd'' False) (\<lambda>order_limit.
     bindE (check_decimal (rl_max_exposure l) ''max_total_exposure_usd'' False) (\<lambda>total_limit.
     bindE (check_decimal (rl_max_leverage l) ''max_leverage'' False) (\<lambda>leverage.
     bindE (check_decimal (rl_max_stop_loss_pct l) ''max_stop_loss_equity_pct'' False) (\<lambda>budget.
     if total_limit < order_limit then Inl (ValueError ''max_order_notional_usd cannot exceed max_total_exposure_usd'')
     else if 125 < leverage then Inl (ValueError ''max_leverage cannot exceed 125'')
     else if 100 < budget then Inl (ValueError ''max_stop_loss_equity_pct cannot exceed 100'')
     else if rl_enabled l \<and> rl_instruments l = [] then Inl (ValueError ''allowed_instruments must not be empty when enabled'')
     else (case filter (\<lambda>i. i = [] \<or> \<not> ends_with i ''-SWAP'') (unique_list (rl_instruments l)) of
         [] \<Rightarrow> Inr ()
       | i # _ \<Rightarrow> Inl (ValueError (''invalid allowed instrument: '' @ py_repr (JStr i))))))))"

text \<open>The row: numbers are \<^verbatim>\<open>str(Decimal)\<close>, the allowlist is a JSON array, \<^verbatim>\<open>enabled\<close> is 0 or 1.\<close>

record risk_row =
  rr_enabled_flag :: int
  rr_max_order :: string
  rr_max_exposure :: string
  rr_max_leverage :: string
  rr_max_stop_loss_pct :: string
  rr_instruments :: string
  rr_created_at :: string
  rr_updated_at :: string

record risk_db =
  rk_row :: "risk_row option"
  rk_entries :: "bool option"

definition entries_enabled :: "risk_db \<Rightarrow> bool" where
  "entries_enabled db = or_default (rk_entries db) False"

text \<open>\<^verbatim>\<open>_decimal\<close> of a text column, which returns the decimal itself.\<close>

definition column_decimal :: "string \<Rightarrow> string \<Rightarrow> bool \<Rightarrow> decimal result" where
  "column_decimal column field allow_zero =
     (case dec_of_str column of
        None \<Rightarrow> Inl (ValueError (''Invalid '' @ field @ '': '' @ py_repr (JStr column)))
      | Some d \<Rightarrow> bindE (check_decimal d field allow_zero) (\<lambda>_. Inr d))"

definition column_names :: "string \<Rightarrow> string list result" where
  "column_names column =
     (case read_names column of None \<Rightarrow> Inl (ValueError ''Expecting value'') | Some xs \<Rightarrow> Inr xs)"

definition read_limits :: "risk_row \<Rightarrow> bool option \<Rightarrow> risk_limits result" where
  "read_limits r control =
     bindE (column_decimal (rr_max_order r) ''max_order_notional_usd'' False) (\<lambda>order_limit.
     bindE (column_decimal (rr_max_exposure r) ''max_total_exposure_usd'' False) (\<lambda>total_limit.
     bindE (column_decimal (rr_max_leverage r) ''max_leverage'' False) (\<lambda>leverage.
     bindE (column_decimal (rr_max_stop_loss_pct r) ''max_stop_loss_equity_pct'' True) (\<lambda>budget.
     bindE (column_names (rr_instruments r)) (\<lambda>names.
     Inr \<lparr>rl_enabled = (rr_enabled_flag r \<noteq> 0), rl_max_order = order_limit, rl_max_exposure = total_limit,
       rl_max_leverage = leverage, rl_max_stop_loss_pct = budget, rl_instruments = names,
       rl_entries_enabled = or_default control False, rl_created_at = rr_created_at r, rl_updated_at = rr_updated_at r\<rparr>)))))"

definition get_limits :: "risk_db \<Rightarrow> risk_limits option result" where
  "get_limits db = (case rk_row db of None \<Rightarrow> Inr None | Some r \<Rightarrow> bindE (read_limits r (rk_entries db)) (\<lambda>l. Inr (Some l)))"

text \<open>The row is written and read again within one transaction; an exception rolls it back.\<close>

definition save_limits :: "string \<Rightarrow> risk_limits \<Rightarrow> risk_db \<Rightarrow> risk_limits result \<times> risk_db" where
  "save_limits now l db =
     (case validate_limits l of
        Inl e \<Rightarrow> (Inl e, db)
      | Inr _ \<Rightarrow>
          (let created_at = (if rl_created_at l = [] then now else rl_created_at l);
               row = \<lparr>rr_enabled_flag = (if rl_enabled l then 1 else 0), rr_max_order = dec_str (rl_max_order l),
                 rr_max_exposure = dec_str (rl_max_exposure l), rr_max_leverage = dec_str (rl_max_leverage l),
                 rr_max_stop_loss_pct = dec_str (rl_max_stop_loss_pct l),
                 rr_instruments = json_names (unique_list (rl_instruments l)),
                 rr_created_at = (case rk_row db of None \<Rightarrow> created_at | Some old \<Rightarrow> rr_created_at old), rr_updated_at = now\<rparr> in
           case read_limits row (rk_entries db) of
             Inl e \<Rightarrow> (Inl e, db)
           | Inr saved \<Rightarrow> (Inr saved, db\<lparr>rk_row := Some row\<rparr>)))"

definition set_entries_enabled :: "bool \<Rightarrow> risk_db \<Rightarrow> risk_limits option result \<times> risk_db" where
  "set_entries_enabled enabled db = (let db' = db\<lparr>rk_entries := Some enabled\<rparr> in (get_limits db', db'))"

subsection \<open>The exchange\<close>

record risk_client =
  rc_positions :: "jobj list result"
  rc_balance :: "jobj list result"
  rc_instruments :: "string \<Rightarrow> jobj list result"
  rc_leverage :: "string \<Rightarrow> jobj list result"
  rc_algos :: "string \<Rightarrow> string \<Rightarrow> jobj list result"
  rc_algos_untyped :: "string \<Rightarrow> jobj list result"
  rc_pending_orders :: "jobj list result"

type_synonym instrument_cache = "(string, jobj) table"

definition blocked :: "string \<Rightarrow> 'a result" where
  "blocked reason = Inl (RiskRejected reason)"

definition blocked_if :: "bool \<Rightarrow> string \<Rightarrow> unit result" where
  "blocked_if b reason = (if b then blocked reason else Inr ())"

lemma blocked_if_Inr [result_simps]: "blocked_if b r = Inr u \<longleftrightarrow> \<not> b"
  by (simp add: blocked_if_def blocked_def)

definition check_instrument :: "string \<Rightarrow> jobj list \<Rightarrow> jobj result" where
  "check_instrument inst_id payloads =
     (case payloads of
        [payload] \<Rightarrow>
          bindE (blocked_if (text_of (jget payload ''instId'') \<noteq> inst_id) (''instrument metadata mismatch for '' @ inst_id)) (\<lambda>_.
          bindE (blocked_if (text_of (jget payload ''state'') \<noteq> ''live'') (''instrument '' @ inst_id @ '' is not live'')) (\<lambda>_.
          bindE (blocked_if (text_of (jget payload ''ctType'') \<noteq> ''linear'') (''instrument '' @ inst_id @ '' must be a linear contract'')) (\<lambda>_.
          bindE (blocked_if (text_of (jget payload ''settleCcy'') \<noteq> ''USDT'') (''instrument '' @ inst_id @ '' must settle in USDT'')) (\<lambda>_.
          bindE (risk_decimal (jget payload ''ctVal'') (inst_id @ '' ctVal'') False) (\<lambda>_. Inr payload)))))
      | _ \<Rightarrow> blocked (''expected one SWAP instrument for '' @ inst_id))"

definition instrument :: "risk_client \<Rightarrow> string \<Rightarrow> (instrument_cache, jobj) action" where
  "instrument client inst_id cache =
     (case tget cache inst_id of
        Some payload \<Rightarrow> (Inr payload, cache)
      | None \<Rightarrow>
          (case bindE (rc_instruments client inst_id) (check_instrument inst_id) of
             Inl e \<Rightarrow> (Inl e, cache)
           | Inr payload \<Rightarrow> (Inr payload, tset inst_id payload cache)))"

definition contract_value :: "jobj \<Rightarrow> rat result" where
  "contract_value payload = risk_decimal (jget payload ''ctVal'') ''ctVal'' False"

definition contract_notional :: "jobj \<Rightarrow> rat \<Rightarrow> rat \<Rightarrow> rat result" where
  "contract_notional payload contracts price =
     bindE (contract_value payload) (\<lambda>value. Inr (ctx (ctx (contracts * value) * price)))"

definition leverage_of :: "risk_client \<Rightarrow> string \<Rightarrow> rat result" where
  "leverage_of client inst_id =
     bindE (rc_leverage client inst_id) (\<lambda>rows.
     case filter (\<lambda>row. text_of (jget row ''instId'') = inst_id \<and> text_of (jget row ''mgnMode'') = ''cross'') rows of
       [] \<Rightarrow> blocked (''no cross leverage returned for '' @ inst_id)
     | row # others \<Rightarrow>
         bindE (mapE (\<lambda>r. risk_decimal (jget r ''lever'') ''lever'' False) (row # others)) (\<lambda>levers. Inr (foldl max (hd levers) (tl levers))))"

definition account_equity :: "risk_client \<Rightarrow> rat result" where
  "account_equity client =
     bindE (rc_balance client) (\<lambda>rows.
     case rows of
       [] \<Rightarrow> blocked ''OKX returned no account balance''
     | row # _ \<Rightarrow>
         (case risk_decimal (jget row ''totalEq'') ''account totalEq'' False of
            Inl (ValueError m) \<Rightarrow> blocked m
          | r \<Rightarrow> r))"

definition add_mark :: "jobj \<Rightarrow> (string, rat) table \<Rightarrow> (string, rat) table result" where
  "add_mark row marks =
     (let inst_id = text_of (jget row ''instId''); value = jget row ''markPx'' in
      if inst_id = [] \<or> blank value then Inr marks
      else bindE (risk_decimal value (inst_id @ '' markPx'') False) (\<lambda>m. Inr (tset inst_id m marks)))"

definition mark_prices :: "jobj list \<Rightarrow> (string, rat) table result" where
  "mark_prices rows = foldE add_mark rows []"

definition add_exposure :: "jobj \<Rightarrow> rat \<Rightarrow> rat result" where
  "add_exposure row exposure =
     bindE (signed_decimal (py_or (jget row ''pos'') (JStr ''0'')) ''position size'') (\<lambda>amount.
     if amount = 0 then Inr exposure
     else if blank (jget row ''notionalUsd'')
     then blocked (''position '' @ py_str (py_or (jget row ''instId'') (JStr ''unknown'')) @ '' has no notionalUsd'')
     else bindE (signed_decimal (jget row ''notionalUsd'') ''position notional'') (\<lambda>n. Inr (ctx (exposure + ctx \<bar>n\<bar>))))"

definition position_exposure :: "jobj list \<Rightarrow> rat result" where
  "position_exposure rows = foldE add_exposure rows 0"

definition add_pending :: "risk_client \<Rightarrow> jobj \<Rightarrow> rat \<Rightarrow> (instrument_cache, rat) action" where
  "add_pending client order exposure =
     (if is_true (jget order ''reduceOnly'') then returnS exposure
      else bindS (liftS (risk_decimal (jget order ''sz'') ''pending order size'' False)) (\<lambda>amount.
        bindS (liftS (risk_decimal (py_or (jget order ''accFillSz'') (JStr ''0'')) ''pending filled size'' True)) (\<lambda>filled.
        let remaining = ctx (amount - filled); inst_id = text_of (jget order ''instId'');
            price_value = py_or (jget order ''px'') (jget order ''avgPx'') in
        if remaining \<le> 0 then returnS exposure
        else if inst_id = [] \<or> blank price_value then liftS (blocked ''pending entry order lacks instrument or price'')
        else bindS (instrument client inst_id) (\<lambda>payload.
          bindS (liftS (risk_decimal price_value ''pending order price'' False)) (\<lambda>price.
          bindS (liftS (contract_notional payload remaining price)) (\<lambda>n. returnS (ctx (exposure + n))))))))"

definition pending_order_exposure :: "risk_client \<Rightarrow> (instrument_cache, rat) action" where
  "pending_order_exposure client =
     bindS (liftS (rc_pending_orders client)) (\<lambda>orders. foldS (add_pending client) orders 0)"

subsection \<open>Protection of the open units\<close>

text \<open>The orders by algo identity; an order with none is kept apart.\<close>

definition add_algo :: "jobj \<Rightarrow> (string option \<times> jobj) list \<Rightarrow> (string option \<times> jobj) list" where
  "add_algo order unique =
     (let key = text_of (py_or (jget order ''algoId'') (jget order ''algoClOrdId'')) in
      if key = [] then unique @ [(None, order)] else tset (Some key) order unique)"

definition pending_protections :: "risk_client \<Rightarrow> string \<Rightarrow> jobj list result" where
  "pending_protections client inst_id =
     (let typed = bindE (rc_algos client inst_id ''conditional'') (\<lambda>xs.
            bindE (rc_algos client inst_id ''oco'') (\<lambda>ys. Inr (xs @ ys))) in
      bindE (case typed of Inl TypeError \<Rightarrow> rc_algos_untyped client inst_id | _ \<Rightarrow> typed) (\<lambda>orders.
      Inr (map snd (fold add_algo orders []))))"

text \<open>Equality of a reported number with a stored one; \<open>None\<close> when it is no number.\<close>

definition same_number :: "json \<Rightarrow> rat \<Rightarrow> bool option" where
  "same_number j r = map_option (\<lambda>d. dec_finite d \<and> dec_val d = r) (dec_of_json j)"

definition protection_matches :: "jobj \<Rightarrow> position \<Rightarrow> string \<Rightarrow> protection \<Rightarrow> bool" where
  "protection_matches order p expected_side pr =
     (case (same_number (jget order ''sz'') (pr_quantity pr), same_number (jget order ''slTriggerPx'') (pr_stop_loss pr)) of
        (Some size_matches, Some stop_matches) \<Rightarrow>
          text_of (jget order ''instId'') = p_inst_id p \<and> py_lower (text_of (jget order ''side'')) = expected_side \<and>
          py_lower (text_of (jget order ''ordType'')) \<in>
            set (if pr_kind pr = StandaloneStop then [''conditional''] else [''conditional'', ''oco'']) \<and>
          py_lower (text_of (jget order ''state'')) = ''live'' \<and> py_lower (text_of (jget order ''posSide'')) = ''net'' \<and>
          is_true (jget order ''reduceOnly'') \<and> size_matches \<and> stop_matches \<and> text_of (jget order ''slOrdPx'') = ''-1''
      | _ \<Rightarrow> False)"

text \<open>\<^verbatim>\<open>remaining_quantity or opened_quantity or 0.0\<close>\<close>

definition unit_quantity :: "position \<Rightarrow> rat" where
  "unit_quantity p = (case p_remaining p of
     Some r \<Rightarrow> if r \<noteq> 0 then r else or_default (p_opened p) 0 | None \<Rightarrow> or_default (p_opened p) 0)"

definition expected_side :: "position \<Rightarrow> string" where
  "expected_side p = (if p_side p = ''long'' then ''sell'' else ''buy'')"

definition stop_distance :: "position \<Rightarrow> rat \<Rightarrow> rat \<Rightarrow> rat" where
  "stop_distance p mark stop = (if p_side p = ''long'' then mark - stop else stop - mark)"

definition protection_verified :: "risk_client \<Rightarrow> store \<Rightarrow> position \<Rightarrow> protection result" where
  "protection_verified client st p =
     (case get_protection st (p_id p) of
        None \<Rightarrow> blocked (''logical position '' @ p_id p @ '' has no owned exchange protection'')
      | Some pr \<Rightarrow>
          bindE (blocked_if (pr_status pr \<noteq> PActive) (''logical position '' @ p_id p @ '' protection is not active'')) (\<lambda>_.
          bindE (blocked_if (pr_quantity pr \<noteq> unit_quantity p)
            (''logical position '' @ p_id p @ '' protection quantity does not match remaining quantity'')) (\<lambda>_.
          bindE (pending_protections client (p_inst_id p)) (\<lambda>pending.
          case filter (\<lambda>order. text_of (jget order ''algoId'') = pr_algo_id pr \<and>
                 text_of (jget order ''algoClOrdId'') = pr_algo_client_order_id pr) pending of
            [order] \<Rightarrow>
              if protection_matches order p (expected_side p) pr then Inr pr
              else blocked (''exchange protection is not active for logical position '' @ p_id p)
          | _ \<Rightarrow> blocked (''exchange protection is not active for logical position '' @ p_id p)))))"

definition position_worst_case_loss ::
  "risk_client \<Rightarrow> store \<Rightarrow> (string, rat) table \<Rightarrow> position \<Rightarrow> (instrument_cache, rat) action" where
  "position_worst_case_loss client st marks p =
     bindS (liftS (protection_verified client st p)) (\<lambda>pr.
     case tget marks (p_inst_id p) of
       None \<Rightarrow> liftS (blocked (''OKX reported no mark price for '' @ p_inst_id p @ ''; cannot bound the all-stop loss''))
     | Some mark \<Rightarrow>
         bindS (liftS (stored_decimal (pr_stop_loss pr) ''protection stop_loss'')) (\<lambda>stop.
         bindS (liftS (stored_decimal (unit_quantity p) ''remaining quantity'')) (\<lambda>quantity.
         bindS (instrument client (p_inst_id p)) (\<lambda>payload.
         bindS (liftS (contract_value payload)) (\<lambda>value.
         returnS (ctx (ctx (max 0 (ctx (stop_distance p mark stop)) * quantity) * value)))))))"

definition add_unit_loss ::
  "risk_client \<Rightarrow> store \<Rightarrow> (string, rat) table \<Rightarrow> position \<Rightarrow> rat \<Rightarrow> (instrument_cache, rat) action" where
  "add_unit_loss client st marks p acc =
     (if unit_quantity p \<le> 0 then returnS acc
      else bindS (position_worst_case_loss client st marks p) (\<lambda>loss. returnS (ctx (acc + loss))))"

definition verify_owned_protection ::
  "risk_client \<Rightarrow> store \<Rightarrow> (string, rat) table \<Rightarrow> position list \<Rightarrow> (instrument_cache, rat) action" where
  "verify_owned_protection client st marks ps = foldS (add_unit_loss client st marks) ps 0"

text \<open>The lenient variant of the preview skips a unit whose protection cannot be verified.\<close>

definition add_unit_lenient ::
  "risk_client \<Rightarrow> store \<Rightarrow> (string, rat) table \<Rightarrow> position \<Rightarrow> rat \<times> bool \<Rightarrow> (instrument_cache, rat \<times> bool) action" where
  "add_unit_lenient client st marks p = (\<lambda>(acc, degraded) cache.
     if unit_quantity p \<le> 0 then (Inr (acc, degraded), cache)
     else (case position_worst_case_loss client st marks p cache of
         (Inr loss, cache') \<Rightarrow> (Inr (ctx (acc + loss), degraded), cache')
       | (Inl (RiskRejected _), cache') \<Rightarrow> (Inr (acc, True), cache')
       | (Inl e, cache') \<Rightarrow> (Inl e, cache')))"

definition sum_worst_case_loss_lenient ::
  "risk_client \<Rightarrow> store \<Rightarrow> (string, rat) table \<Rightarrow> position list \<Rightarrow> (instrument_cache, rat \<times> bool) action" where
  "sum_worst_case_loss_lenient client st marks ps = foldS (add_unit_lenient client st marks) ps (0, False)"

subsection \<open>Approval\<close>

record entry_approval =
  ea_approval_id :: string
  ea_inst_id :: string
  ea_requested_size :: rat
  ea_entry_price :: rat
  ea_stop_loss_price :: rat
  ea_order_notional :: rat
  ea_existing_exposure :: rat
  ea_projected_exposure :: rat
  ea_worst_case_loss :: rat
  ea_existing_worst_case_loss :: rat
  ea_projected_worst_case_loss :: rat
  ea_equity :: rat
  ea_leverage :: rat
  ea_approved_at :: string
  ea_dry_run :: bool

definition approval_matches :: "entry_approval \<Rightarrow> string \<Rightarrow> json \<Rightarrow> json \<Rightarrow> json \<Rightarrow> bool result" where
  "approval_matches a inst_id requested_size entry_price stop_loss_price =
     (if ea_inst_id a \<noteq> inst_id then Inr False
      else bindE (risk_decimal requested_size ''requested_size'' False) (\<lambda>x.
        if ea_requested_size a \<noteq> x then Inr False
        else bindE (risk_decimal entry_price ''entry_price'' False) (\<lambda>y.
          if ea_entry_price a \<noteq> y then Inr False
          else bindE (risk_decimal stop_loss_price ''stop_loss_price'' False) (\<lambda>z. Inr (ea_stop_loss_price a = z)))))"

definition active_limits :: "risk_db \<Rightarrow> string \<Rightarrow> risk_limits result" where
  "active_limits db inst_id =
     bindE (get_limits db) (\<lambda>found.
     case found of
       None \<Rightarrow> blocked ''account risk limits are not configured''
     | Some l \<Rightarrow>
         bindE (blocked_if (\<not> rl_enabled l) ''account risk limits are disabled'') (\<lambda>_.
         bindE (blocked_if (\<not> rl_entries_enabled l) ''strategy entries are disabled by the operator'') (\<lambda>_.
         bindE (validate_limits l) (\<lambda>_.
         bindE (blocked_if (inst_id \<notin> set (rl_instruments l)) (''instrument '' @ inst_id @ '' is outside the account risk allowlist'')) (\<lambda>_.
         Inr l)))))"

definition entry_terms :: "string \<Rightarrow> json \<Rightarrow> json \<Rightarrow> json \<Rightarrow> (rat \<times> rat \<times> rat) result" where
  "entry_terms side requested_size entry_price stop_loss_price =
     bindE (risk_decimal requested_size ''requested_size'' False) (\<lambda>amount.
     bindE (risk_decimal entry_price ''entry_price'' False) (\<lambda>price.
     bindE (blocked_if (py_lower side \<noteq> ''long'' \<and> py_lower side \<noteq> ''short'') ''entry side must be long or short'') (\<lambda>_.
     bindE (risk_decimal stop_loss_price ''stop_loss_price'' False) (\<lambda>stop.
     bindE (blocked_if (py_lower side = ''long'' \<and> price \<le> stop) ''entry requires a stop loss below the long entry price'') (\<lambda>_.
     bindE (blocked_if (py_lower side = ''short'' \<and> stop \<le> price) ''entry requires a stop loss above the short entry price'') (\<lambda>_.
     Inr (amount, price, stop)))))))"

definition loss_budget :: "rat \<Rightarrow> risk_limits \<Rightarrow> rat" where
  "loss_budget equity l = ctx (ctx (equity * dec_val (rl_max_stop_loss_pct l)) / 100)"

definition approve_entry ::
  "risk_client \<Rightarrow> risk_db \<Rightarrow> store \<Rightarrow> string \<Rightarrow> string \<Rightarrow> string \<Rightarrow> string \<Rightarrow> json \<Rightarrow> json \<Rightarrow> json \<Rightarrow>
   (instrument_cache, entry_approval) action" where
  "approve_entry client db st now fresh inst_id side requested_size entry_price stop_loss_price =
     bindS (liftS (active_limits db inst_id)) (\<lambda>l.
     bindS (liftS (entry_terms side requested_size entry_price stop_loss_price)) (\<lambda>(amount, price, stop).
     bindS (instrument client inst_id) (\<lambda>payload.
     bindS (liftS (contract_value payload)) (\<lambda>value.
     let worst = ctx (ctx (\<bar>ctx (price - stop)\<bar> * amount) * value) in
     bindS (liftS (contract_notional payload amount price)) (\<lambda>notional.
     bindS (liftS (blocked_if (dec_val (rl_max_order l) < notional) ''order notional exceeds limit'')) (\<lambda>_.
     bindS (liftS (leverage_of client inst_id)) (\<lambda>leverage.
     bindS (liftS (blocked_if (dec_val (rl_max_leverage l) < leverage) ''configured leverage exceeds limit'')) (\<lambda>_.
     bindS (liftS (rc_positions client)) (\<lambda>rows.
     bindS (liftS (blocked_if (\<not> ar_safe_for_entries (reconcile_account now (list_active st) rows))
       ''OKX exposure does not reconcile to logical positions'')) (\<lambda>_.
     bindS (liftS (mark_prices rows)) (\<lambda>marks.
     bindS (verify_owned_protection client st marks (list_active st)) (\<lambda>existing.
     bindS (liftS (account_equity client)) (\<lambda>equity.
     let projected = ctx (existing + worst) in
     bindS (liftS (blocked_if (loss_budget equity l < projected) ''projected all-stop loss exceeds the equity budget'')) (\<lambda>_.
     bindS (liftS (position_exposure rows)) (\<lambda>held.
     bindS (pending_order_exposure client) (\<lambda>pending.
     let exposure = ctx (held + pending); projected_exposure = ctx (exposure + notional) in
     bindS (liftS (blocked_if (dec_val (rl_max_exposure l) < projected_exposure) ''projected exposure exceeds limit'')) (\<lambda>_.
     returnS \<lparr>ea_approval_id = fresh, ea_inst_id = inst_id, ea_requested_size = amount, ea_entry_price = price,
       ea_stop_loss_price = stop, ea_order_notional = notional, ea_existing_exposure = exposure,
       ea_projected_exposure = projected_exposure, ea_worst_case_loss = worst, ea_existing_worst_case_loss = existing,
       ea_projected_worst_case_loss = projected, ea_equity = equity, ea_leverage = leverage, ea_approved_at = now,
       ea_dry_run = False\<rparr>)))))))))))))))))"

record usage_preview =
  up_equity :: rat
  up_existing_loss :: rat
  up_loss_budget :: rat
  up_max_pct :: rat
  up_degraded :: bool

definition preview_envelope_usage :: "risk_client \<Rightarrow> risk_db \<Rightarrow> store \<Rightarrow> (instrument_cache, usage_preview) action" where
  "preview_envelope_usage client db st =
     bindS (liftS (get_limits db)) (\<lambda>found.
     case found of
       None \<Rightarrow> liftS (blocked ''account risk limits are not configured'')
     | Some l \<Rightarrow>
         bindS (liftS (account_equity client)) (\<lambda>equity.
         bindS (liftS (rc_positions client)) (\<lambda>rows.
         bindS (liftS (mark_prices rows)) (\<lambda>marks.
         bindS (sum_worst_case_loss_lenient client st marks (list_active st)) (\<lambda>(existing, degraded).
         returnS \<lparr>up_equity = equity, up_existing_loss = existing, up_loss_budget = loss_budget equity l,
           up_max_pct = dec_val (rl_max_stop_loss_pct l), up_degraded = degraded\<rparr>)))))"

subsection \<open>The instrument cache only grows\<close>

definition cache_le :: "instrument_cache \<Rightarrow> instrument_cache \<Rightarrow> bool" where
  "cache_le c c' \<longleftrightarrow> tget c \<subseteq>\<^sub>m tget c'"

interpretation cache_grows: action_relation cache_le
  by unfold_locales (auto simp: cache_le_def intro: map_le_trans)

abbreviation cache_kept :: "(instrument_cache, 'a) action \<Rightarrow> bool" where
  "cache_kept \<equiv> behaves cache_le (\<lambda>_. True) (\<lambda>_. True)"

lemma cache_instrument: "cache_kept (instrument client i)"
  by (auto simp: behaves_def instrument_def cache_le_def map_le_def split: option.split sum.split)

lemmas cache_steps = cache_grows.bind [where Q = "\<lambda>_. True"] cache_grows.return cache_grows.lift
  cache_grows.fold [where Q = "\<lambda>_. True"] cache_instrument

lemma cache_pending: "cache_kept (pending_order_exposure client)"
  unfolding pending_order_exposure_def add_pending_def by (auto simp: Let_def intro!: cache_steps)

lemma cache_unit_loss: "cache_kept (position_worst_case_loss client st marks p)"
  unfolding position_worst_case_loss_def by (auto intro!: cache_steps split: option.split)

lemma cache_keptD: "cache_kept m \<Longrightarrow> m c = (r, c') \<Longrightarrow> cache_le c c'"
  by (auto simp: behaves_def dest!: spec [of _ c])

lemma instrument_cached: "instrument client i c = (Inr payload, c') \<Longrightarrow> tget c' i = Some payload"
  by (auto simp: instrument_def split: option.splits sum.splits)

subsection \<open>The all-stop loss\<close>

text \<open>The contract value that an instrument has in the cache.\<close>

definition ct_val :: "instrument_cache \<Rightarrow> string \<Rightarrow> rat" where
  "ct_val c i = (case tget c i of
     None \<Rightarrow> 0 | Some payload \<Rightarrow> (case contract_value payload of Inl _ \<Rightarrow> 0 | Inr v \<Rightarrow> v))"

lemma ct_val_instrument:
  assumes "instrument client i c = (Inr payload, c')" and "contract_value payload = Inr v" and "cache_le c' d"
  shows "ct_val d i = v"
proof -
  have "tget c' i = Some payload" using assms(1) by (rule instrument_cached)
  with assms(3) have "tget d i = Some payload" by (force simp: cache_le_def map_le_def)
  with assms(2) show ?thesis by (simp add: ct_val_def)
qed

lemma check_decimal_Inr [result_simps]:
  "check_decimal d f z = Inr v \<longleftrightarrow> dec_finite d \<and> v = dec_val d \<and> 0 \<le> v \<and> (v = 0 \<longrightarrow> z)"
  by (auto simp: check_decimal_def)

lemma risk_decimal_pos: "risk_decimal j f False = Inr v \<Longrightarrow> 0 < v"
  by (auto simp: risk_decimal_def result_simps split: option.splits)

lemma contract_value_pos: "contract_value payload = Inr v \<Longrightarrow> 0 < v"
  unfolding contract_value_def by (rule risk_decimal_pos)

text \<open>What a unit loses, exactly, between the mark price and the trigger of its stop, and the units that count.\<close>

definition unit_stop_loss :: "store \<Rightarrow> (string, rat) table \<Rightarrow> instrument_cache \<Rightarrow> position \<Rightarrow> rat" where
  "unit_stop_loss st marks c p =
     (case (get_protection st (p_id p), tget marks (p_inst_id p)) of
        (Some pr, Some mark) \<Rightarrow> max 0 (stop_distance p mark (pr_stop_loss pr)) * unit_quantity p * ct_val c (p_inst_id p)
      | _ \<Rightarrow> 0)"

definition open_units :: "store \<Rightarrow> position list" where
  "open_units st = filter (\<lambda>p. 0 < unit_quantity p) (list_active st)"

definition all_stop_loss :: "store \<Rightarrow> (string, rat) table \<Rightarrow> instrument_cache \<Rightarrow> position list \<Rightarrow> rat" where
  "all_stop_loss st marks c ps = (\<Sum>p\<leftarrow>ps. unit_stop_loss st marks c p)"

text \<open>Three roundings of a product of three factors.\<close>

lemma ctx_triple_lower:
  assumes "0 \<le> q" "0 \<le> v"
  shows "max 0 d * q * v * (1 - half_ulp) ^ 3 \<le> ctx (ctx (max 0 (ctx d) * q) * v)"
proof (cases "0 \<le> d")
  case True
  let ?k = "1 - half_ulp"
  have k: "0 \<le> ?k" using half_ulp_bounds by simp
  have "d * ?k \<le> ctx d" using ctx_lower [OF True] .
  then have "d * ?k * q \<le> ctx d * q" using assms(1) by (rule mult_right_mono)
  then have "d * ?k * q * ?k \<le> ctx d * q * ?k" using k by (rule mult_right_mono)
  also have "\<dots> \<le> ctx (ctx d * q)" by (rule ctx_lower) (simp add: True assms(1) ctx_nonneg)
  finally have "d * ?k * q * ?k * v * ?k \<le> ctx (ctx d * q) * v * ?k" using assms(2) k by (intro mult_right_mono)
  also have "\<dots> \<le> ctx (ctx (ctx d * q) * v)" by (rule ctx_lower) (simp add: True assms ctx_nonneg)
  finally show ?thesis using True by (simp add: ctx_nonneg max_absorb2 power3_eq_cube mult_ac)
next
  case False
  then have "max 0 d = 0" by simp
  then show ?thesis using assms by (simp add: ctx_nonneg)
qed

definition guarded_unit :: "risk_client \<Rightarrow> store \<Rightarrow> (string, rat) table \<Rightarrow> position \<Rightarrow> bool" where
  "guarded_unit client st marks p \<longleftrightarrow>
     (\<exists>pr mark pending order. get_protection st (p_id p) = Some pr \<and> pr_status pr = PActive \<and> pr_quantity pr = unit_quantity p \<and>
        pending_protections client (p_inst_id p) = Inr pending \<and> order \<in> set pending \<and>
        text_of (jget order ''algoId'') = pr_algo_id pr \<and> text_of (jget order ''algoClOrdId'') = pr_algo_client_order_id pr \<and>
        protection_matches order p (expected_side p) pr \<and> tget marks (p_inst_id p) = Some mark)"

lemma protection_verified_Inr:
  assumes "protection_verified client st p = Inr pr"
  shows "get_protection st (p_id p) = Some pr \<and> pr_status pr = PActive \<and> pr_quantity pr = unit_quantity p \<and>
    (\<exists>pending order. pending_protections client (p_inst_id p) = Inr pending \<and> order \<in> set pending \<and>
        text_of (jget order ''algoId'') = pr_algo_id pr \<and> text_of (jget order ''algoClOrdId'') = pr_algo_client_order_id pr \<and>
        protection_matches order p (expected_side p) pr)"
proof -
  obtain w where w: "get_protection st (p_id p) = Some w"
    using assms by (cases "get_protection st (p_id p)") (simp_all add: protection_verified_def blocked_def)
  let ?mine = "\<lambda>order. text_of (jget order ''algoId'') = pr_algo_id w \<and> text_of (jget order ''algoClOrdId'') = pr_algo_client_order_id w"
  obtain pending where k: "pr_status w = PActive" "pr_quantity w = unit_quantity p"
    "pending_protections client (p_inst_id p) = Inr pending"
    "(case filter ?mine pending of [order] \<Rightarrow> if protection_matches order p (expected_side p) w then Inr w
        else blocked (''exchange protection is not active for logical position '' @ p_id p)
      | _ \<Rightarrow> blocked (''exchange protection is not active for logical position '' @ p_id p)) = Inr pr"
    using assms unfolding protection_verified_def w by (auto simp only: option.case result_simps)
  from k(4) obtain order where o: "filter ?mine pending = [order]" "protection_matches order p (expected_side p) w" "pr = w"
    by (simp add: blocked_def split: list.splits if_splits)
  have "order \<in> set (filter ?mine pending)" unfolding o(1) by simp
  then show ?thesis using w k(1-3) o(2,3) by auto
qed

lemma stored_decimal_Inr [result_simps]: "stored_decimal r f = Inr v \<longleftrightarrow> 0 < r \<and> v = r"
  by (auto simp: stored_decimal_def)

lemma unit_loss_lower:
  assumes "position_worst_case_loss client st marks p c = (Inr loss, c')" and "cache_le c' d"
  shows "guarded_unit client st marks p \<and> 0 \<le> loss \<and> unit_stop_loss st marks d p * (1 - half_ulp) ^ 3 \<le> loss"
proof -
  obtain pr where pr: "protection_verified client st p = Inr pr"
    using assms(1) unfolding position_worst_case_loss_def by (auto simp only: result_simps)
  obtain mark where mark: "tget marks (p_inst_id p) = Some mark"
    using assms(1) unfolding position_worst_case_loss_def
    by (cases "tget marks (p_inst_id p)") (auto simp: result_simps blocked_def)
  obtain payload v where k: "0 < unit_quantity p" "instrument client (p_inst_id p) c = (Inr payload, c')" "contract_value payload = Inr v"
    "loss = ctx (ctx (max 0 (ctx (stop_distance p mark (pr_stop_loss pr))) * unit_quantity p) * v)"
    using assms(1) unfolding position_worst_case_loss_def pr by (auto simp: result_simps mark)
  note pv = protection_verified_Inr [OF pr]
  have g: "get_protection st (p_id p) = Some pr" using pv by (rule conjunct1)
  have v: "ct_val d (p_inst_id p) = v" using k(2,3) assms(2) by (rule ct_val_instrument)
  have "0 < v" using k(3) by (rule contract_value_pos)
  then have pos: "0 \<le> unit_quantity p" "0 \<le> v" using k(1) by simp_all
  have "unit_stop_loss st marks d p = max 0 (stop_distance p mark (pr_stop_loss pr)) * unit_quantity p * v"
    unfolding unit_stop_loss_def g mark v by simp
  then have "unit_stop_loss st marks d p * (1 - half_ulp) ^ 3 \<le> loss" unfolding k(4) using ctx_triple_lower [OF pos] by simp
  moreover have "0 \<le> loss" unfolding k(4) by (intro ctx_nonneg mult_nonneg_nonneg) (simp_all add: pos)
  moreover have "guarded_unit client st marks p" unfolding guarded_unit_def using pv mark by blast
  ultimately show ?thesis by blast
qed

lemma unit_stop_loss_nonneg:
  assumes "0 \<le> unit_quantity p" shows "0 \<le> unit_stop_loss st marks c p"
proof -
  have "0 \<le> ct_val c i" for i
    by (auto simp: ct_val_def dest: contract_value_pos split: option.split sum.split)
  with assms show ?thesis by (auto simp: unit_stop_loss_def split: option.split)
qed

lemma all_stop_loss_nonneg: "0 \<le> all_stop_loss st marks c (filter (\<lambda>p. 0 < unit_quantity p) ps)"
  unfolding all_stop_loss_def by (rule sum_list_nonneg) (auto intro: unit_stop_loss_nonneg)

lemma verified_losses_lower:
  assumes "foldS (add_unit_loss client st marks) ps acc c = (Inr s, c')" and "cache_le c' d" and "0 \<le> acc"
  shows "0 \<le> s \<and> (\<forall>p\<in>set ps. 0 < unit_quantity p \<longrightarrow> guarded_unit client st marks p) \<and>
    (acc + all_stop_loss st marks d (filter (\<lambda>p. 0 < unit_quantity p) ps) * (1 - half_ulp) ^ 3) * (1 - half_ulp) ^ length ps \<le> s"
  using assms
proof (induction ps arbitrary: acc c)
  case Nil
  then show ?case by (simp add: result_simps all_stop_loss_def)
next
  case (Cons p ps)
  let ?k = "1 - half_ulp" and ?A = "\<lambda>ps. all_stop_loss st marks d (filter (\<lambda>p. 0 < unit_quantity p) ps)"
  have k: "0 \<le> ?k" "?k \<le> 1" using half_ulp_bounds by simp_all
  obtain acc' c1 where s: "add_unit_loss client st marks p acc c = (Inr acc', c1)"
    "foldS (add_unit_loss client st marks) ps acc' c1 = (Inr s, c')"
    using Cons.prems(1) by (auto simp: result_simps)
  have le1: "cache_le c1 c'"
    using s(2) by (rule cache_keptD [rotated])
      (auto simp: add_unit_loss_def intro!: cache_steps cache_unit_loss)
  have head: "0 \<le> acc' \<and> (0 < unit_quantity p \<longrightarrow> guarded_unit client st marks p) \<and> (acc + ?A [p] * ?k ^ 3) * ?k \<le> acc'"
  proof (cases "0 < unit_quantity p")
    case True
    obtain loss where l: "position_worst_case_loss client st marks p c = (Inr loss, c1)" "acc' = ctx (acc + loss)"
      using s(1) True by (auto simp: add_unit_loss_def result_simps)
    have "cache_le c1 d" using le1 Cons.prems(2) by (rule cache_grows.le_trans)
    note u = unit_loss_lower [OF l(1) this]
    have "(acc + unit_stop_loss st marks d p * ?k ^ 3) * ?k \<le> (acc + loss) * ?k" using u k by (intro mult_right_mono) auto
    also have "\<dots> \<le> acc'" unfolding l(2) using u Cons.prems(3) by (intro ctx_lower) auto
    finally show ?thesis using True u Cons.prems(3) l(2) by (simp add: all_stop_loss_def ctx_nonneg)
  next
    case False
    then have "acc' = acc" using s(1) by (simp add: add_unit_loss_def result_simps)
    then show ?thesis using False k Cons.prems(3) by (simp add: all_stop_loss_def mult_left_le)
  qed
  have tail: "0 \<le> s \<and> (\<forall>p\<in>set ps. 0 < unit_quantity p \<longrightarrow> guarded_unit client st marks p) \<and>
      (acc' + ?A ps * ?k ^ 3) * ?k ^ length ps \<le> s"
    using s(2) Cons.prems(2) head by (intro Cons.IH) auto
  have cons: "?A (p # ps) = ?A [p] + ?A ps" by (simp add: all_stop_loss_def)
  have n: "0 \<le> ?A ps * ?k ^ 3" using all_stop_loss_nonneg k by simp
  have "(acc + ?A (p # ps) * ?k ^ 3) * ?k = (acc + ?A [p] * ?k ^ 3) * ?k + ?A ps * ?k ^ 3 * ?k"
    unfolding cons by (simp add: algebra_simps)
  also have "\<dots> \<le> acc' + ?A ps * ?k ^ 3" using head n k by (intro add_mono) (auto intro: mult_left_le)
  finally have "(acc + ?A (p # ps) * ?k ^ 3) * ?k * ?k ^ length ps \<le> (acc' + ?A ps * ?k ^ 3) * ?k ^ length ps"
    using k by (intro mult_right_mono) simp_all
  then show ?case using head tail by (simp add: mult.assoc)
qed

lemma approve_entry_Inr:
  assumes "approve_entry client db st now fresh inst_id side requested_size entry_price stop_loss_price cache = (Inr a, cache')"
  obtains l payload ctv rows marks c1 c2 held pending where
    "active_limits db inst_id = Inr l"
    "entry_terms side requested_size entry_price stop_loss_price = Inr (ea_requested_size a, ea_entry_price a, ea_stop_loss_price a)"
    "instrument client inst_id cache = (Inr payload, c1)" "contract_value payload = Inr ctv"
    "ea_inst_id a = inst_id"
    "ea_worst_case_loss a = ctx (ctx (\<bar>ctx (ea_entry_price a - ea_stop_loss_price a)\<bar> * ea_requested_size a) * ctv)"
    "contract_notional payload (ea_requested_size a) (ea_entry_price a) = Inr (ea_order_notional a)"
    "ea_order_notional a \<le> dec_val (rl_max_order l)"
    "leverage_of client inst_id = Inr (ea_leverage a)" "ea_leverage a \<le> dec_val (rl_max_leverage l)"
    "rc_positions client = Inr rows" "ar_safe_for_entries (reconcile_account now (list_active st) rows)"
    "mark_prices rows = Inr marks"
    "verify_owned_protection client st marks (list_active st) c1 = (Inr (ea_existing_worst_case_loss a), c2)"
    "account_equity client = Inr (ea_equity a)"
    "ea_projected_worst_case_loss a = ctx (ea_existing_worst_case_loss a + ea_worst_case_loss a)"
    "ea_projected_worst_case_loss a \<le> loss_budget (ea_equity a) l"
    "position_exposure rows = Inr held" "pending_order_exposure client c2 = (Inr pending, cache')"
    "ea_projected_exposure a = ctx (ctx (held + pending) + ea_order_notional a)"
    "ea_projected_exposure a \<le> dec_val (rl_max_exposure l)"
  using assms unfolding approve_entry_def Let_def
  by (simp only: result_simps split_beta) (elim exE conjE, simp add: not_less)

text \<open>The exact loss of the approved entry and of all open units at their stops.\<close>

definition projected_stop_loss :: "store \<Rightarrow> (string, rat) table \<Rightarrow> instrument_cache \<Rightarrow> entry_approval \<Rightarrow> rat" where
  "projected_stop_loss st marks c a = all_stop_loss st marks c (open_units st) +
     \<bar>ea_entry_price a - ea_stop_loss_price a\<bar> * ea_requested_size a * ct_val c (ea_inst_id a)"

lemma ctx_abs: "\<bar>ctx x\<bar> = ctx \<bar>x\<bar>"
  using ctx_nonneg [of x] ctx_nonneg [of "- x"] by (cases "0 \<le> x") (simp_all add: ctx_minus)

lemma loss_budget_upper:
  assumes "0 \<le> e" "0 \<le> dec_val (rl_max_stop_loss_pct l)"
  shows "loss_budget e l \<le> e * dec_val (rl_max_stop_loss_pct l) / 100 * (1 + half_ulp) ^ 2"
proof -
  let ?x = "e * dec_val (rl_max_stop_loss_pct l)"
  have x: "0 \<le> ?x" using assms by simp
  have "loss_budget e l \<le> ctx ?x / 100 * (1 + half_ulp)" unfolding loss_budget_def by (rule ctx_upper) (simp add: x ctx_nonneg)
  also have "\<dots> \<le> ?x * (1 + half_ulp) / 100 * (1 + half_ulp)"
    using ctx_upper [OF x] half_ulp_bounds by (intro mult_right_mono divide_right_mono) auto
  finally show ?thesis by (simp add: power2_eq_square mult_ac)
qed

lemma account_equity_pos:
  assumes "account_equity client = Inr e" shows "0 < e"
proof -
  obtain rows where r: "rc_balance client = Inr rows" using assms by (auto simp: account_equity_def result_simps)
  then obtain row rest where "rows = row # rest" using assms by (cases rows) (auto simp: account_equity_def blocked_def)
  with assms r have "risk_decimal (jget row ''totalEq'') ''account totalEq'' False = Inr e"
    by (auto simp: account_equity_def blocked_def split: sum.splits py_exc.splits)
  then show ?thesis by (rule risk_decimal_pos)
qed

lemma entry_terms_Inr:
  assumes "entry_terms side q e s = Inr (amount, price, stop)"
  shows "0 < amount \<and> 0 < price \<and> 0 < stop \<and>
    (if py_lower side = ''long'' then stop < price else py_lower side = ''short'' \<and> price < stop)"
  using assms unfolding entry_terms_def
  by (simp only: result_simps prod.inject sum.inject) (elim exE conjE, auto dest!: risk_decimal_pos simp: not_le)

lemma entry_terms_values:
  assumes "entry_terms side q e s = Inr (amount, price, stop)"
  shows "risk_decimal q ''requested_size'' False = Inr amount \<and> risk_decimal e ''entry_price'' False = Inr price \<and>
    risk_decimal s ''stop_loss_price'' False = Inr stop"
  using assms unfolding entry_terms_def by (simp only: result_simps prod.inject sum.inject) blast

lemma entry_terms_side:
  assumes "entry_terms side q e s = Inr (amount, price, stop)"
  shows "if py_lower side = ''long'' then stop < price else py_lower side = ''short'' \<and> price < stop"
  using entry_terms_Inr [OF assms] by blast

lemma active_limits_Inr:
  assumes "active_limits db i = Inr l"
  shows "get_limits db = Inr (Some l) \<and> rl_enabled l \<and> rl_entries_enabled l \<and> i \<in> set (rl_instruments l) \<and> validate_limits l = Inr ()"
proof -
  obtain f where f: "get_limits db = Inr f" using assms by (auto simp: active_limits_def result_simps)
  obtain l' where "f = Some l'" using assms f by (cases f) (auto simp: active_limits_def blocked_def)
  then show ?thesis using assms f by (auto simp: active_limits_def result_simps)
qed

lemma validate_limits_budget:
  "validate_limits l = Inr () \<Longrightarrow> 0 < dec_val (rl_max_stop_loss_pct l) \<and> dec_val (rl_max_stop_loss_pct l) \<le> 100"
  unfolding validate_limits_def by (simp only: result_simps) (elim exE conjE, simp split: if_splits)


text \<open>C18: The all-stop budget. When the guard approves an entry, the sum of the exact losses of every
  open unit from its mark price to the trigger of its exchange stop, and of the entry from its price to
  its stop, is at most the configured percentage of the account equity, up to the relative rounding
  of the 28-digit decimal context: one part in \<^verbatim>\<open>2e27\<close> for each of the additions and products.
  The contract values are those of the guard's instrument cache.\<close>

theorem approved_entry_within_budget:
  assumes "approve_entry client db st now fresh inst_id side requested_size entry_price stop_loss_price cache = (Inr a, cache')"
  shows "\<exists>l rows marks. get_limits db = Inr (Some l) \<and> rc_positions client = Inr rows \<and> mark_prices rows = Inr marks \<and>
    account_equity client = Inr (ea_equity a) \<and>
    projected_stop_loss st marks cache' a * (1 - half_ulp) ^ (length (list_active st) + 4) \<le>
      ea_equity a * dec_val (rl_max_stop_loss_pct l) / 100 * (1 + half_ulp) ^ 2"
  using assms
proof (rule approve_entry_Inr)
  fix l payload ctv rows marks c1 c2 held pending
  assume l: "active_limits db inst_id = Inr l"
    and terms: "entry_terms side requested_size entry_price stop_loss_price = Inr (ea_requested_size a, ea_entry_price a, ea_stop_loss_price a)"
    and inst: "instrument client inst_id cache = (Inr payload, c1)" "contract_value payload = Inr ctv" "ea_inst_id a = inst_id"
    and worst: "ea_worst_case_loss a = ctx (ctx (\<bar>ctx (ea_entry_price a - ea_stop_loss_price a)\<bar> * ea_requested_size a) * ctv)"
    and rows: "rc_positions client = Inr rows" "mark_prices rows = Inr marks"
    and existing: "verify_owned_protection client st marks (list_active st) c1 = (Inr (ea_existing_worst_case_loss a), c2)"
    and equity: "account_equity client = Inr (ea_equity a)"
    and projected: "ea_projected_worst_case_loss a = ctx (ea_existing_worst_case_loss a + ea_worst_case_loss a)"
      "ea_projected_worst_case_loss a \<le> loss_budget (ea_equity a) l"
    and last: "pending_order_exposure client c2 = (Inr pending, cache')"
  let ?k = "1 - half_ulp" and ?E = "all_stop_loss st marks cache' (open_units st)" and ?n = "length (list_active st)"
  let ?W = "\<bar>ea_entry_price a - ea_stop_loss_price a\<bar> * ea_requested_size a * ct_val cache' inst_id"
  have k: "0 \<le> ?k" "?k \<le> 1" using half_ulp_bounds by simp_all
  have le: "cache_le c2 cache'" using cache_pending last by (rule cache_keptD)
  have "cache_kept (verify_owned_protection client st marks (list_active st))"
    unfolding verify_owned_protection_def add_unit_loss_def by (auto intro!: cache_steps cache_unit_loss)
  from cache_keptD [OF this existing] le have "cache_le c1 cache'" by (rule cache_grows.le_trans)
  with inst have v: "ct_val cache' inst_id = ctv" by (intro ct_val_instrument)
  have "0 < ctv" using inst(2) by (rule contract_value_pos)
  then have pos: "0 \<le> ea_requested_size a" "0 \<le> ctv" using entry_terms_Inr [OF terms] by simp_all
  have W: "?W * ?k ^ 3 \<le> ea_worst_case_loss a" and W0: "0 \<le> ea_worst_case_loss a" "0 \<le> ?W"
    unfolding worst ctx_abs v using ctx_triple_lower [OF pos, of "\<bar>ea_entry_price a - ea_stop_loss_price a\<bar>"] pos
    by (simp_all add: max_absorb2 ctx_nonneg)
  have E: "0 \<le> ea_existing_worst_case_loss a" "?E * ?k ^ 3 * ?k ^ ?n \<le> ea_existing_worst_case_loss a"
    using verified_losses_lower [OF existing [unfolded verify_owned_protection_def] le] by (simp_all add: open_units_def)
  have "(?E + ?W) * ?k ^ (?n + 4) = (?E * ?k ^ 3 * ?k ^ ?n + ?W * ?k ^ 3 * ?k ^ ?n) * ?k"
    by (simp add: algebra_simps power_add power3_eq_cube power4_eq_xxxx)
  also have "\<dots> \<le> (ea_existing_worst_case_loss a + ea_worst_case_loss a) * ?k"
  proof -
    have "?W * ?k ^ 3 * ?k ^ ?n \<le> ?W * ?k ^ 3" using W0(2) k by (intro mult_left_le) (auto intro: power_le_one)
    with E(2) W k show ?thesis by (intro mult_right_mono) auto
  qed
  also have "\<dots> \<le> ea_projected_worst_case_loss a" unfolding projected(1) using E(1) W0(1) by (intro ctx_lower) simp
  also have "\<dots> \<le> loss_budget (ea_equity a) l" by (rule projected(2))
  also have "\<dots> \<le> ea_equity a * dec_val (rl_max_stop_loss_pct l) / 100 * (1 + half_ulp) ^ 2"
  proof (rule loss_budget_upper)
    show "0 \<le> dec_val (rl_max_stop_loss_pct l)" using validate_limits_budget active_limits_Inr [OF l] by (auto intro: less_imp_le)
    show "0 \<le> ea_equity a" using account_equity_pos [OF equity] by simp
  qed
  finally show ?thesis using active_limits_Inr [OF l] rows equity by (auto simp: projected_stop_loss_def inst(3))
qed

text \<open>The instrument gate; the cache holds instruments that have passed it.\<close>

definition tradable_instrument :: "string \<Rightarrow> jobj \<Rightarrow> bool" where
  "tradable_instrument inst_id payload \<longleftrightarrow> text_of (jget payload ''instId'') = inst_id \<and> text_of (jget payload ''state'') = ''live'' \<and>
     text_of (jget payload ''ctType'') = ''linear'' \<and> text_of (jget payload ''settleCcy'') = ''USDT''"

definition cache_tradable :: "instrument_cache \<Rightarrow> bool" where
  "cache_tradable c \<longleftrightarrow> (\<forall>(i, payload)\<in>set c. tradable_instrument i payload)"

lemma check_instrument_tradable: "check_instrument i ps = Inr payload \<Longrightarrow> tradable_instrument i payload"
  by (cases ps; cases "tl ps")
    (simp_all add: check_instrument_def blocked_def tradable_instrument_def result_simps split: list.splits)

lemma instrument_tradable:
  assumes "instrument client i c = (Inr payload, c')" "cache_tradable c"
  shows "tradable_instrument i payload"
proof (cases "tget c i")
  case None
  then show ?thesis using assms(1)
    by (auto simp: instrument_def result_simps split: sum.splits dest: check_instrument_tradable)
next
  case (Some q)
  then have "(i, q) \<in> set c" by (rule map_of_SomeD)
  with assms Some show ?thesis by (auto simp: instrument_def cache_tradable_def)
qed

text \<open>C29: Approval passes every gate. With a cache whose instruments were checked (it starts empty), an
  approved entry has limits that are valid, enabled and switched on by the operator, its instrument on
  their allowlist, live, linear and settled in USDT, and its stop on the losing side. Size, price and
  stop are the ones requested. The recorded order notional is size times contract value times price; it,
  the account's highest cross leverage and the projected exposure (positions and pending entries as the
  exchange reports them, and this order) are inside the limits, and the projected all-stop loss (the verified
  losses of the open units and this entry's) is inside the loss budget of the reported equity. The
  account reconciles with the exchange, and every open unit has an active recorded protection of its
  whole quantity with one matching live reduce-only order on the exchange and a mark price.\<close>

theorem approved_entry_passes_gates:
  assumes "approve_entry client db st now fresh inst_id side requested_size entry_price stop_loss_price cache = (Inr a, cache')"
    and "cache_tradable cache"
  shows "\<exists>l payload ctv rows marks c1 c2 held pending.
    get_limits db = Inr (Some l) \<and> rl_enabled l \<and> rl_entries_enabled l \<and> validate_limits l = Inr () \<and> inst_id \<in> set (rl_instruments l) \<and>
    risk_decimal requested_size ''requested_size'' False = Inr (ea_requested_size a) \<and>
    risk_decimal entry_price ''entry_price'' False = Inr (ea_entry_price a) \<and>
    risk_decimal stop_loss_price ''stop_loss_price'' False = Inr (ea_stop_loss_price a) \<and>
    (if py_lower side = ''long'' then ea_stop_loss_price a < ea_entry_price a
     else py_lower side = ''short'' \<and> ea_entry_price a < ea_stop_loss_price a) \<and>
    ea_inst_id a = inst_id \<and> tradable_instrument inst_id payload \<and> contract_value payload = Inr ctv \<and>
    ea_order_notional a = ctx (ctx (ea_requested_size a * ctv) * ea_entry_price a) \<and> ea_order_notional a \<le> dec_val (rl_max_order l) \<and>
    leverage_of client inst_id = Inr (ea_leverage a) \<and> ea_leverage a \<le> dec_val (rl_max_leverage l) \<and>
    rc_positions client = Inr rows \<and> mark_prices rows = Inr marks \<and>
    ar_safe_for_entries (reconcile_account now (list_active st) rows) \<and>
    (\<forall>p\<in>set (open_units st). guarded_unit client st marks p) \<and>
    verify_owned_protection client st marks (list_active st) c1 = (Inr (ea_existing_worst_case_loss a), c2) \<and>
    ea_worst_case_loss a = ctx (ctx (\<bar>ctx (ea_entry_price a - ea_stop_loss_price a)\<bar> * ea_requested_size a) * ctv) \<and>
    account_equity client = Inr (ea_equity a) \<and>
    ea_projected_worst_case_loss a = ctx (ea_existing_worst_case_loss a + ea_worst_case_loss a) \<and>
    ea_projected_worst_case_loss a \<le> loss_budget (ea_equity a) l \<and>
    position_exposure rows = Inr held \<and> pending_order_exposure client c2 = (Inr pending, cache') \<and>
    ea_projected_exposure a = ctx (ctx (held + pending) + ea_order_notional a) \<and>
    ea_projected_exposure a \<le> dec_val (rl_max_exposure l)"
  using assms(1)
proof (rule approve_entry_Inr)
  fix l payload ctv rows marks c1 c2 held pending
  assume l: "active_limits db inst_id = Inr l"
    and terms: "entry_terms side requested_size entry_price stop_loss_price = Inr (ea_requested_size a, ea_entry_price a, ea_stop_loss_price a)"
    and inst: "instrument client inst_id cache = (Inr payload, c1)" "contract_value payload = Inr ctv" "ea_inst_id a = inst_id"
    and notional: "contract_notional payload (ea_requested_size a) (ea_entry_price a) = Inr (ea_order_notional a)"
    and existing: "verify_owned_protection client st marks (list_active st) c1 = (Inr (ea_existing_worst_case_loss a), c2)"
    and rest: "ea_worst_case_loss a = ctx (ctx (\<bar>ctx (ea_entry_price a - ea_stop_loss_price a)\<bar> * ea_requested_size a) * ctv)"
      "ea_order_notional a \<le> dec_val (rl_max_order l)"
      "leverage_of client inst_id = Inr (ea_leverage a)" "ea_leverage a \<le> dec_val (rl_max_leverage l)"
      "rc_positions client = Inr rows" "ar_safe_for_entries (reconcile_account now (list_active st) rows)" "mark_prices rows = Inr marks"
      "account_equity client = Inr (ea_equity a)"
      "ea_projected_worst_case_loss a = ctx (ea_existing_worst_case_loss a + ea_worst_case_loss a)"
      "ea_projected_worst_case_loss a \<le> loss_budget (ea_equity a) l"
      "position_exposure rows = Inr held" "pending_order_exposure client c2 = (Inr pending, cache')"
      "ea_projected_exposure a = ctx (ctx (held + pending) + ea_order_notional a)"
      "ea_projected_exposure a \<le> dec_val (rl_max_exposure l)"
  have units: "\<forall>p\<in>set (open_units st). guarded_unit client st marks p"
    using verified_losses_lower [OF existing [unfolded verify_owned_protection_def], of c2]
    by (simp add: open_units_def cache_grows.le_refl)
  have notional': "ea_order_notional a = ctx (ctx (ea_requested_size a * ctv) * ea_entry_price a)"
    using notional inst(2) by (simp add: contract_notional_def)
  have gates: "get_limits db = Inr (Some l)" "rl_enabled l" "rl_entries_enabled l" "validate_limits l = Inr ()" "inst_id \<in> set (rl_instruments l)"
    using active_limits_Inr [OF l] by blast+
  have terms_read: "risk_decimal requested_size ''requested_size'' False = Inr (ea_requested_size a)"
    "risk_decimal entry_price ''entry_price'' False = Inr (ea_entry_price a)"
    "risk_decimal stop_loss_price ''stop_loss_price'' False = Inr (ea_stop_loss_price a)"
    using entry_terms_values [OF terms] by blast+
  show ?thesis
    by (rule exI [of _ l], rule exI [of _ payload], rule exI [of _ ctv], rule exI [of _ rows], rule exI [of _ marks],
        rule exI [of _ c1], rule exI [of _ c2], rule exI [of _ held], rule exI [of _ pending], intro conjI)
      (rule gates terms_read entry_terms_side [OF terms] inst(2,3) instrument_tradable [OF inst(1) assms(2)]
        notional' rest units existing)+
qed

subsection \<open>The preview\<close>

lemma lenient_fold:
  "foldS (add_unit_lenient client st marks) ps (acc, degraded) c = (Inr (x, False), c') \<longleftrightarrow>
     \<not> degraded \<and> foldS (add_unit_loss client st marks) ps acc c = (Inr x, c')"
proof (induction ps arbitrary: acc degraded c)
  case Nil
  show ?case by (auto simp: result_simps)
next
  case (Cons p ps)
  obtain r c1 where r: "position_worst_case_loss client st marks p c = (r, c1)" by (cases "position_worst_case_loss client st marks p c")
  let ?lenient = "add_unit_lenient client st marks p (acc, degraded) c" and ?strict = "add_unit_loss client st marks p acc c"
  consider "unit_quantity p \<le> 0" | loss where "0 < unit_quantity p" "r = Inr loss" | e where "0 < unit_quantity p" "r = Inl e"
    by (cases r) (auto simp: not_le [symmetric])
  then show ?case
  proof cases
    case 1
    then have "?lenient = (Inr (acc, degraded), c)" "?strict = (Inr acc, c)"
      by (simp_all add: add_unit_lenient_def add_unit_loss_def returnS_def)
    then show ?thesis by (simp add: bindS_def Cons.IH)
  next
    case (2 loss)
    with r have "?lenient = (Inr (ctx (acc + loss), degraded), c1)" "?strict = (Inr (ctx (acc + loss)), c1)"
      by (simp_all add: add_unit_lenient_def add_unit_loss_def returnS_def bindS_def)
    then show ?thesis by (simp add: bindS_def Cons.IH)
  next
    case (3 e)
    with r have s: "?strict = (Inl e, c1)" by (simp add: add_unit_loss_def bindS_def)
    have "?lenient = (Inr (acc, True), c1) \<or> ?lenient = (Inl e, c1)"
      using 3 r by (cases e) (simp_all add: add_unit_lenient_def)
    then show ?thesis using s by (auto simp: bindS_def Cons.IH)
  qed
qed


subsection \<open>Stored limits\<close>

lemma set_unique_list [simp]: "set (unique_list xs) = set xs"
  by (simp add: unique_list_def)

text \<open>A valid decimal comes back from its text column as it was, with coefficient and exponent.\<close>

lemma column_decimal_str:
  assumes "check_decimal d field False = Inr v"
  shows "column_decimal (dec_str d) f z = Inr d"
proof -
  have d: "dec_finite d" "0 \<le> dec_val d" "dec_val d \<noteq> 0" using assms by (auto simp: result_simps)
  then have "check_decimal d f z = Inr (dec_val d)" by (simp add: result_simps)
  with d(1) show ?thesis by (simp add: column_decimal_def dec_of_finite_str)
qed

lemma column_names_str [simp]: "column_names (json_names xs) = Inr xs"
  by (simp add: column_names_def)

text \<open>C33: Saved limits are read back. The numbers are kept as the text of a decimal, the allowlist as a JSON
  array and the flag as 0 or 1. Saving valid limits returns what a later read parses from the stored text:
  the same numbers with the same digits, the allowlist without repetitions in the order of first
  occurrence, the time of the first save and the operator's switch as it stands; limits that are
  refused leave the database as it was.\<close>

theorem saved_limits_read_back:
  "case save_limits now l db of
     (Inl e, db') \<Rightarrow> db' = db \<and> validate_limits l = Inl e
   | (Inr saved, db') \<Rightarrow> validate_limits l = Inr () \<and> get_limits db' = Inr (Some saved) \<and>
       saved = l\<lparr>rl_instruments := unique_list (rl_instruments l), rl_entries_enabled := entries_enabled db,
         rl_created_at := (case rk_row db of Some old \<Rightarrow> rr_created_at old | None \<Rightarrow> if rl_created_at l = [] then now else rl_created_at l),
         rl_updated_at := now\<rparr>"
proof (cases "validate_limits l")
  case (Inl e)
  then show ?thesis by (simp add: save_limits_def)
next
  case (Inr u)
  then obtain a b c d where v: "check_decimal (rl_max_order l) ''max_order_notional_usd'' False = Inr a"
    "check_decimal (rl_max_exposure l) ''max_total_exposure_usd'' False = Inr b"
    "check_decimal (rl_max_leverage l) ''max_leverage'' False = Inr c"
    "check_decimal (rl_max_stop_loss_pct l) ''max_stop_loss_equity_pct'' False = Inr d"
    unfolding validate_limits_def by (simp only: result_simps) blast
  note k = v [THEN column_decimal_str]
  show ?thesis
    using Inr by (simp add: save_limits_def get_limits_def read_limits_def k entries_enabled_def Let_def split: option.split)
qed

subsection \<open>A sample account\<close>

definition sample_limits :: risk_db where
  "sample_limits = \<lparr>rk_row = Some \<lparr>rr_enabled_flag = 1, rr_max_order = ''1000'', rr_max_exposure = ''2000'', rr_max_leverage = ''5'',
     rr_max_stop_loss_pct = ''1'', rr_instruments = json_names [''BTC-USDT-SWAP''], rr_created_at = ''t0'', rr_updated_at = ''t0''\<rparr>,
     rk_entries = Some True\<rparr>"

definition sample_algo :: jobj where
  "sample_algo = [(''algoId'', JStr ''a1''), (''algoClOrdId'', JStr ''c1''), (''instId'', JStr ''BTC-USDT-SWAP''), (''side'', JStr ''sell''),
     (''ordType'', JStr ''conditional''), (''state'', JStr ''live''), (''posSide'', JStr ''net''), (''reduceOnly'', JStr ''true''),
     (''sz'', JStr ''3''), (''slTriggerPx'', JStr ''90''), (''slOrdPx'', JStr ''-1'')]"

definition sample_client :: "jobj list \<Rightarrow> jobj list \<Rightarrow> risk_client" where
  "sample_client positions orders = \<lparr>rc_positions = Inr positions, rc_balance = Inr [[(''totalEq'', JStr ''10000'')]],
     rc_instruments = (\<lambda>i. Inr [[(''instId'', JStr i), (''state'', JStr ''live''), (''ctType'', JStr ''linear''),
       (''settleCcy'', JStr ''USDT''), (''ctVal'', JStr ''0.5'')]]),
     rc_leverage = (\<lambda>i. Inr [[(''instId'', JStr i), (''mgnMode'', JStr ''cross''), (''lever'', JStr ''3'')]]),
     rc_algos = (\<lambda>i ty. Inr (if ty = ''conditional'' then [sample_algo] else [])),
     rc_algos_untyped = (\<lambda>i. Inr [sample_algo]), rc_pending_orders = Inr orders\<rparr>"

definition sample_stop :: protection where
  "sample_stop = \<lparr>pr_position_id = ''p1'', pr_kind = StandaloneStop, pr_status = PActive, pr_algo_id = ''a1'', pr_algo_client_order_id = ''c1'',
     pr_quantity = 3, pr_stop_loss = 90, pr_trigger_order_id = [], pr_metadata = dumps [], pr_created_at = ''t0'', pr_updated_at = ''t0''\<rparr>"

definition sample_book :: "position list \<Rightarrow> store" where
  "sample_book ps = \<lparr>st_positions = map (\<lambda>p. (p_id p, p)) ps, st_allocations = [], st_orders = [], st_conditions = [],
     st_protections = [(''p1'', sample_stop)]\<rparr>"

definition exposed_rows :: "jobj list" where
  "exposed_rows = map (tset ''notionalUsd'' (JStr ''150'')) sample_rows"

definition sample_approval :: "jobj list \<Rightarrow> jobj list \<Rightarrow> position list \<Rightarrow> entry_approval result \<times> instrument_cache" where
  "sample_approval rows orders ps = approve_entry (sample_client rows orders) sample_limits (sample_book ps) ''t'' ''u'' ''BTC-USDT-SWAP'' ''long''
     (JInt 8) (JInt 100) (JInt 80) []"

definition sample_pending_unit :: position where
  "sample_pending_unit = sample_unit ''p2'' 8\<lparr>p_opened := None, p_remaining := None, p_status := PendingOpen\<rparr>"

definition sample_entry_order :: jobj where
  "sample_entry_order = [(''instId'', JStr ''BTC-USDT-SWAP''), (''sz'', JStr ''8''), (''px'', JStr ''100''), (''reduceOnly'', JStr ''false'')]"

lemma sample_approved: "case fst (sample_approval exposed_rows [] [sample_unit ''p1'' 3]) of Inl _ \<Rightarrow> False | Inr _ \<Rightarrow> True"
  by code_simp

lemma sample_approvedE:
  obtains a c where "sample_approval exposed_rows [] [sample_unit ''p1'' 3] = (Inr a, c)"
  using sample_approved by (cases "sample_approval exposed_rows [] [sample_unit ''p1'' 3]") (auto split: sum.splits)

theorem approved_entry_within_budget_witness:
  "\<exists>a c l marks. sample_approval exposed_rows [] [sample_unit ''p1'' 3] = (Inr a, c) \<and>
     get_limits sample_limits = Inr (Some l) \<and> mark_prices exposed_rows = Inr marks \<and>
     projected_stop_loss (sample_book [sample_unit ''p1'' 3]) marks c a * (1 - half_ulp) ^ (length (list_active (sample_book [sample_unit ''p1'' 3])) + 4)
       \<le> ea_equity a * dec_val (rl_max_stop_loss_pct l) / 100 * (1 + half_ulp) ^ 2"
proof -
  obtain a c where a: "sample_approval exposed_rows [] [sample_unit ''p1'' 3] = (Inr a, c)" by (rule sample_approvedE)
  have "rc_positions (sample_client exposed_rows []) = Inr exposed_rows" by (simp add: sample_client_def)
  with approved_entry_within_budget [OF a [unfolded sample_approval_def]] a show ?thesis by auto
qed

theorem approved_entry_passes_gates_witness:
  "\<exists>a c marks payload. sample_approval exposed_rows [] [sample_unit ''p1'' 3] = (Inr a, c) \<and> mark_prices exposed_rows = Inr marks \<and>
     tradable_instrument ''BTC-USDT-SWAP'' payload \<and>
     guarded_unit (sample_client exposed_rows []) (sample_book [sample_unit ''p1'' 3]) marks (sample_unit ''p1'' 3)"
proof -
  obtain a c where a: "sample_approval exposed_rows [] [sample_unit ''p1'' 3] = (Inr a, c)" by (rule sample_approvedE)
  have c: "rc_positions (sample_client exposed_rows []) = Inr exposed_rows" by (simp add: sample_client_def)
  have u: "open_units (sample_book [sample_unit ''p1'' 3]) = [sample_unit ''p1'' 3]" by code_simp
  have e: "cache_tradable []" by (simp add: cache_tradable_def)
  obtain payload marks where "tradable_instrument ''BTC-USDT-SWAP'' payload" "mark_prices exposed_rows = Inr marks"
    "guarded_unit (sample_client exposed_rows []) (sample_book [sample_unit ''p1'' 3]) marks (sample_unit ''p1'' 3)"
    using approved_entry_passes_gates [OF a [unfolded sample_approval_def] e] unfolding c u by (elim exE conjE) (simp del: py_lower_def)
  with a show ?thesis by blast
qed

text \<open>A limit of the budget. An entry that is accepted but not yet filled is a pending unit
  without quantity and does not count: with a budget of one percent of 10000, an entry that loses 80 at
  its stop is approved, and a second one of the same size is approved while the first is pending,
  although both stops together lose 160.\<close>

theorem pending_entry_outside_budget:
  "\<exists>a b l. fst (sample_approval [] [] []) = Inr a \<and>
     fst (sample_approval [] [sample_entry_order] [sample_pending_unit]) = Inr b \<and>
     get_limits sample_limits = Inr (Some l) \<and> loss_budget (ea_equity b) l < ea_worst_case_loss a + ea_worst_case_loss b"
proof -
  have "case (fst (sample_approval [] [] []), fst (sample_approval [] [sample_entry_order] [sample_pending_unit]), get_limits sample_limits) of
      (Inr a, Inr b, Inr (Some l)) \<Rightarrow> loss_budget (ea_equity b) l < ea_worst_case_loss a + ea_worst_case_loss b | _ \<Rightarrow> False"
    by code_simp
  then show ?thesis by (auto split: sum.splits option.splits)
qed

end
