(* ===== verification/EntryControl.thy ===== *)
theory EntryControl
  imports AccountRisk AuditEventStore PositionLedger
begin

section \<open>The operator's entry switch\<close>

text \<open>
  \<^verbatim>\<open>src/trading/entry_control.py\<close> and the process flags of \<^verbatim>\<open>src/exchange/client.py\<close>. The
  state is the risk database, the position store, the audit log, the two flags of the process and
  the list of the cancellations that were sent. The exchange client, and a database that fails to
  store the switch or the audit event, are the environment of a call. The lock that serialises the
  operations makes each of them one step.
\<close>

subsection \<open>State and environment\<close>

record control_state =
  ct_risk :: risk_db
  ct_pos :: store
  ct_audit :: audit_db
  ct_armed :: bool
  ct_entry :: bool
  ct_cancels :: "(string \<times> string) list"

record control_env =
  ce_now :: string
  ce_fresh :: string
  ce_get_order :: "string \<Rightarrow> string \<Rightarrow> jobj list result"
  ce_cancel_order :: "string \<Rightarrow> string \<Rightarrow> jobj result"
  ce_switch_error :: "py_exc option"
  ce_audit_error :: "py_exc option"

record control_result =
  cr_entries_enabled :: bool
  cr_process_enabled :: bool
  cr_persisted :: bool
  cr_pending :: nat
  cr_requested :: nat
  cr_already_requested :: nat
  cr_already_terminal :: nat
  cr_unresolved :: nat
  cr_errors :: "string list"
  cr_updated_at :: string

definition control_to_dict :: "control_result \<Rightarrow> jobj" where
  "control_to_dict r =
     [(''entries_enabled'', JBool (cr_entries_enabled r)), (''process_entry_enabled'', JBool (cr_process_enabled r)),
      (''persisted'', JBool (cr_persisted r)), (''pending_entries'', JInt (int (cr_pending r))),
      (''cancellations_requested'', JInt (int (cr_requested r))), (''already_requested'', JInt (int (cr_already_requested r))),
      (''already_terminal'', JInt (int (cr_already_terminal r))), (''unresolved'', JInt (int (cr_unresolved r))),
      (''errors'', JList (map JStr (cr_errors r))), (''updated_at'', JStr (cr_updated_at r))]"

text \<open>\<^verbatim>\<open>str(exc)\<close>\<close>

fun exc_text :: "py_exc \<Rightarrow> string" where
  "exc_text (ValueError m) = m"
| "exc_text (KeyError k) = py_repr (JStr k)"
| "exc_text (LookupError m) = m"
| "exc_text (RuntimeError m) = m"
| "exc_text (PermissionError m) = m"
| "exc_text (AllocationConflictError m) = m"
| "exc_text (ProtectionVerificationError m) = m"
| "exc_text (PositionProtectionError m) = m"
| "exc_text (PositionImportConflict m) = m"
| "exc_text (RuntimeLeaseConflictError m) = m"
| "exc_text (LivePreflightError m) = m"
| "exc_text (RiskRejected m) = m"
| "exc_text (RemoteError m) = m"
| "exc_text _ = []"

type_synonym 'a control = "(control_state, 'a) action"

definition on_control_positions :: "(store \<Rightarrow> 'a tx) \<Rightarrow> 'a control" where
  "on_control_positions m s = (case m (ct_pos s) of (r, st) \<Rightarrow> (r, s\<lparr>ct_pos := st\<rparr>))"

subsection \<open>The flags of the process\<close>

definition arm_order_placement :: "bool \<Rightarrow> unit control" where
  "arm_order_placement preflight_passed s =
     (if \<not> preflight_passed then (Inl (PermissionError ''Order placement can only be armed after live preflight''), s)
      else (Inr (), s\<lparr>ct_armed := True\<rparr>))"

definition enable_entry_order_placement :: "unit control" where
  "enable_entry_order_placement s =
     (if \<not> ct_armed s then (Inl (PermissionError ''Entry placement requires an armed live runtime''), s)
      else (Inr (), s\<lparr>ct_entry := True\<rparr>))"

definition disable_entry_order_placement :: "unit control" where
  "disable_entry_order_placement s = (Inr (), s\<lparr>ct_entry := False\<rparr>)"

definition entry_order_placement_enabled :: "control_state \<Rightarrow> bool" where
  "entry_order_placement_enabled s \<longleftrightarrow> ct_armed s \<and> ct_entry s"

definition disarm_order_placement :: "unit control" where
  "disarm_order_placement s = (Inr (), s\<lparr>ct_armed := False, ct_entry := False\<rparr>)"

definition persist_switch :: "control_env \<Rightarrow> bool \<Rightarrow> risk_limits option control" where
  "persist_switch env enabled s =
     (case ce_switch_error env of
        Some e \<Rightarrow> (Inl e, s)
      | None \<Rightarrow> (case set_entries_enabled enabled (ct_risk s) of (r, db) \<Rightarrow> (r, s\<lparr>ct_risk := db\<rparr>)))"

definition control_audit :: "control_env \<Rightarrow> string \<Rightarrow> control_result \<Rightarrow> unit control" where
  "control_audit env event_type r s =
     (case ce_audit_error env of
        Some e \<Rightarrow> (Inl e, s)
      | None \<Rightarrow> (Inr (), s\<lparr>ct_audit := snd (create_event (ce_now env) (ce_fresh env) event_type ''entry_control''
          (control_to_dict r) [] (cr_updated_at r) (ct_audit s))\<rparr>))"

definition control_status :: "control_env \<Rightarrow> control_state \<Rightarrow> control_result" where
  "control_status env s = \<lparr>cr_entries_enabled = entries_enabled (ct_risk s), cr_process_enabled = entry_order_placement_enabled s,
     cr_persisted = True, cr_pending = 0, cr_requested = 0, cr_already_requested = 0, cr_already_terminal = 0, cr_unresolved = 0,
     cr_errors = [], cr_updated_at = ce_now env\<rparr>"

subsection \<open>Enabling\<close>

definition switch_on :: "control_env \<Rightarrow> control_result control" where
  "switch_on env =
     bindS enable_entry_order_placement (\<lambda>_.
     bindS (persist_switch env True) (\<lambda>saved.
     bindS (liftS (if saved = None then Inl (RuntimeError ''Account risk limits disappeared during entry enable'') else Inr ())) (\<lambda>_ s.
     let r = (control_status env s)\<lparr>cr_entries_enabled := True\<rparr> in
     bindS (control_audit env ''entry_control.enabled'' r) (\<lambda>_. returnS r) s)))"

definition switch_back :: "control_env \<Rightarrow> py_exc \<Rightarrow> control_result control" where
  "switch_back env e =
     bindS disable_entry_order_placement (\<lambda>_. bindS (persist_switch env False) (\<lambda>_. liftS (Inl e)))"

definition enable_entries :: "control_env \<Rightarrow> control_result control" where
  "enable_entries env s =
     (case get_limits (ct_risk s) of
        Inl e \<Rightarrow> (Inl e, s)
      | Inr limits \<Rightarrow>
          if (case limits of None \<Rightarrow> True | Some l \<Rightarrow> \<not> rl_enabled l)
          then (Inl (ValueError ''Enabled account risk limits are required''), s)
          else (case switch_on env s of
              (Inr r, s') \<Rightarrow> (Inr r, s')
            | (Inl e, s') \<Rightarrow> switch_back env e s'))"

subsection \<open>The kill switch\<close>

definition terminal_order_states :: "string list" where
  "terminal_order_states = [''canceled'', ''cancelled'', ''filled'', ''rejected'', ''mmp_canceled'']"

record kill_counts =
  kc_requested :: nat
  kc_already_requested :: nat
  kc_already_terminal :: nat
  kc_unresolved :: nat
  kc_errors :: "string list"

definition kill_unresolved :: "string \<Rightarrow> kill_counts \<Rightarrow> kill_counts" where
  "kill_unresolved message k = k\<lparr>kc_unresolved := kc_unresolved k + 1, kc_errors := kc_errors k @ [message]\<rparr>"

text \<open>The cancellation of one order; the request itself is recorded, whatever its answer is.\<close>

definition cancel_rejected :: "jobj \<Rightarrow> bool" where
  "cancel_rejected response \<longleftrightarrow> response = [] \<or> text_of (jget response ''sCode'') \<notin> {'''', ''0''}"

definition kill_cancel :: "control_env \<Rightarrow> position \<Rightarrow> string \<Rightarrow> kill_counts \<Rightarrow> kill_counts control" where
  "kill_cancel env p order_id k s =
     (let s1 = s\<lparr>ct_cancels := ct_cancels s @ [(p_inst_id p, order_id)]\<rparr> in
      case ce_cancel_order env (p_inst_id p) order_id of
        Inl e \<Rightarrow> (Inr (kill_unresolved (p_id p @ '': cancellation failed: '' @ exc_text e) k), s1)
      | Inr response \<Rightarrow>
          if cancel_rejected response
          then (let code = text_of (jget response ''sCode'') in
            (Inr (kill_unresolved (p_id p @ '': cancellation rejected'' @
               (if code \<noteq> [] then '' (sCode='' @ code @ '')'' else [])) k), s1))
          else bindS (on_control_positions (mark_order_cancel_requested (ce_now env) (p_id p) order_id))
            (\<lambda>marked. returnS (if marked then k\<lparr>kc_requested := kc_requested k + 1\<rparr> else k)) s1)"

definition kill_order :: "control_env \<Rightarrow> position \<Rightarrow> string \<Rightarrow> kill_counts \<Rightarrow> kill_counts control" where
  "kill_order env p order_id k =
     (if order_id = [] then returnS (kill_unresolved (p_id p @ '': no exchange order ID available'') k)
      else kill_cancel env p order_id k)"

definition kill_lookup :: "control_env \<Rightarrow> position \<Rightarrow> kill_counts \<Rightarrow> kill_counts control" where
  "kill_lookup env p k =
     (case ce_get_order env (p_inst_id p) (p_client_order_id p) of
        Inl e \<Rightarrow> returnS (kill_unresolved (p_id p @ '': order lookup failed: '' @ exc_text e) k)
      | Inr [order] \<Rightarrow>
          (let order_id = text_of (jget order ''ordId'') in
           if py_lower (text_of (jget order ''state'')) \<in> set terminal_order_states
           then returnS (k\<lparr>kc_already_terminal := kc_already_terminal k + 1\<rparr>)
           else if order_id = [] then kill_order env p order_id k
           else bindS (on_control_positions (link_exchange_order (ce_now env) (p_id p) (p_client_order_id p) order_id
                  [(''execution_status'', JStr ''kill_switch_order_recovered'')]))
             (\<lambda>linked. kill_order env (or_default linked p) order_id k))
      | Inr orders \<Rightarrow>
          returnS (kill_unresolved (p_id p @ '': expected one order for client ID, got '' @ show_int (int (length orders))) k))"

definition kill_entry :: "control_env \<Rightarrow> position \<Rightarrow> kill_counts \<Rightarrow> kill_counts control" where
  "kill_entry env p k s =
     (let order_id = p_exchange_order_id p in
      if order_id \<noteq> [] \<and> is_order_cancel_requested (ct_pos s) (p_id p) order_id
      then (Inr (k\<lparr>kc_already_requested := kc_already_requested k + 1\<rparr>), s)
      else if order_id = [] \<and> p_client_order_id p \<noteq> [] then kill_lookup env p k s
      else kill_order env p order_id k s)"

definition kill_targets :: "store \<Rightarrow> position list" where
  "kill_targets st = filter (\<lambda>p. p_status p = PendingOpen) (list_pending_executions st 500)"

definition kill_switch_off :: "control_env \<Rightarrow> (bool \<times> string list) control" where
  "kill_switch_off env s =
     (case persist_switch env False (s\<lparr>ct_entry := False\<rparr>) of
        (Inr _, s') \<Rightarrow> (Inr (True, []), s')
      | (Inl e, s') \<Rightarrow> (Inr (False, [''failed to persist disabled state: '' @ exc_text e]), s'))"

definition kill_report :: "control_env \<Rightarrow> bool \<Rightarrow> nat \<Rightarrow> kill_counts \<Rightarrow> control_result control" where
  "kill_report env persisted pending k s =
     (let r = \<lparr>cr_entries_enabled = False, cr_process_enabled = entry_order_placement_enabled s, cr_persisted = persisted,
            cr_pending = pending, cr_requested = kc_requested k, cr_already_requested = kc_already_requested k,
            cr_already_terminal = kc_already_terminal k, cr_unresolved = kc_unresolved k, cr_errors = kc_errors k,
            cr_updated_at = ce_now env\<rparr> in
      case control_audit env ''entry_control.killed'' r s of
        (Inr _, s') \<Rightarrow> (Inr r, s')
      | (Inl e, s') \<Rightarrow> (Inr (r\<lparr>cr_errors := cr_errors r @ [''failed to persist kill audit: '' @ exc_text e]\<rparr>), s'))"

definition kill_entries :: "control_env \<Rightarrow> control_result control" where
  "kill_entries env =
     bindS (kill_switch_off env) (\<lambda>(persisted, errors).
     bindS (\<lambda>s. (Inr (kill_targets (ct_pos s)), s)) (\<lambda>targets.
     bindS (foldS (kill_entry env) targets
       \<lparr>kc_requested = 0, kc_already_requested = 0, kc_already_terminal = 0, kc_unresolved = 0, kc_errors = errors\<rparr>) (\<lambda>k.
     kill_report env persisted (length targets) k)))"

subsection \<open>What a step of the kill switch may change\<close>

text \<open>The part of a unit that the kill switch leaves alone, and the frame of an operation on one unit.\<close>

definition unit_view :: "store \<Rightarrow> string \<Rightarrow> (string \<times> string \<times> pos_status \<times> rat option \<times> rat option \<times> rat) option" where
  "unit_view st k = map_option (\<lambda>p. (p_inst_id p, p_side p, p_status p, p_opened p, p_remaining p, p_entry_price p)) (ps_get st k)"

definition well_keyed :: "store \<Rightarrow> bool" where
  "well_keyed st \<longleftrightarrow> (\<forall>k p. ps_get st k = Some p \<longrightarrow> p_id p = k)"

definition unit_frame :: "string \<Rightarrow> store \<Rightarrow> store \<Rightarrow> bool" where
  "unit_frame pid st st' \<longleftrightarrow> (\<forall>k. k \<noteq> pid \<longrightarrow> ps_get st' k = ps_get st k) \<and> unit_view st' = unit_view st \<and> (well_keyed st \<longrightarrow> well_keyed st')"

lemma unit_frame_refl [simp]: "unit_frame pid st st"
  by (simp add: unit_frame_def)

lemma unit_frame_trans: "unit_frame pid st st' \<Longrightarrow> unit_frame pid st' st'' \<Longrightarrow> unit_frame pid st st''"
  by (simp add: unit_frame_def)

lemma unit_frame_cong: "ps_get st'' = ps_get st' \<Longrightarrow> unit_frame pid st st' \<Longrightarrow> unit_frame pid st st''"
proof -
  assume "ps_get st'' = ps_get st'"
  moreover from this have "unit_view st'' = unit_view st'" "well_keyed st'' = well_keyed st'"
    unfolding unit_view_def [abs_def] well_keyed_def by (simp_all only:)
  ultimately have "unit_frame pid st st'' = unit_frame pid st st'" unfolding unit_frame_def by (simp only:)
  then show "unit_frame pid st st' \<Longrightarrow> unit_frame pid st st''" by (simp only:)
qed

lemma unit_frame_put:
  assumes "well_keyed st" "ps_get st pid = Some p" "p_id q = p_id p" "p_inst_id q = p_inst_id p" "p_side q = p_side p" "p_status q = p_status p"
    "p_opened q = p_opened p" "p_remaining q = p_remaining p" "p_entry_price q = p_entry_price p"
  shows "unit_frame pid st (put_position q st)"
proof -
  have "p_id q = pid" using assms(1-3) by (simp add: well_keyed_def)
  with assms show ?thesis by (auto simp: unit_frame_def unit_view_def well_keyed_def fun_eq_iff)
qed

lemma link_execution_positions:
  "st_positions (snd (link_execution_order now pid oid cid a m st)) = st_positions st"
  by (simp add: link_execution_order_def split: option.split)

lemma mark_frame:
  assumes "well_keyed st" shows "unit_frame pid st (snd (mark_order_cancel_requested now pid oid st))"
proof (cases "order_row st pid oid")
  case None
  then show ?thesis by (simp add: mark_order_cancel_requested_def)
next
  case (Some p)
  then have "ps_get st pid = Some p" by (simp add: order_row_def split: option.splits if_splits)
  then show ?thesis using assms Some by (simp add: mark_order_cancel_requested_def Let_def unit_frame_put)
qed

lemma link_frame:
  assumes "well_keyed st" and "link_exchange_order now pid cid oid m st = (r, st')"
  shows "unit_frame pid st st' \<and> (\<forall>q. r = Inr (Some q) \<longrightarrow> ps_get st' pid = Some q)"
proof (cases "cid = [] \<or> oid = [] \<or> ps_get st pid = None \<or> (\<exists>p. ps_get st pid = Some p \<and> p_client_order_id p \<noteq> cid)")
  case True
  then have "link_exchange_order now pid cid oid m st = (Inr None, st)"
    by (auto simp: link_exchange_order_def split: option.split)
  with assms(2) show ?thesis by auto
next
  case False
  then obtain p where p: "ps_get st pid = Some p" "p_client_order_id p = cid" "cid \<noteq> []" "oid \<noteq> []" by auto
  let ?merged = "tmerge (col_obj (p_metadata p)) m"
  let ?st1 = "put_position (p\<lparr>p_exchange_order_id := oid, p_metadata := dumps ?merged, p_updated_at := now\<rparr>) st"
  have f: "unit_frame pid st ?st1" using assms(1) p(1) by (intro unit_frame_put) simp_all
  have "st_positions st' = st_positions ?st1 \<and> (\<forall>q. r = Inr (Some q) \<longrightarrow> ps_get st' pid = Some q)"
  proof (cases "execution_action (jget ?merged ''order_action'')")
    case (Inl e)
    then have "link_exchange_order now pid cid oid m st = (Inl e, ?st1)" using p by (simp add: link_exchange_order_def Let_def)
    with assms(2) show ?thesis by auto
  next
    case (Inr act)
    show ?thesis
    proof (cases act)
      case None
      then have "link_exchange_order now pid cid oid m st = (Inr (ps_get ?st1 pid), ?st1)"
        using p Inr by (simp add: link_exchange_order_def Let_def)
      with assms(2) show ?thesis by auto
    next
      case (Some a)
      obtain r2 st2 where l: "link_execution_order now pid oid cid a [(''source'', JStr ''link_exchange_order'')] ?st1 = (r2, st2)"
        by (cases "link_execution_order now pid oid cid a [(''source'', JStr ''link_exchange_order'')] ?st1")
      have "st_positions st2 = st_positions ?st1"
        using link_execution_positions [of now pid oid cid a "[(''source'', JStr ''link_exchange_order'')]" ?st1] unfolding l snd_conv .
      moreover have "link_exchange_order now pid cid oid m st = (case r2 of Inl e \<Rightarrow> (Inl e, st2) | Inr _ \<Rightarrow> (Inr (ps_get st2 pid), st2))"
        using p Inr Some l by (simp add: link_exchange_order_def Let_def)
      ultimately show ?thesis using assms(2) by (cases r2) auto
    qed
  qed
  moreover have "unit_frame pid st st'" if "st_positions st' = st_positions ?st1"
  proof -
    have "ps_get st' = ps_get ?st1" using that by (simp add: ps_get_def fun_eq_iff)
    then show ?thesis using f by (rule unit_frame_cong)
  qed
  ultimately show ?thesis by simp
qed

text \<open>One step on the unit \<open>p\<close>: the switches stay, only the row of \<open>p\<close> may change, and any new
  cancellation is for the order of \<open>p\<close>, recorded or reported by the exchange for its client identity.\<close>

definition entry_order :: "control_env \<Rightarrow> position \<Rightarrow> string \<Rightarrow> bool" where
  "entry_order env p oid \<longleftrightarrow> oid \<noteq> [] \<and> (p_exchange_order_id p = oid \<or>
     (p_exchange_order_id p = [] \<and> (\<exists>order. ce_get_order env (p_inst_id p) (p_client_order_id p) = Inr [order] \<and> text_of (jget order ''ordId'') = oid)))"

definition kill_le :: "control_env \<Rightarrow> position \<Rightarrow> control_state \<Rightarrow> control_state \<Rightarrow> bool" where
  "kill_le env p s s' \<longleftrightarrow> ct_risk s' = ct_risk s \<and> ct_armed s' = ct_armed s \<and> ct_entry s' = ct_entry s \<and>
     unit_frame (p_id p) (ct_pos s) (ct_pos s') \<and>
     (\<exists>orders. ct_cancels s' = ct_cancels s @ map (Pair (p_inst_id p)) orders \<and> (\<forall>oid\<in>set orders. entry_order env p oid))"

definition known_unit :: "position \<Rightarrow> control_state \<Rightarrow> bool" where
  "known_unit p s \<longleftrightarrow> well_keyed (ct_pos s) \<and> (\<exists>rest. unit_view (ct_pos s) (p_id p) = Some (p_inst_id p, rest))"

lemma kill_le_refl: "kill_le env p s s"
  by (simp add: kill_le_def exI [of _ "[]"])

lemma kill_le_trans: "kill_le env p s t \<Longrightarrow> kill_le env p t u \<Longrightarrow> kill_le env p s u"
  unfolding kill_le_def
proof (elim conjE exE, intro conjI)
  fix xs ys
  assume "ct_cancels t = ct_cancels s @ map (Pair (p_inst_id p)) xs" "ct_cancels u = ct_cancels t @ map (Pair (p_inst_id p)) ys"
    "\<forall>oid\<in>set xs. entry_order env p oid" "\<forall>oid\<in>set ys. entry_order env p oid"
  then show "\<exists>orders. ct_cancels u = ct_cancels s @ map (Pair (p_inst_id p)) orders \<and> (\<forall>oid\<in>set orders. entry_order env p oid)"
    by (intro exI [of _ "xs @ ys"]) auto
qed (auto intro: unit_frame_trans)

interpretation killing: action_relation "kill_le env p" for env p
  by unfold_locales (auto intro: kill_le_refl kill_le_trans)

abbreviation kills :: "control_env \<Rightarrow> position \<Rightarrow> ('a \<Rightarrow> bool) \<Rightarrow> 'a control \<Rightarrow> bool" where
  "kills env p \<equiv> behaves (kill_le env p) (known_unit p)"

lemma kills_positions:
  assumes "\<And>st r st'. well_keyed st \<Longrightarrow> unit_view st (p_id p) \<noteq> None \<Longrightarrow> m st = (r, st') \<Longrightarrow>
      unit_frame (p_id p) st st' \<and> (\<forall>x. r = Inr x \<longrightarrow> Q x st')"
    and "\<And>x s. known_unit p s \<Longrightarrow> Q x (ct_pos s) \<Longrightarrow> R x"
  shows "kills env p R (on_control_positions m)"
  unfolding behaves_def
proof (intro allI impI)
  fix s assume s: "known_unit p s"
  obtain r st' where m: "m (ct_pos s) = (r, st')" by (cases "m (ct_pos s)")
  let ?s' = "s\<lparr>ct_pos := st'\<rparr>"
  have a: "unit_frame (p_id p) (ct_pos s) st'" "\<And>x. r = Inr x \<Longrightarrow> Q x st'"
    using assms(1) [OF _ _ m] s by (auto simp: known_unit_def)
  have k: "known_unit p ?s'" using s a(1) by (simp add: known_unit_def unit_frame_def)
  have "kill_le env p s ?s'" using a(1) by (simp add: kill_le_def exI [of _ "[]"])
  moreover have "R x" if "r = Inr x" for x using assms(2) [OF k] a(2) [OF that] by simp
  ultimately show "known_unit p (snd (on_control_positions m s)) \<and> kill_le env p s (snd (on_control_positions m s)) \<and>
      (\<forall>x. fst (on_control_positions m s) = Inr x \<longrightarrow> R x)"
    using k m by (simp add: on_control_positions_def)
qed

lemma kills_cancel:
  assumes "entry_order env p oid" "p_id q = p_id p" "p_inst_id q = p_inst_id p"
  shows "kills env p (\<lambda>_. True) (kill_cancel env q oid k)"
proof -
  have mark: "kills env p (\<lambda>_. True) (on_control_positions (mark_order_cancel_requested (ce_now env) (p_id q) oid))"
    using mark_frame [of _ "p_id p" "ce_now env" oid] unfolding assms(2)
    by (intro kills_positions [where Q = "\<lambda>_ _. True"]) (simp, metis snd_conv)
  let ?send = "\<lambda>s. (Inr (), s\<lparr>ct_cancels := ct_cancels s @ [(p_inst_id q, oid)]\<rparr>) :: unit result \<times> control_state"
  have send: "kills env p (\<lambda>_. True) ?send"
    using assms(1,3) by (auto simp: behaves_def kill_le_def known_unit_def intro!: exI [of _ "[oid]"])
  let ?rest = "\<lambda>_. (case ce_cancel_order env (p_inst_id q) oid of
        Inl e \<Rightarrow> returnS (kill_unresolved (p_id q @ '': cancellation failed: '' @ exc_text e) k)
      | Inr response \<Rightarrow>
          if cancel_rejected response
          then (let code = text_of (jget response ''sCode'') in
            returnS (kill_unresolved (p_id q @ '': cancellation rejected'' @ (if code \<noteq> [] then '' (sCode='' @ code @ '')'' else [])) k))
          else bindS (on_control_positions (mark_order_cancel_requested (ce_now env) (p_id q) oid))
            (\<lambda>marked. returnS (if marked then k\<lparr>kc_requested := kc_requested k + 1\<rparr> else k)))"
  have "kills env p (\<lambda>_. True) (bindS ?send ?rest)"
    using send mark by (auto simp: Let_def split: sum.split intro!: killing.bind [where Q = "\<lambda>_. True"] killing.return)
  moreover have "bindS ?send ?rest = kill_cancel env q oid k"
    by (simp add: fun_eq_iff bindS_def kill_cancel_def returnS_def Let_def split: sum.split)
  ultimately show ?thesis by simp
qed

lemma kills_order:
  assumes "oid \<noteq> [] \<Longrightarrow> entry_order env p oid" "p_id q = p_id p" "p_inst_id q = p_inst_id p"
  shows "kills env p (\<lambda>_. True) (kill_order env q oid k)"
  using kills_cancel [of env p oid q k] assms by (auto simp: kill_order_def killing.return)

lemma kills_lookup:
  assumes "p_exchange_order_id p = []"
  shows "kills env p (\<lambda>_. True) (kill_lookup env p k)"
proof -
  have link: "kills env p (\<lambda>l. p_id (or_default l p) = p_id p \<and> p_inst_id (or_default l p) = p_inst_id p)
      (on_control_positions (link_exchange_order (ce_now env) (p_id p) (p_client_order_id p) oid m))" for oid m
  proof (rule kills_positions [where Q = "\<lambda>l st. \<forall>q. l = Some q \<longrightarrow> ps_get st (p_id p) = Some q"])
    fix l s assume k: "known_unit p s" and q: "\<forall>q. l = Some q \<longrightarrow> ps_get (ct_pos s) (p_id p) = Some q"
    show "p_id (or_default l p) = p_id p \<and> p_inst_id (or_default l p) = p_inst_id p"
      using k q by (cases l) (auto simp: known_unit_def well_keyed_def unit_view_def)
  qed (use link_frame in blast)
  show ?thesis
    unfolding kill_lookup_def Let_def
    by (auto split: sum.split list.split intro!: killing.return killing.bind [OF link] kills_order simp: entry_order_def assms)
qed

lemma kills_entry: "kills env p (\<lambda>_. True) (kill_entry env p k)"
proof -
  have o: "kills env p (\<lambda>_. True) (kill_order env p (p_exchange_order_id p) k)" by (rule kills_order) (simp_all add: entry_order_def)
  show ?thesis
    unfolding behaves_def
  proof (intro allI impI)
    fix s assume s: "known_unit p s"
    show "known_unit p (snd (kill_entry env p k s)) \<and> kill_le env p s (snd (kill_entry env p k s)) \<and>
        (\<forall>x. fst (kill_entry env p k s) = Inr x \<longrightarrow> True)"
      using s o kills_lookup [of p env k] kill_le_refl [of env p s] by (auto simp: kill_entry_def Let_def behaves_def)
  qed
qed

subsection \<open>A whole run of the kill switch\<close>

definition kill_run :: "control_env \<Rightarrow> position list \<Rightarrow> control_state \<Rightarrow> control_state \<Rightarrow> bool" where
  "kill_run env ps s s' \<longleftrightarrow> ct_risk s' = ct_risk s \<and> ct_armed s' = ct_armed s \<and> ct_entry s' = ct_entry s \<and>
     unit_view (ct_pos s') = unit_view (ct_pos s) \<and> (\<forall>k. k \<notin> p_id ` set ps \<longrightarrow> ps_get (ct_pos s') k = ps_get (ct_pos s) k) \<and>
     (\<exists>sent. ct_cancels s' = ct_cancels s @ sent \<and> (\<forall>(i, oid)\<in>set sent. \<exists>p\<in>set ps. i = p_inst_id p \<and> entry_order env p oid))"

lemma kill_run_step:
  assumes "kill_le env p s t" "kill_run env ps t u"
  shows "kill_run env (p # ps) s u"
proof -
  obtain orders sent where o: "ct_cancels t = ct_cancels s @ map (Pair (p_inst_id p)) orders" "\<forall>oid\<in>set orders. entry_order env p oid"
    and n: "ct_cancels u = ct_cancels t @ sent" "\<forall>(i, oid)\<in>set sent. \<exists>p\<in>set ps. i = p_inst_id p \<and> entry_order env p oid"
    using assms by (auto simp: kill_le_def kill_run_def)
  have "ct_cancels u = ct_cancels s @ (map (Pair (p_inst_id p)) orders @ sent)" using o n by simp
  moreover have "\<forall>(i, oid)\<in>set (map (Pair (p_inst_id p)) orders @ sent). \<exists>q\<in>set (p # ps). i = p_inst_id q \<and> entry_order env q oid"
    using o(2) n(2) by fastforce
  ultimately show ?thesis
    using assms unfolding kill_run_def kill_le_def unit_frame_def by (intro conjI exI) auto
qed

lemma kill_fold_run:
  assumes "foldS (kill_entry env) ps k s = (r, s')" and "\<forall>p\<in>set ps. known_unit p s"
  shows "kill_run env ps s s'"
  using assms
proof (induction ps arbitrary: k s)
  case Nil
  then show ?case by (simp add: returnS_def kill_run_def)
next
  case (Cons p ps)
  obtain r1 t where t: "kill_entry env p k s = (r1, t)" by (cases "kill_entry env p k s")
  have le: "kill_le env p s t" using kills_entry [of env p k] Cons.prems(2) t by (simp add: behaves_def) (metis snd_conv)
  have known: "\<forall>q\<in>set ps. known_unit q t" using le Cons.prems(2) by (simp add: kill_le_def known_unit_def unit_frame_def)
  show ?case
  proof (cases r1)
    case (Inl e)
    then have "s' = t" using Cons.prems(1) t by (simp add: bindS_def)
    then show ?thesis using kill_run_step [OF le, of ps t] by (simp add: kill_run_def)
  next
    case (Inr k1)
    then have "foldS (kill_entry env) ps k1 t = (r, s')" using Cons.prems(1) t by (simp add: bindS_def)
    from Cons.IH [OF this known] show ?thesis by (rule kill_run_step [OF le])
  qed
qed

text \<open>A unit whose order is known and not yet asked for gets its request.\<close>

definition open_order :: "position \<Rightarrow> control_state \<Rightarrow> bool" where
  "open_order p s \<longleftrightarrow> p_exchange_order_id p \<noteq> [] \<and> \<not> is_order_cancel_requested (ct_pos s) (p_id p) (p_exchange_order_id p)"

lemma kill_entry_requests:
  assumes "open_order p s"
  shows "(p_inst_id p, p_exchange_order_id p) \<in> set (ct_cancels (snd (kill_entry env p k s)))"
proof -
  have "snd (kill_cancel env p oid k s) = s\<lparr>ct_cancels := ct_cancels s @ [(p_inst_id p, oid)]\<rparr> \<or>
      (\<exists>st. snd (kill_cancel env p oid k s) = s\<lparr>ct_cancels := ct_cancels s @ [(p_inst_id p, oid)], ct_pos := st\<rparr>)" for oid
    by (auto simp: kill_cancel_def Let_def bindS_def on_control_positions_def returnS_def split: sum.split prod.split)
  from this [of "p_exchange_order_id p"] show ?thesis using assms
    by (auto simp: open_order_def kill_entry_def kill_order_def)
qed

lemma open_order_kept:
  "ps_get (ct_pos t) (p_id p) = ps_get (ct_pos s) (p_id p) \<Longrightarrow> open_order p t = open_order p s"
  by (simp add: open_order_def is_order_cancel_requested_def order_row_def)

lemma kill_fold_requests:
  assumes "foldS (kill_entry env) ps k s = (Inr k', s')" and "\<forall>p\<in>set ps. known_unit p s" and "distinct (map p_id ps)"
    and "p \<in> set ps" "open_order p s"
  shows "(p_inst_id p, p_exchange_order_id p) \<in> set (ct_cancels s')"
  using assms
proof (induction ps arbitrary: k s)
  case (Cons q ps)
  obtain k1 t where t: "kill_entry env q k s = (Inr k1, t)" "foldS (kill_entry env) ps k1 t = (Inr k', s')"
    using Cons.prems(1) by (auto simp: result_simps)
  have le: "kill_le env q s t" using kills_entry [of env q k] Cons.prems(2) t by (simp add: behaves_def) (metis snd_conv)
  have known: "\<forall>q\<in>set ps. known_unit q t" using le Cons.prems(2) by (simp add: kill_le_def known_unit_def unit_frame_def)
  show ?case
  proof (cases "p = q")
    case True
    then have "(p_inst_id p, p_exchange_order_id p) \<in> set (ct_cancels t)"
      using kill_entry_requests [of p s env k] Cons.prems(5) t(1) by simp
    then show ?thesis using kill_fold_run [OF t(2) known] by (auto simp: kill_run_def)
  next
    case False
    then have p: "p \<in> set ps" using Cons.prems(4) by simp
    then have "p_id p \<noteq> p_id q" using Cons.prems(3) by (auto simp: image_iff)
    then have "open_order p t" using le Cons.prems(5) open_order_kept [of t p s] by (simp add: kill_le_def unit_frame_def)
    with Cons.IH [OF t(2) known _ p] Cons.prems(3) show ?thesis by simp
  qed
qed simp

lemma store_ok_well_keyed: "store_ok st \<Longrightarrow> well_keyed st"
  unfolding well_keyed_def using ps_getD by blast

lemma kill_targets_known:
  assumes "store_ok st" "p \<in> set (kill_targets st)"
  shows "ps_get st (p_id p) = Some p \<and> p_status p = PendingOpen"
proof -
  have "p \<in> snd ` set (st_positions st)" "p_status p = PendingOpen"
    using assms(2) by (auto simp: kill_targets_def list_pending_executions_def dest!: in_set_takeD)
  then obtain k where "(k, p) \<in> set (st_positions st)" by auto
  moreover have "distinct (map fst (st_positions st))" using assms(1) by (simp add: store_ok_def positions_ok_def)
  ultimately have "ps_get st k = Some p" by (simp add: ps_get_def)
  with store_ok_well_keyed [OF assms(1)] \<open>p_status p = PendingOpen\<close> show ?thesis by (simp add: well_keyed_def)
qed

lemma kill_targets_distinct:
  assumes "store_ok st" shows "distinct (map p_id (kill_targets st))"
proof -
  have keys: "map (p_id \<circ> snd) (st_positions st) = map fst (st_positions st)"
  proof (rule map_cong [OF refl])
    fix x assume x: "x \<in> set (st_positions st)"
    have "distinct (map fst (st_positions st))" using assms by (simp add: store_ok_def positions_ok_def)
    with x have "ps_get st (fst x) = Some (snd x)" by (simp add: ps_get_def)
    with store_ok_well_keyed [OF assms] show "(p_id \<circ> snd) x = fst x" by (simp add: well_keyed_def)
  qed
  define xs where "xs = map snd (st_positions st)"
  have "distinct (map p_id xs)"
    using assms unfolding xs_def map_map keys by (simp add: store_ok_def positions_ok_def)
  then have "distinct xs" "inj_on p_id (set xs)" by (simp_all add: distinct_map)
  then have "distinct (map p_id (sort_key p_updated_at (filter P xs)))" for P
    by (auto simp: distinct_map distinct_sort intro: inj_on_subset)
  then show ?thesis unfolding kill_targets_def list_pending_executions_def xs_def
    by (intro distinct_map_filter) (simp add: take_map [symmetric] distinct_take)
qed

lemma kill_switch_off_result:
  "\<exists>persisted errors s'. kill_switch_off env s = (Inr (persisted, errors), s') \<and> \<not> ct_entry s' \<and> ct_pos s' = ct_pos s \<and>
     ct_armed s' = ct_armed s \<and> ct_cancels s' = ct_cancels s \<and> rk_row (ct_risk s') = rk_row (ct_risk s) \<and>
     (ce_switch_error env = None \<longrightarrow> \<not> entries_enabled (ct_risk s'))"
  by (auto simp: kill_switch_off_def persist_switch_def set_entries_enabled_def entries_enabled_def Let_def
      split: option.split sum.split)

lemma kill_report_result:
  "\<exists>r s'. kill_report env b n k s = (Inr r, s') \<and> ct_entry s' = ct_entry s \<and> ct_pos s' = ct_pos s \<and> ct_armed s' = ct_armed s \<and>
     ct_cancels s' = ct_cancels s \<and> ct_risk s' = ct_risk s \<and> cr_pending r = n"
  by (auto simp: kill_report_def control_audit_def Let_def split: option.split)

lemma kill_entries_split:
  assumes "kill_entries env s = (r, s')"
  obtains persisted errors s1 r2 s2 where
    "kill_switch_off env s = (Inr (persisted, errors), s1)"
    "foldS (kill_entry env) (kill_targets (ct_pos s))
       \<lparr>kc_requested = 0, kc_already_requested = 0, kc_already_terminal = 0, kc_unresolved = 0, kc_errors = errors\<rparr> s1 = (r2, s2)"
    "(\<exists>e. r2 = Inl e \<and> r = Inl e \<and> s' = s2) \<or> (\<exists>k. r2 = Inr k \<and> kill_report env persisted (length (kill_targets (ct_pos s))) k s2 = (r, s'))"
proof -
  obtain persisted errors s1 where s1: "kill_switch_off env s = (Inr (persisted, errors), s1)" "ct_pos s1 = ct_pos s"
    using kill_switch_off_result [of env s] by blast
  obtain r2 s2 where f: "foldS (kill_entry env) (kill_targets (ct_pos s))
      \<lparr>kc_requested = 0, kc_already_requested = 0, kc_already_terminal = 0, kc_unresolved = 0, kc_errors = errors\<rparr> s1 = (r2, s2)"
    by (cases "foldS (kill_entry env) (kill_targets (ct_pos s))
      \<lparr>kc_requested = 0, kc_already_requested = 0, kc_already_terminal = 0, kc_unresolved = 0, kc_errors = errors\<rparr> s1")
  have "(\<exists>e. r2 = Inl e \<and> r = Inl e \<and> s' = s2) \<or> (\<exists>k. r2 = Inr k \<and> kill_report env persisted (length (kill_targets (ct_pos s))) k s2 = (r, s'))"
    using assms s1 f by (cases r2) (auto simp: kill_entries_def bindS_def)
  then show ?thesis by (rule that [OF s1(1) f])
qed

text \<open>C20: The kill switch always switches off. Whatever the exchange answers, and even when a step
  raises, afterwards the process refuses entry orders, the stored switch is off unless the database
  could not store it, and the limits themselves, the status, the quantities and the entry price of
  every position are as they were.\<close>

theorem kill_entries_disables:
  assumes "kill_entries env s = (r, s')" and "store_ok (ct_pos s)"
  shows "\<not> entry_order_placement_enabled s' \<and> (ce_switch_error env = None \<longrightarrow> \<not> entries_enabled (ct_risk s')) \<and>
    rk_row (ct_risk s') = rk_row (ct_risk s) \<and> unit_view (ct_pos s') = unit_view (ct_pos s)"
  using assms(1)
proof (rule kill_entries_split)
  fix persisted errors s1 r2 s2
  let ?k0 = "\<lparr>kc_requested = 0, kc_already_requested = 0, kc_already_terminal = 0, kc_unresolved = 0, kc_errors = errors\<rparr>"
  assume off: "kill_switch_off env s = (Inr (persisted, errors), s1)" and f: "foldS (kill_entry env) (kill_targets (ct_pos s)) ?k0 s1 = (r2, s2)"
    and e: "(\<exists>e. r2 = Inl e \<and> r = Inl e \<and> s' = s2) \<or> (\<exists>k. r2 = Inr k \<and> kill_report env persisted (length (kill_targets (ct_pos s))) k s2 = (r, s'))"
  have s1: "\<not> ct_entry s1" "ct_pos s1 = ct_pos s" "rk_row (ct_risk s1) = rk_row (ct_risk s)" "ce_switch_error env = None \<longrightarrow> \<not> entries_enabled (ct_risk s1)"
    using kill_switch_off_result [of env s] off by auto
  have "kill_run env (kill_targets (ct_pos s)) s1 s2"
    by (rule kill_fold_run [OF f]) (use assms(2) kill_targets_known store_ok_well_keyed in \<open>auto simp: known_unit_def unit_view_def s1(2)\<close>)
  moreover have "ct_entry s' = ct_entry s2 \<and> ct_risk s' = ct_risk s2 \<and> ct_pos s' = ct_pos s2"
    using e kill_report_result [of env persisted "length (kill_targets (ct_pos s))" _ s2] by (metis prod.inject)
  ultimately show ?thesis using s1 by (simp add: kill_run_def entry_order_placement_enabled_def)
qed

text \<open>C21: The kill switch cancels entries and only entries. Every cancellation that it sends is for an
  order of a pending entry, recorded in its row or reported by the exchange for its client order
  identity; and when the run reports, every targeted entry with a recorded order that has no earlier
  request was asked to be cancelled. The targets are the pending entries among the first 500 active
  positions with an order. Status, quantities and entry price of every position stay as they were.\<close>

theorem kill_cancels_only_entries:
  assumes "kill_entries env s = (r, s')" and "store_ok (ct_pos s)"
  shows "(\<exists>sent. ct_cancels s' = ct_cancels s @ sent \<and>
      (\<forall>(i, oid)\<in>set sent. \<exists>p. ps_get (ct_pos s) (p_id p) = Some p \<and> p_status p = PendingOpen \<and> i = p_inst_id p \<and> entry_order env p oid)) \<and>
    unit_view (ct_pos s') = unit_view (ct_pos s) \<and>
    (\<forall>report. r = Inr report \<longrightarrow> cr_pending report = length (kill_targets (ct_pos s)) \<and>
      (\<forall>p\<in>set (kill_targets (ct_pos s)). open_order p s \<longrightarrow> (p_inst_id p, p_exchange_order_id p) \<in> set (ct_cancels s')))"
  using assms(1)
proof (rule kill_entries_split)
  fix persisted errors s1 r2 s2
  let ?k0 = "\<lparr>kc_requested = 0, kc_already_requested = 0, kc_already_terminal = 0, kc_unresolved = 0, kc_errors = errors\<rparr>"
  let ?ps = "kill_targets (ct_pos s)"
  assume off: "kill_switch_off env s = (Inr (persisted, errors), s1)" and f: "foldS (kill_entry env) ?ps ?k0 s1 = (r2, s2)"
    and e: "(\<exists>e. r2 = Inl e \<and> r = Inl e \<and> s' = s2) \<or> (\<exists>k. r2 = Inr k \<and> kill_report env persisted (length ?ps) k s2 = (r, s'))"
  have s1: "ct_pos s1 = ct_pos s" "ct_cancels s1 = ct_cancels s" using kill_switch_off_result [of env s] off by auto
  note targets = kill_targets_known [OF assms(2)]
  have known: "\<forall>p\<in>set ?ps. known_unit p s1"
    using targets store_ok_well_keyed [OF assms(2)] by (auto simp: known_unit_def unit_view_def s1(1))
  have "kill_run env ?ps s1 s2" by (rule kill_fold_run [OF f known])
  then have view: "unit_view (ct_pos s2) = unit_view (ct_pos s)" by (simp add: kill_run_def s1(1))
  from kill_fold_run [OF f known] obtain sent where sent: "ct_cancels s2 = ct_cancels s @ sent"
    "\<forall>(i, oid)\<in>set sent. \<exists>p\<in>set ?ps. i = p_inst_id p \<and> entry_order env p oid"
    by (auto simp: kill_run_def s1(2))
  have same: "ct_cancels s' = ct_cancels s2" "ct_pos s' = ct_pos s2" and pending: "\<And>report. r = Inr report \<Longrightarrow> (\<exists>k. r2 = Inr k) \<and> cr_pending report = length ?ps"
    using e kill_report_result [of env persisted "length ?ps" _ s2] by (metis prod.inject Inl_Inr_False sum.inject(2))+
  have asked: "(p_inst_id p, p_exchange_order_id p) \<in> set (ct_cancels s2)" if "r2 = Inr k" "p \<in> set ?ps" "open_order p s" for k p
    using kill_fold_requests [OF f [unfolded that(1)] known kill_targets_distinct [OF assms(2)] that(2)] that(3) open_order_kept [of s1 p s] s1(1)
    by simp
  have "\<forall>(i, oid)\<in>set sent. \<exists>p. ps_get (ct_pos s) (p_id p) = Some p \<and> p_status p = PendingOpen \<and> i = p_inst_id p \<and> entry_order env p oid"
    using sent(2) targets by fast
  moreover have "ct_cancels s' = ct_cancels s @ sent" using same sent(1) by simp
  moreover have "unit_view (ct_pos s') = unit_view (ct_pos s)" using same(2) view by simp
  moreover have "cr_pending report = length ?ps \<and>
      (\<forall>p\<in>set ?ps. open_order p s \<longrightarrow> (p_inst_id p, p_exchange_order_id p) \<in> set (ct_cancels s'))" if "r = Inr report" for report
    using pending [OF that] asked same by auto
  ultimately show ?thesis by blast
qed

lemma switch_back_result:
  "case switch_back env e s of (r, s') \<Rightarrow> is_ok r = False \<and> \<not> entry_order_placement_enabled s' \<and>
     (ce_switch_error env = None \<longrightarrow> \<not> entries_enabled (ct_risk s'))"
  by (auto simp: switch_back_def bindS_def disable_entry_order_placement_def persist_switch_def set_entries_enabled_def liftS_def
      entries_enabled_def entry_order_placement_enabled_def Let_def split: option.split sum.split)

lemma switch_on_result:
  assumes "switch_on env s = (Inr r, s')"
  shows "ct_armed s \<and> entry_order_placement_enabled s' \<and> ct_risk s' = ct_risk s\<lparr>rk_entries := Some True\<rparr>"
  using assms
  by (auto simp: switch_on_def result_simps enable_entry_order_placement_def persist_switch_def set_entries_enabled_def Let_def
      control_audit_def entry_order_placement_enabled_def split: if_splits option.splits)

text \<open>Enabling entries is all or nothing. It succeeds only in an armed process with enabled limits,
  and then both switches are on; any failure after the limits were read leaves the process switch off,
  and the stored one off unless the database cannot store it; a refusal for missing or disabled
  limits changes nothing.\<close>

theorem enable_entries_all_or_nothing:
  "case enable_entries env s of
     (Inr r, s') \<Rightarrow> ct_armed s \<and> entry_order_placement_enabled s' \<and> entries_enabled (ct_risk s') \<and>
       (\<exists>l. get_limits (ct_risk s') = Inr (Some l) \<and> rl_enabled l \<and> rl_entries_enabled l)
   | (Inl e, s') \<Rightarrow> s' = s \<or>
       (\<not> entry_order_placement_enabled s' \<and> (ce_switch_error env = None \<longrightarrow> \<not> entries_enabled (ct_risk s')))"
proof (cases "get_limits (ct_risk s)")
  case (Inl e)
  then show ?thesis by (simp add: enable_entries_def)
next
  case (Inr limits)
  show ?thesis
  proof (cases "case limits of None \<Rightarrow> True | Some l \<Rightarrow> \<not> rl_enabled l")
    case True
    with Inr show ?thesis by (simp add: enable_entries_def)
  next
    case False
    then obtain l where l: "limits = Some l" "rl_enabled l" by (cases limits) simp_all
    have en: "enable_entries env s = (case switch_on env s of (Inr r, s') \<Rightarrow> (Inr r, s') | (Inl e, s') \<Rightarrow> switch_back env e s')"
      using Inr l by (simp add: enable_entries_def)
    obtain r s' where on: "switch_on env s = (r, s')" by (cases "switch_on env s")
    show ?thesis
    proof (cases r)
      case (Inl e)
      obtain r2 s2 where undo: "switch_back env e s' = (r2 :: control_result result, s2)" by (cases "switch_back env e s' :: control_result result \<times> control_state")
      with switch_back_result [of env e s'] obtain e2 where "r2 = Inl e2" "\<not> entry_order_placement_enabled s2"
        "ce_switch_error env = None \<longrightarrow> \<not> entries_enabled (ct_risk s2)" by (cases r2) auto
      with Inl on en undo show ?thesis by simp
    next
      case r: (Inr report)
      have "get_limits (ct_risk s\<lparr>rk_entries := Some True\<rparr>) = Inr (Some (l\<lparr>rl_entries_enabled := True\<rparr>))"
        using Inr l by (auto simp: get_limits_def read_limits_def result_simps split: option.splits)
      then show ?thesis using switch_on_result [of env s report s'] on r en l by (auto simp: entries_enabled_def)
    qed
  qed
qed

subsection \<open>A sample run\<close>

definition waiting_unit :: "string \<Rightarrow> string \<Rightarrow> position" where
  "waiting_unit i oid = sample_unit i 1\<lparr>p_opened := None, p_remaining := None, p_status := PendingOpen, p_exchange_order_id := oid,
     p_client_order_id := ''c'' @ i, p_metadata := dumps [(''order_action'', JStr ''open'')]\<rparr>"

definition sample_control_env :: control_env where
  "sample_control_env = \<lparr>ce_now = ''t1'', ce_fresh = ''u1'', ce_get_order = (\<lambda>i c. Inr [[(''ordId'', JStr ''o9''), (''state'', JStr ''live'')]]),
     ce_cancel_order = (\<lambda>i oid. Inr [(''sCode'', JStr ''0'')]), ce_switch_error = None, ce_audit_error = None\<rparr>"

definition sample_control :: "position list \<Rightarrow> (string, order_link) table \<Rightarrow> control_state" where
  "sample_control ps orders = \<lparr>ct_risk = sample_limits, ct_pos = (fold put_position ps empty_store)\<lparr>st_orders := orders\<rparr>,
     ct_audit = \<lparr>ad_events = [], ad_cursors = [], ad_acks = [], ad_health = [], ad_quarantine = []\<rparr>, ct_armed = True, ct_entry = True, ct_cancels = []\<rparr>"

lemma sample_control_ok: "store_ok (ct_pos (sample_control [waiting_unit ''p1'' ''o1''] []))"
proof -
  have "store_ok (put_position (waiting_unit ''p1'' ''o1'') empty_store)"
    by (rule put_position_ok [OF empty_store_ok])
      (simp_all add: quantities_ok_def waiting_unit_def sample_unit_def client_taken_def empty_store_def)
  then show ?thesis by (simp add: sample_control_def empty_store_def put_position_def)
qed

lemma sample_kill:
  obtains r s' where "kill_entries sample_control_env (sample_control [waiting_unit ''p1'' ''o1''] []) = (Inr r, s')"
proof -
  have "is_ok (fst (kill_entries sample_control_env (sample_control [waiting_unit ''p1'' ''o1''] [])))" by code_simp
  then show ?thesis using that by (cases "kill_entries sample_control_env (sample_control [waiting_unit ''p1'' ''o1''] [])") (auto simp: is_ok_iff)
qed

theorem kill_entries_disables_witness:
  "\<exists>r s'. kill_entries sample_control_env (sample_control [waiting_unit ''p1'' ''o1''] []) = (Inr r, s') \<and>
     \<not> entry_order_placement_enabled s' \<and> \<not> entries_enabled (ct_risk s')"
proof -
  obtain r s' where k: "kill_entries sample_control_env (sample_control [waiting_unit ''p1'' ''o1''] []) = (Inr r, s')" by (rule sample_kill)
  have "ce_switch_error sample_control_env = None" by (simp add: sample_control_env_def)
  with kill_entries_disables [OF k sample_control_ok] k show ?thesis by blast
qed

theorem kill_cancels_only_entries_witness:
  "\<exists>r s'. kill_entries sample_control_env (sample_control [waiting_unit ''p1'' ''o1''] []) = (Inr r, s') \<and>
     cr_pending r = 1 \<and> (''BTC-USDT-SWAP'', ''o1'') \<in> set (ct_cancels s')"
proof -
  let ?s = "sample_control [waiting_unit ''p1'' ''o1''] []"
  obtain r s' where k: "kill_entries sample_control_env ?s = (Inr r, s')" by (rule sample_kill)
  have t: "kill_targets (ct_pos ?s) = [waiting_unit ''p1'' ''o1'']" by code_simp
  have "open_order (waiting_unit ''p1'' ''o1'') ?s" by code_simp
  with kill_cancels_only_entries [OF k sample_control_ok] k show ?thesis
    unfolding t by (auto simp: waiting_unit_def sample_unit_def)
qed

theorem enable_entries_all_or_nothing_witness:
  "\<exists>r s'. enable_entries sample_control_env (sample_control [] []) = (Inr r, s') \<and> entry_order_placement_enabled s' \<and> entries_enabled (ct_risk s')"
proof -
  have "is_ok (fst (enable_entries sample_control_env (sample_control [] [])))" by code_simp
  then show ?thesis using enable_entries_all_or_nothing [where env = sample_control_env and s = "sample_control [] []"]
    by (auto simp: is_ok_iff split: prod.splits)
qed

text \<open>A conflict stops the kill switch. The store's refusal to link a recovered order is not caught:
  when the exchange reports for one pending entry an order that is linked to another position, the run
  raises and the pending entries after it are not asked to be cancelled, although their orders are
  known.\<close>

theorem conflict_aborts_kill:
  "\<exists>e s'. kill_entries sample_control_env (sample_control [waiting_unit ''p1'' [], waiting_unit ''p2'' ''o2'']
       [(''o9'', \<lparr>ol_position_id = ''p0'', ol_client_order_id = ''c0'', ol_action = AOpen, ol_metadata = dumps [], ol_created_at = ''t0''\<rparr>)])
     = (Inl (AllocationConflictError e), s') \<and> ct_cancels s' = []"
proof -
  have "case kill_entries sample_control_env (sample_control [waiting_unit ''p1'' [], waiting_unit ''p2'' ''o2'']
       [(''o9'', \<lparr>ol_position_id = ''p0'', ol_client_order_id = ''c0'', ol_action = AOpen, ol_metadata = dumps [], ol_created_at = ''t0''\<rparr>)]) of
      (Inl (AllocationConflictError e), s') \<Rightarrow> ct_cancels s' = [] | _ \<Rightarrow> False" by code_simp
  then show ?thesis by (auto split: prod.splits sum.splits py_exc.splits)
qed

end
