(* ===== verification/PositionProtection.thy ===== *)
theory PositionProtection
  imports EntryControl InstrumentConstraints
begin

section \<open>Exchange-side stops of the logical positions\<close>

text \<open>
  \<^verbatim>\<open>src/trading/position_protection.py\<close>: one stop order on the exchange for each logical
  position, created, amended, verified and cancelled by the service. The exchange is a state of an
  arbitrary type on which every call of the client acts, so that two queries of one operation may
  differ; a call may raise. A database that fails to store an audit event of some type, or the entry
  switch, is part of the environment; so are the clock, fresh identifiers and the hexadecimal SHA-256
  digest. The lock makes every operation one step.
\<close>

subsection \<open>State, client and environment\<close>

record 'x guard_state =
  gd_pos :: store
  gd_audit :: audit_db
  gd_risk :: risk_db
  gd_entry :: bool
  gd_okx :: 'x

record 'x stop_client =
  sc_algos :: "string \<Rightarrow> string \<Rightarrow> ('x, jobj list) action"
  sc_algos_untyped :: "string \<Rightarrow> ('x, jobj list) action"
  sc_positions :: "('x, jobj list) action"
  sc_instruments :: "string \<Rightarrow> ('x, jobj list) action"
  sc_ticker :: "string \<Rightarrow> ('x, jobj list) action"
  sc_amend :: "string \<Rightarrow> string \<Rightarrow> string \<Rightarrow> string \<Rightarrow> ('x, unit) action"
  sc_place :: "string \<Rightarrow> string \<Rightarrow> string \<Rightarrow> string \<Rightarrow> string \<Rightarrow> ('x, jobj) action"
  sc_cancel :: "string \<Rightarrow> string \<Rightarrow> ('x, unit) action"

record guard_env =
  pe_now :: string
  pe_fresh :: string
  pe_digest :: "string \<Rightarrow> string"
  pe_audit_error :: "string \<Rightarrow> py_exc option"
  pe_switch_error :: "py_exc option"

type_synonym ('x, 'a) guard = "('x guard_state, 'a) action"

definition okx :: "('x, 'a) action \<Rightarrow> ('x, 'a) guard" where
  "okx m s = (case m (gd_okx s) of (r, x) \<Rightarrow> (r, s\<lparr>gd_okx := x\<rparr>))"

definition on_units :: "(store \<Rightarrow> 'a tx) \<Rightarrow> ('x, 'a) guard" where
  "on_units m s = (case m (gd_pos s) of (r, st) \<Rightarrow> (r, s\<lparr>gd_pos := st\<rparr>))"

definition units :: "(store \<Rightarrow> 'a) \<Rightarrow> ('x, 'a) guard" where
  "units f s = (Inr (f (gd_pos s)), s)"

definition guard_audit :: "guard_env \<Rightarrow> string \<Rightarrow> jobj \<Rightarrow> ('x, unit) guard" where
  "guard_audit env event_type payload s =
     (case pe_audit_error env event_type of
        Some e \<Rightarrow> (Inl e, s)
      | None \<Rightarrow> (Inr (), s\<lparr>gd_audit := snd (create_event (pe_now env) (pe_fresh env) event_type ''position_protection'' payload [] []
          (gd_audit s))\<rparr>))"

text \<open>\<^verbatim>\<open>with store.transaction()\<close>: an exception takes the store back.\<close>

definition atomically :: "('x, 'a) guard \<Rightarrow> ('x, 'a) guard" where
  "atomically m s = (case m s of (Inl e, s') \<Rightarrow> (Inl e, s'\<lparr>gd_pos := gd_pos s\<rparr>) | (Inr x, s') \<Rightarrow> (Inr x, s'))"

definition unprotected :: "string \<Rightarrow> ('x, 'a) guard" where
  "unprotected message = liftS (Inl (PositionProtectionError message))"

definition ensure :: "bool \<Rightarrow> string \<Rightarrow> ('x, unit) guard" where
  "ensure b message = (if b then returnS () else unprotected message)"

definition present :: "'a option \<Rightarrow> string \<Rightarrow> ('x, 'a) guard" where
  "present found message = (case found of None \<Rightarrow> unprotected message | Some v \<Rightarrow> returnS v)"

subsection \<open>Comparing prices and orders\<close>

definition same_decimal :: "json \<Rightarrow> json \<Rightarrow> bool" where
  "same_decimal left right =
     (case (dec_of_json left, dec_of_json right) of
        (Some a, Some b) \<Rightarrow> (dec_finite a \<and> dec_finite b \<and> dec_val a = dec_val b) \<or> (\<not> dec_finite a \<and> a = b \<and> a \<noteq> DNaN)
      | _ \<Rightarrow> False)"

definition protective_stop_is_looser :: "string \<Rightarrow> json \<Rightarrow> json \<Rightarrow> bool result" where
  "protective_stop_is_looser side candidate confirmed =
     (case (dec_of_json candidate, dec_of_json confirmed) of
        (Some a, Some b) \<Rightarrow>
          if \<not> dec_finite a \<or> \<not> dec_finite b then Inl (PositionProtectionError ''protective stop price is invalid'')
          else if side = ''long'' then Inr (dec_val a < dec_val b)
          else if side = ''short'' then Inr (dec_val b < dec_val a)
          else Inl (PositionProtectionError ''logical position side must be long or short'')
      | _ \<Rightarrow> Inl (PositionProtectionError ''protective stop price is invalid''))"

definition failed_checks :: "(string \<times> bool) list \<Rightarrow> string list" where
  "failed_checks checks = map fst (filter (\<lambda>(_, passed). \<not> passed) checks)"

definition check_all :: "string \<Rightarrow> (string \<times> bool) list \<Rightarrow> unit result" where
  "check_all message checks =
     (if failed_checks checks \<noteq> [] then Inl (PositionProtectionError (message @ intersperse '', '' (failed_checks checks))) else Inr ())"

lemma check_all_Inr [result_simps]: "check_all m checks = Inr u \<longleftrightarrow> list_all snd checks"
  by (simp add: check_all_def failed_checks_def list_all_iff filter_empty_conv split_beta)

definition stop_proof :: "string \<Rightarrow> string \<Rightarrow> string \<Rightarrow> json \<Rightarrow> json \<Rightarrow> string \<Rightarrow> string \<Rightarrow> jobj" where
  "stop_proof kind algo_id algo_client_id quantity stop trigger_type now =
     [(''type'', JStr kind), (''algo_id'', JStr algo_id), (''algo_client_order_id'', JStr algo_client_id),
      (''quantity'', JStr (py_str quantity)), (''stop_loss'', JStr (py_str stop)), (''trigger_price_type'', JStr trigger_type),
      (''verified_at'', JStr now)]"

definition standalone_checks :: "jobj \<Rightarrow> position \<Rightarrow> string \<Rightarrow> (string \<times> bool) list" where
  "standalone_checks order p algo_client_id =
     [(''algo client ID'', text_of (jget order ''algoClOrdId'') = algo_client_id),
      (''instrument'', text_of (jget order ''instId'') = p_inst_id p),
      (''side'', py_lower (text_of (jget order ''side'')) = expected_side p),
      (''order type'', py_lower (text_of (jget order ''ordType'')) = ''conditional''),
      (''state'', py_lower (text_of (jget order ''state'')) = ''live''),
      (''position side'', py_lower (text_of (jget order ''posSide'')) = ''net''),
      (''reduce only'', py_lower (text_of (jget order ''reduceOnly'')) = ''true'')]"

definition price_checks :: "jobj \<Rightarrow> json \<Rightarrow> json \<Rightarrow> (string \<times> bool) list" where
  "price_checks order quantity stop =
     [(''size'', same_decimal (jget order ''sz'') quantity),
      (''stop trigger'', same_decimal (jget order ''slTriggerPx'') stop),
      (''stop order price'', text_of (jget order ''slOrdPx'') = ''-1'')]"

definition verify_pending :: "guard_env \<Rightarrow> jobj option \<Rightarrow> position \<Rightarrow> json \<Rightarrow> json \<Rightarrow> string \<Rightarrow> jobj result" where
  "verify_pending env found p quantity stop algo_client_id =
     (case found of
        None \<Rightarrow> Inl (PositionProtectionError ''OKX does not report the stop as pending'')
      | Some order \<Rightarrow>
          bindE (check_all ''OKX pending stop verification failed: '' (standalone_checks order p algo_client_id @ price_checks order quantity stop)) (\<lambda>_.
          let algo_id = text_of (jget order ''algoId'') in
          if algo_id = [] then Inl (PositionProtectionError ''OKX pending stop is missing algoId'')
          else Inr (stop_proof ''standalone_stop'' algo_id algo_client_id quantity stop ''last'' (pe_now env))))"

definition verify_for_kind :: "guard_env \<Rightarrow> jobj option \<Rightarrow> position \<Rightarrow> json \<Rightarrow> json \<Rightarrow> string \<Rightarrow> prot_kind \<Rightarrow> jobj result" where
  "verify_for_kind env found p quantity stop algo_client_id kind =
     (if kind = StandaloneStop then verify_pending env found p quantity stop algo_client_id
      else (case found of
          None \<Rightarrow> Inl (PositionProtectionError ''OKX does not report the stop as pending'')
        | Some order \<Rightarrow>
            bindE (check_all ''OKX attached protection verification failed: ''
              ([(''algo client ID'', text_of (jget order ''algoClOrdId'') = algo_client_id),
                (''instrument'', text_of (jget order ''instId'') = p_inst_id p),
                (''state'', py_lower (text_of (jget order ''state'')) = ''live'')] @
               price_checks order quantity stop @
               [(''algo ID'', text_of (jget order ''algoId'') \<noteq> [])])) (\<lambda>_.
            Inr (stop_proof ''attached_stop'' (text_of (jget order ''algoId'')) algo_client_id quantity stop
              (py_str (py_or (jget order ''slTriggerPxType'') (JStr ''last''))) (pe_now env)))))"

definition verify_identity :: "jobj \<Rightarrow> position \<Rightarrow> string \<Rightarrow> unit result" where
  "verify_identity order p algo_client_id =
     check_all ''existing OKX stop cannot be safely amended: ''
       (standalone_checks order p algo_client_id @ [(''algo ID'', text_of (jget order ''algoId'') \<noteq> [])])"

definition find_pending :: "jobj list \<Rightarrow> string \<Rightarrow> jobj option result" where
  "find_pending orders algo_client_id =
     (case filter (\<lambda>order. text_of (jget order ''algoClOrdId'') = algo_client_id) orders of
        [] \<Rightarrow> Inr None
      | [order] \<Rightarrow> Inr (Some order)
      | _ \<Rightarrow> Inl (PositionProtectionError ''OKX returned duplicate protection algo orders''))"

definition algo_client_id_of :: "guard_env \<Rightarrow> string \<Rightarrow> string" where
  "algo_client_id_of env position_id = ''mbp'' @ take 29 (pe_digest env position_id)"

definition normalize_stop_expression :: "position \<Rightarrow> jobj \<Rightarrow> jobj result" where
  "normalize_stop_expression p expression =
     (let expected_type = (if p_side p = ''long'' then ''price_below'' else ''price_above'') in
      if p_side p \<noteq> ''long'' \<and> p_side p \<noteq> ''short'' then Inl (PositionProtectionError ''logical position side must be long or short'')
      else if jget expression ''type'' \<noteq> JStr expected_type
      then Inl (PositionProtectionError (p_side p @ '' stop_loss must use '' @ expected_type))
      else if text_of (jget expression ''symbol'') \<noteq> ''self'' \<and> text_of (jget expression ''symbol'') \<noteq> p_inst_id p
      then Inl (PositionProtectionError ''stop_loss symbol must be self or the position instrument'')
      else (case dec_of_json (jget expression ''value'') of
          None \<Rightarrow> Inl (PositionProtectionError ''stop_loss value must be numeric'')
        | Some stop \<Rightarrow>
            if \<not> dec_finite stop \<or> dec_val stop \<le> 0 then Inl (PositionProtectionError ''stop_loss value must be positive'')
            else Inr (tset ''symbol'' (JStr (p_inst_id p)) expression)))"

text \<open>\<^verbatim>\<open>float(Decimal(text))\<close> of a text that \<^verbatim>\<open>decimal_string\<close> has made.\<close>

definition text_number :: "string \<Rightarrow> rat" where
  "text_number s = (case dec_of_str s of Some d \<Rightarrow> float_decimal (dec_val d) | None \<Rightarrow> 0)"

subsection \<open>Reading the exchange and the store\<close>

definition pending_orders :: "'x stop_client \<Rightarrow> string \<Rightarrow> ('x, jobj list) guard" where
  "pending_orders client inst_id =
     bindS (catchS
       (bindS (okx (sc_algos client inst_id ''conditional'')) (\<lambda>xs.
        bindS (okx (sc_algos client inst_id ''oco'')) (\<lambda>ys. returnS (xs @ ys))))
       (\<lambda>e. if e = TypeError then okx (sc_algos_untyped client inst_id) else liftS (Inl e))) (\<lambda>orders.
     returnS (map snd (fold add_algo orders [])))"

definition find_order :: "'x stop_client \<Rightarrow> string \<Rightarrow> string \<Rightarrow> ('x, jobj option) guard" where
  "find_order client inst_id algo_client_id =
     bindS (pending_orders client inst_id) (\<lambda>pending. liftS (find_pending pending algo_client_id))"

definition constraints_of :: "'x stop_client \<Rightarrow> string \<Rightarrow> ('x, instrument_constraints) guard" where
  "constraints_of client inst_id =
     bindS (okx (sc_instruments client inst_id)) (\<lambda>payloads.
     case payloads of
       [payload] \<Rightarrow>
         bindS (liftS (constraints_from_okx payload)) (\<lambda>ic.
         bindS (ensure (ic_inst_id ic = inst_id) ''OKX instrument response does not match position'') (\<lambda>_.
         bindS (liftS (validate_tradable ic)) (\<lambda>_. returnS ic)))
     | _ \<Rightarrow> unprotected (''expected one OKX instrument for '' @ inst_id @ '', got '' @ show_int (int (length payloads))))"

definition enabled_stops :: "store \<Rightarrow> string \<Rightarrow> condition list" where
  "enabled_stops st pid = filter (\<lambda>c. c_purpose c = ''stop_loss'') (list_close_conditions st pid (Some True))"

definition stop_candidate :: "position \<Rightarrow> condition \<Rightarrow> pyfloat option" where
  "stop_candidate p c =
     (let expression = col_obj (c_expression c); expected_type = (if p_side p = ''long'' then ''price_below'' else ''price_above'') in
      if c_purpose c \<noteq> ''stop_loss'' \<or> jget expression ''type'' \<noteq> JStr expected_type \<or> jget expression ''symbol'' \<noteq> JStr (p_inst_id p) then None
      else (case py_float (jget expression ''value'') of
          Inr v \<Rightarrow> if fl_lt (PFin 0) v then Some v else None | Inl _ \<Rightarrow> None))"

definition stop_price :: "store \<Rightarrow> position \<Rightarrow> pyfloat result" where
  "stop_price st p =
     (case List.map_filter (stop_candidate p) (list_close_conditions st (p_id p) (Some True)) of
        [v] \<Rightarrow> Inr v
      | _ \<Rightarrow> Inl (PositionProtectionError ''exactly one enabled side-consistent price stop_loss is required''))"

subsection \<open>Consistency of the stored claims\<close>

definition applied_stop :: "jobj \<Rightarrow> string \<Rightarrow> (string \<times> json) list" where
  "applied_stop metadata key =
     (case jget metadata key of
        JObj state \<Rightarrow> if jget state ''status'' = JStr ''applied'' then [(''break-even'', jget state ''target_stop'')] else []
      | _ \<Rightarrow> [])"

definition claimed_by :: "condition \<Rightarrow> (string \<times> json) list" where
  "claimed_by c =
     (let metadata = col_obj (c_metadata c) in
      if c_purpose c = ''break_even'' then applied_stop metadata ''break_even_state''
      else if c_purpose c = ''trailing''
      then (case jget metadata ''trailing_state'' of
          JObj state \<Rightarrow> if jget state ''last_applied_stop'' \<noteq> JNull then [(''trailing'', jget state ''last_applied_stop'')] else []
        | _ \<Rightarrow> [])
      else [])"

definition claimed_stops :: "store \<Rightarrow> string \<Rightarrow> condition \<Rightarrow> (string \<times> json) list" where
  "claimed_stops st pid stop_condition =
     applied_stop (col_obj (c_metadata stop_condition)) ''break_even'' @ concat (map claimed_by (list_close_conditions st pid None))"

definition check_claim :: "position \<Rightarrow> rat \<Rightarrow> string \<times> json \<Rightarrow> unit result" where
  "check_claim p confirmed_stop = (\<lambda>(label, claim).
     if dec_of_json claim = None then Inl (PositionProtectionError (''persisted '' @ label @ '' stop evidence is invalid''))
     else bindE (protective_stop_is_looser (p_side p) (JFloat (PFin confirmed_stop)) claim) (\<lambda>looser.
       if looser then Inl (PositionProtectionError (''confirmed exchange protection is looser than applied '' @ label @ '' state''))
       else Inr ()))"

definition verify_persisted_stop_claims :: "store \<Rightarrow> position \<Rightarrow> protection \<Rightarrow> unit result" where
  "verify_persisted_stop_claims st p pr =
     (case enabled_stops st (p_id p) of
        [c] \<Rightarrow>
          (let rule_stop = jget (col_obj (c_expression c)) ''value'' in
           if dec_of_json rule_stop = None then Inl (PositionProtectionError ''persisted stop evidence is invalid'')
           else if \<not> same_decimal rule_stop (JFloat (PFin (pr_stop_loss pr)))
           then Inl (PositionProtectionError ''persisted stop rule does not match confirmed exchange protection'')
           else bindE (mapE (check_claim p (pr_stop_loss pr)) (claimed_stops st (p_id p) c)) (\<lambda>_. Inr ()))
      | _ \<Rightarrow> Inl (PositionProtectionError ''confirmed protection requires exactly one enabled stop_loss condition''))"

definition active_unit :: "position \<Rightarrow> bool" where
  "active_unit p \<longleftrightarrow> p_status p \<in> {Open, Reducing, Closing}"

fun status_name :: "prot_status \<Rightarrow> string" where
  "status_name PActive = ''active''"
| "status_name PAmending = ''amending''"
| "status_name PCanceling = ''canceling''"
| "status_name PCanceled = ''canceled''"
| "status_name PTriggered = ''triggered''"
| "status_name PExhausted = ''exhausted''"
| "status_name PFailed = ''failed''"

subsection \<open>Verifying an active stop\<close>

definition verify_active :: "'x stop_client \<Rightarrow> guard_env \<Rightarrow> string \<Rightarrow> ('x, protection) guard" where
  "verify_active client env position_id =
     bindS (units (\<lambda>st. ps_get st position_id)) (\<lambda>found.
     bindS (units (\<lambda>st. get_protection st position_id)) (\<lambda>owned.
     bindS (present found ''logical position not found'') (\<lambda>p.
     bindS (present owned ''logical position has no owned protection'') (\<lambda>pr.
     bindS (ensure (pr_status pr = PActive) (''protection is '' @ status_name (pr_status pr))) (\<lambda>_.
     bindS (ensure (0 < unit_quantity p \<and> pr_quantity pr = unit_quantity p)
       ''owned protection quantity does not match remaining logical quantity'') (\<lambda>_.
     bindS (find_order client (p_inst_id p) (pr_algo_client_order_id pr)) (\<lambda>order.
     bindS (liftS (verify_for_kind env order p (JFloat (PFin (pr_quantity pr))) (JFloat (PFin (pr_stop_loss pr)))
       (pr_algo_client_order_id pr) (pr_kind pr))) (\<lambda>_.
     bindS (units (\<lambda>st. verify_persisted_stop_claims st p pr)) (\<lambda>claims.
     bindS (liftS claims) (\<lambda>_. returnS pr))))))))))"

subsection \<open>Amending a stop\<close>

definition unit_payload :: "position \<Rightarrow> jobj" where
  "unit_payload p = [(''position_id'', JStr (p_id p)), (''trade_id'', (case p_trade_id p of None \<Rightarrow> JNull | Some t \<Rightarrow> JStr t)),
     (''strategy_id'', JStr (p_strategy_id p))]"

definition stop_amend_entry :: "jobj \<Rightarrow> jobj \<Rightarrow> jobj" where
  "stop_amend_entry amend_intent details = [(''stop_amend'', JObj (tmerge amend_intent details))]"

definition disable_entries :: "('x, unit) guard" where
  "disable_entries s = (Inr (), s\<lparr>gd_entry := False\<rparr>)"

definition persist_entries_off :: "guard_env \<Rightarrow> ('x, unit) guard" where
  "persist_entries_off env s =
     (case pe_switch_error env of
        Some e \<Rightarrow> (Inl e, s)
      | None \<Rightarrow> (case set_entries_enabled False (gd_risk s) of (r, db) \<Rightarrow> (bindE r (\<lambda>_. Inr ()), s\<lparr>gd_risk := db\<rparr>)))"

text \<open>\<^verbatim>\<open>try: step except Exception as exc: persistence_errors.append(...)\<close>\<close>

definition noting :: "string \<Rightarrow> ('x, unit) guard \<Rightarrow> string list \<Rightarrow> ('x, string list) guard" where
  "noting label m errors =
     catchS (bindS m (\<lambda>_. returnS errors)) (\<lambda>e. returnS (errors @ [label @ exc_text e]))"

definition fail_amend :: "guard_env \<Rightarrow> position \<Rightarrow> jobj \<Rightarrow> string \<Rightarrow> ('x, 'a) guard" where
  "fail_amend env p amend_intent error =
     bindS disable_entries (\<lambda>_.
     bindS (noting ''protection failure state: ''
       (bindS (on_units (update_protection (pe_now env) (p_id p) (Some PFailed) None None None
         (Some (stop_amend_entry amend_intent [(''status'', JStr ''unknown''), (''error'', JStr error), (''completed_at'', JStr (pe_now env))]))))
         (\<lambda>_. returnS ())) []) (\<lambda>errors.
     bindS (noting ''durable entry disable: '' (persist_entries_off env) errors) (\<lambda>errors.
     let final_error = error @ (if errors \<noteq> [] then ''; '' @ intersperse ''; '' errors else []) in
     bindS (catchS (guard_audit env ''position.protection_stop_amend_failed''
       (tmerge (tmerge (unit_payload p) amend_intent) [(''outcome'', JStr ''unknown''), (''error'', JStr final_error)])) (\<lambda>_. returnS ())) (\<lambda>_.
     unprotected final_error))))"

definition amend_not_applied :: "guard_env \<Rightarrow> position \<Rightarrow> jobj \<Rightarrow> py_exc \<Rightarrow> ('x, 'a) guard" where
  "amend_not_applied env p amend_intent error =
     bindS (on_units (update_protection (pe_now env) (p_id p) (Some PActive) None None None
       (Some (stop_amend_entry amend_intent [(''status'', JStr ''not_applied''), (''error'', JStr (exc_text error)),
         (''completed_at'', JStr (pe_now env))])))) (\<lambda>_.
     bindS (guard_audit env ''position.protection_stop_amend_failed''
       (tmerge (tmerge (unit_payload p) amend_intent) [(''outcome'', JStr ''not_applied''), (''error'', JStr (exc_text error))])) (\<lambda>_.
     unprotected (''protective stop amend was not applied: '' @ exc_text error)))"

definition resolve_amend_error ::
  "'x stop_client \<Rightarrow> guard_env \<Rightarrow> position \<Rightarrow> protection \<Rightarrow> string \<Rightarrow> string \<Rightarrow> py_exc \<Rightarrow> jobj \<Rightarrow> ('x, jobj) guard" where
  "resolve_amend_error client env p pr quantity target_stop error amend_intent =
     bindS (catchS (find_order client (p_inst_id p) (pr_algo_client_order_id pr))
       (\<lambda>query_error. fail_amend env p amend_intent
         (''amend outcome unknown: '' @ exc_text error @ ''; verification failed: '' @ exc_text query_error))) (\<lambda>order.
     case verify_for_kind env order p (JStr quantity) (JStr target_stop) (pr_algo_client_order_id pr) (pr_kind pr) of
       Inr proof_data \<Rightarrow> returnS proof_data
     | Inl _ \<Rightarrow>
         (case verify_for_kind env order p (JStr quantity) (JFloat (PFin (pr_stop_loss pr))) (pr_algo_client_order_id pr) (pr_kind pr) of
            Inl verification_error \<Rightarrow>
              fail_amend env p amend_intent (''amend outcome unknown: '' @ exc_text error @ ''; '' @ exc_text verification_error)
          | Inr _ \<Rightarrow> amend_not_applied env p amend_intent error))"

text \<open>The guards of an amendment, in order; the result is the unit, its protection and the condition.\<close>

definition amend_target ::
  "string \<Rightarrow> string \<Rightarrow> string option \<Rightarrow> string option \<Rightarrow> ('x, position \<times> protection \<times> condition) guard" where
  "amend_target position_id condition_id expected_position expected_condition =
     bindS (units (\<lambda>st. (ps_get st position_id, get_protection st position_id, get_close_condition st position_id condition_id))) (\<lambda>(found, owned, rule).
     bindS (present found ''logical position not found'') (\<lambda>p.
     bindS (ensure (active_unit p) ''logical position is not active'') (\<lambda>_.
     bindS (present owned ''logical position has no owned protection'') (\<lambda>pr.
     bindS (ensure (pr_status pr = PActive) (''protection is '' @ status_name (pr_status pr))) (\<lambda>_.
     bindS (present rule ''close condition not found'') (\<lambda>c.
     bindS (ensure (case expected_position of None \<Rightarrow> True | Some t \<Rightarrow> p_updated_at p = t) ''logical position changed since stop review'') (\<lambda>_.
     bindS (ensure (case expected_condition of None \<Rightarrow> True | Some t \<Rightarrow> c_updated_at c = t) ''stop condition changed since stop review'') (\<lambda>_.
     bindS (ensure (c_purpose c = ''stop_loss'' \<and> c_enabled c) ''condition must be the enabled stop_loss owned by protection'') (\<lambda>_.
     bindS (units (\<lambda>st. map c_id (enabled_stops st (p_id p)))) (\<lambda>stops.
     bindS (ensure (stops = [c_id c]) ''protection requires exactly one owned enabled stop_loss condition'') (\<lambda>_.
     bindS (ensure (0 < unit_quantity p \<and> pr_quantity pr = unit_quantity p)
       ''owned protection quantity does not match remaining logical quantity'') (\<lambda>_.
     returnS (p, pr, c)))))))))))))"

definition value_error_as_protection :: "('x, 'a) guard \<Rightarrow> ('x, 'a) guard" where
  "value_error_as_protection m =
     catchS m (\<lambda>e. case e of ValueError message \<Rightarrow> unprotected message | _ \<Rightarrow> liftS (Inl e))"

definition amend_terms :: "'x stop_client \<Rightarrow> position \<Rightarrow> jobj \<Rightarrow> ('x, string \<times> string) guard" where
  "amend_terms client p expression =
     value_error_as_protection
       (bindS (constraints_of client (p_inst_id p)) (\<lambda>ic.
        bindS (liftS (normalize_size ic (JFloat (PFin (unit_quantity p))))) (\<lambda>quantity.
        bindS (liftS (normalize_price ic (jget expression ''value''))) (\<lambda>stop. returnS (quantity, stop)))))"

definition verified_metadata :: "guard_env \<Rightarrow> jobj \<Rightarrow> jobj" where
  "verified_metadata env proof_data =
     [(''exchange_protection_verified'', JBool True), (''exchange_protection_error'', JStr []),
      (''exchange_protection_checked_at'', JStr (pe_now env)), (''exchange_protection'', JObj proof_data)]"

definition publish_amended_stop ::
  "guard_env \<Rightarrow> position \<Rightarrow> condition \<Rightarrow> jobj \<Rightarrow> jobj option \<Rightarrow> string \<Rightarrow> jobj \<Rightarrow> jobj \<Rightarrow> ('x, position) guard" where
  "publish_amended_stop env p c expression condition_metadata stop amend_intent proof_data =
     atomically
       (bindS (on_units (update_close_condition (pe_now env) (p_id p) (c_id c) None
          (Some (tset ''value'' (JFloat (PFin (text_number stop))) expression)) None
          (map_option (tmerge (col_obj (c_metadata c))) condition_metadata))) (\<lambda>updated.
        bindS (liftS (if updated = None then Inl (RuntimeError ''close condition disappeared after exchange amend'') else Inr ())) (\<lambda>_.
        bindS (on_units (update_protection (pe_now env) (p_id p) (Some PActive) None (Some (text_number stop)) None
          (Some (stop_amend_entry amend_intent [(''status'', JStr ''completed''), (''completed_at'', JStr (pe_now env))] @
            [(''verified_at'', jget proof_data ''verified_at'')])))) (\<lambda>updated.
        bindS (liftS (if updated = None then Inl (RuntimeError ''owned protection disappeared after exchange amend'') else Inr ())) (\<lambda>_.
        bindS (on_units (merge_metadata (pe_now env) (p_id p) (verified_metadata env proof_data))) (\<lambda>updated.
        liftS (case updated of None \<Rightarrow> Inl (RuntimeError ''logical position disappeared after exchange amend'') | Some q \<Rightarrow> Inr q)))))))"

text \<open>The exchange part of an amendment on a unit whose protection is being amended.\<close>

definition exchange_amend :: "'x stop_client \<Rightarrow> guard_env \<Rightarrow> position \<Rightarrow> protection \<Rightarrow> string \<Rightarrow> string \<Rightarrow> jobj \<Rightarrow> ('x, jobj) guard" where
  "exchange_amend client env p pr quantity stop amend_intent =
     catchS
       (bindS (okx (sc_amend client (p_inst_id p) (pr_algo_id pr) quantity stop)) (\<lambda>_.
        bindS (find_order client (p_inst_id p) (pr_algo_client_order_id pr)) (\<lambda>order.
        liftS (verify_for_kind env order p (JStr quantity) (JStr stop) (pr_algo_client_order_id pr) (pr_kind pr)))))
       (\<lambda>error. resolve_amend_error client env p pr quantity stop error amend_intent)"

definition carry_out_amend ::
  "'x stop_client \<Rightarrow> guard_env \<Rightarrow> position \<Rightarrow> protection \<Rightarrow> condition \<Rightarrow> jobj \<Rightarrow> jobj option \<Rightarrow> string \<Rightarrow> string \<Rightarrow> jobj \<Rightarrow>
   ('x, position) guard" where
  "carry_out_amend client env p pr c normalized condition_metadata quantity stop amend_intent =
     bindS (on_units (update_protection (pe_now env) (p_id p) (Some PAmending) None None None (Some [(''stop_amend'', JObj amend_intent)]))) (\<lambda>amending.
     bindS (ensure (amending \<noteq> None) ''could not persist protective stop amend intent'') (\<lambda>_.
     bindS (exchange_amend client env p pr quantity stop amend_intent) (\<lambda>proof_data.
     bindS (catchS (publish_amended_stop env p c normalized condition_metadata stop amend_intent proof_data)
       (\<lambda>e. fail_amend env p amend_intent (''atomic stop persistence failed after exchange amend: '' @ exc_text e))) (\<lambda>updated.
     bindS (catchS (guard_audit env ''position.protection_stop_amended''
         (tmerge (tmerge (unit_payload p) amend_intent) [(''completed_at'', JStr (pe_now env)), (''proof'', JObj proof_data)]))
       (\<lambda>e. fail_amend env p amend_intent (''protective stop completion audit failed: '' @ exc_text e))) (\<lambda>_.
     returnS updated)))))"

text \<open>Everything before the amendment: the guards, the terms, the proof of the current stop and the recorded intent.\<close>

definition prepare_amend ::
  "'x stop_client \<Rightarrow> guard_env \<Rightarrow> string \<Rightarrow> string \<Rightarrow> jobj \<Rightarrow> string \<Rightarrow> jobj \<Rightarrow> string option \<Rightarrow> string option \<Rightarrow>
   ('x, (position \<times> protection \<times> condition) \<times> jobj \<times> string \<times> string \<times> jobj) guard" where
  "prepare_amend client env position_id condition_id expression reason intent_metadata expected_position expected_condition =
     bindS (amend_target position_id condition_id expected_position expected_condition) (\<lambda>(p, pr, c).
     bindS (liftS (normalize_stop_expression p expression)) (\<lambda>normalized.
     bindS (amend_terms client p expression) (\<lambda>(quantity, stop).
     bindS (find_order client (p_inst_id p) (pr_algo_client_order_id pr)) (\<lambda>order.
     bindS (liftS (verify_for_kind env order p (JStr quantity) (JFloat (PFin (pr_stop_loss pr))) (pr_algo_client_order_id pr) (pr_kind pr))) (\<lambda>_.
     let amend_intent = tmerge intent_metadata
           [(''correlation_id'', JStr (pe_fresh env)), (''condition_id'', JStr condition_id),
            (''old_stop_loss'', JFloat (PFin (pr_stop_loss pr))), (''target_stop_loss'', JStr stop), (''reason'', JStr reason),
            (''requested_at'', JStr (pe_now env))] in
     bindS (guard_audit env ''position.protection_stop_amend_requested'' (tmerge (unit_payload p) amend_intent)) (\<lambda>_.
     returnS ((p, pr, c), normalized, quantity, stop, amend_intent)))))))"

definition amend_stop_condition ::
  "'x stop_client \<Rightarrow> guard_env \<Rightarrow> string \<Rightarrow> string \<Rightarrow> jobj \<Rightarrow> string \<Rightarrow> jobj option \<Rightarrow> jobj \<Rightarrow> string option \<Rightarrow> string option \<Rightarrow>
   ('x, position) guard" where
  "amend_stop_condition client env position_id condition_id expression reason condition_metadata intent_metadata
     expected_position expected_condition =
     bindS (prepare_amend client env position_id condition_id expression reason intent_metadata expected_position expected_condition)
       (\<lambda>((p, pr, c), normalized, quantity, stop, amend_intent).
     carry_out_amend client env p pr c normalized condition_metadata quantity stop amend_intent)"

subsection \<open>Break-even\<close>

definition default_fee_rate :: json where
  "default_fee_rate = JStr ''0.0005''"

definition last_price :: "'x stop_client \<Rightarrow> string \<Rightarrow> jobj list \<Rightarrow> ('x, decimal) guard" where
  "last_price client inst_id tickers =
     (case tickers of
        [ticker] \<Rightarrow>
          bindS (present (dec_of_json (jget ticker ''last'')) ''ticker last price is invalid'') (\<lambda>current.
          bindS (ensure (dec_finite current \<and> 0 < dec_val current) ''ticker last price must be positive'') (\<lambda>_.
          returnS current))
      | _ \<Rightarrow> unprotected (''expected one ticker for '' @ inst_id @ '', got '' @ show_int (int (length tickers))))"

definition break_even_costs :: "break_even_evidence \<Rightarrow> jobj" where
  "break_even_costs b =
     [(''entry_fee_rate'', JStr (dec_str (be_entry_fee_rate b))), (''exit_fee_rate'', JStr (dec_str (be_exit_fee_rate b))),
      (''slippage_rate'', JStr (dec_str (be_slippage_rate b))), (''lock_in_pct'', JStr (dec_str (be_lock_in_pct b))),
      (''modeled_net_return_pct'', JStr (dec_str (dec_of_rat (be_net_return b))))]"

definition break_even_target ::
  "'x stop_client \<Rightarrow> position \<Rightarrow> json \<Rightarrow> json \<Rightarrow> json \<Rightarrow> json \<Rightarrow> ('x, string \<times> break_even_evidence \<times> jobj list) guard" where
  "break_even_target client p lock_in entry_fee exit_fee slippage =
     value_error_as_protection
       (bindS (liftS (calculate_break_even_target (JFloat (PFin (p_entry_price p))) (p_side p) entry_fee exit_fee slippage lock_in)) (\<lambda>(raw_target, costs).
        bindS (constraints_of client (p_inst_id p)) (\<lambda>ic.
        bindS (liftS (normalize_break_even_price ic (JStr (dec_str (dec_of_rat raw_target))) (p_side p))) (\<lambda>target.
        bindS (okx (sc_ticker client (p_inst_id p))) (\<lambda>tickers. returnS (target, costs, tickers))))))"

definition move_to_break_even ::
  "'x stop_client \<Rightarrow> guard_env \<Rightarrow> string \<Rightarrow> string \<Rightarrow> json \<Rightarrow> string \<Rightarrow> string option \<Rightarrow> string option \<Rightarrow> json \<Rightarrow> json \<Rightarrow> json \<Rightarrow>
   ('x, position) guard" where
  "move_to_break_even client env position_id condition_id lock_in_pct reason expected_position expected_condition
     entry_fee exit_fee slippage =
     bindS (units (\<lambda>st. ps_get st position_id)) (\<lambda>found.
     bindS (present found ''logical position not found'') (\<lambda>p.
     bindS (ensure (p_side p = ''long'' \<or> p_side p = ''short'') ''logical position side must be long or short'') (\<lambda>_.
     bindS (present (dec_of_json lock_in_pct) ''invalid break-even price input'') (\<lambda>lock_in.
     bindS (ensure (dec_finite lock_in \<and> 0 \<le> dec_val lock_in \<and> dec_val lock_in \<le> 5/100) ''lock_in_pct must be between 0 and 0.05'') (\<lambda>_.
     bindS (ensure (0 < p_entry_price p) ''logical position entry price must be positive'') (\<lambda>_.
     bindS (break_even_target client p lock_in_pct entry_fee exit_fee slippage) (\<lambda>(target, costs, tickers).
     bindS (last_price client (p_inst_id p) tickers) (\<lambda>current.
     bindS (ensure (if p_side p = ''long'' then text_number target < dec_val current else dec_val current < text_number target)
       ''current price has not moved beyond the requested break-even stop'') (\<lambda>_.
     let break_even = [(''status'', JStr ''applied''), (''entry_price'', JFloat (PFin (p_entry_price p))), (''target_stop'', JStr target),
           (''current_price'', JStr (dec_str current)), (''lock_in_pct'', JStr (dec_str lock_in)), (''costs'', JObj (break_even_costs costs)),
           (''applied_at'', JStr (pe_now env))];
         expression = [(''type'', JStr (if p_side p = ''long'' then ''price_below'' else ''price_above'')), (''symbol'', JStr (p_inst_id p)),
           (''value'', JFloat (PFin (text_number target)))] in
     amend_stop_condition client env (p_id p) condition_id expression reason (Some [(''break_even'', JObj break_even)])
       [(''operation'', JStr ''break_even''), (''break_even'', JObj break_even)] expected_position expected_condition)))))))))"

subsection \<open>Attaching a stop\<close>

definition require_balanced :: "'x stop_client \<Rightarrow> guard_env \<Rightarrow> position \<Rightarrow> ('x, unit) guard" where
  "require_balanced client env p =
     bindS (units list_active) (\<lambda>active.
     bindS (okx (sc_positions client)) (\<lambda>rows.
     let report = reconcile_account (pe_now env) active rows; key = position_key (p_inst_id p) (JStr (p_side p)) in
     ensure (case filter (\<lambda>g. gr_key g = key) (ar_groups report) of [] \<Rightarrow> False | g # _ \<Rightarrow> gr_state g = Balanced)
       ''logical quantity must reconcile with OKX before protection is attached''))"

text \<open>A confirmed stop is never replaced by a looser one: the rule is put back to the confirmed price.\<close>

definition restore_confirmed_rule :: "guard_env \<Rightarrow> position \<Rightarrow> instrument_constraints \<Rightarrow> protection \<Rightarrow> ('x, string) guard" where
  "restore_confirmed_rule env p ic pr =
     bindS (liftS (normalize_price ic (JFloat (PFin (pr_stop_loss pr))))) (\<lambda>stop.
     bindS (units (\<lambda>st. enabled_stops st (p_id p))) (\<lambda>stops.
     case stops of
       [c] \<Rightarrow>
         bindS (units (\<lambda>st. stop_price st p)) (\<lambda>rejected.
         bindS (liftS rejected) (\<lambda>rejected_stop.
         bindS (on_units (update_close_condition (pe_now env) (p_id p) (c_id c) None
           (Some (tset ''value'' (JFloat (PFin (text_number stop))) (tset ''symbol'' (JStr (p_inst_id p)) (col_obj (c_expression c))))) None
           (Some (tset ''protection_regression_prevented'' (JObj [(''rejected_stop'', JFloat rejected_stop), (''confirmed_stop'', JStr stop),
              (''repaired_at'', JStr (pe_now env))]) (col_obj (c_metadata c)))))) (\<lambda>updated.
         bindS (ensure (updated \<noteq> None) ''could not restore confirmed stop rule during protection repair'') (\<lambda>_. returnS stop))))
     | _ \<Rightarrow> unprotected ''confirmed protection requires exactly one enabled stop_loss condition''))"

definition stop_to_attach :: "guard_env \<Rightarrow> position \<Rightarrow> instrument_constraints \<Rightarrow> protection option \<Rightarrow> ('x, string) guard" where
  "stop_to_attach env p ic existing =
     bindS (units (\<lambda>st. stop_price st p)) (\<lambda>candidate.
     bindS (liftS candidate) (\<lambda>requested.
     bindS (liftS (normalize_price ic (JFloat requested))) (\<lambda>stop.
     case existing of
       Some pr \<Rightarrow>
         if pr_status pr = PActive
         then bindS (liftS (protective_stop_is_looser (p_side p) (JStr stop) (JFloat (PFin (pr_stop_loss pr))))) (\<lambda>looser.
           if looser then restore_confirmed_rule env p ic pr else returnS stop)
         else returnS stop
     | None \<Rightarrow> returnS stop)))"

definition kind_of :: "protection option \<Rightarrow> prot_kind" where
  "kind_of existing = (case existing of None \<Rightarrow> StandaloneStop | Some pr \<Rightarrow> pr_kind pr)"

definition place_stop :: "'x stop_client \<Rightarrow> guard_env \<Rightarrow> position \<Rightarrow> string \<Rightarrow> string \<Rightarrow> string \<Rightarrow> ('x, jobj) guard" where
  "place_stop client env p quantity stop algo_client_id =
     bindS (okx (sc_place client (p_inst_id p) (p_side p) quantity stop algo_client_id)) (\<lambda>accepted.
     bindS (liftS (case tget accepted ''algoId'' of None \<Rightarrow> Inl (KeyError ''algoId'') | Some a \<Rightarrow> Inr (py_str a))) (\<lambda>algo_id.
     bindS (on_units (merge_metadata (pe_now env) (p_id p)
       [(''exchange_protection_verified'', JBool False),
        (''exchange_protection'', JObj [(''algo_id'', JStr algo_id), (''algo_client_order_id'', JStr algo_client_id),
          (''quantity'', JStr quantity), (''stop_loss'', JStr stop)])])) (\<lambda>_.
     bindS (catchS (pending_orders client (p_inst_id p))
       (\<lambda>e. unprotected (''could not inspect active protective stop: '' @ exc_text e))) (\<lambda>pending.
     bindS (liftS (find_pending pending algo_client_id)) (\<lambda>order.
     liftS (verify_pending env order p (JStr quantity) (JStr stop) algo_client_id))))))"

definition amend_or_accept ::
  "'x stop_client \<Rightarrow> guard_env \<Rightarrow> position \<Rightarrow> prot_kind \<Rightarrow> jobj \<Rightarrow> string \<Rightarrow> string \<Rightarrow> string \<Rightarrow> ('x, jobj) guard" where
  "amend_or_accept client env p kind order quantity stop algo_client_id =
     (case verify_for_kind env (Some order) p (JStr quantity) (JStr stop) algo_client_id kind of
        Inr proof_data \<Rightarrow> returnS proof_data
      | Inl _ \<Rightarrow>
          bindS (liftS (verify_identity order p algo_client_id)) (\<lambda>_.
          bindS (okx (sc_amend client (p_inst_id p) (text_of (jget order ''algoId'')) quantity stop)) (\<lambda>_.
          bindS (find_order client (p_inst_id p) algo_client_id) (\<lambda>found.
          liftS (verify_for_kind env found p (JStr quantity) (JStr stop) algo_client_id kind)))))"

definition protection_from_proof :: "string \<Rightarrow> position \<Rightarrow> protection option \<Rightarrow> jobj \<Rightarrow> protection" where
  "protection_from_proof now p existing proof_data =
     (let algo_id = py_str (jget proof_data ''algo_id'') in
      \<lparr>pr_position_id = p_id p,
       pr_kind = (case existing of Some pr \<Rightarrow> if pr_algo_id pr = algo_id then pr_kind pr else StandaloneStop | None \<Rightarrow> StandaloneStop),
       pr_status = PActive, pr_algo_id = algo_id, pr_algo_client_order_id = py_str (jget proof_data ''algo_client_order_id''),
       pr_quantity = text_number (py_str (jget proof_data ''quantity'')), pr_stop_loss = text_number (py_str (jget proof_data ''stop_loss'')),
       pr_trigger_order_id = [], pr_metadata = dumps [(''verified_at'', jget proof_data ''verified_at'')], pr_created_at = now, pr_updated_at = now\<rparr>)"

definition attach_stop :: "'x stop_client \<Rightarrow> guard_env \<Rightarrow> position \<Rightarrow> ('x, position) guard" where
  "attach_stop client env p =
     bindS (ensure (active_unit p) ''logical position is not active'') (\<lambda>_.
     bindS (ensure (0 < unit_quantity p) ''logical position has no remaining quantity'') (\<lambda>_.
     bindS (require_balanced client env p) (\<lambda>_.
     bindS (constraints_of client (p_inst_id p)) (\<lambda>ic.
     bindS (liftS (normalize_size ic (JFloat (PFin (unit_quantity p))))) (\<lambda>quantity.
     bindS (units (\<lambda>st. get_protection st (p_id p))) (\<lambda>existing.
     bindS (stop_to_attach env p ic existing) (\<lambda>stop.
     let algo_client_id = (case existing of
           Some pr \<Rightarrow> if pr_status pr \<notin> {PCanceled, PExhausted} then pr_algo_client_order_id pr else algo_client_id_of env (p_id p)
         | None \<Rightarrow> algo_client_id_of env (p_id p)) in
     bindS (find_order client (p_inst_id p) algo_client_id) (\<lambda>found.
     bindS (case found of
         Some order \<Rightarrow> amend_or_accept client env p (kind_of existing) order quantity stop algo_client_id
       | None \<Rightarrow> place_stop client env p quantity stop algo_client_id) (\<lambda>proof_data.
     bindS (on_units (merge_metadata (pe_now env) (p_id p) (verified_metadata env proof_data))) (\<lambda>updated.
     bindS (present updated ''logical position disappeared during protection'') (\<lambda>q.
     bindS (on_units (save_protection (pe_now env) (protection_from_proof (pe_now env) p existing proof_data))) (\<lambda>saved.
     bindS (units (\<lambda>st. verify_persisted_stop_claims st q saved)) (\<lambda>claims.
     bindS (liftS claims) (\<lambda>_. returnS q))))))))))))))"

definition protect :: "'x stop_client \<Rightarrow> guard_env \<Rightarrow> string \<Rightarrow> ('x, position) guard" where
  "protect client env position_id =
     bindS (units (\<lambda>st. ps_get st position_id)) (\<lambda>found.
     bindS (present found ''logical position not found'') (\<lambda>p.
     catchS (attach_stop client env p) (\<lambda>e.
       bindS (on_units (merge_metadata (pe_now env) (p_id p)
         [(''exchange_protection_verified'', JBool False), (''exchange_protection_error'', JStr (exc_text e)),
          (''exchange_protection_checked_at'', JStr (pe_now env))])) (\<lambda>_.
       unprotected (exc_text e)))))"

subsection \<open>Adopting a recovered position\<close>

definition put_recovery_stop :: "guard_env \<Rightarrow> position \<Rightarrow> jobj \<Rightarrow> ('x, unit) guard" where
  "put_recovery_stop env p expression =
     bindS (units (\<lambda>st. enabled_stops st (p_id p))) (\<lambda>stops.
     case stops of
       [] \<Rightarrow>
         bindS (on_units (create_close_condition (pe_now env) (pe_fresh env) (p_id p) ''stop_loss'' expression True
           [(''source'', JStr ''recovery_adoption'')])) (\<lambda>created.
         ensure (created \<noteq> None) ''could not create recovery stop_loss'')
     | [c] \<Rightarrow>
         bindS (on_units (update_close_condition (pe_now env) (p_id p) (c_id c) None (Some expression) None None)) (\<lambda>updated.
         ensure (updated \<noteq> None) ''could not update recovery stop_loss'')
     | _ \<Rightarrow> unprotected ''recovered position has multiple enabled stop_loss conditions'')"

definition adoption_payload :: "position \<Rightarrow> decimal \<Rightarrow> string \<Rightarrow> jobj" where
  "adoption_payload p stop reason =
     [(''position_id'', JStr (p_id p)), (''instrument'', JStr (p_inst_id p)), (''side'', JStr (p_side p)),
      (''quantity'', (case p_remaining p of None \<Rightarrow> JNull | Some r \<Rightarrow> JFloat (PFin r))), (''stop_loss'', JStr (dec_str stop)), (''reason'', JStr reason)]"

definition adopt_recovered_position :: "'x stop_client \<Rightarrow> guard_env \<Rightarrow> string \<Rightarrow> json \<Rightarrow> string \<Rightarrow> ('x, position) guard" where
  "adopt_recovered_position client env position_id stop_loss reason =
     bindS (units (\<lambda>st. ps_get st position_id)) (\<lambda>found.
     bindS (present found ''logical position not found'') (\<lambda>p.
     let metadata = col_obj (p_metadata p) in
     bindS (ensure (p_source p = ''recovery'') ''only recovered positions use adoption'') (\<lambda>_.
     bindS (ensure (\<not> truthy (jget metadata ''reconciliation_review_reason''))
       ''ambiguous external reduction must be reconciled before adoption'') (\<lambda>_.
     bindS (ensure (jget metadata ''requires_manual_review'' = JBool True) ''recovered position does not require adoption'') (\<lambda>_.
     bindS (present (dec_of_json stop_loss) ''stop_loss must be numeric'') (\<lambda>stop.
     bindS (ensure (dec_finite stop \<and> 0 < dec_val stop) ''stop_loss must be positive'') (\<lambda>_.
     bindS (okx (sc_ticker client (p_inst_id p))) (\<lambda>tickers.
     bindS (last_price client (p_inst_id p) tickers) (\<lambda>current.
     bindS (ensure (p_side p = ''long'' \<longrightarrow> dec_val stop < dec_val current) ''long stop_loss must be below the current market price'') (\<lambda>_.
     bindS (ensure (p_side p = ''short'' \<longrightarrow> dec_val current < dec_val stop) ''short stop_loss must be above the current market price'') (\<lambda>_.
     bindS (put_recovery_stop env p [(''type'', JStr (if p_side p = ''long'' then ''price_below'' else ''price_above'')),
       (''symbol'', JStr (p_inst_id p)), (''value'', JFloat (PFin (dec_val stop)))]) (\<lambda>_.
     bindS (guard_audit env ''position.recovery_adoption_requested'' (adoption_payload p stop reason)) (\<lambda>_.
     bindS (attach_stop client env p) (\<lambda>q.
     bindS (guard_audit env ''position.recovery_adopted'' (adoption_payload p stop reason @ [(''adopted_at'', JStr (pe_now env)),
       (''protection'', JObj (as_obj (jget (col_obj (p_metadata q)) ''exchange_protection'')))])) (\<lambda>_.
     bindS (on_units (merge_metadata (pe_now env) (p_id p)
       [(''requires_manual_review'', JBool False), (''recovery_adopted_at'', JStr (pe_now env)),
        (''recovery_adoption_reason'', JStr reason)])) (\<lambda>adopted.
     present adopted ''logical position disappeared after recovery protection''))))))))))))))))"

subsection \<open>Cancelling a stop before a close\<close>

definition cancel_unknown :: "guard_env \<Rightarrow> position \<Rightarrow> py_exc \<Rightarrow> ('x, 'a) guard" where
  "cancel_unknown env p e =
     bindS (on_units (update_protection (pe_now env) (p_id p) (Some PFailed) None None None
       (Some [(''cancel_error'', JStr (exc_text e)), (''cancel_outcome'', JStr ''unknown'')]))) (\<lambda>_.
     unprotected (''protective stop cancellation outcome is unknown: '' @ exc_text e))"

fun await_removal :: "'x stop_client \<Rightarrow> guard_env \<Rightarrow> position \<Rightarrow> protection \<Rightarrow> nat \<Rightarrow> ('x, bool) guard" where
  "await_removal client env p pr 0 =
     bindS (on_units (update_protection (pe_now env) (p_id p) (Some PActive) None None None
       (Some [(''cancel_error'', JStr ''OKX still reports protection as pending'')]))) (\<lambda>_.
     unprotected ''OKX still reports protection as pending after cancellation'')"
| "await_removal client env p pr (Suc n) =
     bindS (catchS (pending_orders client (p_inst_id p)) (cancel_unknown env p)) (\<lambda>pending.
     bindS (liftS (find_pending pending (pr_algo_client_order_id pr))) (\<lambda>order.
     if order = None
     then bindS (on_units (update_protection (pe_now env) (p_id p) (Some PCanceled) None None None
            (Some [(''canceled_at'', JStr (pe_now env))]))) (\<lambda>_.
          bindS (on_units (merge_metadata (pe_now env) (p_id p)
            [(''exchange_protection_verified'', JBool False), (''exchange_protection_error'', JStr ''canceled for software close''),
             (''protection_canceled_for_close'', JBool True)])) (\<lambda>_. returnS True))
     else await_removal client env p pr n))"

definition cancel_for_close :: "'x stop_client \<Rightarrow> guard_env \<Rightarrow> string \<Rightarrow> string \<Rightarrow> ('x, bool) guard" where
  "cancel_for_close client env position_id reason =
     bindS (units (\<lambda>st. (ps_get st position_id, get_protection st position_id))) (\<lambda>(found, owned).
     bindS (present found ''logical position not found'') (\<lambda>p.
     case owned of
       None \<Rightarrow> returnS False
     | Some pr \<Rightarrow>
         if pr_status pr \<in> {PCanceled, PExhausted} then returnS False
         else
           bindS (ensure (pr_status pr = PActive) (''protection is '' @ status_name (pr_status pr) @ ''; software close is unsafe'')) (\<lambda>_.
           bindS (catchS (pending_orders client (p_inst_id p))
             (\<lambda>e. unprotected (''could not inspect active protective stop: '' @ exc_text e))) (\<lambda>pending.
           bindS (liftS (find_pending pending (pr_algo_client_order_id pr))) (\<lambda>order.
           bindS (liftS (verify_for_kind env order p (JFloat (PFin (pr_quantity pr))) (JFloat (PFin (pr_stop_loss pr)))
             (pr_algo_client_order_id pr) (pr_kind pr))) (\<lambda>_.
           bindS (on_units (update_protection (pe_now env) (p_id p) (Some PCanceling) None None None
             (Some [(''cancel_reason'', JStr reason), (''cancel_requested_at'', JStr (pe_now env))]))) (\<lambda>_.
           bindS (catchS (okx (sc_cancel client (p_inst_id p) (pr_algo_id pr))) (cancel_unknown env p)) (\<lambda>_.
           await_removal client env p pr 5))))))))"

subsection \<open>Steps that only look\<close>

text \<open>Queries of the exchange and audit events leave the store, the stored switch and the process flag alone.\<close>

definition quiet_le :: "'x guard_state \<Rightarrow> 'x guard_state \<Rightarrow> bool" where
  "quiet_le s s' \<longleftrightarrow> gd_pos s' = gd_pos s \<and> gd_risk s' = gd_risk s \<and> gd_entry s' = gd_entry s"

interpretation looking: action_relation quiet_le
  by unfold_locales (auto simp: quiet_le_def)

abbreviation quiet :: "('x, 'a) guard \<Rightarrow> bool" where
  "quiet \<equiv> behaves quiet_le (\<lambda>_. True) (\<lambda>_. True)"

lemma quiet_basic [simp, intro!]:
  "quiet (okx m)" "quiet (units f)" "quiet (liftS r)" "quiet (returnS x)" "quiet (unprotected message)" "quiet (ensure b message)"
  "quiet (present found message)" "quiet (guard_audit env event payload)"
  by (auto simp: behaves_def okx_def units_def liftS_def returnS_def unprotected_def ensure_def present_def guard_audit_def quiet_le_def
      split: prod.split option.split)

lemma quiet_bind [intro!]: "quiet m \<Longrightarrow> (\<And>x. quiet (f x)) \<Longrightarrow> quiet (bindS m f)"
  by (rule looking.bind)

lemma quiet_catch [intro!]: "quiet m \<Longrightarrow> (\<And>e. quiet (h e)) \<Longrightarrow> quiet (catchS m h)"
  by (rule looking.catch)

lemma quiet_pending [simp, intro!]: "quiet (pending_orders client i)"
  unfolding pending_orders_def by (auto split: if_split)

lemma quiet_find [simp, intro!]: "quiet (find_order client i a)"
  unfolding find_order_def by auto

lemma quiet_constraints [simp, intro!]: "quiet (constraints_of client i)"
  unfolding constraints_of_def by (auto split: list.split)

lemma quiet_value_error [intro!]: "quiet m \<Longrightarrow> quiet (value_error_as_protection m)"
  unfolding value_error_as_protection_def by (auto split: py_exc.split)

lemma quiet_terms [simp, intro!]: "quiet (amend_terms client p e)"
  unfolding amend_terms_def by auto

lemma quiet_target [simp, intro!]: "quiet (amend_target pid cid ep ec)"
  unfolding amend_target_def by (auto split: prod.split)

lemma quietD: "quiet m \<Longrightarrow> m s = (r, s') \<Longrightarrow> gd_pos s' = gd_pos s \<and> gd_risk s' = gd_risk s \<and> gd_entry s' = gd_entry s"
  by (auto simp: behaves_def quiet_le_def dest!: spec [of _ s])

lemma guard_simps [result_simps]:
  "units f s = (Inr x, s') \<longleftrightarrow> x = f (gd_pos s) \<and> s' = s"
  "ensure b message s = (Inr u, s') \<longleftrightarrow> b \<and> s' = s"
  "present found message s = (Inr v, s') \<longleftrightarrow> found = Some v \<and> s' = s"
  by (auto simp: units_def ensure_def present_def returnS_def unprotected_def liftS_def split: option.split)

subsection \<open>What a verification proves\<close>

text \<open>An order that stands for the protection of a unit with this size and trigger.\<close>

definition stop_order :: "jobj \<Rightarrow> position \<Rightarrow> json \<Rightarrow> json \<Rightarrow> string \<Rightarrow> prot_kind \<Rightarrow> bool" where
  "stop_order order p quantity stop algo_client_id kind \<longleftrightarrow>
     text_of (jget order ''algoClOrdId'') = algo_client_id \<and> text_of (jget order ''algoId'') \<noteq> [] \<and>
     text_of (jget order ''instId'') = p_inst_id p \<and> py_lower (text_of (jget order ''state'')) = ''live'' \<and>
     same_decimal (jget order ''sz'') quantity \<and> same_decimal (jget order ''slTriggerPx'') stop \<and>
     text_of (jget order ''slOrdPx'') = ''-1'' \<and>
     (kind = StandaloneStop \<longrightarrow> py_lower (text_of (jget order ''side'')) = expected_side p \<and>
        py_lower (text_of (jget order ''ordType'')) = ''conditional'' \<and> py_lower (text_of (jget order ''posSide'')) = ''net'' \<and>
        py_lower (text_of (jget order ''reduceOnly'')) = ''true'')"

lemma verify_for_kind_Inr:
  assumes "verify_for_kind env found p quantity stop a kind = Inr proof_data"
  shows "\<exists>order. found = Some order \<and> stop_order order p quantity stop a kind \<and>
    (\<exists>t. proof_data = stop_proof (if kind = StandaloneStop then ''standalone_stop'' else ''attached_stop'')
      (text_of (jget order ''algoId'')) a quantity stop t (pe_now env))"
proof (cases found)
  case None
  then show ?thesis using assms by (simp add: verify_for_kind_def verify_pending_def split: if_splits)
next
  case (Some order)
  show ?thesis
  proof (cases "kind = StandaloneStop")
    case True
    then have v: "verify_pending env found p quantity stop a = Inr proof_data" using assms by (simp add: verify_for_kind_def)
    then have "list_all snd (standalone_checks order p a @ price_checks order quantity stop)" "text_of (jget order ''algoId'') \<noteq> []"
      "proof_data = stop_proof ''standalone_stop'' (text_of (jget order ''algoId'')) a quantity stop ''last'' (pe_now env)"
      unfolding verify_pending_def Some by (simp_all add: result_simps Let_def split: if_splits)
    then show ?thesis using True Some by (auto simp: standalone_checks_def price_checks_def stop_order_def)
  next
    case False
    then show ?thesis using assms Some by (auto simp: verify_for_kind_def result_simps price_checks_def stop_order_def)
  qed
qed

lemma find_pending_Some: "find_pending orders a = Inr (Some order) \<Longrightarrow> order \<in> set orders"
proof -
  assume f: "find_pending orders a = Inr (Some order)"
  then have "filter (\<lambda>order. text_of (jget order ''algoClOrdId'') = a) orders = [order]"
    by (simp add: find_pending_def split: list.splits)
  then have "order \<in> set (filter (\<lambda>order. text_of (jget order ''algoClOrdId'') = a) orders)" by simp
  then show ?thesis by simp
qed

lemma find_pending_None: "find_pending orders a = Inr None \<Longrightarrow> \<forall>order\<in>set orders. text_of (jget order ''algoClOrdId'') \<noteq> a"
proof -
  assume f: "find_pending orders a = Inr None"
  then have "filter (\<lambda>order. text_of (jget order ''algoClOrdId'') = a) orders = []"
    by (simp add: find_pending_def split: list.splits)
  then show ?thesis by (simp add: filter_empty_conv)
qed

lemma verify_claims_Inr:
  assumes "verify_persisted_stop_claims st p pr = Inr u"
  shows "\<exists>c. enabled_stops st (p_id p) = [c] \<and> same_decimal (jget (col_obj (c_expression c)) ''value'') (JFloat (PFin (pr_stop_loss pr))) \<and>
    (\<forall>(label, claim)\<in>set (claimed_stops st (p_id p) c).
       protective_stop_is_looser (p_side p) (JFloat (PFin (pr_stop_loss pr))) claim = Inr False)"
proof -
  obtain c where c: "enabled_stops st (p_id p) = [c]"
    using assms by (auto simp: verify_persisted_stop_claims_def split: list.splits)
  then obtain us where v: "same_decimal (jget (col_obj (c_expression c)) ''value'') (JFloat (PFin (pr_stop_loss pr)))"
    "mapE (check_claim p (pr_stop_loss pr)) (claimed_stops st (p_id p) c) = Inr us"
    using assms by (auto simp: verify_persisted_stop_claims_def Let_def result_simps split: if_splits)
  have "check_claim p (pr_stop_loss pr) x = Inr ()" if "x \<in> set (claimed_stops st (p_id p) c)" for x
    using v(2) that by (auto simp: mapE_Inr list_all2_conv_all_nth in_set_conv_nth)
  then have "\<forall>(label, claim)\<in>set (claimed_stops st (p_id p) c).
      protective_stop_is_looser (p_side p) (JFloat (PFin (pr_stop_loss pr))) claim = Inr False"
    by (fastforce simp: check_claim_def result_simps split: if_splits)
  with c v(1) show ?thesis by blast
qed

subsection \<open>The outcomes of an amendment\<close>

lemma update_protection_total:
  assumes ok: "store_ok st" and pr: "get_protection st pid = Some pr" and stop: "case stop of None \<Rightarrow> True | Some x \<Rightarrow> 0 < x"
    and nonempty: "pid \<noteq> []"
  shows "\<exists>pr'. update_protection now pid (Some s) None stop None (Some m) st = (Inr (Some pr'), st\<lparr>st_protections := tset pid pr' (st_protections st)\<rparr>) \<and>
    pr_status pr' = s \<and> pr_stop_loss pr' = or_default stop (pr_stop_loss pr) \<and> pr_quantity pr' = pr_quantity pr \<and>
    pr_algo_id pr' = pr_algo_id pr \<and> pr_algo_client_order_id pr' = pr_algo_client_order_id pr \<and> pr_kind pr' = pr_kind pr"
proof -
  have m: "(pid, pr) \<in> set (st_protections st)" using pr by (auto simp: get_protection_def dest: map_of_SomeD)
  have rows: "\<forall>(k, pr)\<in>set (st_protections st). pr_position_id pr = k \<and> k \<in> position_ids st \<and> protection_ok pr"
    and pairs: "\<forall>(k, p)\<in>set (st_protections st). \<forall>(k', q)\<in>set (st_protections st). k \<noteq> k' \<longrightarrow> \<not> same_algo p q"
    using ok unfolding store_ok_def protections_ok_def by simp_all
  have k: "pr_position_id pr = pid" "pid \<in> position_ids st" "protection_ok pr" using bspec [OF rows m] by simp_all
  have free: "\<not> same_algo pr q" if "(k, q) \<in> set (st_protections st)" "k \<noteq> pid" for k q
    using bspec [OF pairs m] that by auto
  have "ps_get st pid \<noteq> None" using k(2) by (simp add: ps_get_iff)
  moreover have "\<not> protection_taken st q"
    if "pr_position_id q = pid" "pr_algo_id q = pr_algo_id pr" "pr_algo_client_order_id q = pr_algo_client_order_id pr"
      "pr_trigger_order_id q = pr_trigger_order_id pr" for q
  proof
    assume "protection_taken st q"
    then have "\<exists>y\<in>set (st_protections st). fst y \<noteq> pid \<and>
        (pr_algo_id pr \<noteq> [] \<and> pr_algo_id (snd y) = pr_algo_id pr \<or>
         pr_algo_client_order_id pr \<noteq> [] \<and> pr_algo_client_order_id (snd y) = pr_algo_client_order_id pr \<or>
         pr_trigger_order_id pr \<noteq> [] \<and> pr_trigger_order_id (snd y) = pr_trigger_order_id pr)"
      unfolding protection_taken_def list_ex_iff split_beta that .
    then obtain y where y: "y \<in> set (st_protections st)" "fst y \<noteq> pid"
      "pr_algo_id pr \<noteq> [] \<and> pr_algo_id (snd y) = pr_algo_id pr \<or>
       pr_algo_client_order_id pr \<noteq> [] \<and> pr_algo_client_order_id (snd y) = pr_algo_client_order_id pr \<or>
       pr_trigger_order_id pr \<noteq> [] \<and> pr_trigger_order_id (snd y) = pr_trigger_order_id pr"
      by (elim bexE conjE)
    have "same_algo pr (snd y)" using y(3) by (elim disjE conjE) (simp_all add: same_algo_def)
    with free [of "fst y" "snd y"] y(1,2) show False by simp
  qed
  ultimately show ?thesis
    using pr k stop nonempty
    by (simp add: update_protection_def save_protection_def put_protection_def get_protection_def Let_def protection_ok_def split: option.splits)
qed

lemma noting_result: "m s = (r, t) \<Longrightarrow> \<exists>notes. noting label m errors s = (Inr notes, t) \<and> (is_ok r \<longrightarrow> notes = errors)"
  by (cases r) (auto simp: noting_def catchS_def bindS_def returnS_def)

lemma persist_entries_off_result:
  "\<exists>r t. persist_entries_off env s = (r, t) \<and> gd_pos t = gd_pos s \<and> gd_entry t = gd_entry s \<and>
     (pe_switch_error env = None \<longrightarrow> \<not> entries_enabled (gd_risk t))"
  by (cases "pe_switch_error env")
    (simp_all add: persist_entries_off_def set_entries_enabled_def entries_enabled_def Let_def)

lemma swallow_result: "\<exists>t. catchS a (\<lambda>_. returnS ()) s = (Inr (), t)"
  by (cases "a s") (auto simp: catchS_def returnS_def split: sum.split)

text \<open>How the protection of a unit, its conditions and the switches stand after a step.\<close>

definition fails_closed :: "guard_env \<Rightarrow> string \<Rightarrow> 'x guard_state \<Rightarrow> bool" where
  "fails_closed env pid s \<longleftrightarrow> (\<exists>pr. get_protection (gd_pos s) pid = Some pr \<and> pr_status pr = PFailed) \<and> \<not> gd_entry s \<and>
     (pe_switch_error env = None \<longrightarrow> \<not> entries_enabled (gd_risk s))"

definition still_active :: "string \<Rightarrow> protection \<Rightarrow> 'x guard_state \<Rightarrow> 'x guard_state \<Rightarrow> bool" where
  "still_active pid pr s s' \<longleftrightarrow> (\<exists>pr'. get_protection (gd_pos s') pid = Some pr' \<and> pr_status pr' = PActive \<and>
     pr_stop_loss pr' = pr_stop_loss pr \<and> pr_quantity pr' = pr_quantity pr \<and> pr_algo_id pr' = pr_algo_id pr) \<and>
     st_conditions (gd_pos s') = st_conditions (gd_pos s) \<and> st_positions (gd_pos s') = st_positions (gd_pos s) \<and> gd_entry s' = gd_entry s"

lemma fail_amend_outcome:
  assumes "store_ok (gd_pos s)" and "get_protection (gd_pos s) (p_id p) \<noteq> None" and "fail_amend env p i m s = (r :: 'r result, s')" and "p_id p \<noteq> []"
  shows "(\<exists>e. r = Inl (PositionProtectionError e)) \<and> fails_closed env (p_id p) s'"
proof -
  obtain pr where "get_protection (gd_pos s) (p_id p) = Some pr" using assms(2) by auto
  from update_protection_total [OF assms(1) this _ assms(4), of None "pe_now env" PFailed
      "stop_amend_entry i [(''status'', JStr ''unknown''), (''error'', JStr m), (''completed_at'', JStr (pe_now env))]"]
  obtain pr' where u: "update_protection (pe_now env) (p_id p) (Some PFailed) None None None
      (Some (stop_amend_entry i [(''status'', JStr ''unknown''), (''error'', JStr m), (''completed_at'', JStr (pe_now env))])) (gd_pos s) =
      (Inr (Some pr'), (gd_pos s)\<lparr>st_protections := tset (p_id p) pr' (st_protections (gd_pos s))\<rparr>)" "pr_status pr' = PFailed" by auto
  define s1 where "s1 = s\<lparr>gd_entry := False, gd_pos := (gd_pos s)\<lparr>st_protections := tset (p_id p) pr' (st_protections (gd_pos s))\<rparr>\<rparr>"
  obtain r2 s2 where off: "persist_entries_off env s1 = (r2, s2)" "gd_pos s2 = gd_pos s1"
    "gd_entry s2 = gd_entry s1" "pe_switch_error env = None \<longrightarrow> \<not> entries_enabled (gd_risk s2)"
    using persist_entries_off_result [of env s1] by (elim exE conjE) (rule that)
  from noting_result [where m = "persist_entries_off env", OF off(1)] obtain errors where n: "noting ''durable entry disable: '' (persist_entries_off env) [] s1 = (Inr errors, s2)"
    by blast
  let ?final = "m @ (if errors \<noteq> [] then ''; '' @ intersperse ''; '' errors else [])"
  define a :: "('a, unit) guard" where "a = guard_audit env ''position.protection_stop_amend_failed''
      (tmerge (tmerge (unit_payload p) i) [(''outcome'', JStr ''unknown''), (''error'', JStr ?final)])"
  have "quiet (catchS a (\<lambda>_. returnS ()))" unfolding a_def by auto
  moreover obtain s3 where audit: "catchS a (\<lambda>_. returnS ()) s2 = (Inr (), s3)"
    using swallow_result [of a s2] by (elim exE) (rule that)
  ultimately have s3: "gd_pos s3 = gd_pos s2 \<and> gd_risk s3 = gd_risk s2 \<and> gd_entry s3 = gd_entry s2" using quietD by blast
  have step: "noting ''protection failure state: '' (bindS (on_units (update_protection (pe_now env) (p_id p) (Some PFailed) None None None
      (Some (stop_amend_entry i [(''status'', JStr ''unknown''), (''error'', JStr m), (''completed_at'', JStr (pe_now env))]))))
      (\<lambda>_. returnS ())) [] (s\<lparr>gd_entry := False\<rparr>) = (Inr [], s1)"
    using u(1) by (simp add: noting_def catchS_def bindS_def on_units_def returnS_def s1_def)
  have "fail_amend env p i m s = (Inl (PositionProtectionError ?final) :: 'r result, s3)"
    using step n audit unfolding fail_amend_def a_def
    by (simp add: bindS_def disable_entries_def Let_def unprotected_def liftS_def)
  moreover have "fails_closed env (p_id p) s3" using s3 off(2-) u(2) by (simp add: fails_closed_def s1_def get_protection_def)
  ultimately show ?thesis using assms(3) by simp
qed

lemma not_applied_outcome:
  assumes "store_ok (gd_pos s)" and pr: "get_protection (gd_pos s) (p_id p) = Some pr" and "amend_not_applied env p i e s = (r, s')"
    and "p_id p \<noteq> []"
  shows "(\<exists>x. r = Inl x) \<and> still_active (p_id p) pr s s'"
proof -
  define m where "m = stop_amend_entry i [(''status'', JStr ''not_applied''), (''error'', JStr (exc_text e)), (''completed_at'', JStr (pe_now env))]"
  from update_protection_total [OF assms(1) pr _ assms(4), of None "pe_now env" PActive m]
  obtain pr' where u: "update_protection (pe_now env) (p_id p) (Some PActive) None None None (Some m) (gd_pos s) =
      (Inr (Some pr'), (gd_pos s)\<lparr>st_protections := tset (p_id p) pr' (st_protections (gd_pos s))\<rparr>)" "pr_status pr' = PActive"
      "pr_stop_loss pr' = pr_stop_loss pr" "pr_quantity pr' = pr_quantity pr" "pr_algo_id pr' = pr_algo_id pr" by auto
  define s1 where "s1 = s\<lparr>gd_pos := (gd_pos s)\<lparr>st_protections := tset (p_id p) pr' (st_protections (gd_pos s))\<rparr>\<rparr>"
  define k :: "('a, 'b) guard" where "k = bindS (guard_audit env ''position.protection_stop_amend_failed''
       (tmerge (tmerge (unit_payload p) i) [(''outcome'', JStr ''not_applied''), (''error'', JStr (exc_text e))])) (\<lambda>_.
     unprotected (''protective stop amend was not applied: '' @ exc_text e))"
  have "amend_not_applied env p i e s = k s1"
    using u(1) unfolding amend_not_applied_def m_def [symmetric] k_def by (simp add: bindS_def on_units_def s1_def)
  moreover have "quiet k" unfolding k_def by auto
  moreover have "\<exists>x. fst (k s1) = Inl x" unfolding k_def by (auto simp: bindS_def unprotected_def liftS_def split: prod.split sum.split)
  ultimately have "(\<exists>x. r = Inl x) \<and> gd_pos s' = gd_pos s1 \<and> gd_entry s' = gd_entry s1"
    using assms(3) quietD [of k s1 r s'] by (metis fst_conv)
  then show ?thesis using u by (simp add: still_active_def s1_def get_protection_def)
qed

text \<open>An order with the target is on the exchange when the stop is published.\<close>

definition target_seen :: "'x stop_client \<Rightarrow> position \<Rightarrow> protection \<Rightarrow> string \<Rightarrow> string \<Rightarrow> 'x \<Rightarrow> bool" where
  "target_seen client p pr quantity stop x \<longleftrightarrow>
     (\<exists>t order t'. find_order client (p_inst_id p) (pr_algo_client_order_id pr) t = (Inr (Some order), t') \<and> gd_okx t' = x \<and>
        stop_order order p (JStr quantity) (JStr stop) (pr_algo_client_order_id pr) (pr_kind pr))"

lemma resolve_outcome:
  assumes "store_ok (gd_pos s)" and pr: "get_protection (gd_pos s) (p_id p) = Some pr'" "pr_stop_loss pr' = pr_stop_loss pr"
    "pr_quantity pr' = pr_quantity pr" "pr_algo_id pr' = pr_algo_id pr" and "p_id p \<noteq> []"
    and run: "resolve_amend_error client env p pr quantity stop error i s = (r, s')"
  shows "(\<exists>d. r = Inr d \<and> gd_pos s' = gd_pos s \<and> gd_risk s' = gd_risk s \<and> gd_entry s' = gd_entry s \<and> target_seen client p pr quantity stop (gd_okx s')) \<or>
    (\<exists>e. r = Inl e) \<and> (fails_closed env (p_id p) s' \<or> still_active (p_id p) pr s s')"
proof -
  obtain ro t where f: "find_order client (p_inst_id p) (pr_algo_client_order_id pr) s = (ro, t)"
    by (cases "find_order client (p_inst_id p) (pr_algo_client_order_id pr) s")
  have t: "gd_pos t = gd_pos s" "gd_risk t = gd_risk s" "gd_entry t = gd_entry s" using quietD [OF quiet_find f] by auto
  have ok: "store_ok (gd_pos t)" "get_protection (gd_pos t) (p_id p) \<noteq> None" "get_protection (gd_pos t) (p_id p) = Some pr'"
    using t assms(1) pr(1) by auto
  show ?thesis
  proof (cases ro)
    case (Inl qe)
    obtain ra sa where fa: "fail_amend env p i (''amend outcome unknown: '' @ exc_text error @ ''; verification failed: '' @ exc_text qe) t = (ra :: jobj option result, sa)"
      by (cases "fail_amend env p i (''amend outcome unknown: '' @ exc_text error @ ''; verification failed: '' @ exc_text qe) t :: jobj option result \<times> _")
    from fail_amend_outcome [OF ok(1,2) fa assms(6)] obtain e where "ra = Inl (PositionProtectionError e)" "fails_closed env (p_id p) sa" by auto
    then have "r = Inl (PositionProtectionError e) \<and> s' = sa"
      using run f Inl fa by (auto simp: resolve_amend_error_def bindS_def catchS_def)
    with \<open>fails_closed env (p_id p) sa\<close> show ?thesis by auto
  next
    case (Inr order)
    let ?new = "verify_for_kind env order p (JStr quantity) (JStr stop) (pr_algo_client_order_id pr) (pr_kind pr)"
    let ?old = "verify_for_kind env order p (JStr quantity) (JFloat (PFin (pr_stop_loss pr))) (pr_algo_client_order_id pr) (pr_kind pr)"
    have run': "(case ?new of Inr d \<Rightarrow> returnS d
        | Inl _ \<Rightarrow> (case ?old of
            Inl ve \<Rightarrow> fail_amend env p i (''amend outcome unknown: '' @ exc_text error @ ''; '' @ exc_text ve)
          | Inr _ \<Rightarrow> amend_not_applied env p i error)) t = (r, s')"
      using run f Inr by (simp add: resolve_amend_error_def bindS_def catchS_def)
    show ?thesis
    proof (cases ?new)
      case new: (Inr d)
      from verify_for_kind_Inr [OF new] obtain o1 where "order = Some o1"
        "stop_order o1 p (JStr quantity) (JStr stop) (pr_algo_client_order_id pr) (pr_kind pr)" by blast
      then have "target_seen client p pr quantity stop (gd_okx t)" using f Inr by (auto simp: target_seen_def)
      moreover have "r = Inr d" "s' = t" using run' new by (simp_all add: returnS_def)
      ultimately show ?thesis using t by simp
    next
      case new: (Inl e1)
      show ?thesis
      proof (cases ?old)
        case (Inl ve)
        then have "fail_amend env p i (''amend outcome unknown: '' @ exc_text error @ ''; '' @ exc_text ve) t = (r, s')" using run' new by simp
        from fail_amend_outcome [OF ok(1,2) this assms(6)] show ?thesis by auto
      next
        case (Inr u)
        then have "amend_not_applied env p i error t = (r, s')" using run' new by simp
        from not_applied_outcome [OF ok(1,3) this assms(6)] have "(\<exists>x. r = Inl x) \<and> still_active (p_id p) pr' t s'" .
        then show ?thesis using pr t by (auto simp: still_active_def)
      qed
    qed
  qed
qed

lemma exchange_amend_outcome:
  assumes ok: "store_ok (gd_pos s)" and pr: "get_protection (gd_pos s) (p_id p) = Some pr'" "pr_stop_loss pr' = pr_stop_loss pr"
    "pr_quantity pr' = pr_quantity pr" "pr_algo_id pr' = pr_algo_id pr" and "p_id p \<noteq> []"
    and run: "exchange_amend client env p pr quantity stop i s = (r, s')"
  shows "(\<exists>d. r = Inr d \<and> gd_pos s' = gd_pos s \<and> gd_risk s' = gd_risk s \<and> gd_entry s' = gd_entry s \<and> target_seen client p pr quantity stop (gd_okx s')) \<or>
    (\<exists>e. r = Inl e) \<and> (fails_closed env (p_id p) s' \<or> still_active (p_id p) pr s s')"
proof -
  define m where "m = bindS (okx (sc_amend client (p_inst_id p) (pr_algo_id pr) quantity stop)) (\<lambda>_.
        bindS (find_order client (p_inst_id p) (pr_algo_client_order_id pr)) (\<lambda>order.
        liftS (verify_for_kind env order p (JStr quantity) (JStr stop) (pr_algo_client_order_id pr) (pr_kind pr))))"
  obtain r1 t where m: "m s = (r1, t)" by (cases "m s")
  have "quiet m" unfolding m_def by auto
  from quietD [OF this m] have t: "gd_pos t = gd_pos s" "gd_risk t = gd_risk s" "gd_entry t = gd_entry s" by auto
  show ?thesis
  proof (cases r1)
    case (Inr d)
    then have r: "r = Inr d" "s' = t" using run m by (simp_all add: exchange_amend_def m_def [symmetric] catchS_def)
    obtain t1 order where f: "find_order client (p_inst_id p) (pr_algo_client_order_id pr) t1 = (Inr order, t)"
      "verify_for_kind env order p (JStr quantity) (JStr stop) (pr_algo_client_order_id pr) (pr_kind pr) = Inr d"
      using m Inr unfolding m_def by (auto simp: result_simps)
    from verify_for_kind_Inr [OF f(2)] obtain o1 where "order = Some o1"
      "stop_order o1 p (JStr quantity) (JStr stop) (pr_algo_client_order_id pr) (pr_kind pr)" by blast
    then have "target_seen client p pr quantity stop (gd_okx t)" using f(1) by (auto simp: target_seen_def)
    then show ?thesis using r t by simp
  next
    case (Inl e)
    then have run': "resolve_amend_error client env p pr quantity stop e i t = (r, s')"
      using run m by (simp add: exchange_amend_def m_def [symmetric] catchS_def)
    have "store_ok (gd_pos t)" "get_protection (gd_pos t) (p_id p) = Some pr'" using ok pr(1) t by auto
    from resolve_outcome [OF this pr(2-4) assms(6) run'] show ?thesis using t by (auto simp: still_active_def)
  qed
qed

text \<open>The rule of a condition has the value of a stop.\<close>

definition rule_at :: "store \<Rightarrow> string \<Rightarrow> string \<Rightarrow> rat \<Rightarrow> bool" where
  "rule_at st pid cid x \<longleftrightarrow> (\<exists>c. get_close_condition st pid cid = Some c \<and> py_eq (JFloat (PFin x)) (jget (col_obj (c_expression c)) ''value''))"

lemma update_rule:
  assumes ok: "store_ok st" and "update_close_condition now pid cid None (Some (tset ''value'' (JFloat (PFin x)) e)) None m st = (Inr (Some c), st')"
  shows "rule_at st' pid cid x"
proof -
  let ?e = "tset ''value'' (JFloat (PFin x)) e"
  have get: "tget ?e ''value'' = Some (JFloat (PFin x))" by simp
  obtain c0 where c0: "get_close_condition st pid cid = Some c0"
    using assms(2) by (cases "get_close_condition st pid cid") (simp_all add: update_close_condition_def)
  obtain md where md: "normalize_position_rule (c_purpose c0) (JObj ?e) (c_enabled c0) (or_default m (col_obj (c_metadata c0))) = Inr md"
    using assms(2) c0 by (cases "normalize_position_rule (c_purpose c0) (JObj ?e) (c_enabled c0) (or_default m (col_obj (c_metadata c0)))")
      (simp_all add: update_close_condition_def Let_def)
  let ?same = "py_eq (JObj ?e) (JObj (col_obj (c_expression c0))) \<and> py_eq (JObj md) (JObj (col_obj (c_metadata c0)))"
  show ?thesis
  proof (cases ?same)
    case True
    then have st': "st' = st" using assms(2) c0 md by (simp add: update_close_condition_def Let_def del: py_eq.simps)
    have "(''value'', JFloat (PFin x)) \<in> set ?e" using get by (rule map_of_SomeD)
    moreover have "list_all (\<lambda>(k, v). case tget (col_obj (c_expression c0)) k of None \<Rightarrow> False | Some w \<Rightarrow> py_eq v w) ?e" using True by simp
    ultimately have "case tget (col_obj (c_expression c0)) ''value'' of None \<Rightarrow> False | Some w \<Rightarrow> py_eq (JFloat (PFin x)) w"
      by (auto simp: list_all_iff)
    then show ?thesis using c0 st' by (auto simp: rule_at_def jget_def split: option.splits)
  next
    case False
    obtain r1 st1 where save: "save_close_condition now (c0\<lparr>c_expression := dumps ?e, c_metadata := dumps md\<rparr>) st = (r1, st1)"
      by (cases "save_close_condition now (c0\<lparr>c_expression := dumps ?e, c_metadata := dumps md\<rparr>) st")
    have st1: "st' = st1" "\<exists>u. r1 = Inr u" "get_close_condition st1 pid cid = Some c"
      using assms(2) c0 md False save by (auto simp: update_close_condition_def Let_def simp del: py_eq.simps split: sum.splits)
    have "(cid, c0) \<in> set (st_conditions st)" using c0 by (auto simp: get_close_condition_def dest: map_of_SomeD split: option.splits if_splits)
    moreover have "conditions_ok (position_ids st) (st_conditions st)" using ok by (simp add: store_ok_def)
    ultimately have key: "c_id c0 = cid" "c_position_id c0 \<in> position_ids st" unfolding conditions_ok_def by (auto dest!: bspec)
    have "ps_get st (c_position_id c0) \<noteq> None" using key(2) by (simp add: ps_get_iff)
    then obtain c1 where c1: "normalized_condition now (c0\<lparr>c_expression := dumps ?e, c_metadata := dumps md\<rparr>) = Inr c1"
      "st1 = st\<lparr>st_conditions := tset cid c1 (st_conditions st)\<rparr>"
      using save st1(2) key(1) by (auto simp: save_close_condition_def split: sum.splits)
    then have "c1 = c" using st1(3) by (auto simp: get_close_condition_def split: if_splits)
    moreover have "col_obj (c_expression c1) = ?e"
      using c1(1) by (auto simp: normalized_condition_def result_simps col_obj_def json_loads_def as_obj_def)
    ultimately have "jget (col_obj (c_expression c)) ''value'' = JFloat (PFin x)" by (simp add: jget_def)
    then show ?thesis using st1 by (auto simp: rule_at_def num_of_def)
  qed
qed

lemma update_condition_protections:
  "st_protections (snd (update_close_condition now pid cid pu ex en md st)) = st_protections st"
  by (auto simp: update_close_condition_def save_close_condition_def Let_def simp del: py_eq.simps split: option.split sum.split)

lemma merge_metadata_others:
  "st_protections (snd (merge_metadata now pid m st)) = st_protections st"
  "st_conditions (snd (merge_metadata now pid m st)) = st_conditions st"
  by (simp_all add: merge_metadata_def Let_def put_position_def del: py_eq.simps split: option.split)

lemma on_units_Inr [result_simps]:
  "on_units m s = (Inr x, s') \<longleftrightarrow> (\<exists>st. m (gd_pos s) = (Inr x, st) \<and> s' = s\<lparr>gd_pos := st\<rparr>)"
  by (auto simp: on_units_def split: prod.split)

lemma atomically_cases:
  assumes "atomically m s = (r, s')"
  obtains e t where "m s = (Inl e, t)" "r = Inl e" "s' = t\<lparr>gd_pos := gd_pos s\<rparr>" | x where "m s = (Inr x, s')" "r = Inr x"
  using assms by (cases "m s") (auto simp: atomically_def split: sum.splits)

text \<open>Operations on the store alone.\<close>

definition store_le :: "'x guard_state \<Rightarrow> 'x guard_state \<Rightarrow> bool" where
  "store_le s s' \<longleftrightarrow> gd_risk s' = gd_risk s \<and> gd_entry s' = gd_entry s \<and> gd_okx s' = gd_okx s"

interpretation storing: action_relation store_le
  by unfold_locales (auto simp: store_le_def)

lemma storing_units: "behaves store_le (\<lambda>_. True) (\<lambda>_. True) (on_units m)"
  by (auto simp: behaves_def on_units_def store_le_def split: prod.split)

lemma publish_outcome:
  assumes ok: "store_ok (gd_pos s)" and pr: "get_protection (gd_pos s) (p_id p) = Some pr" and ne: "p_id p \<noteq> []"
    and run: "publish_amended_stop env p c e cm stop i d s = (r, s')"
  shows "store_le s s' \<and> store_ok (gd_pos s') \<and> (case r of
      Inl _ \<Rightarrow> gd_pos s' = gd_pos s
    | Inr q \<Rightarrow> rule_at (gd_pos s') (p_id p) (c_id c) (text_number stop) \<and>
        (\<exists>pr'. get_protection (gd_pos s') (p_id p) = Some pr' \<and> pr_status pr' = PActive \<and> pr_stop_loss pr' = text_number stop \<and>
           pr_quantity pr' = pr_quantity pr))"
proof -
  define body where "body =
       (bindS (on_units (update_close_condition (pe_now env) (p_id p) (c_id c) None
          (Some (tset ''value'' (JFloat (PFin (text_number stop))) e)) None
          (map_option (tmerge (col_obj (c_metadata c))) cm))) (\<lambda>updated.
        bindS (liftS (if updated = None then Inl (RuntimeError ''close condition disappeared after exchange amend'') else Inr ())) (\<lambda>_.
        bindS (on_units (update_protection (pe_now env) (p_id p) (Some PActive) None (Some (text_number stop)) None
          (Some (stop_amend_entry i [(''status'', JStr ''completed''), (''completed_at'', JStr (pe_now env))] @
            [(''verified_at'', jget d ''verified_at'')])))) (\<lambda>updated.
        bindS (liftS (if updated = None then Inl (RuntimeError ''owned protection disappeared after exchange amend'') else Inr ())) (\<lambda>_.
        bindS (on_units (merge_metadata (pe_now env) (p_id p) (verified_metadata env d))) (\<lambda>updated.
        liftS (case updated of None \<Rightarrow> Inl (RuntimeError ''logical position disappeared after exchange amend'') | Some q \<Rightarrow> Inr q)))))) :: ('a guard_state, position) action)"
  have quietly: "behaves store_le (\<lambda>_. True) (\<lambda>_. True) body"
    unfolding body_def by (intro storing.bind [where Q = "\<lambda>_. True"] storing_units storing.lift) simp_all
  have at: "atomically body s = (r, s')" using run unfolding publish_amended_stop_def body_def .
  then show ?thesis
  proof (cases rule: atomically_cases)
    case (1 x t)
    then have "store_le s t" using quietly by (auto simp: behaves_def dest!: spec [of _ s])
    then show ?thesis using 1 ok by (simp add: store_le_def)
  next
    case (2 q)
    then have le: "store_le s s'" using quietly by (auto simp: behaves_def dest!: spec [of _ s])
    let ?md = "map_option (tmerge (col_obj (c_metadata c))) cm" and ?ex = "tset ''value'' (JFloat (PFin (text_number stop))) e"
    obtain c' st1 pr2 st2 st3 where steps:
      "update_close_condition (pe_now env) (p_id p) (c_id c) None (Some ?ex) None ?md (gd_pos s) = (Inr (Some c'), st1)"
      "update_protection (pe_now env) (p_id p) (Some PActive) None (Some (text_number stop)) None
         (Some (stop_amend_entry i [(''status'', JStr ''completed''), (''completed_at'', JStr (pe_now env))] @
            [(''verified_at'', jget d ''verified_at'')])) st1 = (Inr (Some pr2), st2)"
      "merge_metadata (pe_now env) (p_id p) (verified_metadata env d) st2 = (Inr (Some q), st3)" "gd_pos s' = st3"
      using 2(1) unfolding body_def by (simp only: result_simps) (elim exE conjE, simp split: if_splits option.splits)
    have ok1: "store_ok st1" using update_condition_ok [OF ok] steps(1) by (metis snd_conv)
    have pr1: "get_protection st1 (p_id p) = Some pr"
      using update_condition_protections [of "pe_now env" "p_id p" "c_id c" None "Some ?ex" None ?md "gd_pos s"] steps(1) pr
      by (simp add: get_protection_def)
    have rule: "rule_at st1 (p_id p) (c_id c) (text_number stop)" by (rule update_rule [OF ok steps(1)])
    have pos: "0 < text_number stop"
      using steps(2) pr1 by (auto simp: update_protection_def split: if_splits)
    obtain pr' where u: "update_protection (pe_now env) (p_id p) (Some PActive) None (Some (text_number stop)) None
         (Some (stop_amend_entry i [(''status'', JStr ''completed''), (''completed_at'', JStr (pe_now env))] @
            [(''verified_at'', jget d ''verified_at'')])) st1 = (Inr (Some pr'), st1\<lparr>st_protections := tset (p_id p) pr' (st_protections st1)\<rparr>)"
      "pr_status pr' = PActive" "pr_stop_loss pr' = text_number stop" "pr_quantity pr' = pr_quantity pr"
      using update_protection_total [OF ok1 pr1 _ ne, of "Some (text_number stop)" "pe_now env" PActive] pos by auto
    have st2: "st2 = st1\<lparr>st_protections := tset (p_id p) pr' (st_protections st1)\<rparr>" using u(1) steps(2) by simp
    have ok2: "store_ok st2" using update_protection_ok [OF ok1] steps(2) by (metis snd_conv)
    have ok3: "store_ok st3" using lifecycle_ok(1) [OF ok2] steps(3) by (metis snd_conv)
    have same: "st_protections st3 = st_protections st2" "st_conditions st3 = st_conditions st2"
      using merge_metadata_others [of "pe_now env" "p_id p" "verified_metadata env d" st2] steps(3) by simp_all
    have "get_protection st3 (p_id p) = Some pr'" using same(1) st2 by (simp add: get_protection_def)
    moreover have "rule_at st3 (p_id p) (c_id c) (text_number stop)"
      using rule same(2) st2 by (simp add: rule_at_def get_close_condition_def)
    ultimately show ?thesis using 2 le ok3 steps(4) u by auto
  qed
qed

lemma carry_out_amend_outcome:
  assumes ok: "store_ok (gd_pos s)" and pr: "get_protection (gd_pos s) (p_id p) = Some pr" and ne: "p_id p \<noteq> []"
    and run: "carry_out_amend client env p pr c e cm quantity stop i s = (r, s')"
  shows "case r of
      Inr _ \<Rightarrow> rule_at (gd_pos s') (p_id p) (c_id c) (text_number stop) \<and>
        (\<exists>pr'. get_protection (gd_pos s') (p_id p) = Some pr' \<and> pr_status pr' = PActive \<and> pr_stop_loss pr' = text_number stop \<and>
           pr_quantity pr' = pr_quantity pr) \<and> target_seen client p pr quantity stop (gd_okx s')
    | Inl _ \<Rightarrow> fails_closed env (p_id p) s' \<or> still_active (p_id p) pr s s'"
proof -
  from update_protection_total [OF ok pr _ ne, of None "pe_now env" PAmending "[(''stop_amend'', JObj i)]"]
  obtain pr1 where u: "update_protection (pe_now env) (p_id p) (Some PAmending) None None None (Some [(''stop_amend'', JObj i)]) (gd_pos s) =
      (Inr (Some pr1), (gd_pos s)\<lparr>st_protections := tset (p_id p) pr1 (st_protections (gd_pos s))\<rparr>)"
      "pr_stop_loss pr1 = pr_stop_loss pr" "pr_quantity pr1 = pr_quantity pr" "pr_algo_id pr1 = pr_algo_id pr" by auto
  define s1 where "s1 = s\<lparr>gd_pos := (gd_pos s)\<lparr>st_protections := tset (p_id p) pr1 (st_protections (gd_pos s))\<rparr>\<rparr>"
  have ok1: "store_ok (gd_pos s1)" using update_protection_ok [OF ok, of "pe_now env" "p_id p" "Some PAmending" None None None "Some [(''stop_amend'', JObj i)]"] u(1)
    by (simp add: s1_def)
  have pr1: "get_protection (gd_pos s1) (p_id p) = Some pr1" by (simp add: s1_def get_protection_def)
  obtain r2 s2 where x: "exchange_amend client env p pr quantity stop i s1 = (r2, s2)" by (cases "exchange_amend client env p pr quantity stop i s1")
  have run': "(case r2 of Inl e2 \<Rightarrow> (Inl e2, s2) | Inr d \<Rightarrow>
      bindS (catchS (publish_amended_stop env p c e cm stop i d)
        (\<lambda>ex. fail_amend env p i (''atomic stop persistence failed after exchange amend: '' @ exc_text ex))) (\<lambda>updated.
      bindS (catchS (guard_audit env ''position.protection_stop_amended''
         (tmerge (tmerge (unit_payload p) i) [(''completed_at'', JStr (pe_now env)), (''proof'', JObj d)]))
       (\<lambda>ex. fail_amend env p i (''protective stop completion audit failed: '' @ exc_text ex))) (\<lambda>_.
      returnS updated)) s2) = (r, s')"
    using run u(1) x unfolding carry_out_amend_def s1_def
    by (simp add: bindS_def on_units_def ensure_def returnS_def split: sum.splits)
  note out = exchange_amend_outcome [OF ok1 pr1 u(2-4) ne x]
  have keep: "still_active (p_id p) pr s s'" if "still_active (p_id p) pr s1 s'"
    using that by (simp add: still_active_def s1_def)
  show ?thesis
  proof (cases r2)
    case (Inl e2)
    then show ?thesis using run' out keep by auto
  next
    case (Inr d)
    then have s2: "gd_pos s2 = gd_pos s1" "target_seen client p pr quantity stop (gd_okx s2)" using out by auto
    then have ok2: "store_ok (gd_pos s2)" "get_protection (gd_pos s2) (p_id p) = Some pr1" using ok1 pr1 by auto
    obtain r3 s3 where pub: "publish_amended_stop env p c e cm stop i d s2 = (r3, s3)" by (cases "publish_amended_stop env p c e cm stop i d s2")
    note po = publish_outcome [OF ok2 ne pub]
    show ?thesis
    proof (cases r3)
      case pubfail: (Inl ex)
      obtain r4 s4 where f: "fail_amend env p i (''atomic stop persistence failed after exchange amend: '' @ exc_text ex) s3 = (r4 :: position result, s4)"
        by (cases "fail_amend env p i (''atomic stop persistence failed after exchange amend: '' @ exc_text ex) s3 :: position result \<times> _")
      have "store_ok (gd_pos s3)" "get_protection (gd_pos s3) (p_id p) \<noteq> None" using po pubfail ok2 by auto
      from fail_amend_outcome [OF this f ne] obtain e4 where "r4 = Inl (PositionProtectionError e4)" "fails_closed env (p_id p) s4" by blast
      moreover from this have "r = r4 \<and> s' = s4" using run' Inr pub pubfail f by (simp add: bindS_def catchS_def)
      ultimately show ?thesis by simp
    next
      case published: (Inr q)
      then have published_rule: "rule_at (gd_pos s3) (p_id p) (c_id c) (text_number stop)" "store_ok (gd_pos s3)" "gd_okx s3 = gd_okx s2"
        and "\<exists>pr'. get_protection (gd_pos s3) (p_id p) = Some pr' \<and> pr_status pr' = PActive \<and> pr_stop_loss pr' = text_number stop \<and>
           pr_quantity pr' = pr_quantity pr1" using po by (auto simp: store_le_def)
      then obtain pr' where pr': "get_protection (gd_pos s3) (p_id p) = Some pr'" "pr_status pr' = PActive" "pr_stop_loss pr' = text_number stop"
        "pr_quantity pr' = pr_quantity pr" using u(3) by auto
      let ?payload = "tmerge (tmerge (unit_payload p) i) [(''completed_at'', JStr (pe_now env)), (''proof'', JObj d)]"
      obtain r5 s5 where a: "guard_audit env ''position.protection_stop_amended'' ?payload s3 = (r5, s5)"
        by (cases "guard_audit env ''position.protection_stop_amended'' ?payload s3")
      have s5: "gd_pos s5 = gd_pos s3" "gd_okx s5 = gd_okx s3" using a by (auto simp: guard_audit_def split: option.splits)
      show ?thesis
      proof (cases r5)
        case audited: (Inr w)
        then have "r = Inr q \<and> s' = s5" using run' Inr pub published a by (auto simp: bindS_def catchS_def returnS_def)
        then show ?thesis using published_rule pr' s5 s2(2) by auto
      next
        case unaudited: (Inl ex)
        obtain r4 s4 where f: "fail_amend env p i (''protective stop completion audit failed: '' @ exc_text ex) s5 = (r4 :: unit result, s4)"
          by (cases "fail_amend env p i (''protective stop completion audit failed: '' @ exc_text ex) s5 :: unit result \<times> _")
        have "store_ok (gd_pos s5)" "get_protection (gd_pos s5) (p_id p) \<noteq> None" using published_rule pr' s5 by auto
        from fail_amend_outcome [OF this f ne] obtain e4 where "r4 = Inl (PositionProtectionError e4)" "fails_closed env (p_id p) s4" by blast
        moreover from this have "r = Inl (PositionProtectionError e4) \<and> s' = s4"
          using run' Inr pub published a unaudited f by (auto simp: bindS_def catchS_def)
        ultimately show ?thesis by simp
      qed
    qed
  qed
qed

lemma quiet_bindE:
  assumes "bindS m f s = (r, s')" and "quiet m"
  obtains e where "r = Inl e" "quiet_le s s'" | x t where "m s = (Inr x, t)" "quiet_le s t" "f x t = (r, s')"
proof -
  obtain r1 t where m: "m s = (r1, t)" by (cases "m s")
  have "quiet_le s t" using quietD [OF assms(2) m] by (simp add: quiet_le_def)
  then show ?thesis using assms(1) m that by (cases r1) (auto simp: bindS_def)
qed

lemma amend_target_Inr:
  assumes "amend_target pid cid ep ec s = (Inr (p, pr, c), t)"
  shows "t = s \<and> ps_get (gd_pos s) pid = Some p \<and> get_protection (gd_pos s) pid = Some pr \<and> get_close_condition (gd_pos s) pid cid = Some c \<and>
    active_unit p \<and> pr_status pr = PActive \<and> c_purpose c = ''stop_loss'' \<and> 0 < unit_quantity p \<and> pr_quantity pr = unit_quantity p \<and>
    map c_id (enabled_stops (gd_pos s) (p_id p)) = [c_id c]"
  using assms unfolding amend_target_def
  by (simp only: result_simps split_beta prod.inject sum.inject) (elim exE conjE, simp)

lemma quiet_prepare [simp, intro!]: "quiet (prepare_amend client env pid cid e reason im ep ec)"
  unfolding prepare_amend_def Let_def by (auto split: prod.split)

lemma value_error_Inr [result_simps]: "value_error_as_protection m s = (Inr x, t) \<longleftrightarrow> m s = (Inr x, t)"
  by (auto simp: value_error_as_protection_def catchS_def unprotected_def liftS_def split: prod.splits sum.splits py_exc.splits)

lemma amend_terms_Inr:
  assumes "amend_terms client p expression s = (Inr (quantity, stop), t)"
  shows "\<exists>ic u. constraints_of client (p_inst_id p) s = (Inr ic, u) \<and> normalize_size ic (JFloat (PFin (unit_quantity p))) = Inr quantity \<and>
    normalize_price ic (jget expression ''value'') = Inr stop"
  using assms unfolding amend_terms_def by (auto simp: result_simps)

text \<open>The size and the trigger that an amendment asks for: the unit's whole quantity and the value of the
  requested expression, each as the instrument's constraints round it.\<close>

definition requested_terms :: "'x stop_client \<Rightarrow> position \<Rightarrow> jobj \<Rightarrow> string \<Rightarrow> string \<Rightarrow> bool" where
  "requested_terms client p expression quantity stop \<longleftrightarrow>
     is_ok (normalize_stop_expression p expression) \<and>
     (\<exists>ic s t. constraints_of client (p_inst_id p) s = (Inr ic, t) \<and> normalize_size ic (JFloat (PFin (unit_quantity p))) = Inr quantity \<and>
        normalize_price ic (jget expression ''value'') = Inr stop)"

lemma prepare_amend_Inr:
  assumes "prepare_amend client env pid cid e reason im ep ec s = (Inr ((p, pr, c), normalized, quantity, stop, i), t)"
  shows "\<exists>u. amend_target pid cid ep ec s = (Inr (p, pr, c), u)" and "requested_terms client p e quantity stop"
proof -
  obtain p' pr' c' u n q st v w where x: "amend_target pid cid ep ec s = (Inr (p', pr', c'), u)"
    "normalize_stop_expression p' e = Inr n" "amend_terms client p' e v = (Inr (q, st), w)"
    and y: "p' = p \<and> pr' = pr \<and> c' = c \<and> q = quantity \<and> st = stop"
    using assms unfolding prepare_amend_def Let_def
    by (simp only: result_simps split_paired_Ex prod.case sum.inject prod.inject) (elim exE conjE, rule that, simp_all)
  then show "\<exists>u. amend_target pid cid ep ec s = (Inr (p, pr, c), u)" by blast
  show "requested_terms client p e quantity stop"
    using x(2) amend_terms_Inr [OF x(3)] y by (auto simp: requested_terms_def)
qed

text \<open>C19: An amendment of a stop ends in one of four ways. It succeeds: the exchange reported the order of
  this protection live with the requested trigger, which is the value of the given expression rounded to the
  tick of the instrument, for the whole quantity of the unit, and rule and protection are stored
  together at that price. Or it raises, and then nothing in the store changed; or the protection is active at the old
  price with rules and positions untouched; or the outcome is unknown, and then the protection is marked
  failed, the process refuses entries and the stored entry switch is off unless the database could not
  store it.\<close>

theorem amend_outcomes:
  assumes ok: "store_ok (gd_pos s)" and ne: "position_id \<noteq> []"
    and run: "amend_stop_condition client env position_id condition_id expression reason cm im ep ec s = (r, s')"
  shows "case r of
      Inr _ \<Rightarrow> \<exists>p pr pr' quantity stop. ps_get (gd_pos s) position_id = Some p \<and> get_protection (gd_pos s) position_id = Some pr \<and>
        requested_terms client p expression quantity stop \<and>
        target_seen client p pr quantity stop (gd_okx s') \<and> rule_at (gd_pos s') position_id condition_id (text_number stop) \<and>
        get_protection (gd_pos s') position_id = Some pr' \<and> pr_status pr' = PActive \<and> pr_stop_loss pr' = text_number stop \<and>
        pr_quantity pr' = unit_quantity p
    | Inl _ \<Rightarrow> (gd_pos s' = gd_pos s \<and> gd_entry s' = gd_entry s) \<or> fails_closed env position_id s' \<or>
        (\<exists>pr. get_protection (gd_pos s) position_id = Some pr \<and> still_active position_id pr s s')"
proof -
  obtain x0 t where x0: "prepare_amend client env position_id condition_id expression reason im ep ec s = (x0, t)"
    by (cases "prepare_amend client env position_id condition_id expression reason im ep ec s")
  have t: "gd_pos t = gd_pos s" "gd_entry t = gd_entry s" using quietD [OF quiet_prepare x0] by auto
  show ?thesis
  proof (cases x0)
    case (Inl e)
    then have "r = Inl e \<and> s' = t" using run x0 by (simp add: amend_stop_condition_def bindS_def)
    then show ?thesis using t by simp
  next
    case x: (Inr x)
  obtain p pr c normalized quantity stop i where y: "x = ((p, pr, c), normalized, quantity, stop, i)" by (metis prod.collapse)
  note asked = prepare_amend_Inr(2) [OF x0 [unfolded x y]]
  from prepare_amend_Inr(1) [OF x0 [unfolded x y]] obtain u where "amend_target position_id condition_id ep ec s = (Inr (p, pr, c), u)" by blast
  note facts = amend_target_Inr [OF this]
  then have p: "ps_get (gd_pos s) position_id = Some p" "get_protection (gd_pos s) position_id = Some pr"
    "get_close_condition (gd_pos s) position_id condition_id = Some c" by auto
  have pid: "p_id p = position_id" using ps_getD [OF ok p(1)] by simp
  have "(condition_id, c) \<in> set (st_conditions (gd_pos s))"
    using p(3) by (auto simp: get_close_condition_def dest: map_of_SomeD split: option.splits if_splits)
  moreover have "conditions_ok (position_ids (gd_pos s)) (st_conditions (gd_pos s))" using ok by (simp add: store_ok_def)
  ultimately have cid: "c_id c = condition_id" unfolding conditions_ok_def by (auto dest!: bspec)
  have "carry_out_amend client env p pr c normalized cm quantity stop i t = (r, s')"
    using run x0 x y by (simp add: amend_stop_condition_def bindS_def)
  moreover have "store_ok (gd_pos t)" "get_protection (gd_pos t) (p_id p) = Some pr" "p_id p \<noteq> []" using ok p(2) ne pid t by simp_all
  ultimately have out: "case r of
      Inr _ \<Rightarrow> rule_at (gd_pos s') position_id condition_id (text_number stop) \<and>
        (\<exists>pr'. get_protection (gd_pos s') position_id = Some pr' \<and> pr_status pr' = PActive \<and> pr_stop_loss pr' = text_number stop \<and>
           pr_quantity pr' = pr_quantity pr) \<and> target_seen client p pr quantity stop (gd_okx s')
    | Inl _ \<Rightarrow> fails_closed env position_id s' \<or> still_active position_id pr t s'"
    using carry_out_amend_outcome [of t p pr client env c normalized cm quantity stop i r s'] unfolding pid cid by blast
  show ?thesis
  proof (cases r)
    case (Inl e)
    then show ?thesis using out p(2) t by (auto simp: still_active_def)
  next
    case (Inr q)
    then show ?thesis using out p asked facts by auto
  qed
  qed
qed

text \<open>C31: A verified stop is there. When \<^verbatim>\<open>verify_active\<close> returns, the store is unchanged, the protection is
  recorded active for the whole quantity of the unit, the exchange lists a live order with its
  identity, instrument, size and trigger (and, for a standalone stop, on the closing side and reduce-only;
  the code does not check these of a stop that was attached to the entry), the unit has exactly one enabled stop rule, at that price, and no applied
  break-even or trailing stop is tighter.\<close>

theorem verified_stop_is_there:
  assumes "verify_active client env position_id s = (Inr pr, s')"
  shows "gd_pos s' = gd_pos s \<and> (\<exists>p c orders order. ps_get (gd_pos s) position_id = Some p \<and> get_protection (gd_pos s) position_id = Some pr \<and>
      pr_status pr = PActive \<and> 0 < unit_quantity p \<and> pr_quantity pr = unit_quantity p \<and>
      pending_orders client (p_inst_id p) s = (Inr orders, s') \<and> order \<in> set orders \<and>
      stop_order order p (JFloat (PFin (pr_quantity pr))) (JFloat (PFin (pr_stop_loss pr))) (pr_algo_client_order_id pr) (pr_kind pr) \<and>
      enabled_stops (gd_pos s) (p_id p) = [c] \<and>
      same_decimal (jget (col_obj (c_expression c)) ''value'') (JFloat (PFin (pr_stop_loss pr))) \<and>
      (\<forall>(label, claim)\<in>set (claimed_stops (gd_pos s) (p_id p) c).
         protective_stop_is_looser (p_side p) (JFloat (PFin (pr_stop_loss pr))) claim = Inr False))"
proof -
  obtain p order proof_data claims where v: "ps_get (gd_pos s) position_id = Some p" "get_protection (gd_pos s) position_id = Some pr"
    "pr_status pr = PActive" "0 < unit_quantity p" "pr_quantity pr = unit_quantity p"
    "find_order client (p_inst_id p) (pr_algo_client_order_id pr) s = (Inr order, s')"
    "verify_for_kind env order p (JFloat (PFin (pr_quantity pr))) (JFloat (PFin (pr_stop_loss pr))) (pr_algo_client_order_id pr) (pr_kind pr) = Inr proof_data"
    "verify_persisted_stop_claims (gd_pos s') p pr = Inr claims"
    using assms [unfolded verify_active_def result_simps] by (elim exE conjE) (hypsubst, rule that, assumption+)
  have s': "gd_pos s' = gd_pos s" using quietD [OF quiet_find v(6)] by simp
  obtain o1 where o1: "order = Some o1"
    "stop_order o1 p (JFloat (PFin (pr_quantity pr))) (JFloat (PFin (pr_stop_loss pr))) (pr_algo_client_order_id pr) (pr_kind pr)"
    using verify_for_kind_Inr [OF v(7)] by blast
  obtain orders where orders: "pending_orders client (p_inst_id p) s = (Inr orders, s')" "find_pending orders (pr_algo_client_order_id pr) = Inr (Some o1)"
    using v(6) o1(1) by (auto simp: find_order_def result_simps)
  from verify_claims_Inr [OF v(8)] obtain c where "enabled_stops (gd_pos s') (p_id p) = [c]"
    "same_decimal (jget (col_obj (c_expression c)) ''value'') (JFloat (PFin (pr_stop_loss pr)))"
    "\<forall>(label, claim)\<in>set (claimed_stops (gd_pos s') (p_id p) c).
       protective_stop_is_looser (p_side p) (JFloat (PFin (pr_stop_loss pr))) claim = Inr False" by blast
  then show ?thesis using v(1-5) s' orders(1) o1(2) find_pending_Some [OF orders(2)] by (intro conjI exI) simp_all
qed

subsection \<open>A sample exchange\<close>

text \<open>The state of the sample exchange is the list of its conditional orders.\<close>

definition sample_exchange :: "jobj list stop_client" where
  "sample_exchange = \<lparr>sc_algos = (\<lambda>i ty orders. (Inr (if ty = ''conditional'' then orders else []), orders)),
     sc_algos_untyped = (\<lambda>i orders. (Inr orders, orders)), sc_positions = (\<lambda>orders. (Inr sample_rows, orders)),
     sc_instruments = (\<lambda>i orders. (Inr [[(''instId'', JStr i), (''state'', JStr ''live''), (''minSz'', JStr ''1''), (''lotSz'', JStr ''1''),
       (''tickSz'', JStr ''0.5'')]], orders)),
     sc_ticker = (\<lambda>i orders. (Inr [[(''last'', JStr ''100'')]], orders)),
     sc_amend = (\<lambda>i a sz stop orders. (Inr (), map (\<lambda>order. if text_of (jget order ''algoId'') = a
       then tset ''sz'' (JStr sz) (tset ''slTriggerPx'' (JStr stop) order) else order) orders)),
     sc_place = (\<lambda>i side sz stop a orders. (Inr [(''algoId'', JStr ''a9'')], orders @ [[(''algoId'', JStr ''a9''), (''algoClOrdId'', JStr a),
       (''instId'', JStr i), (''side'', JStr (if side = ''long'' then ''sell'' else ''buy'')), (''ordType'', JStr ''conditional''),
       (''state'', JStr ''live''), (''posSide'', JStr ''net''), (''reduceOnly'', JStr ''true''), (''sz'', JStr sz),
       (''slTriggerPx'', JStr stop), (''slOrdPx'', JStr ''-1'')]])),
     sc_cancel = (\<lambda>i a orders. (Inr (), filter (\<lambda>order. text_of (jget order ''algoId'') \<noteq> a) orders))\<rparr>"

definition sample_guard_env :: guard_env where
  "sample_guard_env = \<lparr>pe_now = ''t1'', pe_fresh = ''u1'', pe_digest = (\<lambda>s. s), pe_audit_error = (\<lambda>_. None), pe_switch_error = None\<rparr>"

definition sample_rule :: condition where
  "sample_rule = \<lparr>c_id = ''c1'', c_position_id = ''p1'', c_purpose = ''stop_loss'',
     c_expression = dumps [(''type'', JStr ''price_below''), (''symbol'', JStr ''BTC-USDT-SWAP''), (''value'', JFloat (PFin 90))],
     c_enabled = True, c_metadata = dumps [], c_created_at = ''t0'', c_updated_at = ''t0''\<rparr>"

definition sample_guard :: "jobj list guard_state" where
  "sample_guard = \<lparr>gd_pos = (snd (save_protection ''t0'' sample_stop (snd (save_close_condition ''t0'' sample_rule
       (put_position (sample_unit ''p1'' 3) empty_store))))),
     gd_audit = \<lparr>ad_events = [], ad_cursors = [], ad_acks = [], ad_health = [], ad_quarantine = []\<rparr>, gd_risk = sample_limits, gd_entry = True,
     gd_okx = [sample_algo]\<rparr>"

lemma sample_guard_ok: "store_ok (gd_pos sample_guard)"
proof -
  have "store_ok (put_position (sample_unit ''p1'' 3) empty_store)"
    by (rule put_position_ok [OF empty_store_ok]) (simp_all add: quantities_ok_def sample_unit_def client_taken_def empty_store_def)
  then show ?thesis unfolding sample_guard_def by (simp add: save_protection_ok save_close_condition_ok)
qed

definition tighter_stop :: jobj where
  "tighter_stop = [(''type'', JStr ''price_below''), (''symbol'', JStr ''self''), (''value'', JFloat (PFin 95))]"

definition sample_amend :: "position result \<times> jobj list guard_state" where
  "sample_amend = amend_stop_condition sample_exchange sample_guard_env ''p1'' ''c1'' tighter_stop ''review'' None [] None None sample_guard"

theorem amend_outcomes_witness:
  "\<exists>q s' stop. sample_amend = (Inr q, s') \<and> rule_at (gd_pos s') ''p1'' ''c1'' (text_number stop)"
proof -
  have ok: "case sample_amend of (Inl _, _) \<Rightarrow> False | (Inr _, _) \<Rightarrow> True" by code_simp
  obtain r s' where split: "sample_amend = (r, s')" by (cases sample_amend) blast
  from ok obtain q where r: "r = Inr q" unfolding split by (cases r) simp_all
  have run: "sample_amend = (Inr q, s')" using split r by simp
  have ne: "''p1'' \<noteq> ([] :: string)" by simp
  from amend_outcomes [OF sample_guard_ok ne run [unfolded sample_amend_def]] obtain stop where
    "rule_at (gd_pos s') ''p1'' ''c1'' (text_number stop)" unfolding sum.case by (elim exE conjE) (rule that)
  with run show ?thesis by (intro exI conjI)
qed

theorem verified_stop_is_there_witness:
  "\<exists>s' orders order. verify_active sample_exchange sample_guard_env ''p1'' sample_guard = (Inr (sample_stop\<lparr>pr_updated_at := ''t0''\<rparr>), s') \<and>
     pending_orders sample_exchange ''BTC-USDT-SWAP'' sample_guard = (Inr orders, s') \<and> order \<in> set orders \<and>
     stop_order order (sample_unit ''p1'' 3) (JFloat (PFin 3)) (JFloat (PFin 90)) ''c1'' StandaloneStop"
proof -
  let ?pr = "sample_stop\<lparr>pr_updated_at := ''t0''\<rparr>"
  have "case verify_active sample_exchange sample_guard_env ''p1'' sample_guard of (Inr pr, _) \<Rightarrow> pr = ?pr | _ \<Rightarrow> False" by code_simp
  then obtain s' where run: "verify_active sample_exchange sample_guard_env ''p1'' sample_guard = (Inr ?pr, s')"
    by (auto split: prod.splits sum.splits)
  have p: "ps_get (gd_pos sample_guard) ''p1'' = Some (sample_unit ''p1'' 3)" by code_simp
  have fields: "pr_quantity ?pr = 3" "pr_stop_loss ?pr = 90" "pr_algo_client_order_id ?pr = ''c1''" "pr_kind ?pr = StandaloneStop"
    "p_inst_id (sample_unit ''p1'' 3) = ''BTC-USDT-SWAP''"
    by (simp_all add: sample_stop_def sample_unit_def)
  from verified_stop_is_there [OF run] obtain orders order where
    "pending_orders sample_exchange (p_inst_id (sample_unit ''p1'' 3)) sample_guard = (Inr orders, s')" "order \<in> set orders"
    "stop_order order (sample_unit ''p1'' 3) (JFloat (PFin (pr_quantity ?pr))) (JFloat (PFin (pr_stop_loss ?pr))) (pr_algo_client_order_id ?pr) (pr_kind ?pr)"
    unfolding p by (elim exE conjE) (simp only: option.inject)
  with run show ?thesis unfolding fields by blast
qed

end
