(* ===== verification/OrderExecution.thy ===== *)
theory OrderExecution
  imports ExchangeClient PositionProtection
begin

section \<open>Order submission\<close>

text \<open>
  \<^verbatim>\<open>src/trading/order_protection.py\<close> and \<^verbatim>\<open>src/trading/executor.py\<close>: an entry goes to OKX as a
  fill-or-kill order with an attached stop, only with a fresh approval of the risk gate, and counts as
  protected only when OKX reports the filled order and exactly one live attached stop. The gate asks the
  executor's own client (\<open>gate_client\<close>); its reads see the exchange as it is when the approval begins, and
  leave it as it is. The positions behind the gate, the clock, the parser of timestamps and the digest are
  the environment of a call; waiting between two attempts does nothing.
\<close>

subsection \<open>Checking what OKX reports\<close>

definition order_decimal :: "json \<Rightarrow> string \<Rightarrow> decimal result" where
  "order_decimal j field =
     (case dec_of_json j of
        None \<Rightarrow> Inl (ProtectionVerificationError (field @ '' is missing or invalid''))
      | Some d \<Rightarrow> if dec_finite d \<and> 0 < dec_val d then Inr d
          else Inl (ProtectionVerificationError (field @ '' must be positive'')))"

definition not_proved :: "string \<Rightarrow> 'a result" where
  "not_proved message = Inl (ProtectionVerificationError message)"

definition prove_that :: "bool \<Rightarrow> string \<Rightarrow> unit result" where
  "prove_that b message = (if b then Inr () else not_proved message)"

definition order_state_of :: "jobj \<Rightarrow> string" where
  "order_state_of order = py_lower (text_of (jget order ''state''))"

definition attached_candidates :: "jobj \<Rightarrow> jobj list" where
  "attached_candidates order =
     (let listed = (case jget order ''attachAlgoOrds'' of JList xs \<Rightarrow> map as_obj (filter is_obj xs) | _ \<Rightarrow> []) in
      if listed = [] \<and> list_ex (\<lambda>k. \<not> blank (jget order k)) [''slTriggerPx'', ''slOrdPx'', ''tpTriggerPx'', ''tpOrdPx'']
      then [order] else listed)"

definition trigger_matches :: "jobj \<Rightarrow> string \<Rightarrow> string \<Rightarrow> decimal \<Rightarrow> bool result" where
  "trigger_matches attachment trigger ord expected =
     bindE (order_decimal (jget attachment trigger) ''OKX trigger'') (\<lambda>d.
     Inr (dec_val d = dec_val expected \<and> text_of (jget attachment ord) = ''-1''))"

text \<open>An attachment without a failure code; an unreadable trigger only skips it.\<close>

definition attachment_matches :: "string \<Rightarrow> decimal \<Rightarrow> decimal option \<Rightarrow> jobj \<Rightarrow> bool" where
  "attachment_matches attach_client_id sl tp attachment =
     (text_of (jget attachment ''failCode'') \<in> set [[], ''0''] \<and>
      bindE (trigger_matches attachment ''slTriggerPx'' ''slOrdPx'' sl) (\<lambda>sl_ok.
      bindE (case tp of None \<Rightarrow> Inr True | Some t \<Rightarrow> trigger_matches attachment ''tpTriggerPx'' ''tpOrdPx'' t) (\<lambda>tp_ok.
      Inr ((attach_client_id = [] \<or> text_of (jget attachment ''attachAlgoClOrdId'') = attach_client_id) \<and> sl_ok \<and> tp_ok))) = Inr True)"

definition check_fill :: "jobj \<Rightarrow> string \<Rightarrow> unit result" where
  "check_fill order expected_filled_size =
     (if expected_filled_size = [] then Inr ()
      else bindE (prove_that (order_state_of order = ''filled'') ''OKX FOK entry did not fill completely'') (\<lambda>_.
        bindE (order_decimal (jget order ''accFillSz'') ''OKX accumulated fill size'') (\<lambda>filled.
        bindE (order_decimal (JStr expected_filled_size) ''requested fill size'') (\<lambda>requested.
        prove_that (dec_val filled = dec_val requested) ''OKX FOK filled size does not match request''))))"

definition check_order_identity :: "jobj \<Rightarrow> string \<Rightarrow> string \<Rightarrow> string \<Rightarrow> unit result" where
  "check_order_identity order order_id client_order_id expected_order_type =
     bindE (prove_that (text_of (jget order ''ordId'') = order_id) ''OKX order detail ID does not match submission'') (\<lambda>_.
     bindE (prove_that (text_of (jget order ''clOrdId'') = client_order_id) ''OKX order detail client ID does not match intent'') (\<lambda>_.
     bindE (prove_that (order_state_of order \<in> set [''live'', ''partially_filled'', ''filled''])
       (''OKX order is not active or filled: '' @ (if order_state_of order = [] then ''missing'' else order_state_of order))) (\<lambda>_.
     prove_that (expected_order_type = [] \<or> py_lower (text_of (jget order ''ordType'')) = expected_order_type)
       ''OKX order type does not match submission'')))"

definition verify_attached_protection ::
  "jobj \<Rightarrow> string \<Rightarrow> string \<Rightarrow> string \<Rightarrow> string \<Rightarrow> string \<Rightarrow> string \<Rightarrow> string \<Rightarrow> jobj result" where
  "verify_attached_protection order order_id client_order_id stop_loss take_profit attach_client_id expected_order_type expected_filled_size =
     bindE (check_order_identity order order_id client_order_id expected_order_type) (\<lambda>_.
     bindE (check_fill order expected_filled_size) (\<lambda>_.
     bindE (prove_that (attached_candidates order \<noteq> []) ''OKX order detail has no attached protection'') (\<lambda>_.
     bindE (order_decimal (JStr stop_loss) ''requested stop loss'') (\<lambda>sl.
     bindE (if take_profit = [] then Inr None
            else bindE (order_decimal (JStr take_profit) ''requested take profit'') (\<lambda>t. Inr (Some t))) (\<lambda>tp.
     case filter (attachment_matches attach_client_id sl tp) (attached_candidates order) of
       [] \<Rightarrow> not_proved ''OKX order detail does not match the requested stop loss/take profit''
     | attachment # _ \<Rightarrow>
         Inr [(''order_id'', JStr order_id), (''state'', JStr (order_state_of order)), (''stop_loss'', JStr (dec_str sl)),
           (''take_profit'', JStr (case tp of None \<Rightarrow> [] | Some t \<Rightarrow> dec_str t)),
           (''attach_algo_id'', JStr (text_of (jget attachment ''attachAlgoId''))),
           (''attach_algo_client_id'', JStr (text_of (jget attachment ''attachAlgoClOrdId'')))])))))"

definition same_amount :: "json \<Rightarrow> string \<Rightarrow> string \<Rightarrow> bool result" where
  "same_amount reported requested field =
     bindE (order_decimal reported (''OKX '' @ field)) (\<lambda>a. bindE (order_decimal (JStr requested) (''requested '' @ field)) (\<lambda>b.
     Inr (dec_val a = dec_val b)))"

definition active_checks :: "jobj \<Rightarrow> string \<Rightarrow> string \<Rightarrow> string \<Rightarrow> string \<Rightarrow> (string \<times> bool) list result" where
  "active_checks order inst_id quantity stop_loss take_profit =
     bindE (same_amount (jget order ''sz'') quantity ''protection size'') (\<lambda>size_ok.
     bindE (same_amount (jget order ''slTriggerPx'') stop_loss ''active stop'') (\<lambda>stop_ok.
     bindE (if take_profit = [] then Inr []
            else bindE (same_amount (jget order ''tpTriggerPx'') take_profit ''active take profit'') (\<lambda>tp_ok.
              Inr [(''take-profit trigger'', tp_ok), (''take-profit order price'', text_of (jget order ''tpOrdPx'') = ''-1'')])) (\<lambda>tp_checks.
     Inr ([(''instrument'', text_of (jget order ''instId'') = inst_id), (''state'', order_state_of order = ''live''), (''size'', size_ok),
           (''stop trigger'', stop_ok), (''stop order price'', text_of (jget order ''slOrdPx'') = ''-1'')] @ tp_checks))))"

definition verify_active_attached_protection ::
  "jobj list \<Rightarrow> string \<Rightarrow> string \<Rightarrow> string \<Rightarrow> string \<Rightarrow> string \<Rightarrow> jobj result" where
  "verify_active_attached_protection orders inst_id attach_client_id quantity stop_loss take_profit =
     (case filter (\<lambda>order. text_of (jget order ''algoClOrdId'') = attach_client_id) orders of
        [order] \<Rightarrow>
          bindE (active_checks order inst_id quantity stop_loss take_profit) (\<lambda>checks.
          bindE (prove_that (failed_checks checks = []) (''OKX active attached protection mismatch: '' @ intersperse '', '' (failed_checks checks))) (\<lambda>_.
          bindE (prove_that (text_of (jget order ''algoId'') \<noteq> []) ''OKX active protection is missing algoId'') (\<lambda>_.
          Inr [(''algo_id'', JStr (text_of (jget order ''algoId''))), (''algo_client_order_id'', JStr attach_client_id),
            (''state'', JStr ''live''), (''quantity'', JStr quantity), (''stop_loss'', JStr stop_loss), (''take_profit'', JStr take_profit)])))
      | _ \<Rightarrow> not_proved ''OKX does not report exactly one active attached protection order'')"

subsection \<open>The executor\<close>

record 'x executor_state =
  xo_client :: "'x client_state"
  xo_risk :: risk_db
  xo_issued :: "string list"
  xo_used :: "string list"
  xo_constraints :: "(string, instrument_constraints) table"
  xo_instruments :: instrument_cache

record executor_env =
  xn_dry_run :: bool
  xn_units :: store
  xn_now_text :: string
  xn_now :: rat
  xn_iso :: "string \<Rightarrow> rat option"
  xn_fresh :: string
  xn_digest :: "string \<Rightarrow> string"
  xn_switch_error :: "py_exc option"

type_synonym ('x, 'a) executor = "('x executor_state, 'a) action"

record entry_request =
  er_inst_id :: string
  er_side :: string
  er_entry_price :: json
  er_size :: string
  er_stop_loss :: json
  er_client_order_id :: string
  er_take_profit :: "json option"

definition on_client :: "('x, 'a) client \<Rightarrow> ('x, 'a) executor" where
  "on_client m s = (case m (xo_client s) of (r, c) \<Rightarrow> (r, s\<lparr>xo_client := c\<rparr>))"

text \<open>Rows of a response: objects, or what Python raises on other values.\<close>

definition rows_of :: "json \<Rightarrow> jobj list result" where
  "rows_of j = bindE (py_iter j) (\<lambda>xs. if list_all is_obj xs then Inr (map as_obj xs) else Inl AttributeError)"

text \<open>The answers of the executor's client to the questions of the gate.\<close>

definition gate_client :: "'x sdk \<Rightarrow> 'x client_state \<Rightarrow> risk_client" where
  "gate_client api c = (let rows = (\<lambda>m. bindE (fst (m c)) rows_of) in
     \<lparr>rc_positions = rows (get_positions api ''SWAP'' []),
      rc_balance = rows (get_balance api []),
      rc_instruments = (\<lambda>inst_id. rows (get_instruments api ''SWAP'' inst_id)),
      rc_leverage = (\<lambda>inst_id. rows (get_leverage api inst_id ''cross'')),
      rc_algos = (\<lambda>inst_id ord_type. rows (get_pending_algo_orders api inst_id ord_type)),
      rc_algos_untyped = (\<lambda>inst_id. rows (get_pending_algo_orders api inst_id ''conditional'')),
      rc_pending_orders = rows (get_pending_orders api ''SWAP'')\<rparr>)"

definition run_gate :: "'x sdk \<Rightarrow> executor_env \<Rightarrow> string \<Rightarrow> string \<Rightarrow> json \<Rightarrow> json \<Rightarrow> json \<Rightarrow> ('x, entry_approval) executor" where
  "run_gate api env inst_id side requested_size entry_price stop_loss_price s =
     (case approve_entry (gate_client api (xo_client s)) (xo_risk s) (xn_units env) (xn_now_text env) (xn_fresh env) inst_id side
         requested_size entry_price stop_loss_price (xo_instruments s) of
        (r, cache) \<Rightarrow> (r, s\<lparr>xo_instruments := cache\<rparr>))"

definition plain_decimal :: "json \<Rightarrow> rat result" where
  "plain_decimal j = (case dec_of_json j of None \<Rightarrow> Inl InvalidOperation | Some d \<Rightarrow> Inr (dec_val d))"

definition dry_approval :: "executor_env \<Rightarrow> string \<Rightarrow> json \<Rightarrow> json \<Rightarrow> json \<Rightarrow> entry_approval result" where
  "dry_approval env inst_id requested_size entry_price stop_loss_price =
     bindE (plain_decimal requested_size) (\<lambda>quantity. bindE (plain_decimal entry_price) (\<lambda>price. bindE (plain_decimal stop_loss_price) (\<lambda>stop.
     Inr \<lparr>ea_approval_id = ''dry-run'', ea_inst_id = inst_id, ea_requested_size = quantity, ea_entry_price = price, ea_stop_loss_price = stop,
       ea_order_notional = 0, ea_existing_exposure = 0, ea_projected_exposure = 0, ea_worst_case_loss = 0,
       ea_existing_worst_case_loss = 0, ea_projected_worst_case_loss = 0, ea_equity = 0, ea_leverage = 0,
       ea_approved_at = xn_now_text env, ea_dry_run = True\<rparr>)))"

definition issue_approval :: "'x sdk \<Rightarrow> executor_env \<Rightarrow> string \<Rightarrow> string \<Rightarrow> json \<Rightarrow> json \<Rightarrow> json \<Rightarrow> ('x, entry_approval) executor" where
  "issue_approval api env inst_id side requested_size entry_price stop_loss_price =
     (if \<not> xn_dry_run env
      then bindS (run_gate api env inst_id side requested_size entry_price stop_loss_price) (\<lambda>a s.
        (Inr a, s\<lparr>xo_issued := List.insert (ea_approval_id a) (xo_issued s)\<rparr>))
      else liftS (dry_approval env inst_id requested_size entry_price stop_loss_price))"

definition check_entry_risk :: "'x sdk \<Rightarrow> executor_env \<Rightarrow> string \<Rightarrow> string \<Rightarrow> json \<Rightarrow> json \<Rightarrow> json \<Rightarrow> ('x, entry_approval) executor" where
  "check_entry_risk api env inst_id side requested_size entry_price stop_loss_price =
     (if \<not> xn_dry_run env then run_gate api env inst_id side requested_size entry_price stop_loss_price
      else issue_approval api env inst_id side requested_size entry_price stop_loss_price)"

subsection \<open>Submitting an entry\<close>

definition level_checks :: "string \<Rightarrow> pyfloat \<Rightarrow> pyfloat \<Rightarrow> pyfloat option \<Rightarrow> unit result" where
  "level_checks side entry stop take_profit =
     (if side = ''long'' \<and> fl_le entry stop then Inl (ValueError ''long stop loss must be below entry price'')
      else if side = ''short'' \<and> fl_le stop entry then Inl (ValueError ''short stop loss must be above entry price'')
      else (case take_profit of
          None \<Rightarrow> Inr ()
        | Some tp \<Rightarrow>
            if side = ''long'' \<and> fl_le tp entry then Inl (ValueError ''long take profit must be above entry price'')
            else if side = ''short'' \<and> fl_le entry tp then Inl (ValueError ''short take profit must be below entry price'')
            else Inr ()))"

definition check_levels :: "string \<Rightarrow> entry_request \<Rightarrow> unit result" where
  "check_levels side req =
     bindE (py_float (er_entry_price req)) (\<lambda>entry.
     bindE (py_float (er_stop_loss req)) (\<lambda>stop.
     bindE (case er_take_profit req of None \<Rightarrow> Inr None | Some j \<Rightarrow> bindE (py_float j) (\<lambda>tp. Inr (Some tp))) (\<lambda>tp.
     bindE (level_checks side entry stop tp) (\<lambda>_.
     positive_text (er_size req) ''requested size must be positive''))))"

definition fresh_approval :: "executor_env \<Rightarrow> entry_approval \<Rightarrow> unit result" where
  "fresh_approval env a =
     (case xn_iso env (ea_approved_at a) of
        None \<Rightarrow> Inl (ValueError ''Invalid isoformat string'')
      | Some approved_at \<Rightarrow>
          let age = xn_now env - approved_at in
          if age < 0 \<or> 5 < age then Inl (PermissionError ''account risk approval is stale'') else Inr ())"

definition usable_approval :: "executor_env \<Rightarrow> entry_request \<Rightarrow> entry_approval option \<Rightarrow> ('x, entry_approval) executor" where
  "usable_approval env req approval s =
     (case approval of
        None \<Rightarrow> Inl (PermissionError ''live entry requires a matching fresh account risk approval'')
      | Some a \<Rightarrow>
          bindE (approval_matches a (er_inst_id req) (JStr (er_size req)) (er_entry_price req) (er_stop_loss req)) (\<lambda>matching.
          if \<not> matching then Inl (PermissionError ''live entry requires a matching fresh account risk approval'')
          else if ea_approval_id a \<in> set (xo_used s) then Inl (PermissionError ''account risk approval has already been used'')
          else if ea_approval_id a \<notin> set (xo_issued s) then Inl (PermissionError ''account risk approval was not issued by this executor'')
          else bindE (fresh_approval env a) (\<lambda>_. Inr a)), s)"

definition consume_approval :: "executor_env \<Rightarrow> entry_request \<Rightarrow> entry_approval option \<Rightarrow> ('x, unit) executor" where
  "consume_approval env req approval =
     bindS (usable_approval env req approval) (\<lambda>a s.
       (Inr (), s\<lparr>xo_issued := removeAll (ea_approval_id a) (xo_issued s), xo_used := List.insert (ea_approval_id a) (xo_used s)\<rparr>))"

definition executor_constraints :: "'x sdk \<Rightarrow> string \<Rightarrow> ('x, instrument_constraints) executor" where
  "executor_constraints api inst_id s =
     (case tget (xo_constraints s) inst_id of
        Some ic \<Rightarrow> (Inr ic, s)
      | None \<Rightarrow>
          bindS (on_client (get_instruments api ''SWAP'' inst_id)) (\<lambda>data.
          bindS (liftS (rows_of data)) (\<lambda>payloads.
          bindS (liftS (case payloads of
              [payload] \<Rightarrow>
                bindE (constraints_from_okx payload) (\<lambda>ic.
                bindE (if ic_inst_id ic = inst_id then Inr ()
                  else Inl (ValueError (''OKX instrument mismatch: requested '' @ inst_id @ '', got '' @ ic_inst_id ic))) (\<lambda>_.
                bindE (validate_tradable ic) (\<lambda>_. Inr ic)))
            | _ \<Rightarrow> Inl (ValueError (''Expected one OKX instrument for '' @ inst_id @ '', got '' @ show_int (int (length payloads)))))) (\<lambda>ic s'.
          (Inr ic, s'\<lparr>xo_constraints := tset inst_id ic (xo_constraints s')\<rparr>)))) s)"

definition attachment_client_id :: "executor_env \<Rightarrow> string \<Rightarrow> string" where
  "attachment_client_id env client_order_id = ''mba'' @ take 29 (xn_digest env client_order_id)"

definition emergency_close_client_id :: "executor_env \<Rightarrow> string \<Rightarrow> string" where
  "emergency_close_client_id env client_order_id = ''mbe'' @ take 29 (xn_digest env client_order_id)"

definition fok_entry :: "executor_env \<Rightarrow> string \<Rightarrow> entry_request \<Rightarrow> string \<times> string \<times> string \<times> string \<Rightarrow> limit_order" where
  "fok_entry env side req = (\<lambda>(quantity, price, stop_loss, take_profit).
     \<lparr>lo_inst_id = er_inst_id req, lo_side = (if side = ''long'' then ''buy'' else ''sell''), lo_sz = quantity, lo_px = price,
      lo_td_mode = ''cross'', lo_tp_trigger = take_profit, lo_tp_ord = (if take_profit \<noteq> [] then ''-1'' else []),
      lo_sl_trigger = stop_loss, lo_sl_ord = ''-1'', lo_client_order_id = er_client_order_id req,
      lo_attach_client_order_id = attachment_client_id env (er_client_order_id req), lo_order_type = ''fok'', lo_confirm = True\<rparr>)"

definition entry_order_terms :: "'x sdk \<Rightarrow> string \<Rightarrow> entry_request \<Rightarrow> ('x, string \<times> string \<times> string \<times> string) executor" where
  "entry_order_terms api side req =
     bindS (executor_constraints api (er_inst_id req)) (\<lambda>ic.
     liftS (bindE (normalize_size ic (JStr (er_size req))) (\<lambda>quantity.
       bindE (normalize_entry_limit ic (er_entry_price req) side) (\<lambda>price.
       bindE (normalize_price ic (er_stop_loss req)) (\<lambda>stop_loss.
       bindE (case er_take_profit req of None \<Rightarrow> Inr [] | Some tp \<Rightarrow> normalize_price ic tp) (\<lambda>take_profit.
       Inr (quantity, price, stop_loss, take_profit)))))))"

text \<open>The details of the accepted order: at most five looks, until it is no longer live.\<close>

definition one_order :: "json \<Rightarrow> jobj result" where
  "one_order data =
     (case data of
        JList [JObj d] \<Rightarrow> Inr d
      | JList [_] \<Rightarrow> Inl AttributeError
      | JList _ \<Rightarrow> Inl (RuntimeError ''OKX did not return one accepted order detail'')
      | _ \<Rightarrow> Inl TypeError)"

primrec get_fok_order :: "'x sdk \<Rightarrow> string \<Rightarrow> string \<Rightarrow> nat \<Rightarrow> ('x, jobj) executor" where
  "get_fok_order api inst_id order_id 0 = liftS (Inl (RuntimeError ''OKX FOK order detail is missing''))"
| "get_fok_order api inst_id order_id (Suc n) =
     bindS (on_client (get_order api inst_id order_id [])) (\<lambda>data.
     bindS (liftS (one_order data)) (\<lambda>order.
     if order_state_of order \<noteq> ''live'' \<or> n = 0 then returnS order else get_fok_order api inst_id order_id n))"

definition look_for_attachment ::
  "'x sdk \<Rightarrow> string \<Rightarrow> string \<Rightarrow> string \<times> string \<times> string \<times> string \<Rightarrow> ('x, jobj) executor" where
  "look_for_attachment api inst_id attach_client_id = (\<lambda>(quantity, price, stop_loss, take_profit).
     bindS (on_client (get_pending_algo_orders api inst_id ''conditional'')) (\<lambda>xs.
     bindS (liftS (rows_of xs)) (\<lambda>conditional.
     bindS (on_client (get_pending_algo_orders api inst_id ''oco'')) (\<lambda>ys.
     bindS (liftS (rows_of ys)) (\<lambda>oco.
     liftS (verify_active_attached_protection (conditional @ oco) inst_id attach_client_id quantity stop_loss take_profit))))))"

definition verification_failed :: "py_exc \<Rightarrow> ('x, 'a) executor" where
  "verification_failed e = liftS (Inl (case e of ProtectionVerificationError m \<Rightarrow> ProtectionVerificationError m
     | _ \<Rightarrow> ProtectionVerificationError (''failed to verify active OKX protection: '' @ exc_text e)))"

primrec verify_active_attachment ::
  "'x sdk \<Rightarrow> string \<Rightarrow> string \<Rightarrow> string \<times> string \<times> string \<times> string \<Rightarrow> nat \<Rightarrow> py_exc \<Rightarrow> ('x, jobj) executor" where
  "verify_active_attachment api inst_id attach_client_id terms 0 last_error = verification_failed last_error"
| "verify_active_attachment api inst_id attach_client_id terms (Suc n) last_error =
     catchS (look_for_attachment api inst_id attach_client_id terms)
       (\<lambda>e. verify_active_attachment api inst_id attach_client_id terms n e)"

definition switch_entries_off :: "executor_env \<Rightarrow> ('x, unit) executor" where
  "switch_entries_off env s =
     (case xn_switch_error env of
        Some e \<Rightarrow> (Inl e, s)
      | None \<Rightarrow>
          (case set_entries_enabled False (xo_risk s) of
             (Inl e, db) \<Rightarrow> (Inl e, s\<lparr>xo_risk := db\<rparr>)
           | (Inr _, db) \<Rightarrow> on_client disable_client_entries (s\<lparr>xo_risk := db\<rparr>)))"

text \<open>\<^verbatim>\<open>try: cancel except Exception as exc: cancel_error = str(exc)\<close>\<close>

definition try_cancel :: "'x sdk \<Rightarrow> string \<Rightarrow> string \<Rightarrow> ('x, bool \<times> string) executor" where
  "try_cancel api inst_id order_id =
     catchS (bindS (on_client (cancel_order api inst_id order_id)) (\<lambda>_. returnS (True, []))) (\<lambda>e. returnS (False, exc_text e))"

definition unprotected_entry ::
  "'x sdk \<Rightarrow> executor_env \<Rightarrow> entry_request \<Rightarrow> string \<Rightarrow> string \<Rightarrow> jobj \<Rightarrow> string \<Rightarrow> py_exc \<Rightarrow> ('x, jobj) executor" where
  "unprotected_entry api env req quantity order_id response state e =
     (let kill = state \<in> set [[], ''filled'', ''partially_filled''] in
      bindS (whenS kill (switch_entries_off env)) (\<lambda>_.
      bindS (if state \<in> set [[], ''live'', ''partially_filled''] then try_cancel api (er_inst_id req) order_id else returnS (False, [])) (\<lambda>(requested, problem).
      returnS (tmerge response
        [(''maybechRequestedSize'', JStr quantity), (''maybechProtectionVerified'', JBool False), (''maybechProtectionError'', JStr (exc_text e)),
         (''maybechCancelRequested'', JBool requested), (''maybechCancelError'', JStr problem), (''maybechOrderState'', JStr state),
         (''maybechEntryKillActivated'', JBool kill), (''maybechEmergencyCloseRequired'', JBool (state = ''filled'')),
         (''maybechEmergencyCloseClientOrderId'',
            JStr (if state = ''filled'' then emergency_close_client_id env (er_client_order_id req) else [])),
         (''maybechEmergencyCloseQuantity'', JStr quantity)]))))"

definition protected_entry ::
  "'x sdk \<Rightarrow> executor_env \<Rightarrow> entry_request \<Rightarrow> string \<times> string \<times> string \<times> string \<Rightarrow> string \<Rightarrow> jobj \<Rightarrow> ('x, jobj) executor" where
  "protected_entry api env req terms order_id order = (case terms of (quantity, price, stop_loss, take_profit) \<Rightarrow>
     bindS (liftS (verify_attached_protection order order_id (er_client_order_id req) stop_loss take_profit
       (attachment_client_id env (er_client_order_id req)) ''fok'' quantity)) (\<lambda>requested.
     bindS (verify_active_attachment api (er_inst_id req) (attachment_client_id env (er_client_order_id req)) terms 5 TypeError) (\<lambda>active.
     returnS [(''requested'', JObj requested), (''active'', JObj active)])))"

text \<open>\<^verbatim>\<open>try: m except Exception as e: bad\<close> with the rest of the function in \<open>ok\<close>.\<close>

definition tryS :: "('s, 'a) action \<Rightarrow> (py_exc \<Rightarrow> ('s, 'b) action) \<Rightarrow> ('a \<Rightarrow> ('s, 'b) action) \<Rightarrow> ('s, 'b) action" where
  "tryS m bad ok s = (case m s of (Inl e, s') \<Rightarrow> bad e s' | (Inr x, s') \<Rightarrow> ok x s')"

text \<open>After OKX took the order: prove the protection, or make the process safe.\<close>

definition settle_entry ::
  "'x sdk \<Rightarrow> executor_env \<Rightarrow> entry_request \<Rightarrow> string \<times> string \<times> string \<times> string \<Rightarrow> jobj \<Rightarrow> ('x, jobj) executor" where
  "settle_entry api env req terms response =
     (let order_id = text_of (jget response ''ordId''); quantity = fst terms in
      tryS (get_fok_order api (er_inst_id req) order_id 5)
        (unprotected_entry api env req quantity order_id response [])
        (\<lambda>order. tryS (protected_entry api env req terms order_id order)
           (unprotected_entry api env req quantity order_id response (order_state_of order))
           (\<lambda>protection. returnS (tmerge response [(''maybechRequestedSize'', JStr quantity), (''maybechProtectionVerified'', JBool True),
              (''maybechProtection'', JObj protection)]))))"

definition live_entry :: "'x sdk \<Rightarrow> executor_env \<Rightarrow> string \<Rightarrow> entry_request \<Rightarrow> entry_approval option \<Rightarrow> ('x, jobj) executor" where
  "live_entry api env side req approval =
     bindS (consume_approval env req approval) (\<lambda>_.
     bindS (entry_order_terms api side req) (\<lambda>terms.
     bindS (on_client (place_limit_order api (fok_entry env side req terms))) (\<lambda>response.
     if response = [] then returnS [] else settle_entry api env req terms response)))"

definition try_entry :: "'x sdk \<Rightarrow> executor_env \<Rightarrow> entry_request \<Rightarrow> entry_approval option \<Rightarrow> ('x, jobj) executor" where
  "try_entry api env req approval =
     bindS (liftS (check_levels (py_lower (er_side req)) req)) (\<lambda>_.
     if xn_dry_run env
     then returnS [(''ordId'', JStr ''mock_ord_123''), (''clOrdId'', JStr (er_client_order_id req)), (''tag'', JStr ''dry_run''),
       (''maybechRequestedSize'', JStr (er_size req))]
     else live_entry api env (py_lower (er_side req)) req approval)"

definition execute :: "'x sdk \<Rightarrow> executor_env \<Rightarrow> entry_request \<Rightarrow> entry_approval option \<Rightarrow> ('x, jobj) executor" where
  "execute api env req approval =
     (if py_lower (er_side req) = ''long'' \<or> py_lower (er_side req) = ''short''
      then catchS (try_entry api env req approval) (\<lambda>_. returnS [])
      else liftS (Inl (ValueError ''position_side must be long or short'')))"

definition close_position :: "'x sdk \<Rightarrow> executor_env \<Rightarrow> string \<Rightarrow> string \<Rightarrow> pyfloat \<Rightarrow> string \<Rightarrow> string \<Rightarrow> ('x, jobj) executor" where
  "close_position api env inst_id position_side quantity client_order_id pos_side =
     bindS (demand (\<not> fl_le quantity (PFin 0)) (ValueError ''close quantity must be positive'')) (\<lambda>_.
     if xn_dry_run env
     then returnS [(''ordId'', JStr (''mock_close_'' @ inst_id)), (''clOrdId'', JStr client_order_id), (''tag'', JStr ''dry_run'')]
     else catchS
       (bindS (executor_constraints api inst_id) (\<lambda>ic.
        bindS (liftS (normalize_size ic (JFloat quantity))) (\<lambda>quantity.
        on_client (place_reduce_market_order api inst_id position_side quantity ''cross'' pos_side client_order_id True))))
       (\<lambda>_. returnS []))"

subsection \<open>Steps that open no exposure\<close>

text \<open>The kit notes its calls. Most steps of the executor leave its approvals alone and send nothing that
  could open exposure.\<close>

abbreviation exec_sent :: "('x \<times> sdk_log) executor_state \<Rightarrow> sdk_log" where
  "exec_sent s \<equiv> sent (xo_client s)"

definition tame_le :: "('x \<times> sdk_log) executor_state \<Rightarrow> ('x \<times> sdk_log) executor_state \<Rightarrow> bool" where
  "tame_le s t \<longleftrightarrow> xo_used t = xo_used s \<and> xo_issued t = xo_issued s \<and>
     (\<exists>new. exec_sent t = exec_sent s @ new \<and> list_all (\<lambda>c. \<not> opens_exposure c) new)"

lemma tame_le_trans: "tame_le s t \<Longrightarrow> tame_le t u \<Longrightarrow> tame_le s u"
  unfolding tame_le_def
proof (elim conjE exE, intro conjI)
  fix xs ys
  assume "exec_sent t = exec_sent s @ xs" "exec_sent u = exec_sent t @ ys"
    "list_all (\<lambda>c. \<not> opens_exposure c) xs" "list_all (\<lambda>c. \<not> opens_exposure c) ys"
  then show "\<exists>new. exec_sent u = exec_sent s @ new \<and> list_all (\<lambda>c. \<not> opens_exposure c) new"
    by (intro exI [of _ "xs @ ys"]) simp
qed simp_all

interpretation tame: action_relation tame_le
  by unfold_locales (simp add: tame_le_def, rule tame_le_trans)

abbreviation tame :: "('x \<times> sdk_log, 'a) executor \<Rightarrow> bool" where
  "tame \<equiv> behaves tame_le (\<lambda>_. True) (\<lambda>_. True)"

lemma tame_basic [simp, intro!]: "tame (liftS r)" "tame (returnS x)" "tame (demand b e)"
  by (simp_all add: tame.lift tame.return demand_def)

lemma tame_bind [intro!]: "tame m \<Longrightarrow> (\<And>x. tame (f x)) \<Longrightarrow> tame (bindS m f)"
  by (rule tame.bind)

lemma tame_catch [intro!]: "tame m \<Longrightarrow> (\<And>e. tame (h e)) \<Longrightarrow> tame (catchS m h)"
  by (rule tame.catch)

lemma tame_when [intro!]: "tame m \<Longrightarrow> tame (whenS b m)"
  by (rule tame.guarded) simp_all

lemma tame_client:
  assumes "\<And>s. calls s (\<lambda>c. \<not> opens_exposure c) m"
  shows "tame (on_client m)"
proof -
  have "tame_le s (snd (on_client m s))" for s
    using assms [of "xo_client s"] by (auto simp: calls_def Let_def tame_le_def on_client_def split: prod.split)
  then show ?thesis by (simp add: behaves_def)
qed

lemma tame_disable [intro!]: "tame (on_client disable_client_entries)"
  by (simp add: behaves_def tame_le_def on_client_def disable_client_entries_def)

lemma read_opens_nothing [simp]: "name \<in> set query_methods \<Longrightarrow> \<not> opens_exposure (name, args)"
  by (auto simp: opens_exposure_def query_methods_def)

lemma tame_queries [simp, intro!]:
  "tame (on_client (get_order (recorded api) i oid cid))" "tame (on_client (get_pending_algo_orders (recorded api) i t))"
  "tame (on_client (get_instruments (recorded api) ty i))"
  unfolding get_pending_algo_orders_def get_instruments_def
  by (intro tame_client calls_get_order calls_query, simp add: opens_exposure_def)+

lemma tame_cancel [simp, intro!]: "tame (on_client (cancel_order (recorded api) i oid))"
  unfolding cancel_order_def
  by (intro tame_client calls_guarded calls_lifted calls_sdk) (simp_all add: opens_exposure_def)

lemma tame_constraints [simp, intro!]: "tame (executor_constraints (recorded api) i)"
proof -
  have fetch: "tame (bindS (on_client (get_instruments (recorded api) ''SWAP'' i)) (\<lambda>data. bindS (liftS (rows_of data)) (\<lambda>payloads.
      bindS (liftS (g payloads)) (\<lambda>ic s'. (Inr ic, s'\<lparr>xo_constraints := tset i ic (xo_constraints s')\<rparr>)))))" for g
    by (intro tame_bind tame_queries tame_basic) (simp add: behaves_def tame_le_def)
  show ?thesis
    unfolding behaves_def
  proof (intro allI impI conjI)
    fix s
    show "tame_le s (snd (executor_constraints (recorded api) i s))"
      unfolding executor_constraints_def using fetch by (auto simp: behaves_def tame.le_refl split: option.split)
  qed simp_all
qed

lemma tame_terms [simp, intro!]: "tame (entry_order_terms (recorded api) side req)"
  unfolding entry_order_terms_def by auto

lemma tame_details [simp, intro!]: "tame (get_fok_order (recorded api) i oid n)"
  by (induction n) auto

lemma tame_look [simp, intro!]: "tame (look_for_attachment (recorded api) i a terms)"
  unfolding look_for_attachment_def by (auto split: prod.split)

lemma tame_active [simp, intro!]: "tame (verify_active_attachment (recorded api) i a terms n e)"
  by (induction n arbitrary: e) (auto simp: verification_failed_def)

lemma tame_switch [simp, intro!]: "tame (switch_entries_off env)"
  by (auto simp: behaves_def switch_entries_off_def tame_le_def on_client_def disable_client_entries_def split: option.split prod.split sum.split)

lemma tame_unprotected [simp, intro!]: "tame (unprotected_entry (recorded api) env req q oid response st e)"
  unfolding unprotected_entry_def try_cancel_def Let_def by (auto split: prod.split)

lemma tame_protected [simp, intro!]: "tame (protected_entry (recorded api) env req terms oid order)"
  unfolding protected_entry_def by (auto split: prod.split)

lemma tame_try [intro!]:
  assumes m: "tame m" and "\<And>e. tame (bad e)" "\<And>x. tame (ok x)"
  shows "tame (tryS m bad ok)"
proof -
  have "tame_le s (snd (tryS m bad ok s))" for s
  proof -
    obtain r t where r: "m s = (r, t)" by (cases "m s")
    with m have st: "tame_le s t" by (auto simp: behaves_def dest!: spec [of _ s])
    have "tame_le t (snd (bad e t))" "tame_le t (snd (ok x t))" for e x using assms(2,3) by (simp_all add: behaves_def)
    with r st show ?thesis by (cases r) (auto simp: tryS_def intro: tame.le_trans)
  qed
  then show ?thesis by (simp add: behaves_def)
qed

lemma tame_settle [simp, intro!]: "tame (settle_entry (recorded api) env req terms response)"
  unfolding settle_entry_def Let_def by auto

subsection \<open>An order needs its own approval\<close>

lemma tameD: "tame m \<Longrightarrow> m s = (r, t) \<Longrightarrow> tame_le s t"
  by (auto simp: behaves_def dest!: spec [of _ s])

lemma usable_approval_Inr:
  assumes "usable_approval env req approval s = (Inr a, t)"
  shows "t = s \<and> approval = Some a \<and> ea_approval_id a \<in> set (xo_issued s) \<and> ea_approval_id a \<notin> set (xo_used s) \<and>
    approval_matches a (er_inst_id req) (JStr (er_size req)) (er_entry_price req) (er_stop_loss req) = Inr True \<and>
    (\<exists>issued_at. xn_iso env (ea_approved_at a) = Some issued_at \<and> issued_at \<le> xn_now env \<and> xn_now env \<le> issued_at + 5)"
  using assms by (auto simp: usable_approval_def fresh_approval_def result_simps Let_def split: option.splits if_splits)

lemma calls_place: "calls s (\<lambda>c. c = (''place_order'', limit_args lo)) (place_limit_order (recorded api) lo)"
  unfolding place_limit_order_def by (intro calls_guarded guards_stay calls_lifted calls_sdk refl)

lemma entry_terms_normalized:
  assumes "entry_order_terms api side req s = (Inr (quantity, price, stop_loss, take_profit), t)"
  shows "\<exists>ic. normalize_size ic (JStr (er_size req)) = Inr quantity \<and> normalize_entry_limit ic (er_entry_price req) side = Inr price \<and>
    normalize_price ic (er_stop_loss req) = Inr stop_loss"
  using assms by (auto simp: entry_order_terms_def result_simps)

text \<open>The one order that a submission may send, and the approval it takes.\<close>

definition approved_order ::
  "executor_env \<Rightarrow> entry_request \<Rightarrow> entry_approval option \<Rightarrow> ('x \<times> sdk_log) executor_state \<Rightarrow> ('x \<times> sdk_log) executor_state \<Rightarrow>
   string \<times> jobj \<Rightarrow> bool" where
  "approved_order env req approval s s' c \<longleftrightarrow> (\<exists>a issued_at ic quantity price stop_loss take_profit.
     approval = Some a \<and> \<not> xn_dry_run env \<and> ea_approval_id a \<in> set (xo_issued s) \<and> ea_approval_id a \<notin> set (xo_used s) \<and>
     xo_used s' = ea_approval_id a # xo_used s \<and> xo_issued s' = removeAll (ea_approval_id a) (xo_issued s) \<and>
     approval_matches a (er_inst_id req) (JStr (er_size req)) (er_entry_price req) (er_stop_loss req) = Inr True \<and>
     xn_iso env (ea_approved_at a) = Some issued_at \<and> issued_at \<le> xn_now env \<and> xn_now env \<le> issued_at + 5 \<and>
     normalize_size ic (JStr (er_size req)) = Inr quantity \<and>
     normalize_entry_limit ic (er_entry_price req) (py_lower (er_side req)) = Inr price \<and>
     normalize_price ic (er_stop_loss req) = Inr stop_loss \<and>
     c = (''place_order'', limit_args (fok_entry env (py_lower (er_side req)) req (quantity, price, stop_loss, take_profit))))"

lemma approved_order_uses:
  assumes "approved_order env req approval s s' c"
  shows "\<exists>i. i \<in> set (xo_issued s) \<and> i \<notin> set (xo_used s) \<and> xo_used s' = i # xo_used s \<and> xo_issued s' = removeAll i (xo_issued s)"
  using assms unfolding approved_order_def by (elim exE conjE) (intro exI conjI, assumption+)

lemma tame_leE:
  assumes "tame_le s t"
  obtains new where "xo_used t = xo_used s" "xo_issued t = xo_issued s" "exec_sent t = exec_sent s @ new" "filter opens_exposure new = []"
  using assms by (auto simp: tame_le_def list_all_iff filter_empty_conv)

lemma live_entry_sends:
  assumes run: "live_entry (recorded api) env (py_lower (er_side req)) req approval s = (r, s')" and live: "\<not> xn_dry_run env"
  shows "\<exists>new. exec_sent s' = exec_sent s @ new \<and>
    (filter opens_exposure new = [] \<and> set (xo_used s) \<subseteq> set (xo_used s') \<and> set (xo_used s') \<subseteq> set (xo_used s) \<union> set (xo_issued s) \<and>
       (distinct (xo_used s) \<longrightarrow> distinct (xo_used s')) \<and> set (xo_issued s') \<subseteq> set (xo_issued s) \<or>
     (\<exists>c. filter opens_exposure new = [c] \<and> approved_order env req approval s s' c))"
proof -
  let ?side = "py_lower (er_side req)"
  obtain x1 s1 where use: "usable_approval env req approval s = (x1, s1)" by fastforce
  show ?thesis
  proof (cases x1)
    case (Inl e)
    have "s1 = s" using use by (auto simp: usable_approval_def)
    then have "s' = s" using run use Inl by (simp add: live_entry_def consume_approval_def bindS_def)
    then show ?thesis by simp
  next
    case (Inr a)
    note facts = usable_approval_Inr [OF use [unfolded Inr]]
    then obtain issued_at where a: "s1 = s" "approval = Some a" "ea_approval_id a \<in> set (xo_issued s)" "ea_approval_id a \<notin> set (xo_used s)"
      "approval_matches a (er_inst_id req) (JStr (er_size req)) (er_entry_price req) (er_stop_loss req) = Inr True"
      "xn_iso env (ea_approved_at a) = Some issued_at" "issued_at \<le> xn_now env" "xn_now env \<le> issued_at + 5" by blast
    let ?s2 = "s\<lparr>xo_issued := removeAll (ea_approval_id a) (xo_issued s), xo_used := ea_approval_id a # xo_used s\<rparr>"
    obtain x3 s3 where terms: "entry_order_terms (recorded api) ?side req ?s2 = (x3, s3)" by fastforce
    obtain new3 where n3: "xo_used s3 = ea_approval_id a # xo_used s" "xo_issued s3 = removeAll (ea_approval_id a) (xo_issued s)"
      "exec_sent s3 = exec_sent s @ new3" "filter opens_exposure new3 = []"
      using tame_leE [OF tameD [OF tame_terms terms]] by auto
    have run3: "(case x3 of Inl e \<Rightarrow> (Inl e, s3) | Inr terms \<Rightarrow>
        bindS (on_client (place_limit_order (recorded api) (fok_entry env ?side req terms)))
          (\<lambda>response. if response = [] then returnS [] else settle_entry (recorded api) env req terms response) s3) = (r, s')"
      using run use Inr a(1,4) terms by (simp add: live_entry_def consume_approval_def bindS_def List.insert_def split: sum.splits)
    show ?thesis
    proof (cases x3)
      case (Inl e)
      then have "s' = s3" using run3 by simp
      then show ?thesis using n3 a by auto
    next
      case terms_ok: (Inr terms)
      obtain quantity price stop_loss take_profit where ts: "terms = (quantity, price, stop_loss, take_profit)" by (cases terms)
      let ?lo = "fok_entry env ?side req terms"
      obtain x4 s4 where place: "on_client (place_limit_order (recorded api) ?lo) s3 = (x4, s4)" by fastforce
      obtain new4 where n4: "exec_sent s4 = exec_sent s3 @ new4" "xo_used s4 = xo_used s3" "xo_issued s4 = xo_issued s3"
        "new4 = [] \<or> new4 = [(''place_order'', limit_args ?lo)]"
        using calls_place [of "xo_client s3" ?lo api] place by (auto simp: calls_def Let_def on_client_def split: prod.splits)
      have "tame_le s4 s'"
      proof (cases x4)
        case (Inl e)
        then show ?thesis using run3 terms_ok place by (simp add: bindS_def tame.le_refl)
      next
        case (Inr response)
        have settle: "tame (if response = [] then returnS [] else settle_entry (recorded api) env req terms response)" by simp
        show ?thesis using tameD [OF settle, of s4] run3 terms_ok place Inr by (simp add: bindS_def)
      qed
      then obtain new5 where n5: "xo_used s' = xo_used s4" "xo_issued s' = xo_issued s4" "exec_sent s' = exec_sent s4 @ new5" "filter opens_exposure new5 = []"
        by (rule tame_leE)
      have sent: "exec_sent s' = exec_sent s @ (new3 @ new4 @ new5)" using n3(3) n4(1) n5(3) by simp
      have used: "xo_used s' = ea_approval_id a # xo_used s" "xo_issued s' = removeAll (ea_approval_id a) (xo_issued s)"
        using n3(1,2) n4(2,3) n5(1,2) by simp_all
      from entry_terms_normalized [OF terms [unfolded terms_ok ts]] obtain ic where
        "normalize_size ic (JStr (er_size req)) = Inr quantity" "normalize_entry_limit ic (er_entry_price req) ?side = Inr price"
        "normalize_price ic (er_stop_loss req) = Inr stop_loss" by blast
      then have approved: "approved_order env req approval s s' (''place_order'', limit_args ?lo)"
        unfolding approved_order_def ts using a(2-8) live used
        by (intro exI [of _ a] exI [of _ issued_at] exI [of _ ic] exI [of _ quantity] exI [of _ price] exI [of _ stop_loss]
            exI [of _ take_profit] conjI) (assumption | rule refl)+
      have opens: "opens_exposure (''place_order'', limit_args ?lo)" by (simp add: opens_exposure_def limit_args_def jget_def)
      show ?thesis using n4(4)
      proof
        assume none: "new4 = []"
        have "filter opens_exposure (new3 @ new4 @ new5) = []" using n3(4) n5(4) none by simp
        moreover have "set (xo_used s) \<subseteq> set (xo_used s')" "set (xo_used s') \<subseteq> set (xo_used s) \<union> set (xo_issued s)"
          "distinct (xo_used s) \<longrightarrow> distinct (xo_used s')" "set (xo_issued s') \<subseteq> set (xo_issued s)"
          using used a(3,4) by auto
        ultimately show ?thesis using sent by (intro exI [of _ "new3 @ new4 @ new5"] conjI disjI1)
      next
        assume one: "new4 = [(''place_order'', limit_args ?lo)]"
        have "filter opens_exposure (new3 @ new4 @ new5) = [(''place_order'', limit_args ?lo)]"
          using n3(4) n5(4) one opens by simp
        with approved sent show ?thesis
          by (intro exI [of _ "new3 @ new4 @ new5"] conjI disjI2 exI [of _ "(''place_order'', limit_args ?lo)"])
      qed
    qed
  qed
qed

lemma tame_close: "tame (close_position (recorded api) env i side q cid ps)"
proof -
  have reduce: "tame (on_client (place_reduce_market_order (recorded api) i side sz td ps cid b))" for sz td b
    unfolding place_reduce_market_order_def
    by (intro tame_client calls_guarded guards_stay calls_lifted calls_sdk) (simp add: opens_exposure_def jget_def)
  show ?thesis unfolding close_position_def using reduce by (auto split: if_split)
qed

lemma execute_state:
  "snd (execute api env req approval s) =
    (if (py_lower (er_side req) = ''long'' \<or> py_lower (er_side req) = ''short'') \<and> is_ok (check_levels (py_lower (er_side req)) req) \<and>
        \<not> xn_dry_run env
     then snd (live_entry api env (py_lower (er_side req)) req approval s) else s)"
proof -
  have caught: "snd (catchS m (\<lambda>_. returnS []) s) = snd (m s)" for m :: "('a, jobj) executor"
    by (auto simp: catchS_def returnS_def split: prod.split sum.split)
  have "snd (try_entry api env req approval s) = (if is_ok (check_levels (py_lower (er_side req)) req) \<and> \<not> xn_dry_run env
      then snd (live_entry api env (py_lower (er_side req)) req approval s) else s)"
    unfolding try_entry_def
    by (cases "check_levels (py_lower (er_side req)) req"; cases "xn_dry_run env") (simp_all add: bindS_def liftS_def returnS_def)
  then show ?thesis unfolding execute_def by (simp add: caught liftS_def)
qed

text \<open>C2: Every entry order that an execution sends to OKX consumes an approval of its own: one that this
  executor issued, that nothing used before, at most five seconds old and for exactly this instrument,
  size, price and stop; the order carries the normalized size, the limit price and the attached stop, and
  an execution sends at most one such order.\<close>

theorem entry_order_needs_approval:
  "\<exists>new. exec_sent (snd (execute (recorded api) env req approval s)) = exec_sent s @ new \<and>
     (filter opens_exposure new = [] \<or>
      (\<exists>c. filter opens_exposure new = [c] \<and> approved_order env req approval s (snd (execute (recorded api) env req approval s)) c))"
proof (cases "snd (execute (recorded api) env req approval s) = s")
  case True
  then show ?thesis by simp
next
  case False
  then have live: "\<not> xn_dry_run env" "snd (execute (recorded api) env req approval s) =
      snd (live_entry (recorded api) env (py_lower (er_side req)) req approval s)"
    by (simp_all add: execute_state split: if_splits)
  obtain r s' where run: "live_entry (recorded api) env (py_lower (er_side req)) req approval s = (r, s')" by fastforce
  from live_entry_sends [OF run live(1)] show ?thesis unfolding live(2) run by auto
qed

subsection \<open>A run of the executor\<close>

datatype executor_op =
    XApprove string string json json json
  | XCheck string string json json json
  | XExecute entry_request "entry_approval option"
  | XClose string string pyfloat string string

fun executor_do :: "'x sdk \<Rightarrow> executor_env \<times> executor_op \<Rightarrow> ('x, unit) executor" where
  "executor_do api (env, XApprove i side q e sl) = ignoring (issue_approval api env i side q e sl)"
| "executor_do api (env, XCheck i side q e sl) = ignoring (check_entry_risk api env i side q e sl)"
| "executor_do api (env, XExecute req approval) = ignoring (execute api env req approval)"
| "executor_do api (env, XClose i side q cid ps) = ignoring (close_position api env i side q cid ps)"

definition executor_step :: "'x sdk \<Rightarrow> executor_env \<times> executor_op \<Rightarrow> ('x \<times> sdk_log) executor_state \<Rightarrow> ('x \<times> sdk_log) executor_state" where
  "executor_step api use s = snd (executor_do (recorded api) use s)"

lemma snd_ignoring [simp]: "snd (ignoring m s) = snd (m s)"
  by (auto simp: ignoring_def bindS_def returnS_def split: prod.split sum.split)

lemma run_gate_frame:
  assumes "run_gate api env i side q e sl s = (r, t)"
  shows "xo_used t = xo_used s \<and> xo_issued t = xo_issued s \<and> exec_sent t = exec_sent s"
  using assms by (auto simp: run_gate_def split: prod.splits)

text \<open>The approvals that a run issues: the requests that the gate answered with an approval.\<close>

fun issues :: "'x sdk \<Rightarrow> executor_env \<times> executor_op \<Rightarrow> ('x \<times> sdk_log) executor_state \<Rightarrow> bool" where
  "issues api (env, XApprove i side q e sl) s = (\<not> xn_dry_run env \<and> is_ok (fst (issue_approval (recorded api) env i side q e sl s)))"
| "issues _ _ _ = False"

primrec approvals_issued :: "'x sdk \<Rightarrow> (executor_env \<times> executor_op) list \<Rightarrow> ('x \<times> sdk_log) executor_state \<Rightarrow> nat" where
  "approvals_issued api [] s = 0"
| "approvals_issued api (use # uses) s = (if issues api use s then 1 else 0) + approvals_issued api uses (executor_step api use s)"

text \<open>What counts: the orders that could open exposure, and the approvals that are still unused.\<close>

definition entry_orders :: "('x \<times> sdk_log) executor_state \<Rightarrow> nat" where
  "entry_orders s = length (filter opens_exposure (exec_sent s))"

definition unused_approvals :: "('x \<times> sdk_log) executor_state \<Rightarrow> nat" where
  "unused_approvals s = card (set (xo_issued s))"

definition spent :: "('x \<times> sdk_log) executor_state \<Rightarrow> nat" where
  "spent s = entry_orders s + unused_approvals s"

lemma spent_tame: "tame_le s t \<Longrightarrow> spent t = spent s"
  by (erule tame_leE) (simp add: spent_def entry_orders_def unused_approvals_def)

lemma spent_gate: "run_gate api env i side q e sl s = (r, t) \<Longrightarrow> spent t = spent s"
  using run_gate_frame [of api env i side q e sl s r t] by (simp add: spent_def entry_orders_def unused_approvals_def)

lemma spent_issue:
  "spent (snd (issue_approval (recorded api) env i side q e sl s)) \<le> spent s + (if issues api (env, XApprove i side q e sl) s then 1 else 0)"
proof (cases "xn_dry_run env")
  case True
  then show ?thesis by (simp add: issue_approval_def liftS_def)
next
  case False
  obtain r t where g: "run_gate (recorded api) env i side q e sl s = (r, t)" by fastforce
  note t = run_gate_frame [OF g]
  show ?thesis
  proof (cases r)
    case (Inl x)
    then show ?thesis using spent_gate [OF g] g False by (simp add: issue_approval_def bindS_def)
  next
    case (Inr a)
    have "card (insert (ea_approval_id a) (set (xo_issued s))) \<le> Suc (card (set (xo_issued s)))" by (rule card_insert_le_m1) simp_all
    then show ?thesis using t g False Inr by (simp add: issue_approval_def bindS_def spent_def entry_orders_def unused_approvals_def)
  qed
qed

lemma spent_execute: "spent (snd (execute (recorded api) env req approval s)) \<le> spent s"
proof (cases "snd (execute (recorded api) env req approval s) = s")
  case False
  then have live: "\<not> xn_dry_run env" "snd (execute (recorded api) env req approval s) =
      snd (live_entry (recorded api) env (py_lower (er_side req)) req approval s)"
    by (simp_all add: execute_state split: if_splits)
  obtain r s' where run: "live_entry (recorded api) env (py_lower (er_side req)) req approval s = (r, s')" by fastforce
  have "spent s' \<le> spent s"
    using live_entry_sends [OF run live(1)]
  proof (elim exE conjE disjE)
    fix new
    assume n: "exec_sent s' = exec_sent s @ new" "filter opens_exposure new = []" "set (xo_issued s') \<subseteq> set (xo_issued s)"
    have "card (set (xo_issued s')) \<le> card (set (xo_issued s))" using n(3) by (intro card_mono) simp_all
    with n(1,2) show ?thesis by (simp add: spent_def entry_orders_def unused_approvals_def)
  next
    fix new c
    assume n: "exec_sent s' = exec_sent s @ new" "filter opens_exposure new = [c]" "approved_order env req approval s s' c"
    from approved_order_uses [OF n(3)] obtain i where i: "i \<in> set (xo_issued s)" "xo_issued s' = removeAll i (xo_issued s)" by blast
    then have "0 < card (set (xo_issued s))" by (auto simp: card_gt_0_iff)
    then have "Suc (card (set (xo_issued s'))) = card (set (xo_issued s))" using i by simp
    with n(1,2) show ?thesis by (simp add: spent_def entry_orders_def unused_approvals_def)
  qed
  then show ?thesis using live(2) run by simp
qed simp

lemma spent_step: "spent (executor_step api use s) \<le> spent s + (if issues api use s then 1 else 0)"
proof -
  obtain env x where use: "use = (env, x)" by (cases use)
  show ?thesis
  proof (cases x)
    case (XApprove i side q e sl)
    then show ?thesis using spent_issue [of api env i side q e sl s] by (simp add: executor_step_def use)
  next
    case (XCheck i side q e sl)
    then show ?thesis
      using spent_gate [of "recorded api" env i side q e sl s]
      by (cases "run_gate (recorded api) env i side q e sl s"; cases "xn_dry_run env")
        (simp_all add: executor_step_def use check_entry_risk_def issue_approval_def liftS_def)
  next
    case (XExecute req approval)
    then show ?thesis using spent_execute [of api env req approval s] by (simp add: executor_step_def use)
  next
    case (XClose i side q cid ps)
    obtain r t where c: "close_position (recorded api) env i side q cid ps s = (r, t)" by fastforce
    with XClose spent_tame [OF tameD [OF tame_close c]] show ?thesis by (simp add: executor_step_def use)
  qed
qed

lemma spent_run: "spent (run_steps (executor_step api) uses s) \<le> spent s + approvals_issued api uses s"
proof (induction uses arbitrary: s)
  case (Cons use uses)
  show ?case using Cons.IH [of "executor_step api use s"] spent_step [of api use s] by (simp split: if_splits)
qed simp

text \<open>C4: However an executor is used, in whatever order its approval requests, checks, submissions and closes
  come and whatever OKX answers, the entry orders that it sends are at most the approvals that the gate issues
  in the run, and those that it held unused before. A refused request adds nothing.\<close>

theorem no_more_orders_than_approvals:
  "entry_orders (run_steps (executor_step api) uses s) \<le> entry_orders s + unused_approvals s + approvals_issued api uses s"
  using spent_run [of api uses s] by (simp add: spent_def)

subsection \<open>What a submission leaves behind\<close>

text \<open>The evidence of a protected entry: the filled order, and the only pending stop under its identity.\<close>

definition live_stop :: "jobj \<Rightarrow> string \<Rightarrow> string \<Rightarrow> string \<Rightarrow> string \<Rightarrow> bool" where
  "live_stop order inst_id attach_client_id quantity stop_loss \<longleftrightarrow>
     text_of (jget order ''algoClOrdId'') = attach_client_id \<and> text_of (jget order ''instId'') = inst_id \<and>
     order_state_of order = ''live'' \<and> text_of (jget order ''slOrdPx'') = ''-1'' \<and> text_of (jget order ''algoId'') \<noteq> [] \<and>
     (\<exists>a b. dec_of_json (jget order ''sz'') = Some a \<and> dec_of_str quantity = Some b \<and> dec_val a = dec_val b) \<and>
     (\<exists>a b. dec_of_json (jget order ''slTriggerPx'') = Some a \<and> dec_of_str stop_loss = Some b \<and> dec_val a = dec_val b)"

definition filled_order :: "jobj \<Rightarrow> string \<Rightarrow> string \<Rightarrow> string \<Rightarrow> bool" where
  "filled_order order order_id client_order_id quantity \<longleftrightarrow>
     text_of (jget order ''ordId'') = order_id \<and> text_of (jget order ''clOrdId'') = client_order_id \<and> order_state_of order = ''filled'' \<and>
     (\<exists>a b. dec_of_json (jget order ''accFillSz'') = Some a \<and> dec_of_str quantity = Some b \<and> dec_val a = dec_val b)"

lemma prove_that_Inr [result_simps]: "prove_that b m = Inr u \<longleftrightarrow> b"
  by (simp add: prove_that_def not_proved_def)

lemma order_decimal_Inr [result_simps]:
  "order_decimal j f = Inr d \<longleftrightarrow> dec_of_json j = Some d \<and> dec_finite d \<and> 0 < dec_val d"
  by (auto simp: order_decimal_def split: option.split)

lemma same_amount_True:
  "same_amount j t f = Inr same \<Longrightarrow> same \<Longrightarrow> \<exists>a b. dec_of_json j = Some a \<and> dec_of_str t = Some b \<and> dec_val a = dec_val b"
  by (auto simp: same_amount_def result_simps)

definition stop_evidence :: "jobj \<Rightarrow> string \<Rightarrow> string \<Rightarrow> string \<Rightarrow> string \<Rightarrow> jobj" where
  "stop_evidence order aid quantity stop_loss take_profit =
     [(''algo_id'', JStr (text_of (jget order ''algoId''))), (''algo_client_order_id'', JStr aid),
      (''state'', JStr ''live''), (''quantity'', JStr quantity), (''stop_loss'', JStr stop_loss), (''take_profit'', JStr take_profit)]"

lemma verified_active_stop:
  assumes "verify_active_attached_protection orders inst_id aid quantity stop_loss take_profit = Inr d"
  shows "\<exists>order. filter (\<lambda>order. text_of (jget order ''algoClOrdId'') = aid) orders = [order] \<and> live_stop order inst_id aid quantity stop_loss \<and>
    d = stop_evidence order aid quantity stop_loss take_profit"
proof -
  obtain order where f: "filter (\<lambda>order. text_of (jget order ''algoClOrdId'') = aid) orders = [order]"
    using assms by (auto simp: verify_active_attached_protection_def not_proved_def split: list.splits)
  then have "order \<in> set (filter (\<lambda>order. text_of (jget order ''algoClOrdId'') = aid) orders)" by (simp only: list.set_intros)
  then have aid: "text_of (jget order ''algoClOrdId'') = aid" by simp
  from assms f obtain checks where c: "active_checks order inst_id quantity stop_loss take_profit = Inr checks" "failed_checks checks = []"
    "text_of (jget order ''algoId'') \<noteq> []" "d = stop_evidence order aid quantity stop_loss take_profit"
    by (auto simp: verify_active_attached_protection_def stop_evidence_def result_simps)
  from c(1) obtain size_ok stop_ok rest where s: "same_amount (jget order ''sz'') quantity ''protection size'' = Inr size_ok"
      "same_amount (jget order ''slTriggerPx'') stop_loss ''active stop'' = Inr stop_ok"
      "checks = [(''instrument'', text_of (jget order ''instId'') = inst_id), (''state'', order_state_of order = ''live''), (''size'', size_ok),
           (''stop trigger'', stop_ok), (''stop order price'', text_of (jget order ''slOrdPx'') = ''-1'')] @ rest"
    unfolding active_checks_def by (simp only: result_simps sum.inject) (elim exE conjE, rule that, assumption, assumption, erule sym)
  from c(2) s(3) have "size_ok" "stop_ok" "text_of (jget order ''instId'') = inst_id" "order_state_of order = ''live''"
      "text_of (jget order ''slOrdPx'') = ''-1''"
    by (simp_all add: failed_checks_def split: if_splits)
  moreover note same_amount_True [OF s(1) \<open>size_ok\<close>] same_amount_True [OF s(2) \<open>stop_ok\<close>]
  ultimately have "live_stop order inst_id aid quantity stop_loss" unfolding live_stop_def using c(3) aid by (intro conjI)
  with f c(4) show ?thesis by blast
qed

lemma verified_fill:
  assumes "verify_attached_protection order order_id cid stop_loss take_profit aid ''fok'' quantity = Inr d" and "quantity \<noteq> []"
  shows "filled_order order order_id cid quantity"
  using assms unfolding verify_attached_protection_def check_order_identity_def check_fill_def filled_order_def
  by (simp only: result_simps if_False split: if_split) (auto simp: result_simps)

text \<open>The stop is seen in one look at the exchange, and \<open>evidence\<close> is what it says.\<close>

definition stop_seen :: "'x sdk \<Rightarrow> string \<Rightarrow> string \<Rightarrow> string \<Rightarrow> string \<Rightarrow> string \<Rightarrow> jobj \<Rightarrow> bool" where
  "stop_seen api inst_id aid quantity stop_loss take_profit evidence \<longleftrightarrow> (\<exists>s t u xs ys conditional oco order.
     get_pending_algo_orders api inst_id ''conditional'' s = (Inr xs, t) \<and> get_pending_algo_orders api inst_id ''oco'' t = (Inr ys, u) \<and>
     rows_of xs = Inr conditional \<and> rows_of ys = Inr oco \<and>
     filter (\<lambda>order. text_of (jget order ''algoClOrdId'') = aid) (conditional @ oco) = [order] \<and>
     live_stop order inst_id aid quantity stop_loss \<and> evidence = stop_evidence order aid quantity stop_loss take_profit)"

lemma on_client_Inr: "on_client m s = (Inr x, t) \<Longrightarrow> m (xo_client s) = (Inr x, xo_client t)"
  by (auto simp: on_client_def split: prod.splits)

lemma look_for_attachment_seen:
  assumes "look_for_attachment api i aid (quantity, price, stop_loss, take_profit) s = (Inr d, s')"
  shows "stop_seen api i aid quantity stop_loss take_profit d"
proof -
  from assms obtain xs ys t u conditional oco where
    q: "on_client (get_pending_algo_orders api i ''conditional'') s = (Inr xs, t)" "rows_of xs = Inr conditional"
       "on_client (get_pending_algo_orders api i ''oco'') t = (Inr ys, u)" "rows_of ys = Inr oco"
       "verify_active_attached_protection (conditional @ oco) i aid quantity stop_loss take_profit = Inr d"
    by (auto simp: look_for_attachment_def result_simps)
  from verified_active_stop [OF q(5)] obtain order where
    "filter (\<lambda>order. text_of (jget order ''algoClOrdId'') = aid) (conditional @ oco) = [order]" "live_stop order i aid quantity stop_loss"
    "d = stop_evidence order aid quantity stop_loss take_profit" by blast
  with on_client_Inr [OF q(1)] on_client_Inr [OF q(3)] q(2,4) show ?thesis
    unfolding stop_seen_def by (intro exI conjI)
qed

lemma active_attachment_seen:
  assumes "verify_active_attachment api i aid (quantity, price, stop_loss, take_profit) n e s = (Inr d, s')"
  shows "stop_seen api i aid quantity stop_loss take_profit d"
  using assms
proof (induction n arbitrary: e s)
  case 0
  then show ?case by (simp add: verification_failed_def liftS_def)
next
  case (Suc n)
  obtain r t where look: "look_for_attachment api i aid (quantity, price, stop_loss, take_profit) s = (r, t)" by fastforce
  show ?case
  proof (cases r)
    case (Inl x)
    with Suc.prems look show ?thesis by (auto simp: catchS_def intro: Suc.IH)
  next
    case (Inr x)
    then have "x = d" using Suc.prems look by (simp add: catchS_def)
    with look_for_attachment_seen [OF look [unfolded Inr]] show ?thesis by simp
  qed
qed

text \<open>The result of a submission that OKX took: proved, or made safe.\<close>

definition active_protection_of :: "jobj \<Rightarrow> jobj option" where
  "active_protection_of result =
     (case jget result ''maybechProtection'' of
        JObj d \<Rightarrow> (case jget d ''active'' of JObj a \<Rightarrow> Some a | _ \<Rightarrow> None)
      | _ \<Rightarrow> None)"

definition proved_entry :: "'x sdk \<Rightarrow> executor_env \<Rightarrow> entry_request \<Rightarrow> string \<times> string \<times> string \<times> string \<Rightarrow> jobj \<Rightarrow> bool" where
  "proved_entry api env req terms result = (case terms of (quantity, price, stop_loss, take_profit) \<Rightarrow>
     jget result ''maybechProtectionVerified'' = JBool True \<and>
     (\<exists>s t order. get_order api (er_inst_id req) (text_of (jget result ''ordId'')) [] s = (Inr (JList [JObj order]), t) \<and>
        filled_order order (text_of (jget result ''ordId'')) (er_client_order_id req) quantity) \<and>
     (\<exists>evidence. active_protection_of result = Some evidence \<and>
        stop_seen api (er_inst_id req) (attachment_client_id env (er_client_order_id req)) quantity stop_loss take_profit evidence))"

definition safe_entry :: "'x sdk \<Rightarrow> executor_env \<Rightarrow> entry_request \<Rightarrow> string \<Rightarrow> jobj \<Rightarrow> 'x executor_state \<Rightarrow> bool" where
  "safe_entry api env req quantity result s' \<longleftrightarrow> (\<exists>state.
     jget result ''maybechProtectionVerified'' = JBool False \<and> jget result ''maybechOrderState'' = JStr state \<and>
     (state \<in> set [[], ''filled'', ''partially_filled''] \<longrightarrow> \<not> cl_entry (xo_client s') \<and> rk_entries (xo_risk s') = Some False) \<and>
     (state \<in> set [[], ''live'', ''partially_filled''] \<longrightarrow> (\<exists>t requested problem.
        try_cancel api (er_inst_id req) (text_of (jget result ''ordId'')) t = (Inr (requested, problem), s') \<and>
        jget result ''maybechCancelRequested'' = JBool requested \<and> jget result ''maybechCancelError'' = JStr problem)) \<and>
     (state = ''filled'' \<longrightarrow> jget result ''maybechEmergencyCloseRequired'' = JBool True \<and>
        jget result ''maybechEmergencyCloseQuantity'' = JStr quantity \<and>
        jget result ''maybechEmergencyCloseClientOrderId'' = JStr (emergency_close_client_id env (er_client_order_id req))))"

lemma switch_entries_off_Inr:
  assumes "switch_entries_off env s = (Inr u, t)"
  shows "\<not> cl_entry (xo_client t) \<and> rk_entries (xo_risk t) = Some False"
  using assms by (auto simp: switch_entries_off_def set_entries_enabled_def Let_def on_client_def disable_client_entries_def
    split: option.splits prod.splits sum.splits)

lemma cancel_keeps_switch:
  assumes "try_cancel api i oid s = (r, t)"
  shows "cl_entry (xo_client t) = cl_entry (xo_client s) \<and> xo_risk t = xo_risk s"
  using assms by (auto simp: try_cancel_def cancel_order_def catchS_def bindS_def returnS_def liftS_def on_client_def require_armed_def sdk_call_def
    split: prod.splits sum.splits if_splits)

lemma unprotected_entry_Inr:
  assumes "unprotected_entry api env req quantity (text_of (jget response ''ordId'')) response state e s = (Inr result, s')"
  shows "safe_entry api env req quantity result s' \<and> jget result ''ordId'' = jget response ''ordId'' \<and> result \<noteq> []"
proof -
  let ?kill = "state \<in> set [[], ''filled'', ''partially_filled'']"
  from assms obtain t u requested problem where
    k: "whenS ?kill (switch_entries_off env) s = (Inr (), t)"
    and c: "(if state \<in> set [[], ''live'', ''partially_filled''] then try_cancel api (er_inst_id req) (text_of (jget response ''ordId'')) else returnS (False, [])) t
        = (Inr (requested, problem), s')"
    and res: "result = tmerge response
        [(''maybechRequestedSize'', JStr quantity), (''maybechProtectionVerified'', JBool False), (''maybechProtectionError'', JStr (exc_text e)),
         (''maybechCancelRequested'', JBool requested), (''maybechCancelError'', JStr problem), (''maybechOrderState'', JStr state),
         (''maybechEntryKillActivated'', JBool ?kill), (''maybechEmergencyCloseRequired'', JBool (state = ''filled'')),
         (''maybechEmergencyCloseClientOrderId'',
            JStr (if state = ''filled'' then emergency_close_client_id env (er_client_order_id req) else [])),
         (''maybechEmergencyCloseQuantity'', JStr quantity)]"
    unfolding unprotected_entry_def Let_def by (simp only: result_simps split_beta) (elim exE conjE, rule that, simp_all)
  have "\<not> cl_entry (xo_client t) \<and> rk_entries (xo_risk t) = Some False" if ?kill
    using k that switch_entries_off_Inr by (simp only: whenS_def if_True)
  moreover have "cl_entry (xo_client s') = cl_entry (xo_client t) \<and> xo_risk s' = xo_risk t"
    using c cancel_keeps_switch by (cases "state \<in> set [[], ''live'', ''partially_filled'']") (simp_all only: if_True if_False returnS_def prod.inject, simp)
  ultimately have "?kill \<longrightarrow> \<not> cl_entry (xo_client s') \<and> rk_entries (xo_risk s') = Some False" by metis
  moreover have keys: "jget result ''maybechProtectionVerified'' = JBool False" "jget result ''maybechOrderState'' = JStr state"
    "jget result ''maybechEmergencyCloseRequired'' = JBool (state = ''filled'')" "jget result ''maybechEmergencyCloseQuantity'' = JStr quantity"
    "jget result ''maybechEmergencyCloseClientOrderId'' = JStr (if state = ''filled'' then emergency_close_client_id env (er_client_order_id req) else [])"
    "jget result ''maybechCancelRequested'' = JBool requested" "jget result ''maybechCancelError'' = JStr problem"
    "jget result ''ordId'' = jget response ''ordId''"
    unfolding res by (simp_all add: tmerge_def)
  moreover have "state = ''filled'' \<longrightarrow> jget result ''maybechEmergencyCloseRequired'' = JBool True \<and>
      jget result ''maybechEmergencyCloseQuantity'' = JStr quantity \<and>
      jget result ''maybechEmergencyCloseClientOrderId'' = JStr (emergency_close_client_id env (er_client_order_id req))"
    unfolding keys by simp
  moreover have "state \<in> set [[], ''live'', ''partially_filled''] \<longrightarrow> (\<exists>t requested problem.
      try_cancel api (er_inst_id req) (text_of (jget result ''ordId'')) t = (Inr (requested, problem), s') \<and>
      jget result ''maybechCancelRequested'' = JBool requested \<and> jget result ''maybechCancelError'' = JStr problem)"
  proof
    assume "state \<in> set [[], ''live'', ''partially_filled'']"
    with c have "try_cancel api (er_inst_id req) (text_of (jget result ''ordId'')) t = (Inr (requested, problem), s')"
      unfolding keys by (simp only: if_True)
    with keys(6,7) show "\<exists>t requested problem.
      try_cancel api (er_inst_id req) (text_of (jget result ''ordId'')) t = (Inr (requested, problem), s') \<and>
      jget result ''maybechCancelRequested'' = JBool requested \<and> jget result ''maybechCancelError'' = JStr problem" by blast
  qed
  moreover have "result \<noteq> []" using keys(1) by (auto simp: jget_def)
  ultimately show ?thesis unfolding safe_entry_def by (intro conjI exI [of _ state])
qed

lemma details_seen:
  assumes "get_fok_order api i oid n s = (Inr order, t)"
  shows "\<exists>u v. get_order api i oid [] u = (Inr (JList [JObj order]), v)"
  using assms
proof (induction n arbitrary: s)
  case (Suc n)
  from Suc.prems obtain data order' u where d: "on_client (get_order api i oid []) s = (Inr data, u)" "one_order data = Inr order'"
    "(if order_state_of order' \<noteq> ''live'' \<or> n = 0 then returnS order' else get_fok_order api i oid n) u = (Inr order, t)"
    by (auto simp: result_simps)
  from d(2) have data: "data = JList [JObj order']" by (auto simp: one_order_def split: json.splits list.splits)
  show ?case
  proof (cases "order_state_of order' \<noteq> ''live'' \<or> n = 0")
    case True
    then have "order' = order" using d(3) by (auto simp: returnS_def)
    then show ?thesis using on_client_Inr [OF d(1)] data by blast
  next
    case False
    then show ?thesis using d(3) Suc.IH by simp
  qed
qed (simp add: liftS_def)

lemma settle_entry_outcome:
  assumes "settle_entry api env req terms response s = (Inr result, s')" and "fst terms \<noteq> []"
  shows "proved_entry api env req terms result \<or> safe_entry api env req (fst terms) result s'"
proof -
  obtain quantity price stop_loss take_profit where ts: "terms = (quantity, price, stop_loss, take_profit)" by (cases terms)
  let ?oid = "text_of (jget response ''ordId'')" and ?aid = "attachment_client_id env (er_client_order_id req)"
  obtain r t where details: "get_fok_order api (er_inst_id req) ?oid 5 s = (r, t)" by fastforce
  show ?thesis
  proof (cases r)
    case (Inl e)
    then have "unprotected_entry api env req (fst terms) ?oid response [] e t = (Inr result, s')"
      using assms(1) details by (simp add: settle_entry_def Let_def tryS_def)
    then show ?thesis using unprotected_entry_Inr by blast
  next
    case order: (Inr order)
    obtain p u where p: "protected_entry api env req terms ?oid order t = (p, u)" by fastforce
    show ?thesis
    proof (cases p)
      case (Inl e)
      then have "unprotected_entry api env req (fst terms) ?oid response (order_state_of order) e u = (Inr result, s')"
        using assms(1) details order p by (simp add: settle_entry_def Let_def tryS_def)
      then show ?thesis using unprotected_entry_Inr by blast
    next
      case (Inr proof_data)
      then have res: "result = tmerge response [(''maybechRequestedSize'', JStr quantity), (''maybechProtectionVerified'', JBool True),
          (''maybechProtection'', JObj proof_data)]"
        using assms(1) details order p by (simp add: settle_entry_def Let_def tryS_def ts returnS_def)
      from p [unfolded Inr protected_entry_def ts] obtain requested active v w e' where
        q: "proof_data = [(''requested'', JObj requested), (''active'', JObj active)]"
           "verify_attached_protection order ?oid (er_client_order_id req) stop_loss take_profit ?aid ''fok'' quantity = Inr requested"
           "verify_active_attachment api (er_inst_id req) ?aid (quantity, price, stop_loss, take_profit) 5 TypeError v = (Inr active, w)"
        by (auto simp: result_simps)
      have "filled_order order ?oid (er_client_order_id req) quantity" using verified_fill [OF q(2)] assms(2) ts by simp
      moreover have "stop_seen api (er_inst_id req) ?aid quantity stop_loss take_profit active" by (rule active_attachment_seen [OF q(3)])
      moreover have "active_protection_of result = Some active" unfolding res by (simp add: active_protection_of_def q(1) tmerge_def jget_def)
      moreover have "jget result ''ordId'' = jget response ''ordId''" unfolding res by (simp add: tmerge_def)
      moreover obtain x y where "get_order api (er_inst_id req) ?oid [] x = (Inr (JList [JObj order]), y)"
        using details_seen [OF details [unfolded order]] by blast
      moreover have "jget result ''maybechProtectionVerified'' = JBool True" unfolding res by (simp add: tmerge_def)
      ultimately have "proved_entry api env req terms result" unfolding proved_entry_def ts prod.case by (intro conjI) (simp, metis, blast)
      then show ?thesis by simp
    qed
  qed
qed

lemma normalized_size_nonempty:
  assumes "normalize_size ic j = Inr quantity"
  shows "quantity \<noteq> []"
proof -
  from assms obtain d where "dec_finite d" "quantity = decimal_string d"
    unfolding normalize_size_def by (auto simp: constraint_steps split: if_splits)
  then have "text_value quantity = Some (dec_val d)" using text_value_decimal_string by simp
  moreover have "text_value [] = None" by code_simp
  ultimately show ?thesis by auto
qed

lemma execution_outcome:
  assumes run: "execute api env req approval s = (Inr result, s')" and live: "\<not> xn_dry_run env" and "result \<noteq> []"
  shows "\<exists>quantity price stop_loss take_profit ic.
    normalize_size ic (JStr (er_size req)) = Inr quantity \<and> normalize_price ic (er_stop_loss req) = Inr stop_loss \<and>
    (proved_entry api env req (quantity, price, stop_loss, take_profit) result \<or> safe_entry api env req quantity result s')"
proof -
  let ?side = "py_lower (er_side req)"
  have "?side = ''long'' \<or> ?side = ''short''" using run by (auto simp: execute_def liftS_def split: if_splits)
  then have "try_entry api env req approval s = (Inr result, s')"
    using run \<open>result \<noteq> []\<close> by (auto simp: execute_def catchS_def returnS_def split: prod.splits sum.splits)
  then have "live_entry api env ?side req approval s = (Inr result, s')"
    using live by (auto simp: try_entry_def bindS_def liftS_def split: sum.splits)
  then obtain quantity price stop_loss take_profit t u response v where
    terms: "entry_order_terms api ?side req t = (Inr (quantity, price, stop_loss, take_profit), u)"
    and settle: "(if response = [] then returnS [] else settle_entry api env req (quantity, price, stop_loss, take_profit) response) v = (Inr result, s')"
    unfolding live_entry_def by (simp only: result_simps split_paired_Ex) (elim exE conjE, rule that)
  from entry_terms_normalized [OF terms] obtain ic where
    ic: "normalize_size ic (JStr (er_size req)) = Inr quantity" "normalize_price ic (er_stop_loss req) = Inr stop_loss" by blast
  have "response \<noteq> []" using settle \<open>result \<noteq> []\<close> by (auto simp: returnS_def)
  then have "settle_entry api env req (quantity, price, stop_loss, take_profit) response v = (Inr result, s')" using settle by simp
  from settle_entry_outcome [OF this] normalized_size_nonempty [OF ic(1)]
  have "proved_entry api env req (quantity, price, stop_loss, take_profit) result \<or> safe_entry api env req quantity result s'" by simp
  with ic show ?thesis by (intro exI conjI)
qed


subsection \<open>An accepted order is reported\<close>

text \<open>Most steps leave the limits and the process flag of entries alone.\<close>

definition flag_le :: "'x client_state \<Rightarrow> 'x client_state \<Rightarrow> bool" where
  "flag_le c d \<longleftrightarrow> cl_entry d = cl_entry c"

interpretation flag: action_relation flag_le
  by unfold_locales (simp_all add: flag_le_def)

abbreviation keeps_flag :: "('x, 'a) client \<Rightarrow> bool" where
  "keeps_flag \<equiv> behaves flag_le (\<lambda>_. True) (\<lambda>_. True)"

lemma flag_basic [simp, intro!]:
  "keeps_flag (liftS r)" "keeps_flag (returnS x)" "keeps_flag (demand b e)" "keeps_flag require_armed" "keeps_flag require_entries"
  "keeps_flag (sdk_call api method args)"
  by (simp_all add: flag.lift flag.return demand_def behaves_def flag_le_def returnS_def liftS_def require_armed_def require_entries_def sdk_call_def
      split: prod.split)

lemma flag_bind [intro!]: "keeps_flag m \<Longrightarrow> (\<And>x. keeps_flag (f x)) \<Longrightarrow> keeps_flag (bindS m f)"
  by (rule flag.bind)

lemma flag_calls [simp, intro!]:
  "keeps_flag (get_order api i oid cid)" "keeps_flag (get_pending_algo_orders api i t)" "keeps_flag (get_instruments api ty i)"
  "keeps_flag (cancel_order api i oid)" "keeps_flag (place_limit_order api lo)"
  unfolding get_order_def get_pending_algo_orders_def get_instruments_def cancel_order_def place_limit_order_def query_def
  by auto

definition unswitched_le :: "'x executor_state \<Rightarrow> 'x executor_state \<Rightarrow> bool" where
  "unswitched_le s t \<longleftrightarrow> xo_risk t = xo_risk s \<and> flag_le (xo_client s) (xo_client t)"

interpretation unswitched: action_relation unswitched_le
  by unfold_locales (auto simp: unswitched_le_def flag_le_def)

abbreviation unswitched :: "('x, 'a) executor \<Rightarrow> bool" where
  "unswitched \<equiv> behaves unswitched_le (\<lambda>_. True) (\<lambda>_. True)"

lemma unswitched_basic [simp, intro!]: "unswitched (liftS r)" "unswitched (returnS x)"
  by (simp_all add: unswitched.lift unswitched.return)

lemma unswitched_bind [intro!]: "unswitched m \<Longrightarrow> (\<And>x. unswitched (f x)) \<Longrightarrow> unswitched (bindS m f)"
  by (rule unswitched.bind)

lemma unswitched_catch [intro!]: "unswitched m \<Longrightarrow> (\<And>e. unswitched (h e)) \<Longrightarrow> unswitched (catchS m h)"
  by (rule unswitched.catch)

lemma unswitched_client [intro!]: "keeps_flag m \<Longrightarrow> unswitched (on_client m)"
  by (auto simp: behaves_def unswitched_le_def on_client_def split: prod.split) (metis snd_conv)

lemma unswitched_constraints [simp, intro!]: "unswitched (executor_constraints api i)"
proof -
  have "unswitched (bindS (on_client (get_instruments api ''SWAP'' i)) (\<lambda>data. bindS (liftS (rows_of data)) (\<lambda>payloads.
      bindS (liftS (g payloads)) (\<lambda>ic s'. (Inr ic, s'\<lparr>xo_constraints := tset i ic (xo_constraints s')\<rparr>)))))" for g
    by (intro unswitched_bind unswitched_client flag_calls unswitched_basic) (simp add: behaves_def unswitched_le_def flag_le_def)
  then show ?thesis
    unfolding executor_constraints_def behaves_def by (auto simp: unswitched.le_refl split: option.split)
qed

lemma unswitched_steps [simp, intro!]:
  "unswitched (consume_approval env req approval)" "unswitched (entry_order_terms api side req)" "unswitched (get_fok_order api i oid n)"
  "unswitched (look_for_attachment api i a terms)" "unswitched (verify_active_attachment api i a terms n e)"
  "unswitched (protected_entry api env req terms oid order)" "unswitched (try_cancel api i oid)"
proof -
  have "unswitched (usable_approval env req approval)" by (auto simp: behaves_def usable_approval_def unswitched.le_refl)
  then show "unswitched (consume_approval env req approval)"
    unfolding consume_approval_def by (rule unswitched_bind) (simp add: behaves_def unswitched_le_def flag_le_def)
  show "unswitched (entry_order_terms api side req)" unfolding entry_order_terms_def by auto
  show "unswitched (get_fok_order api i oid n)" by (induction n) auto
  have look: "unswitched (look_for_attachment api i a terms)" for i a terms unfolding look_for_attachment_def by (auto split: prod.split)
  then show "unswitched (look_for_attachment api i a terms)" .
  have active: "unswitched (verify_active_attachment api i a terms n e)" for i a terms n e
    by (induction n arbitrary: e) (auto simp: verification_failed_def intro: look)
  then show "unswitched (verify_active_attachment api i a terms n e)" .
  show "unswitched (protected_entry api env req terms oid order)" unfolding protected_entry_def by (auto intro: active split: prod.split)
  show "unswitched (try_cancel api i oid)" unfolding try_cancel_def by auto
qed

lemma unswitchedD: "unswitched m \<Longrightarrow> m s = (r, t) \<Longrightarrow> unswitched_le s t"
  by (auto simp: behaves_def dest!: spec [of _ s])

text \<open>The entry switch cannot be stored: the database refuses the write, or the limits cannot be read back.\<close>

definition switch_fails :: "executor_env \<Rightarrow> risk_db \<Rightarrow> bool" where
  "switch_fails env db \<longleftrightarrow> xn_switch_error env \<noteq> None \<or> \<not> is_ok (get_limits db)"

lemma readable_whatever_switch: "is_ok (read_limits r c) = is_ok (read_limits r c')"
  by (auto simp: is_ok_iff read_limits_def result_simps)

lemma switch_entries_off_raises:
  assumes "switch_entries_off env s = (Inl e, t)"
  shows "switch_fails env (xo_risk s) \<and> flag_le (xo_client s) (xo_client t)"
proof (cases "xn_switch_error env")
  case None
  let ?db = "(xo_risk s)\<lparr>rk_entries := Some False\<rparr>"
  have "\<not> is_ok (get_limits ?db) \<and> xo_client t = xo_client s"
    using assms None by (auto simp: switch_entries_off_def set_entries_enabled_def Let_def on_client_def disable_client_entries_def
      split: sum.splits prod.splits)
  moreover have "is_ok (bindE m (\<lambda>l. Inr (Some l))) = is_ok m" for m :: "risk_limits result" by (cases m) simp_all
  then have "is_ok (get_limits ?db) = is_ok (get_limits (xo_risk s))"
    using readable_whatever_switch by (auto simp: get_limits_def split: option.split)
  ultimately show ?thesis by (simp add: switch_fails_def flag_le_def)
next
  case (Some x)
  then show ?thesis using assms by (simp add: switch_entries_off_def switch_fails_def flag_le_def)
qed

lemma unprotected_entry_raises:
  assumes "unprotected_entry api env req quantity order_id response state e s = (Inl x, s')"
  shows "switch_fails env (xo_risk s) \<and> flag_le (xo_client s) (xo_client s')"
proof -
  obtain r t where w: "whenS (state \<in> set [[], ''filled'', ''partially_filled'']) (switch_entries_off env) s = (r, t)" by fastforce
  have cancels: "\<exists>y u. try_cancel api i oid t = (Inr y, u)" for i oid
    by (cases "cancel_order api i oid (xo_client t)") (auto simp: try_cancel_def catchS_def bindS_def returnS_def on_client_def split: sum.split)
  let ?live = "state \<in> set [[], ''live'', ''partially_filled'']"
  obtain y u where c: "(if ?live then try_cancel api (er_inst_id req) order_id else returnS (False, [])) t = (Inr y, u)"
  proof (cases ?live)
    case True
    then show thesis using that cancels [of "er_inst_id req" order_id] by (simp only: if_True) blast
  next
    case False
    then show thesis using that [of "(False, [])" t] by (simp only: if_False returnS_def)
  qed
  have "r = Inl x \<and> t = s'"
  proof (cases r)
    case (Inl z)
    then show ?thesis using assms w by (simp add: unprotected_entry_def Let_def bindS_def)
  next
    case (Inr z)
    have False using assms w c unfolding unprotected_entry_def Let_def bindS_def Inr by (simp only: prod.case sum.case returnS_def split_beta) simp
    then show ?thesis ..
  qed
  then show ?thesis using w switch_entries_off_raises by (auto simp: whenS_def returnS_def split: if_splits)
qed

lemma settle_entry_reports:
  assumes "settle_entry api env req terms response s = (r, s')"
  shows "case r of
      Inr result \<Rightarrow> result \<noteq> [] \<and> jget result ''ordId'' = jget response ''ordId''
    | Inl _ \<Rightarrow> switch_fails env (xo_risk s) \<and> flag_le (xo_client s) (xo_client s')"
proof -
  let ?oid = "text_of (jget response ''ordId'')"
  have given_up: ?thesis if u: "unprotected_entry api env req (fst terms) ?oid response st e t = (r, s')" "unswitched_le s t" for st e t
  proof (cases r)
    case (Inl x)
    then show ?thesis using unprotected_entry_raises [OF u(1) [unfolded Inl]] u(2) by (simp add: unswitched_le_def flag_le_def)
  next
    case (Inr result)
    then show ?thesis using unprotected_entry_Inr [OF u(1) [unfolded Inr]] by simp
  qed
  obtain d t where details: "get_fok_order api (er_inst_id req) ?oid 5 s = (d, t)" by fastforce
  then have t: "unswitched_le s t" by (rule unswitchedD [rotated]) simp
  show ?thesis
  proof (cases d)
    case (Inl e)
    then have "unprotected_entry api env req (fst terms) ?oid response [] e t = (r, s')"
      using assms details by (simp add: settle_entry_def Let_def tryS_def)
    from given_up [OF this t] show ?thesis .
  next
    case order: (Inr order)
    obtain p u where p: "protected_entry api env req terms ?oid order t = (p, u)" by fastforce
    then have u: "unswitched_le s u" by (rule unswitched.le_trans [OF t unswitchedD, rotated]) simp
    show ?thesis
    proof (cases p)
      case (Inl e)
      then have "unprotected_entry api env req (fst terms) ?oid response (order_state_of order) e u = (r, s')"
        using assms details order p by (simp add: settle_entry_def Let_def tryS_def)
      from given_up [OF this u] show ?thesis .
    next
      case (Inr proof_data)
      then have res: "r = Inr (tmerge response [(''maybechRequestedSize'', JStr (fst terms)), (''maybechProtectionVerified'', JBool True),
          (''maybechProtection'', JObj proof_data)])" (is "r = Inr ?result")
        using assms details order p by (simp add: settle_entry_def Let_def tryS_def returnS_def)
      have k: "jget ?result ''maybechProtectionVerified'' = JBool True" "jget ?result ''ordId'' = jget response ''ordId''"
        by (simp_all add: tmerge_def)
      from k(1) have "?result \<noteq> []" by (auto simp: jget_def)
      with k(2) show ?thesis by (simp only: res sum.case simp_thms)
    qed
  qed
qed

text \<open>OKX took the order of this execution and answered \<open>response\<close>.\<close>

definition accepted_entry :: "'x sdk \<Rightarrow> executor_env \<Rightarrow> entry_request \<Rightarrow> entry_approval option \<Rightarrow> 'x executor_state \<Rightarrow> jobj \<Rightarrow> bool" where
  "accepted_entry api env req approval s response \<longleftrightarrow> (let side = py_lower (er_side req) in
     (side = ''long'' \<or> side = ''short'') \<and> check_levels side req = Inr () \<and> \<not> xn_dry_run env \<and>
     (\<exists>terms t u v. consume_approval env req approval s = (Inr (), t) \<and> entry_order_terms api side req t = (Inr terms, u) \<and>
        on_client (place_limit_order api (fok_entry env side req terms)) u = (Inr response, v)))"

lemma accepted_response:
  assumes "place_limit_order api lo c = (Inr response, d)"
  shows "response \<noteq> []"
proof -
  obtain answer where "accepted_order_result ''place_limit_order'' answer = Inr response"
    using assms unfolding place_limit_order_def by (auto simp: result_simps)
  then have "text_of (jget response ''ordId'') \<noteq> []"
    unfolding accepted_order_result_def accepted_result_def by (auto simp: result_simps Let_def split: if_splits)
  then show ?thesis by (auto simp: jget_def)
qed


subsection \<open>A sample exchange\<close>

definition okx_kit :: "jobj list \<Rightarrow> unit sdk" where
  "okx_kit algos name args x =
     (Inr [(''code'', JStr ''0''), (''data'', JList (map JObj
        (if name = ''get_instruments'' then [btc_payload @ [(''ctType'', JStr ''linear''), (''settleCcy'', JStr ''USDT'')]]
         else if name = ''get_account_balance'' then [[(''totalEq'', JStr ''10000'')]]
         else if name = ''get_leverage'' then [[(''instId'', jget args ''instId''), (''mgnMode'', JStr ''cross''), (''lever'', JStr ''3'')]]
         else if name = ''place_order'' then [[(''ordId'', JStr ''7''), (''clOrdId'', JStr ''mb1''), (''sCode'', JStr ''0'')]]
         else if name = ''get_order''
         then [[(''ordId'', JStr ''7''), (''clOrdId'', JStr ''mb1''), (''state'', JStr ''filled''), (''ordType'', JStr ''fok''),
            (''accFillSz'', JStr ''2''), (''attachAlgoOrds'', JList [JObj [(''attachAlgoClOrdId'', JStr ''mbad''),
               (''slTriggerPx'', JStr ''90''), (''slOrdPx'', JStr ''-1'')]])]]
         else if name = ''order_algos_list'' \<and> jget args ''ordType'' = JStr ''conditional'' then algos else [])))], x)"

definition attached_stop :: jobj where
  "attached_stop = [(''algoId'', JStr ''9''), (''algoClOrdId'', JStr ''mbad''), (''instId'', JStr ''BTC-USDT-SWAP''), (''state'', JStr ''live''),
     (''sz'', JStr ''2''), (''slTriggerPx'', JStr ''90.0''), (''slOrdPx'', JStr ''-1'')]"

definition sample_request :: entry_request where
  "sample_request = \<lparr>er_inst_id = ''BTC-USDT-SWAP'', er_side = ''long'', er_entry_price = JFloat (PFin 100), er_size = ''2'',
     er_stop_loss = JFloat (PFin 90), er_client_order_id = ''mb1'', er_take_profit = None\<rparr>"

definition sample_entry_approval :: entry_approval where
  "sample_entry_approval = \<lparr>ea_approval_id = ''a1'', ea_inst_id = ''BTC-USDT-SWAP'', ea_requested_size = 2, ea_entry_price = 100,
     ea_stop_loss_price = 90, ea_order_notional = 2, ea_existing_exposure = 0, ea_projected_exposure = 2, ea_worst_case_loss = 1/5,
     ea_existing_worst_case_loss = 0, ea_projected_worst_case_loss = 1/5, ea_equity = 1000, ea_leverage = 1,
     ea_approved_at = ''t'', ea_dry_run = False\<rparr>"

definition sample_executor :: "('x) \<Rightarrow> 'x executor_state" where
  "sample_executor x = \<lparr>xo_client = \<lparr>cl_armed = True, cl_entry = True, cl_api = x\<rparr>, xo_risk = sample_limits, xo_issued = [''a1''], xo_used = [],
     xo_constraints = [], xo_instruments = []\<rparr>"

definition sample_executor_env :: "py_exc option \<Rightarrow> executor_env" where
  "sample_executor_env switch_error = \<lparr>xn_dry_run = False, xn_units = empty_store, xn_now_text = ''t'', xn_now = 102,
     xn_iso = (\<lambda>_. Some 100), xn_fresh = ''u'', xn_digest = (\<lambda>_. ''d''), xn_switch_error = switch_error\<rparr>"

definition sample_submission :: "jobj list \<Rightarrow> py_exc option \<Rightarrow> jobj result \<times> (unit \<times> sdk_log) executor_state" where
  "sample_submission algos switch_error =
     execute (recorded (okx_kit algos)) (sample_executor_env switch_error) sample_request (Some sample_entry_approval) (sample_executor ((), []))"


definition sample_executor_uses :: "(executor_env \<times> executor_op) list" where
  "sample_executor_uses =
     (let env = sample_executor_env None; a = sample_entry_approval\<lparr>ea_approval_id := ''u''\<rparr> in
      [(env, XApprove ''BTC-USDT-SWAP'' ''long'' (JStr ''2'') (JFloat (PFin 100)) (JFloat (PFin 90))),
       (env, XExecute sample_request (Some a)), (env, XExecute sample_request (Some a))])"

definition sample_run :: "(unit \<times> sdk_log) executor_state" where
  "sample_run = run_steps (executor_step (okx_kit [attached_stop])) sample_executor_uses (sample_executor ((), [])\<lparr>xo_issued := []\<rparr>)"

text \<open>One approval, presented twice, sends one order.\<close>

lemma sample_run_sends: "entry_orders sample_run = 1 \<and>
    approvals_issued (okx_kit [attached_stop]) sample_executor_uses (sample_executor ((), [])\<lparr>xo_issued := []\<rparr>) = 1"
  by code_simp

text \<open>The exception is real. When the database refuses to store the entry switch, a completely filled
  entry whose stop OKX does not show is reported as no order at all: entries stay on in the process and in the
  database, and no emergency close is demanded, although OKX holds the position without a stop.\<close>

lemma switch_failure_hides_filled_entry:
  "case sample_submission [] (Some (RemoteError ''database is locked'')) of (r, s') \<Rightarrow>
    r = Inr [] \<and> cl_entry (xo_client s') \<and> rk_entries (xo_risk s') = Some True \<and>
    map fst (exec_sent s') = [''get_instruments'', ''place_order'', ''get_order''] @ replicate 10 ''order_algos_list''"
  by code_simp

abbreviation locked_env :: executor_env where
  "locked_env \<equiv> sample_executor_env (Some (RemoteError ''database is locked''))"

lemma sample_accepted:
  "\<exists>response. accepted_entry (recorded (okx_kit [])) locked_env sample_request (Some sample_entry_approval) (sample_executor ((), [])) response"
proof -
  let ?api = "recorded (okx_kit [])"
  have "case consume_approval locked_env sample_request (Some sample_entry_approval) (sample_executor ((), [])) of (Inl _, _) \<Rightarrow> False | (Inr _, t) \<Rightarrow>
     (case entry_order_terms ?api ''long'' sample_request t of (Inl _, _) \<Rightarrow> False | (Inr terms, u) \<Rightarrow>
        is_ok (fst (on_client (place_limit_order ?api (fok_entry locked_env ''long'' sample_request terms)) u)))" by code_simp
  then obtain t terms u response v where
    "consume_approval locked_env sample_request (Some sample_entry_approval) (sample_executor ((), [])) = (Inr (), t)"
    "entry_order_terms ?api ''long'' sample_request t = (Inr terms, u)"
    "on_client (place_limit_order ?api (fok_entry locked_env ''long'' sample_request terms)) u = (Inr response, v)"
    unfolding is_ok_iff by (auto split: prod.splits sum.splits) (metis prod.collapse)
  moreover have "check_levels ''long'' sample_request = Inr ()" "py_lower (er_side sample_request) = ''long''" "\<not> xn_dry_run locked_env"
    by code_simp+
  ultimately show ?thesis unfolding accepted_entry_def Let_def by auto
qed


end
