(* ===== verification/ProtectionClient.thy ===== *)
theory ProtectionClient
  imports OrderExecution
begin

section \<open>The protection service on the exchange client\<close>

text \<open>
  The protection service of \<^verbatim>\<open>src/trading/position_protection.py\<close> over the client of
  \<^verbatim>\<open>src/exchange/client.py\<close>: the calls that the service takes as a record are those of the client. The
  service repairs, amends and removes stops; nothing it does can open exposure.
\<close>

definition client_rows :: "('x, json) client \<Rightarrow> ('x client_state, jobj list) action" where
  "client_rows m = bindS m (\<lambda>data. liftS (rows_of data))"

definition okx_stop_client :: "'x sdk \<Rightarrow> 'x client_state stop_client" where
  "okx_stop_client api =
     \<lparr>sc_algos = (\<lambda>inst_id ord_type. client_rows (get_pending_algo_orders api inst_id ord_type)),
      sc_algos_untyped = (\<lambda>inst_id. client_rows (get_pending_algo_orders api inst_id ''conditional'')),
      sc_positions = client_rows (get_positions api ''SWAP'' []),
      sc_instruments = (\<lambda>inst_id. client_rows (get_instruments api ''SWAP'' inst_id)),
      sc_ticker = (\<lambda>inst_id. client_rows (get_ticker api inst_id)),
      sc_amend = (\<lambda>inst_id algo_id quantity stop. ignoring (amend_position_stop api inst_id algo_id quantity stop True)),
      sc_place = (\<lambda>inst_id side quantity stop algo_client_id.
        place_position_stop api inst_id side quantity stop algo_client_id ''cross'' ''net'' True),
      sc_cancel = (\<lambda>inst_id algo_id. ignoring (cancel_position_stop api inst_id algo_id True))\<rparr>"

subsection \<open>Steps that open no exposure\<close>

type_synonym 'x live_guard = "('x \<times> sdk_log) client_state guard_state"

definition harmless_le :: "'x live_guard \<Rightarrow> 'x live_guard \<Rightarrow> bool" where
  "harmless_le s t \<longleftrightarrow> (\<exists>new. sent (gd_okx t) = sent (gd_okx s) @ new \<and> list_all (\<lambda>c. \<not> opens_exposure c) new)"

lemma harmless_le_same: "sent (gd_okx t) = sent (gd_okx s) \<Longrightarrow> harmless_le s t"
  by (simp add: harmless_le_def)

lemma harmless_le_trans: "harmless_le s t \<Longrightarrow> harmless_le t u \<Longrightarrow> harmless_le s u"
  unfolding harmless_le_def
proof (elim exE conjE)
  fix xs ys
  assume "sent (gd_okx t) = sent (gd_okx s) @ xs" "sent (gd_okx u) = sent (gd_okx t) @ ys"
    "list_all (\<lambda>c. \<not> opens_exposure c) xs" "list_all (\<lambda>c. \<not> opens_exposure c) ys"
  then show "\<exists>new. sent (gd_okx u) = sent (gd_okx s) @ new \<and> list_all (\<lambda>c. \<not> opens_exposure c) new"
    by (intro exI [of _ "xs @ ys"]) simp
qed

interpretation harmless: action_relation harmless_le
  by unfold_locales (simp add: harmless_le_same, rule harmless_le_trans)

abbreviation harmless :: "(('x \<times> sdk_log) client_state, 'a) guard \<Rightarrow> bool" where
  "harmless \<equiv> behaves harmless_le (\<lambda>_. True) (\<lambda>_. True)"

lemma harmless_local:
  assumes "\<And>s. gd_okx (snd (m s)) = gd_okx s"
  shows "harmless m"
  using assms by (simp add: behaves_def harmless_le_same)

lemma harmless_basic [simp, intro!]:
  "harmless (on_units f)" "harmless (units g)" "harmless (liftS r)" "harmless (returnS x)" "harmless (unprotected message)"
  "harmless (ensure b message)" "harmless (present found message)" "harmless (guard_audit env event payload)"
  "harmless disable_entries" "harmless (persist_entries_off env)"
  by (rule harmless_local, simp add: on_units_def units_def liftS_def returnS_def unprotected_def ensure_def present_def guard_audit_def
      disable_entries_def persist_entries_off_def split: prod.split option.split)+

lemma harmless_bind [intro!]: "harmless m \<Longrightarrow> (\<And>x. harmless (f x)) \<Longrightarrow> harmless (bindS m f)"
  by (rule harmless.bind)

lemma harmless_catch [intro!]: "harmless m \<Longrightarrow> (\<And>e. harmless (h e)) \<Longrightarrow> harmless (catchS m h)"
  by (rule harmless.catch)

lemma harmless_atomically [intro!]: "harmless m \<Longrightarrow> harmless (atomically m)"
proof -
  assume "harmless m"
  moreover have "gd_okx (snd (atomically m s)) = gd_okx (snd (m s))" for s
    by (simp add: atomically_def split: prod.split sum.split)
  ultimately show ?thesis by (simp add: behaves_def harmless_le_def)
qed

lemma harmless_noting [intro!]: "harmless m \<Longrightarrow> harmless (noting label m errors)"
  unfolding noting_def by auto

lemma harmless_value_error [intro!]: "harmless m \<Longrightarrow> harmless (value_error_as_protection m)"
  unfolding value_error_as_protection_def by (auto split: py_exc.split)

lemma harmless_okx:
  assumes "\<And>s. calls s (\<lambda>c. \<not> opens_exposure c) m"
  shows "harmless (okx m)"
proof -
  have "harmless_le s (snd (okx m s))" for s
    using assms [of "gd_okx s"] by (auto simp: calls_def Let_def harmless_le_def okx_def split: prod.split)
  then show ?thesis by (simp add: behaves_def)
qed

lemma calls_rows: "calls s P m \<Longrightarrow> calls s P (client_rows m)"
  unfolding client_rows_def by (rule calls_lifted)

lemma harmless_client [simp, intro!]:
  "harmless (okx (sc_algos (okx_stop_client (recorded api)) i ty))"
  "harmless (okx (sc_algos_untyped (okx_stop_client (recorded api)) i))"
  "harmless (okx (sc_positions (okx_stop_client (recorded api))))"
  "harmless (okx (sc_instruments (okx_stop_client (recorded api)) i))"
  "harmless (okx (sc_ticker (okx_stop_client (recorded api)) i))"
  unfolding okx_stop_client_def stop_client.simps get_pending_algo_orders_def get_positions_def get_instruments_def get_ticker_def
  by (intro harmless_okx calls_rows calls_query, simp add: opens_exposure_def)+

lemma harmless_orders [simp, intro!]:
  "harmless (okx (sc_amend (okx_stop_client (recorded api)) i a q st))"
  "harmless (okx (sc_place (okx_stop_client (recorded api)) i side q st cid))"
  "harmless (okx (sc_cancel (okx_stop_client (recorded api)) i a))"
  unfolding okx_stop_client_def stop_client.simps amend_position_stop_def place_position_stop_def cancel_position_stop_def
  by (intro harmless_okx calls_ignoring calls_guarded guards_stay calls_lifted calls_sdk, simp add: opens_exposure_def jget_def)+

lemmas harmless_splits = prod.split option.split list.split sum.split if_split

subsection \<open>The operations of the service\<close>

lemma harmless_pending [simp, intro!]: "harmless (pending_orders (okx_stop_client (recorded api)) i)"
  unfolding pending_orders_def by (auto split: if_split)

lemma harmless_find [simp, intro!]: "harmless (find_order (okx_stop_client (recorded api)) i a)"
  unfolding find_order_def by auto

lemma harmless_constraints [simp, intro!]: "harmless (constraints_of (okx_stop_client (recorded api)) i)"
  unfolding constraints_of_def by (auto split: list.split)

lemma harmless_fail [simp, intro!]: "harmless (fail_amend env p i e)"
  unfolding fail_amend_def Let_def by auto

lemma harmless_not_applied [simp, intro!]: "harmless (amend_not_applied env p i e)"
  unfolding amend_not_applied_def by auto

lemma harmless_verify [simp, intro!]: "harmless (verify_active (okx_stop_client (recorded api)) env pid)"
  unfolding verify_active_def by (auto split: harmless_splits)

lemma harmless_prepare [simp, intro!]: "harmless (prepare_amend (okx_stop_client (recorded api)) env pid cid e r im ep ec)"
  unfolding prepare_amend_def amend_target_def amend_terms_def Let_def by (auto split: prod.split)

lemma harmless_carry_out [simp, intro!]: "harmless (carry_out_amend (okx_stop_client (recorded api)) env p pr c n cm q st i)"
  unfolding carry_out_amend_def exchange_amend_def resolve_amend_error_def publish_amended_stop_def
  by (auto split: option.split sum.split)

lemma harmless_amend [simp, intro!]: "harmless (amend_stop_condition (okx_stop_client (recorded api)) env pid cid e r cm im ep ec)"
  unfolding amend_stop_condition_def by (auto split: prod.split)

lemma harmless_last_price [simp, intro!]: "harmless (last_price (okx_stop_client (recorded api)) i tickers)"
  unfolding last_price_def by (auto split: list.split)

lemma harmless_break_even [simp, intro!]:
  "harmless (move_to_break_even (okx_stop_client (recorded api)) env pid cid l r ep ec f g h)"
  unfolding move_to_break_even_def break_even_target_def Let_def by (auto split: prod.split)

lemma harmless_attach [simp, intro!]: "harmless (attach_stop (okx_stop_client (recorded api)) env p)"
  unfolding attach_stop_def require_balanced_def stop_to_attach_def restore_confirmed_rule_def amend_or_accept_def place_stop_def Let_def
  by (auto split: harmless_splits)

lemma harmless_protect [simp, intro!]: "harmless (protect (okx_stop_client (recorded api)) env pid)"
  unfolding protect_def by auto

lemma harmless_adopt [simp, intro!]: "harmless (adopt_recovered_position (okx_stop_client (recorded api)) env pid stop r)"
  unfolding adopt_recovered_position_def put_recovery_stop_def Let_def by (auto split: list.split)

lemma harmless_await [simp, intro!]: "harmless (await_removal (okx_stop_client (recorded api)) env p pr n)"
  by (induction n) (auto simp: cancel_unknown_def)

lemma harmless_cancel [simp, intro!]: "harmless (cancel_for_close (okx_stop_client (recorded api)) env pid r)"
  unfolding cancel_for_close_def cancel_unknown_def by (auto split: harmless_splits)

subsection \<open>A run of the service\<close>

datatype protection_op =
    PoAmend string string jobj string "jobj option" jobj "string option" "string option"
  | PoBreakEven string string json string "string option" "string option" json json json
  | PoProtect string
  | PoAdopt string json string
  | PoCancel string string
  | PoVerify string

fun protection_do :: "'x stop_client \<Rightarrow> guard_env \<times> protection_op \<Rightarrow> ('x, unit) guard" where
  "protection_do client (env, PoAmend pid cid e r cm im ep ec) = ignoring (amend_stop_condition client env pid cid e r cm im ep ec)"
| "protection_do client (env, PoBreakEven pid cid l r ep ec f g h) = ignoring (move_to_break_even client env pid cid l r ep ec f g h)"
| "protection_do client (env, PoProtect pid) = ignoring (protect client env pid)"
| "protection_do client (env, PoAdopt pid stop r) = ignoring (adopt_recovered_position client env pid stop r)"
| "protection_do client (env, PoCancel pid r) = ignoring (cancel_for_close client env pid r)"
| "protection_do client (env, PoVerify pid) = ignoring (verify_active client env pid)"

definition protection_step :: "'x sdk \<Rightarrow> guard_env \<times> protection_op \<Rightarrow> 'x live_guard \<Rightarrow> 'x live_guard" where
  "protection_step api use s = snd (protection_do (okx_stop_client (recorded api)) use s)"

lemma harmless_do: "harmless (protection_do (okx_stop_client (recorded api)) use)"
proof (cases use)
  case (Pair env x)
  then show ?thesis by (cases x) (auto simp: ignoring_def)
qed

interpretation protection_runs: forward_steps "protection_step api" "\<lambda>_. True" "\<lambda>_. True" harmless_le for api :: "'x sdk"
proof (unfold_locales)
  fix s :: "'x live_guard" and use
  show "harmless_le s (protection_step api use s)"
    using harmless_do [of api use] by (auto simp: behaves_def protection_step_def)
qed (simp_all add: harmless_le_same, rule harmless_le_trans)

text \<open>C6: Whatever the protection service is asked to do - attach, amend, move to break-even, adopt, verify or
  cancel stops, in any order and however OKX answers - no call it makes can open exposure: every order it
  sends is reduce-only.\<close>

theorem protection_never_opens_exposure:
  "\<exists>new. sent (gd_okx (run_steps (protection_step api) uses s)) = sent (gd_okx s) @ new \<and>
     filter opens_exposure new = []"
proof -
  have "harmless_le s (run_steps (protection_step api) uses s)"
    by (rule protection_runs.run_forward) (simp_all add: list_all_iff)
  then show ?thesis by (auto simp: harmless_le_def list_all_iff filter_empty_conv)
qed

end
