(* ===== verification/EntrySubmission.thy ===== *)
theory EntrySubmission
  imports OrderExecution TradeStore PositionLedger
begin

section \<open>Entry submission\<close>

text \<open>
  \<^verbatim>\<open>src/trading/entry_submission.py\<close>: submit a prepared entry, record what OKX reported in the
  position and trade stores, and close the position at once when its stop cannot be proved. Numbers that
  the executor reports are finite; a failing store is an exception of its operation.
\<close>

record 'x submit_state =
  su_exec :: "'x executor_state"
  su_pos :: store
  su_trades :: trade_db

type_synonym ('x, 'a) submission = "('x submit_state, 'a) action"

definition by_executor :: "('x, 'a) executor \<Rightarrow> ('x, 'a) submission" where
  "by_executor m s = (case m (su_exec s) of (r, e) \<Rightarrow> (r, s\<lparr>su_exec := e\<rparr>))"

definition in_positions :: "(store \<Rightarrow> 'a tx) \<Rightarrow> ('x, 'a) submission" where
  "in_positions m s = (case m (su_pos s) of (r, st) \<Rightarrow> (r, s\<lparr>su_pos := st\<rparr>))"

definition in_trades :: "(trade_db \<Rightarrow> 'a trade_tx) \<Rightarrow> ('x, 'a) submission" where
  "in_trades m s = (case m (su_trades s) of (r, db) \<Rightarrow> (r, s\<lparr>su_trades := db\<rparr>))"

definition extract_order_id :: "jobj \<Rightarrow> string option" where
  "extract_order_id result =
     (let direct = py_or (jget result ''ordId'') (jget result ''order_id'') in
      if truthy direct then Some (py_str direct)
      else (case jget result ''data'' of
          JList (JObj d # _) \<Rightarrow>
            (let nested = py_or (jget d ''ordId'') (jget d ''order_id'') in if truthy nested then Some (py_str nested) else None)
        | _ \<Rightarrow> None))"

definition finite_number :: "json \<Rightarrow> rat result" where
  "finite_number j = bindE (py_float (py_or j (JInt 0))) (\<lambda>f. case f of PFin r \<Rightarrow> Inr r | _ \<Rightarrow> Inl OverflowError)"

text \<open>The protection that the executor proved, as it is stored.\<close>

definition attached_protection :: "string \<Rightarrow> string \<Rightarrow> string \<Rightarrow> jobj \<Rightarrow> protection result" where
  "attached_protection now pid order_id active =
     bindE (finite_number (jget active ''quantity'')) (\<lambda>quantity.
     bindE (finite_number (jget active ''stop_loss'')) (\<lambda>stop.
     Inr \<lparr>pr_position_id = pid, pr_kind = AttachedStop, pr_status = PActive, pr_algo_id = text_of (jget active ''algo_id''),
       pr_algo_client_order_id = text_of (jget active ''algo_client_order_id''), pr_quantity = quantity, pr_stop_loss = stop,
       pr_trigger_order_id = [], pr_metadata = dumps [(''take_profit'', jget active ''take_profit''), (''parent_order_id'', JStr order_id)],
       pr_created_at = now, pr_updated_at = now\<rparr>))"

definition dry_fill :: "string \<Rightarrow> position \<Rightarrow> string \<Rightarrow> rat \<Rightarrow> string \<Rightarrow> allocation" where
  "dry_fill now p client_order_id requested_size order_id =
     \<lparr>al_id = ''dry-fill-'' @ client_order_id, al_position_id = p_id p, al_action = AOpen, al_quantity = requested_size,
      al_price = Some (p_entry_price p), al_fee = None, al_exchange_order_id = order_id, al_reason = ''confirmed dry-run entry'',
      al_created_at = now, al_metadata = dumps [(''confirmation_source'', JStr ''dry_run''), (''correlation_id'', JStr client_order_id)],
      al_applied = True\<rparr>"

definition record_dry_fill :: "string \<Rightarrow> string \<Rightarrow> position \<Rightarrow> string \<Rightarrow> rat \<Rightarrow> string \<Rightarrow> ('x, position) submission" where
  "record_dry_fill now trade_id p client_order_id requested_size order_id =
     bindS (in_positions (record_allocation now (dry_fill now p client_order_id requested_size order_id) True False)) (\<lambda>updated.
     let q = or_default updated p in
     bindS (in_trades (mark_trade_open trade_id (p_entry_price q))) (\<lambda>_.
     bindS (in_positions (update_execution_tracking now (p_id q) order_id ''filled'' True)) (\<lambda>tracked.
     returnS (or_default tracked q))))"

definition record_entry_submission ::
  "executor_env \<Rightarrow> string \<Rightarrow> position \<Rightarrow> string \<Rightarrow> rat \<Rightarrow> jobj \<Rightarrow> string \<Rightarrow> ('x, position) submission" where
  "record_entry_submission env trade_id p client_order_id requested_size result execution_status =
     (case extract_order_id result of
        None \<Rightarrow> liftS (Inl (ValueError ''Order submission response is missing ordId''))
      | Some order_id \<Rightarrow>
          bindS (in_positions (link_exchange_order (xn_now_text env) (p_id p) client_order_id order_id
            [(''execution_status'', JStr execution_status), (''execution_result'', JObj result), (''exchange_order_id'', JStr order_id)])) (\<lambda>linked.
          bindS (liftS (case linked of None \<Rightarrow> Inl (RuntimeError ''Prepared position could not link exchange order'') | Some q \<Rightarrow> Inr q)) (\<lambda>q.
          bindS (case active_protection_of result of
              None \<Rightarrow> returnS ()
            | Some active \<Rightarrow>
                bindS (liftS (attached_protection (xn_now_text env) (p_id q) order_id active)) (\<lambda>pr.
                ignoring (in_positions (save_protection (xn_now_text env) pr)))) (\<lambda>_.
          if xn_dry_run env then record_dry_fill (xn_now_text env) trade_id q client_order_id requested_size order_id
          else returnS q))))"

subsection \<open>Emergency close\<close>

definition retry_emergency_later :: "executor_env \<Rightarrow> position \<Rightarrow> jobj \<Rightarrow> ('x, position \<times> jobj \<times> string) submission" where
  "retry_emergency_later env p close_result =
     bindS (in_positions (merge_metadata (xn_now_text env) (p_id p)
       [(''execution_status'', JStr ''emergency_close_retry_pending''), (''emergency_close_last_attempt_at'', JStr (xn_now_text env))])) (\<lambda>pending.
     liftS (case pending of
         None \<Rightarrow> Inl (RuntimeError ''Emergency close retry state could not be persisted'')
       | Some q \<Rightarrow> Inr (q, close_result, ''emergency_close_failed'')))"

definition place_emergency_close ::
  "'x sdk \<Rightarrow> executor_env \<Rightarrow> position \<Rightarrow> string \<Rightarrow> pyfloat \<Rightarrow> ('x, position \<times> jobj \<times> string) submission" where
  "place_emergency_close api env p client_order_id quantity =
     bindS (by_executor (close_position api env (p_inst_id p) (p_side p) quantity client_order_id ''net'')) (\<lambda>close_result.
     case extract_order_id close_result of
       None \<Rightarrow> retry_emergency_later env p close_result
     | Some order_id \<Rightarrow>
         bindS (in_positions (mark_pending_execution (xn_now_text env) (p_id p) Closing order_id
           [(''emergency_close_order_id'', JStr order_id), (''execution_status'', JStr ''emergency_close_submitted'')] (Some client_order_id))) (\<lambda>updated.
         liftS (case updated of
             None \<Rightarrow> Inl (RuntimeError ''Emergency close order could not link to logical position'')
           | Some q \<Rightarrow> Inr (q, close_result, ''emergency_close_submitted''))))"

definition emergency_intent :: "string \<Rightarrow> string \<Rightarrow> pyfloat \<Rightarrow> string \<Rightarrow> jobj" where
  "emergency_intent correlation_id client_order_id quantity parent_order_id =
       [(''correlation_id'', JStr correlation_id), (''client_order_id'', JStr client_order_id),
        (''emergency_close_client_order_id'', JStr client_order_id), (''order_action'', JStr ''close''),
        (''close_reason'', JStr ''active attached protection could not be verified''), (''close_quantity'', JFloat quantity),
        (''previous_exchange_order_id'', JStr parent_order_id), (''emergency_close'', JBool True),
        (''execution_status'', JStr ''emergency_close_submitting'')]"

definition submit_emergency_close ::
  "'x sdk \<Rightarrow> executor_env \<Rightarrow> position \<Rightarrow> string \<Rightarrow> string \<Rightarrow> pyfloat \<Rightarrow> string \<Rightarrow> ('x, position \<times> jobj \<times> string) submission" where
  "submit_emergency_close api env p correlation_id client_order_id quantity parent_order_id =
     bindS (demand (client_order_id \<noteq> [] \<and> parent_order_id \<noteq> [] \<and> \<not> fl_le quantity (PFin 0))
       (ValueError ''Emergency close intent is incomplete'')) (\<lambda>_.
     bindS (in_positions (claim_pending_execution (xn_now_text env) (p_id p) PendingOpen Closing client_order_id
       (emergency_intent correlation_id client_order_id quantity parent_order_id))) (\<lambda>claimed.
     bindS (liftS (case claimed of
         None \<Rightarrow> Inl (RuntimeError ''Emergency close intent could not claim logical position'') | Some q \<Rightarrow> Inr q)) (\<lambda>q.
     place_emergency_close api env q client_order_id quantity)))"

subsection \<open>Submission\<close>

definition submission_status :: "bool \<Rightarrow> jobj \<Rightarrow> string" where
  "submission_status dry_run result =
     (if result \<noteq> [] \<and> dry_run then ''simulated''
      else if result \<noteq> [] \<and> jget result ''maybechProtectionVerified'' = JBool True then ''submitted''
      else if result \<noteq> [] \<and> jget result ''maybechEmergencyCloseRequired'' = JBool True then ''emergency_close_required''
      else if result \<noteq> [] \<and> jget result ''maybechCancelRequested'' = JBool True then ''protection_failed_canceling''
      else if result \<noteq> [] then ''protection_failed_unresolved'' else ''failed'')"

text \<open>A submission that the executor reports as empty: the intent and the trade are given up.\<close>

definition submission_failed :: "executor_env \<Rightarrow> string \<Rightarrow> position \<Rightarrow> string \<Rightarrow> ('x, position \<times> jobj \<times> string) submission" where
  "submission_failed env trade_id p client_order_id =
     bindS (in_positions (recover_client_order_intent (xn_now_text env) (p_id p) client_order_id ''submission_failed'')) (\<lambda>_.
     bindS (in_trades (mark_trade_failed trade_id ''entry order submission failed'')) (\<lambda>_.
     returnS (p, [], ''failed'')))"

definition persistence_failed :: "position \<Rightarrow> jobj \<Rightarrow> py_exc \<Rightarrow> ('x, position \<times> jobj \<times> string) submission" where
  "persistence_failed p result e = returnS (p, tset ''maybechPersistenceError'' (JStr (exc_text e)) result, ''persistence_failed'')"

definition close_unproved ::
  "'x sdk \<Rightarrow> executor_env \<Rightarrow> position \<Rightarrow> string \<Rightarrow> jobj \<Rightarrow> ('x, position \<times> jobj \<times> string) submission" where
  "close_unproved api env p client_order_id result =
     bindS (liftS (py_float (py_or (jget result ''maybechEmergencyCloseQuantity'') (JInt 0)))) (\<lambda>quantity.
     submit_emergency_close api env p client_order_id (text_of (jget result ''maybechEmergencyCloseClientOrderId'')) quantity
       (or_default (extract_order_id result) []))"

definition submit ::
  "'x sdk \<Rightarrow> executor_env \<Rightarrow> string \<Rightarrow> position \<Rightarrow> string \<Rightarrow> rat \<Rightarrow> rat \<Rightarrow> rat \<Rightarrow> rat option \<Rightarrow> entry_approval \<Rightarrow>
   ('x, position \<times> jobj \<times> string) submission" where
  "submit api env trade_id p client_order_id requested_size entry_price stop_loss_price take_profit_price approval =
     bindS (by_executor (execute api env \<lparr>er_inst_id = p_inst_id p, er_side = p_side p, er_entry_price = JFloat (PFin entry_price),
         er_size = float_str (PFin requested_size), er_stop_loss = JFloat (PFin stop_loss_price), er_client_order_id = client_order_id,
         er_take_profit = map_option (\<lambda>tp. JFloat (PFin tp)) take_profit_price\<rparr> (Some approval))) (\<lambda>result.
     if result = [] then submission_failed env trade_id p client_order_id
     else
       tryS (record_entry_submission env trade_id p client_order_id requested_size result (submission_status (xn_dry_run env) result))
         (persistence_failed p result)
         (\<lambda>q. if jget result ''maybechEmergencyCloseRequired'' = JBool True
           then tryS (close_unproved api env q client_order_id result)
             (persistence_failed q result)
             (\<lambda>(closing, close_result, status).
               returnS (closing, tset ''maybechEmergencyCloseOrderId'' (case extract_order_id close_result of None \<Rightarrow> JNull | Some i \<Rightarrow> JStr i)
                 (tset ''maybechEmergencyCloseResult'' (JObj close_result) result), status))
           else returnS (q, result, submission_status (xn_dry_run env) result)))"

subsection \<open>The stores stay consistent\<close>

definition stores_ok :: "'x submit_state \<Rightarrow> bool" where
  "stores_ok s \<longleftrightarrow> store_ok (su_pos s) \<and> trades_ok (su_trades s)"

definition stores_le :: "'x submit_state \<Rightarrow> 'x submit_state \<Rightarrow> bool" where
  "stores_le s t \<longleftrightarrow> ledger_le (su_pos s) (su_pos t) \<and> trade_le (su_trades s) (su_trades t)"

interpretation stores: action_relation stores_le
  by unfold_locales (auto simp: stores_le_def ledger_refl trade_le_refl intro: ledger_trans trade_lifecycle.le_trans)

abbreviation keeps_stores :: "('x, 'a) submission \<Rightarrow> bool" where
  "keeps_stores \<equiv> behaves stores_le stores_ok (\<lambda>_. True)"

lemma stores_basic [simp, intro!]:
  "keeps_stores (liftS r)" "keeps_stores (returnS x)" "keeps_stores (demand b e)" "keeps_stores (by_executor m)"
  by (auto simp: behaves_def liftS_def returnS_def demand_def by_executor_def stores_ok_def stores_le_def ledger_refl trade_le_refl
      split: prod.split)

lemma stores_bind [intro!]: "keeps_stores m \<Longrightarrow> (\<And>x. keeps_stores (f x)) \<Longrightarrow> keeps_stores (bindS m f)"
  by (rule stores.bind)

lemma stores_ignoring [intro!]: "keeps_stores m \<Longrightarrow> keeps_stores (ignoring m)"
  unfolding ignoring_def by auto

lemma stores_positions:
  assumes "allowed_op x" and "\<And>st. snd (m st) = store_step x st"
  shows "keeps_stores (in_positions m :: ('x, 'b) submission)"
  unfolding behaves_def
proof (intro allI impI)
  fix s :: "'x submit_state" assume s: "stores_ok s"
  obtain r st where m: "m (su_pos s) = (r, st)" by (cases "m (su_pos s)")
  with assms(2) [of "su_pos s"] have st: "st = store_step x (su_pos s)" by simp
  have o: "store_ok (su_pos s)" using s by (simp add: stores_ok_def)
  have "store_ok st" "ledger_le (su_pos s) st"
    using position_store.step_keeps [OF o assms(1)] position_ledger.step_forward [OF o assms(1)] st by simp_all
  then show "stores_ok (snd (in_positions m s)) \<and> stores_le s (snd (in_positions m s)) \<and> (\<forall>y. fst (in_positions m s) = Inr y \<longrightarrow> True)"
    using s m by (simp add: in_positions_def stores_ok_def stores_le_def trade_le_refl)
qed

lemma stores_trades:
  assumes "lifecycle_op x" and "\<And>db. snd (m db) = trade_step x db"
  shows "keeps_stores (in_trades m :: ('x, 'b) submission)"
  unfolding behaves_def
proof (intro allI impI)
  fix s :: "'x submit_state" assume s: "stores_ok s"
  obtain r db where m: "m (su_trades s) = (r, db)" by (cases "m (su_trades s)")
  with assms(2) [of "su_trades s"] have db: "db = trade_step x (su_trades s)" by simp
  have o: "trades_ok (su_trades s)" using s by (simp add: stores_ok_def)
  have "trades_ok db" "trade_le (su_trades s) db" using trade_step_ok [OF o] trade_step_le [OF o assms(1)] db by simp_all
  then show "stores_ok (snd (in_trades m s)) \<and> stores_le s (snd (in_trades m s)) \<and> (\<forall>y. fst (in_trades m s) = Inr y \<longrightarrow> True)"
    using s m by (simp add: in_trades_def stores_ok_def stores_le_def ledger_refl)
qed

lemma stores_try [intro!]:
  fixes m :: "('x, 'a) submission"
  assumes m: "keeps_stores m" and "\<And>e. keeps_stores (bad e)" "\<And>x. keeps_stores (ok x)"
  shows "keeps_stores (tryS m bad ok)"
  unfolding behaves_def
proof (intro allI impI)
  fix s :: "'x submit_state" assume s: "stores_ok s"
  obtain r t where r: "m s = (r, t)" by (cases "m s")
  with m s have t: "stores_ok t" "stores_le s t" by (auto simp: behaves_def dest!: spec [of _ s])
  have "stores_ok (snd (bad e t)) \<and> stores_le t (snd (bad e t))" "stores_ok (snd (ok x t)) \<and> stores_le t (snd (ok x t))" for e x
    using assms(2,3) t(1) by (simp_all add: behaves_def)
  with r t show "stores_ok (snd (tryS m bad ok s)) \<and> stores_le s (snd (tryS m bad ok s)) \<and> (\<forall>x. fst (tryS m bad ok s) = Inr x \<longrightarrow> True)"
    by (cases r) (auto simp: tryS_def intro: stores.le_trans)
qed

lemma stores_position_steps [simp, intro!]:
  "keeps_stores (in_positions (merge_metadata now pid values))"
  "keeps_stores (in_positions (mark_pending_execution now pid st oid values cid))"
  "keeps_stores (in_positions (claim_pending_execution now pid expected st client values))"
  "keeps_stores (in_positions (recover_client_order_intent now pid client es))"
  "keeps_stores (in_positions (link_exchange_order now pid client oid values))"
  "keeps_stores (in_positions (save_protection now pr))"
  "keeps_stores (in_positions (record_allocation now a b1 b2))"
  "keeps_stores (in_positions (update_execution_tracking now pid oid es b))"
  subgoal by (rule stores_positions [where x = "MergeMetadata now pid values"]) (simp_all add: allowed_op_def)
  subgoal by (rule stores_positions [where x = "MarkPending now pid st oid values cid"]) (simp_all add: allowed_op_def)
  subgoal by (rule stores_positions [where x = "Claim now pid expected st client values"]) (simp_all add: allowed_op_def)
  subgoal by (rule stores_positions [where x = "RecoverIntent now pid client es"]) (simp_all add: allowed_op_def)
  subgoal by (rule stores_positions [where x = "LinkExchange now pid client oid values"]) (simp_all add: allowed_op_def)
  subgoal by (rule stores_positions [where x = "SaveProtection now pr"]) (simp_all add: allowed_op_def)
  subgoal by (rule stores_positions [where x = "RecordAllocation now a b1 b2"]) (simp_all add: allowed_op_def)
  subgoal by (rule stores_positions [where x = "Tracking now pid oid es b"]) (simp_all add: allowed_op_def)
  done

lemma stores_trade_steps [simp, intro!]:
  "keeps_stores (in_trades (mark_trade_open tid price))" "keeps_stores (in_trades (mark_trade_failed tid reason))"
  subgoal by (rule stores_trades [where x = "MarkOpen tid price"]) (simp_all add: lifecycle_op_def)
  subgoal by (rule stores_trades [where x = "MarkFailed tid reason"]) (simp_all add: lifecycle_op_def)
  done

lemma stores_record [simp, intro!]: "keeps_stores (record_entry_submission env tid p cid q result es)"
  unfolding record_entry_submission_def record_dry_fill_def Let_def by (auto split: option.split)

lemma stores_emergency [simp, intro!]: "keeps_stores (submit_emergency_close api env p corr cid q parent)"
  unfolding submit_emergency_close_def place_emergency_close_def retry_emergency_later_def by (auto split: option.split)

lemma stores_submit: "keeps_stores (submit api env tid p cid q e sl tp a)"
  unfolding submit_def submission_failed_def persistence_failed_def close_unproved_def by (auto split: prod.split option.split)

text \<open>Submitting an entry, whatever the executor, OKX and the stores answer, keeps both stores
  consistent, never loses an order link or a fill, and moves a trade only forward in its lifecycle.\<close>

lemma submission_keeps_stores:
  assumes "stores_ok s"
  shows "stores_ok (snd (submit api env trade_id p client_id sz entry sl tp approval s)) \<and>
    stores_le s (snd (submit api env trade_id p client_id sz entry sl tp approval s))"
  using stores_submit [of api env trade_id p client_id sz entry sl tp approval] assms
  by (simp_all add: behaves_def)

subsection \<open>What a reported status means\<close>

lemma by_executor_Inr:
  "by_executor m s = (Inr x, t) \<Longrightarrow> m (su_exec s) = (Inr x, su_exec t) \<and> su_pos t = su_pos s \<and> su_trades t = su_trades s"
  by (auto simp: by_executor_def split: prod.splits)

lemma in_positions_Inr:
  "in_positions m s = (Inr x, t) \<Longrightarrow> m (su_pos s) = (Inr x, su_pos t)"
  by (auto simp: in_positions_def split: prod.splits)

lemma linked_order:
  assumes "store_ok st" and "link_exchange_order now pid cid oid md st = (Inr (Some q), st')"
  shows "ps_get st' pid = Some q \<and> p_id q = pid \<and> p_exchange_order_id q = oid \<and> p_client_order_id q = cid"
proof -
  obtain p where p: "ps_get st pid = Some p" "p_client_order_id p = cid"
    using assms(2) by (auto simp: link_exchange_order_def split: if_splits option.splits)
  with ps_getD(1) [OF assms(1)] have "p_id p = pid" by simp
  then show ?thesis
    using p assms(2) by (auto simp: link_exchange_order_def link_execution_order_def Let_def ps_get_def
      split: if_splits option.splits sum.splits prod.splits)
qed

lemma protection_saved:
  assumes "save_protection now pr st = (Inr x, st')"
  shows "\<exists>saved. get_protection st' (pr_position_id pr) = Some saved \<and> pr_kind saved = pr_kind pr \<and> pr_status saved = pr_status pr \<and>
      pr_algo_id saved = pr_algo_id pr \<and> pr_algo_client_order_id saved = pr_algo_client_order_id pr \<and>
      pr_quantity saved = pr_quantity pr \<and> pr_stop_loss saved = pr_stop_loss pr"
    and "ps_get st' k = ps_get st k"
  using assms by (auto simp: save_protection_def put_protection_def get_protection_def ps_get_def Let_def split: if_splits option.splits)

text \<open>A protection that was saved from what OKX showed.\<close>

definition stored_protection :: "store \<Rightarrow> string \<Rightarrow> jobj \<Rightarrow> bool" where
  "stored_protection st pid active \<longleftrightarrow> (\<exists>pr. get_protection st pid = Some pr \<and> pr_kind pr = AttachedStop \<and> pr_status pr = PActive \<and>
     pr_algo_id pr = text_of (jget active ''algo_id'') \<and> pr_algo_client_order_id pr = text_of (jget active ''algo_client_order_id'') \<and>
     finite_number (jget active ''quantity'') = Inr (pr_quantity pr) \<and> finite_number (jget active ''stop_loss'') = Inr (pr_stop_loss pr))"

lemma attached_protection_Inr:
  "attached_protection now pid oid active = Inr pr \<Longrightarrow>
    pr_position_id pr = pid \<and> pr_kind pr = AttachedStop \<and> pr_status pr = PActive \<and>
    pr_algo_id pr = text_of (jget active ''algo_id'') \<and> pr_algo_client_order_id pr = text_of (jget active ''algo_client_order_id'') \<and>
    finite_number (jget active ''quantity'') = Inr (pr_quantity pr) \<and> finite_number (jget active ''stop_loss'') = Inr (pr_stop_loss pr)"
  by (auto simp: attached_protection_def result_simps)

lemma live_recording:
  assumes ok: "store_ok (su_pos s)" and live: "\<not> xn_dry_run env"
    and run: "record_entry_submission env tid p cid sz result es s = (Inr q, t)"
  shows "\<exists>order_id. extract_order_id result = Some order_id \<and> ps_get (su_pos t) (p_id p) = Some q \<and> p_id q = p_id p \<and>
    p_exchange_order_id q = order_id \<and> p_client_order_id q = cid \<and>
    (\<forall>active. active_protection_of result = Some active \<longrightarrow> stored_protection (su_pos t) (p_id p) active)"
proof -
  obtain order_id where oid: "extract_order_id result = Some order_id"
    using run by (auto simp: record_entry_submission_def liftS_def split: option.splits)
  let ?md = "[(''execution_status'', JStr es), (''execution_result'', JObj result), (''exchange_order_id'', JStr order_id)]"
  obtain u where link: "in_positions (link_exchange_order (xn_now_text env) (p_id p) cid order_id ?md) s = (Inr (Some q), u)"
    and rest: "(case active_protection_of result of None \<Rightarrow> returnS ()
      | Some active \<Rightarrow> bindS (liftS (attached_protection (xn_now_text env) (p_id q) order_id active))
          (\<lambda>pr. ignoring (in_positions (save_protection (xn_now_text env) pr)))) u = (Inr (), t)"
    using run live oid unfolding record_entry_submission_def by (auto simp: result_simps returnS_def liftS_def split: option.splits)
  note q = linked_order [OF ok in_positions_Inr [OF link]]
  show ?thesis
  proof (cases "active_protection_of result")
    case None
    then have "t = u" using rest by (simp add: returnS_def)
    then show ?thesis using oid q None by simp
  next
    case (Some active)
    then obtain pr saved where pr: "attached_protection (xn_now_text env) (p_id q) order_id active = Inr pr"
      "save_protection (xn_now_text env) pr (su_pos u) = (Inr saved, su_pos t)"
      using rest by (auto simp: ignoring_def result_simps liftS_def returnS_def dest!: in_positions_Inr)
    note s = protection_saved [OF pr(2)] and a = attached_protection_Inr [OF pr(1)]
    have "stored_protection (su_pos t) (p_id p) active" using s(1) a q by (auto simp: stored_protection_def)
    moreover have "ps_get (su_pos t) (p_id p) = Some q" using s(2) q by simp
    ultimately show ?thesis using oid q Some by auto
  qed
qed

abbreviation entry_of :: "position \<Rightarrow> rat \<Rightarrow> rat \<Rightarrow> rat \<Rightarrow> rat option \<Rightarrow> string \<Rightarrow> entry_request" where
  "entry_of p sz entry sl tp cid \<equiv> \<lparr>er_inst_id = p_inst_id p, er_side = p_side p, er_entry_price = JFloat (PFin entry),
     er_size = float_str (PFin sz), er_stop_loss = JFloat (PFin sl), er_client_order_id = cid,
     er_take_profit = map_option (\<lambda>tp. JFloat (PFin tp)) tp\<rparr>"

lemma submission_outcomes:
  assumes "submit api env tid p cid sz entry sl tp approval s = (Inr (q, result, status), s')"
    and "status \<noteq> ''failed''" and "status \<noteq> ''persistence_failed''"
  obtains response u where "execute api env (entry_of p sz entry sl tp cid) (Some approval) (su_exec s) = (Inr response, su_exec u)"
      "su_pos u = su_pos s \<and> su_trades u = su_trades s" "response \<noteq> []" "jget response ''maybechEmergencyCloseRequired'' \<noteq> JBool True"
      "status = submission_status (xn_dry_run env) response" "result = response"
      "record_entry_submission env tid p cid sz response status u = (Inr q, s')"
  | response u p1 v close_result where "execute api env (entry_of p sz entry sl tp cid) (Some approval) (su_exec s) = (Inr response, su_exec u)"
      "su_pos u = su_pos s \<and> su_trades u = su_trades s" "jget response ''maybechEmergencyCloseRequired'' = JBool True"
      "record_entry_submission env tid p cid sz response (submission_status (xn_dry_run env) response) u = (Inr p1, v)"
      "close_unproved api env p1 cid response v = (Inr (q, close_result, status), s')"
      "result = tset ''maybechEmergencyCloseOrderId'' (case extract_order_id close_result of None \<Rightarrow> JNull | Some i \<Rightarrow> JStr i)
         (tset ''maybechEmergencyCloseResult'' (JObj close_result) response)"
proof -
  obtain response u where e: "by_executor (execute api env (entry_of p sz entry sl tp cid) (Some approval)) s = (Inr response, u)"
    and rest: "(if response = [] then submission_failed env tid p cid
      else tryS (record_entry_submission env tid p cid sz response (submission_status (xn_dry_run env) response))
         (persistence_failed p response)
         (\<lambda>q. if jget response ''maybechEmergencyCloseRequired'' = JBool True
           then tryS (close_unproved api env q cid response) (persistence_failed q response)
             (\<lambda>(closing, close_result, status).
               returnS (closing, tset ''maybechEmergencyCloseOrderId'' (case extract_order_id close_result of None \<Rightarrow> JNull | Some i \<Rightarrow> JStr i)
                 (tset ''maybechEmergencyCloseResult'' (JObj close_result) response), status))
           else returnS (q, response, submission_status (xn_dry_run env) response))) u = (Inr (q, result, status), s')"
    using assms(1) unfolding submit_def by (simp only: result_simps) (elim exE conjE, rule that)
  note e = by_executor_Inr [OF e]
  show ?thesis
  proof (cases "response = []")
    case True
    then have "submission_failed env tid p cid u = (Inr (q, result, status), s')" using rest by simp
    then have "status = ''failed''" unfolding submission_failed_def by (auto simp only: result_simps returnS_def)
    with assms(2) show ?thesis by contradiction
  next
    case False
    obtain r v where r: "record_entry_submission env tid p cid sz response (submission_status (xn_dry_run env) response) u = (r, v)" by fastforce
    show ?thesis
    proof (cases r)
      case (Inl x)
      then have "status = ''persistence_failed''" using rest r False by (simp add: tryS_def persistence_failed_def returnS_def)
      with assms(3) show ?thesis by contradiction
    next
      case (Inr p1)
      show ?thesis
      proof (cases "jget response ''maybechEmergencyCloseRequired'' = JBool True")
        case close: True
        obtain c w where c: "close_unproved api env p1 cid response v = (c, w)" by fastforce
        show ?thesis
        proof (cases c)
          case (Inl x)
          then have "status = ''persistence_failed''" using rest r Inr False close c by (simp add: tryS_def persistence_failed_def returnS_def)
          with assms(3) show ?thesis by contradiction
        next
          case closed: (Inr y)
          obtain p2 close_result st where y: "y = (p2, close_result, st)" by (cases y)
          have "p2 = q" "st = status" "w = s'" "result = tset ''maybechEmergencyCloseOrderId'' (case extract_order_id close_result of None \<Rightarrow> JNull | Some i \<Rightarrow> JStr i)
             (tset ''maybechEmergencyCloseResult'' (JObj close_result) response)"
            using rest r Inr False close c closed y by (simp_all add: tryS_def returnS_def)
          with that(2) [of response u p1 v close_result] e close r Inr c closed y show ?thesis by simp
        qed
      next
        case no: False
        then have "p1 = q" "v = s'" "result = response" "status = submission_status (xn_dry_run env) response"
          using rest r Inr False no by (auto simp: tryS_def returnS_def)
        with that(1) [of response u] e no r Inr False show ?thesis by (elim conjE) (simp only: not_False_eq_True)
      qed
    qed
  qed
qed

lemma emergency_statuses:
  assumes "close_unproved api env p cid result s = (Inr (q, close_result, status), s')"
  shows "status = ''emergency_close_failed'' \<or> status = ''emergency_close_submitted''"
  using assms unfolding close_unproved_def submit_emergency_close_def place_emergency_close_def retry_emergency_later_def
  by (auto simp: result_simps liftS_def split: option.splits)

text \<open>C3: An entry reported as submitted is recorded with its proof: OKX showed exactly one live stop with the
  size and trigger of the entry, and the stores hold the position with the order that OKX gave it and an
  active attached stop with the very identity, size and trigger that OKX showed.\<close>

theorem submitted_entry_is_recorded:
  assumes ok: "store_ok (su_pos s)"
    and run: "submit api env tid p cid sz entry sl tp approval s = (Inr (q, result, ''submitted''), s')"
  shows "\<exists>order_id evidence quantity stop_loss take_profit.
    extract_order_id result = Some order_id \<and>
    stop_seen api (p_inst_id p) (attachment_client_id env cid) quantity stop_loss take_profit evidence \<and>
    ps_get (su_pos s') (p_id p) = Some q \<and> p_exchange_order_id q = order_id \<and> p_client_order_id q = cid \<and>
    stored_protection (su_pos s') (p_id p) evidence"
proof -
  have live: "\<not> xn_dry_run env \<and> jget response ''maybechProtectionVerified'' = JBool True"
    if "submission_status (xn_dry_run env) response = ''submitted''" for response
    using that unfolding submission_status_def by (simp split: if_splits)
  from run show ?thesis
  proof (cases rule: submission_outcomes [case_names failed unstored recorded closed])
    case (recorded response u)
    note live = live [OF recorded(5) [symmetric]]
    from execution_outcome [OF recorded(1) conjunct1 [OF live] recorded(3)] obtain quantity price stop_loss take_profit where
      "proved_entry api env (entry_of p sz entry sl tp cid) (quantity, price, stop_loss, take_profit) response \<or>
       safe_entry api env (entry_of p sz entry sl tp cid) quantity response (su_exec u)" by blast
    then have "proved_entry api env (entry_of p sz entry sl tp cid) (quantity, price, stop_loss, take_profit) response"
      using live by (auto simp: safe_entry_def)
    then obtain evidence where ev: "active_protection_of response = Some evidence"
      "stop_seen api (p_inst_id p) (attachment_client_id env cid) quantity stop_loss take_profit evidence"
      by (auto simp: proved_entry_def)
    have "store_ok (su_pos u)" using ok recorded(2) by simp
    from live_recording [OF this conjunct1 [OF live] recorded(7)] obtain order_id where
      "extract_order_id response = Some order_id" "ps_get (su_pos s') (p_id p) = Some q"
      "p_exchange_order_id q = order_id" "p_client_order_id q = cid" "stored_protection (su_pos s') (p_id p) evidence"
      using ev(1) by blast
    with ev(2) recorded(6) show ?thesis by (intro exI conjI) (assumption | simp only:)+
  next
    case (closed response u p1 v close_result)
    from emergency_statuses [OF closed(5)] show ?thesis by simp
  qed simp_all
qed

subsection \<open>The emergency close\<close>

lemma claimed_position:
  assumes ok: "store_ok st" and run: "claim_pending_execution now pid expected status cid md st = (Inr (Some q), st')"
  shows "ps_get st' pid = Some q \<and> p_id q = pid \<and> p_status q = status \<and> p_client_order_id q = cid" and "store_ok st'"
proof -
  obtain p where p: "ps_get st pid = Some p" using run by (auto simp: claim_pending_execution_def split: option.splits)
  with ps_getD(1) [OF ok] have "p_id p = pid" by simp
  then show "ps_get st' pid = Some q \<and> p_id q = pid \<and> p_status q = status \<and> p_client_order_id q = cid"
    using run p by (auto simp: claim_pending_execution_def Let_def split: if_splits)
  show "store_ok st'" using claim_ok [OF ok, of now pid expected status cid md] run by simp
qed

lemma merged_position:
  assumes "store_ok st" and "merge_metadata now pid md st = (Inr (Some q), st')" and "ps_get st pid = Some p"
  shows "ps_get st' pid = Some q \<and> p_status q = p_status p \<and> p_client_order_id q = p_client_order_id p \<and>
    p_inst_id q = p_inst_id p \<and> p_side q = p_side p"
  using assms ps_getD(1) [OF assms(1,3)]
  by (auto simp: merge_metadata_def Let_def split: if_splits)

lemma pending_position:
  assumes ok: "store_ok st" and run: "mark_pending_execution now pid status oid md (Some cid) st = (Inr (Some q), st')"
    and p: "ps_get st pid = Some p"
  shows "ps_get st' pid = Some q \<and> p_status q = status \<and> p_client_order_id q = cid \<and> p_exchange_order_id q = oid \<and>
    p_inst_id q = p_inst_id p \<and> p_side q = p_side p"
  using run p ps_getD(1) [OF ok p]
  by (auto simp: mark_pending_execution_def ps_save_def link_execution_order_def Let_def ps_get_def put_position_def
      split: if_splits option.splits sum.splits prod.splits)

definition closing_recorded :: "'x sdk \<Rightarrow> executor_env \<Rightarrow> store \<Rightarrow> string \<Rightarrow> string \<Rightarrow> pyfloat \<Rightarrow> position \<times> jobj \<times> string \<Rightarrow> bool" where
  "closing_recorded api env st pid cid quantity outcome = (case outcome of (q, close_result, status) \<Rightarrow>
     ps_get st pid = Some q \<and> p_status q = Closing \<and> p_client_order_id q = cid \<and>
     (\<exists>t t'. close_position api env (p_inst_id q) (p_side q) quantity cid ''net'' t = (Inr close_result, t')) \<and>
     (status = ''emergency_close_submitted'' \<and> extract_order_id close_result = Some (p_exchange_order_id q) \<or>
      status = ''emergency_close_failed'' \<and> extract_order_id close_result = None))"

lemma demand_Inr: "demand b e s = (Inr u, t) \<longleftrightarrow> b \<and> t = s"
  by (auto simp: demand_def liftS_def)

lemma closing_steps:
  assumes "close_unproved api env p cid result s = (Inr outcome, s')"
  obtains quantity claimed md w where "py_float (py_or (jget result ''maybechEmergencyCloseQuantity'') (JInt 0)) = Inr quantity"
    "\<not> fl_le quantity (PFin 0)"
    "claim_pending_execution (xn_now_text env) (p_id p) PendingOpen Closing (text_of (jget result ''maybechEmergencyCloseClientOrderId'')) md
       (su_pos s) = (Inr (Some claimed), su_pos w)"
    "place_emergency_close api env claimed (text_of (jget result ''maybechEmergencyCloseClientOrderId'')) quantity w = (Inr outcome, s')"
proof -
  let ?cid = "text_of (jget result ''maybechEmergencyCloseClientOrderId'')"
  from assms obtain quantity where q: "py_float (py_or (jget result ''maybechEmergencyCloseQuantity'') (JInt 0)) = Inr quantity"
    and run: "submit_emergency_close api env p cid ?cid quantity (or_default (extract_order_id result) []) s = (Inr outcome, s')"
    unfolding close_unproved_def by (auto simp: result_simps liftS_def)
  from run obtain answer claimed w where "\<not> fl_le quantity (PFin 0)"
    "in_positions (claim_pending_execution (xn_now_text env) (p_id p) PendingOpen Closing ?cid
       (emergency_intent cid ?cid quantity (or_default (extract_order_id result) []))) s = (Inr answer, w)"
    "answer = Some claimed" "place_emergency_close api env claimed ?cid quantity w = (Inr outcome, s')"
    unfolding submit_emergency_close_def by (auto simp: result_simps demand_Inr liftS_def split: option.splits)
  with that [OF q] show ?thesis by (auto dest!: in_positions_Inr)
qed

lemma place_close_outcome:
  assumes ok: "store_ok (su_pos s)" and p: "ps_get (su_pos s) (p_id p) = Some p" "p_status p = Closing" "p_client_order_id p = cid"
    and run: "place_emergency_close api env p cid quantity s = (Inr outcome, s')"
  shows "closing_recorded api env (su_pos s') (p_id p) cid quantity outcome"
proof -
  obtain close_result u where c: "by_executor (close_position api env (p_inst_id p) (p_side p) quantity cid ''net'') s = (Inr close_result, u)"
    and rest: "(case extract_order_id close_result of
       None \<Rightarrow> retry_emergency_later env p close_result
     | Some order_id \<Rightarrow>
         bindS (in_positions (mark_pending_execution (xn_now_text env) (p_id p) Closing order_id
           [(''emergency_close_order_id'', JStr order_id), (''execution_status'', JStr ''emergency_close_submitted'')] (Some cid))) (\<lambda>updated.
         liftS (case updated of
             None \<Rightarrow> Inl (RuntimeError ''Emergency close order could not link to logical position'')
           | Some q \<Rightarrow> Inr (q, close_result, ''emergency_close_submitted'')))) u = (Inr outcome, s')"
    using run unfolding place_emergency_close_def by (simp only: result_simps) (elim exE conjE, rule that)
  note c = by_executor_Inr [OF c]
  then have u: "su_pos u = su_pos s" by simp
  show ?thesis
  proof (cases "extract_order_id close_result")
    case None
    then obtain q where q: "outcome = (q, close_result, ''emergency_close_failed'')"
      "merge_metadata (xn_now_text env) (p_id p) [(''execution_status'', JStr ''emergency_close_retry_pending''),
         (''emergency_close_last_attempt_at'', JStr (xn_now_text env))] (su_pos u) = (Inr (Some q), su_pos s')"
      using rest by (auto simp: retry_emergency_later_def result_simps liftS_def split: option.splits dest!: in_positions_Inr)
    from merged_position [OF ok q(2) [unfolded u] p(1)] p None c q(1) show ?thesis by (auto simp: closing_recorded_def)
  next
    case (Some oid)
    then obtain q where q: "outcome = (q, close_result, ''emergency_close_submitted'')"
      "mark_pending_execution (xn_now_text env) (p_id p) Closing oid [(''emergency_close_order_id'', JStr oid),
         (''execution_status'', JStr ''emergency_close_submitted'')] (Some cid) (su_pos u) = (Inr (Some q), su_pos s')"
      using rest by (auto simp: result_simps liftS_def split: option.splits dest!: in_positions_Inr)
    from pending_position [OF ok q(2) [unfolded u] p(1)] p Some c q(1) show ?thesis by (auto simp: closing_recorded_def)
  qed
qed

text \<open>C7: When the submission reports an emergency close, the stored position is claimed for it: it is closing
  under the emergency client order id, a close of the whole size that the executor asked for was attempted,
  and the position carries the order that OKX gave, or the status says that OKX gave none.\<close>

theorem emergency_close_claims_position:
  assumes ok: "stores_ok s" and live: "\<not> xn_dry_run env"
    and run: "submit api env tid p cid sz entry sl tp approval s = (Inr (q, result, status), s')"
    and emergency: "status = ''emergency_close_submitted'' \<or> status = ''emergency_close_failed''"
  shows "\<exists>quantity close_result. py_float (jget result ''maybechEmergencyCloseQuantity'') = Inr quantity \<and>
    \<not> fl_le quantity (PFin 0) \<and>
    closing_recorded api env (su_pos s') (p_id p) (text_of (jget result ''maybechEmergencyCloseClientOrderId'')) quantity (q, close_result, status)"
proof -
  have "status \<noteq> ''failed''" "status \<noteq> ''persistence_failed''" using emergency by auto
  from run this show ?thesis
  proof (cases rule: submission_outcomes)
    case (1 response u)
    then show ?thesis using emergency by (auto simp: submission_status_def split: if_splits)
  next
    case (2 response u p1 v close_result)
    have u: "stores_ok u" using ok 2(2) by (simp add: stores_ok_def)
    then have v: "stores_ok v" using stores_record [of env tid p cid sz response "submission_status (xn_dry_run env) response"] 2(4)
      unfolding behaves_def by (metis snd_conv)
    have "store_ok (su_pos u)" using u by (simp add: stores_ok_def)
    note rec = live_recording [OF this live 2(4)]
    let ?cid = "text_of (jget response ''maybechEmergencyCloseClientOrderId'')"
    have keys: "jget result k = jget response k" if "k \<noteq> ''maybechEmergencyCloseOrderId''" "k \<noteq> ''maybechEmergencyCloseResult''" for k
      using that unfolding 2(6) by (simp add: jget_def)
    obtain quantity claimed md w where q: "py_float (py_or (jget response ''maybechEmergencyCloseQuantity'') (JInt 0)) = Inr quantity"
      "\<not> fl_le quantity (PFin 0)"
      and claim: "claim_pending_execution (xn_now_text env) (p_id p1) PendingOpen Closing ?cid md (su_pos v) = (Inr (Some claimed), su_pos w)"
      and place: "place_emergency_close api env claimed ?cid quantity w = (Inr (q, close_result, status), s')"
      by (rule closing_steps [OF 2(5)])
    have "store_ok (su_pos v)" using v by (simp add: stores_ok_def)
    note c = claimed_position [OF this claim]
    from place_close_outcome [OF c(2) _ _ _ place] c(1) rec
    have closed: "closing_recorded api env (su_pos s') (p_id p) ?cid quantity (q, close_result, status)" by auto
    have "py_float (jget result ''maybechEmergencyCloseQuantity'') = Inr quantity"
      using q by (auto simp: keys py_or_def split: if_splits)
    with q(2) closed show ?thesis by (auto simp: keys)
  qed
qed

subsection \<open>An entry that is reported as empty\<close>

lemma latest_in: "latest ps = Some p \<Longrightarrow> p \<in> set ps"
  by (induction ps arbitrary: p) (auto split: option.splits if_splits)

lemma by_client_in:
  assumes "store_ok st" and "get_by_client_order_id st cid = Some q"
  shows "ps_get st (p_id q) = Some q \<and> p_client_order_id q = cid \<and> cid \<noteq> []"
proof -
  from assms(2) have q: "cid \<noteq> []" "q \<in> set (filter (\<lambda>p. p_client_order_id p = cid) (map snd (st_positions st)))"
    unfolding get_by_client_order_id_def by (simp_all only: split: if_splits) (auto dest: latest_in)
  then obtain k where k: "(k, q) \<in> set (st_positions st)" "p_client_order_id q = cid" by auto
  have "distinct (map fst (st_positions st))" "p_id q = k" using assms(1) k(1) by (auto simp: store_ok_def positions_ok_def)
  with k q(1) show ?thesis by (simp add: ps_get_def)
qed

lemma recovered_intent:
  assumes ok: "store_ok st" and p: "ps_get st pid = Some p" "p_status p = PendingOpen" "p_client_order_id p = cid" "p_exchange_order_id p = []"
    and run: "recover_client_order_intent now pid cid es st = (r, st')"
  shows "\<exists>q. ps_get st' pid = Some q \<and> p_status q = Failed \<and> p_client_order_id q = [] \<and> p_exchange_order_id q = []"
    and "is_ok r" and "get_by_client_order_id st' cid = None"
proof -
  note pid = ps_getD(1) [OF ok p(1)]
  have ok': "store_ok st'" using lifecycle_ok(3) [OF ok] run by (metis snd_conv)
  obtain q where st': "st' = put_position q st" "p_id q = pid" "p_status q = Failed" "p_client_order_id q = []" "p_exchange_order_id q = []" "is_ok r"
    using run p pid by (auto simp: recover_client_order_intent_def recovered_intent_status_def Let_def)
  then have "ps_get st' pid = Some q" by simp
  with st' show "\<exists>q. ps_get st' pid = Some q \<and> p_status q = Failed \<and> p_client_order_id q = [] \<and> p_exchange_order_id q = []" "is_ok r" by auto
  show "get_by_client_order_id st' cid = None"
  proof (rule ccontr)
    assume "get_by_client_order_id st' cid \<noteq> None"
    then obtain u where "get_by_client_order_id st' cid = Some u" by blast
    note u = by_client_in [OF ok' this]
    then have other: "p_id u \<noteq> pid" using st' by auto
    then have "ps_get st (p_id u) = Some u" using u st' by simp
    then have "(p_id u, u) \<in> set (st_positions st)" "(pid, p) \<in> set (st_positions st)"
      using p(1) by (auto simp: ps_get_def dest: map_of_SomeD)
    then have "p_client_order_id u = []" using ok u p(3) other by (auto simp: store_ok_def positions_ok_def)
    then show False using u by auto
  qed
qed

text \<open>C9: An entry that the executor reports as empty is given up, whatever OKX did with the order. The stored
  position is failed and has neither an exchange order nor a client order id, the trade is failed, and no
  position can be found any more by the client order id that OKX knows; so an order that went through although its
  answer was lost cannot be matched to a position.\<close>

theorem empty_report_gives_up_entry:
  assumes ok: "stores_ok s"
    and stored: "ps_get (su_pos s) (p_id p) = Some p" "p_status p = PendingOpen" "p_client_order_id p = cid" "p_exchange_order_id p = []"
    and trade: "get_trade (su_trades s) tid = Some t" "t_status t = ''pending_open''"
    and run: "submit api env tid p cid sz entry sl tp approval s = (Inr (x, [], status), s')"
  shows "x = p \<and> status = ''failed'' \<and> get_by_client_order_id (su_pos s') cid = None \<and>
    (\<exists>q. ps_get (su_pos s') (p_id p) = Some q \<and> p_status q = Failed \<and> p_client_order_id q = [] \<and> p_exchange_order_id q = []) \<and>
    (\<exists>u. get_trade (su_trades s') tid = Some u \<and> t_status u = ''failed'')"
proof -
  obtain response u where e: "by_executor (execute api env (entry_of p sz entry sl tp cid) (Some approval)) s = (Inr response, u)"
    and rest: "(if response = [] then submission_failed env tid p cid
      else tryS (record_entry_submission env tid p cid sz response (submission_status (xn_dry_run env) response))
         (persistence_failed p response)
         (\<lambda>q. if jget response ''maybechEmergencyCloseRequired'' = JBool True
           then tryS (close_unproved api env q cid response) (persistence_failed q response)
             (\<lambda>(closing, close_result, status).
               returnS (closing, tset ''maybechEmergencyCloseOrderId'' (case extract_order_id close_result of None \<Rightarrow> JNull | Some i \<Rightarrow> JStr i)
                 (tset ''maybechEmergencyCloseResult'' (JObj close_result) response), status))
           else returnS (q, response, submission_status (xn_dry_run env) response))) u = (Inr (x, [], status), s')"
    using run unfolding submit_def by (simp only: result_simps) (elim exE conjE, rule that)
  note u = by_executor_Inr [OF e]
  have set_ne: "tset k v d \<noteq> []" for k :: string and v :: json and d
    by (cases d) (auto split: if_splits)
  have "response = []"
  proof (rule ccontr)
    assume "response \<noteq> []"
    with rest show False
      by (auto simp: tryS_def persistence_failed_def returnS_def set_ne set_ne [symmetric] split: prod.splits sum.splits if_splits)
  qed
  then have "submission_failed env tid p cid u = (Inr (x, [], status), s')" using rest by simp
  then obtain a st b where rec: "recover_client_order_intent (xn_now_text env) (p_id p) cid ''submission_failed'' (su_pos u) = (Inr a, st)"
    and mark: "in_trades (mark_trade_failed tid ''entry order submission failed'') (u\<lparr>su_pos := st\<rparr>) = (Inr b, s')"
    and outcome: "x = p" "status = ''failed''"
    unfolding submission_failed_def by (auto simp: result_simps in_positions_def split: prod.splits)
  have "store_ok (su_pos u)" "ps_get (su_pos u) (p_id p) = Some p" using ok stored(1) u by (simp_all add: stores_ok_def)
  note recovered = recovered_intent [OF this stored(2-4) rec]
  have "su_pos s' = st" using mark by (auto simp: in_trades_def split: prod.splits)
  moreover have "t_id t = tid" using get_trade_id ok trade(1) by (auto simp: stores_ok_def)
  then have "\<exists>t'. get_trade (su_trades s') tid = Some t' \<and> t_status t' = ''failed''"
    using mark trade u by (auto simp: in_trades_def mark_trade_failed_def get_put_trade Let_def split: prod.splits)
  ultimately show ?thesis using recovered(1,3) outcome by auto
qed

subsection \<open>A sample submission\<close>

definition pending_entry :: position where
  "pending_entry = sample_position\<lparr>p_client_order_id := ''mb1'', p_metadata := dumps [(''order_action'', JStr ''open'')]\<rparr>"

definition sample_submit_state :: "'x \<Rightarrow> 'x submit_state" where
  "sample_submit_state x = \<lparr>su_exec = sample_executor x, su_pos = empty_store\<lparr>st_positions := [(''p1'', pending_entry)]\<rparr>, su_trades = sample_db\<rparr>"

definition sample_submit :: "unit sdk \<Rightarrow> (position \<times> jobj \<times> string) result \<times> (unit \<times> sdk_log) submit_state" where
  "sample_submit api = submit (recorded api) (sample_executor_env None) ''t1'' pending_entry ''mb1'' 2 100 90 None sample_entry_approval
     (sample_submit_state ((), []))"

lemma sample_stores_ok: "stores_ok (sample_submit_state ((), []) :: (unit \<times> sdk_log) submit_state)"
  by (simp add: stores_ok_def sample_submit_state_def empty_store_def store_ok_def positions_ok_def allocations_ok_def orders_ok_def
      conditions_ok_def protections_ok_def pending_entry_def sample_position_def quantities_ok_def trades_ok_def sample_db_def
      sample_trade_def)

text \<open>An exchange that accepts an entry and loses its answer on the way.\<close>

definition closing_kit :: "unit sdk" where
  "closing_kit name args x =
     (if name = ''place_order'' \<and> jget args ''ordType'' = JStr ''market''
      then (Inr [(''code'', JStr ''0''), (''data'', JList [JObj [(''ordId'', JStr ''8''), (''clOrdId'', jget args ''clOrdId''), (''sCode'', JStr ''0'')]])], x)
      else okx_kit [] name args x)"

definition lossy_kit :: "unit sdk" where
  "lossy_kit name args x =
     (if name = ''place_order'' then (Inl (RemoteError ''read timed out''), x) else okx_kit [attached_stop] name args x)"

text \<open>OKX has the order, but its answer is lost: position and trade are failed and the client order id, the
  only link to the order on OKX, is cleared.\<close>

lemma lost_answer_orphans_order:
  "case sample_submit lossy_kit of (r, s') \<Rightarrow>
     map fst (exec_sent (su_exec s')) = [''get_instruments'', ''place_order''] \<and>
     (case r of Inl _ \<Rightarrow> False | Inr (_, result, status) \<Rightarrow> result = [] \<and> status = ''failed'') \<and>
     (case ps_get (su_pos s') ''p1'' of None \<Rightarrow> False | Some q \<Rightarrow> p_status q = Failed \<and> p_client_order_id q = [] \<and> p_exchange_order_id q = []) \<and>
     (case get_trade (su_trades s') ''t1'' of None \<Rightarrow> False | Some t \<Rightarrow> t_status t = ''failed'')"
  by code_simp

theorem empty_report_gives_up_entry_witness:
  "\<exists>s' q. sample_submit lossy_kit = (Inr (pending_entry, [], ''failed''), s') \<and>
     map fst (exec_sent (su_exec s')) = [''get_instruments'', ''place_order''] \<and>
     ps_get (su_pos s') ''p1'' = Some q \<and> p_status q = Failed \<and> get_by_client_order_id (su_pos s') ''mb1'' = None"
proof -
  let ?s = "sample_submit_state ((), []) :: (unit \<times> sdk_log) submit_state"
  have p: "p_id pending_entry = ''p1''" "p_status pending_entry = PendingOpen" "p_client_order_id pending_entry = ''mb1''"
    "p_exchange_order_id pending_entry = []" by (simp_all add: pending_entry_def sample_position_def)
  have stored: "ps_get (su_pos ?s) (p_id pending_entry) = Some pending_entry"
    unfolding p by (simp add: sample_submit_state_def ps_get_def)
  have t: "get_trade (su_trades ?s) ''t1'' = Some sample_trade" "t_status sample_trade = ''pending_open''"
    by (simp_all add: sample_submit_state_def sample_db_def sample_trade_def get_trade_def)
  have ok: "stores_ok ?s" by (rule sample_stores_ok)
  have "case sample_submit lossy_kit of (r, s') \<Rightarrow> (case r of Inl _ \<Rightarrow> False | Inr (_, result, _) \<Rightarrow> result = [])" by code_simp
  then obtain x status s' where run: "sample_submit lossy_kit = (Inr (x, [], status), s')" by (auto split: prod.splits sum.splits)
  from empty_report_gives_up_entry [OF ok stored p(2,3,4) t run [unfolded sample_submit_def]] obtain q where
    "x = pending_entry" "status = ''failed''" "ps_get (su_pos s') (p_id pending_entry) = Some q" "p_status q = Failed"
    "get_by_client_order_id (su_pos s') ''mb1'' = None" by blast
  with run lost_answer_orphans_order show ?thesis unfolding p by auto
qed

theorem submitted_entry_is_recorded_witness:
  "\<exists>q result s' evidence. sample_submit (okx_kit [attached_stop]) = (Inr (q, result, ''submitted''), s') \<and>
     stored_protection (su_pos s') ''p1'' evidence"
proof -
  have "case sample_submit (okx_kit [attached_stop]) of (r, s') \<Rightarrow> (case r of Inl _ \<Rightarrow> False | Inr (_, _, status) \<Rightarrow> status = ''submitted'')"
    by code_simp
  then obtain q result s' where run: "sample_submit (okx_kit [attached_stop]) = (Inr (q, result, ''submitted''), s')"
    by (auto split: prod.splits sum.splits)
  have ok: "store_ok (su_pos (sample_submit_state ((), []) :: (unit \<times> sdk_log) submit_state))"
    using sample_stores_ok unfolding stores_ok_def by blast
  from submitted_entry_is_recorded [OF ok run [unfolded sample_submit_def]] obtain evidence
    where "stored_protection (su_pos s') (p_id pending_entry) evidence" by blast
  with run show ?thesis by (auto simp: pending_entry_def sample_position_def)
qed

theorem emergency_close_claims_position_witness:
  "\<exists>q result close_result quantity status s'. sample_submit closing_kit = (Inr (q, result, status), s') \<and>
     closing_recorded (recorded closing_kit) (sample_executor_env None) (su_pos s') ''p1''
       (text_of (jget result ''maybechEmergencyCloseClientOrderId'')) quantity (q, close_result, status)"
proof -
  have "case sample_submit closing_kit of (r, s') \<Rightarrow> (case r of Inl _ \<Rightarrow> False | Inr (_, _, status) \<Rightarrow> status = ''emergency_close_submitted'')"
    by code_simp
  then obtain q result s' where run: "sample_submit closing_kit = (Inr (q, result, ''emergency_close_submitted''), s')"
    by (auto split: prod.splits sum.splits)
  have live: "\<not> xn_dry_run (sample_executor_env None)" by (simp add: sample_executor_env_def)
  from emergency_close_claims_position [OF sample_stores_ok live run [unfolded sample_submit_def]] obtain quantity close_result where
    "closing_recorded (recorded closing_kit) (sample_executor_env None) (su_pos s') (p_id pending_entry)
       (text_of (jget result ''maybechEmergencyCloseClientOrderId'')) quantity (q, close_result, ''emergency_close_submitted'')" by blast
  with run show ?thesis by (auto simp: pending_entry_def sample_position_def)
qed

end
