(* ===== verification/ExecutionHealth.thy ===== *)
theory ExecutionHealth
  imports PyValue
begin

section \<open>Health of the execution ingestion\<close>

text \<open>
  \<^verbatim>\<open>src/trading/execution_health.py\<close>, which decides from the status of the fill service whether
  entries may be trusted. A status is the dictionary that the service publishes. Reading an ISO time is the
  argument \<open>clock\<close>: seconds since the epoch, \<open>None\<close> for a text that
  \<^verbatim>\<open>datetime.fromisoformat\<close> rejects, and UTC where the text names no zone.
\<close>

subsection \<open>Health\<close>

definition parse_time :: "(string \<Rightarrow> rat option) \<Rightarrow> json \<Rightarrow> rat option" where
  "parse_time clock j = (if truthy j then clock (py_str j) else None)"

definition counter :: "jobj \<Rightarrow> string \<Rightarrow> int result" where
  "counter status field = py_int (py_or (jget status field) (JInt 0))"

definition health_fields :: "(string \<times> string) list" where
  "health_fields =
     [(''conflicts'', ''fill allocation conflicts require review''),
      (''invalid'', ''invalid fills require review''),
      (''filled_awaiting_allocation'', ''confirmed fills await allocation''),
      (''missing_fill_alerts'', ''orders are missing confirmed fills''),
      (''order_errors'', ''order reconciliation has errors''),
      (''protection_errors'', ''position protection reconciliation has errors''),
      (''unprotected_positions'', ''positions lack confirmed protection''),
      (''rule_materialization_errors'', ''protection rule materialization has errors'')]"

definition reason_if :: "bool \<Rightarrow> string \<Rightarrow> string list" where
  "reason_if b message = (if b then [message] else [])"

definition health_reasons :: "jobj \<Rightarrow> string list result" where
  "health_reasons status =
     bindE (counter status ''cursor_errors'') (\<lambda>cursor_errors.
     bindE (counter status ''websocket_drops_pending_catchup'') (\<lambda>drops.
     bindE (mapE (\<lambda>(field, label). bindE (counter status field) (\<lambda>n. Inr (reason_if (0 < n) label))) health_fields) (\<lambda>alerts.
     Inr (reason_if (cursor_errors \<noteq> 0 \<or> truthy (jget status ''cursor_error'')) ''REST fill cursor has an error'' @
       reason_if (truthy (jget status ''cursor_in_progress'') \<or> \<not> truthy (jget status ''caught_up'')) ''REST fill catch-up is incomplete'' @
       reason_if (truthy (jget status ''websocket_enabled'') \<and> \<not> truthy (jget status ''websocket_connected''))
         ''private order stream is disconnected'' @
       reason_if (0 < drops) ''dropped private-stream events await REST catch-up'' @ concat alerts))))"

definition with_health :: "jobj \<Rightarrow> string \<Rightarrow> string list \<Rightarrow> rat option \<Rightarrow> jobj" where
  "with_health status state reasons age =
     tmerge status [(''healthy'', JBool (state = ''healthy'')), (''health_state'', JStr state), (''health_reasons'', JList (map JStr reasons)),
       (''status_age_seconds'', (case age of None \<Rightarrow> JNull | Some a \<Rightarrow> JFloat (PFin a)))]"

definition status_age :: "(string \<Rightarrow> rat option) \<Rightarrow> rat \<Rightarrow> jobj \<Rightarrow> rat option" where
  "status_age clock now status = map_option (\<lambda>updated. max 0 (now - updated)) (parse_time clock (jget status ''updated_at''))"

definition is_stale :: "rat option \<Rightarrow> json \<Rightarrow> bool result" where
  "is_stale age limit =
     (case age of
        None \<Rightarrow> Inr True
      | Some a \<Rightarrow> (case num_of limit of None \<Rightarrow> Inl TypeError | Some l \<Rightarrow> Inr (fl_lt l (PFin a))))"

text \<open>\<open>None\<close> and the empty dictionary are both no status.\<close>

definition evaluate_execution_health :: "(string \<Rightarrow> rat option) \<Rightarrow> rat \<Rightarrow> json \<Rightarrow> jobj \<Rightarrow> jobj result" where
  "evaluate_execution_health clock now stale_after status =
     (if status = [] \<or> \<not> truthy (jget status ''service_available'')
      then Inr (with_health (tset ''service_available'' (JBool False) status) ''unavailable''
        [''execution fill service status is unavailable''] None)
      else let age = status_age clock now status in
        bindE (is_stale age (py_or (jget status ''stale_after_seconds'') stale_after)) (\<lambda>stale.
        if stale then Inr (with_health status ''stale'' [''execution fill service heartbeat is stale''] age)
        else bindE (health_reasons status) (\<lambda>reasons.
          Inr (with_health status (if reasons = [] then ''healthy'' else ''degraded'') reasons age))))"

definition is_healthy :: "jobj result \<Rightarrow> bool" where
  "is_healthy r = (case r of Inl _ \<Rightarrow> False | Inr status \<Rightarrow> jget status ''healthy'' = JBool True)"

text \<open>\<^verbatim>\<open>execution_ingestion_ready\<close> of \<^verbatim>\<open>src/trading/entry_submission.py\<close>: what the runtime holds
  under the key of the status, if there is a runtime.\<close>

definition execution_ingestion_ready :: "(string \<Rightarrow> rat option) \<Rightarrow> rat \<Rightarrow> (string \<Rightarrow> json) option \<Rightarrow> bool result" where
  "execution_ingestion_ready clock now runtime =
     (case runtime of
        None \<Rightarrow> Inr False
      | Some get_value \<Rightarrow>
          (case get_value ''execution.fills.status'' of
             JObj status \<Rightarrow> bindE (evaluate_execution_health clock now (JInt 15) status) (\<lambda>r. Inr (truthy (jget r ''healthy'')))
           | _ \<Rightarrow> Inr False))"

subsection \<open>What healthy means\<close>

definition all_clear :: "jobj \<Rightarrow> bool" where
  "all_clear status \<longleftrightarrow>
     counter status ''cursor_errors'' = Inr 0 \<and> \<not> truthy (jget status ''cursor_error'') \<and>
     truthy (jget status ''caught_up'') \<and> \<not> truthy (jget status ''cursor_in_progress'') \<and>
     (truthy (jget status ''websocket_enabled'') \<longrightarrow> truthy (jget status ''websocket_connected'')) \<and>
     list_all (\<lambda>field. \<exists>n\<le>0. counter status field = Inr n) (''websocket_drops_pending_catchup'' # map fst health_fields)"

definition fresh_status :: "(string \<Rightarrow> rat option) \<Rightarrow> rat \<Rightarrow> json \<Rightarrow> jobj \<Rightarrow> bool" where
  "fresh_status clock now stale_after status \<longleftrightarrow> truthy (jget status ''service_available'') \<and>
     (\<exists>updated limit. parse_time clock (jget status ''updated_at'') = Some updated \<and>
        num_of (py_or (jget status ''stale_after_seconds'') stale_after) = Some limit \<and> \<not> fl_lt limit (PFin (max 0 (now - updated))))"

lemma reason_if_Nil [simp]: "reason_if b m = [] \<longleftrightarrow> \<not> b"
  by (simp add: reason_if_def)

lemma field_reasons:
  "mapE (\<lambda>(field, label). bindE (counter status field) (\<lambda>n. Inr (reason_if (0 < n) label))) fields = Inr alerts \<Longrightarrow>
    concat alerts = [] \<longleftrightarrow> list_all (\<lambda>field. \<exists>n\<le>0. counter status field = Inr n) (map fst fields)"
  by (induction fields arbitrary: alerts) (auto simp: result_simps)

lemma fields_read:
  "list_all (\<lambda>field. \<exists>n\<le>0. counter status field = Inr n) (map fst fields) \<Longrightarrow>
    \<exists>alerts. mapE (\<lambda>(field, label). bindE (counter status field) (\<lambda>n. Inr (reason_if (0 < n) label))) fields = Inr alerts"
  by (induction fields) (auto simp: result_simps)

lemma no_reasons: "health_reasons status = Inr [] \<longleftrightarrow> all_clear status"
proof
  assume h: "health_reasons status = Inr []"
  then obtain c d alerts where c: "counter status ''cursor_errors'' = Inr c" "counter status ''websocket_drops_pending_catchup'' = Inr d"
    and a: "mapE (\<lambda>(field, label). bindE (counter status field) (\<lambda>n. Inr (reason_if (0 < n) label))) health_fields = Inr alerts"
    and r: "c = 0" "\<not> truthy (jget status ''cursor_error'')" "truthy (jget status ''caught_up'')"
      "\<not> truthy (jget status ''cursor_in_progress'')" "truthy (jget status ''websocket_enabled'') \<longrightarrow> truthy (jget status ''websocket_connected'')"
      "d \<le> 0" "concat alerts = []"
    unfolding health_reasons_def by (simp only: result_simps) (elim exE conjE, simp)
  from field_reasons [OF a] r(7) c r show "all_clear status" by (simp add: all_clear_def)
next
  assume a: "all_clear status"
  then have f: "list_all (\<lambda>field. \<exists>n\<le>0. counter status field = Inr n) (map fst health_fields)" by (simp add: all_clear_def)
  then obtain alerts where m: "mapE (\<lambda>(field, label). bindE (counter status field) (\<lambda>n. Inr (reason_if (0 < n) label))) health_fields = Inr alerts"
    using fields_read by blast
  from a obtain d where "counter status ''websocket_drops_pending_catchup'' = Inr d" "d \<le> 0" by (auto simp: all_clear_def)
  with a m field_reasons [OF m] f show "health_reasons status = Inr []" by (simp add: health_reasons_def all_clear_def)
qed

lemma with_health_healthy: "jget (with_health status state reasons age) ''healthy'' = JBool (state = ''healthy'')"
  by (simp add: with_health_def tmerge_def)

lemma healthy_status:
  "is_healthy (evaluate_execution_health clock now stale_after status) \<longleftrightarrow>
     fresh_status clock now stale_after status \<and> all_clear status"
proof (cases "truthy (jget status ''service_available'')")
  case False
  then show ?thesis by (simp add: evaluate_execution_health_def is_healthy_def with_health_healthy fresh_status_def)
next
  case True
  then have s: "status \<noteq> []" by (auto simp: jget_def)
  let ?age = "status_age clock now status" and ?limit = "py_or (jget status ''stale_after_seconds'') stale_after"
  have h: "evaluate_execution_health clock now stale_after status =
      bindE (is_stale ?age ?limit) (\<lambda>stale.
        if stale then Inr (with_health status ''stale'' [''execution fill service heartbeat is stale''] ?age)
        else bindE (health_reasons status) (\<lambda>reasons.
          Inr (with_health status (if reasons = [] then ''healthy'' else ''degraded'') reasons ?age)))"
    using True s by (simp add: evaluate_execution_health_def Let_def)
  have fresh: "fresh_status clock now stale_after status \<longleftrightarrow> is_stale ?age ?limit = Inr False"
    using True by (auto simp: fresh_status_def is_stale_def status_age_def split: option.splits)
  show ?thesis
  proof (cases "is_stale ?age ?limit = Inr False")
    case False
    then show ?thesis unfolding h
      by (cases "is_stale ?age ?limit") (auto simp: fresh is_healthy_def with_health_healthy)
  next
    case clear: True
    show ?thesis unfolding h fresh no_reasons [symmetric]
      by (cases "health_reasons status") (simp_all add: clear is_healthy_def with_health_healthy)
  qed
qed

text \<open>C14: The execution ingestion is reported healthy exactly when the service reports itself available with a
  heartbeat that is not stale and every one of its checks is clear; a status that cannot be read is never
  healthy.\<close>

theorem healthy_iff_all_clear:
  "is_healthy (evaluate_execution_health clock now stale_after status) \<longleftrightarrow>
     fresh_status clock now stale_after status \<and> all_clear status"
  by (rule healthy_status)

text \<open>A heartbeat stamped in the future counts as age zero, so a status that is otherwise clear stays
  healthy until the clock passes its stamp, however long the service has been silent.\<close>

theorem future_heartbeat_is_fresh:
  assumes "all_clear status" and "truthy (jget status ''service_available'')" and "parse_time clock (jget status ''updated_at'') = Some updated"
    and "now \<le> updated" and "py_or (jget status ''stale_after_seconds'') stale_after = JFloat (PFin limit)" and "0 \<le> limit"
  shows "is_healthy (evaluate_execution_health clock now stale_after status)"
proof -
  have s: "status \<noteq> []" using assms(2) by (auto simp: jget_def)
  have "is_stale (status_age clock now status) (JFloat (PFin limit)) = Inr False"
    using assms(3,4,6) by (simp add: is_stale_def status_age_def num_of_def max_def)
  with assms(1,2,5) s no_reasons [of status] show ?thesis
    by (simp add: evaluate_execution_health_def Let_def is_healthy_def with_health_healthy)
qed

end
