(* ===== verification/FillService.thy ===== *)
theory FillService
  imports ProtectionClient ExecutionProperties ExecutionHealth
begin

section \<open>The execution fill service\<close>

text \<open>
  \<^verbatim>\<open>src/daemon/execution_fill_service.py\<close>, the daemon that reads the fills of the account, page by page and
  from the private stream, hands them to the allocation, repairs what it finds on the way - triggered
  stops, vanished orders, positions without protection - and switches entries off when its view of the
  exchange is not healthy; and \<^verbatim>\<open>src/trading/execution_cursor_store.py\<close>, its durable place in the history.

  The state is the state of the protection service over the exchange client, the trades, the cursors, the
  status dictionary of the tick, the events published, and the fields that one tick leaves to the next. The
  field \<open>fs_seen\<close> is a history variable: the fills whose ingestion has come to its end. No operation
  reads it. The clock stands still within a tick; the private stream is the environment: what it
  reports and the orders it delivers. A page of the history and the details of an order are lists of
  objects. A fill whose numbers are not finite cannot be stored; its ingestion raises here.
\<close>

subsection \<open>The cursor store\<close>

record cursor =
  cu_high_water :: string
  cu_pending :: string
  cu_next_after :: string
  cu_updated_at :: string

type_synonym cursor_db = "(string, cursor) table"

definition in_progress :: "cursor \<Rightarrow> bool" where
  "in_progress c \<longleftrightarrow> cu_pending c \<noteq> [] \<or> cu_next_after c \<noteq> []"

definition get_cursor :: "cursor_db \<Rightarrow> string \<Rightarrow> cursor" where
  "get_cursor db stream =
     (case tget db stream of None \<Rightarrow> \<lparr>cu_high_water = [], cu_pending = [], cu_next_after = [], cu_updated_at = []\<rparr> | Some c \<Rightarrow> c)"

definition save_cursor :: "string \<Rightarrow> string \<Rightarrow> string \<Rightarrow> string \<Rightarrow> string \<Rightarrow> cursor_db \<Rightarrow> cursor_db" where
  "save_cursor now stream high_water pending next_after db =
     tset stream \<lparr>cu_high_water = high_water, cu_pending = pending, cu_next_after = next_after, cu_updated_at = now\<rparr> db"

definition checkpoint_cursor :: "string \<Rightarrow> string \<Rightarrow> string \<Rightarrow> string \<Rightarrow> cursor_db \<Rightarrow> cursor_db" where
  "checkpoint_cursor now stream pending next_after db =
     save_cursor now stream (cu_high_water (get_cursor db stream)) pending next_after db"

definition complete_cursor :: "string \<Rightarrow> string \<Rightarrow> string \<Rightarrow> cursor_db \<Rightarrow> cursor_db" where
  "complete_cursor now stream high_water db = save_cursor now stream high_water [] [] db"

subsection \<open>State and environment\<close>

record 'x fill_state =
  fs_guard :: "'x client_state guard_state"
  fs_trades :: trade_db
  fs_cursors :: cursor_db
  fs_status :: jobj
  fs_events :: "(string \<times> jobj) list"
  fs_next_poll :: rat
  fs_next_retry :: rat
  fs_backoff :: rat
  fs_last_rest :: jobj
  fs_reconciled_drops :: int
  fs_failure_at :: json
  fs_failure_reasons :: json
  fs_seen :: "jobj list"

record stream_status =
  sw_enabled :: bool
  sw_connected :: bool
  sw_received :: int
  sw_reconnects :: int
  sw_dropped :: int
  sw_last_message :: string
  sw_last_error :: string

text \<open>What the private stream shows during one tick: whether it is connected, whether a restart succeeds, its
  status before the orders are drained, the orders, and its status afterwards.\<close>

record stream_view =
  sv_connected :: bool
  sv_starts :: bool
  sv_before :: stream_status
  sv_orders :: "jobj list"
  sv_after :: stream_status

record fill_env =
  fe_guard :: guard_env
  fe_fresh :: "string \<Rightarrow> string"
  fe_instrument :: "string \<Rightarrow> instrument_metadata option"
  fe_utc :: "rat \<Rightarrow> string result"
  fe_iso :: "string \<Rightarrow> rat option"
  fe_now :: rat
  fe_monotonic :: rat
  fe_stream_on :: bool
  fe_stream :: "stream_view option"
  fe_mutations :: bool
  fe_protecting :: bool
  fe_max_pages :: nat
  fe_stale_after :: rat
  fe_missing_after :: int
  fe_poll_interval :: rat
  fe_gap_alert :: rat
  fe_health_stale :: rat

type_synonym ('x, 'a) fill_action = "('x fill_state, 'a) action"

abbreviation fill_now :: "fill_env \<Rightarrow> string" where
  "fill_now env \<equiv> pe_now (fe_guard env)"

definition exec_env_of :: "fill_env \<Rightarrow> exec_env" where
  "exec_env_of env = \<lparr>xe_now = fill_now env, xe_fresh = fe_fresh env, xe_instrument = fe_instrument env\<rparr>"

definition on_guard :: "('x client_state, 'a) guard \<Rightarrow> ('x, 'a) fill_action" where
  "on_guard m s = (case m (fs_guard s) of (r, g) \<Rightarrow> (r, s\<lparr>fs_guard := g\<rparr>))"

definition on_okx :: "('x, 'a) client \<Rightarrow> ('x, 'a) fill_action" where
  "on_okx m = on_guard (okx m)"

definition on_exec :: "'a exec \<Rightarrow> ('x, 'a) fill_action" where
  "on_exec m s =
     (let g = fs_guard s in
      case m \<lparr>xs_pos = gd_pos g, xs_trades = fs_trades s, xs_audit = gd_audit g\<rparr> of
        (r, x) \<Rightarrow> (r, s\<lparr>fs_guard := g\<lparr>gd_pos := xs_pos x, gd_audit := xs_audit x\<rparr>, fs_trades := xs_trades x\<rparr>))"

definition on_store :: "(store \<Rightarrow> 'a tx) \<Rightarrow> ('x, 'a) fill_action" where
  "on_store m = on_guard (on_units m)"

definition in_store :: "(store \<Rightarrow> 'a) \<Rightarrow> ('x, 'a) fill_action" where
  "in_store f = on_guard (units f)"

definition getS :: "('s \<Rightarrow> 'a) \<Rightarrow> ('s, 'a) action" where
  "getS f s = (Inr (f s), s)"

definition status_count :: "jobj \<Rightarrow> string \<Rightarrow> int" where
  "status_count status key = (case jget status key of JInt n \<Rightarrow> n | _ \<Rightarrow> 0)"

definition put_status :: "string \<Rightarrow> json \<Rightarrow> ('x, unit) fill_action" where
  "put_status key v s = (Inr (), s\<lparr>fs_status := tset key v (fs_status s)\<rparr>)"

definition count_up :: "string \<Rightarrow> int \<Rightarrow> ('x, unit) fill_action" where
  "count_up key n s = put_status key (JInt (status_count (fs_status s) key + n)) s"

abbreviation bump :: "string \<Rightarrow> ('x, unit) fill_action" where
  "bump key \<equiv> count_up key 1"

definition publish :: "string \<Rightarrow> jobj \<Rightarrow> ('x, unit) fill_action" where
  "publish event payload s = (Inr (), s\<lparr>fs_events := fs_events s @ [(event, payload)]\<rparr>)"

definition on_cursors :: "(cursor_db \<Rightarrow> cursor_db) \<Rightarrow> ('x, unit) fill_action" where
  "on_cursors f s = (Inr (), s\<lparr>fs_cursors := f (fs_cursors s)\<rparr>)"

definition saw :: "jobj \<Rightarrow> ('x, unit) fill_action" where
  "saw raw s = (Inr (), s\<lparr>fs_seen := fs_seen s @ [raw]\<rparr>)"

definition fill_audit :: "fill_env \<Rightarrow> string \<Rightarrow> string \<Rightarrow> jobj \<Rightarrow> ('x, unit) fill_action" where
  "fill_audit env event_id event_type payload s =
     (case pe_audit_error (fe_guard env) event_type of
        Some e \<Rightarrow> (Inl e, s)
      | None \<Rightarrow> on_guard (\<lambda>g. (Inr (), g\<lparr>gd_audit := snd (create_event (fill_now env) (pe_fresh (fe_guard env)) event_type ''execution_fills''
          payload event_id [] (gd_audit g))\<rparr>)) s)"

definition entries_off :: "fill_env \<Rightarrow> ('x, unit) fill_action" where
  "entries_off env = on_guard (bindS (persist_entries_off (fe_guard env)) (\<lambda>_. disable_entries))"

primrec eachS :: "('a \<Rightarrow> ('s, unit) action) \<Rightarrow> 'a list \<Rightarrow> ('s, unit) action" where
  "eachS f [] = returnS ()"
| "eachS f (x # xs) = bindS (f x) (\<lambda>_. eachS f xs)"

text \<open>\<^verbatim>\<open>try: m except PositionProtectionError as exc: h\<close>\<close>

definition catch_unprotected :: "('s, 'a) action \<Rightarrow> (string \<Rightarrow> ('s, 'a) action) \<Rightarrow> ('s, 'a) action" where
  "catch_unprotected m h = catchS m (\<lambda>e. case e of PositionProtectionError message \<Rightarrow> h message | _ \<Rightarrow> liftS (Inl e))"

definition read_iso :: "fill_env \<Rightarrow> string \<Rightarrow> rat option" where
  "read_iso env t = (if t = [] then None else fe_iso env t)"

subsection \<open>Fills that cannot be applied\<close>

definition record_fill_rejection :: "fill_env \<Rightarrow> jobj \<Rightarrow> string \<Rightarrow> string \<Rightarrow> ('x, bool) fill_action" where
  "record_fill_rejection env raw error category =
     bindS (on_guard (\<lambda>g. case quarantine_fill_rejection (pe_digest (fe_guard env)) (fill_now env) raw error category ''execution_fills'' (gd_audit g) of
         (x, db) \<Rightarrow> (Inr x, g\<lparr>gd_audit := db\<rparr>))) (\<lambda>(row, created).
     bindS (whenS created (publish ''execution.fill_rejected''
       [(''category'', JStr category), (''bill_id'', JStr (text_of (jget raw ''billId''))),
        (''fill_id'', JStr (text_of (py_or (jget raw ''tradeId'') (jget raw ''fillId'')))), (''error'', JStr error),
        (''error_signature'', JStr (snd (rejection_key (pe_digest (fe_guard env)) raw error category))),
        (''disposition'', JStr ''quarantined'')])) (\<lambda>_.
     returnS created))"

definition reject_fill :: "fill_env \<Rightarrow> jobj \<Rightarrow> string \<Rightarrow> string \<Rightarrow> ('x, unit) fill_action" where
  "reject_fill env raw error category =
     bindS (record_fill_rejection env raw error category) (\<lambda>created.
     bump (if created then ''quarantined'' else ''quarantine_repeats''))"

subsection \<open>Triggered stops\<close>

text \<open>The identifiers of the stop behind an order that no position owns: from the fill, or from the details
  of the order; \<open>None\<close> when they cannot be read.\<close>

definition trigger_source :: "'x sdk \<Rightarrow> jobj \<Rightarrow> string \<Rightarrow> ('x, (jobj \<times> string \<times> string) option) fill_action" where
  "trigger_source api raw order_id =
     (let algo_id = text_of (jget raw ''algoId'');
          algo_client_id = text_of (py_or (jget raw ''algoClOrdId'') (jget raw ''attachAlgoClOrdId''));
          inst_id = text_of (jget raw ''instId'') in
      if algo_id \<noteq> [] \<or> algo_client_id \<noteq> [] \<or> inst_id = [] then returnS (Some (raw, algo_id, algo_client_id))
      else tryS (on_okx (get_order api inst_id order_id []))
        (\<lambda>_. bindS (bump ''protection_errors'') (\<lambda>_. returnS None))
        (\<lambda>data. bindS (liftS (rows_of data)) (\<lambda>orders.
          returnS (Some (case orders of
             [order] \<Rightarrow> (order, text_of (jget order ''algoId''), text_of (jget order ''algoClOrdId''))
           | _ \<Rightarrow> (raw, [], []))))))"

definition claim_trigger :: "fill_env \<Rightarrow> protection \<Rightarrow> string \<Rightarrow> string \<Rightarrow> position \<Rightarrow> ('x, unit) fill_action" where
  "claim_trigger env pr order_id client_order_id p =
     (if p_status p = Open \<or> p_status p = Reducing
      then ignoring (on_store (mark_pending_execution (fill_now env) (pr_position_id pr) Closing order_id
        [(''order_action'', JStr ''close''), (''close_reason'', JStr ''exchange protective stop triggered''),
         (''execution_status'', JStr ''protection_triggered''), (''protection_algo_id'', JStr (pr_algo_id pr))] (Some client_order_id)))
      else on_store (link_execution_order (fill_now env) (pr_position_id pr) order_id client_order_id AClose
        [(''source'', JStr ''protective_stop_trigger''), (''algo_id'', JStr (pr_algo_id pr)),
         (''algo_client_order_id'', JStr (pr_algo_client_order_id pr))]))"

definition link_protection_trigger :: "'x sdk \<Rightarrow> fill_env \<Rightarrow> jobj \<Rightarrow> ('x, unit) fill_action" where
  "link_protection_trigger api env raw =
     (let order_id = text_of (jget raw ''ordId'') in
      bindS (in_store (\<lambda>st. get_by_exchange_order_id st order_id)) (\<lambda>known.
      if order_id = [] \<or> known \<noteq> None then returnS ()
      else bindS (trigger_source api raw order_id) (\<lambda>source.
      case source of
        None \<Rightarrow> returnS ()
      | Some (payload, algo_id, algo_client_id) \<Rightarrow>
          bindS (on_store (\<lambda>st. (get_protection_by_algo st algo_id algo_client_id [], st))) (\<lambda>owned.
          case owned of
            None \<Rightarrow> returnS ()
          | Some pr \<Rightarrow>
              bindS (in_store (\<lambda>st. ps_get st (pr_position_id pr))) (\<lambda>found.
              case found of
                None \<Rightarrow> liftS (Inl (LookupError (''Protection owner '' @ py_repr (JStr (pr_position_id pr)) @ '' no longer exists'')))
              | Some p \<Rightarrow>
                  bindS (claim_trigger env pr order_id (text_of (jget payload ''clOrdId'')) p) (\<lambda>_.
                  bindS (on_store (update_protection (fill_now env) (pr_position_id pr) (Some PTriggered) None None (Some order_id)
                    (Some [(''trigger_detected_at'', JStr (fill_now env))]))) (\<lambda>_.
                  bindS (bump ''protection_triggers_linked'') (\<lambda>_.
                  fill_audit env (''protection-trigger:'' @ pr_algo_id pr @ '':'' @ order_id) ''position.protection_triggered''
                    [(''position_id'', JStr (pr_position_id pr)), (''algo_id'', JStr (pr_algo_id pr)),
                     (''algo_client_order_id'', JStr (pr_algo_client_order_id pr)), (''trigger_order_id'', JStr order_id)]))))))))"

subsection \<open>Arming a stop again\<close>

definition gap_seconds :: "fill_env \<Rightarrow> position option \<Rightarrow> rat" where
  "gap_seconds env found =
     (case found of
        None \<Rightarrow> 0
      | Some p \<Rightarrow> (case read_iso env (text_of (jget (col_obj (p_metadata p)) ''protection_gap_started_at'')) of
            None \<Rightarrow> 0 | Some started \<Rightarrow> max 0 (fe_now env - started)))"

definition protect_again :: "'x sdk \<Rightarrow> fill_env \<Rightarrow> string \<Rightarrow> ('x, unit) fill_action" where
  "protect_again api env pid =
     (if \<not> fe_protecting env then liftS (Inl (PositionProtectionError ''protective-stop lifecycle service is unavailable''))
      else ignoring (on_guard (protect (okx_stop_client api) (fe_guard env) pid)))"

definition rearm_protection :: "'x sdk \<Rightarrow> fill_env \<Rightarrow> position \<Rightarrow> string \<Rightarrow> ('x, unit) fill_action" where
  "rearm_protection api env p order_id =
     catch_unprotected
       (bindS (protect_again api env (p_id p)) (\<lambda>_.
        bindS (in_store (\<lambda>st. ps_get st (p_id p))) (\<lambda>found.
        bindS (on_store (merge_metadata (fill_now env) (p_id p)
          [(''protection_canceled_for_close'', JBool False), (''protection_gap_resolved_at'', JStr (fill_now env)),
           (''protection_gap_seconds'', JFloat (PFin (gap_seconds env found)))])) (\<lambda>_.
        bump ''protection_rearmed''))))
       (\<lambda>message.
        bindS (bump ''protection_errors'') (\<lambda>_.
        bindS (entries_off env) (\<lambda>_.
        fill_audit env [] ''position.protection_rearm_failed''
          [(''position_id'', JStr (p_id p)), (''exchange_order_id'', JStr order_id), (''error'', JStr message)])))"

definition rearm_if_needed :: "'x sdk \<Rightarrow> fill_env \<Rightarrow> position \<Rightarrow> string \<Rightarrow> ('x, unit) fill_action" where
  "rearm_if_needed api env p order_id =
     (if \<not> fe_mutations env then returnS ()
      else bindS (in_store (\<lambda>st. get_protection st (p_id p))) (\<lambda>owned.
        whenS (p_status p = Open \<and> (case owned of None \<Rightarrow> False | Some pr \<Rightarrow> pr_status pr = PCanceled \<or> pr_status pr = PTriggered))
          (rearm_protection api env p order_id)))"

subsection \<open>Stops to move after an entry fill\<close>

definition apply_materialization :: "'x sdk \<Rightarrow> fill_env \<Rightarrow> position \<Rightarrow> condition \<Rightarrow> jobj \<Rightarrow> jobj \<Rightarrow> jobj \<Rightarrow> ('x, unit) fill_action" where
  "apply_materialization api env p c pending expression metadata =
     catch_unprotected
       (bindS (on_guard (amend_stop_condition (okx_stop_client api) (fe_guard env) (p_id p) (c_id c) expression
          ''materialize stop from confirmed average entry''
          (Some (tset ''pending_materialization''
            (JObj (tset ''applied_at'' (JStr (fill_now env)) (tset ''status'' (JStr ''applied'') pending))) metadata))
          [(''operation'', JStr ''confirmed_entry_materialization''), (''entry_fill_id'', jget pending ''entry_fill_id'')]
          (Some (p_updated_at p)) (Some (c_updated_at c)))) (\<lambda>_.
        bindS (on_store (merge_metadata (fill_now env) (p_id p)
          [(''requires_manual_review'', JBool False), (''protection_materialization_pending'', JBool False)])) (\<lambda>_.
        bump ''rule_materializations'')))
       (\<lambda>_. bindS (bump ''rule_materialization_errors'') (\<lambda>_. bindS (bump ''protection_errors'') (\<lambda>_. entries_off env)))"

definition materialize_pending :: "'x sdk \<Rightarrow> fill_env \<Rightarrow> position \<Rightarrow> condition \<Rightarrow> ('x, unit) fill_action" where
  "materialize_pending api env p c =
     (case jget (col_obj (c_metadata c)) ''pending_materialization'' of
        JObj pending \<Rightarrow>
          if jget pending ''status'' \<noteq> JStr ''pending_exchange_amend'' then returnS ()
          else (case (jget pending ''expression'', jget pending ''metadata'') of
              (JObj expression, JObj metadata) \<Rightarrow>
                if \<not> fe_mutations env \<or> \<not> fe_protecting env
                then bindS (bump ''rule_materialization_errors'') (\<lambda>_. entries_off env)
                else apply_materialization api env p c pending expression metadata
            | _ \<Rightarrow> bump ''rule_materialization_errors'')
      | _ \<Rightarrow> returnS ())"

definition apply_pending_materializations :: "'x sdk \<Rightarrow> fill_env \<Rightarrow> string \<Rightarrow> ('x, unit) fill_action" where
  "apply_pending_materializations api env pid =
     bindS (in_store (\<lambda>st. ps_get st pid)) (\<lambda>found.
     case found of
       None \<Rightarrow> returnS ()
     | Some p \<Rightarrow>
         bindS (in_store (\<lambda>st. list_close_conditions st (p_id p) None)) (\<lambda>conditions.
         eachS (materialize_pending api env p) conditions))"

subsection \<open>Ingestion\<close>

definition applied_payload :: "confirmed_fill \<Rightarrow> ingestion_result \<Rightarrow> jobj" where
  "applied_payload fill result =
     [(''fill_id'', JStr (cf_fill_id fill)), (''exchange_order_id'', JStr (cf_exchange_order_id fill)),
      (''position_id'', JStr (p_id (ir_position result))),
      (''trade_id'', (case p_trade_id (ir_position result) of None \<Rightarrow> JNull | Some t \<Rightarrow> JStr t)),
      (''execution_status'', JStr (ir_execution_status result))]"

definition fill_ingested :: "'x sdk \<Rightarrow> fill_env \<Rightarrow> confirmed_fill \<Rightarrow> ingestion_result \<Rightarrow> ('x, unit) fill_action" where
  "fill_ingested api env fill result =
     bindS (if al_action (ir_allocation result) = AOpen then apply_pending_materializations api env (p_id (ir_position result))
            else if al_action (ir_allocation result) = AReduce \<or> al_action (ir_allocation result) = AClose
            then rearm_if_needed api env (ir_position result) (cf_exchange_order_id fill)
            else returnS ()) (\<lambda>_.
     if ir_idempotent result then bump ''idempotent''
     else bindS (bump ''applied'') (\<lambda>_. publish ''execution.fill_applied'' (applied_payload fill result)))"

text \<open>\<^verbatim>\<open>except LookupError\<close>, \<^verbatim>\<open>except AllocationConflictError\<close>, \<^verbatim>\<open>except ValueError\<close>, in this order.\<close>

definition fill_refused :: "fill_env \<Rightarrow> jobj \<Rightarrow> confirmed_fill \<Rightarrow> py_exc \<Rightarrow> ('x, unit) fill_action" where
  "fill_refused env raw fill e =
     (case e of
        LookupError _ \<Rightarrow> bump ''unmatched''
      | KeyError _ \<Rightarrow> bump ''unmatched''
      | IndexError \<Rightarrow> bump ''unmatched''
      | AllocationConflictError _ \<Rightarrow>
          bindS (bump ''conflicts'') (\<lambda>_.
          bindS (publish ''execution.fill_conflict'' [(''fill_id'', JStr (cf_fill_id fill)), (''error'', JStr (exc_text e))]) (\<lambda>_.
          reject_fill env raw (exc_text e) ''conflict''))
      | ValueError _ \<Rightarrow> bindS (bump ''invalid'') (\<lambda>_. reject_fill env raw (exc_text e) ''rejected'')
      | _ \<Rightarrow> liftS (Inl e))"

definition ingest_fill :: "'x sdk \<Rightarrow> fill_env \<Rightarrow> jobj \<Rightarrow> ('x, unit) fill_action" where
  "ingest_fill api env raw =
     bindS (link_protection_trigger api env raw) (\<lambda>_.
     case normalize_okx_fill (fe_utc env) (fill_now env) raw of
       Inl (ValueError message) \<Rightarrow> bindS (bump ''invalid'') (\<lambda>_. reject_fill env raw message ''invalid'')
     | Inl e \<Rightarrow> liftS (Inl e)
     | Inr okx_fill \<Rightarrow>
         (case confirmed_of okx_fill of
            None \<Rightarrow> liftS (Inl IntegrityError)
          | Some fill \<Rightarrow> tryS (on_exec (ingest (exec_env_of env) fill)) (fill_refused env raw fill) (fill_ingested api env fill)))"

definition ingest_fills :: "'x sdk \<Rightarrow> fill_env \<Rightarrow> jobj list \<Rightarrow> ('x, unit) fill_action" where
  "ingest_fills api env page = eachS (\<lambda>raw. bindS (ingest_fill api env raw) (\<lambda>_. saw raw)) page"

subsection \<open>Catching up with the history\<close>

abbreviation fill_stream :: string where
  "fill_stream \<equiv> ''okx:fills-history:SWAP''"

definition page_of_history :: "'x sdk \<Rightarrow> string \<Rightarrow> ('x, jobj list) fill_action" where
  "page_of_history api after = bindS (on_okx (get_fills_history api ''SWAP'' ''100'' after)) (\<lambda>data. liftS (rows_of data))"

definition bill_id :: "jobj \<Rightarrow> string" where
  "bill_id raw = text_of (jget raw ''billId'')"

definition caught_up :: "bool \<Rightarrow> ('x, unit) fill_action" where
  "caught_up exhausted =
     bindS (put_status ''caught_up'' (JBool True)) (\<lambda>_. put_status ''history_exhausted'' (JBool exhausted))"

text \<open>One page that is not empty; the result is the place to go on from, if there is one.\<close>

definition take_page :: "'x sdk \<Rightarrow> fill_env \<Rightarrow> string \<Rightarrow> string \<Rightarrow> string \<Rightarrow> jobj list \<Rightarrow> ('x, string option) fill_action" where
  "take_page api env previous pending after page =
     (let ids = map bill_id page in
      bindS (ingest_fills api env page) (\<lambda>_.
      let reached = (previous \<noteq> [] \<and> previous \<in> set ids); exhausted = (length page < 100) in
      if reached \<or> exhausted
      then bindS (on_cursors (complete_cursor (fill_now env) fill_stream pending)) (\<lambda>_.
           bindS (caught_up (exhausted \<and> \<not> reached)) (\<lambda>_. returnS None))
      else if last ids = after then liftS (Inl (RuntimeError (''OKX fill pagination did not advance after '' @ py_repr (JStr after))))
      else bindS (on_cursors (checkpoint_cursor (fill_now env) fill_stream pending (last ids))) (\<lambda>_. returnS (Some (last ids)))))"

primrec catch_up_pages :: "'x sdk \<Rightarrow> fill_env \<Rightarrow> string \<Rightarrow> string \<Rightarrow> string \<Rightarrow> nat \<Rightarrow> ('x, unit) fill_action" where
  "catch_up_pages api env previous pending after 0 = returnS ()"
| "catch_up_pages api env previous pending after (Suc n) =
     bindS (page_of_history api after) (\<lambda>page.
     bindS (bump ''pages_fetched'') (\<lambda>_.
     bindS (count_up ''fetched'' (int (length page))) (\<lambda>_.
     if page = []
     then bindS (whenS (pending \<noteq> []) (on_cursors (complete_cursor (fill_now env) fill_stream pending))) (\<lambda>_. caught_up True)
     else if list_ex (\<lambda>i. i = []) (map bill_id page) then liftS (Inl (ValueError ''OKX fill history page is missing billId''))
     else (let newest = (if pending = [] then bill_id (hd page) else pending) in
       bindS (take_page api env previous newest after page) (\<lambda>next_after.
       case next_after of
         None \<Rightarrow> returnS ()
       | Some i \<Rightarrow> catch_up_pages api env previous newest i n)))))"

definition catch_up_fills :: "'x sdk \<Rightarrow> fill_env \<Rightarrow> ('x, unit) fill_action" where
  "catch_up_fills api env =
     bindS (getS (\<lambda>s. get_cursor (fs_cursors s) fill_stream)) (\<lambda>c.
     catch_up_pages api env (cu_high_water c) (cu_pending c) (if in_progress c then cu_next_after c else []) (fe_max_pages env))"

subsection \<open>Orders that ended, vanished or hang\<close>

definition terminal_states :: "string list" where
  "terminal_states = [''canceled'', ''cancelled'', ''rejected'', ''mmp_canceled'']"

definition trade_json :: "position \<Rightarrow> json" where
  "trade_json p = (case p_trade_id p of None \<Rightarrow> JNull | Some t \<Rightarrow> JStr t)"

text \<open>\<^verbatim>\<open>if recovered.status == "failed" and recovered.trade_id: mark_trade_failed\<close>\<close>

definition fail_trade :: "position \<Rightarrow> string \<Rightarrow> ('x, unit) fill_action" where
  "fail_trade p reason =
     (case p_trade_id p of
        Some t \<Rightarrow> whenS (p_status p = Failed \<and> t \<noteq> []) (ignoring (on_exec (on_trades (mark_trade_failed t reason))))
      | None \<Rightarrow> returnS ())"

definition recover_terminal :: "'x sdk \<Rightarrow> fill_env \<Rightarrow> position \<Rightarrow> string \<Rightarrow> string \<Rightarrow> string \<Rightarrow> ('x, unit) fill_action" where
  "recover_terminal api env p order_id order_state source =
     bindS (on_store (recover_terminal_order (fill_now env) (p_id p) order_id order_state)) (\<lambda>recovered.
     case recovered of
       None \<Rightarrow> returnS ()
     | Some q \<Rightarrow>
         let payload = [(''strategy_id'', JStr (p_strategy_id q)), (''position_id'', JStr (p_id q)), (''trade_id'', trade_json q),
               (''exchange_order_id'', JStr order_id), (''order_state'', JStr order_state),
               (''recovered_status'', JStr (PositionStore.status_name (p_status q))), (''confirmation_source'', JStr source)] in
         bindS (fail_trade q (''entry order '' @ order_state)) (\<lambda>_.
         bindS (bump ''terminal_recovered'') (\<lambda>_.
         bindS (fill_audit env (''terminal-order:'' @ order_id @ '':'' @ order_state) ''position.order_terminal_recovered'' payload) (\<lambda>_.
         bindS (publish ''execution.order_terminal_recovered'' payload) (\<lambda>_.
         rearm_if_needed api env q order_id)))))"

definition order_age :: "fill_env \<Rightarrow> jobj \<Rightarrow> rat" where
  "order_age env order =
     (case py_int (JStr (py_str (py_or (jget order ''uTime'') (jget order ''cTime'')))) of
        Inl _ \<Rightarrow> 0
      | Inr ms \<Rightarrow> max 0 (fe_now env - of_int ms / 1000))"

definition position_age :: "fill_env \<Rightarrow> position \<Rightarrow> rat" where
  "position_age env p = (case read_iso env (p_updated_at p) of None \<Rightarrow> 0 | Some t \<Rightarrow> max 0 (fe_now env - t))"

definition recover_missing :: "'x sdk \<Rightarrow> fill_env \<Rightarrow> position \<Rightarrow> ('x, unit) fill_action" where
  "recover_missing api env p =
     bindS (on_store (recover_client_order_intent (fill_now env) (p_id p) (p_client_order_id p) ''client_order_not_found'')) (\<lambda>recovered.
     case recovered of
       None \<Rightarrow> returnS ()
     | Some q \<Rightarrow>
         bindS (fail_trade q ''prepared client order not found on OKX'') (\<lambda>_.
         bindS (bump ''missing_client_orders_recovered'') (\<lambda>_.
         bindS (fill_audit env [] ''position.client_order_not_found''
           [(''strategy_id'', JStr (p_strategy_id q)), (''position_id'', JStr (p_id q)), (''trade_id'', trade_json q),
            (''client_order_id'', JStr (p_client_order_id p)), (''recovered_status'', JStr (PositionStore.status_name (p_status q)))]) (\<lambda>_.
         rearm_if_needed api env q []))))"

definition link_recovered_order :: "fill_env \<Rightarrow> position \<Rightarrow> string \<Rightarrow> ('x, position \<times> string) fill_action" where
  "link_recovered_order env p recovered_id =
     (if p_exchange_order_id p \<noteq> [] \<or> p_client_order_id p = [] \<or> recovered_id = [] then returnS (p, p_exchange_order_id p)
      else bindS (on_store (link_exchange_order (fill_now env) (p_id p) (p_client_order_id p) recovered_id
          [(''execution_status'', JStr ''exchange_order_recovered'')])) (\<lambda>linked.
        case linked of
          None \<Rightarrow> returnS (p, p_exchange_order_id p)
        | Some q \<Rightarrow>
            bindS (bump ''client_orders_linked'') (\<lambda>_.
            bindS (fill_audit env [] ''position.exchange_order_recovered''
              [(''strategy_id'', JStr (p_strategy_id q)), (''position_id'', JStr (p_id q)), (''trade_id'', trade_json q),
               (''client_order_id'', JStr (p_client_order_id p)), (''exchange_order_id'', JStr recovered_id)]) (\<lambda>_.
            returnS (q, recovered_id)))))"

definition note_filled_order :: "fill_env \<Rightarrow> position \<Rightarrow> string \<Rightarrow> ('x, unit) fill_action" where
  "note_filled_order env p order_id =
     bindS (bump ''filled_awaiting_allocation'') (\<lambda>_.
     bindS (on_store (record_filled_without_allocation (fill_now env) (p_id p) order_id)) (\<lambda>(observed, n, alerted).
     case observed of
       None \<Rightarrow> returnS ()
     | Some q \<Rightarrow>
         if n < fe_missing_after env \<or> alerted then returnS ()
         else tryS (fill_audit env (''missing-fill:'' @ p_id q @ '':'' @ order_id) ''position.filled_without_allocation''
             [(''strategy_id'', JStr (p_strategy_id q)), (''position_id'', JStr (p_id q)), (''trade_id'', trade_json q),
              (''exchange_order_id'', JStr order_id), (''observation_count'', JInt n)])
           (\<lambda>_. bump ''order_errors'')
           (\<lambda>_. bindS (on_store (mark_filled_without_allocation_alerted (fill_now env) (p_id q) order_id)) (\<lambda>marked.
             whenS marked (bindS (bump ''missing_fill_alerts'') (\<lambda>_.
               publish ''execution.filled_without_allocation''
                 [(''position_id'', JStr (p_id q)), (''trade_id'', trade_json q), (''exchange_order_id'', JStr order_id),
                  (''observation_count'', JInt n)]))))))"

definition cancel_stale_order :: "'x sdk \<Rightarrow> fill_env \<Rightarrow> position \<Rightarrow> string \<Rightarrow> string \<Rightarrow> ('x, unit) fill_action" where
  "cancel_stale_order api env p order_id order_state =
     (if \<not> fe_mutations env then returnS ()
      else bindS (in_store (\<lambda>st. is_order_cancel_requested st (p_id p) order_id)) (\<lambda>requested.
      if requested then returnS ()
      else tryS (on_okx (cancel_order api (p_inst_id p) order_id))
        (\<lambda>_. bump ''order_errors'')
        (\<lambda>response.
          if response \<noteq> [] \<and> text_of (jget response ''sCode'') \<notin> set [[], ''0''] then bump ''order_errors''
          else if response = [] then returnS ()
          else bindS (on_store (mark_order_cancel_requested (fill_now env) (p_id p) order_id)) (\<lambda>marked.
            whenS marked (bindS (bump ''stale_cancel_requested'') (\<lambda>_.
              publish ''execution.stale_order_cancel_requested''
                [(''position_id'', JStr (p_id p)), (''exchange_order_id'', JStr order_id), (''order_state'', JStr order_state)]))))))"

definition settle_order :: "'x sdk \<Rightarrow> fill_env \<Rightarrow> position \<Rightarrow> string \<Rightarrow> jobj \<Rightarrow> ('x, unit) fill_action" where
  "settle_order api env p order_id order =
     (let state = py_lower (text_of (jget order ''state'')) in
      if order_id = [] then bump ''order_errors''
      else if state \<in> set terminal_states then recover_terminal api env p order_id state ''rest''
      else if state = ''filled'' then note_filled_order env p order_id
      else if state \<in> set [''live'', ''partially_filled''] \<and> fe_stale_after env \<le> order_age env order
      then cancel_stale_order api env p order_id state
      else returnS ())"

definition reconcile_order :: "'x sdk \<Rightarrow> fill_env \<Rightarrow> position \<Rightarrow> ('x, unit) fill_action" where
  "reconcile_order api env p =
     tryS (on_okx (get_order api (p_inst_id p) (p_exchange_order_id p) (p_client_order_id p)))
       (\<lambda>_. bump ''order_errors'')
       (\<lambda>data. bindS (bump ''orders_checked'') (\<lambda>_.
        bindS (liftS (rows_of data)) (\<lambda>orders.
        case orders of
          [] \<Rightarrow>
            if p_client_order_id p \<noteq> [] \<and> p_exchange_order_id p = [] \<and> fe_stale_after env \<le> position_age env p
            then recover_missing api env p
            else bump ''order_errors''
        | order # _ \<Rightarrow>
            bindS (link_recovered_order env p (text_of (py_or (jget order ''ordId'') (JStr (p_exchange_order_id p))))) (\<lambda>(q, order_id).
            settle_order api env q order_id order))))"

definition reconcile_pending_orders :: "'x sdk \<Rightarrow> fill_env \<Rightarrow> ('x, unit) fill_action" where
  "reconcile_pending_orders api env =
     bindS (in_store (\<lambda>st. list_pending_executions st 500)) (\<lambda>ps. eachS (reconcile_order api env) ps)"

subsection \<open>Positions and their stops\<close>

definition reconcile_protection :: "'x sdk \<Rightarrow> fill_env \<Rightarrow> position \<Rightarrow> ('x, unit) fill_action" where
  "reconcile_protection api env p =
     (if unit_quantity p \<le> 0 then returnS ()
      else bindS (bump ''protections_checked'') (\<lambda>_.
      bindS (in_store (\<lambda>st. get_protection st (p_id p))) (\<lambda>owned.
      if (case owned of None \<Rightarrow> False | Some pr \<Rightarrow> pr_status pr = PTriggered)
      then bindS (bump ''protection_errors'') (\<lambda>_. entries_off env)
      else catch_unprotected (ignoring (on_guard (verify_active (okx_stop_client api) (fe_guard env) (p_id p))))
        (\<lambda>_. if \<not> fe_mutations env then returnS ()
          else catch_unprotected
            (bindS (on_guard (protect (okx_stop_client api) (fe_guard env) (p_id p))) (\<lambda>_. bump ''protection_rearmed''))
            (\<lambda>message.
              bindS (bump ''protection_errors'') (\<lambda>_.
              bindS (entries_off env) (\<lambda>_.
              fill_audit env [] ''position.protection_reconcile_failed''
                [(''position_id'', JStr (p_id p)), (''error'', JStr message)])))))))"

definition reconcile_owned_protections :: "'x sdk \<Rightarrow> fill_env \<Rightarrow> ('x, unit) fill_action" where
  "reconcile_owned_protections api env =
     (if \<not> fe_protecting env then returnS ()
      else bindS (in_store (\<lambda>st. ps_list st (Some Open) [] (Some 500))) (\<lambda>ps. eachS (reconcile_protection api env) ps))"

text \<open>When the gap of a position began: as its metadata say, or now, which is then written down.\<close>

definition gap_start :: "fill_env \<Rightarrow> position \<Rightarrow> ('x, rat \<times> string) fill_action" where
  "gap_start env p =
     (let started_at = text_of (jget (col_obj (p_metadata p)) ''protection_gap_started_at'') in
      case read_iso env started_at of
        Some started \<Rightarrow> returnS (started, started_at)
      | None \<Rightarrow> bindS (on_store (merge_metadata (fill_now env) (p_id p) [(''protection_gap_started_at'', JStr (fill_now env))]))
          (\<lambda>_. returnS (fe_now env, fill_now env)))"

definition oldest_gap :: "rat \<Rightarrow> ('x, unit) fill_action" where
  "oldest_gap age =
     bindS (getS (\<lambda>s. jget (fs_status s) ''oldest_protection_gap_seconds'')) (\<lambda>oldest.
     put_status ''oldest_protection_gap_seconds'' (case oldest of JFloat (PFin r) \<Rightarrow> JFloat (PFin (max r age)) | _ \<Rightarrow> JFloat (PFin age)))"

definition alert_gap :: "fill_env \<Rightarrow> position \<Rightarrow> string \<Rightarrow> rat \<Rightarrow> ('x, unit) fill_action" where
  "alert_gap env p started_at age =
     bindS (on_store (merge_metadata (fill_now env) (p_id p) [(''protection_gap_alerted_at'', JStr (fill_now env))])) (\<lambda>_.
     bindS (fill_audit env [] ''position.protection_gap_exceeded''
       [(''position_id'', JStr (p_id p)), (''status'', JStr (PositionStore.status_name (p_status p))),
        (''remaining_quantity'', JFloat (PFin (unit_quantity p))), (''gap_started_at'', JStr started_at), (''gap_seconds'', JFloat (PFin age))]) (\<lambda>_.
     bindS (publish ''position.protection_gap_exceeded'' [(''position_id'', JStr (p_id p)), (''gap_seconds'', JFloat (PFin age))]) (\<lambda>_.
     bump ''protection_gap_alerts'')))"

definition follow_gap :: "fill_env \<Rightarrow> position \<Rightarrow> ('x, unit) fill_action" where
  "follow_gap env p =
     bindS (gap_start env p) (\<lambda>(started, started_at).
     let age = max 0 (fe_now env - started) in
     bindS (oldest_gap age) (\<lambda>_.
     whenS (fe_gap_alert env \<le> age \<and> \<not> truthy (jget (col_obj (p_metadata p)) ''protection_gap_alerted_at''))
       (alert_gap env p started_at age)))"

definition track_gap :: "fill_env \<Rightarrow> position \<Rightarrow> ('x, unit) fill_action" where
  "track_gap env p =
     (if unit_quantity p \<le> 0 then returnS ()
      else bindS (in_store (\<lambda>st. get_protection st (p_id p))) (\<lambda>owned.
      if (case owned of None \<Rightarrow> False | Some pr \<Rightarrow> pr_status pr = PActive) then returnS ()
      else bindS (bump ''unprotected_positions'') (\<lambda>_.
        bindS (entries_off env) (\<lambda>_. follow_gap env p))))"

definition track_protection_gaps :: "fill_env \<Rightarrow> ('x, unit) fill_action" where
  "track_protection_gaps env = bindS (in_store list_active) (\<lambda>ps. eachS (track_gap env) ps)"

subsection \<open>The private stream\<close>

definition apply_stream_status :: "stream_status option \<Rightarrow> ('x, unit) fill_action" where
  "apply_stream_status snapshot s =
     (case snapshot of
        None \<Rightarrow> (Inr (), s)
      | Some w \<Rightarrow> (Inr (), s\<lparr>fs_status := tmerge (fs_status s)
          [(''websocket_enabled'', JBool (sw_enabled w)), (''websocket_connected'', JBool (sw_connected w)),
           (''websocket_events_received'', JInt (sw_received w)), (''websocket_reconnects'', JInt (sw_reconnects w)),
           (''websocket_dropped_events'', JInt (sw_dropped w)), (''websocket_last_message_at'', JStr (sw_last_message w)),
           (''websocket_last_error'', JStr (sw_last_error w))]\<rparr>))"

definition start_stream :: "fill_env \<Rightarrow> ('x, unit) fill_action" where
  "start_stream env s =
     (case fe_stream env of
        None \<Rightarrow> (Inr (), s)
      | Some w \<Rightarrow>
          if sv_starts w then (Inr (), s\<lparr>fs_backoff := 5, fs_next_retry := 0\<rparr>)
          else (Inr (), s\<lparr>fs_next_retry := fe_monotonic env + fs_backoff s, fs_backoff := min (fs_backoff s * 2) 60\<rparr>))"

definition websocket_fill :: "jobj \<Rightarrow> jobj" where
  "websocket_fill order =
     tset ''ts'' (py_or (jget order ''fillTime'') (jget order ''uTime''))
       (tset ''feeCcy'' (jget order ''fillFeeCcy'') (tset ''fee'' (jget order ''fillFee'') order))"

text \<open>The position of an order: by its order, or by its client order id, to which the order is then linked.\<close>

definition stream_position :: "fill_env \<Rightarrow> string \<Rightarrow> string \<Rightarrow> ('x, position option) fill_action" where
  "stream_position env order_id client_order_id =
     bindS (in_store (\<lambda>st. get_by_exchange_order_id st order_id)) (\<lambda>found.
     if found \<noteq> None \<or> client_order_id = [] then returnS found
     else bindS (in_store (\<lambda>st. get_by_client_order_id st client_order_id)) (\<lambda>by_client.
     case by_client of
       None \<Rightarrow> returnS None
     | Some p \<Rightarrow>
         if order_id = [] then returnS (Some p)
         else bindS (on_store (link_exchange_order (fill_now env) (p_id p) client_order_id order_id
             [(''execution_status'', JStr ''exchange_order_recovered_from_ws'')])) (\<lambda>linked.
           case linked of
             None \<Rightarrow> returnS (Some p)
           | Some q \<Rightarrow> bindS (bump ''client_orders_linked'') (\<lambda>_. returnS (Some q)))))"

definition counted_into :: "string \<Rightarrow> string \<Rightarrow> ('x, unit) fill_action \<Rightarrow> ('x, unit) fill_action" where
  "counted_into source target m =
     bindS (getS (\<lambda>s. status_count (fs_status s) source)) (\<lambda>earlier.
     bindS m (\<lambda>_.
     bindS (getS (\<lambda>s. status_count (fs_status s) source)) (\<lambda>after. count_up target (after - earlier))))"

definition stream_order :: "'x sdk \<Rightarrow> fill_env \<Rightarrow> jobj \<Rightarrow> ('x, unit) fill_action" where
  "stream_order api env order =
     (let order_id = text_of (jget order ''ordId'');
          client_order_id = text_of (jget order ''clOrdId'');
          state = py_lower (text_of (jget order ''state'')) in
      bindS (bump ''websocket_events_processed'') (\<lambda>_.
      bindS (whenS (text_of (jget order ''tradeId'') \<noteq> [])
        (counted_into ''applied'' ''websocket_fills_applied'' (ingest_fills api env [websocket_fill order]))) (\<lambda>_.
      bindS (stream_position env order_id client_order_id) (\<lambda>found.
      case found of
        None \<Rightarrow> returnS ()
      | Some p \<Rightarrow> whenS (order_id \<noteq> [] \<and> state \<in> set terminal_states)
          (counted_into ''terminal_recovered'' ''websocket_terminal_recovered''
            (recover_terminal api env p order_id state ''websocket''))))))"

definition drain_stream :: "'x sdk \<Rightarrow> fill_env \<Rightarrow> ('x, unit) fill_action" where
  "drain_stream api env =
     (case fe_stream env of
        None \<Rightarrow> returnS ()
      | Some w \<Rightarrow> bindS (eachS (stream_order api env) (take 1000 (sv_orders w))) (\<lambda>_. apply_stream_status (Some (sv_after w))))"

subsection \<open>The tick\<close>

definition empty_status :: "string \<Rightarrow> jobj" where
  "empty_status now =
     map (\<lambda>k. (k, JInt 0)) [''fetched'', ''applied'', ''idempotent'', ''unmatched'', ''invalid'', ''conflicts'', ''quarantined'',
       ''quarantine_repeats'', ''orders_checked'', ''terminal_recovered'', ''stale_cancel_requested'', ''filled_awaiting_allocation'',
       ''missing_fill_alerts'', ''order_errors'', ''client_orders_linked'', ''missing_client_orders_recovered'',
       ''protection_triggers_linked'', ''protections_checked'', ''protection_rearmed'', ''protection_errors'', ''unprotected_positions''] @
     [(''oldest_protection_gap_seconds'', JFloat (PFin 0)), (''protection_gap_alerts'', JInt 0), (''rule_materializations'', JInt 0),
      (''rule_materialization_errors'', JInt 0), (''pages_fetched'', JInt 0), (''caught_up'', JBool False),
      (''cursor_in_progress'', JBool False), (''history_exhausted'', JBool False), (''high_water_bill_id'', JStr []),
      (''next_after_bill_id'', JStr []), (''cursor_errors'', JInt 0), (''cursor_error'', JStr []),
      (''websocket_enabled'', JBool False), (''websocket_connected'', JBool False)] @
     map (\<lambda>k. (k, JInt 0)) [''websocket_events_received'', ''websocket_events_processed'', ''websocket_fills_applied'',
       ''websocket_terminal_recovered'', ''websocket_reconnects'', ''websocket_dropped_events'', ''websocket_drops_pending_catchup''] @
     [(''websocket_last_message_at'', JStr []), (''websocket_last_error'', JStr []), (''service_available'', JBool True),
      (''last_health_failure_at'', JStr []), (''last_health_failure_reasons'', JList []), (''updated_at'', JStr now)]"

definition fresh_tick :: "fill_env \<Rightarrow> ('x, unit) fill_action" where
  "fresh_tick env s = (Inr (), s\<lparr>fs_status := empty_status (fill_now env)\<rparr>)"

text \<open>A stream that is down is started again, unless an earlier failure says to wait.\<close>

definition revive_stream :: "fill_env \<Rightarrow> ('x, unit) fill_action" where
  "revive_stream env =
     bindS (getS fs_next_retry) (\<lambda>retry_at.
     whenS (fe_stream_on env \<and> (case fe_stream env of None \<Rightarrow> False | Some w \<Rightarrow> \<not> sv_connected w) \<and> retry_at \<le> fe_monotonic env)
       (start_stream env))"

definition is_websocket_key :: "string \<Rightarrow> bool" where
  "is_websocket_key k \<longleftrightarrow> take 10 k = ''websocket_''"

definition remember_rest :: "fill_env \<Rightarrow> bool \<Rightarrow> int \<Rightarrow> ('x, unit) fill_action" where
  "remember_rest env failed dropped s =
     (Inr (), s\<lparr>fs_last_rest := filter (\<lambda>(k, _). \<not> is_websocket_key k \<and> k \<noteq> ''updated_at'') (fs_status s),
        fs_reconciled_drops := (if failed then fs_reconciled_drops s else dropped),
        fs_next_poll := fe_monotonic env + fe_poll_interval env\<rparr>)"

text \<open>The part of a tick that polls OKX; the result is the error of the catch-up, if it failed.\<close>

definition poll_rest :: "'x sdk \<Rightarrow> fill_env \<Rightarrow> int \<Rightarrow> ('x, py_exc option) fill_action" where
  "poll_rest api env dropped =
     bindS (tryS (catch_up_fills api env)
       (\<lambda>e. bindS (bump ''cursor_errors'') (\<lambda>_. bindS (put_status ''cursor_error'' (JStr (exc_text e))) (\<lambda>_. returnS (Some e))))
       (\<lambda>_. returnS None)) (\<lambda>failure.
     bindS (reconcile_pending_orders api env) (\<lambda>_.
     bindS (reconcile_owned_protections api env) (\<lambda>_.
     bindS (getS (\<lambda>s. get_cursor (fs_cursors s) fill_stream)) (\<lambda>c.
     bindS (put_status ''cursor_in_progress'' (JBool (in_progress c))) (\<lambda>_.
     bindS (put_status ''high_water_bill_id'' (JStr (cu_high_water c))) (\<lambda>_.
     bindS (put_status ''next_after_bill_id'' (JStr (cu_next_after c))) (\<lambda>_.
     bindS (put_status ''updated_at'' (JStr (fill_now env))) (\<lambda>_.
     bindS (remember_rest env (failure \<noteq> None) dropped) (\<lambda>_. returnS failure)))))))))"

definition recall_rest :: "fill_env \<Rightarrow> ('x, py_exc option) fill_action" where
  "recall_rest env s =
     (Inr None, s\<lparr>fs_status := tset ''updated_at'' (JStr (fill_now env)) (tmerge (fs_status s) (fs_last_rest s))\<rparr>)"

definition count_drops :: "('x, unit) fill_action" where
  "count_drops =
     bindS (getS (\<lambda>s. max 0 (status_count (fs_status s) ''websocket_dropped_events'' - fs_reconciled_drops s))) (\<lambda>drops.
     bindS (put_status ''websocket_drops_pending_catchup'' (JInt drops)) (\<lambda>_ s.
     (Inr (), if drops \<noteq> 0 then s\<lparr>fs_next_poll := 0\<rparr> else s)))"

definition remember_failure :: "jobj \<Rightarrow> ('x, jobj) fill_action" where
  "remember_failure status s =
     (let s' = (if truthy (jget status ''healthy'') then s
          else s\<lparr>fs_failure_at := JStr (py_str (jget status ''updated_at'')), fs_failure_reasons := jget status ''health_reasons''\<rparr>) in
      (Inr (tmerge status [(''last_health_failure_at'', fs_failure_at s'), (''last_health_failure_reasons'', fs_failure_reasons s')]), s'))"

definition judge_health :: "fill_env \<Rightarrow> ('x, unit) fill_action" where
  "judge_health env =
     bindS (put_status ''stale_after_seconds'' (JFloat (PFin (fe_health_stale env)))) (\<lambda>_.
     bindS (getS fs_status) (\<lambda>raw.
     bindS (liftS (evaluate_execution_health (fe_iso env) (fe_now env) (JInt 15) raw)) (\<lambda>evaluated.
     bindS (remember_failure evaluated) (\<lambda>status.
     bindS (\<lambda>s. (Inr (), s\<lparr>fs_status := status\<rparr>)) (\<lambda>_.
     bindS (whenS (fe_mutations env \<and> \<not> truthy (jget status ''healthy'')) (entries_off env)) (\<lambda>_.
     publish ''execution.fills_polled'' status))))))"

text \<open>What a tick learns: from OKX, if the poll is due, and from the stream; the result is the error of a
  failed catch-up.\<close>

definition gather :: "'x sdk \<Rightarrow> fill_env \<Rightarrow> ('x, py_exc option) fill_action" where
  "gather api env =
     bindS (fresh_tick env) (\<lambda>_.
     bindS (revive_stream env) (\<lambda>_.
     bindS (apply_stream_status (map_option sv_before (fe_stream env))) (\<lambda>_.
     bindS (getS (\<lambda>s. (status_count (fs_status s) ''websocket_dropped_events'', fs_next_poll s))) (\<lambda>(dropped, next_poll).
     bindS (if next_poll \<le> fe_monotonic env then poll_rest api env dropped else recall_rest env) (\<lambda>failure.
     bindS (drain_stream api env) (\<lambda>_.
     bindS count_drops (\<lambda>_. returnS failure)))))))"

definition fill_tick :: "'x sdk \<Rightarrow> fill_env \<Rightarrow> ('x, unit) fill_action" where
  "fill_tick api env =
     bindS (gather api env) (\<lambda>failure.
     bindS (track_protection_gaps env) (\<lambda>_.
     bindS (judge_health env) (\<lambda>_.
     case failure of None \<Rightarrow> returnS () | Some e \<Rightarrow> liftS (Inl e))))"

text \<open>\<^verbatim>\<open>setup\<close>: connect the stream, if there is one, and publish the first status.\<close>

definition fill_setup :: "fill_env \<Rightarrow> ('x, unit) fill_action" where
  "fill_setup env =
     bindS (whenS (fe_stream_on env) (start_stream env)) (\<lambda>_.
     bindS (fresh_tick env) (\<lambda>_. apply_stream_status (map_option sv_before (fe_stream env))))"

end
