(* ===== verification/ServiceFrame.thy ===== *)
theory ServiceFrame
  imports FillService
begin

section \<open>What every step of the fill service keeps\<close>

text \<open>
  The fill service calls the protection service, the allocation, the stores and the exchange client. This
  theory states once what all of them keep - consistent stores, a ledger that only grows, trades that move
  forward, an entry switch that is never turned on - for any relation that the calls of the client
  follow. The interface is a locale over that relation; it is interpreted with the calls that open no
  exposure, and its facts serve the growing history of fills.
\<close>

subsection \<open>Steps of the protection service\<close>

definition guard_ok :: "'x guard_state \<Rightarrow> bool" where
  "guard_ok g \<longleftrightarrow> store_ok (gd_pos g)"

definition guard_le :: "'x guard_state \<Rightarrow> 'x guard_state \<Rightarrow> bool" where
  "guard_le g h \<longleftrightarrow> ledger_le (gd_pos g) (gd_pos h) \<and> (gd_entry h \<longrightarrow> gd_entry g) \<and>
     (rk_entries (gd_risk h) = rk_entries (gd_risk g) \<or> rk_entries (gd_risk h) = Some False)"

lemma guard_le_refl: "guard_le g g"
  by (simp add: guard_le_def ledger_refl)

lemma guard_le_trans: "guard_le g h \<Longrightarrow> guard_le h k \<Longrightarrow> guard_le g k"
  unfolding guard_le_def using ledger_trans by metis

lemma behaves_try:
  assumes "action_relation le" and m: "behaves le safe (\<lambda>_. True) m"
    and "\<And>e. behaves le safe (\<lambda>_. True) (bad e)" and "\<And>x. behaves le safe (\<lambda>_. True) (ok x)"
  shows "behaves le safe (\<lambda>_. True) (tryS m bad ok)"
  unfolding behaves_def
proof (intro allI impI)
  fix s assume s: "safe s"
  obtain r t where r: "m s = (r, t)" by (cases "m s")
  with m s have t: "safe t" "le s t" by (auto simp: behaves_def dest!: spec [of _ s])
  have "safe (snd (bad e t)) \<and> le t (snd (bad e t))" "safe (snd (ok x t)) \<and> le t (snd (ok x t))" for e x
    using assms(3,4) t(1) by (simp_all add: behaves_def)
  with r t show "safe (snd (tryS m bad ok s)) \<and> le s (snd (tryS m bad ok s)) \<and> (\<forall>x. fst (tryS m bad ok s) = Inr x \<longrightarrow> True)"
    by (cases r) (auto simp: tryS_def intro: action_relation.le_trans [OF assms(1)])
qed

text \<open>The calls of a client, each of which takes the client from one state to one that follows it.\<close>

locale exchange_frame =
  fixes api :: "'x sdk" and follows :: "'x client_state \<Rightarrow> 'x client_state \<Rightarrow> bool"
  assumes refl: "follows c c"
    and trans: "follows c d \<Longrightarrow> follows d e \<Longrightarrow> follows c e"
    and algos: "follows c (snd (sc_algos (okx_stop_client api) inst ty c))"
    and algos_untyped: "follows c (snd (sc_algos_untyped (okx_stop_client api) inst c))"
    and positions: "follows c (snd (sc_positions (okx_stop_client api) c))"
    and instruments: "follows c (snd (sc_instruments (okx_stop_client api) inst c))"
    and ticker: "follows c (snd (sc_ticker (okx_stop_client api) inst c))"
    and amend: "follows c (snd (sc_amend (okx_stop_client api) inst algo q st c))"
    and place: "follows c (snd (sc_place (okx_stop_client api) inst side q st cid c))"
    and cancel_stop: "follows c (snd (sc_cancel (okx_stop_client api) inst algo c))"
    and order: "follows c (snd (get_order api inst oid cid c))"
    and cancel: "follows c (snd (cancel_order api inst oid c))"
    and history: "follows c (snd (get_fills_history api ty most aft c))"
begin

definition guarded_le :: "'x client_state guard_state \<Rightarrow> 'x client_state guard_state \<Rightarrow> bool" where
  "guarded_le g h \<longleftrightarrow> guard_le g h \<and> follows (gd_okx g) (gd_okx h)"

lemma guarded_relation: "action_relation guarded_le"
  by unfold_locales (auto simp: guarded_le_def guard_le_refl refl intro: guard_le_trans trans)

abbreviation dutiful :: "('x client_state, 'a) guard \<Rightarrow> bool" where
  "dutiful \<equiv> behaves guarded_le guard_ok (\<lambda>_. True)"

lemma dutiful_bind [intro!]: "dutiful m \<Longrightarrow> (\<And>x. dutiful (f x)) \<Longrightarrow> dutiful (bindS m f)"
  by (rule action_relation.bind [OF guarded_relation])

lemma dutiful_catch [intro!]: "dutiful m \<Longrightarrow> (\<And>e. dutiful (h e)) \<Longrightarrow> dutiful (catchS m h)"
  by (rule action_relation.catch [OF guarded_relation])

lemma dutiful_basic [simp, intro!]:
  "dutiful (units f)" "dutiful (liftS r)" "dutiful (returnS x)" "dutiful (unprotected message)" "dutiful (ensure b message)"
  "dutiful (present found message)" "dutiful (guard_audit env event payload)" "dutiful disable_entries" "dutiful (persist_entries_off env)"
  by (auto simp: behaves_def units_def liftS_def returnS_def unprotected_def ensure_def present_def guard_audit_def disable_entries_def
      persist_entries_off_def set_entries_enabled_def Let_def guarded_le_def guard_le_def guard_ok_def ledger_refl refl
      split: prod.split option.split)

lemma dutiful_okx:
  assumes "\<And>c. follows c (snd (m c))"
  shows "dutiful (okx m)"
  using assms by (auto simp: behaves_def okx_def guarded_le_def guard_le_def guard_ok_def ledger_refl split: prod.split) (metis snd_conv)

lemma dutiful_units:
  assumes "allowed_op x" and "\<And>st. snd (m st) = store_step x st"
  shows "dutiful (on_units m)"
  unfolding behaves_def
proof (intro allI impI)
  fix g :: "'x client_state guard_state" assume g: "guard_ok g"
  obtain r st where m: "m (gd_pos g) = (r, st)" by (cases "m (gd_pos g)")
  then have st: "st = store_step x (gd_pos g)" using assms(2) [of "gd_pos g"] by simp
  have o: "store_ok (gd_pos g)" using g by (simp add: guard_ok_def)
  have "store_ok st" "ledger_le (gd_pos g) st"
    using position_store.step_keeps [OF o assms(1)] position_ledger.step_forward [OF o assms(1)] st by simp_all
  then show "guard_ok (snd (on_units m g)) \<and> guarded_le g (snd (on_units m g)) \<and> (\<forall>y. fst (on_units m g) = Inr y \<longrightarrow> True)"
    using m by (simp add: on_units_def guard_ok_def guarded_le_def guard_le_def refl)
qed

lemma dutiful_steps [simp, intro!]:
  "dutiful (on_units (merge_metadata now pid values))"
  "dutiful (on_units (update_protection now pid s q l t md))"
  "dutiful (on_units (save_protection now pr))"
  "dutiful (on_units (update_close_condition now pid cid pu ex en md))"
  "dutiful (on_units (create_close_condition now fresh pid purpose body enabled values))"
  "dutiful (on_units (mark_pending_execution now pid status oid values cl))"
  "dutiful (on_units (link_exchange_order now pid client oid values))"
  "dutiful (on_units (link_execution_order now pid oid client act values))"
  "dutiful (on_units (recover_client_order_intent now pid client es))"
  "dutiful (on_units (recover_terminal_order now pid oid es))"
  "dutiful (on_units (record_filled_without_allocation now pid oid))"
  "dutiful (on_units (mark_filled_without_allocation_alerted now pid oid))"
  "dutiful (on_units (mark_order_cancel_requested now pid oid))"
  subgoal by (rule dutiful_units [where x = "MergeMetadata now pid values"]) (simp_all add: allowed_op_def)
  subgoal by (rule dutiful_units [where x = "UpdateProtection now pid s q l t md"]) (simp_all add: allowed_op_def)
  subgoal by (rule dutiful_units [where x = "SaveProtection now pr"]) (simp_all add: allowed_op_def)
  subgoal by (rule dutiful_units [where x = "UpdateCondition now pid cid pu ex en md"]) (simp_all add: allowed_op_def)
  subgoal by (rule dutiful_units [where x = "CreateCondition now fresh pid purpose body enabled values"]) (simp_all add: allowed_op_def)
  subgoal by (rule dutiful_units [where x = "MarkPending now pid status oid values cl"]) (simp_all add: allowed_op_def)
  subgoal by (rule dutiful_units [where x = "LinkExchange now pid client oid values"]) (simp_all add: allowed_op_def)
  subgoal by (rule dutiful_units [where x = "LinkOrder now pid oid client act values"]) (simp_all add: allowed_op_def)
  subgoal by (rule dutiful_units [where x = "RecoverIntent now pid client es"]) (simp_all add: allowed_op_def)
  subgoal by (rule dutiful_units [where x = "RecoverTerminal now pid oid es"]) (simp_all add: allowed_op_def)
  subgoal by (rule dutiful_units [where x = "FilledWithoutAllocation now pid oid"]) (simp_all add: allowed_op_def)
  subgoal by (rule dutiful_units [where x = "FilledAlerted now pid oid"]) (simp_all add: allowed_op_def)
  subgoal by (rule dutiful_units [where x = "CancelRequested now pid oid"]) (simp_all add: allowed_op_def)
  done

lemma dutiful_pure [simp, intro!]: "dutiful (on_units (\<lambda>st. (f st, st)))"
  by (simp add: behaves_def on_units_def guarded_le_def guard_le_refl refl guard_ok_def)

lemma dutiful_atomically [intro!]:
  assumes "dutiful m" shows "dutiful (atomically m)"
  using assms
  by (auto simp: behaves_def atomically_def guarded_le_def guard_le_def guard_ok_def ledger_refl split: prod.split sum.split)

lemma dutiful_noting [intro!]: "dutiful m \<Longrightarrow> dutiful (noting label m errors)"
  unfolding noting_def by auto

lemma dutiful_value_error [intro!]: "dutiful m \<Longrightarrow> dutiful (value_error_as_protection m)"
  unfolding value_error_as_protection_def by (auto split: py_exc.split)

lemma dutiful_ignoring [intro!]: "dutiful m \<Longrightarrow> dutiful (ignoring m)"
  unfolding ignoring_def by auto

lemma dutiful_client [simp, intro!]:
  "dutiful (okx (sc_algos (okx_stop_client api) i ty))" "dutiful (okx (sc_algos_untyped (okx_stop_client api) i))"
  "dutiful (okx (sc_positions (okx_stop_client api)))" "dutiful (okx (sc_instruments (okx_stop_client api) i))"
  "dutiful (okx (sc_ticker (okx_stop_client api) i))" "dutiful (okx (sc_amend (okx_stop_client api) i a q st))"
  "dutiful (okx (sc_place (okx_stop_client api) i side q st cid))" "dutiful (okx (sc_cancel (okx_stop_client api) i a))"
  "dutiful (okx (get_order api i oid cid))" "dutiful (okx (cancel_order api i oid))" "dutiful (okx (get_fills_history api ty most aft))"
  by (intro dutiful_okx algos algos_untyped positions instruments ticker amend place cancel_stop order cancel history)+

lemma dutiful_pending [simp, intro!]: "dutiful (pending_orders (okx_stop_client api) i)"
  unfolding pending_orders_def by (auto split: if_split)

lemma dutiful_find [simp, intro!]: "dutiful (find_order (okx_stop_client api) i a)"
  unfolding find_order_def by auto

lemma dutiful_constraints [simp, intro!]: "dutiful (constraints_of (okx_stop_client api) i)"
  unfolding constraints_of_def by (auto split: list.split)

lemma dutiful_fail [simp, intro!]: "dutiful (fail_amend env p i e)"
  unfolding fail_amend_def Let_def by auto

lemma dutiful_not_applied [simp, intro!]: "dutiful (amend_not_applied env p i e)"
  unfolding amend_not_applied_def by auto

lemma dutiful_verify [simp, intro!]: "dutiful (verify_active (okx_stop_client api) env pid)"
  unfolding verify_active_def by (auto split: harmless_splits)

lemma dutiful_prepare [simp, intro!]: "dutiful (prepare_amend (okx_stop_client api) env pid cid e r im ep ec)"
  unfolding prepare_amend_def amend_target_def amend_terms_def Let_def by (auto split: prod.split)

lemma dutiful_carry_out [simp, intro!]: "dutiful (carry_out_amend (okx_stop_client api) env p pr c n cm q st i)"
  unfolding carry_out_amend_def exchange_amend_def resolve_amend_error_def publish_amended_stop_def
  by (auto split: option.split sum.split)

lemma dutiful_amend [simp, intro!]: "dutiful (amend_stop_condition (okx_stop_client api) env pid cid e r cm im ep ec)"
  unfolding amend_stop_condition_def by (auto split: prod.split)

lemma dutiful_attach [simp, intro!]: "dutiful (attach_stop (okx_stop_client api) env p)"
  unfolding attach_stop_def require_balanced_def stop_to_attach_def restore_confirmed_rule_def amend_or_accept_def place_stop_def Let_def
  by (auto split: harmless_splits)

lemma dutiful_protect [simp, intro!]: "dutiful (protect (okx_stop_client api) env pid)"
  unfolding protect_def by auto

end

subsection \<open>Steps of the fill service\<close>

definition service_ok :: "'x fill_state \<Rightarrow> bool" where
  "service_ok s \<longleftrightarrow> guard_ok (fs_guard s) \<and> trades_ok (fs_trades s)"

context exchange_frame
begin

definition service_le :: "'x fill_state \<Rightarrow> 'x fill_state \<Rightarrow> bool" where
  "service_le s t \<longleftrightarrow> guarded_le (fs_guard s) (fs_guard t) \<and> trade_le (fs_trades s) (fs_trades t) \<and> set (fs_seen s) \<subseteq> set (fs_seen t)"

lemma service_le_refl: "service_le s s"
  by (simp add: service_le_def guarded_le_def guard_le_refl refl trade_le_refl)

lemma service_le_trans: "service_le s t \<Longrightarrow> service_le t u \<Longrightarrow> service_le s u"
  unfolding service_le_def guarded_le_def using guard_le_trans trans trade_lifecycle.le_trans by (meson subset_trans)

text \<open>Most steps moreover leave the cursors alone.\<close>

definition steady_le :: "'x fill_state \<Rightarrow> 'x fill_state \<Rightarrow> bool" where
  "steady_le s t \<longleftrightarrow> service_le s t \<and> fs_cursors t = fs_cursors s"

lemma steady_relation: "action_relation steady_le"
  by unfold_locales (auto simp: steady_le_def service_le_refl intro: service_le_trans)

lemma service_relation: "action_relation service_le"
  by unfold_locales (auto simp: service_le_refl intro: service_le_trans)

abbreviation steady :: "('x, 'a) fill_action \<Rightarrow> bool" where
  "steady \<equiv> behaves steady_le service_ok (\<lambda>_. True)"

abbreviation serving :: "('x, 'a) fill_action \<Rightarrow> bool" where
  "serving \<equiv> behaves service_le service_ok (\<lambda>_. True)"

lemma serving_steady: "steady m \<Longrightarrow> serving m"
  by (simp add: behaves_def steady_le_def)

lemma steady_bind [intro!]: "steady m \<Longrightarrow> (\<And>x. steady (f x)) \<Longrightarrow> steady (bindS m f)"
  by (rule action_relation.bind [OF steady_relation])

lemma steady_catch [intro!]: "steady m \<Longrightarrow> (\<And>e. steady (h e)) \<Longrightarrow> steady (catchS m h)"
  by (rule action_relation.catch [OF steady_relation])

lemma serving_bind: "serving m \<Longrightarrow> (\<And>x. serving (f x)) \<Longrightarrow> serving (bindS m f)"
  by (rule action_relation.bind [OF service_relation])

lemmas steady_try [intro!] = behaves_try [OF steady_relation]

lemmas serving_try = behaves_try [OF service_relation]

lemma steady_local:
  assumes "\<And>s. fs_guard (snd (m s)) = fs_guard s \<and> fs_trades (snd (m s)) = fs_trades s \<and> fs_cursors (snd (m s)) = fs_cursors s \<and>
    set (fs_seen s) \<subseteq> set (fs_seen (snd (m s)))"
  shows "steady m"
  using assms by (simp add: behaves_def steady_le_def service_le_def guarded_le_def guard_le_refl refl trade_le_refl service_ok_def)

lemma steady_basic [simp, intro!]:
  "steady (returnS x)" "steady (liftS r)" "steady (getS f)" "steady (put_status k v)" "steady (count_up k n)" "steady (publish e p)"
  "steady (saw raw)" "steady (apply_stream_status w)" "steady (start_stream env)" "steady (fresh_tick env)" "steady (recall_rest env)"
  "steady (remember_rest env b n)" "steady (remember_failure st)"
  by (rule steady_local, auto simp: returnS_def liftS_def getS_def put_status_def count_up_def publish_def saw_def apply_stream_status_def
      start_stream_def fresh_tick_def recall_rest_def remember_rest_def remember_failure_def Let_def split: option.split)+

lemma steady_guard [intro!]:
  assumes "dutiful m" shows "steady (on_guard m)"
  using assms
  by (auto simp: behaves_def on_guard_def steady_le_def service_le_def service_ok_def trade_le_refl split: prod.split)

lemma steady_exec [intro!]:
  assumes "books_ok Q m" shows "steady (on_exec m)"
  unfolding behaves_def
proof (intro allI impI)
  fix s :: "'x fill_state" assume s: "service_ok s"
  let ?g = "fs_guard s"
  let ?x = "\<lparr>xs_pos = gd_pos ?g, xs_trades = fs_trades s, xs_audit = gd_audit ?g\<rparr>"
  obtain r y where m: "m ?x = (r, y)" by (cases "m ?x")
  have "exec_ok ?x" using s by (simp add: exec_ok_def service_ok_def guard_ok_def)
  then have "exec_ok y" "exec_le ?x y" using assms m by (auto simp: behaves_def dest!: spec [of _ ?x])
  then show "service_ok (snd (on_exec m s)) \<and> steady_le s (snd (on_exec m s)) \<and> (\<forall>y. fst (on_exec m s) = Inr y \<longrightarrow> True)"
    using m by (simp add: on_exec_def Let_def exec_ok_def exec_le_def service_ok_def guard_ok_def steady_le_def service_le_def
        guarded_le_def guard_le_def refl)
qed

lemma steady_okx [simp, intro!]: "steady (on_okx (get_order api i oid cid))" "steady (on_okx (cancel_order api i oid))"
  "steady (on_okx (get_fills_history api ty most aft))"
  unfolding on_okx_def by auto

lemma steady_store [simp, intro!]: "dutiful (on_units m) \<Longrightarrow> steady (on_store m)" "steady (in_store f)"
  unfolding on_store_def in_store_def by auto

lemma steady_ignoring [intro!]: "steady m \<Longrightarrow> steady (ignoring m)"
  unfolding ignoring_def by auto

lemma steady_each [intro!]: "(\<And>x. steady (f x)) \<Longrightarrow> steady (eachS f xs)"
  by (induction xs) auto

lemma steady_when [intro!]: "steady m \<Longrightarrow> steady (whenS b m)"
  by (simp add: whenS_def)

lemma steady_unprotected [intro!]: "steady m \<Longrightarrow> (\<And>x. steady (h x)) \<Longrightarrow> steady (catch_unprotected m h)"
  unfolding catch_unprotected_def by (auto split: py_exc.split)

lemma steady_audit [simp, intro!]: "steady (fill_audit env i ty payload)"
proof -
  have "dutiful (\<lambda>g. (Inr (), g\<lparr>gd_audit := f g\<rparr>))" for f
    by (simp add: behaves_def guarded_le_def guard_le_def ledger_refl refl guard_ok_def)
  then have "steady (on_guard (\<lambda>g. (Inr (), g\<lparr>gd_audit := f g\<rparr>)))" for f by auto
  then show ?thesis by (simp add: behaves_def fill_audit_def steady_le_def service_le_refl split: option.split)
qed

lemma steady_entries_off [simp, intro!]: "steady (entries_off env)"
  unfolding entries_off_def by auto

lemma steady_reject [simp, intro!]: "steady (reject_fill env raw e c)"
proof -
  have "dutiful (\<lambda>g. case f g of (x, db) \<Rightarrow> (Inr x, g\<lparr>gd_audit := db\<rparr>))" for f :: "'x client_state guard_state \<Rightarrow> 'q \<times> audit_db"
    by (auto simp: behaves_def guarded_le_def guard_le_def ledger_refl refl guard_ok_def split: prod.split)
  then show ?thesis unfolding reject_fill_def record_fill_rejection_def by (auto split: prod.split)
qed

lemma steady_link_trigger [simp, intro!]: "steady (link_protection_trigger api env raw)"
  unfolding link_protection_trigger_def trigger_source_def claim_trigger_def Let_def by (auto split: option.split prod.split list.split)

lemma steady_rearm [simp, intro!]: "steady (rearm_if_needed api env p oid)"
  unfolding rearm_if_needed_def rearm_protection_def protect_again_def by auto

lemma steady_materialize [simp, intro!]: "steady (apply_pending_materializations api env pid)"
  unfolding apply_pending_materializations_def materialize_pending_def apply_materialization_def
  by (auto split: option.split json.split prod.split)

lemma steady_ingest_fills [simp, intro!]: "steady (ingest_fills api env page)"
  unfolding ingest_fills_def ingest_fill_def fill_ingested_def fill_refused_def
  by (auto intro: books_ingest split: sum.split py_exc.split option.split)

lemma steady_page [simp, intro!]: "steady (page_of_history api aft)"
  unfolding page_of_history_def by auto

lemma steady_caught_up [simp, intro!]: "steady (caught_up b)"
  unfolding caught_up_def by auto

lemma steady_fail_trade [simp, intro!]: "steady (fail_trade p reason)"
  unfolding fail_trade_def using books_trades [where x = "MarkFailed t reason" for t] by (auto simp: lifecycle_op_def split: option.split)

lemma steady_recover_terminal [simp, intro!]: "steady (recover_terminal api env p oid st src)"
  unfolding recover_terminal_def Let_def by (auto split: option.split)

lemma steady_recover_missing [simp, intro!]: "steady (recover_missing api env p)"
  unfolding recover_missing_def by (auto split: option.split)

lemma steady_link_recovered [simp, intro!]: "steady (link_recovered_order env p i)"
  unfolding link_recovered_order_def by (auto split: option.split)

lemma steady_note_filled [simp, intro!]: "steady (note_filled_order env p oid)"
  unfolding note_filled_order_def by (auto split: option.split prod.split)

lemma steady_cancel_stale [simp, intro!]: "steady (cancel_stale_order api env p oid st)"
  unfolding cancel_stale_order_def by auto

lemma steady_reconcile_orders [simp, intro!]: "steady (reconcile_pending_orders api env)"
  unfolding reconcile_pending_orders_def reconcile_order_def settle_order_def Let_def by (auto split: list.split prod.split)

lemma steady_reconcile_protections [simp, intro!]: "steady (reconcile_owned_protections api env)"
  unfolding reconcile_owned_protections_def reconcile_protection_def by auto

lemma steady_gaps [simp, intro!]: "steady (track_protection_gaps env)"
  unfolding track_protection_gaps_def track_gap_def follow_gap_def gap_start_def oldest_gap_def alert_gap_def Let_def by (auto split: option.split prod.split)

lemma steady_drain [simp, intro!]: "steady (drain_stream api env)"
  unfolding drain_stream_def stream_order_def stream_position_def counted_into_def Let_def by (auto split: option.split)

lemma steady_revive [simp, intro!]: "steady (revive_stream env)"
  unfolding revive_stream_def by auto

lemma steady_drops [simp, intro!]: "steady count_drops"
proof -
  have "steady (\<lambda>s. (Inr (), if b then s\<lparr>fs_next_poll := 0\<rparr> else s))" for b by (rule steady_local) simp
  then show ?thesis unfolding count_drops_def by auto
qed

lemma steady_health [simp, intro!]: "steady (judge_health env)"
proof -
  have "steady (\<lambda>s. (Inr (), s\<lparr>fs_status := st\<rparr>))" for st by (rule steady_local) simp
  then show ?thesis unfolding judge_health_def by auto
qed

text \<open>The catch-up moves the cursor, and so does the tick around it.\<close>

lemma serving_cursors [simp, intro!]: "serving (on_cursors f)"
  by (simp add: behaves_def on_cursors_def service_le_def guarded_le_def guard_le_refl refl trade_le_refl service_ok_def)

lemma serving_simple [simp, intro!]:
  "serving (returnS x)" "serving (liftS r)" "serving (count_up k n)" "serving (page_of_history api aft)" "serving (caught_up b)"
  "serving (ingest_fills api env page)"
  by (intro serving_steady, simp)+

lemma serving_take_page [simp, intro!]: "serving (take_page api env prev pending aft page)"
  unfolding take_page_def Let_def by (auto intro!: serving_bind)

lemma serving_catch_up_pages: "serving (catch_up_pages api env prev pending aft n)"
proof (induction n arbitrary: pending aft)
  case (Suc n)
  then show ?case by (auto intro!: serving_bind simp: Let_def whenS_def split: option.split)
qed simp

lemma serving_catch_up: "serving (catch_up_fills api env)"
  unfolding catch_up_fills_def by (intro serving_bind serving_catch_up_pages serving_steady steady_basic)

lemma serving_poll: "serving (poll_rest api env dropped)"
  unfolding poll_rest_def
  by (intro serving_bind serving_try serving_catch_up) (auto intro: serving_steady)

lemma serving_gather: "serving (gather api env)"
proof -
  have "serving (if b then poll_rest api env d else recall_rest env)" for b d
    using serving_poll by (auto intro: serving_steady)
  then show ?thesis unfolding gather_def
    by (auto intro!: serving_bind intro: serving_steady split: prod.split option.split)
qed

lemma serving_tick: "serving (fill_tick api env)"
  unfolding fill_tick_def
  by (auto intro!: serving_bind serving_gather intro: serving_steady split: option.split)

end

subsection \<open>Frames of a client\<close>

lemmas stop_client_defs = okx_stop_client_def stop_client.simps get_pending_algo_orders_def get_positions_def get_instruments_def
  get_ticker_def amend_position_stop_def place_position_stop_def cancel_position_stop_def

text \<open>It is enough that every call of the SDK follows the relation.\<close>

abbreviation along :: "('x client_state \<Rightarrow> 'x client_state \<Rightarrow> bool) \<Rightarrow> ('x, 'a) client \<Rightarrow> bool" where
  "along R \<equiv> behaves R (\<lambda>_. True) (\<lambda>_. True)"

lemma along_call: "along R m \<Longrightarrow> R c (snd (m c))"
  by (simp add: behaves_def)

lemma along_basic:
  assumes "action_relation R"
  shows "along R (liftS r)" "along R (returnS x)" "along R require_armed" "along R (demand b e)"
  using action_relation.le_refl [OF assms] by (simp_all add: behaves_def liftS_def returnS_def require_armed_def demand_def)

lemma along_bind: "action_relation R \<Longrightarrow> along R m \<Longrightarrow> (\<And>x. along R (f x)) \<Longrightarrow> along R (bindS m f)"
  by (rule action_relation.bind)

lemma exchange_frameI:
  assumes R: "action_relation R" and call: "\<And>name args. along R (sdk_call api name args)"
  shows "exchange_frame api R"
proof -
  note basic = along_basic [OF R] call
  have reads: "along R (client_rows (get_pending_algo_orders api i ty))" "along R (client_rows (get_positions api tp i))"
    "along R (client_rows (get_instruments api tp i))" "along R (client_rows (get_ticker api i))" "along R (get_order api i oid cid)"
    "along R (get_fills_history api tp most aft)" for i ty tp oid cid most aft
    unfolding stop_client_defs client_rows_def query_def get_order_def get_fills_history_def by (auto intro!: along_bind [OF R] basic)
  have orders: "along R (amend_position_stop api i a q st b)" "along R (place_position_stop api i side q st cid td ps b)"
    "along R (cancel_position_stop api i a b)" "along R (cancel_order api i oid)" for i a q st b side cid td ps oid
    unfolding stop_client_defs cancel_order_def by (auto intro!: along_bind [OF R] basic)
  show ?thesis
  proof unfold_locales
    show "R c c" for c by (rule action_relation.le_refl [OF R])
    show "R c d \<Longrightarrow> R d e \<Longrightarrow> R c e" for c d e by (rule action_relation.le_trans [OF R])
  qed (simp_all add: okx_stop_client_def along_call reads orders)
qed

subsection \<open>Calls that open no exposure\<close>

definition opens_nothing :: "('x \<times> sdk_log) client_state \<Rightarrow> ('x \<times> sdk_log) client_state \<Rightarrow> bool" where
  "opens_nothing c d \<longleftrightarrow> (\<exists>new. sent d = sent c @ new \<and> filter opens_exposure new = [])"

lemma calls_open_nothing: "calls c (\<lambda>x. \<not> opens_exposure x) m \<Longrightarrow> opens_nothing c (snd (m c))"
  by (auto simp: calls_def Let_def opens_nothing_def list_all_iff filter_empty_conv split: prod.splits)

interpretation no_exposure: exchange_frame "recorded api" opens_nothing for api :: "'x sdk"
proof unfold_locales
  fix c d e :: "('x \<times> sdk_log) client_state"
  show "opens_nothing c c" by (simp add: opens_nothing_def)
  show "opens_nothing c d \<Longrightarrow> opens_nothing d e \<Longrightarrow> opens_nothing c e" by (auto simp: opens_nothing_def)
next
  fix c :: "('x \<times> sdk_log) client_state" and i ty a q st side cid oid most aft
  show "opens_nothing c (snd (sc_algos (okx_stop_client (recorded api)) i ty c))"
    "opens_nothing c (snd (sc_algos_untyped (okx_stop_client (recorded api)) i c))"
    "opens_nothing c (snd (sc_positions (okx_stop_client (recorded api)) c))"
    "opens_nothing c (snd (sc_instruments (okx_stop_client (recorded api)) i c))"
    "opens_nothing c (snd (sc_ticker (okx_stop_client (recorded api)) i c))"
    unfolding stop_client_defs by (intro calls_open_nothing calls_rows calls_query, simp add: opens_exposure_def)+
  show "opens_nothing c (snd (sc_amend (okx_stop_client (recorded api)) i a q st c))"
    "opens_nothing c (snd (sc_place (okx_stop_client (recorded api)) i side q st cid c))"
    "opens_nothing c (snd (sc_cancel (okx_stop_client (recorded api)) i a c))"
    "opens_nothing c (snd (cancel_order (recorded api) i oid c))"
    unfolding stop_client_defs cancel_order_def
    by (intro calls_open_nothing calls_ignoring calls_guarded guards_stay calls_lifted calls_sdk, simp add: opens_exposure_def jget_def)+
  show "opens_nothing c (snd (get_order (recorded api) i oid cid c))"
    by (intro calls_open_nothing calls_get_order, simp add: opens_exposure_def)
  show "opens_nothing c (snd (get_fills_history (recorded api) ty most aft c))"
    unfolding get_fills_history_def by (intro calls_open_nothing calls_query, simp add: opens_exposure_def)
qed

end
