(* ===== verification/FillHistory.thy ===== *)
theory FillHistory
  imports ServiceFrame "HOL-Library.Sublist"
begin

section \<open>The catch-up over a paginated history\<close>

text \<open>
  OKX documents the fill history as a list, newest first, from which a request returns at most a hundred
  fills older than a given bill; new fills appear at its front at any time. Under this contract the
  catch-up of \<^verbatim>\<open>src/daemon/execution_fill_service.py\<close> skips no fill: every fill at or below the
  high-water mark has gone through the ingestion, although a catch-up is spread over ticks, ticks end in
  exceptions and fills arrive in between; and a catch-up gets to its end.
\<close>

subsection \<open>The history\<close>

definition from_bill :: "jobj list \<Rightarrow> string \<Rightarrow> jobj list" where
  "from_bill H i = dropWhile (\<lambda>f. bill_id f \<noteq> i) H"

definition older :: "jobj list \<Rightarrow> string \<Rightarrow> jobj list" where
  "older H i = tl (from_bill H i)"

definition rest_of :: "jobj list \<Rightarrow> string \<Rightarrow> jobj list" where
  "rest_of H place = (if place = [] then H else older H place)"

abbreviation bills :: "jobj list \<Rightarrow> string set" where
  "bills H \<equiv> bill_id ` set H"

abbreviation well_billed :: "jobj list \<Rightarrow> bool" where
  "well_billed H \<equiv> distinct (map bill_id H) \<and> [] \<notin> bills H"

text \<open>What OKX promises of the history \<open>hist\<close> behind a state of the exchange.\<close>

definition serves_history :: "'x sdk \<Rightarrow> ('x \<Rightarrow> jobj list) \<Rightarrow> bool" where
  "serves_history api hist \<longleftrightarrow>
     (\<forall>x. well_billed (hist x)) \<and>
     (\<forall>x name args. suffix (hist x) (hist (snd (api name args x)))) \<and>
     (\<forall>x place r y. api ''get_fills_history'' [(''instType'', JStr ''SWAP''), (''limit'', JStr ''100''), (''after'', JStr place)] x = (Inr r, y) \<longrightarrow>
        jget r ''code'' = JStr ''0'' \<longrightarrow> jget r ''data'' = JList (map JObj (take 100 (rest_of (hist y) place))))"

lemma from_bill_subset: "set (from_bill H i) \<subseteq> set H"
  by (auto simp: from_bill_def dest: set_dropWhileD)

lemma dropWhile_suffix: "\<exists>A. xs = A @ dropWhile P xs"
  using takeWhile_dropWhile_id by metis

lemma older_suffix: "\<exists>A. H = A @ older H i"
proof (cases "from_bill H i")
  case Nil
  then show ?thesis by (simp add: older_def)
next
  case (Cons f fs)
  obtain A where "H = A @ from_bill H i" using dropWhile_suffix unfolding from_bill_def by metis
  with Cons have "H = (A @ [f]) @ older H i" by (simp add: older_def)
  then show ?thesis ..
qed

lemma rest_suffix: "\<exists>A. H = A @ rest_of H place"
  using older_suffix by (auto simp: rest_of_def)

lemma from_bill_grown: "well_billed (new @ H) \<Longrightarrow> i \<in> bills H \<Longrightarrow> from_bill (new @ H) i = from_bill H i"
  unfolding from_bill_def by (rule dropWhile_append2) (metis (mono_tags) IntI distinct_append empty_iff imageI list.set_map map_append)

lemma older_grown: "well_billed (new @ H) \<Longrightarrow> i \<in> bills H \<Longrightarrow> older (new @ H) i = older H i"
  by (simp add: older_def from_bill_grown)

lemma older_last:
  assumes "well_billed (A @ page @ rest)" and "page \<noteq> []"
  shows "older (A @ page @ rest) (bill_id (last page)) = rest"
proof -
  have p: "page = butlast page @ [last page]" using assms(2) by simp
  have "distinct (map bill_id (A @ (butlast page @ [last page]) @ rest))" using assms p by simp
  then have "\<forall>f\<in>set (A @ butlast page). bill_id f \<noteq> bill_id (last page)" by auto (metis imageI)+
  then have "from_bill ((A @ butlast page) @ last page # rest) (bill_id (last page)) = last page # rest"
    unfolding from_bill_def by (subst dropWhile_append2) auto
  moreover have "A @ page @ rest = (A @ butlast page) @ last page # rest" using p by (metis append.assoc append_Cons append_Nil)
  ultimately show ?thesis by (simp only: older_def list.sel)
qed

lemma before_bill:
  "i \<in> bills (take n R) \<Longrightarrow> set R \<subseteq> set (take n R) \<union> set (from_bill R i)"
proof (induction R arbitrary: n)
  case (Cons f R)
  then obtain m where n: "n = Suc m" by (cases n) auto
  show ?case
  proof (cases "bill_id f = i")
    case False
    then have "i \<in> bills (take m R)" using Cons.prems n by auto
    with Cons.IH show ?thesis using False n by (auto simp: from_bill_def)
  qed (auto simp: from_bill_def)
qed simp

lemma from_bill_suffix:
  assumes "well_billed (A @ R)" and "i \<in> bills R"
  shows "from_bill (A @ R) i = from_bill R i"
  using assms by (rule from_bill_grown)

subsection \<open>What the catch-up keeps\<close>

text \<open>With the fills \<open>D\<close> ingested: everything from the high-water mark on, and, while a catch-up is under
  way, everything from its pending mark on except what is older than the place it has come to.\<close>

definition place_kept :: "jobj list \<Rightarrow> jobj set \<Rightarrow> string \<Rightarrow> string \<Rightarrow> bool" where
  "place_kept H D pending place \<longleftrightarrow>
     (pending = [] \<and> place = [] \<or> pending \<in> bills H \<and> place \<in> bills H \<and> set (from_bill H pending) \<subseteq> D \<union> set (older H place))"

definition mark_kept :: "jobj list \<Rightarrow> jobj set \<Rightarrow> string \<Rightarrow> bool" where
  "mark_kept H D mark \<longleftrightarrow> mark = [] \<or> mark \<in> bills H \<and> set (from_bill H mark) \<subseteq> D"

definition cursor_kept :: "jobj list \<Rightarrow> jobj set \<Rightarrow> cursor \<Rightarrow> bool" where
  "cursor_kept H D c \<longleftrightarrow> mark_kept H D (cu_high_water c) \<and> place_kept H D (cu_pending c) (cu_next_after c)"

lemma mark_grown: "well_billed (new @ H) \<Longrightarrow> mark_kept H D i \<Longrightarrow> D \<subseteq> D' \<Longrightarrow> mark_kept (new @ H) D' i"
  by (auto simp: mark_kept_def from_bill_grown)

lemma place_grown: "well_billed (new @ H) \<Longrightarrow> place_kept H D i j \<Longrightarrow> D \<subseteq> D' \<Longrightarrow> place_kept (new @ H) D' i j"
  by (auto simp: place_kept_def from_bill_grown older_grown)

lemma cursor_grown: "well_billed (new @ H) \<Longrightarrow> cursor_kept H D c \<Longrightarrow> D \<subseteq> D' \<Longrightarrow> cursor_kept (new @ H) D' c"
  unfolding cursor_kept_def using mark_grown place_grown by blast

text \<open>The pages of one catch-up, as facts of lists.\<close>

definition newest_of :: "string \<Rightarrow> jobj list \<Rightarrow> string" where
  "newest_of pending page = (if pending = [] then bill_id (hd page) else pending)"

lemma newest_kept:
  assumes H: "well_billed H" and k: "place_kept H D pending place" and page: "page = take n (rest_of H place)" "page \<noteq> []"
  shows "newest_of pending page \<in> bills H \<and> newest_of pending page \<noteq> [] \<and>
    set (from_bill H (newest_of pending page)) \<subseteq> D \<union> set (rest_of H place)"
proof (cases "pending = []")
  case True
  then have place: "rest_of H place = H" using k H by (simp add: place_kept_def rest_of_def)
  then have "H \<noteq> []" "bill_id (hd page) = bill_id (hd H)" using page by (auto simp: hd_take)
  then have "bill_id (hd page) \<in> bills H" by (cases H) auto
  then show ?thesis using True place H from_bill_subset [of H "bill_id (hd page)"] by (auto simp: newest_of_def)
next
  case False
  then have p: "pending \<in> bills H" "place \<in> bills H" "set (from_bill H pending) \<subseteq> D \<union> set (older H place)"
    using k by (simp_all add: place_kept_def)
  then have "place \<noteq> []" using H by metis
  with p False show ?thesis by (simp add: newest_of_def rest_of_def)
qed

lemma page_taken:
  assumes H: "well_billed H" and page: "page = take n (rest_of H place)" "page \<noteq> []"
  shows "older H (bill_id (last page)) = drop n (rest_of H place)" and "bill_id (last page) \<in> bills H"
proof -
  obtain A where A: "H = A @ rest_of H place" using rest_suffix by blast
  have "H = A @ page @ drop n (rest_of H place)" using A page(1) by simp
  then show "older H (bill_id (last page)) = drop n (rest_of H place)" using older_last H page(2) by metis
  have "last page \<in> set page" using page(2) by simp
  then have "last page \<in> set (rest_of H place)" using page(1) in_set_takeD by fast
  then show "bill_id (last page) \<in> bills H" using A by (metis UnCI imageI set_append)
qed

text \<open>The three ends of a page: it reaches the old mark, it is the last one, or the place moves on.\<close>

lemma boundary_reached:
  assumes H: "well_billed H" and mark: "mark_kept H D mark" and page: "page = take n (rest_of H place)"
    and m: "mark \<noteq> []" "mark \<in> bills page"
  shows "set (rest_of H place) \<subseteq> D \<union> set page"
proof -
  obtain A where A: "H = A @ rest_of H place" using rest_suffix by blast
  have "mark \<in> bills (rest_of H place)" using m(2) page by (auto dest: in_set_takeD)
  then have "from_bill H mark = from_bill (rest_of H place) mark" using from_bill_suffix [of A] A H by metis
  moreover have "set (from_bill H mark) \<subseteq> D" using mark m(1) by (simp add: mark_kept_def)
  ultimately show ?thesis using before_bill [of mark n "rest_of H place"] m(2) page by auto
qed

lemma last_page: "page = take n (rest_of H place) \<Longrightarrow> length page < n \<Longrightarrow> rest_of H place = page"
  by simp

lemma moved_on:
  assumes H: "well_billed H" and k: "place_kept H D pending place" and page: "page = take n (rest_of H place)" "page \<noteq> []"
  shows "place_kept H (D \<union> set page) (newest_of pending page) (bill_id (last page))"
proof -
  have "set (rest_of H place) = set page \<union> set (older H (bill_id (last page)))"
    using page_taken [OF H page] page(1) by (metis append_take_drop_id set_append)
  with newest_kept [OF H k page] page_taken(2) [OF H page] show ?thesis by (auto simp: place_kept_def)
qed

subsection \<open>The exchange behind the service\<close>

definition growing :: "('x \<Rightarrow> jobj list) \<Rightarrow> 'x client_state \<Rightarrow> 'x client_state \<Rightarrow> bool" where
  "growing hist c d \<longleftrightarrow> suffix (hist (cl_api c)) (hist (cl_api d))"

lemma growing_relation: "action_relation (growing hist)"
  by unfold_locales (auto simp: growing_def intro: suffix_order.trans)

lemma history_frame:
  assumes "serves_history api hist"
  shows "exchange_frame api (growing hist)"
proof (rule exchange_frameI [OF growing_relation])
  show "along (growing hist) (sdk_call api name args)" for name args
    using assms unfolding serves_history_def behaves_def sdk_call_def growing_def
    by (auto split: prod.split) (metis snd_conv)
qed

definition fills_of :: "('x \<Rightarrow> jobj list) \<Rightarrow> 'x fill_state \<Rightarrow> jobj list" where
  "fills_of hist s = hist (cl_api (gd_okx (fs_guard s)))"

abbreviation cursor_of :: "'x fill_state \<Rightarrow> cursor" where
  "cursor_of s \<equiv> get_cursor (fs_cursors s) fill_stream"

definition tracked :: "('x \<Rightarrow> jobj list) \<Rightarrow> 'x fill_state \<Rightarrow> bool" where
  "tracked hist s \<longleftrightarrow> service_ok s \<and> cursor_kept (fills_of hist s) (set (fs_seen s)) (cursor_of s)"

definition grown :: "('x \<Rightarrow> jobj list) \<Rightarrow> 'x fill_state \<Rightarrow> 'x fill_state \<Rightarrow> bool" where
  "grown hist s t \<longleftrightarrow> suffix (fills_of hist s) (fills_of hist t) \<and> set (fs_seen s) \<subseteq> set (fs_seen t)"

lemma grown_relation: "action_relation (grown hist)"
  by unfold_locales (auto simp: grown_def intro: suffix_order.trans)

lemma history_billed: "serves_history api hist \<Longrightarrow> well_billed (fills_of hist s)"
  by (simp add: serves_history_def fills_of_def)

lemma tracked_grown:
  assumes "serves_history api hist" and "tracked hist s" and "grown hist s t" and "service_ok t" and "cursor_of t = cursor_of s"
  shows "tracked hist t"
proof -
  obtain new where new: "fills_of hist t = new @ fills_of hist s" using assms(3) by (auto simp: grown_def suffix_def)
  have "well_billed (new @ fills_of hist s)" using history_billed [OF assms(1), of t] new by metis
  moreover have "cursor_kept (fills_of hist s) (set (fs_seen s)) (cursor_of s)" "set (fs_seen s) \<subseteq> set (fs_seen t)"
    using assms(2,3) by (simp_all add: tracked_def grown_def)
  ultimately have "cursor_kept (new @ fills_of hist s) (set (fs_seen t)) (cursor_of s)" by (rule cursor_grown)
  with assms(4,5) new show ?thesis by (simp add: tracked_def)
qed

text \<open>A step that leaves the cursors alone keeps the tracking.\<close>

abbreviation quiet :: "('x \<Rightarrow> jobj list) \<Rightarrow> ('x, 'a) fill_action \<Rightarrow> bool" where
  "quiet hist m \<equiv> behaves (exchange_frame.steady_le (growing hist)) service_ok (\<lambda>_. True) m"

lemma quiet_run:
  assumes h: "serves_history api hist" and m: "quiet hist m" and s: "service_ok s" and run: "m s = (r, t)"
  shows "service_ok t" and "fs_cursors t = fs_cursors s" and "grown hist s t"
proof -
  have "service_ok t \<and> exchange_frame.steady_le (growing hist) s t" using m s run by (auto simp: behaves_def dest: spec [of _ s])
  then show "service_ok t" "fs_cursors t = fs_cursors s" "grown hist s t"
    unfolding exchange_frame.steady_le_def [OF history_frame [OF h]] exchange_frame.service_le_def [OF history_frame [OF h]]
      exchange_frame.guarded_le_def [OF history_frame [OF h]]
    by (auto simp: growing_def grown_def fills_of_def)
qed

lemma quiet_tracks:
  assumes "serves_history api hist" and "quiet hist m" and "tracked hist s" and "m s = (r, t)"
  shows "tracked hist t" and "cursor_of t = cursor_of s" and "grown hist s t"
proof -
  note q = quiet_run [OF assms(1,2) _ assms(4)]
  have s: "service_ok s" using assms(3) by (simp add: tracked_def)
  show c: "cursor_of t = cursor_of s" and g: "grown hist s t" using q(2,3) [OF s] by simp_all
  show "tracked hist t" by (rule tracked_grown [OF assms(1,3) g q(1) [OF s] c])
qed

lemma quiet_tracking:
  assumes "serves_history api hist" and "quiet hist m"
  shows "behaves (grown hist) (tracked hist) (\<lambda>_. True) m"
  unfolding behaves_def using quiet_tracks [OF assms] by (metis prod.collapse)

subsection \<open>A page\<close>

lemma rows_of_objects: "rows_of (JList (map JObj xs)) = Inr xs"
proof -
  have "list_all is_obj (map JObj xs)" "map as_obj (map JObj xs) = xs" by (induction xs) (simp_all add: as_obj_def)
  then show ?thesis by (simp only: rows_of_def py_iter.simps bindE_simps if_True)
qed

lemma page_served:
  assumes "serves_history api hist" and "page_of_history api place s = (Inr page, t)"
  shows "page = take 100 (rest_of (fills_of hist t) place)"
proof -
  let ?c = "gd_okx (fs_guard s)"
  let ?args = "[(''instType'', JStr ''SWAP''), (''limit'', JStr ''100''), (''after'', JStr place)]"
  obtain data c where data: "get_fills_history api ''SWAP'' ''100'' place ?c = (Inr data, c)" "rows_of data = Inr page"
    and t: "gd_okx (fs_guard t) = c"
    using assms(2) by (auto simp: page_of_history_def on_okx_def on_guard_def okx_def result_simps split: prod.splits)
  obtain r x where r: "api ''get_fills_history'' ?args (cl_api ?c) = (Inr r, x)" "unwrap ''get_fills_history'' r = Inr data" "cl_api c = x"
    using data(1) by (auto simp: get_fills_history_def query_def sdk_call_def result_simps split: prod.splits)
  then have code: "jget r ''code'' = JStr ''0''" by (auto simp: unwrap_def result_simps Let_def split: if_splits)
  then have "jget r ''data'' = JList (map JObj (take 100 (rest_of (hist x) place)))"
    using assms(1) r(1) unfolding serves_history_def by blast
  then have "data = JList (map JObj (take 100 (rest_of (hist x) place)))"
    using r(2) code by (auto simp: unwrap_def or_default_def jget_def split: option.splits)
  then show ?thesis using data(2) t r(3) by (simp add: rows_of_objects fills_of_def)
qed

lemma page_seen:
  assumes h: "serves_history api hist"
  shows "service_ok s \<Longrightarrow> ingest_fills api env page s = (Inr (), t) \<Longrightarrow> set page \<subseteq> set (fs_seen t)"
proof (induction page arbitrary: s)
  case (Cons raw page)
  let ?one = "bindS (ingest_fill api env raw) (\<lambda>_. saw raw)"
  obtain u where u: "?one s = (Inr (), u)" "ingest_fills api env page u = (Inr (), t)"
    using Cons.prems(2) by (auto simp: ingest_fills_def result_simps)
  have one: "ingest_fills api env [raw] s = (Inr (), u)" using u(1) by (auto simp: ingest_fills_def result_simps returnS_def)
  have q: "quiet hist (ingest_fills api env page')" for page' by (rule exchange_frame.steady_ingest_fills [OF history_frame [OF h]])
  have ok: "service_ok u" by (rule quiet_run(1) [OF h q Cons.prems(1) one])
  have "raw \<in> set (fs_seen u)" using u(1) by (auto simp: result_simps saw_def)
  moreover have "set (fs_seen u) \<subseteq> set (fs_seen t)" using quiet_run(3) [OF h q ok u(2)] by (simp add: grown_def)
  ultimately show ?case using Cons.IH [OF ok u(2)] by auto
qed simp

lemma cursor_of_complete [simp]:
  "get_cursor (complete_cursor now stream mark db) stream = \<lparr>cu_high_water = mark, cu_pending = [], cu_next_after = [], cu_updated_at = now\<rparr>"
  by (simp add: complete_cursor_def save_cursor_def get_cursor_def)

lemma cursor_of_checkpoint [simp]:
  "get_cursor (checkpoint_cursor now stream pending place db) stream =
     \<lparr>cu_high_water = cu_high_water (get_cursor db stream), cu_pending = pending, cu_next_after = place, cu_updated_at = now\<rparr>"
  by (simp add: checkpoint_cursor_def save_cursor_def get_cursor_def)

lemma quiet_simple:
  assumes "serves_history api hist"
  shows "quiet hist (page_of_history api place)" "quiet hist (count_up k n)" "quiet hist (caught_up b)" "quiet hist (ingest_fills api env page)"
  by (rule exchange_frame.steady_page [OF history_frame [OF assms]] exchange_frame.steady_basic(5) [OF history_frame [OF assms]]
      exchange_frame.steady_caught_up [OF history_frame [OF assms]] exchange_frame.steady_ingest_fills [OF history_frame [OF assms]])+

lemma moved_cursor:
  assumes "tracked hist s" and "on_cursors f s = (Inr (), t)" and "cursor_kept (fills_of hist s) (set (fs_seen s)) (get_cursor (f (fs_cursors s)) fill_stream)"
  shows "tracked hist t" and "grown hist s t" and "fills_of hist t = fills_of hist s" and "cursor_of t = get_cursor (f (fs_cursors s)) fill_stream"
  using assms by (auto simp: on_cursors_def tracked_def service_ok_def fills_of_def grown_def)

lemma on_cursors_Inl: "on_cursors f s \<noteq> (Inl e, t)"
  by (simp add: on_cursors_def)

text \<open>What a page leaves: the tracking, and a place that lies beyond the page.\<close>

lemma page_tracked:
  assumes h: "serves_history api hist" and s: "tracked hist s" and place: "cu_next_after (cursor_of s) = place"
    and page: "page = take 100 (rest_of (fills_of hist s) place)" "page \<noteq> []"
    and run: "take_page api env (cu_high_water (cursor_of s)) (newest_of (cu_pending (cursor_of s)) page) place page s = (r, t)"
  shows "tracked hist t \<and> grown hist s t \<and>
    (\<forall>i. r = Inr (Some i) \<longrightarrow> cu_high_water (cursor_of t) = cu_high_water (cursor_of s) \<and> cu_next_after (cursor_of t) = i \<and>
       cu_pending (cursor_of t) = newest_of (cu_pending (cursor_of s)) page \<and>
       length (rest_of (fills_of hist t) i) + 100 \<le> length (rest_of (fills_of hist t) place)) \<and>
    (r = Inr None \<longrightarrow> \<not> in_progress (cursor_of t) \<and> truthy (jget (fs_status t) ''caught_up''))"
proof -
  let ?mark = "cu_high_water (cursor_of s)" and ?newest = "newest_of (cu_pending (cursor_of s)) page" and ?H = "fills_of hist s"
  obtain r1 u where u: "ingest_fills api env page s = (r1, u)" by (cases "ingest_fills api env page s")
  have tu: "tracked hist u" "cursor_of u = cursor_of s" and gu: "grown hist s u" by (rule quiet_tracks [OF h quiet_simple(4) [OF h] s u])+
  show ?thesis
  proof (cases r1)
    case (Inl e)
    then have "r = Inl e" "t = u" using run u by (simp_all add: take_page_def Let_def bindS_def)
    with tu gu show ?thesis by simp
  next
    case (Inr v)
    then have seen: "set page \<subseteq> set (fs_seen u)" using page_seen [OF h, of s env page u] s u by (simp add: tracked_def)
    obtain new where new: "fills_of hist u = new @ ?H" using gu by (auto simp: grown_def suffix_def)
    have kept: "mark_kept ?H (set (fs_seen s)) ?mark" "place_kept ?H (set (fs_seen s)) (cu_pending (cursor_of s)) place"
      using s place by (auto simp: tracked_def cursor_kept_def)
    have H: "well_billed ?H" "well_billed (new @ ?H)" using history_billed [OF h] new by metis+
    note D = gu [unfolded grown_def, THEN conjunct2]
    let ?reached = "?mark \<noteq> [] \<and> ?mark \<in> set (map bill_id page)" and ?exhausted = "length page < 100"
    have run': "(if ?reached \<or> ?exhausted
        then bindS (on_cursors (complete_cursor (fill_now env) fill_stream ?newest)) (\<lambda>_.
             bindS (caught_up (?exhausted \<and> \<not> ?reached)) (\<lambda>_. returnS None))
        else if last (map bill_id page) = place then liftS (Inl (RuntimeError (''OKX fill pagination did not advance after '' @ py_repr (JStr place))))
        else bindS (on_cursors (checkpoint_cursor (fill_now env) fill_stream ?newest (last (map bill_id page)))) (\<lambda>_.
          returnS (Some (last (map bill_id page))))) u = (r, t)"
      using run u Inr by (simp add: take_page_def Let_def bindS_def)
    show ?thesis
    proof (cases "?reached \<or> ?exhausted")
      case True
      have "set (rest_of ?H place) \<subseteq> set (fs_seen s) \<union> set page"
        using True boundary_reached [OF H(1) kept(1) page(1)] last_page [OF page(1)] by auto
      then have "mark_kept ?H (set (fs_seen u)) ?newest"
        using newest_kept [OF H(1) kept(2) page] D seen by (auto simp: mark_kept_def)
      then have m: "mark_kept (fills_of hist u) (set (fs_seen u)) ?newest" using mark_grown [OF H(2)] new by (metis subset_refl)
      obtain w where w: "on_cursors (complete_cursor (fill_now env) fill_stream ?newest) u = (Inr (), w)" by (simp add: on_cursors_def)
      have tw: "tracked hist w" and gw: "grown hist u w" and cw: "\<not> in_progress (cursor_of w)"
        using moved_cursor [OF tu(1) w] m by (simp_all add: cursor_kept_def place_kept_def in_progress_def)
      obtain b where t: "caught_up b w = (Inr (), t)" and r: "r = Inr None"
        using run' True w by (auto simp: bindS_def caught_up_def put_status_def returnS_def)
      have "truthy (jget (fs_status t) ''caught_up'')" using t by (auto simp: caught_up_def result_simps put_status_def)
      with quiet_tracks [OF h quiet_simple(3) [OF h] tw t] cw r action_relation.le_trans [OF grown_relation] gu gw
      show ?thesis by (metis Inr_inject option.distinct(1))
    next
      case False
      let ?i = "bill_id (last page)"
      have i: "last (map bill_id page) = ?i" using page(2) by (simp add: last_map)
      have "\<not> length page < 100" using False by blast
      then have full: "100 \<le> length (rest_of ?H place)" using page(1) by simp
      show ?thesis
      proof (cases "?i = place")
        case True
        then show ?thesis using run' False i tu gu by (auto simp: liftS_def)
      next
        case moved: False
        obtain w where w: "on_cursors (checkpoint_cursor (fill_now env) fill_stream ?newest ?i) u = (Inr (), w)" by (simp add: on_cursors_def)
        have t: "t = w" "r = Inr (Some ?i)" using run' False i moved w by (auto simp: bindS_def returnS_def)
        have "place_kept ?H (set (fs_seen u)) ?newest ?i"
          using moved_on [OF H(1) kept(2) page] D seen by (auto simp: place_kept_def)
        then have p: "place_kept (fills_of hist u) (set (fs_seen u)) ?newest ?i" using place_grown [OF H(2)] new by (metis subset_refl)
        have m: "mark_kept (fills_of hist u) (set (fs_seen u)) ?mark" using mark_grown [OF H(2) kept(1) D] new by simp
        note c = moved_cursor [OF tu(1) w]
        have k: "cursor_kept (fills_of hist u) (set (fs_seen u)) (get_cursor (checkpoint_cursor (fill_now env) fill_stream ?newest ?i (fs_cursors u)) fill_stream)"
          using p m tu(2) by (simp add: cursor_kept_def)
        have "?i \<noteq> []" "?i \<in> bills ?H" "older ?H ?i = drop 100 (rest_of ?H place)" using page_taken [OF H(1) page] H(1) by metis+
        then have "rest_of (new @ ?H) ?i = drop 100 (rest_of ?H place)" using older_grown [OF H(2)] by (simp add: rest_of_def)
        moreover have "length (rest_of ?H place) \<le> length (rest_of (new @ ?H) place)"
          using kept(2) older_grown [OF H(2)] by (auto simp: rest_of_def place_kept_def)
        ultimately have "length (rest_of (fills_of hist t) ?i) + 100 \<le> length (rest_of (fills_of hist t) place)"
          using c(3) [OF k] new t(1) full by simp
        with c [OF k] t tu(2) gu action_relation.le_trans [OF grown_relation gu] show ?thesis by simp
      qed
    qed
  qed
qed

subsection \<open>A catch-up\<close>

lemma empty_page:
  assumes "place_kept H D pending place" and "[] = take 100 (rest_of H place)" and "pending \<noteq> []"
  shows "mark_kept H D pending"
proof -
  have "rest_of H place = []" using assms(2) by simp
  then have "older H place = []" by (auto simp: rest_of_def older_def from_bill_def split: if_splits)
  with assms(1,3) show ?thesis by (auto simp: place_kept_def mark_kept_def)
qed

lemma rest_shorter: "length (rest_of H place) \<le> length H"
  using rest_suffix [of H place] by (metis le_add2 length_append)

lemma place_billed: "serves_history api hist \<Longrightarrow> tracked hist s \<Longrightarrow>
    cu_next_after (cursor_of s) = [] \<or> cu_next_after (cursor_of s) \<in> bills (fills_of hist s)"
  by (auto simp: tracked_def cursor_kept_def place_kept_def)

text \<open>A lead that a catch-up has gained is not lost when the history grows.\<close>

lemma ahead_later:
  assumes h: "serves_history api hist" and s: "tracked hist s" and w: "tracked hist w" and sw: "grown hist s w" and wt: "grown hist w t"
    and less: "length (rest_of (fills_of hist w) i) + 100 \<le> length (rest_of (fills_of hist w) (cu_next_after (cursor_of s)))"
    and i: "cu_next_after (cursor_of w) = i"
  shows "length (rest_of (fills_of hist t) i) + 100 \<le> length (rest_of (fills_of hist t) (cu_next_after (cursor_of s)))"
proof -
  obtain new where new: "fills_of hist t = new @ fills_of hist w" using wt by (auto simp: grown_def suffix_def)
  have H: "well_billed (new @ fills_of hist w)" using history_billed [OF h, of t] new by metis
  have "i \<noteq> []" using less rest_shorter [of "fills_of hist w" "cu_next_after (cursor_of s)"] by (auto simp: rest_of_def split: if_splits)
  then have "rest_of (fills_of hist t) i = rest_of (fills_of hist w) i"
    using place_billed [OF h w] i older_grown [OF H] new by (simp add: rest_of_def)
  moreover have "bills (fills_of hist s) \<subseteq> bills (fills_of hist w)" using sw by (auto simp: grown_def suffix_def)
  then have "length (rest_of (fills_of hist w) (cu_next_after (cursor_of s))) \<le> length (rest_of (fills_of hist t) (cu_next_after (cursor_of s)))"
    using place_billed [OF h s] older_grown [OF H] new by (auto simp: rest_of_def)
  ultimately show ?thesis using less by simp
qed

lemma rest_longer:
  assumes "serves_history api hist" and "tracked hist s" and "grown hist s t"
  shows "length (rest_of (fills_of hist s) (cu_next_after (cursor_of s))) \<le> length (rest_of (fills_of hist t) (cu_next_after (cursor_of s)))"
proof -
  obtain new where new: "fills_of hist t = new @ fills_of hist s" using assms(3) by (auto simp: grown_def suffix_def)
  have "well_billed (new @ fills_of hist s)" using history_billed [OF assms(1), of t] new by metis
  then show ?thesis using assms(2) new older_grown by (auto simp: rest_of_def tracked_def cursor_kept_def place_kept_def)
qed

text \<open>The outcome of a catch-up of at most \<open>n\<close> pages from \<open>s\<close> to \<open>t\<close>.\<close>

definition catches_up :: "('x \<Rightarrow> jobj list) \<Rightarrow> nat \<Rightarrow> 'x fill_state \<Rightarrow> unit result \<Rightarrow> 'x fill_state \<Rightarrow> bool" where
  "catches_up hist n s r t \<longleftrightarrow> tracked hist t \<and> grown hist s t \<and>
     (r = Inr () \<longrightarrow> \<not> in_progress (cursor_of t) \<and> truthy (jget (fs_status t) ''caught_up'') \<or>
        length (rest_of (fills_of hist t) (cu_next_after (cursor_of t))) + 100 * n \<le> length (rest_of (fills_of hist t) (cu_next_after (cursor_of s))))"

lemma catches_up_later:
  assumes "grown hist s v" and "cursor_of v = cursor_of s" and "catches_up hist n v r t"
  shows "catches_up hist n s r t"
  using assms action_relation.le_trans [OF grown_relation assms(1)] by (simp add: catches_up_def)

lemma catches_up_more:
  assumes "grown hist s w" and t: "catches_up hist n w r t"
    and lead: "length (rest_of (fills_of hist t) (cu_next_after (cursor_of w))) + 100 \<le> length (rest_of (fills_of hist t) (cu_next_after (cursor_of s)))"
  shows "catches_up hist (Suc n) s r t"
proof -
  have "grown hist s t" using action_relation.le_trans [OF grown_relation assms(1)] t by (simp add: catches_up_def)
  then show ?thesis using t lead unfolding catches_up_def mult_Suc_right by (auto simp only:)
qed

lemma caught_up_run: "caught_up b s = (r, t) \<Longrightarrow> r = Inr () \<and> fs_cursors t = fs_cursors s \<and> truthy (jget (fs_status t) ''caught_up'')"
  by (auto simp: caught_up_def put_status_def bindS_def)

lemma last_page_tracked:
  assumes h: "serves_history api hist" and s: "tracked hist s" and page: "[] = take 100 (rest_of (fills_of hist s) (cu_next_after (cursor_of s)))"
    and run: "bindS (whenS (cu_pending (cursor_of s) \<noteq> []) (on_cursors (complete_cursor now fill_stream (cu_pending (cursor_of s))))) (\<lambda>_. caught_up True) s = (r, t)"
  shows "catches_up hist n s r t"
proof -
  let ?p = "cu_pending (cursor_of s)"
  have k: "cursor_kept (fills_of hist s) (set (fs_seen s)) (cursor_of s)" using s by (simp add: tracked_def)
  have "\<exists>w. tracked hist w \<and> grown hist s w \<and> \<not> in_progress (cursor_of w) \<and> caught_up True w = (r, t)"
  proof (cases "?p = []")
    case True
    then have "\<not> in_progress (cursor_of s)" using k history_billed [OF h] by (auto simp: in_progress_def cursor_kept_def place_kept_def)
    with s run True action_relation.le_refl [OF grown_relation] show ?thesis by (auto simp: whenS_def bindS_def returnS_def)
  next
    case False
    obtain w where w: "on_cursors (complete_cursor now fill_stream ?p) s = (Inr (), w)" by (simp add: on_cursors_def)
    have "mark_kept (fills_of hist s) (set (fs_seen s)) ?p" using empty_page [OF _ page False] k by (simp add: cursor_kept_def)
    then have "cursor_kept (fills_of hist s) (set (fs_seen s)) (get_cursor (complete_cursor now fill_stream ?p (fs_cursors s)) fill_stream)"
      by (simp add: cursor_kept_def place_kept_def)
    from moved_cursor [OF s w this] run False w show ?thesis by (auto simp: whenS_def bindS_def in_progress_def)
  qed
  then obtain w where w: "tracked hist w" "grown hist s w" "\<not> in_progress (cursor_of w)" "caught_up True w = (r, t)" by blast
  from quiet_tracks [OF h quiet_simple(3) [OF h] w(1,4)] caught_up_run [OF w(4)] w(2,3) action_relation.le_trans [OF grown_relation]
  show ?thesis unfolding catches_up_def by metis
qed

lemma catch_up_pages_tracked:
  assumes h: "serves_history api hist"
  shows "tracked hist s \<Longrightarrow>
    catch_up_pages api env (cu_high_water (cursor_of s)) (cu_pending (cursor_of s)) (cu_next_after (cursor_of s)) n s = (r, t) \<Longrightarrow>
    catches_up hist n s r t"
proof (induction n arbitrary: s)
  case 0
  then show ?case by (simp add: catches_up_def returnS_def action_relation.le_refl [OF grown_relation])
next
  case (Suc n)
  note trans = action_relation.le_trans [OF grown_relation]
  let ?c = "cursor_of s"
  obtain r1 u where u: "page_of_history api (cu_next_after ?c) s = (r1, u)" by (cases "page_of_history api (cu_next_after ?c) s")
  note qu = quiet_tracks [OF h quiet_simple(1) [OF h] Suc.prems(1) u]
  show ?case
  proof (cases r1)
    case (Inl e)
    then show ?thesis using Suc.prems(2) u qu by (auto simp: bindS_def catches_up_def)
  next
    case (Inr page)
    obtain v' where v': "bump ''pages_fetched'' u = (Inr (), v')" by (simp add: count_up_def put_status_def)
    obtain v where v: "count_up ''fetched'' (int (length page)) v' = (Inr (), v)" by (simp add: count_up_def put_status_def)
    note qv' = quiet_tracks [OF h quiet_simple(2) [OF h] qu(1) v']
    note qv = quiet_tracks [OF h quiet_simple(2) [OF h] qv'(1) v]
    have cv: "cursor_of v = ?c" and gv: "grown hist s v" using qu qv' qv trans by metis+
    have "fills_of hist v = fills_of hist u" using v v' by (auto simp: fills_of_def count_up_def put_status_def)
    then have page: "page = take 100 (rest_of (fills_of hist v) (cu_next_after (cursor_of v)))"
      using page_served [OF h u [unfolded Inr]] cv by simp
    have steps: "bindS (page_of_history api (cu_next_after ?c)) f s = f page u" "bindS (bump ''pages_fetched'') g u = g () v'"
      "bindS (count_up ''fetched'' (int (length page))) g v' = g () v" for f g
      using u Inr v v' by (simp_all add: bindS_def)
    have run: "(if page = []
        then bindS (whenS (cu_pending ?c \<noteq> []) (on_cursors (complete_cursor (fill_now env) fill_stream (cu_pending ?c)))) (\<lambda>_. caught_up True)
        else if list_ex (\<lambda>i. i = []) (map bill_id page) then liftS (Inl (ValueError ''OKX fill history page is missing billId''))
        else bindS (take_page api env (cu_high_water ?c) (newest_of (cu_pending ?c) page) (cu_next_after ?c) page) (\<lambda>next_after.
          case next_after of
            None \<Rightarrow> returnS ()
          | Some i \<Rightarrow> catch_up_pages api env (cu_high_water ?c) (newest_of (cu_pending ?c) page) i n)) v = (r, t)"
      using Suc.prems(2) unfolding catch_up_pages.simps Let_def newest_of_def steps .
    show ?thesis
    proof (cases "page = []")
      case True
      have "[] = take 100 (rest_of (fills_of hist v) (cu_next_after (cursor_of v)))" using page True by simp
      moreover have "bindS (whenS (cu_pending (cursor_of v) \<noteq> []) (on_cursors (complete_cursor (fill_now env) fill_stream (cu_pending (cursor_of v)))))
          (\<lambda>_. caught_up True) v = (r, t)"
        using run unfolding if_P [OF True] cv .
      ultimately have "catches_up hist (Suc n) v r t" by (rule last_page_tracked [OF h qv(1)])
      then show ?thesis by (rule catches_up_later [OF gv cv])
    next
      case False
      show ?thesis
      proof (cases "list_ex (\<lambda>i. i = []) (map bill_id page)")
        case True
        then show ?thesis using run False qv(1) gv by (auto simp: liftS_def catches_up_def)
      next
        case billed: False
        obtain r2 w where w: "take_page api env (cu_high_water ?c) (newest_of (cu_pending ?c) page) (cu_next_after ?c) page v = (r2, w)"
          by (cases "take_page api env (cu_high_water ?c) (newest_of (cu_pending ?c) page) (cu_next_after ?c) page v")
        note p = page_tracked [OF h qv(1) refl page False, unfolded cv, OF w]
        then have tw: "tracked hist w" and gw: "grown hist s w" using gv trans by blast+
        show ?thesis
        proof (cases r2)
          case (Inl e)
          then show ?thesis using run False billed w tw gw by (auto simp: bindS_def catches_up_def)
        next
          case step: (Inr next_after)
          show ?thesis
          proof (cases next_after)
            case None
            then show ?thesis using run False billed w tw gw p step by (auto simp: bindS_def catches_up_def returnS_def)
          next
            case (Some i)
            then have c: "cu_high_water (cursor_of w) = cu_high_water ?c" "cu_next_after (cursor_of w) = i"
              "cu_pending (cursor_of w) = newest_of (cu_pending ?c) page"
              and less: "length (rest_of (fills_of hist w) i) + 100 \<le> length (rest_of (fills_of hist w) (cu_next_after ?c))"
              using p step by auto
            have "catch_up_pages api env (cu_high_water (cursor_of w)) (cu_pending (cursor_of w)) (cu_next_after (cursor_of w)) n w = (r, t)"
              using run False billed w step Some c by (simp add: bindS_def)
            from Suc.IH [OF tw this] have w': "catches_up hist n w r t" .
            then have "grown hist w t" by (simp add: catches_up_def)
            from ahead_later [OF h Suc.prems(1) tw gw this less c(2)] show ?thesis
              unfolding c(2) [symmetric] by (rule catches_up_more [OF gw w'])
          qed
        qed
      qed
    qed
  qed
qed

lemma catch_up_tracked:
  assumes "serves_history api hist" and "tracked hist s" and "catch_up_fills api env s = (r, t)"
  shows "catches_up hist (fe_max_pages env) s r t"
proof -
  have "(if in_progress (cursor_of s) then cu_next_after (cursor_of s) else []) = cu_next_after (cursor_of s)" by (simp add: in_progress_def)
  then have "catch_up_pages api env (cu_high_water (cursor_of s)) (cu_pending (cursor_of s)) (cu_next_after (cursor_of s)) (fe_max_pages env) s = (r, t)"
    using assms(3) by (simp add: catch_up_fills_def bindS_def getS_def)
  then show ?thesis by (rule catch_up_pages_tracked [OF assms(1,2)])
qed

subsection \<open>Ticks\<close>

lemma behaves_pair: "(\<And>a b. behaves le safe Q (f a b)) \<Longrightarrow> behaves le safe Q (case p of (a, b) \<Rightarrow> f a b)"
  by (cases p) simp

lemma behaves_if: "behaves le safe Q m \<Longrightarrow> behaves le safe Q k \<Longrightarrow> behaves le safe Q (if b then m else k)"
  by simp

lemma catch_up_tracking: "serves_history api hist \<Longrightarrow> behaves (grown hist) (tracked hist) (\<lambda>_. True) (catch_up_fills api env)"
  unfolding behaves_def using catch_up_tracked by (metis catches_up_def prod.collapse)

lemma tick_tracking:
  assumes h: "serves_history api hist"
  shows "behaves (grown hist) (tracked hist) (\<lambda>_. True) (fill_tick api env)"
proof -
  note frame = history_frame [OF h]
  note bind = action_relation.bind [OF grown_relation]
  note quiet = quiet_tracking [OF h]
  note steady = exchange_frame.steady_basic [OF frame] exchange_frame.steady_gaps [OF frame] exchange_frame.steady_health [OF frame]
    exchange_frame.steady_drops [OF frame] exchange_frame.steady_drain [OF frame] exchange_frame.steady_revive [OF frame]
    exchange_frame.steady_reconcile_orders [OF frame] exchange_frame.steady_reconcile_protections [OF frame]
  have poll: "behaves (grown hist) (tracked hist) (\<lambda>_. True) (poll_rest api env dropped)" for dropped
    unfolding poll_rest_def
    by (intro bind [where Q = "\<lambda>_. True"] behaves_try [OF grown_relation] catch_up_tracking [OF h] quiet steady)
  have gather: "behaves (grown hist) (tracked hist) (\<lambda>_. True) (gather api env)"
    unfolding gather_def by (intro behaves_pair behaves_if bind [where Q = "\<lambda>_. True"] poll quiet steady)
  have outcome: "behaves (grown hist) (tracked hist) (\<lambda>_. True) (case failure of None \<Rightarrow> returnS () | Some e \<Rightarrow> liftS (Inl e))" for failure
    by (cases failure) (simp_all add: quiet steady)
  then show ?thesis unfolding fill_tick_def by (intro bind [where Q = "\<lambda>_. True"] gather outcome quiet steady)
qed

text \<open>The service from its first start on: ticks, and between them whatever the other services do to the
  shared stores while OKX adds fills.\<close>

inductive served :: "'x sdk \<Rightarrow> ('x \<Rightarrow> jobj list) \<Rightarrow> 'x fill_state \<Rightarrow> bool" for api :: "'x sdk" and hist where
  fresh: "service_ok s \<Longrightarrow> fs_cursors s = [] \<Longrightarrow> served api hist s"
| tick: "served api hist s \<Longrightarrow> served api hist (snd (fill_tick api env s))"
| meanwhile: "served api hist s \<Longrightarrow> service_ok t \<Longrightarrow> fs_cursors t = fs_cursors s \<Longrightarrow> grown hist s t \<Longrightarrow> served api hist t"

lemma served_tracked:
  assumes h: "serves_history api hist" and "served api hist s"
  shows "tracked hist s"
  using assms(2)
proof induction
  case (fresh s)
  then show ?case by (simp add: tracked_def cursor_kept_def mark_kept_def place_kept_def get_cursor_def)
next
  case (tick s env)
  then show ?case using tick_tracking [OF h, of env] by (simp add: behaves_def)
next
  case (meanwhile s t)
  then show ?case using tracked_grown [OF h] by metis
qed

text \<open>C10: Under OKX's contract for the history, whenever the service has been started, ticked and
  interrupted in any way, every fill at or below its high-water mark has gone through the ingestion: a
  catch-up that is spread over pages and ticks, that breaks off in exceptions and meets new fills at the
  front of the list, skips none.\<close>

theorem catch_up_skips_no_fill:
  assumes "serves_history api hist" and "served api hist s" and "cu_high_water (cursor_of s) \<noteq> []"
  shows "set (from_bill (fills_of hist s) (cu_high_water (cursor_of s))) \<subseteq> set (fs_seen s) \<and>
    cu_high_water (cursor_of s) \<in> bill_id ` set (fills_of hist s)"
  using served_tracked [OF assms(1,2)] assms(3) by (auto simp: tracked_def cursor_kept_def mark_kept_def)

text \<open>C13: Under the same contract, a catch-up that raises no exception either reaches the end - the cursor
  is complete and the tick reports that it has caught up - or its place in the history has moved on by a
  hundred fills for each page that one tick may read. So a backlog of fills takes a bounded number of ticks.\<close>

theorem catch_up_finishes:
  assumes "serves_history api hist" and "served api hist s" and "catch_up_fills api env s = (Inr (), t)"
  shows "\<not> in_progress (cursor_of t) \<and> truthy (jget (fs_status t) ''caught_up'') \<or>
    length (rest_of (fills_of hist t) (cu_next_after (cursor_of t))) + 100 * fe_max_pages env
      \<le> length (rest_of (fills_of hist t) (cu_next_after (cursor_of s)))"
  using catch_up_tracked [OF assms(1) served_tracked [OF assms(1,2)] assms(3)] by (simp only: catches_up_def simp_thms)

subsection \<open>A sample service\<close>

text \<open>An exchange with a fixed history that has nothing else to tell.\<close>

definition history_kit :: "jobj list \<Rightarrow> unit sdk" where
  "history_kit H name args x =
     (Inr [(''code'', JStr ''0''), (''data'', JList (if name = ''get_fills_history''
        then map JObj (take 100 (rest_of H (text_of (jget args ''after'')))) else []))], x)"

definition sample_history :: "jobj list" where
  "sample_history =
     [[(''billId'', JStr ''8''), (''tradeId'', JStr ''f8''), (''ordId'', JStr ''o9''), (''fillSz'', JStr ''1''), (''fillPx'', JStr ''100'')],
      [(''billId'', JStr ''7''), (''tradeId'', JStr ''f7''), (''ordId'', JStr ''o1''), (''clOrdId'', JStr ''c1''), (''fillSz'', JStr ''2''), (''fillPx'', JStr ''100'')]]"

definition sample_fill_env :: fill_env where
  "sample_fill_env = \<lparr>fe_guard = sample_guard_env, fe_fresh = (\<lambda>c. c), fe_instrument = (\<lambda>_. None), fe_utc = (\<lambda>_. Inr ''t0''),
     fe_iso = (\<lambda>_. Some 0), fe_now = 0, fe_monotonic = 0, fe_stream_on = False, fe_stream = None, fe_mutations = True,
     fe_protecting = True, fe_max_pages = 2, fe_stale_after = 60, fe_missing_after = 30, fe_poll_interval = 5, fe_gap_alert = 60,
     fe_health_stale = 15\<rparr>"

definition sample_service :: "store \<Rightarrow> 'x \<Rightarrow> 'x fill_state" where
  "sample_service st x = \<lparr>fs_guard = \<lparr>gd_pos = st, gd_audit = xs_audit sample_state, gd_risk = sample_limits, gd_entry = True,
       gd_okx = \<lparr>cl_armed = True, cl_entry = True, cl_api = x\<rparr>\<rparr>,
     fs_trades = sample_db, fs_cursors = [], fs_status = [], fs_events = [], fs_next_poll = 0, fs_next_retry = 0, fs_backoff = 5,
     fs_last_rest = [], fs_reconciled_drops = 0, fs_failure_at = JStr [], fs_failure_reasons = JList [], fs_seen = []\<rparr>"

lemma sample_service_ok: "store_ok st \<Longrightarrow> service_ok (sample_service st x)"
  by (simp add: service_ok_def guard_ok_def sample_service_def sample_state_ok trades_ok_def sample_db_def sample_trade_def)

lemma sample_history_served: "serves_history (history_kit sample_history) (\<lambda>_. sample_history)"
proof -
  have "well_billed sample_history" by code_simp
  moreover have "jget [(''code'', JStr ''0''), (''data'', d)] ''data'' = d" for d by (simp add: jget_def)
  moreover have "text_of (jget [(''instType'', JStr ''SWAP''), (''limit'', JStr ''100''), (''after'', JStr place)] ''after'') = place" for place
    by (simp add: jget_def)
  ultimately show ?thesis unfolding serves_history_def history_kit_def by auto
qed

theorem catch_up_skips_no_fill_witness:
  "set sample_history \<subseteq> set (fs_seen (snd (fill_tick (history_kit sample_history) sample_fill_env (sample_service empty_store ()))))"
proof -
  let ?t = "snd (fill_tick (history_kit sample_history) sample_fill_env (sample_service empty_store ()))"
  have "served (history_kit sample_history) (\<lambda>_. sample_history) (sample_service empty_store ())"
    using sample_service_ok [OF empty_store_ok] by (rule served.fresh) (simp add: sample_service_def)
  then have s: "served (history_kit sample_history) (\<lambda>_. sample_history) ?t" by (rule served.tick)
  have mark: "cu_high_water (cursor_of ?t) = ''8''" by code_simp
  have "from_bill sample_history ''8'' = sample_history" by code_simp
  then show ?thesis using catch_up_skips_no_fill [OF sample_history_served s] mark by (simp add: fills_of_def)
qed

theorem catch_up_finishes_witness:
  "\<exists>t. catch_up_fills (history_kit sample_history) sample_fill_env (sample_service empty_store ()) = (Inr (), t) \<and> \<not> in_progress (cursor_of t)"
proof -
  have s: "served (history_kit sample_history) (\<lambda>_. sample_history) (sample_service empty_store ())"
    using sample_service_ok [OF empty_store_ok] by (rule served.fresh) (simp add: sample_service_def)
  have "fst (catch_up_fills (history_kit sample_history) sample_fill_env (sample_service empty_store ())) = Inr ()" by code_simp
  then obtain t where t: "catch_up_fills (history_kit sample_history) sample_fill_env (sample_service empty_store ()) = (Inr (), t)"
    by (metis prod.collapse)
  have "length (rest_of sample_history place) \<le> 2" for place
    using rest_shorter [of sample_history place] by (simp add: sample_history_def)
  moreover have "fe_max_pages sample_fill_env = 2" by (simp add: sample_fill_env_def)
  ultimately have "\<not> length (rest_of sample_history a) + 100 * fe_max_pages sample_fill_env \<le> length (rest_of sample_history b)" for a b
    by (metis add_leD2 le_trans mult_2_right nat_1_add_1 numeral_le_iff semiring_norm)
  then show ?thesis using catch_up_finishes [OF sample_history_served s t] t by (auto simp: fills_of_def)
qed

end
