(* ===== verification/FillServiceProperties.thy ===== *)
theory FillServiceProperties
  imports FillHistory
begin

section \<open>The execution fill service: properties\<close>

text \<open>
  Whatever OKX and the private stream deliver, the fill service keeps the books consistent, opens no
  exposure and never turns entries on; entries that are still on after a tick mean that the view of the
  exchange is healthy and every open quantity has an active stop; and the catch-up loses no fill of a history
  that OKX serves page by page, and gets to its end.
\<close>

subsection \<open>Runs of ticks\<close>

definition fill_step :: "'x sdk \<Rightarrow> fill_env \<Rightarrow> ('x \<times> sdk_log) fill_state \<Rightarrow> ('x \<times> sdk_log) fill_state" where
  "fill_step api env s = snd (fill_tick (recorded api) env s)"

interpretation fill_runs: forward_steps "fill_step api" "\<lambda>_. True" service_ok no_exposure.service_le for api :: "'x sdk"
  using no_exposure.serving_tick [of api]
  by unfold_locales
    (auto simp: behaves_def fill_step_def no_exposure.service_le_refl intro: no_exposure.service_le_trans)

text \<open>C12: However many ticks of the fill service run, whatever OKX and the stream answer and whichever of them
  raise, the stores stay consistent, no recorded fill or order link is lost, trades move only forward,
  entries are never turned on, and no call that the service sends can open exposure.\<close>

theorem fill_service_keeps_books:
  assumes "service_ok s"
  shows "service_ok (run_steps (fill_step api) envs s) \<and>
    guard_le (fs_guard s) (fs_guard (run_steps (fill_step api) envs s)) \<and>
    trade_le (fs_trades s) (fs_trades (run_steps (fill_step api) envs s)) \<and>
    opens_nothing (gd_okx (fs_guard s)) (gd_okx (fs_guard (run_steps (fill_step api) envs s)))"
  using fill_runs.run_keeps [OF assms, of envs api] fill_runs.run_forward [OF assms, of envs api]
  by (simp add: list_all_iff no_exposure.service_le_def no_exposure.guarded_le_def)

subsection \<open>Entries that stay on\<close>

interpretation any_exchange: exchange_frame api "\<lambda>_ _. True" for api :: "'x sdk"
  by unfold_locales simp_all

lemma stays_off:
  assumes "any_exchange.serving m" and "service_ok s" and "m s = (r, t)"
  shows "service_ok t \<and> (gd_entry (fs_guard t) \<longrightarrow> gd_entry (fs_guard s))"
  using assms by (auto simp: behaves_def any_exchange.service_le_def any_exchange.guarded_le_def guard_le_def dest!: spec [of _ s])

lemma entries_off_Inr: "entries_off env s = (Inr u, t) \<Longrightarrow> \<not> gd_entry (fs_guard t)"
  by (auto simp: entries_off_def on_guard_def bindS_def disable_entries_def split: prod.splits sum.splits)

definition is_protected :: "store \<Rightarrow> position \<Rightarrow> bool" where
  "is_protected st p \<longleftrightarrow> unit_quantity p \<le> 0 \<or> (\<exists>pr. get_protection st (p_id p) = Some pr \<and> pr_status pr = PActive)"

lemma serving_gap: "any_exchange.serving (track_gap env p)"
  unfolding track_gap_def follow_gap_def gap_start_def oldest_gap_def alert_gap_def Let_def
  by (rule any_exchange.serving_steady) (auto split: option.split prod.split)

lemma in_store_run [simp]: "in_store f s = (Inr (f (gd_pos (fs_guard s))), s)"
  by (simp add: in_store_def on_guard_def units_def)

lemma track_gap_on:
  assumes ok: "service_ok s" and run: "track_gap env p s = (Inr (), t)" and on: "gd_entry (fs_guard t)"
  shows "t = s \<and> is_protected (gd_pos (fs_guard s)) p"
proof (cases "is_protected (gd_pos (fs_guard s)) p")
  case True
  then show ?thesis using run by (auto simp: track_gap_def is_protected_def bindS_def returnS_def split: if_splits)
next
  case False
  then have eq: "track_gap env p s = bindS (bump ''unprotected_positions'') (\<lambda>_. bindS (entries_off env) (\<lambda>_. follow_gap env p)) s"
    by (auto simp: track_gap_def is_protected_def bindS_def split: option.splits)
  then obtain u v where u: "bump ''unprotected_positions'' s = (Inr (), u)" "entries_off env u = (Inr (), v)" "follow_gap env p v = (Inr (), t)"
    using run unfolding eq by (auto simp: result_simps)
  have "any_exchange.serving (bump ''unprotected_positions'')" "any_exchange.serving (entries_off env)" "any_exchange.serving (follow_gap env p)"
    unfolding follow_gap_def gap_start_def oldest_gap_def alert_gap_def Let_def
    by (rule any_exchange.serving_steady, auto split: option.split prod.split)+
  with stays_off ok u entries_off_Inr [OF u(2)] on show ?thesis by metis
qed

lemma track_gaps_on:
  "service_ok s \<Longrightarrow> eachS (track_gap env) ps s = (Inr (), t) \<Longrightarrow> gd_entry (fs_guard t) \<Longrightarrow>
    t = s \<and> list_all (is_protected (gd_pos (fs_guard s))) ps"
proof (induction ps arbitrary: s)
  case (Cons p ps)
  from Cons.prems(2) obtain u where u: "track_gap env p s = (Inr (), u)" "eachS (track_gap env) ps u = (Inr (), t)"
    by (auto simp: result_simps)
  have "service_ok u" using stays_off [OF serving_gap Cons.prems(1) u(1)] by simp
  from Cons.IH [OF this u(2) Cons.prems(3)] track_gap_on [OF Cons.prems(1) u(1)] Cons.prems(3) show ?case by auto
qed (simp add: returnS_def)

lemma all_clear_cong:
  assumes "\<And>k. k \<notin> set [''healthy'', ''health_state'', ''health_reasons'', ''status_age_seconds'', ''service_available'', ''last_health_failure_at'',
      ''last_health_failure_reasons''] \<Longrightarrow> jget status' k = jget status k"
  shows "all_clear status' \<longleftrightarrow> all_clear status"
  by (simp add: all_clear_def counter_def health_fields_def assms)

lemma evaluated_status:
  assumes "evaluate_execution_health clock now limit status = Inr r"
  shows "\<exists>b. jget r ''healthy'' = JBool b"
    and "k \<notin> set [''healthy'', ''health_state'', ''health_reasons'', ''status_age_seconds'', ''service_available''] \<Longrightarrow> jget r k = jget status k"
proof -
  have h: "\<exists>status' state reasons age. r = with_health status' state reasons age \<and> (k \<noteq> ''service_available'' \<longrightarrow> jget status' k = jget status k)"
  proof (cases "status = [] \<or> \<not> truthy (jget status ''service_available'')")
    case True
    let ?status = "tset ''service_available'' (JBool False) status"
    have "r = with_health ?status ''unavailable'' [''execution fill service status is unavailable''] None"
      using assms True by (auto simp: evaluate_execution_health_def)
    moreover have "k \<noteq> ''service_available'' \<longrightarrow> jget ?status k = jget status k" by simp
    ultimately show ?thesis by blast
  next
    case False
    then show ?thesis using assms by (auto simp: evaluate_execution_health_def Let_def result_simps split: if_splits)
  qed
  then show "\<exists>b. jget r ''healthy'' = JBool b" by (auto simp: with_health_healthy)
  show "k \<notin> set [''healthy'', ''health_state'', ''health_reasons'', ''status_age_seconds'', ''service_available''] \<Longrightarrow> jget r k = jget status k"
    using h by (auto simp: with_health_def tmerge_def)
qed

lemma judged_on:
  assumes run: "judge_health env s = (Inr (), t)" and env: "fe_mutations env" and on: "gd_entry (fs_guard t)"
  shows "fs_guard t = fs_guard s \<and> all_clear (fs_status t)"
proof -
  let ?raw = "tset ''stale_after_seconds'' (JFloat (PFin (fe_health_stale env))) (fs_status s)"
  obtain evaluated where e: "evaluate_execution_health (fe_iso env) (fe_now env) (JInt 15) ?raw = Inr evaluated"
    using run by (auto simp: judge_health_def result_simps put_status_def getS_def)
  obtain status v w where r: "remember_failure evaluated (s\<lparr>fs_status := ?raw\<rparr>) = (Inr status, v)"
    and off: "whenS (fe_mutations env \<and> \<not> truthy (jget status ''healthy'')) (entries_off env) (v\<lparr>fs_status := status\<rparr>) = (Inr (), w)"
    and t: "t = w\<lparr>fs_events := fs_events w @ [(''execution.fills_polled'', status)]\<rparr>"
    using run e unfolding judge_health_def by (auto simp: result_simps put_status_def getS_def publish_def liftS_def)
  have v: "fs_guard v = fs_guard s" and status: "\<exists>a b. status = tmerge evaluated [(''last_health_failure_at'', a), (''last_health_failure_reasons'', b)]"
    using r by (auto simp: remember_failure_def Let_def)
  have healthy: "truthy (jget status ''healthy'')"
  proof (rule ccontr)
    assume "\<not> ?thesis"
    then have "entries_off env (v\<lparr>fs_status := status\<rparr>) = (Inr (), w)" using off env by (simp add: whenS_def)
    from entries_off_Inr [OF this] on t show False by simp
  qed
  then have w: "w = v\<lparr>fs_status := status\<rparr>" using off by (simp add: whenS_def returnS_def)
  have same: "jget status k = jget evaluated k" if "k \<noteq> ''last_health_failure_at''" "k \<noteq> ''last_health_failure_reasons''" for k
    using status that by (auto simp: tmerge_def)
  have "is_healthy (evaluate_execution_health (fe_iso env) (fe_now env) (JInt 15) ?raw)"
    using evaluated_status(1) [OF e] e healthy same [of "''healthy''"] by (auto simp: is_healthy_def)
  then have "all_clear ?raw" unfolding healthy_status by simp
  moreover have "all_clear (fs_status t) \<longleftrightarrow> all_clear ?raw"
    by (rule all_clear_cong) (simp add: t w same evaluated_status(2) [OF e])
  ultimately show ?thesis using t w v by simp
qed

text \<open>C11: Entries that are still on when a tick of the service ends without an exception - with order mutations
  allowed - mean that every check of the execution health is clear: history caught up, stream connected, no
  fill, order or protection in doubt; and that every open quantity has an active stop. Otherwise the tick
  has switched them off.\<close>

theorem entries_on_means_all_clear:
  assumes "service_ok s" and "fill_tick api env s = (Inr (), t)" and "fe_mutations env" and "gd_entry (fs_guard t)"
  shows "all_clear (fs_status t) \<and> list_all (is_protected (gd_pos (fs_guard t))) (list_active (gd_pos (fs_guard t)))"
proof -
  have "\<exists>failure u. gather api env s = (Inr failure, u) \<and> (\<exists>x v. track_protection_gaps env u = (Inr x, v) \<and>
      (\<exists>y w. judge_health env v = (Inr y, w) \<and> (case failure of None \<Rightarrow> returnS () | Some e \<Rightarrow> liftS (Inl e)) w = (Inr (), t)))"
    using assms(2) unfolding fill_tick_def bindS_Inr .
  then obtain failure u x v y w where u: "gather api env s = (Inr failure, u)" and v': "track_protection_gaps env u = (Inr x, v)"
    and w': "judge_health env v = (Inr y, w)" and t: "(case failure of None \<Rightarrow> returnS () | Some e \<Rightarrow> liftS (Inl e)) w = (Inr (), t)"
    by blast
  have v: "track_protection_gaps env u = (Inr (), v)" and w: "judge_health env v = (Inr (), w)" using v' w' by simp_all
  have "t = w" using t by (cases failure) (simp_all add: returnS_def liftS_def)
  then have j: "fs_guard t = fs_guard v" "all_clear (fs_status t)" using judged_on [OF w assms(3)] assms(4) by simp_all
  have "service_ok u" using stays_off [OF any_exchange.serving_gather assms(1) u] by simp
  moreover have "eachS (track_gap env) (list_active (gd_pos (fs_guard u))) u = (Inr (), v)"
    using v by (simp add: track_protection_gaps_def bindS_def)
  ultimately have "v = u \<and> list_all (is_protected (gd_pos (fs_guard u))) (list_active (gd_pos (fs_guard u)))"
    by (rule track_gaps_on) (use j(1) assms(4) in simp)
  with j show ?thesis by simp
qed

subsection \<open>Sample runs\<close>

definition protected_unit :: store where
  "protected_unit = snd (save_protection ''t0'' sample_stop (put_position (sample_unit ''p1'' 3) empty_store))"

lemma protected_unit_ok: "store_ok protected_unit"
proof -
  have "store_ok (put_position (sample_unit ''p1'' 3) empty_store)"
    by (rule put_position_ok [OF empty_store_ok]) (simp_all add: quantities_ok_def sample_unit_def client_taken_def empty_store_def)
  then show ?thesis unfolding protected_unit_def by (simp add: save_protection_ok)
qed

theorem fill_service_keeps_books_witness:
  "service_ok (run_steps (fill_step (history_kit sample_history)) [sample_fill_env, sample_fill_env] (sample_service (xs_pos sample_state) ((), []))) \<and>
   trade_le sample_db (fs_trades (run_steps (fill_step (history_kit sample_history)) [sample_fill_env, sample_fill_env]
     (sample_service (xs_pos sample_state) ((), []))))"
proof -
  let ?s = "sample_service (xs_pos sample_state) ((), []) :: (unit \<times> sdk_log) fill_state"
  have "service_ok ?s" by (rule sample_service_ok [OF sample_state_ok(1)])
  moreover have "fs_trades ?s = sample_db" by (simp add: sample_service_def)
  ultimately show ?thesis using fill_service_keeps_books [of ?s] by metis
qed

text \<open>A unit whose stop is active, between two polls, and nothing in doubt: entries stay on.\<close>

definition waiting_service :: "unit fill_state" where
  "waiting_service = (sample_service protected_unit ())\<lparr>fs_next_poll := 5, fs_last_rest := [(''caught_up'', JBool True)]\<rparr>"

theorem entries_on_means_all_clear_witness:
  "\<exists>t. fill_tick (history_kit []) sample_fill_env waiting_service = (Inr (), t) \<and>
     all_clear (fs_status t) \<and> list_all (is_protected (gd_pos (fs_guard t))) (list_active (gd_pos (fs_guard t))) \<and>
     map p_id (list_active (gd_pos (fs_guard t))) = [''p1'']"
proof -
  have "case fill_tick (history_kit []) sample_fill_env waiting_service of
      (r, t) \<Rightarrow> r = Inr () \<and> gd_entry (fs_guard t) \<and> map p_id (list_active (gd_pos (fs_guard t))) = [''p1'']"
    by code_simp
  then obtain t where t: "fill_tick (history_kit []) sample_fill_env waiting_service = (Inr (), t)" "gd_entry (fs_guard t)"
      "map p_id (list_active (gd_pos (fs_guard t))) = [''p1'']"
    by (cases "fill_tick (history_kit []) sample_fill_env waiting_service") auto
  have "service_ok waiting_service"
    using sample_service_ok [OF protected_unit_ok, of "()"] by (simp add: waiting_service_def service_ok_def)
  moreover have "fe_mutations sample_fill_env" by (simp add: sample_fill_env_def)
  ultimately have r: "all_clear (fs_status t) \<and> list_all (is_protected (gd_pos (fs_guard t))) (list_active (gd_pos (fs_guard t)))"
    using entries_on_means_all_clear [OF _ t(1) _ t(2)] by blast
  show ?thesis by (intro exI [where x = t] conjI t(1,3) conjunct1 [OF r] conjunct2 [OF r])
qed

end
