(* ===== verification/Spec2Isabelle.thy ===== *)
theory Spec2Isabelle
  imports SignalEngine NotificationDelivery ExecutionProperties ProtectionClient EntrySubmission FillServiceProperties
begin

section \<open>The Maybech trading runtime\<close>

text \<open>
  Maybech is a Python daemon that trades perpetual swaps on OKX. It keeps its own books: \<^bold>\<open>logical
  positions\<close>, several of which may share one net position of the exchange, each with its fills, its close
  conditions and one protective stop on the exchange. Its safety rests on a few promises, and this
  development states and proves them for definitions that are translated from the code: an entry is sent
  only after the account risk gate has approved it; an accepted entry ends with a proved stop, or entries
  are switched off if the switch can be stored; nothing but an entry opens exposure; no fill is lost or booked twice; the books
  balance, and the entry switch is turned on by the operator only.

  The root theory imports every other theory. The properties stand in the theories of the components.
\<close>

subsection \<open>The parts and how they interact\<close>

text \<open>
  All paths are under \<^verbatim>\<open>src/src/\<close>.

  \<^item> \<^bold>\<open>Values.\<close> \<^theory_text>\<open>Prelude\<close> (exceptions, results, computations over a state, keyed tables, interface locales),
    \<^theory_text>\<open>PyValue\<close> (strings, \<^verbatim>\<open>Decimal\<close>, \<^verbatim>\<open>float\<close>, JSON), \<^theory_text>\<open>DecimalContext\<close> (the 28-digit context),
    \<^theory_text>\<open>DoubleFloat\<close> (doubles: the nearest double, the decimal that \<^verbatim>\<open>repr\<close> prints, \<^verbatim>\<open>round(x, 12)\<close>),
    \<^theory_text>\<open>TextColumns\<close> (\<^verbatim>\<open>str(Decimal)\<close> and JSON arrays of strings, printed and read back).
  \<^item> \<^bold>\<open>Rules and signals.\<close> \<^theory_text>\<open>SignalEngine\<close> (\<^verbatim>\<open>trading/signal_engine.py\<close>, \<^verbatim>\<open>signal_context.py\<close>: the
    expressions of conditions and their evaluation), \<^theory_text>\<open>PositionRuleModel\<close> and \<^theory_text>\<open>PositionRuleProperties\<close>
    (\<^verbatim>\<open>position_rule_model.py\<close>: the rules that become close conditions, the break-even target), the exit
    rules in \<^theory_text>\<open>TradeStore\<close> (\<^verbatim>\<open>rules.py\<close>).
  \<^item> \<^bold>\<open>Instruments.\<close> \<^theory_text>\<open>InstrumentConstraints\<close> (\<^verbatim>\<open>instrument_constraints.py\<close>), \<^theory_text>\<open>InstrumentSizing\<close>
    (\<^verbatim>\<open>instrument_metadata.py\<close>, \<^verbatim>\<open>instrument_sizing.py\<close>).
  \<^item> \<^bold>\<open>Stores.\<close> \<^theory_text>\<open>TradeStore\<close> (\<^verbatim>\<open>trade_store.py\<close>), \<^theory_text>\<open>AuditEventStore\<close> (\<^verbatim>\<open>audit_event_store.py\<close>),
    \<^theory_text>\<open>PositionStore\<close> with \<^theory_text>\<open>PositionStoreProperties\<close> and \<^theory_text>\<open>PositionLedger\<close>
    (\<^verbatim>\<open>logical_position_store.py\<close>), the cursor store in \<^theory_text>\<open>FillService\<close>
    (\<^verbatim>\<open>execution_cursor_store.py\<close>). A SQLite table is a keyed table, a transaction a function on the store.
  \<^item> \<^bold>\<open>Fills.\<close> \<^theory_text>\<open>RealizedPnl\<close>, \<^theory_text>\<open>ExecutionAllocation\<close>, \<^theory_text>\<open>ExecutionProperties\<close> (\<^verbatim>\<open>exchange/fills.py\<close>,
    \<^verbatim>\<open>execution_allocation.py\<close>): a fill reported by OKX is matched to its unit by order or client
    order id and booked once; its consequences go to the trade, the close conditions, the protection and
    the audit trail.
  \<^item> \<^bold>\<open>Entries.\<close> \<^theory_text>\<open>PositionReconciliation\<close> (\<^verbatim>\<open>position_reconciliation.py\<close>), \<^theory_text>\<open>AccountRisk\<close>
    (\<^verbatim>\<open>account_risk.py\<close>: the gate), \<^theory_text>\<open>EntryControl\<close> (\<^verbatim>\<open>entry_control.py\<close>: the operator's switch and the
    kill switch), \<^theory_text>\<open>ExchangeClient\<close> (\<^verbatim>\<open>exchange/client.py\<close>: arming and entry flags in front of the
    software kit), \<^theory_text>\<open>OrderExecution\<close> (\<^verbatim>\<open>executor.py\<close>, \<^verbatim>\<open>order_protection.py\<close>: one fill-or-kill order with an
    attached stop that must be proved), \<^theory_text>\<open>EntrySubmission\<close> (\<^verbatim>\<open>entry_submission.py\<close>: the order's outcome in
    the stores).
  \<^item> \<^bold>\<open>Stops.\<close> \<^theory_text>\<open>PositionProtection\<close> (\<^verbatim>\<open>position_protection.py\<close>) over an abstract client,
    \<^theory_text>\<open>ProtectionClient\<close> over the client of \<^theory_text>\<open>ExchangeClient\<close>.
  \<^item> \<^bold>\<open>The fill daemon.\<close> \<^theory_text>\<open>FillService\<close> (\<^verbatim>\<open>daemon/execution_fill_service.py\<close>): one \<open>fill_tick\<close> catches up with
    the history of fills, drains the private stream, reconciles pending orders and stops, tracks gaps of
    protection and judges its health (\<^theory_text>\<open>ExecutionHealth\<close>, \<^verbatim>\<open>execution_health.py\<close>). \<^theory_text>\<open>ServiceFrame\<close>,
    \<^theory_text>\<open>FillHistory\<close> and \<^theory_text>\<open>FillServiceProperties\<close> hold what it promises.
  \<^item> \<^bold>\<open>Notifications.\<close> \<^theory_text>\<open>NotificationDelivery\<close> (\<^verbatim>\<open>daemon/lifecycle_notification_service.py\<close>,
    \<^verbatim>\<open>notifications/repeat_cooldown.py\<close>): the audit events behind a cursor become notifications.
\<close>

subsection \<open>How the code is read\<close>

text \<open>
  \<^item> \<^bold>\<open>Exceptions\<close> are values: \<open>'a result = py_exc + 'a\<close>. A computation over a state \<open>'s\<close> is
    \<open>('s, 'a) action = 's \<Rightarrow> 'a result \<times> 's\<close>: an exception keeps what was committed before it. \<open>bindS\<close>
    sequences, \<open>catchS\<close> and \<open>tryS\<close> are \<^verbatim>\<open>try/except\<close> without and with \<^verbatim>\<open>else\<close>, \<open>ignoring\<close> drops a
    result. Every \<^verbatim>\<open>raise\<close>, early return and \<^verbatim>\<open>except\<close> of the source is a branch of the model.
  \<^item> \<^bold>\<open>Numbers.\<close> A \<^verbatim>\<open>Decimal\<close> is a coefficient and an exponent, an infinity or not-a-number, and every operation
    rounds to 28 digits. A \<^verbatim>\<open>float\<close> that can come from outside is \<open>PFin\<close>, \<open>PInf\<close> or \<open>PNaN\<close> with Python's
    comparisons. A finite \<^verbatim>\<open>float\<close> is represented by the decimal that its \<^verbatim>\<open>repr\<close> prints, a rational, which is what
    \<^verbatim>\<open>Decimal(str(x))\<close>, JSON and messages show of it; \<open>dbl\<close> is the double behind it. The arithmetic of the ledger
    (\<^verbatim>\<open>_validate_allocation\<close>, \<^verbatim>\<open>_apply_allocation_fields\<close>) and \<^verbatim>\<open>float(Decimal)\<close> are computed in doubles, with their
    rounding (\<open>plus12\<close>, \<open>minus12\<close>, \<open>average12\<close>, \<open>exceeds\<close>, \<open>float_decimal\<close>). Elsewhere (velocities and comparisons of signals, sums of
    the reconciliation, realised profit, and the other uses of the \<open>fl_\<close> operations) float arithmetic is the
    exact one on these rationals. The exponent
    range of doubles and texts of more than 15 digits are not modelled.
  \<^item> \<^bold>\<open>Dictionaries\<close> are association lists (order and printing matter); JSON is the datatype \<open>json\<close>. The
    iteration over a Python set is the sorted one.
  \<^item> \<^bold>\<open>The exchange\<close> is a parameter: \<open>'x sdk\<close> maps the name of a method of the OKX kit and its keyword arguments
    to a response over a state of its own type. No law is assumed of it, except in \<^theory_text>\<open>FillHistory\<close>, where the
    fill history is the list that OKX documents (\<open>history_sdk\<close>). The proofs about orders log its calls
    (\<open>recorded\<close>).
  \<^item> \<^bold>\<open>Clock, identifiers, hashes, database failures\<close> are fields of an environment record of the call
    (\<open>guard_env\<close>, \<open>executor_env\<close>, \<open>fill_env\<close>, ...). The clock stands still within one operation; waiting
    does nothing. Parsing and printing of timestamps are functions in the environment.
  \<^item> \<^bold>\<open>Locks\<close> serialise the operations of a service, so that an operation is one step of the model;
    interleaving is the order of steps in a run.
  \<^item> \<open>fs_seen\<close> of \<^theory_text>\<open>FillService\<close> is a history variable: the fills that went through the ingestion.
\<close>

subsection \<open>Lemma groups and interfaces\<close>

text \<open>
  \<^item> \<open>action_relation\<close> (\<^theory_text>\<open>Prelude\<close>): a preorder on states that computations follow; \<open>behaves le safe post m\<close>
    says that \<open>m\<close> follows \<open>le\<close>, keeps \<open>safe\<close> and returns only \<open>post\<close>. Each component proves one \<open>behaves\<close> lemma
    per operation; frame properties of long handlers then are a few lines. Interpreted for the risk cache,
    the kill switch, the quiet and storing steps of the protection service, the executor (its approvals and orders, and
    its entry switch), the client under protection and the submission stores.
  \<^item> \<open>kept_by_steps\<close> and \<open>forward_steps\<close> (\<^theory_text>\<open>Prelude\<close>): an invariant, and a relation, over runs of operations;
    interpreted for the position store, the trade store, the client, the protection
    service and the daemons.
  \<^item> \<open>keyed_table\<close> (\<^theory_text>\<open>Prelude\<close>): lookup after insertion, interpreted on the tables of the stores.
  \<^item> \<open>tick_rounding\<close> (\<^theory_text>\<open>InstrumentConstraints\<close>): rounding to a tick, interpreted for the three
    modes of \<^verbatim>\<open>decimal\<close>.
  \<^item> \<open>exec_relation\<close> (\<^theory_text>\<open>ExecutionProperties\<close>): what every step of the allocation follows, interpreted for the
    order of the books and for "no quantity moved".
  \<^item> \<open>exchange_frame\<close> (\<^theory_text>\<open>ServiceFrame\<close>): a relation that every call of the client follows; its lemmas carry the
    relation, the store invariant and the forward order through the protection service and the fill
    daemon. Interpreted with the calls that open no exposure, with the growing history and with every call.
\<close>

subsection \<open>Bounds of the code, and fuel\<close>

text \<open>
  The loops of the code are bounded by constants, which the model takes over: five looks for the end of an
  order, for its stop and for the removal of a stop; five pages of at most a hundred fills per tick, so that a
  catch-up spreads over ticks (\<open>catch_up_finishes\<close> shows that it ends); lists of the store are limited to 500
  rows where the code passes that limit. Other recursions are structural; no definition needs fuel.
\<close>

subsection \<open>Not modelled\<close>

text \<open>
  \<^item> The HTTP API (\<^verbatim>\<open>api/\<close>): routes and request types over the stores and services modelled here; the LINE
    webhook; the notification channels and the wording of messages.
  \<^item> Strategies (\<^verbatim>\<open>strategy_store.py\<close>, \<^verbatim>\<open>strategy_runtime.py\<close>, \<^verbatim>\<open>daemon/strategy_service.py\<close>), the
    import of positions, market analysis, market intelligence and candle download: they propose entries or
    inform the operator; an entry passes through the parts above.
  \<^item> Threads, timers, websockets, the event bus, process start-up and configuration; SQLite connections, DDL
    migrations and pragmas; the open-interest history of the client, which bypasses the kit.
  \<^item> The constructor errors of a timestamp or number too large for the platform, and text beyond ASCII.
\<close>

end
